(* ===== verification/Prelude.thy ===== *)
theory Prelude
  imports Main "HOL-Library.Word" "HOL-Library.AList" "HOL-Library.Multiset"
begin

text \<open>
  The shared base of the development: the theorem collections the component theories fill,
  the types that several components use, and generic lemmas on options, lists and
  association lists that no single component owns.
\<close>

named_theorems inv_intros \<open>preservation lemmas: one operation keeps its component's invariant\<close>

type_synonym u32 = "32 word"
type_synonym addr = nat
type_synonym ptr = "addr option"

section \<open>Lists\<close>

definition last_opt :: "'a list \<Rightarrow> 'a option" where
  "last_opt xs = (if xs = [] then None else Some (last xs))"

lemma last_opt_Nil [simp]: "last_opt [] = None"
  by (simp add: last_opt_def)

lemma last_opt_snoc [simp]: "last_opt (xs @ [x]) = Some x"
  by (simp add: last_opt_def)

lemma last_opt_Cons [simp]: "last_opt (x # xs) = (if xs = [] then Some x else last_opt xs)"
  by (simp add: last_opt_def)

lemma last_opt_eq_None [simp]: "last_opt xs = None \<longleftrightarrow> xs = []"
  by (simp add: last_opt_def)

lemma last_opt_eq_Some: "last_opt xs = Some x \<longleftrightarrow> (\<exists>ys. xs = ys @ [x])"
  by (cases xs rule: rev_cases) auto

lemma fun_upd_None_dom_single [simp]: "dom m = {a} \<Longrightarrow> m(a := None) = Map.empty"
  by (metis dom_empty dom_eq_empty_conv dom_fun_upd insert_absorb Diff_cancel)

text \<open>Keys stay distinct when the added ones are outside a set that holds the old ones.\<close>

lemma distinct_map_append_disjoint:
  "distinct (map f xs) \<Longrightarrow> distinct (map f ys) \<Longrightarrow> f ` set xs \<subseteq> A \<Longrightarrow> f ` set ys \<inter> A = {} \<Longrightarrow>
   distinct (map f (xs @ ys))"
  by (simp only: map_append distinct_append set_map) blast

section \<open>Strings\<close>

text \<open>A number as printf prints it with \<open>%u\<close>.\<close>

fun dec :: "nat \<Rightarrow> string" where
  "dec n = (if n < 10 then [char_of (48 + n)] else dec (n div 10) @ [char_of (48 + n mod 10)])"

declare dec.simps [simp del]

text \<open>\<open>%d\<close> with a zero padded width (0 for none); a minus sign counts.\<close>

definition zero_pad :: "nat \<Rightarrow> string \<Rightarrow> string" where
  "zero_pad n s = replicate (n - length s) (CHR ''0'') @ s"

definition fmt_d :: "nat \<Rightarrow> int \<Rightarrow> string" where
  "fmt_d width i =
     (if i < 0 then CHR ''-'' # zero_pad (width - 1) (dec (nat (- i))) else zero_pad width (dec (nat i)))"

end
