(* ===== verification/Priority_Queue.thy ===== *)
theory Priority_Queue
  imports Prelude
begin

text \<open>
  The contract between the timer container (gps/utils/LocTimer.cpp) and the heap it extends
  (gps/utils/LocHeap.cpp): a collection of ranked elements whose top no element outranks. The
  client's lemma is about any run of pops: the elements come out in rank order and no element
  left behind outranks one that came out.
\<close>

text \<open>
  \<open>out a b\<close> is a strict weak order on the elements \<open>A\<close> the client uses: what its ranks()
  must implement there.
\<close>

locale rank_order =
  fixes A :: "'a set" and out :: "'a \<Rightarrow> 'a \<Rightarrow> bool"
  assumes out_asym: "a \<in> A \<Longrightarrow> b \<in> A \<Longrightarrow> out a b \<Longrightarrow> \<not> out b a"
    and not_out_trans: "a \<in> A \<Longrightarrow> b \<in> A \<Longrightarrow> c \<in> A \<Longrightarrow> \<not> out a b \<Longrightarrow> \<not> out b c \<Longrightarrow> \<not> out a c"
begin

lemma out_irrefl: "a \<in> A \<Longrightarrow> \<not> out a a"
  using out_asym by blast

lemma not_out_below: "x \<in> A \<Longrightarrow> y \<in> A \<Longrightarrow> d \<in> A \<Longrightarrow> out x d \<Longrightarrow> \<not> out y d \<Longrightarrow> \<not> out y x"
  using out_asym not_out_trans by blast

end

inductive pops :: "('q \<Rightarrow> 'a option \<times> 'q) \<Rightarrow> 'q \<Rightarrow> 'a list \<Rightarrow> 'q \<Rightarrow> bool" for pop where
  pops_Nil: "pops pop q [] q"
| pops_Cons: "pop q = (Some x, q1) \<Longrightarrow> pops pop q1 xs q2 \<Longrightarrow> pops pop q (x # xs) q2"

inductive_cases pops_ConsE: "pops pop q (x # xs) q'"

locale ranked_queue = rank_order A out for A :: "'a set" and out :: "'a \<Rightarrow> 'a \<Rightarrow> bool" +
  fixes inv :: "'q \<Rightarrow> bool"
    and elts :: "'q \<Rightarrow> 'a multiset"
    and push :: "'q \<Rightarrow> 'a \<Rightarrow> 'q"
    and peek :: "'q \<Rightarrow> 'a option"
    and pop :: "'q \<Rightarrow> 'a option \<times> 'q"
    and remove :: "'q \<Rightarrow> 'a \<Rightarrow> 'a option \<times> 'q"
  assumes inv_elts: "inv q \<Longrightarrow> set_mset (elts q) \<subseteq> A"
    and push_inv: "inv q \<Longrightarrow> x \<in> A \<Longrightarrow> inv (push q x)"
    and push_elts: "inv q \<Longrightarrow> elts (push q x) = add_mset x (elts q)"
    and peek_None: "inv q \<Longrightarrow> peek q = None \<longleftrightarrow> elts q = {#}"
    and peek_top: "inv q \<Longrightarrow> peek q = Some x \<Longrightarrow> x \<in># elts q \<and> (\<forall>y\<in>#elts q. \<not> out y x)"
    and pop_None: "inv q \<Longrightarrow> peek q = None \<Longrightarrow> pop q = (None, q)"
    and pop_Some: "inv q \<Longrightarrow> peek q = Some x \<Longrightarrow>
          \<exists>q'. pop q = (Some x, q') \<and> inv q' \<and> elts q = add_mset x (elts q')"
    and remove_absent: "inv q \<Longrightarrow> x \<notin># elts q \<Longrightarrow> remove q x = (None, q)"
    and remove_present: "inv q \<Longrightarrow> x \<in># elts q \<Longrightarrow>
          \<exists>q'. remove q x = (Some x, q') \<and> inv q' \<and> elts q = add_mset x (elts q')"
begin

lemma pop_SomeD:
  assumes "inv q" and "pop q = (Some x, q')"
  shows "peek q = Some x" "inv q'" "elts q = add_mset x (elts q')"
proof -
  show p: "peek q = Some x"
  proof (cases "peek q")
    case None
    with pop_None assms show ?thesis by simp
  next
    case (Some y)
    with pop_Some assms show ?thesis by fastforce
  qed
  from pop_Some [OF assms(1) p] assms(2) show "inv q'" "elts q = add_mset x (elts q')" by auto
qed

lemma pops_in_rank_order:
  assumes "pops pop q xs q'" and "inv q"
  shows "inv q' \<and> elts q = mset xs + elts q' \<and> sorted_wrt (\<lambda>a b. \<not> out b a) xs \<and>
    (\<forall>x\<in>set xs. \<forall>y\<in>#elts q'. \<not> out y x)"
  using assms
proof (induction rule: pops.induct)
  case (pops_Nil q)
  then show ?case by simp
next
  case (pops_Cons q x q1 xs q2)
  note D = pop_SomeD [OF pops_Cons.prems pops_Cons.hyps(1)]
  from pops_Cons.IH [OF D(2)] have IH: "inv q2" "elts q1 = mset xs + elts q2"
    "sorted_wrt (\<lambda>a b. \<not> out b a) xs" "\<forall>x\<in>set xs. \<forall>y\<in>#elts q2. \<not> out y x" by auto
  have "\<forall>y\<in>#elts q. \<not> out y x" using peek_top [OF pops_Cons.prems D(1)] by blast
  with IH D(3) show ?case by auto
qed

end

end
