(* ===== verification/Loc_Heap.thy ===== *)
theory Loc_Heap
  imports Priority_Queue
begin

text \<open>
  The heap of gps/utils/LocHeap.cpp. A node is its size field, its two children and its data;
  the data are the addresses of the client's LocRankable objects, so equality is identity of
  the object, and the client's virtual method ranks() is an argument of every operation.
\<close>

section \<open>Data\<close>

datatype 'a heap = HNull | HNode int "'a heap" 'a "'a heap"

fun mSize :: "'a heap \<Rightarrow> int" where
  "mSize HNull = 0"
| "mSize (HNode s l d r) = s"

definition outRanks :: "('a \<Rightarrow> 'a \<Rightarrow> int) \<Rightarrow> 'a \<Rightarrow> 'a \<Rightarrow> bool" where
  "outRanks ranks a b \<longleftrightarrow> ranks a b > 0"

section \<open>Operations on nodes\<close>

text \<open>A new container node for the data.\<close>

definition new_node :: "'a \<Rightarrow> 'a heap" where
  "new_node d = HNode 1 HNull d HNull"

text \<open>
  LocHeapNode::push. The incoming node carries \<open>x\<close>; if it outranks the current data the two are
  swapped, and the node (now with the lower data) drops into a subtree.
\<close>

fun node_push :: "('a \<Rightarrow> 'a \<Rightarrow> int) \<Rightarrow> 'a heap \<Rightarrow> 'a \<Rightarrow> 'a heap" where
  "node_push ranks HNull x = new_node x"
| "node_push ranks (HNode s l d r) x =
     (let (hi, lo) = (if outRanks ranks x d then (x, d) else (d, x)) in
      if l = HNull then HNode (s + 1) (new_node lo) hi r
      else if r = HNull then HNode (s + 1) l hi (new_node lo)
      else if mSize l \<le> mSize r then HNode (s + 1) (node_push ranks l lo) hi r
      else HNode (s + 1) l hi (node_push ranks r lo))"

text \<open>
  LocHeapNode::pop: the data of the popped node with the rest of the tree. The data of the top
  moves down the higher-ranked children to a leaf, which is detached.
\<close>

function node_pop :: "('a \<Rightarrow> 'a \<Rightarrow> int) \<Rightarrow> 'a heap \<Rightarrow> 'a option \<times> 'a heap" where
  "node_pop ranks HNull = (None, HNull)"
| "node_pop ranks (HNode s HNull d HNull) = (Some d, HNull)"
| "node_pop ranks (HNode s HNull d (HNode rs rl rd rr)) =
     (let (p, r') = node_pop ranks (HNode rs rl d rr) in (p, HNode (s - 1) HNull rd r'))"
| "node_pop ranks (HNode s (HNode ls ll ld lr) d HNull) =
     (let (p, l') = node_pop ranks (HNode ls ll d lr) in (p, HNode (s - 1) l' ld HNull))"
| "node_pop ranks (HNode s (HNode ls ll ld lr) d (HNode rs rl rd rr)) =
     (if outRanks ranks ld rd
      then (let (p, l') = node_pop ranks (HNode ls ll d lr) in (p, HNode (s - 1) l' ld (HNode rs rl rd rr)))
      else (let (p, r') = node_pop ranks (HNode rs rl d rr) in (p, HNode (s - 1) (HNode ls ll ld lr) rd r')))"
  by pat_completeness auto

fun nodes :: "'a heap \<Rightarrow> nat" where
  "nodes HNull = 0"
| "nodes (HNode s l d r) = Suc (nodes l + nodes r)"

termination node_pop
  by (relation "measure (\<lambda>(ranks, t). nodes t)") auto

text \<open>LocHeapNode::remove: by address, skipping subtrees whose top the data outranks.\<close>

fun node_remove :: "('a \<Rightarrow> 'a \<Rightarrow> int) \<Rightarrow> 'a heap \<Rightarrow> 'a \<Rightarrow> 'a option \<times> 'a heap" where
  "node_remove ranks HNull x = (None, HNull)"
| "node_remove ranks (HNode s l d r) x =
     (if x = d then node_pop ranks (HNode s l d r)
      else if \<not> outRanks ranks x d
      then (case node_remove ranks l x of
              (Some y, l') \<Rightarrow> (Some y, HNode (s - 1) l' d r)
            | (None, l') \<Rightarrow>
                (case node_remove ranks r x of
                   (Some y, r') \<Rightarrow> (Some y, HNode (s - 1) l' d r')
                 | (None, r') \<Rightarrow> (None, HNode s l' d r')))
      else (None, HNode s l d r))"

text \<open>LocHeapNode::checkNodes; an absent tree is consistent (LocHeap::checkTree).\<close>

fun checkNodes :: "('a \<Rightarrow> 'a \<Rightarrow> int) \<Rightarrow> 'a heap \<Rightarrow> bool" where
  "checkNodes ranks HNull = True"
| "checkNodes ranks (HNode s l d r) =
     ((case l of HNull \<Rightarrow> True | HNode _ _ ld _ \<Rightarrow> \<not> outRanks ranks ld d \<and> checkNodes ranks l) \<and>
      (case r of HNull \<Rightarrow> True | HNode _ _ rd _ \<Rightarrow> \<not> outRanks ranks rd d \<and> checkNodes ranks r) \<and>
      s - mSize l - mSize r = 1)"

section \<open>Operations on the heap\<close>

definition LocHeap_push :: "('a \<Rightarrow> 'a \<Rightarrow> int) \<Rightarrow> 'a heap \<Rightarrow> 'a \<Rightarrow> 'a heap" where
  "LocHeap_push ranks mTree node = (if mTree = HNull then new_node node else node_push ranks mTree node)"

definition LocHeap_peek :: "'a heap \<Rightarrow> 'a option" where
  "LocHeap_peek mTree = (case mTree of HNull \<Rightarrow> None | HNode s l d r \<Rightarrow> Some d)"

definition LocHeap_pop :: "('a \<Rightarrow> 'a \<Rightarrow> int) \<Rightarrow> 'a heap \<Rightarrow> 'a option \<times> 'a heap" where
  "LocHeap_pop ranks mTree = (if mTree = HNull then (None, mTree) else node_pop ranks mTree)"

definition LocHeap_remove :: "('a \<Rightarrow> 'a \<Rightarrow> int) \<Rightarrow> 'a heap \<Rightarrow> 'a \<Rightarrow> 'a option \<times> 'a heap" where
  "LocHeap_remove ranks mTree rankable =
     (if mTree = HNull then (None, mTree) else node_remove ranks mTree rankable)"

section \<open>Invariants\<close>

fun heap_mset :: "'a heap \<Rightarrow> 'a multiset" where
  "heap_mset HNull = {#}"
| "heap_mset (HNode s l d r) = add_mset d (heap_mset l + heap_mset r)"

fun heap_sized :: "'a heap \<Rightarrow> bool" where
  "heap_sized HNull = True"
| "heap_sized (HNode s l d r) = (heap_sized l \<and> heap_sized r \<and> s = mSize l + mSize r + 1)"

fun heap_ordered :: "('a \<Rightarrow> 'a \<Rightarrow> int) \<Rightarrow> 'a heap \<Rightarrow> bool" where
  "heap_ordered ranks HNull = True"
| "heap_ordered ranks (HNode s l d r) =
     ((\<forall>x\<in>#heap_mset l + heap_mset r. \<not> outRanks ranks x d) \<and> heap_ordered ranks l \<and> heap_ordered ranks r)"

definition heap_ok :: "'a set \<Rightarrow> ('a \<Rightarrow> 'a \<Rightarrow> int) \<Rightarrow> 'a heap \<Rightarrow> bool" where
  "heap_ok A ranks t \<longleftrightarrow> heap_ordered ranks t \<and> heap_sized t \<and> set_mset (heap_mset t) \<subseteq> A"

lemma new_node_simps [simp]:
  "heap_mset (new_node x) = {#x#}" "heap_sized (new_node x)" "heap_ordered ranks (new_node x)"
  "mSize (new_node x) = 1" "nodes (new_node x) = 1" "new_node x \<noteq> HNull"
  by (simp_all add: new_node_def)

lemma heap_sized_nodes: "heap_sized t \<Longrightarrow> mSize t = int (nodes t)"
  by (induction t) auto

lemma heap_mset_empty [simp]: "heap_mset t = {#} \<longleftrightarrow> t = HNull"
  by (cases t) auto

lemma node_push_mset [simp]: "heap_mset (node_push ranks t x) = add_mset x (heap_mset t)"
  by (induction ranks t x rule: node_push.induct) (auto simp: Let_def)

lemma node_push_sized:
  "heap_sized t \<Longrightarrow> heap_sized (node_push ranks t x) \<and> mSize (node_push ranks t x) = mSize t + 1"
  by (induction ranks t x rule: node_push.induct) (auto simp: Let_def new_node_def)

lemma heap_ordered_subtrees:
  "heap_ordered ranks (HNode s l d r) \<longleftrightarrow> heap_ordered ranks l \<and> heap_ordered ranks r \<and>
     (\<forall>x\<in>#heap_mset l. \<not> outRanks ranks x d) \<and> (\<forall>x\<in>#heap_mset r. \<not> outRanks ranks x d)"
  by auto

lemma node_push_ordered:
  assumes A: "rank_order A (outRanks ranks)"
  shows "heap_ordered ranks t \<Longrightarrow> set_mset (heap_mset t) \<subseteq> A \<Longrightarrow> x \<in> A \<Longrightarrow>
    heap_ordered ranks (node_push ranks t x)"
proof (induction t arbitrary: x)
  case HNull
  then show ?case by simp
next
  case (HNode s l d r)
  show ?case
  proof (cases "outRanks ranks x d")
    case True
    have "\<forall>y\<in>#heap_mset l + heap_mset r. \<not> outRanks ranks y x"
      using HNode.prems True rank_order.not_out_below [OF A, of x _ d] by auto
    moreover have "\<not> outRanks ranks d x"
      using rank_order.out_asym [OF A _ _ True] HNode.prems by auto
    ultimately show ?thesis using HNode True by (auto simp: Let_def)
  next
    case False
    with HNode show ?thesis by (auto simp: Let_def)
  qed
qed

text \<open>
  Popping returns the top's data, whatever it was: only the children need to be ordered, which
  is what the recursion into a child that received the old top's data relies on. The
  recursion equations with projections:
\<close>

lemma node_pop_right:
  "snd (node_pop ranks (HNode s HNull d (HNode rs rl rd rr))) =
     HNode (s - 1) HNull rd (snd (node_pop ranks (HNode rs rl d rr)))"
  "fst (node_pop ranks (HNode s HNull d (HNode rs rl rd rr))) = fst (node_pop ranks (HNode rs rl d rr))"
  "\<not> outRanks ranks ld rd \<Longrightarrow> snd (node_pop ranks (HNode s (HNode ls ll ld lr) d (HNode rs rl rd rr))) =
     HNode (s - 1) (HNode ls ll ld lr) rd (snd (node_pop ranks (HNode rs rl d rr)))"
  "\<not> outRanks ranks ld rd \<Longrightarrow> fst (node_pop ranks (HNode s (HNode ls ll ld lr) d (HNode rs rl rd rr))) =
     fst (node_pop ranks (HNode rs rl d rr))"
  by (simp_all add: case_prod_beta)

lemma node_pop_left:
  "snd (node_pop ranks (HNode s (HNode ls ll ld lr) d HNull)) =
     HNode (s - 1) (snd (node_pop ranks (HNode ls ll d lr))) ld HNull"
  "fst (node_pop ranks (HNode s (HNode ls ll ld lr) d HNull)) = fst (node_pop ranks (HNode ls ll d lr))"
  "outRanks ranks ld rd \<Longrightarrow> snd (node_pop ranks (HNode s (HNode ls ll ld lr) d (HNode rs rl rd rr))) =
     HNode (s - 1) (snd (node_pop ranks (HNode ls ll d lr))) ld (HNode rs rl rd rr)"
  "outRanks ranks ld rd \<Longrightarrow> fst (node_pop ranks (HNode s (HNode ls ll ld lr) d (HNode rs rl rd rr))) =
     fst (node_pop ranks (HNode ls ll d lr))"
  by (simp_all add: case_prod_beta)

lemmas node_pop_proj = node_pop_left node_pop_right

declare node_pop.simps(3-5) [simp del]

lemma node_pop_top: "fst (node_pop ranks (HNode s l d r)) = Some d"
proof (induction ranks "HNode s l d r" arbitrary: s l d r rule: node_pop.induct)
  case (5 ranks s ls ll ld lr d rs rl rd rr)
  then show ?case by (cases "outRanks ranks ld rd") (simp_all add: node_pop_proj)
qed (simp_all add: node_pop_proj)

lemma node_pop_mset: "heap_mset (snd (node_pop ranks (HNode s l d r))) = heap_mset l + heap_mset r"
proof (induction ranks "HNode s l d r" arbitrary: s l d r rule: node_pop.induct)
  case (5 ranks s ls ll ld lr d rs rl rd rr)
  then show ?case by (cases "outRanks ranks ld rd") (simp_all add: node_pop_proj)
qed (simp_all add: node_pop_proj)

lemma node_pop_sized:
  "heap_sized (HNode s l d r) \<Longrightarrow>
     heap_sized (snd (node_pop ranks (HNode s l d r))) \<and> mSize (snd (node_pop ranks (HNode s l d r))) = s - 1"
proof (induction ranks "HNode s l d r" arbitrary: s l d r rule: node_pop.induct)
  case (5 ranks s ls ll ld lr d rs rl rd rr)
  then show ?case by (cases "outRanks ranks ld rd") (simp_all add: node_pop_proj)
qed (simp_all add: node_pop_proj)

lemma node_pop_ordered:
  assumes A: "rank_order A (outRanks ranks)"
  shows "heap_ordered ranks l \<Longrightarrow> heap_ordered ranks r \<Longrightarrow> set_mset (heap_mset l + heap_mset r) \<subseteq> A \<Longrightarrow>
    heap_ordered ranks (snd (node_pop ranks (HNode s l d r)))"
  using A
proof (induction ranks "HNode s l d r" arbitrary: s l d r rule: node_pop.induct)
  case (5 ranks s ls ll ld lr d rs rl rd rr)
  show ?case
  proof (cases "outRanks ranks ld rd")
    case True
    have "\<forall>x\<in>#heap_mset rl + heap_mset rr. \<not> outRanks ranks x ld"
      using 5(3-6) True rank_order.not_out_below [OF 5(6), of ld _ rd] by auto
    moreover have "\<not> outRanks ranks rd ld"
      using rank_order.out_asym [OF 5(6) _ _ True] 5(5) by auto
    moreover have "heap_ordered ranks (snd (node_pop ranks (HNode ls ll d lr)))"
      using 5(1) True 5(3-6) by auto
    ultimately show ?thesis using 5(3,4) True by (auto simp: node_pop_proj node_pop_mset)
  next
    case False
    have "\<forall>x\<in>#heap_mset ll + heap_mset lr. \<not> outRanks ranks x rd"
      using 5(3-6) False rank_order.not_out_trans [OF 5(6), of _ ld rd] by auto
    moreover have "heap_ordered ranks (snd (node_pop ranks (HNode rs rl d rr)))"
      using 5(2) False 5(3-6) by auto
    ultimately show ?thesis using 5(3,4) False by (auto simp: node_pop_proj node_pop_mset)
  qed
qed (auto simp: node_pop_proj node_pop_mset)

section \<open>Removal\<close>

lemma node_remove_absent: "x \<notin># heap_mset t \<Longrightarrow> node_remove ranks t x = (None, t)"
  by (induction t) auto

lemma node_remove_present:
  assumes A: "rank_order A (outRanks ranks)"
    and "heap_ordered ranks t" and "heap_sized t" and "set_mset (heap_mset t) \<subseteq> A" and "x \<in># heap_mset t"
  shows "\<exists>t'. node_remove ranks t x = (Some x, t') \<and> heap_mset t = add_mset x (heap_mset t') \<and>
           heap_ordered ranks t' \<and> heap_sized t' \<and> mSize t' = mSize t - 1"
  using assms(2-5)
proof (induction t)
  case HNull
  then show ?case by simp
next
  case (HNode s l d r)
  show ?case
  proof (cases "x = d")
    case True
    define t' where "t' = snd (node_pop ranks (HNode s l d r))"
    have "node_remove ranks (HNode s l d r) x = (Some x, t')"
      using True node_pop_top [of ranks s l d r] by (simp add: t'_def prod_eq_iff)
    moreover have "heap_mset t' = heap_mset l + heap_mset r"
      unfolding t'_def by (rule node_pop_mset)
    moreover have "heap_ordered ranks t'"
      using node_pop_ordered [OF A, of l r s d] HNode.prems by (simp add: t'_def)
    moreover have "heap_sized t' \<and> mSize t' = s - 1"
      unfolding t'_def by (rule node_pop_sized [OF HNode.prems(2)])
    ultimately show ?thesis using True by simp
  next
    case False
    then have nd: "\<not> outRanks ranks x d" using HNode.prems by auto
    show ?thesis
    proof (cases "x \<in># heap_mset l")
      case True
      with HNode obtain l' where "node_remove ranks l x = (Some x, l')"
        "heap_mset l = add_mset x (heap_mset l')" "heap_ordered ranks l'" "heap_sized l'"
        "mSize l' = mSize l - 1" by auto
      with False nd HNode.prems show ?thesis by (simp add: add_mset_commute)
    next
      case xl: False
      with False HNode obtain r' where "node_remove ranks r x = (Some x, r')"
        "heap_mset r = add_mset x (heap_mset r')" "heap_ordered ranks r'" "heap_sized r'"
        "mSize r' = mSize r - 1" by auto
      with False nd xl HNode.prems show ?thesis by (simp add: node_remove_absent add_mset_commute)
    qed
  qed
qed

section \<open>checkNodes decides the invariant\<close>

text \<open>checkNodes compares each node with its children only; the order makes that enough.\<close>

lemma checkNodes_iff:
  assumes A: "rank_order A (outRanks ranks)"
  shows "set_mset (heap_mset t) \<subseteq> A \<Longrightarrow> checkNodes ranks t \<longleftrightarrow> heap_ordered ranks t \<and> heap_sized t"
proof (induction t)
  case HNull
  then show ?case by simp
next
  case (HNode s l d r)
  have top: "heap_ordered ranks (HNode ts tl td tr) \<Longrightarrow> set_mset (heap_mset (HNode ts tl td tr)) \<subseteq> A \<Longrightarrow>
      \<not> outRanks ranks td d \<longleftrightarrow> (\<forall>x\<in>#heap_mset (HNode ts tl td tr). \<not> outRanks ranks x d)" for ts tl td tr
  proof
    assume o: "heap_ordered ranks (HNode ts tl td tr)" and sA: "set_mset (heap_mset (HNode ts tl td tr)) \<subseteq> A"
      and nd: "\<not> outRanks ranks td d"
    show "\<forall>x\<in>#heap_mset (HNode ts tl td tr). \<not> outRanks ranks x d"
    proof
      fix x assume x: "x \<in># heap_mset (HNode ts tl td tr)"
      then have "x = td \<or> \<not> outRanks ranks x td" using o by auto
      moreover have "x \<in> A" "td \<in> A" "d \<in> A" using x sA HNode.prems by auto
      ultimately show "\<not> outRanks ranks x d" using nd rank_order.not_out_trans [OF A, of x td d] by blast
    qed
  qed simp
  have sub: "(case t of HNull \<Rightarrow> True | HNode _ _ td _ \<Rightarrow> \<not> outRanks ranks td d \<and> checkNodes ranks t) \<longleftrightarrow>
      heap_ordered ranks t \<and> heap_sized t \<and> (\<forall>x\<in>#heap_mset t. \<not> outRanks ranks x d)"
    if IH: "checkNodes ranks t \<longleftrightarrow> heap_ordered ranks t \<and> heap_sized t" and sA: "set_mset (heap_mset t) \<subseteq> A" for t
  proof (cases t)
    case (HNode ts tl td tr)
    from top [of ts tl td tr] sA IH show ?thesis unfolding HNode heap.case by blast
  qed simp
  have "set_mset (heap_mset l) \<subseteq> A" "set_mset (heap_mset r) \<subseteq> A" using HNode.prems by auto
  with sub [OF HNode.IH(1)] sub [OF HNode.IH(2)] HNode.IH show ?case
    unfolding checkNodes.simps heap_ordered_subtrees heap_sized.simps by auto
qed

section \<open>The heap provides the ranked-queue contract\<close>

lemma LocHeap_push_mset: "heap_mset (LocHeap_push ranks t x) = add_mset x (heap_mset t)"
  by (simp add: LocHeap_push_def)

lemma LocHeap_push_ok:
  "rank_order A (outRanks ranks) \<Longrightarrow> heap_ok A ranks t \<Longrightarrow> x \<in> A \<Longrightarrow> heap_ok A ranks (LocHeap_push ranks t x)"
  by (auto simp: LocHeap_push_def heap_ok_def node_push_ordered node_push_sized)

lemma LocHeap_pop_ok:
  assumes "rank_order A (outRanks ranks)" and "heap_ok A ranks t" and "LocHeap_peek t = Some x"
  shows "\<exists>t'. LocHeap_pop ranks t = (Some x, t') \<and> heap_ok A ranks t' \<and> heap_mset t = add_mset x (heap_mset t')"
proof -
  obtain s l r where t: "t = HNode s l x r" using assms(3) by (cases t) (auto simp: LocHeap_peek_def)
  define t' where "t' = snd (node_pop ranks t)"
  have "LocHeap_pop ranks t = (Some x, t')"
    using node_pop_top [of ranks s l x r] t by (simp add: LocHeap_pop_def t'_def prod_eq_iff)
  moreover have "heap_ordered ranks t'"
    using node_pop_ordered [OF assms(1), of l r s x] assms(2) t by (simp add: heap_ok_def t'_def)
  moreover have "heap_sized t'"
    using node_pop_sized [of s l x r ranks] assms(2) t by (simp add: heap_ok_def t'_def)
  moreover have "heap_mset t' = heap_mset l + heap_mset r"
    using node_pop_mset [of ranks s l x r] t by (simp add: t'_def)
  ultimately show ?thesis using t assms(2) by (simp add: heap_ok_def)
qed

lemma LocHeap_peek_ok:
  assumes "rank_order A (outRanks ranks)" and "heap_ok A ranks t" and "LocHeap_peek t = Some x"
  shows "x \<in># heap_mset t \<and> (\<forall>y\<in>#heap_mset t. \<not> outRanks ranks y x)"
  using assms rank_order.out_irrefl [OF assms(1), of x] by (cases t) (auto simp: LocHeap_peek_def heap_ok_def)

lemma heap_ranked_queue:
  assumes A: "rank_order A (outRanks ranks)"
  shows "ranked_queue A (outRanks ranks) (heap_ok A ranks) heap_mset (LocHeap_push ranks) LocHeap_peek
           (LocHeap_pop ranks) (LocHeap_remove ranks)"
proof (intro ranked_queue.intro ranked_queue_axioms.intro A, goal_cases)
  case (1 q) then show ?case by (simp add: heap_ok_def)
next
  case (2 q x) then show ?case by (rule LocHeap_push_ok [OF A])
next
  case (3 q x) then show ?case by (simp add: LocHeap_push_mset)
next
  case (4 q) then show ?case by (cases q) (auto simp: LocHeap_peek_def)
next
  case (5 q x) then show ?case by (rule LocHeap_peek_ok [OF A])
next
  case (6 q) then show ?case by (cases q) (auto simp: LocHeap_peek_def LocHeap_pop_def)
next
  case (7 q x) then show ?case by (rule LocHeap_pop_ok [OF A])
next
  case (8 q x) then show ?case by (auto simp: LocHeap_remove_def node_remove_absent)
next
  case (9 q x)
  then show ?case using node_remove_present [OF A, of q x] by (auto simp: LocHeap_remove_def heap_ok_def)
qed

section \<open>Balance\<close>

text \<open>Pushes alone keep every left subtree as large as the right one, or larger by one.\<close>

fun push_balanced :: "'a heap \<Rightarrow> bool" where
  "push_balanced HNull = True"
| "push_balanced (HNode s l d r) =
     ((mSize l = mSize r \<or> mSize l = mSize r + 1) \<and> push_balanced l \<and> push_balanced r)"

fun heap_height :: "'a heap \<Rightarrow> nat" where
  "heap_height HNull = 0"
| "heap_height (HNode s l d r) = Suc (max (heap_height l) (heap_height r))"

lemma node_push_balanced:
  "heap_sized t \<Longrightarrow> push_balanced t \<Longrightarrow> push_balanced (node_push ranks t x)"
proof (induction ranks t x rule: node_push.induct)
  case (1 ranks x)
  then show ?case by (simp add: new_node_def)
next
  case (2 ranks s l d r x)
  have pos: "t \<noteq> HNull \<Longrightarrow> heap_sized t \<Longrightarrow> 0 < mSize t" for t :: "'a heap"
    by (cases t) (auto simp: heap_sized_nodes)
  have "mSize l = 0 \<longleftrightarrow> l = HNull" "mSize r = 0 \<longleftrightarrow> r = HNull"
    using 2(3) pos by fastforce+
  with 2 pos [of r] node_push_sized [of l ranks] node_push_sized [of r ranks] show ?case
    by (auto simp: Let_def new_node_def)
qed

lemma push_balanced_height:
  "heap_sized t \<Longrightarrow> push_balanced t \<Longrightarrow> t \<noteq> HNull \<Longrightarrow> 2 ^ heap_height t \<le> 2 * nodes t"
proof (induction t)
  case (HNode s l d r)
  have sizes: "nodes l = nodes r \<or> nodes l = nodes r + 1"
    using HNode.prems heap_sized_nodes [of l] heap_sized_nodes [of r] by auto
  have "2 ^ heap_height l \<le> nodes l + nodes r + 1"
    using HNode sizes by (cases "l = HNull") auto
  moreover have "2 ^ heap_height r \<le> nodes l + nodes r + 1"
    using HNode sizes by (cases "r = HNull") auto
  ultimately show ?case by (auto simp: max_def)
qed simp

lemma fold_push:
  "heap_sized t \<Longrightarrow> push_balanced t \<Longrightarrow>
   heap_sized (fold (\<lambda>x t. LocHeap_push ranks t x) xs t) \<and>
   push_balanced (fold (\<lambda>x t. LocHeap_push ranks t x) xs t) \<and>
   heap_mset (fold (\<lambda>x t. LocHeap_push ranks t x) xs t) = heap_mset t + mset xs"
proof (induction xs arbitrary: t)
  case (Cons x xs)
  have "heap_sized (LocHeap_push ranks t x)" "push_balanced (LocHeap_push ranks t x)"
    using Cons.prems by (auto simp: LocHeap_push_def node_push_sized node_push_balanced new_node_def)
  from Cons.IH [OF this] show ?case by (simp add: LocHeap_push_mset)
qed simp

lemma nodes_heap_mset: "nodes t = size (heap_mset t)"
  by (induction t) auto

lemma LocHeap_pop_nodes: "t \<noteq> HNull \<Longrightarrow> nodes (snd (LocHeap_pop ranks t)) < nodes t"
  by (cases t) (auto simp: LocHeap_pop_def nodes_heap_mset node_pop_mset)

section \<open>Properties\<close>

text \<open>The order of the code's own test data (LocHeapDebugData): a lower id ranks higher.\<close>

definition debug_ranks :: "int \<Rightarrow> int \<Rightarrow> int" where
  "debug_ranks a b = b - a"

lemma debug_rank_order: "rank_order UNIV (outRanks debug_ranks)"
  by unfold_locales (auto simp: outRanks_def debug_ranks_def)

text \<open>push, pop and remove keep the heap consistent as checkNodes sees it (sizes right,
  no child outranking its parent), for any ranks() that is a strict weak order on the objects
  in use.\<close>

theorem heap_operations_keep_checkNodes:
  assumes "rank_order A (outRanks ranks)" and "checkNodes ranks t" and "set_mset (heap_mset t) \<subseteq> A" and "x \<in> A"
  shows "checkNodes ranks (LocHeap_push ranks t x) \<and> checkNodes ranks (snd (LocHeap_pop ranks t)) \<and>
    checkNodes ranks (snd (LocHeap_remove ranks t y))"
proof -
  have iff: "set_mset (heap_mset u) \<subseteq> A \<Longrightarrow> checkNodes ranks u \<longleftrightarrow> heap_ok A ranks u" for u
    using checkNodes_iff [OF assms(1)] by (auto simp: heap_ok_def)
  have ok: "heap_ok A ranks t" using iff assms by simp
  note Q = heap_ranked_queue [OF assms(1)]
  have okD: "heap_ok A ranks u \<Longrightarrow> checkNodes ranks u" for u
    using iff by (auto simp: heap_ok_def)
  have "heap_ok A ranks (LocHeap_push ranks t x)"
    by (rule ranked_queue.push_inv [OF Q ok assms(4)])
  moreover have "heap_ok A ranks (snd (LocHeap_pop ranks t))"
    using ranked_queue.pop_None [OF Q ok] ranked_queue.pop_Some [OF Q ok] ok
    by (cases "LocHeap_peek t") fastforce+
  moreover have "heap_ok A ranks (snd (LocHeap_remove ranks t y))"
    using ranked_queue.remove_absent [OF Q ok, of y] ranked_queue.remove_present [OF Q ok, of y] ok
    by (cases "y \<in># heap_mset t") fastforce+
  ultimately show ?thesis using okD by blast
qed

theorem heap_operations_keep_checkNodes_witness:
  "checkNodes debug_ranks (LocHeap_push debug_ranks (HNode 2 (new_node 7) 4 HNull) 3) \<and>
   checkNodes debug_ranks (snd (LocHeap_pop debug_ranks (HNode 2 (new_node 7) 4 HNull))) \<and>
   checkNodes debug_ranks (snd (LocHeap_remove debug_ranks (HNode 2 (new_node 7) 4 HNull) 7))"
  by (rule heap_operations_keep_checkNodes [OF debug_rank_order])
    (simp_all add: new_node_def outRanks_def debug_ranks_def)

text \<open>C4: Popping repeatedly yields the contents in rank order: each popped object is outranked
  neither by a later one nor by what is left, and nothing is lost or duplicated.\<close>

theorem heap_pops_in_rank_order:
  assumes "rank_order A (outRanks ranks)" and "heap_ok A ranks t" and "pops (LocHeap_pop ranks) t xs t'"
  shows "sorted_wrt (\<lambda>a b. \<not> outRanks ranks b a) xs \<and> (\<forall>x\<in>set xs. \<forall>y\<in>#heap_mset t'. \<not> outRanks ranks y x) \<and>
    heap_mset t = mset xs + heap_mset t' \<and> heap_ok A ranks t'"
  using ranked_queue.pops_in_rank_order [OF heap_ranked_queue [OF assms(1)] assms(3,2)] by blast

theorem heap_pops_in_rank_order_witness:
  "sorted_wrt (\<lambda>a b. \<not> outRanks debug_ranks b a) [4, 7] \<and>
   heap_mset (HNode 2 (new_node 7) 4 HNull) = mset [4, 7 :: int] + heap_mset HNull"
proof -
  have "heap_ok UNIV debug_ranks (HNode 2 (new_node 7) 4 HNull)"
    by (simp add: heap_ok_def new_node_def outRanks_def debug_ranks_def)
  moreover have "pops (LocHeap_pop debug_ranks) (HNode 2 (new_node 7) 4 HNull) [4, 7] HNull"
  proof (rule pops_Cons)
    show "LocHeap_pop debug_ranks (HNode 2 (new_node 7) 4 HNull) = (Some 4, HNode 1 HNull 7 HNull)"
      by (simp add: LocHeap_pop_def new_node_def node_pop.simps)
    show "pops (LocHeap_pop debug_ranks) (HNode 1 HNull 7 HNull) [7] HNull"
      by (rule pops_Cons [of _ _ _ HNull]) (simp_all add: LocHeap_pop_def pops_Nil)
  qed
  ultimately show ?thesis using heap_pops_in_rank_order [OF debug_rank_order] by blast
qed

text \<open>remove() finds an object exactly when the heap holds it, takes out that object and
  no other (an equally ranked one stays), although it skips the subtrees the object outranks.\<close>

theorem heap_remove_exact:
  assumes "rank_order A (outRanks ranks)" and "heap_ok A ranks t"
  shows "fst (LocHeap_remove ranks t x) = (if x \<in># heap_mset t then Some x else None) \<and>
    heap_mset (snd (LocHeap_remove ranks t x)) = heap_mset t - {#x#}"
proof (cases "x \<in># heap_mset t")
  case True
  with ranked_queue.remove_present [OF heap_ranked_queue [OF assms(1)] assms(2) True] show ?thesis by auto
next
  case False
  with ranked_queue.remove_absent [OF heap_ranked_queue [OF assms(1)] assms(2) False] show ?thesis by auto
qed

theorem heap_remove_exact_witness:
  "fst (LocHeap_remove debug_ranks (HNode 2 (new_node 7) 4 HNull) 7) = Some 7"
proof -
  have ok: "heap_ok UNIV debug_ranks (HNode 2 (new_node 7) 4 HNull)"
    by (simp add: heap_ok_def new_node_def outRanks_def debug_ranks_def)
  show ?thesis using heap_remove_exact [OF debug_rank_order ok, of 7] by (simp add: new_node_def)
qed

text \<open>Pushing keeps the tree balanced: a heap built by n > 0 pushes has height at most
  1 + log2 n.\<close>

theorem heap_push_logarithmic_height:
  assumes "xs \<noteq> []"
  shows "2 ^ heap_height (fold (\<lambda>x t. LocHeap_push ranks t x) xs HNull) \<le> 2 * length xs"
proof -
  let ?t = "fold (\<lambda>x t. LocHeap_push ranks t x) xs HNull"
  have f: "heap_sized ?t \<and> push_balanced ?t \<and> heap_mset ?t = mset xs"
    using fold_push [of HNull ranks xs] by simp
  moreover have "?t \<noteq> HNull" using f assms by (metis heap_mset_empty mset_zero_iff)
  ultimately show ?thesis using push_balanced_height [of ?t] by (simp add: nodes_heap_mset)
qed

theorem heap_push_logarithmic_height_witness:
  "2 ^ heap_height (fold (\<lambda>x t. LocHeap_push debug_ranks t x) [5, 3, 8, 1 :: int] HNull) \<le> (8 :: nat)"
  using heap_push_logarithmic_height [of "[5, 3, 8, 1 :: int]" debug_ranks] by simp

end
