(* ===== verification/Loc_Timer.thy ===== *)
theory Loc_Timer
  imports Loc_Heap
begin

text \<open>
  The timer service of gps/utils/LocTimer.cpp. A delegate (one running timer) is an object with
  an identity and a fixed expiry; the two containers (alarms that wake the CPU and plain timers)
  are heaps of delegates with the setting of their timerfd; heap changes are messages handled in
  order by one message task. Clients call start and stop, the kernel fires an armed timerfd, the
  message task handles its next message: each is one step of \<open>timer_step\<close>.
\<close>

section \<open>Data\<close>

record timespec =
  tv_sec :: int
  tv_nsec :: int

text \<open>
  A LocTimerDelegate: \<open>did\<close> is its address; \<open>dwake\<close> and \<open>dclient\<close> are the container and the
  client it was created with. The fields that destroyLocked nulls are in the system's state.
\<close>

record delegate =
  did :: nat
  mFutureTime :: timespec
  dwake :: bool
  dclient :: nat

text \<open>Conversion of a long to int.\<close>

definition to_int :: "int \<Rightarrow> int" where
  "to_int x = sint (word_of_int x :: 32 word)"

definition delegate_ranks :: "delegate \<Rightarrow> delegate \<Rightarrow> int" where
  "delegate_ranks this timer =
     (let rank = to_int (tv_sec (mFutureTime timer) - tv_sec (mFutureTime this))
      in if rank = 0 then to_int (tv_nsec (mFutureTime timer) - tv_nsec (mFutureTime this)) else rank)"

abbreviation timer_outRanks :: "delegate \<Rightarrow> delegate \<Rightarrow> bool" where
  "timer_outRanks \<equiv> outRanks delegate_ranks"

text \<open>
  A container: its heap, the absolute time its timerfd is armed for (None: disarmed) and whether
  the descriptor is in the epoll set.
\<close>

record container =
  tree :: "delegate heap"
  armed :: "timespec option"
  polled :: bool

definition new_container :: container where
  "new_container = \<lparr>tree = HNull, armed = None, polled = False\<rparr>"

definition getSoonestTimer :: "container \<Rightarrow> delegate option" where
  "getSoonestTimer c = LocHeap_peek (tree c)"

section \<open>Container operations\<close>

definition updateSoonestTime :: "delegate option \<Rightarrow> container \<Rightarrow> container" where
  "updateSoonestTime priorTop c =
     (let curTop = getSoonestTimer c in
      if curTop \<noteq> priorTop
      then (case curTop of
              None \<Rightarrow> c\<lparr>polled := False, armed := None\<rparr>
            | Some cur \<Rightarrow>
                if (case priorTop of None \<Rightarrow> True | Some prior \<Rightarrow> timer_outRanks cur prior)
                then c\<lparr>polled := True, armed := Some (mFutureTime cur)\<rparr>
                else c)
      else c)"

definition MsgTimerPush_proc :: "delegate \<Rightarrow> container \<Rightarrow> container" where
  "MsgTimerPush_proc timer c =
     (let priorTop = getSoonestTimer c
      in updateSoonestTime priorTop (c\<lparr>tree := LocHeap_push delegate_ranks (tree c) timer\<rparr>))"

definition MsgTimerRemove_proc :: "delegate \<Rightarrow> container \<Rightarrow> container" where
  "MsgTimerRemove_proc timer c =
     (let priorTop = getSoonestTimer c;
          (removed, t) = LocHeap_remove delegate_ranks (tree c) timer;
          c' = c\<lparr>tree := t\<rparr>
      in if priorTop = removed then updateSoonestTime None c' else c')"

text \<open>The comparison object built from the current time.\<close>

definition timerOfNow :: "timespec \<Rightarrow> delegate" where
  "timerOfNow now = \<lparr>did = 0, mFutureTime = now, dwake = False, dclient = 0\<rparr>"

definition popIfOutRanks :: "delegate \<Rightarrow> delegate heap \<Rightarrow> delegate option \<times> delegate heap" where
  "popIfOutRanks timer t =
     (case LocHeap_peek t of
        None \<Rightarrow> (None, t)
      | Some first \<Rightarrow> if \<not> timer_outRanks timer first then LocHeap_pop delegate_ranks t else (None, t))"

lemma popIfOutRanks_nodes: "popIfOutRanks timer t = (Some d, t') \<Longrightarrow> nodes t' < nodes t"
  using LocHeap_pop_nodes [of t delegate_ranks]
  by (cases t) (auto simp: popIfOutRanks_def LocHeap_peek_def split: if_splits)

text \<open>The rounds of the expiry loop after the first: what they pop, and the tree left.\<close>

function pop_due :: "timespec \<Rightarrow> delegate heap \<Rightarrow> delegate list \<times> delegate heap" where
  "pop_due now t =
     (case popIfOutRanks (timerOfNow now) t of
        (None, t') \<Rightarrow> ([], t')
      | (Some timer, t') \<Rightarrow> (let (ds, t'') = pop_due now t' in (timer # ds, t'')))"
  by pat_completeness auto
termination
  by (relation "measure (\<lambda>(now, t). nodes t)") (auto dest: popIfOutRanks_nodes [OF sym])

declare pop_due.simps [simp del]

text \<open>
  MsgTimerExpire: the timers popped, in order, and the container afterwards. The first pop takes
  whatever is on top; the following ones only timers that are not later than now.
\<close>

definition MsgTimerExpire_pops :: "timespec \<Rightarrow> container \<Rightarrow> delegate list \<times> container" where
  "MsgTimerExpire_pops now c =
     (case LocHeap_pop delegate_ranks (tree c) of
        (None, t) \<Rightarrow> ([], updateSoonestTime None (c\<lparr>tree := t\<rparr>))
      | (Some timer, t) \<Rightarrow>
          (let (ds, t') = pop_due now t in (timer # ds, updateSoonestTime None (c\<lparr>tree := t'\<rparr>))))"

text \<open>The poll thread's part of the expiry: disarm, stop polling; a message does the rest.\<close>

definition expire_poll :: "container \<Rightarrow> container" where
  "expire_poll c = c\<lparr>armed := None, polled := False\<rparr>"

section \<open>The service\<close>

datatype timer_msg = MsgTimerPush delegate | MsgTimerRemove delegate | MsgTimerExpire bool

text \<open>
  \<open>conts\<close> holds mHwTimers (True) and mSwTimers (False); \<open>mTimer\<close> is each client's running timer;
  \<open>destroyed\<close> are the delegates destroyLocked has been called on (mClient and mContainer NULL);
  \<open>freed\<close> the delegates deleted so far; \<open>callbacks\<close> the timeOutCallback calls with the time of
  each.
\<close>

record timer_sys =
  conts :: "bool \<Rightarrow> container option"
  msgs :: "timer_msg list"
  mTimer :: "nat \<Rightarrow> delegate option"
  destroyed :: "delegate set"
  freed :: "delegate list"
  next_id :: nat
  clock :: timespec
  callbacks :: "(delegate \<times> timespec) list"

definition timer_init :: "timespec \<Rightarrow> timer_sys" where
  "timer_init now = \<lparr>conts = (\<lambda>_. None), msgs = [], mTimer = (\<lambda>_. None), destroyed = {}, freed = [],
     next_id = 0, clock = now, callbacks = []\<rparr>"

text \<open>LocTimerContainer::get: created on demand if the timerfd can be.\<close>

definition LocTimerContainer_get :: "bool \<Rightarrow> bool \<Rightarrow> timer_sys \<Rightarrow> container option \<times> timer_sys" where
  "LocTimerContainer_get timerfd_ok wakeOnExpire s =
     (case conts s wakeOnExpire of
        Some c \<Rightarrow> (Some c, s)
      | None \<Rightarrow>
          if timerfd_ok
          then (Some new_container, s\<lparr>conts := (conts s)(wakeOnExpire := Some new_container)\<rparr>)
          else (None, s))"

definition futureTime_of :: "u32 \<Rightarrow> timespec \<Rightarrow> timespec" where
  "futureTime_of timeOutInMs now =
     (let sec = tv_sec now + uint (timeOutInMs div 1000);
          nsec = tv_nsec now + uint ((timeOutInMs mod 1000) * 1000000)
      in if nsec \<ge> 1000000000
         then \<lparr>tv_sec = sec + nsec div 1000000000, tv_nsec = nsec mod 1000000000\<rparr>
         else \<lparr>tv_sec = sec, tv_nsec = nsec\<rparr>)"

definition LocTimer_start :: "bool \<Rightarrow> nat \<Rightarrow> u32 \<Rightarrow> bool \<Rightarrow> timer_sys \<Rightarrow> bool \<times> timer_sys" where
  "LocTimer_start timerfd_ok client timeOutInMs wakeOnExpire s =
     (case mTimer s client of
        Some _ \<Rightarrow> (False, s)
      | None \<Rightarrow>
          (case LocTimerContainer_get timerfd_ok wakeOnExpire s of
             (None, s') \<Rightarrow> (False, s')
           | (Some _, s') \<Rightarrow>
               let d = \<lparr>did = next_id s', mFutureTime = futureTime_of timeOutInMs (clock s'),
                        dwake = wakeOnExpire, dclient = client\<rparr>
               in (True, s'\<lparr>next_id := next_id s' + 1, msgs := msgs s' @ [MsgTimerPush d],
                            mTimer := (mTimer s')(client := Some d)\<rparr>)))"

text \<open>destroyLocked on a delegate whose container is not yet NULL queues its removal.\<close>

definition destroyLocked :: "delegate \<Rightarrow> timer_sys \<Rightarrow> timer_sys" where
  "destroyLocked d s =
     (if d \<in> destroyed s then s
      else s\<lparr>destroyed := insert d (destroyed s), msgs := msgs s @ [MsgTimerRemove d]\<rparr>)"

definition LocTimer_stop :: "nat \<Rightarrow> timer_sys \<Rightarrow> bool \<times> timer_sys" where
  "LocTimer_stop client s =
     (case mTimer s client of
        None \<Rightarrow> (False, s)
      | Some d \<Rightarrow> (True, destroyLocked d (s\<lparr>mTimer := (mTimer s)(client := None)\<rparr>)))"

text \<open>LocTimerDelegate::expire: stop the client's timer; if that succeeds, call it back.\<close>

definition delegate_expire :: "delegate \<Rightarrow> timer_sys \<Rightarrow> timer_sys" where
  "delegate_expire d s =
     (if d \<in> destroyed s then s
      else (case LocTimer_stop (dclient d) s of
              (True, s') \<Rightarrow> s'\<lparr>callbacks := callbacks s' @ [(d, clock s')]\<rparr>
            | (False, s') \<Rightarrow> s'))"

definition upd_cont :: "bool \<Rightarrow> (container \<Rightarrow> container) \<Rightarrow> timer_sys \<Rightarrow> timer_sys" where
  "upd_cont b f s = s\<lparr>conts := (conts s)(b := map_option f (conts s b))\<rparr>"

text \<open>Handling one message in the message task.\<close>

fun msg_proc :: "timer_msg \<Rightarrow> timer_sys \<Rightarrow> timer_sys" where
  "msg_proc (MsgTimerPush d) s = upd_cont (dwake d) (MsgTimerPush_proc d) s"
| "msg_proc (MsgTimerRemove d) s =
     (let s' = upd_cont (dwake d) (MsgTimerRemove_proc d) s in s'\<lparr>freed := freed s' @ [d]\<rparr>)"
| "msg_proc (MsgTimerExpire b) s =
     (case conts s b of
        None \<Rightarrow> s
      | Some c \<Rightarrow>
          (let (ds, c') = MsgTimerExpire_pops (clock s) c
           in fold delegate_expire ds (s\<lparr>conts := (conts s)(b := Some c')\<rparr>)))"

definition time_le :: "timespec \<Rightarrow> timespec \<Rightarrow> bool" where
  "time_le a b \<longleftrightarrow> tv_sec a < tv_sec b \<or> (tv_sec a = tv_sec b \<and> tv_nsec a \<le> tv_nsec b)"

text \<open>The poll thread finds the descriptor of container \<open>b\<close> readable: LocTimerContainer::expire.\<close>

definition expire :: "bool \<Rightarrow> timer_sys \<Rightarrow> timer_sys" where
  "expire b s = (upd_cont b expire_poll s)\<lparr>msgs := msgs s @ [MsgTimerExpire b]\<rparr>"

definition fires :: "bool \<Rightarrow> timer_sys \<Rightarrow> bool" where
  "fires b s = (case conts s b of None \<Rightarrow> False
     | Some c \<Rightarrow> polled c \<and> (case armed c of None \<Rightarrow> False | Some t \<Rightarrow> time_le t (clock s)))"

inductive timer_step :: "timer_sys \<Rightarrow> timer_sys \<Rightarrow> bool" where
  start: "LocTimer_start fd_ok client ms wake s = (ok, t) \<Longrightarrow> timer_step s t"
| stop: "LocTimer_stop client s = (ok, t) \<Longrightarrow> timer_step s t"
| tick: "time_le (clock s) now \<Longrightarrow> timer_step s (s\<lparr>clock := now\<rparr>)"
| fire: "fires b s \<Longrightarrow> timer_step s (expire b s)"
| handle: "msgs s = m # ms \<Longrightarrow> timer_step s (msg_proc m (s\<lparr>msgs := ms\<rparr>))"

text \<open>
  Reachable states, up to a bound on the clock below which the seconds of every expiry fit in
  an int (a timeout adds less than 2 ^ 23 seconds).
\<close>

definition clock_ok :: "timespec \<Rightarrow> bool" where
  "clock_ok t \<longleftrightarrow> 0 \<le> tv_sec t \<and> tv_sec t < 2 ^ 31 - 2 ^ 23 \<and> 0 \<le> tv_nsec t \<and> tv_nsec t < 1000000000"

inductive timer_reach :: "timer_sys \<Rightarrow> bool" where
  init: "clock_ok now \<Longrightarrow> timer_reach (timer_init now)"
| step: "timer_reach s \<Longrightarrow> timer_step s t \<Longrightarrow> clock_ok (clock t) \<Longrightarrow> timer_reach t"

section \<open>Expiry times\<close>

definition time_ns :: "timespec \<Rightarrow> int" where
  "time_ns t = tv_sec t * 1000000000 + tv_nsec t"

definition valid_time :: "timespec \<Rightarrow> bool" where
  "valid_time t \<longleftrightarrow> 0 \<le> tv_sec t \<and> tv_sec t < 2 ^ 31 \<and> 0 \<le> tv_nsec t \<and> tv_nsec t < 1000000000"

lemma clock_ok_valid: "clock_ok t \<Longrightarrow> valid_time t"
  by (auto simp: clock_ok_def valid_time_def)

lemma time_le_ns:
  "valid_time a \<Longrightarrow> valid_time b \<Longrightarrow> time_le a b \<longleftrightarrow> time_ns a \<le> time_ns b"
  by (auto simp: time_le_def time_ns_def valid_time_def)

lemma ms_parts:
  "uint (w div 1000 :: u32) = uint w div 1000"
  "uint ((w mod 1000) * 1000000 :: u32) = (uint w mod 1000) * 1000000"
proof -
  show "uint (w div 1000 :: u32) = uint w div 1000" by (simp add: uint_div)
  have "uint (w mod 1000 :: u32) = uint w mod 1000" by (simp add: uint_mod)
  moreover have "(uint w mod 1000) * 1000000 < 2 ^ 32"
    using pos_mod_bound [of 1000 "uint w"] by (simp add: )
  ultimately show "uint ((w mod 1000) * 1000000 :: u32) = (uint w mod 1000) * 1000000"
    by (simp add: uint_word_ariths take_bit_int_eq_self)
qed

lemma futureTime_ns: "time_ns (futureTime_of ms now) = time_ns now + uint ms * 1000000"
proof -
  define k m n where "k = uint ms div 1000" and "m = uint ms mod 1000" and "n = tv_nsec now + m * 1000000"
  have "uint ms = k * 1000 + m" by (simp add: k_def m_def)
  moreover have "n = n div 1000000000 * 1000000000 + n mod 1000000000" by simp
  ultimately show ?thesis
    unfolding futureTime_of_def Let_def ms_parts time_ns_def k_def [symmetric] m_def [symmetric] n_def [symmetric]
    by (simp add: algebra_simps) (simp add: n_def)
qed

lemma futureTime_valid:
  assumes "clock_ok now"
  shows "valid_time (futureTime_of ms now)"
proof -
  have u: "uint ms < 2 ^ 32" "0 \<le> uint ms" using uint_bounded [of ms] by auto
  have "uint ms div 1000 < 4294968" "0 \<le> uint ms div 1000"
    using u by (auto intro: pos_imp_zdiv_nonneg_iff [THEN iffD2])
  moreover have "uint ms mod 1000 < 1000" "0 \<le> uint ms mod 1000" by auto
  ultimately show ?thesis
    using assms unfolding futureTime_of_def Let_def ms_parts clock_ok_def valid_time_def
    by auto
qed

section \<open>The ranking of timers\<close>

definition valid_delegates :: "delegate set" where
  "valid_delegates = {d. valid_time (mFutureTime d)}"

lemma to_int_id: "- (2 ^ 31) \<le> x \<Longrightarrow> x < 2 ^ 31 \<Longrightarrow> to_int x = x"
  by (simp add: to_int_def signed_of_int signed_take_bit_int_eq_self)

text \<open>Within the bounds the conversion to int loses nothing: sooner outranks later.\<close>

lemma timer_outRanks_iff:
  assumes "a \<in> valid_delegates" and "b \<in> valid_delegates"
  shows "timer_outRanks a b \<longleftrightarrow> time_ns (mFutureTime a) < time_ns (mFutureTime b)"
proof -
  let ?a = "mFutureTime a" and ?b = "mFutureTime b"
  have v: "valid_time ?a" "valid_time ?b" using assms by (auto simp: valid_delegates_def)
  then have "to_int (tv_sec ?b - tv_sec ?a) = tv_sec ?b - tv_sec ?a"
    "to_int (tv_nsec ?b - tv_nsec ?a) = tv_nsec ?b - tv_nsec ?a"
    by (auto intro!: to_int_id simp: valid_time_def)
  then have "timer_outRanks a b \<longleftrightarrow> (tv_sec ?a < tv_sec ?b \<or> tv_sec ?a = tv_sec ?b \<and> tv_nsec ?a < tv_nsec ?b)"
    by (auto simp: outRanks_def delegate_ranks_def Let_def)
  also have "\<dots> \<longleftrightarrow> time_ns ?a < time_ns ?b"
    using v by (auto simp: time_ns_def valid_time_def)
  finally show ?thesis .
qed

lemma timer_rank_order: "rank_order valid_delegates timer_outRanks"
  by unfold_locales (auto simp: timer_outRanks_iff)

interpretation timers: ranked_queue valid_delegates timer_outRanks "heap_ok valid_delegates delegate_ranks"
    heap_mset "LocHeap_push delegate_ranks" LocHeap_peek "LocHeap_pop delegate_ranks" "LocHeap_remove delegate_ranks"
  by (rule heap_ranked_queue [OF timer_rank_order])

abbreviation timer_heap_ok :: "delegate heap \<Rightarrow> bool" where
  "timer_heap_ok \<equiv> heap_ok valid_delegates delegate_ranks"

section \<open>What an expiry pops\<close>

lemma timerOfNow_valid: "valid_time now \<Longrightarrow> timerOfNow now \<in> valid_delegates"
  by (simp add: valid_delegates_def timerOfNow_def)

text \<open>Due: not later than now.\<close>

definition due :: "timespec \<Rightarrow> delegate \<Rightarrow> bool" where
  "due now d \<longleftrightarrow> time_ns (mFutureTime d) \<le> time_ns now"

lemma popIfOutRanks_cases:
  assumes "timer_heap_ok t" and "valid_time now"
  shows "popIfOutRanks (timerOfNow now) t = (None, t) \<and> (\<forall>d\<in>#heap_mset t. \<not> due now d) \<or>
    (\<exists>d t'. popIfOutRanks (timerOfNow now) t = (Some d, t') \<and> LocHeap_pop delegate_ranks t = (Some d, t') \<and>
       due now d \<and> timer_heap_ok t' \<and> heap_mset t = add_mset d (heap_mset t'))"
proof (cases "LocHeap_peek t")
  case None
  then show ?thesis using timers.peek_None [OF assms(1)] by (simp add: popIfOutRanks_def)
next
  case (Some d)
  have P: "d \<in># heap_mset t" "\<forall>e\<in>#heap_mset t. \<not> timer_outRanks e d"
    using timers.peek_top [OF assms(1) Some] by auto
  have V: "set_mset (heap_mset t) \<subseteq> valid_delegates" using timers.inv_elts [OF assms(1)] .
  have cmp: "timer_outRanks (timerOfNow now) d \<longleftrightarrow> \<not> due now d"
    using P(1) V assms(2) by (subst timer_outRanks_iff) (auto intro: timerOfNow_valid simp: due_def timerOfNow_def [of now, THEN arg_cong [where f = mFutureTime]])
  show ?thesis
  proof (cases "due now d")
    case True
    with cmp Some timers.pop_Some [OF assms(1) Some] show ?thesis by (auto simp: popIfOutRanks_def)
  next
    case False
    have "\<not> due now e" if e: "e \<in># heap_mset t" for e
    proof -
      have "e \<in> valid_delegates" "d \<in> valid_delegates" using e P(1) V by auto
      then show ?thesis using e P(2) False timer_outRanks_iff [of e d] by (auto simp: due_def)
    qed
    with False cmp Some show ?thesis by (auto simp: popIfOutRanks_def)
  qed
qed

lemma pop_due_spec:
  assumes "timer_heap_ok t" and "valid_time now"
  shows "\<exists>ds t'. pop_due now t = (ds, t') \<and> pops (LocHeap_pop delegate_ranks) t ds t' \<and> timer_heap_ok t' \<and>
    heap_mset t = mset ds + heap_mset t' \<and> (\<forall>d\<in>set ds. due now d) \<and> (\<forall>d\<in>#heap_mset t'. \<not> due now d)"
  using assms
proof (induction now t rule: pop_due.induct)
  case (1 now t)
  from popIfOutRanks_cases [OF 1(2,3)] show ?case
  proof (elim disjE exE conjE)
    assume "popIfOutRanks (timerOfNow now) t = (None, t)" "\<forall>d\<in>#heap_mset t. \<not> due now d"
    with 1(2) show ?thesis by (subst pop_due.simps) (auto intro: pops_Nil)
  next
    fix d t1
    assume D: "popIfOutRanks (timerOfNow now) t = (Some d, t1)" "LocHeap_pop delegate_ranks t = (Some d, t1)"
      "due now d" "timer_heap_ok t1" "heap_mset t = add_mset d (heap_mset t1)"
    from 1(1) [OF D(1) [symmetric] refl D(4) 1(3)] obtain ds t' where I: "pop_due now t1 = (ds, t')"
      "pops (LocHeap_pop delegate_ranks) t1 ds t'" "timer_heap_ok t'" "heap_mset t1 = mset ds + heap_mset t'"
      "\<forall>d\<in>set ds. due now d" "\<forall>d\<in>#heap_mset t'. \<not> due now d" by blast
    have "pop_due now t = (d # ds, t')" by (subst pop_due.simps) (simp add: D I)
    with D I show ?thesis by (auto intro: pops_Cons)
  qed
qed

section \<open>The life of a delegate\<close>

fun pushes :: "timer_msg list \<Rightarrow> delegate list" where
  "pushes [] = []"
| "pushes (MsgTimerPush d # ms) = d # pushes ms"
| "pushes (m # ms) = pushes ms"

fun removes :: "timer_msg list \<Rightarrow> delegate list" where
  "removes [] = []"
| "removes (MsgTimerRemove d # ms) = d # removes ms"
| "removes (m # ms) = removes ms"

text \<open>No removal is queued before the insertion of the same delegate.\<close>

fun push_before_remove :: "timer_msg list \<Rightarrow> bool" where
  "push_before_remove [] = True"
| "push_before_remove (MsgTimerRemove d # ms) = (d \<notin> set (pushes ms) \<and> push_before_remove ms)"
| "push_before_remove (m # ms) = push_before_remove ms"

lemma pushes_append [simp]: "pushes (xs @ ys) = pushes xs @ pushes ys"
  by (induction xs rule: pushes.induct) auto

lemma removes_append [simp]: "removes (xs @ ys) = removes xs @ removes ys"
  by (induction xs rule: removes.induct) auto

lemma push_before_remove_snoc [simp]:
  "push_before_remove (ms @ [MsgTimerRemove d]) = push_before_remove ms"
  "push_before_remove (ms @ [MsgTimerExpire b]) = push_before_remove ms"
  "push_before_remove (ms @ [MsgTimerPush d]) = (push_before_remove ms \<and> d \<notin> set (removes ms))"
  by (induction ms rule: push_before_remove.induct) auto

definition heap_of :: "timer_sys \<Rightarrow> bool \<Rightarrow> delegate multiset" where
  "heap_of s b = (case conts s b of None \<Rightarrow> {#} | Some c \<Rightarrow> heap_mset (tree c))"

text \<open>Where a delegate can be: in a queued insertion or in a heap.\<close>

definition places :: "timer_sys \<Rightarrow> delegate multiset" where
  "places s = mset (pushes (msgs s)) + heap_of s True + heap_of s False"

text \<open>
  The life-cycle invariant; \<open>P\<close> are delegates popped by the expiry that is being handled and
  not yet expired. A delegate is in one place at most; it has been destroyed exactly when its
  removal is queued (once) or done; it is deleted once and is nowhere afterwards; and a client's
  running timer is its one delegate that is in place and not destroyed.
\<close>

definition life_inv :: "delegate multiset \<Rightarrow> timer_sys \<Rightarrow> bool" where
  "life_inv P s \<longleftrightarrow>
     (\<forall>d. d \<in># places s + P \<or> d \<in> destroyed s \<longrightarrow> did d < next_id s) \<and>
     (\<forall>d. count (places s + P) d \<le> 1) \<and>
     set (freed s) \<inter> set_mset (places s + P) = {} \<and>
     destroyed s = set (removes (msgs s)) \<union> set (freed s) \<and> distinct (removes (msgs s) @ freed s) \<and>
     push_before_remove (msgs s) \<and>
     (\<forall>c d. mTimer s c = Some d \<longleftrightarrow> d \<in># places s + P \<and> d \<notin> destroyed s \<and> dclient d = c) \<and>
     (\<forall>b. \<forall>d\<in>#heap_of s b. dwake d = b)"

lemma life_inv_cong:
  "places s = places t \<Longrightarrow> destroyed s = destroyed t \<Longrightarrow> next_id s = next_id t \<Longrightarrow> freed s = freed t \<Longrightarrow>
   msgs s = msgs t \<Longrightarrow> mTimer s = mTimer t \<Longrightarrow> heap_of s = heap_of t \<Longrightarrow> life_inv P s = life_inv P t"
  by (simp add: life_inv_def)

lemma heap_of_upd_cont:
  "heap_of (upd_cont b f s) b' =
     (if b' = b then (case conts s b of None \<Rightarrow> {#} | Some c \<Rightarrow> heap_mset (tree (f c))) else heap_of s b')"
  by (auto simp: heap_of_def upd_cont_def split: option.splits)

lemma upd_cont_simps [simp]:
  "msgs (upd_cont b f s) = msgs s" "mTimer (upd_cont b f s) = mTimer s" "destroyed (upd_cont b f s) = destroyed s"
  "freed (upd_cont b f s) = freed s" "next_id (upd_cont b f s) = next_id s" "clock (upd_cont b f s) = clock s"
  "callbacks (upd_cont b f s) = callbacks s"
  by (simp_all add: upd_cont_def)

lemma heap_of_simps [simp]:
  "heap_of (s\<lparr>msgs := x\<rparr>) = heap_of s" "heap_of (s\<lparr>mTimer := y\<rparr>) = heap_of s"
  "heap_of (s\<lparr>destroyed := z\<rparr>) = heap_of s" "heap_of (s\<lparr>freed := u\<rparr>) = heap_of s"
  "heap_of (s\<lparr>next_id := v\<rparr>) = heap_of s" "heap_of (s\<lparr>clock := w\<rparr>) = heap_of s"
  "heap_of (s\<lparr>callbacks := cb\<rparr>) = heap_of s"
  by (auto simp: heap_of_def fun_eq_iff)

lemma updateSoonestTime_tree [simp]: "tree (updateSoonestTime p c) = tree c"
  by (auto simp: updateSoonestTime_def Let_def split: option.splits)

lemma destroyLocked_life:
  assumes inv: "life_inv P s" and d: "mTimer s (dclient d) = Some d"
  shows "life_inv P (destroyLocked d (s\<lparr>mTimer := (mTimer s)(dclient d := None)\<rparr>))"
proof -
  have nd: "d \<notin> destroyed s" using inv d by (auto simp: life_inv_def)
  with inv have "d \<notin> set (removes (msgs s))" "d \<notin> set (freed s)" "d \<in># places s + P"
    using d by (auto simp: life_inv_def)
  moreover have "e = d" if "e \<in># places s + P" "e \<notin> destroyed s" "dclient e = dclient d" for e
    using inv d that unfolding life_inv_def by (metis option.inject)
  ultimately show ?thesis
    using inv nd unfolding life_inv_def destroyLocked_def places_def by (auto 0 3)
qed

section \<open>Heaps and timerfd settings\<close>

definition heaps_ok :: "timer_sys \<Rightarrow> bool" where
  "heaps_ok s \<longleftrightarrow> (\<forall>b c. conts s b = Some c \<longrightarrow> timer_heap_ok (tree c)) \<and>
     (\<forall>d\<in>set (pushes (msgs s)). d \<in> valid_delegates \<and> conts s (dwake d) \<noteq> None)"

text \<open>The timerfd is armed for the soonest timer.\<close>

definition armed_for_top :: "container \<Rightarrow> bool" where
  "armed_for_top c \<longleftrightarrow>
     (\<forall>d. getSoonestTimer c = Some d \<longrightarrow> polled c \<and> armed c = Some (mFutureTime d))"

text \<open>It is, unless the expiry of the container is already queued.\<close>

definition armed_inv :: "timer_sys \<Rightarrow> bool" where
  "armed_inv s \<longleftrightarrow> (\<forall>b c. conts s b = Some c \<longrightarrow> MsgTimerExpire b \<notin> set (msgs s) \<longrightarrow> armed_for_top c)"

lemma getSoonestTimer_simps [simp]:
  "getSoonestTimer (c\<lparr>armed := a\<rparr>) = getSoonestTimer c" "getSoonestTimer (c\<lparr>polled := p\<rparr>) = getSoonestTimer c"
  "getSoonestTimer (c\<lparr>tree := t\<rparr>) = LocHeap_peek t"
  by (simp_all add: getSoonestTimer_def)

lemma updateSoonestTime_None: "armed_for_top (updateSoonestTime None c)"
  by (cases "getSoonestTimer c") (auto simp: updateSoonestTime_def Let_def armed_for_top_def)

lemma peek_push:
  "LocHeap_peek (LocHeap_push ranks t d) =
     (case LocHeap_peek t of None \<Rightarrow> Some d | Some p \<Rightarrow> if outRanks ranks d p then Some d else Some p)"
  by (cases t) (auto simp: LocHeap_peek_def LocHeap_push_def new_node_def Let_def)

lemma peek_node_remove:
  "LocHeap_peek t \<noteq> Some d \<Longrightarrow> LocHeap_peek (snd (LocHeap_remove ranks t d)) = LocHeap_peek t"
  by (cases t) (auto simp: LocHeap_peek_def LocHeap_remove_def split: option.splits prod.splits)

lemma push_proc_armed: "armed_for_top c \<Longrightarrow> armed_for_top (MsgTimerPush_proc d c)"
  unfolding MsgTimerPush_proc_def Let_def updateSoonestTime_def
  by (cases "getSoonestTimer c") (auto simp: armed_for_top_def peek_push getSoonestTimer_def split: if_splits)

lemma remove_proc_armed:
  assumes "timer_heap_ok (tree c)" and "armed_for_top c"
  shows "armed_for_top (MsgTimerRemove_proc d c)"
proof -
  obtain r t where rt: "LocHeap_remove delegate_ranks (tree c) d = (r, t)" by force
  show ?thesis
  proof (cases "getSoonestTimer c = r")
    case True
    with rt show ?thesis by (simp add: MsgTimerRemove_proc_def updateSoonestTime_None)
  next
    case False
    have "r = Some d \<or> r = None"
      using rt timers.remove_absent [OF assms(1), of d] timers.remove_present [OF assms(1), of d] by fastforce
    then have "LocHeap_peek t = getSoonestTimer c"
    proof
      assume "r = Some d"
      with False peek_node_remove [of "tree c" d delegate_ranks] rt show ?thesis
        by (simp add: getSoonestTimer_def)
    next
      assume "r = None"
      then have "t = tree c"
        using rt timers.remove_absent [OF assms(1), of d] timers.remove_present [OF assms(1), of d] by fastforce
      then show ?thesis by (simp add: getSoonestTimer_def)
    qed
    with False rt assms(2) show ?thesis by (auto simp: MsgTimerRemove_proc_def armed_for_top_def)
  qed
qed

lemma push_proc_tree [simp]: "tree (MsgTimerPush_proc d c) = LocHeap_push delegate_ranks (tree c) d"
  by (simp add: MsgTimerPush_proc_def Let_def)

lemma remove_proc_tree [simp]:
  "tree (MsgTimerRemove_proc d c) = snd (LocHeap_remove delegate_ranks (tree c) d)"
  by (simp add: MsgTimerRemove_proc_def Let_def split: prod.splits)

lemma remove_proc_mset:
  "timer_heap_ok t \<Longrightarrow> heap_mset (snd (LocHeap_remove delegate_ranks t d)) = heap_mset t - {#d#} \<and>
     timer_heap_ok (snd (LocHeap_remove delegate_ranks t d))"
  using timers.remove_absent [of t d] timers.remove_present [of t d]
  by (cases "d \<in># heap_mset t") auto

lemma expire_pops_spec:
  assumes "timer_heap_ok (tree c)" and "valid_time now"
  shows "\<exists>ds c'. MsgTimerExpire_pops now c = (ds, c') \<and> heap_mset (tree c) = mset ds + heap_mset (tree c') \<and>
    timer_heap_ok (tree c') \<and> armed_for_top c' \<and> pops (LocHeap_pop delegate_ranks) (tree c) ds (tree c') \<and>
    (\<forall>d\<in>set (tl ds). due now d) \<and> (\<forall>d\<in>#heap_mset (tree c'). \<not> due now d)"
proof (cases "getSoonestTimer c")
  case None
  then have "LocHeap_pop delegate_ranks (tree c) = (None, tree c)"
    using timers.pop_None [OF assms(1)] by (simp add: getSoonestTimer_def)
  moreover have "heap_mset (tree c) = {#}"
    using None timers.peek_None [OF assms(1)] by (simp add: getSoonestTimer_def)
  ultimately show ?thesis using assms(1)
    by (auto simp: MsgTimerExpire_pops_def updateSoonestTime_None intro: pops_Nil)
next
  case (Some d)
  with timers.pop_Some [OF assms(1), of d] obtain t1 where t1:
    "LocHeap_pop delegate_ranks (tree c) = (Some d, t1)" "timer_heap_ok t1"
    "heap_mset (tree c) = add_mset d (heap_mset t1)" by (auto simp: getSoonestTimer_def)
  from pop_due_spec [OF t1(2) assms(2)] obtain ds t' where
    "pop_due now t1 = (ds, t')" "pops (LocHeap_pop delegate_ranks) t1 ds t'" "timer_heap_ok t'"
    "heap_mset t1 = mset ds + heap_mset t'" "\<forall>d\<in>set ds. due now d" "\<forall>d\<in>#heap_mset t'. \<not> due now d" by blast
  with t1 show ?thesis
    by (auto simp: MsgTimerExpire_pops_def updateSoonestTime_None intro: pops_Cons)
qed

section \<open>Every step keeps the invariants\<close>

definition timer_inv :: "timer_sys \<Rightarrow> bool" where
  "timer_inv s \<longleftrightarrow> life_inv {#} s \<and> heaps_ok s \<and> armed_inv s"

lemma places_split: "places s = mset (pushes (msgs s)) + heap_of s b + heap_of s (\<not> b)"
  by (cases b) (auto simp: places_def)

lemma life_inv_drop:
  assumes "life_inv (add_mset d P) t" and "d \<in> destroyed t"
  shows "life_inv P t"
proof -
  have "\<forall>e. count (places t + add_mset d P) e \<le> 1" using assms(1) unfolding life_inv_def by (elim conjE)
  then have "count (places t + P) e \<le> 1" for e
    by (drule_tac spec [of _ e]) (simp split: if_splits)
  moreover have "mTimer t c = Some e \<longleftrightarrow> e \<in># places t + P \<and> e \<notin> destroyed t \<and> dclient e = c" for c e
    using assms by (auto simp: life_inv_def)
  ultimately show ?thesis using assms(1) by (simp add: life_inv_def)
qed

lemma delegate_expire_inv:
  assumes "life_inv (add_mset d P) s" and "heaps_ok s" and "armed_inv s"
  shows "life_inv P (delegate_expire d s) \<and> heaps_ok (delegate_expire d s) \<and> armed_inv (delegate_expire d s) \<and>
    clock (delegate_expire d s) = clock s \<and> conts (delegate_expire d s) = conts s"
proof -
  note drop = life_inv_drop [of d P]
  show ?thesis
  proof (cases "d \<in> destroyed s")
    case True
    with drop assms show ?thesis by (simp add: delegate_expire_def)
  next
    case False
    then have m: "mTimer s (dclient d) = Some d"
      using assms(1) by (auto simp: life_inv_def)
    define t where "t = destroyLocked d (s\<lparr>mTimer := (mTimer s)(dclient d := None)\<rparr>)"
    have e: "delegate_expire d s = t\<lparr>callbacks := callbacks t @ [(d, clock t)]\<rparr>"
      using False m by (simp add: delegate_expire_def LocTimer_stop_def t_def)
    have "life_inv (add_mset d P) t" unfolding t_def by (rule destroyLocked_life [OF assms(1) m])
    moreover have "d \<in> destroyed t" by (simp add: t_def destroyLocked_def)
    ultimately have "life_inv P t" by (rule drop)
    then have "life_inv P (delegate_expire d s)"
      unfolding e by (subst life_inv_cong [of _ t]) (simp_all add: places_def)
    moreover have "heaps_ok (delegate_expire d s)" "armed_inv (delegate_expire d s)"
      using assms(2,3) unfolding e t_def by (auto simp: heaps_ok_def armed_inv_def destroyLocked_def)
    ultimately show ?thesis unfolding e t_def by (auto simp: destroyLocked_def)
  qed
qed

lemma fold_delegate_expire_inv:
  "life_inv (mset ds) s \<Longrightarrow> heaps_ok s \<Longrightarrow> armed_inv s \<Longrightarrow>
   timer_inv (fold delegate_expire ds s) \<and> conts (fold delegate_expire ds s) = conts s"
proof (induction ds arbitrary: s)
  case Nil
  then show ?case by (simp add: timer_inv_def)
next
  case (Cons d ds)
  from delegate_expire_inv [of d "mset ds" s] Cons.prems have
    "life_inv (mset ds) (delegate_expire d s)" "heaps_ok (delegate_expire d s)" "armed_inv (delegate_expire d s)"
    "conts (delegate_expire d s) = conts s" by auto
  with Cons.IH show ?case by simp
qed

lemma heaps_ok_set:
  assumes "heaps_ok s" and "timer_heap_ok (tree c)"
  shows "heaps_ok (s\<lparr>conts := (conts s)(b := Some c)\<rparr>)"
  unfolding heaps_ok_def
proof (intro conjI allI impI ballI)
  fix b' c' assume "conts (s\<lparr>conts := (conts s)(b := Some c)\<rparr>) b' = Some c'"
  then show "timer_heap_ok (tree c')"
    using assms by (cases "b' = b") (auto simp: heaps_ok_def)
next
  fix d assume "d \<in> set (pushes (msgs (s\<lparr>conts := (conts s)(b := Some c)\<rparr>)))"
  with assms(1) have "d \<in> valid_delegates \<and> conts s (dwake d) \<noteq> None" by (simp add: heaps_ok_def)
  then show "d \<in> valid_delegates" "conts (s\<lparr>conts := (conts s)(b := Some c)\<rparr>) (dwake d) \<noteq> None"
    by (simp_all only: timer_sys.simps fun_upd_apply split: if_splits) auto
qed

lemma armed_inv_set:
  assumes "armed_inv s" and "armed_for_top c"
  shows "armed_inv (s\<lparr>conts := (conts s)(b := Some c)\<rparr>)"
  unfolding armed_inv_def
proof (intro allI impI)
  fix b' c' assume "conts (s\<lparr>conts := (conts s)(b := Some c)\<rparr>) b' = Some c'"
    "MsgTimerExpire b' \<notin> set (msgs (s\<lparr>conts := (conts s)(b := Some c)\<rparr>))"
  then show "armed_for_top c'"
    using assms by (cases "b' = b") (auto simp: armed_inv_def)
qed

lemma new_container_ok: "timer_heap_ok (tree new_container)" "armed_for_top new_container"
  by (simp_all add: new_container_def heap_ok_def armed_for_top_def getSoonestTimer_def LocHeap_peek_def)

lemma start_inv [inv_intros]:
  assumes inv: "timer_inv s" and st: "LocTimer_start fd_ok client ms wake s = (ok, t)" and clk: "clock_ok (clock s)"
  shows "timer_inv t"
proof (cases "mTimer s client")
  case (Some d)
  with st inv show ?thesis by (simp add: LocTimer_start_def)
next
  case None
  obtain co s' where get: "LocTimerContainer_get fd_ok wake s = (co, s')" by force
  then have s': "msgs s' = msgs s" "mTimer s' = mTimer s" "destroyed s' = destroyed s" "freed s' = freed s"
    "next_id s' = next_id s" "clock s' = clock s" "heap_of s' = heap_of s"
    "co \<noteq> None \<Longrightarrow> conts s' wake \<noteq> None"
    by (auto simp: LocTimerContainer_get_def heap_of_def fun_eq_iff new_container_def split: option.splits if_splits)
  have inv': "life_inv {#} s'"
    using inv s' by (subst life_inv_cong [of _ s]) (auto simp: timer_inv_def places_def)
  have arm': "heaps_ok s' \<and> armed_inv s'"
    using inv get new_container_ok heaps_ok_set [of s new_container wake] armed_inv_set [of s new_container wake]
    unfolding timer_inv_def LocTimerContainer_get_def by (auto split: option.splits if_splits)
  show ?thesis
  proof (cases co)
    case None
    with st get \<open>mTimer s client = None\<close> inv' arm' show ?thesis by (simp add: LocTimer_start_def timer_inv_def)
  next
    case (Some c)
    define d where "d = \<lparr>did = next_id s', mFutureTime = futureTime_of ms (clock s'), dwake = wake, dclient = client\<rparr>"
    have t: "t = s'\<lparr>next_id := next_id s' + 1, msgs := msgs s' @ [MsgTimerPush d], mTimer := (mTimer s')(client := Some d)\<rparr>"
      using st get Some \<open>mTimer s client = None\<close> by (simp add: LocTimer_start_def Let_def d_def)
    have fresh: "d \<notin># places s'" "d \<notin> destroyed s'"
      using inv' unfolding life_inv_def d_def by fastforce+
    then have fresh': "d \<notin> set (removes (msgs s'))" "d \<notin> set (freed s')" "count (places s') d = 0"
      using inv' by (auto simp: life_inv_def not_in_iff)
    have pl: "places t = add_mset d (places s')" "heap_of t = heap_of s'"
      by (simp_all add: t places_def)
    have no: "e \<in># places s' \<Longrightarrow> e \<notin> destroyed s' \<Longrightarrow> dclient e \<noteq> client" for e
      using inv' s'(2) \<open>mTimer s client = None\<close> unfolding life_inv_def by (metis add.right_neutral option.distinct(1))
    have "life_inv {#} t"
      using inv' fresh fresh' no unfolding life_inv_def pl
      by (auto simp: t d_def less_SucI)
    moreover have "d \<in> valid_delegates"
      using futureTime_valid [OF clk] s' by (simp add: valid_delegates_def d_def)
    ultimately show ?thesis
      using arm' s'(8) Some unfolding timer_inv_def heaps_ok_def armed_inv_def
      by (auto simp: t) (auto simp: d_def)
  qed
qed

lemma stop_inv [inv_intros]:
  assumes inv: "timer_inv s" and st: "LocTimer_stop client s = (ok, t)"
  shows "timer_inv t"
proof (cases "mTimer s client")
  case None
  with st inv show ?thesis by (simp add: LocTimer_stop_def)
next
  case (Some d)
  then have "dclient d = client" using inv by (auto simp: timer_inv_def life_inv_def)
  with Some st destroyLocked_life [of "{#}" s d] inv
  have "life_inv {#} t" by (auto simp: LocTimer_stop_def timer_inv_def)
  with Some st inv show ?thesis
    by (auto simp: LocTimer_stop_def destroyLocked_def timer_inv_def heaps_ok_def armed_inv_def split: if_splits)
qed

lemma expire_inv:
  assumes "timer_inv s"
  shows "timer_inv (expire b s)"
proof -
  have "heap_of (expire b s) = heap_of s"
    by (auto simp: expire_def fun_eq_iff heap_of_upd_cont) (auto simp: heap_of_def expire_poll_def split: option.splits)
  then have "life_inv {#} (expire b s)"
    using assms by (auto simp: timer_inv_def life_inv_def places_def expire_def)
  moreover have "heaps_ok (expire b s)" "armed_inv (expire b s)"
    using assms by (auto simp: timer_inv_def heaps_ok_def armed_inv_def expire_def upd_cont_def expire_poll_def)
  ultimately show ?thesis by (simp add: timer_inv_def)
qed

lemma handle_push_inv:
  assumes inv: "timer_inv s" and m: "msgs s = MsgTimerPush d # ms"
  shows "timer_inv (msg_proc (MsgTimerPush d) (s\<lparr>msgs := ms\<rparr>))"
proof -
  define t where "t = msg_proc (MsgTimerPush d) (s\<lparr>msgs := ms\<rparr>)"
  have f: "msgs t = ms" "mTimer t = mTimer s" "destroyed t = destroyed s" "freed t = freed s" "next_id t = next_id s"
    by (simp_all add: t_def)
  obtain c where c: "conts s (dwake d) = Some c" "d \<in> valid_delegates"
    using inv m by (auto simp: timer_inv_def heaps_ok_def)
  have h: "heap_of t b = (if b = dwake d then add_mset d (heap_of s b) else heap_of s b)" for b
    unfolding t_def using c by (simp add: heap_of_upd_cont LocHeap_push_mset) (simp add: heap_of_def)
  have pl: "places t = places s"
    by (simp only: places_split [of _ "dwake d"] h) (simp add: m f)
  have hb: "\<forall>b. \<forall>e\<in>#heap_of t b. dwake e = b"
    using inv by (simp add: h timer_inv_def life_inv_def)
  have "life_inv {#} t"
    using inv hb unfolding timer_inv_def life_inv_def pl f m by simp
  moreover have "heaps_ok t"
    using inv m c unfolding timer_inv_def heaps_ok_def t_def
    by (auto simp: upd_cont_def timers.push_inv)
  moreover have "armed_inv t"
    using inv m unfolding timer_inv_def armed_inv_def t_def
    by (auto simp: upd_cont_def push_proc_armed split: if_splits)
  ultimately show ?thesis by (simp add: timer_inv_def t_def)
qed

lemma handle_remove_inv:
  assumes inv: "timer_inv s" and m: "msgs s = MsgTimerRemove d # ms"
  shows "timer_inv (msg_proc (MsgTimerRemove d) (s\<lparr>msgs := ms\<rparr>))"
proof -
  define t where "t = msg_proc (MsgTimerRemove d) (s\<lparr>msgs := ms\<rparr>)"
  have f: "msgs t = ms" "mTimer t = mTimer s" "destroyed t = destroyed s" "freed t = freed s @ [d]" "next_id t = next_id s"
    by (simp_all add: t_def Let_def)
  have ok: "conts s b = Some c \<Longrightarrow> timer_heap_ok (tree c)" for b c
    using inv by (auto simp: timer_inv_def heaps_ok_def)
  have h: "heap_of t b = heap_of s b - (if b = dwake d then {#d#} else {#})" for b
    unfolding t_def
    using ok remove_proc_mset by (auto simp: Let_def heap_of_upd_cont) (auto simp: heap_of_def split: option.splits)
  have nb: "d \<notin># heap_of s (\<not> dwake d)"
    using inv by (auto simp: timer_inv_def life_inv_def)
  have np: "d \<notin> set (pushes ms)" using inv m by (auto simp: timer_inv_def life_inv_def)
  have "places s = mset (pushes ms) + heap_of s (dwake d) + heap_of s (\<not> dwake d)"
    using m by (simp add: places_split [of s "dwake d"])
  moreover have "places t = mset (pushes ms) + (heap_of s (dwake d) - {#d#}) + heap_of s (\<not> dwake d)"
    by (simp only: places_split [of t "dwake d"] h) (simp add: f)
  moreover have "count (mset (pushes ms)) d = 0" "count (heap_of s (\<not> dwake d)) d = 0"
    using nb np by (simp_all only: not_in_iff [symmetric] set_mset_mset not_False_eq_True)
  ultimately have pl: "places t = places s - {#d#}"
    by (auto simp: multiset_eq_iff simp del: count_mset_0_iff)
  have one: "count (places s) e \<le> 1" for e using inv by (simp add: timer_inv_def life_inv_def)
  have mem: "set_mset (places t) = set_mset (places s) - {d}"
    unfolding pl by (rule at_most_one_mset_mset_diff) (use one [of d] in \<open>simp add: not_in_iff\<close>)
  have cnt: "\<forall>e. count (places t) e \<le> 1"
    using one unfolding pl by (simp add: le_diff_conv le_SucI)
  have hb: "\<forall>b. \<forall>e\<in>#heap_of t b. dwake e = b"
    using inv by (auto simp: h timer_inv_def life_inv_def dest: in_diffD)
  have "life_inv {#} t"
    using inv cnt hb mem unfolding timer_inv_def life_inv_def f m by auto
  moreover have "heaps_ok t"
    using inv m remove_proc_mset unfolding timer_inv_def heaps_ok_def t_def
    by (auto simp: upd_cont_def Let_def)
  moreover have "armed_inv t"
    using inv m ok unfolding timer_inv_def armed_inv_def t_def
    by (auto simp: upd_cont_def remove_proc_armed Let_def split: if_splits)
  ultimately show ?thesis by (simp add: timer_inv_def t_def)
qed

text \<open>Handling an expiry is expiring the popped timers, one after the other, in a good state.\<close>

lemma handle_expire_split:
  assumes inv: "timer_inv s" and m: "msgs s = MsgTimerExpire b # ms" and clk: "clock_ok (clock s)"
  shows "\<exists>ds t. msg_proc (MsgTimerExpire b) (s\<lparr>msgs := ms\<rparr>) = fold delegate_expire ds t \<and>
    life_inv (mset ds) t \<and> heaps_ok t \<and> armed_inv t \<and> callbacks t = callbacks s \<and> destroyed t = destroyed s"
proof (cases "conts s b")
  case None
  have "life_inv {#} (s\<lparr>msgs := ms\<rparr>)" "heaps_ok (s\<lparr>msgs := ms\<rparr>)"
    using inv m unfolding timer_inv_def life_inv_def heaps_ok_def places_def by auto
  moreover have "armed_inv (s\<lparr>msgs := ms\<rparr>)"
    unfolding armed_inv_def
  proof (intro allI impI)
    fix b' x assume "conts (s\<lparr>msgs := ms\<rparr>) b' = Some x" "MsgTimerExpire b' \<notin> set (msgs (s\<lparr>msgs := ms\<rparr>))"
    then show "armed_for_top x"
      using None inv m by (cases "b' = b") (auto simp: timer_inv_def armed_inv_def)
  qed
  ultimately show ?thesis
    using None by (intro exI [of _ "[]"] exI [of _ "s\<lparr>msgs := ms\<rparr>"]) simp
next
  case (Some c)
  with inv have ok: "timer_heap_ok (tree c)" by (auto simp: timer_inv_def heaps_ok_def)
  from expire_pops_spec [OF ok clock_ok_valid [OF clk]] obtain ds c' where e:
    "MsgTimerExpire_pops (clock s) c = (ds, c')" "heap_mset (tree c) = mset ds + heap_mset (tree c')"
    "timer_heap_ok (tree c')" "armed_for_top c'" by blast
  define t where "t = s\<lparr>msgs := ms, conts := (conts s)(b := Some c')\<rparr>"
  have f: "msgs t = ms" "mTimer t = mTimer s" "destroyed t = destroyed s" "freed t = freed s" "next_id t = next_id s"
    by (simp_all add: t_def)
  have h: "heap_of t b' = (if b' = b then heap_mset (tree c') else heap_of s b')" for b'
    by (simp add: t_def heap_of_def)
  have hb: "heap_of s b = mset ds + heap_mset (tree c')" using Some e(2) by (simp add: heap_of_def)
  have pl: "places t + mset ds = places s + {#}"
    by (simp only: places_split [of _ b] h) (simp add: m f hb)
  have wk: "\<forall>b'. \<forall>d\<in>#heap_of t b'. dwake d = b'"
    using inv hb by (auto simp: h timer_inv_def life_inv_def)
  have "life_inv (mset ds) t"
    using inv wk unfolding timer_inv_def life_inv_def pl f m by simp
  moreover have "heaps_ok t"
    using inv m heaps_ok_set [OF _ e(3), of "s\<lparr>msgs := ms\<rparr>" b]
    unfolding timer_inv_def by (auto simp: heaps_ok_def t_def)
  moreover have "armed_inv t"
    unfolding armed_inv_def
  proof (intro allI impI)
    fix b' x assume "conts t b' = Some x" "MsgTimerExpire b' \<notin> set (msgs t)"
    then show "armed_for_top x"
      using e(4) inv m by (cases "b' = b") (auto simp: t_def timer_inv_def armed_inv_def)
  qed
  ultimately show ?thesis
    using Some e(1) by (intro exI [of _ ds] exI [of _ t]) (simp add: t_def)
qed

lemma handle_expire_inv:
  "timer_inv s \<Longrightarrow> msgs s = MsgTimerExpire b # ms \<Longrightarrow> clock_ok (clock s) \<Longrightarrow>
   timer_inv (msg_proc (MsgTimerExpire b) (s\<lparr>msgs := ms\<rparr>))"
  by (metis handle_expire_split fold_delegate_expire_inv)

lemma timer_step_inv:
  assumes "timer_step s t" and "timer_inv s" and "clock_ok (clock s)"
  shows "timer_inv t"
  using assms(1)
proof cases
  case (start fd_ok client ms wake ok)
  with assms show ?thesis by (blast intro: inv_intros)
next
  case (stop client ok)
  with assms show ?thesis by (blast intro: inv_intros)
next
  case (tick now)
  with assms(2) show ?thesis
    unfolding timer_inv_def
    by (subst life_inv_cong [of _ s]) (simp_all add: places_def heaps_ok_def armed_inv_def)
next
  case (fire b)
  with assms show ?thesis by (simp add: expire_inv)
next
  case (handle m ms)
  with assms show ?thesis
    by (cases m) (auto simp only: intro: handle_push_inv handle_remove_inv handle_expire_inv)
qed

lemma timer_reach_inv: "timer_reach s \<Longrightarrow> timer_inv s \<and> clock_ok (clock s)"
proof (induction rule: timer_reach.induct)
  case (init now)
  then show ?case
    by (auto simp: timer_inv_def life_inv_def heaps_ok_def armed_inv_def timer_init_def places_def heap_of_def)
next
  case (step s t)
  then show ?case using timer_step_inv by blast
qed

section \<open>Callbacks\<close>

text \<open>A timer is called back once at most, and only when it has been destroyed by its expiry.\<close>

definition callbacks_ok :: "timer_sys \<Rightarrow> bool" where
  "callbacks_ok s \<longleftrightarrow> distinct (map fst (callbacks s)) \<and> fst ` set (callbacks s) \<subseteq> destroyed s"

text \<open>A step only adds callbacks of timers that were not destroyed before it.\<close>

definition callbacks_from :: "timer_sys \<Rightarrow> timer_sys \<Rightarrow> bool" where
  "callbacks_from s t \<longleftrightarrow> destroyed s \<subseteq> destroyed t \<and>
     (\<exists>cs. callbacks t = callbacks s @ cs \<and> fst ` set cs \<inter> destroyed s = {} \<and>
           fst ` set cs \<subseteq> destroyed t \<and> distinct (map fst cs))"

lemma callbacks_from_refl: "destroyed s \<subseteq> destroyed t \<Longrightarrow> callbacks t = callbacks s \<Longrightarrow> callbacks_from s t"
  by (simp add: callbacks_from_def)

lemma callbacks_from_trans: "callbacks_from s t \<Longrightarrow> callbacks_from t u \<Longrightarrow> callbacks_from s u"
proof -
  assume st: "callbacks_from s t" and tu: "callbacks_from t u"
  from st obtain cs where cs: "destroyed s \<subseteq> destroyed t" "callbacks t = callbacks s @ cs"
    "fst ` set cs \<inter> destroyed s = {}" "fst ` set cs \<subseteq> destroyed t" "distinct (map fst cs)"
    by (auto simp: callbacks_from_def)
  from tu obtain ds where ds: "destroyed t \<subseteq> destroyed u" "callbacks u = callbacks t @ ds"
    "fst ` set ds \<inter> destroyed t = {}" "fst ` set ds \<subseteq> destroyed u" "distinct (map fst ds)"
    by (auto simp: callbacks_from_def)
  have "fst ` set (cs @ ds) \<inter> destroyed s = {}" "fst ` set (cs @ ds) \<subseteq> destroyed u"
    using cs ds by auto
  moreover have "distinct (map fst (cs @ ds))"
    by (rule distinct_map_append_disjoint [OF cs(5) ds(5) cs(4) ds(3)])
  ultimately show "callbacks_from s u"
    using cs(1,2) ds(1,2) unfolding callbacks_from_def by (metis append.assoc subset_trans)
qed

lemma delegate_expire_callbacks:
  assumes "life_inv (add_mset d P) s"
  shows "callbacks_from s (delegate_expire d s)"
proof (cases "d \<in> destroyed s")
  case True
  then show ?thesis by (simp add: delegate_expire_def callbacks_from_def)
next
  case False
  then have "mTimer s (dclient d) = Some d" using assms by (auto simp: life_inv_def)
  with False show ?thesis
    by (auto simp: delegate_expire_def LocTimer_stop_def destroyLocked_def callbacks_from_def)
qed

lemma fold_delegate_expire_callbacks:
  "life_inv (mset ds) s \<Longrightarrow> heaps_ok s \<Longrightarrow> armed_inv s \<Longrightarrow> callbacks_from s (fold delegate_expire ds s)"
proof (induction ds arbitrary: s)
  case Nil
  then show ?case by (simp add: callbacks_from_refl)
next
  case (Cons d ds)
  from delegate_expire_inv [of d "mset ds" s] Cons.prems Cons.IH
  have "callbacks_from (delegate_expire d s) (fold delegate_expire ds (delegate_expire d s))" by auto
  with delegate_expire_callbacks [of d "mset ds" s] Cons.prems callbacks_from_trans show ?case by fastforce
qed

lemma timer_step_callbacks:
  assumes "timer_step s t" and "timer_inv s" and "clock_ok (clock s)"
  shows "callbacks_from s t"
  using assms(1)
proof cases
  case (handle m ms)
  show ?thesis
  proof (cases m)
    case (MsgTimerExpire b)
    with handle assms handle_expire_split obtain ds u where
      "t = fold delegate_expire ds u" "life_inv (mset ds) u" "heaps_ok u" "armed_inv u"
      "callbacks u = callbacks s" "destroyed u = destroyed s" by metis
    with fold_delegate_expire_callbacks [of ds u] show ?thesis by (simp add: callbacks_from_def)
  qed (use handle in \<open>auto simp: Let_def intro!: callbacks_from_refl\<close>)
qed (auto simp: LocTimer_start_def LocTimer_stop_def LocTimerContainer_get_def destroyLocked_def expire_def Let_def
       split: option.splits if_splits intro!: callbacks_from_refl)

lemma timer_reach_callbacks: "timer_reach s \<Longrightarrow> callbacks_ok s"
proof (induction rule: timer_reach.induct)
  case (init now)
  then show ?case by (simp add: callbacks_ok_def timer_init_def)
next
  case (step s t)
  then have "callbacks_from s t" using timer_reach_inv timer_step_callbacks by blast
  then obtain cs where cs: "destroyed s \<subseteq> destroyed t" "callbacks t = callbacks s @ cs"
    "fst ` set cs \<inter> destroyed s = {}" "fst ` set cs \<subseteq> destroyed t" "distinct (map fst cs)"
    by (auto simp: callbacks_from_def)
  have ok: "distinct (map fst (callbacks s))" "fst ` set (callbacks s) \<subseteq> destroyed s"
    using step.IH by (simp_all add: callbacks_ok_def)
  have "distinct (map fst (callbacks t))"
    unfolding cs(2) by (rule distinct_map_append_disjoint [OF ok(1) cs(5) ok(2) cs(3)])
  moreover have "fst ` set (callbacks t) \<subseteq> destroyed t"
    unfolding cs(2) set_append image_Un using ok(2) cs(1,4) by (meson Un_least subset_trans)
  ultimately show ?case by (simp add: callbacks_ok_def)
qed

text \<open>Runs: sequences of steps with the clock in bounds.\<close>

inductive timer_run :: "timer_sys \<Rightarrow> timer_sys \<Rightarrow> bool" where
  refl: "timer_run s s"
| trans: "timer_run s t \<Longrightarrow> timer_step t u \<Longrightarrow> clock_ok (clock u) \<Longrightarrow> timer_run s u"

lemma timer_run_from: "timer_run s t \<Longrightarrow> timer_reach s \<Longrightarrow> timer_reach t \<and> callbacks_from s t"
proof (induction rule: timer_run.induct)
  case (refl s)
  then show ?case by (simp add: callbacks_from_refl)
next
  case (trans s t u)
  then have "timer_reach t" "callbacks_from s t" by auto
  with trans.hyps show ?case
    using timer_reach_inv timer_step_callbacks callbacks_from_trans timer_reach.step by metis
qed

section \<open>Concrete runs\<close>

lemma fold_delegate_expire_clock [simp]: "clock (fold delegate_expire ds s) = clock s"
proof (induction ds arbitrary: s)
  case (Cons d ds)
  have "clock (delegate_expire d s) = clock s"
    by (auto simp: delegate_expire_def LocTimer_stop_def destroyLocked_def split: option.splits)
  with Cons show ?case by simp
qed simp

lemma msg_proc_clock: "clock (msg_proc m s) = clock s"
  by (cases m) (auto simp: Let_def split: option.splits prod.splits)

definition do_start :: "nat \<Rightarrow> u32 \<Rightarrow> timer_sys \<Rightarrow> timer_sys" where
  "do_start client ms s = snd (LocTimer_start True client ms False s)"

definition do_stop :: "nat \<Rightarrow> timer_sys \<Rightarrow> timer_sys" where
  "do_stop client s = snd (LocTimer_stop client s)"

definition do_handle :: "timer_sys \<Rightarrow> timer_sys" where
  "do_handle s = (case msgs s of [] \<Rightarrow> s | m # ms \<Rightarrow> msg_proc m (s\<lparr>msgs := ms\<rparr>))"

lemma reach_do:
  assumes "timer_reach s"
  shows "timer_reach (do_start client ms s)" "timer_reach (do_stop client s)" "timer_reach (do_handle s)"
    "fires b s \<Longrightarrow> timer_reach (expire b s)"
    "time_le (clock s) now \<Longrightarrow> clock_ok now \<Longrightarrow> timer_reach (s\<lparr>clock := now\<rparr>)"
proof -
  have clk: "clock_ok (clock s)" using assms timer_reach_inv by blast
  show "timer_reach (do_start client ms s)"
    by (rule timer_reach.step [OF assms timer_step.start [of True client ms False s "fst (LocTimer_start True client ms False s)"]])
      (use clk in \<open>auto simp: do_start_def LocTimer_start_def LocTimerContainer_get_def Let_def split: option.splits\<close>)
  show "timer_reach (do_stop client s)"
    by (rule timer_reach.step [OF assms timer_step.stop [of client s "fst (LocTimer_stop client s)"]])
      (use clk in \<open>auto simp: do_stop_def LocTimer_stop_def destroyLocked_def split: option.splits\<close>)
  show "timer_reach (do_handle s)"
  proof (cases "msgs s")
    case Nil
    with assms show ?thesis by (simp add: do_handle_def)
  next
    case (Cons m ms)
    with clk show ?thesis
      using timer_reach.step [OF assms timer_step.handle [of s m ms]] by (simp add: do_handle_def msg_proc_clock)
  qed
  show "fires b s \<Longrightarrow> timer_reach (expire b s)"
    using timer_reach.step [OF assms timer_step.fire [of b s]] clk by (simp add: expire_def)
  show "time_le (clock s) now \<Longrightarrow> clock_ok now \<Longrightarrow> timer_reach (s\<lparr>clock := now\<rparr>)"
    using timer_reach.step [OF assms timer_step.tick [of s now]] by simp
qed

text \<open>
  Client 0 starts 100 ms and client 1 starts 500 ms; both are in the heap. At 100 ms client 0
  stops its timer; before the removal is handled the timerfd fires.
\<close>

definition two_timers :: timer_sys where
  "two_timers = do_handle (do_handle (do_start 1 500 (do_start 0 100 (timer_init \<lparr>tv_sec = 0, tv_nsec = 0\<rparr>))))"

definition stop_meets_fire :: timer_sys where
  "stop_meets_fire = expire False (do_stop 0 (two_timers\<lparr>clock := \<lparr>tv_sec = 0, tv_nsec = 100000000\<rparr>\<rparr>))"

definition after_both :: timer_sys where
  "after_both = do_handle (do_handle stop_meets_fire)"

lemma two_timers_reach: "timer_reach two_timers"
  unfolding two_timers_def by (intro reach_do timer_reach.init) (simp add: clock_ok_def)

lemma stop_meets_fire_reach: "timer_reach stop_meets_fire"
proof -
  have "time_le (clock two_timers) \<lparr>tv_sec = 0, tv_nsec = 100000000\<rparr>" by code_simp
  then have "timer_reach (do_stop 0 (two_timers\<lparr>clock := \<lparr>tv_sec = 0, tv_nsec = 100000000\<rparr>\<rparr>))"
    by (intro reach_do(2) reach_do(5) two_timers_reach) (simp_all add: clock_ok_def)
  moreover have "fires False (do_stop 0 (two_timers\<lparr>clock := \<lparr>tv_sec = 0, tv_nsec = 100000000\<rparr>\<rparr>))" by code_simp
  ultimately show ?thesis unfolding stop_meets_fire_def by (rule reach_do)
qed

lemma after_both_reach: "timer_reach after_both"
  unfolding after_both_def by (intro reach_do stop_meets_fire_reach)

section \<open>Properties\<close>

text \<open>C1: however starts, stops, expiries and message handling interleave, a timer delegate is deleted at
  most once, and a deleted one is in no heap, no queued message and no client's timer.\<close>

theorem timer_delegates_deleted_once:
  assumes "timer_reach s"
  shows "distinct (freed s) \<and>
    (\<forall>d\<in>set (freed s). (\<forall>b c. conts s b = Some c \<longrightarrow> d \<notin># heap_mset (tree c)) \<and>
       MsgTimerPush d \<notin> set (msgs s) \<and> MsgTimerRemove d \<notin> set (msgs s) \<and> (\<forall>client. mTimer s client \<noteq> Some d))"
proof -
  have inv: "life_inv {#} s" using timer_reach_inv [OF assms] by (simp add: timer_inv_def)
  have q: "MsgTimerPush d \<in> set ms \<Longrightarrow> d \<in> set (pushes ms)" "MsgTimerRemove d \<in> set ms \<Longrightarrow> d \<in> set (removes ms)"
    for d ms by (induction ms rule: pushes.induct) auto
  have "d \<notin># heap_mset (tree c)" if "d \<in> set (freed s)" "conts s b = Some c" for d b c
  proof -
    have "d \<notin># places s" using inv that(1) by (auto simp: life_inv_def)
    then have "d \<notin># heap_of s b" by (cases b) (auto simp: places_def)
    with that(2) show ?thesis by (simp add: heap_of_def)
  qed
  moreover have "d \<notin> set (pushes (msgs s))" "d \<notin> set (removes (msgs s))" "mTimer s client \<noteq> Some d"
    if "d \<in> set (freed s)" for d client
    using inv that by (auto simp: life_inv_def places_def)
  moreover have "distinct (freed s)" using inv by (simp add: life_inv_def)
  ultimately show ?thesis using q by blast
qed

theorem timer_delegates_deleted_once_witness:
  "distinct (freed after_both) \<and>
   (\<exists>d. freed after_both = [d] \<and> MsgTimerPush d \<notin> set (msgs after_both) \<and> mTimer after_both 0 \<noteq> Some d)"
proof -
  have "length (freed after_both) = 1" by code_simp
  then obtain d where "freed after_both = [d]" by (auto simp: length_Suc_conv)
  then show ?thesis using timer_delegates_deleted_once [OF after_both_reach] by auto
qed

text \<open>C2: no running timer is forgotten: whenever a container holds timers, either its expiry is already
  queued for the message task or its timerfd is polled and armed for a time that no held timer precedes.\<close>

theorem pending_timer_is_armed:
  assumes "timer_reach s" and "conts s b = Some c" and "d \<in># heap_mset (tree c)"
  shows "MsgTimerExpire b \<in> set (msgs s) \<or>
    polled c \<and> (\<exists>at. armed c = Some at \<and> time_ns at \<le> time_ns (mFutureTime d))"
proof -
  have inv: "timer_heap_ok (tree c)" "armed_inv s"
    using timer_reach_inv [OF assms(1)] assms(2) by (auto simp: timer_inv_def heaps_ok_def)
  obtain top where top: "LocHeap_peek (tree c) = Some top"
    using timers.peek_None [OF inv(1)] assms(3) by (cases "LocHeap_peek (tree c)") auto
  have "top \<in># heap_mset (tree c)" "\<not> timer_outRanks d top"
    using timers.peek_top [OF inv(1) top] assms(3) by auto
  then have "time_ns (mFutureTime top) \<le> time_ns (mFutureTime d)"
    using timers.inv_elts [OF inv(1)] assms(3) timer_outRanks_iff [of d top] by (meson not_le subsetD)
  moreover have "MsgTimerExpire b \<in> set (msgs s) \<or> armed_for_top c"
    using inv(2) assms(2) by (auto simp: armed_inv_def)
  ultimately show ?thesis using top by (auto simp: armed_for_top_def getSoonestTimer_def)
qed

theorem pending_timer_is_armed_witness:
  "\<exists>c d. conts two_timers False = Some c \<and> d \<in># heap_mset (tree c) \<and>
     (MsgTimerExpire False \<in> set (msgs two_timers) \<or>
      polled c \<and> (\<exists>at. armed c = Some at \<and> time_ns at \<le> time_ns (mFutureTime d)))"
proof -
  have "map_option (\<lambda>c. LocHeap_peek (tree c) \<noteq> None) (conts two_timers False) = Some True" by code_simp
  then obtain c where c: "conts two_timers False = Some c" "LocHeap_peek (tree c) \<noteq> None" by auto
  then obtain d where "d \<in># heap_mset (tree c)"
    by (cases "tree c") (auto simp: LocHeap_peek_def)
  with c pending_timer_is_armed [OF two_timers_reach] show ?thesis by blast
qed

text \<open>C3: a timer is called back at most once, and a timer that was stopped before it expired is never
  called back, whatever runs afterwards.\<close>

theorem stopped_timer_not_called_back:
  assumes "timer_reach s" and "mTimer s client = Some d" and "LocTimer_stop client s = (ok, s')" and "timer_run s' t"
  shows "ok \<and> distinct (map fst (callbacks t)) \<and> d \<notin> fst ` set (callbacks t)"
proof -
  have s': "ok" "destroyed s' = insert d (destroyed s)" "callbacks s' = callbacks s" "clock s' = clock s"
    using assms(2,3) by (auto simp: LocTimer_stop_def destroyLocked_def split: if_splits)
  have "d \<notin> destroyed s"
    using timer_reach_inv [OF assms(1)] assms(2) by (auto simp: timer_inv_def life_inv_def)
  then have "d \<notin> fst ` set (callbacks s')"
    using timer_reach_callbacks [OF assms(1)] s'(3) by (auto simp: callbacks_ok_def)
  moreover have r': "timer_reach s'"
    using timer_reach.step [OF assms(1) timer_step.stop [OF assms(3)]] timer_reach_inv [OF assms(1)] s'(4) by simp
  then have "timer_reach t" "callbacks_from s' t" using timer_run_from [OF assms(4)] by auto
  moreover obtain cs where "callbacks t = callbacks s' @ cs" "fst ` set cs \<inter> destroyed s' = {}"
    using calculation by (auto simp: callbacks_from_def)
  ultimately have "d \<notin> fst ` set (callbacks t)" using s'(2) by (simp only: set_append image_Un) blast
  with \<open>timer_reach t\<close> show ?thesis
    using s'(1) timer_reach_callbacks [of t] by (simp add: callbacks_ok_def)
qed

theorem stopped_timer_not_called_back_witness:
  "\<exists>d t. mTimer two_timers 0 = Some d \<and> timer_run (do_stop 0 two_timers) t \<and> msgs t = [] \<and>
     d \<notin> fst ` set (callbacks t)"
proof -
  let ?s = "do_stop 0 two_timers" and ?t = "do_handle (do_stop 0 two_timers)"
  have "map_option did (mTimer two_timers 0) = Some 0" by code_simp
  then obtain d where d: "mTimer two_timers 0 = Some d" by auto
  have st: "LocTimer_stop 0 two_timers = (True, ?s)" using d by (simp add: do_stop_def LocTimer_stop_def)
  have "length (msgs ?s) = 1" by code_simp
  then obtain m where m: "msgs ?s = [m]" by (auto simp: length_Suc_conv)
  have "timer_step ?s ?t" using timer_step.handle [OF m] m by (simp add: do_handle_def)
  moreover have "timer_reach ?t" by (intro reach_do two_timers_reach)
  ultimately have "timer_run ?s ?t"
    using timer_reach_inv timer_run.refl timer_run.trans by blast
  moreover have "msgs ?t = []" by code_simp
  ultimately show ?thesis
    using d stopped_timer_not_called_back [OF two_timers_reach d st] by blast
qed

text \<open>the expiry that start computes is the start time plus exactly the timeout, kept normalised, for
  every 32-bit number of milliseconds; no intermediate 32-bit product wraps.\<close>

theorem timer_expiry_exact:
  assumes "clock_ok now"
  shows "time_ns (futureTime_of ms now) = time_ns now + uint ms * 1000000 \<and>
    0 \<le> tv_nsec (futureTime_of ms now) \<and> tv_nsec (futureTime_of ms now) < 1000000000 \<and>
    tv_sec (futureTime_of ms now) < 2 ^ 31"
  using futureTime_ns [of ms now] futureTime_valid [OF assms, of ms] by (simp add: valid_time_def)

theorem timer_expiry_exact_witness:
  "time_ns (futureTime_of (- 1) \<lparr>tv_sec = 7, tv_nsec = 999999999\<rparr>) =
     time_ns \<lparr>tv_sec = 7, tv_nsec = 999999999\<rparr> + uint (- 1 :: u32) * 1000000"
  using timer_expiry_exact [of "\<lparr>tv_sec = 7, tv_nsec = 999999999\<rparr>" "- 1"] by (simp add: clock_ok_def)

text \<open>handling an expiry pops every timer that is due, soonest first, and rearms the timerfd for the
  soonest timer left; all the timers popped but the first are due.\<close>

theorem expiry_pops_due_in_order:
  assumes "timer_reach s" and "conts s b = Some c" and "MsgTimerExpire_pops (clock s) c = (ds, c')"
  shows "sorted (map (\<lambda>d. time_ns (mFutureTime d)) ds) \<and>
    (\<forall>d\<in>#heap_mset (tree c). due (clock s) d \<longrightarrow> d \<in> set ds) \<and> (\<forall>d\<in>set (tl ds). due (clock s) d) \<and>
    heap_mset (tree c) = mset ds + heap_mset (tree c') \<and> armed_for_top c'"
proof -
  have ok: "timer_heap_ok (tree c)" "valid_time (clock s)"
    using timer_reach_inv [OF assms(1)] assms(2) clock_ok_valid by (auto simp: timer_inv_def heaps_ok_def)
  from expire_pops_spec [OF ok] assms(3) have e: "heap_mset (tree c) = mset ds + heap_mset (tree c')"
    "armed_for_top c'" "pops (LocHeap_pop delegate_ranks) (tree c) ds (tree c')"
    "\<forall>d\<in>set (tl ds). due (clock s) d" "\<forall>d\<in>#heap_mset (tree c'). \<not> due (clock s) d" by auto
  have "set ds \<subseteq> valid_delegates" using timers.inv_elts [OF ok(1)] e(1) by auto
  moreover have "sorted_wrt (\<lambda>x y. \<not> timer_outRanks y x) ds"
    using timers.pops_in_rank_order [OF e(3) ok(1)] by blast
  ultimately have "sorted_wrt (\<lambda>x y. time_ns (mFutureTime x) \<le> time_ns (mFutureTime y)) ds"
    by (elim sorted_wrt_mono_rel [rotated]) (use timer_outRanks_iff in \<open>force simp: not_less\<close>)
  then have "sorted (map (\<lambda>d. time_ns (mFutureTime d)) ds)" by (simp add: sorted_map)
  with e show ?thesis by auto
qed

theorem expiry_pops_due_in_order_witness:
  "\<exists>c. conts two_timers False = Some c \<and>
     sorted (map (\<lambda>d. time_ns (mFutureTime d)) (fst (MsgTimerExpire_pops (clock two_timers) c)))"
proof -
  have "conts two_timers False \<noteq> None" by code_simp
  then obtain c where c: "conts two_timers False = Some c" by auto
  from expiry_pops_due_in_order [OF two_timers_reach c prod.collapse [symmetric]] c show ?thesis by blast
qed

text \<open>a timer can be called back long before its expiry: when the soonest timer is stopped while its
  expiry fires, the queued expiry takes the next timer off the heap without comparing it with the clock.\<close>

theorem timer_may_expire_early:
  "\<exists>s d now. timer_reach s \<and> (d, now) \<in> set (callbacks s) \<and> time_ns (mFutureTime d) - time_ns now = 400000000"
proof -
  have "map (\<lambda>(d, now). time_ns (mFutureTime d) - time_ns now) (callbacks after_both) = [400000000]" by code_simp
  then have "\<exists>d now. (d, now) \<in> set (callbacks after_both) \<and> time_ns (mFutureTime d) - time_ns now = 400000000"
    by (cases "callbacks after_both") auto
  with after_both_reach show ?thesis by blast
qed

end
