(* ===== verification/Fifo_Spec.thy ===== *)
theory Fifo_Spec
  imports Prelude
begin

text \<open>
  The contract between the message queue (gps/utils/msg_q.c) and the list that stores its
  messages (gps/utils/linked_list.c): a first-in first-out store. \<open>rep q xs\<close> says that
  the store \<open>q\<close> holds \<open>xs\<close>, oldest entry first; \<open>ok r q\<close> that the resource \<open>r\<close>
  (the block malloc returned) may be used for an insertion. The client's lemmas are about
  histories: any sequence of insertions and removals.
\<close>

datatype ('r, 'a) fifo_op = Enq 'r 'a | Deq

fun fifo_run :: "('r \<Rightarrow> 'a \<Rightarrow> 'q \<Rightarrow> 'q option) \<Rightarrow> ('q \<Rightarrow> ('a option \<times> 'q) option) \<Rightarrow>
    'q \<Rightarrow> ('r, 'a) fifo_op list \<Rightarrow> ('a list \<times> 'q) option" where
  "fifo_run enq deq q [] = Some ([], q)"
| "fifo_run enq deq q (Enq r x # ops) =
     (case enq r x q of None \<Rightarrow> None | Some q' \<Rightarrow> fifo_run enq deq q' ops)"
| "fifo_run enq deq q (Deq # ops) =
     (case deq q of None \<Rightarrow> None
      | Some (out, q') \<Rightarrow>
          (case fifo_run enq deq q' ops of None \<Rightarrow> None
           | Some (outs, q'') \<Rightarrow> Some ((case out of None \<Rightarrow> outs | Some x \<Rightarrow> x # outs), q'')))"

text \<open>The entries a history inserts, in order.\<close>

fun enqs :: "('r, 'a) fifo_op list \<Rightarrow> 'a list" where
  "enqs [] = []"
| "enqs (Enq r x # ops) = x # enqs ops"
| "enqs (Deq # ops) = enqs ops"

text \<open>Every insertion of the history is given a usable resource when its turn comes.\<close>

fun enq_ok :: "('r \<Rightarrow> 'q \<Rightarrow> bool) \<Rightarrow> ('r \<Rightarrow> 'a \<Rightarrow> 'q \<Rightarrow> 'q option) \<Rightarrow> ('q \<Rightarrow> ('a option \<times> 'q) option) \<Rightarrow>
    'q \<Rightarrow> ('r, 'a) fifo_op list \<Rightarrow> bool" where
  "enq_ok ok enq deq q [] = True"
| "enq_ok ok enq deq q (Enq r x # ops) =
     (ok r q \<and> (case enq r x q of None \<Rightarrow> True | Some q' \<Rightarrow> enq_ok ok enq deq q' ops))"
| "enq_ok ok enq deq q (Deq # ops) =
     (case deq q of None \<Rightarrow> True | Some (out, q') \<Rightarrow> enq_ok ok enq deq q' ops)"

locale fifo =
  fixes rep :: "'q \<Rightarrow> 'a list \<Rightarrow> bool"
    and ok :: "'r \<Rightarrow> 'q \<Rightarrow> bool"
    and enq :: "'r \<Rightarrow> 'a \<Rightarrow> 'q \<Rightarrow> 'q option"
    and deq :: "'q \<Rightarrow> ('a option \<times> 'q) option"
  assumes enq_law: "rep q xs \<Longrightarrow> ok r q \<Longrightarrow> \<exists>q'. enq r x q = Some q' \<and> rep q' (xs @ [x])"
    and deq_Nil_law: "rep q [] \<Longrightarrow> deq q = Some (None, q)"
    and deq_Cons_law: "rep q (x # xs) \<Longrightarrow> \<exists>q'. deq q = Some (Some x, q') \<and> rep q' xs"
begin

lemma run_total_fifo:
  assumes "rep q xs" and "enq_ok ok enq deq q ops"
  shows "\<exists>outs q' ys. fifo_run enq deq q ops = Some (outs, q') \<and> rep q' ys \<and> outs @ ys = xs @ enqs ops"
  using assms
proof (induction ops arbitrary: q xs)
  case Nil
  then show ?case by auto
next
  case (Cons op ops)
  show ?case
  proof (cases op)
    case (Enq r x)
    with Cons.prems have "ok r q" by simp
    with Cons.prems(1) obtain q' where q': "enq r x q = Some q'" "rep q' (xs @ [x])"
      using enq_law by blast
    with Enq Cons.prems(2) have "enq_ok ok enq deq q' ops" by simp
    from Cons.IH [OF q'(2) this] q'(1) Enq show ?thesis by simp
  next
    case Deq
    show ?thesis
    proof (cases xs)
      case Nil
      with Cons.prems Deq have d: "deq q = Some (None, q)" by (simp add: deq_Nil_law)
      with Cons.prems Deq have "enq_ok ok enq deq q ops" by simp
      from Cons.IH [OF Cons.prems(1) this] d Deq show ?thesis by fastforce
    next
      case (Cons x xs')
      with Cons.prems obtain q' where d: "deq q = Some (Some x, q')" "rep q' xs'"
        using deq_Cons_law by blast
      with Deq Cons.prems(2) have "enq_ok ok enq deq q' ops" by simp
      from Cons.IH [OF d(2) this] d(1) Deq Cons show ?thesis by fastforce
    qed
  qed
qed

end

end
