(* ===== verification/Linked_List.thy ===== *)
theory Linked_List
  imports Fifo_Spec "HOL-Library.Monad_Syntax"
begin

text \<open>
  The doubly linked list of gps/utils/linked_list.c on an explicit store of list elements.
  A pointer is \<open>addr option\<close> (\<open>None\<close> is NULL); every function returns \<open>None\<close> when the C code
  would touch an element that is not allocated (or, for the loops, would not return), and
  otherwise the error code with the new state. The result of malloc and calloc is an argument:
  NULL, or the address of the new block. The lemmas give memory safety and the refinement
  to a queue of (data, has-dealloc) pairs.
\<close>

section \<open>Data\<close>

datatype linked_list_err_type =
    eLINKED_LIST_SUCCESS
  | eLINKED_LIST_FAILURE_GENERAL
  | eLINKED_LIST_INVALID_PARAMETER
  | eLINKED_LIST_INVALID_HANDLE
  | eLINKED_LIST_UNAVAILABLE_RESOURCE
  | eLINKED_LIST_INSUFFICIENT_BUFFER

fun linked_list_err_code :: "linked_list_err_type \<Rightarrow> int" where
  "linked_list_err_code eLINKED_LIST_SUCCESS = 0"
| "linked_list_err_code eLINKED_LIST_FAILURE_GENERAL = -1"
| "linked_list_err_code eLINKED_LIST_INVALID_PARAMETER = -2"
| "linked_list_err_code eLINKED_LIST_INVALID_HANDLE = -3"
| "linked_list_err_code eLINKED_LIST_UNAVAILABLE_RESOURCE = -4"
| "linked_list_err_code eLINKED_LIST_INSUFFICIENT_BUFFER = -5"

text \<open>\<open>dealloc_func\<close> records whether the element's function pointer is non-NULL.\<close>

record 'd list_element =
  next_p :: ptr
  prev_p :: ptr
  data_ptr :: 'd
  dealloc_func :: bool

text \<open>
  The list state with the elements it owns; \<open>dealloc_log\<close> lists the data pointers that have
  been handed to their dealloc function, in order.
\<close>

record 'd list_state =
  p_head :: ptr
  p_tail :: ptr
  elems :: "addr \<rightharpoonup> 'd list_element"
  dealloc_log :: "'d list"

definition upd_elem :: "addr \<Rightarrow> ('d list_element \<Rightarrow> 'd list_element) \<Rightarrow> 'd list_state \<Rightarrow> 'd list_state option" where
  "upd_elem a f l = (case elems l a of None \<Rightarrow> None | Some e \<Rightarrow> Some (l\<lparr>elems := (elems l)(a \<mapsto> f e)\<rparr>))"

definition free_elem :: "addr \<Rightarrow> 'd list_state \<Rightarrow> 'd list_state option" where
  "free_elem a l = (case elems l a of None \<Rightarrow> None | Some e \<Rightarrow> Some (l\<lparr>elems := (elems l)(a := None)\<rparr>))"

definition call_dealloc :: "'d list_element \<Rightarrow> 'd list_state \<Rightarrow> 'd list_state" where
  "call_dealloc e l = (if dealloc_func e then l\<lparr>dealloc_log := dealloc_log l @ [data_ptr e]\<rparr> else l)"

section \<open>Operations\<close>

definition empty_list_state :: "'d list_state" where
  "empty_list_state = \<lparr>p_head = None, p_tail = None, elems = Map.empty, dealloc_log = []\<rparr>"

definition linked_list_init :: "bool \<Rightarrow> bool \<Rightarrow> linked_list_err_type \<times> 'd list_state option" where
  "linked_list_init list_data_nonnull calloc_ok =
     (if \<not> list_data_nonnull then (eLINKED_LIST_INVALID_PARAMETER, None)
      else if \<not> calloc_ok then (eLINKED_LIST_FAILURE_GENERAL, None)
      else (eLINKED_LIST_SUCCESS, Some empty_list_state))"

definition linked_list_add ::
    "ptr \<Rightarrow> 'd list_state option \<Rightarrow> 'd option \<Rightarrow> bool \<Rightarrow> (linked_list_err_type \<times> 'd list_state option) option" where
  "linked_list_add m list_data data_obj dealloc =
     (case list_data of
        None \<Rightarrow> Some (eLINKED_LIST_INVALID_HANDLE, list_data)
      | Some p_list \<Rightarrow>
     (case data_obj of
        None \<Rightarrow> Some (eLINKED_LIST_INVALID_PARAMETER, list_data)
      | Some d \<Rightarrow>
     (case m of
        None \<Rightarrow> Some (eLINKED_LIST_FAILURE_GENERAL, list_data)
      | Some elem \<Rightarrow>
        let tmp = p_head p_list;
            l1 = p_list\<lparr>elems := (elems p_list)(elem \<mapsto>
                   \<lparr>next_p = tmp, prev_p = None, data_ptr = d, dealloc_func = dealloc\<rparr>),
                   p_head := Some elem\<rparr>
        in (case tmp of
              None \<Rightarrow> Some (eLINKED_LIST_SUCCESS, Some (l1\<lparr>p_tail := p_head l1\<rparr>))
            | Some t \<Rightarrow> do {
                l2 \<leftarrow> upd_elem t (\<lambda>e. e\<lparr>prev_p := p_head l1\<rparr>) l1;
                Some (eLINKED_LIST_SUCCESS, Some l2)
              }))))"

text \<open>The third component is what was written through \<open>data_obj\<close>.\<close>

definition linked_list_remove ::
    "'d list_state option \<Rightarrow> bool \<Rightarrow> (linked_list_err_type \<times> 'd list_state option \<times> 'd option) option" where
  "linked_list_remove list_data data_obj_nonnull =
     (case list_data of
        None \<Rightarrow> Some (eLINKED_LIST_INVALID_HANDLE, list_data, None)
      | Some p_list \<Rightarrow>
        if \<not> data_obj_nonnull then Some (eLINKED_LIST_INVALID_PARAMETER, list_data, None)
        else (case p_tail p_list of
           None \<Rightarrow> Some (eLINKED_LIST_UNAVAILABLE_RESOURCE, list_data, None)
         | Some tmp \<Rightarrow> do {
             e \<leftarrow> elems p_list tmp;
             let l1 = p_list\<lparr>p_tail := prev_p e\<rparr>;
             l2 \<leftarrow> (case p_tail l1 of
                     Some t \<Rightarrow> upd_elem t (\<lambda>e. e\<lparr>next_p := None\<rparr>) l1
                   | None \<Rightarrow> Some (l1\<lparr>p_head := p_tail l1\<rparr>));
             l3 \<leftarrow> free_elem tmp l2;
             Some (eLINKED_LIST_SUCCESS, Some l3, Some (data_ptr e))
           }))"

definition linked_list_empty :: "'d list_state option \<Rightarrow> int" where
  "linked_list_empty list_data =
     (case list_data of
        None \<Rightarrow> linked_list_err_code eLINKED_LIST_INVALID_HANDLE
      | Some p_list \<Rightarrow> (if p_head p_list = None then 1 else 0))"

partial_function (option) flush_loop :: "'d list_state \<Rightarrow> 'd list_state option" where
  "flush_loop l =
     (case p_head l of
        None \<Rightarrow> Some l
      | Some h \<Rightarrow>
        Option.bind (elems l h) (\<lambda>e.
        Option.bind (free_elem h (call_dealloc e l)) (\<lambda>l'.
        flush_loop (l'\<lparr>p_head := next_p e\<rparr>))))"

definition linked_list_flush :: "'d list_state option \<Rightarrow> (linked_list_err_type \<times> 'd list_state option) option" where
  "linked_list_flush list_data =
     (case list_data of
        None \<Rightarrow> Some (eLINKED_LIST_INVALID_HANDLE, None)
      | Some p_list \<Rightarrow> do {
          l \<leftarrow> flush_loop p_list;
          Some (eLINKED_LIST_SUCCESS, Some (l\<lparr>p_tail := None\<rparr>))
        })"

text \<open>
  The handle is passed by address: the outer \<open>None\<close> is a NULL argument. The last component is
  the log of the data freed by the flush.
\<close>

definition linked_list_destroy ::
    "'d list_state option option \<Rightarrow> (linked_list_err_type \<times> 'd list_state option option \<times> 'd list) option" where
  "linked_list_destroy list_data =
     (case list_data of
        None \<Rightarrow> Some (eLINKED_LIST_INVALID_HANDLE, None, [])
      | Some p_list \<Rightarrow> do {
          (_, l) \<leftarrow> linked_list_flush p_list;
          Some (eLINKED_LIST_SUCCESS, Some None, (case l of None \<Rightarrow> [] | Some l' \<Rightarrow> dealloc_log l'))
        })"

text \<open>The search loop up to the first match: the element found, or NULL.\<close>

partial_function (option) search_loop :: "('d \<Rightarrow> bool) \<Rightarrow> (addr \<rightharpoonup> 'd list_element) \<Rightarrow> ptr \<Rightarrow> ptr option" where
  "search_loop equal H tmp =
     (case tmp of
        None \<Rightarrow> Some None
      | Some a \<Rightarrow>
        Option.bind (H a) (\<lambda>e. if equal (data_ptr e) then Some (Some a) else search_loop equal H (next_p e)))"

text \<open>Unlinking the element that was found (the body of \<open>rm_if_found\<close>).\<close>

definition unlink_found :: "bool \<Rightarrow> addr \<Rightarrow> 'd list_state \<Rightarrow> 'd list_state option" where
  "unlink_found data_p_nonnull a l = do {
     e \<leftarrow> elems l a;
     l1 \<leftarrow> (case prev_p e of
             None \<Rightarrow> Some (l\<lparr>p_head := next_p e\<rparr>)
           | Some p \<Rightarrow> upd_elem p (\<lambda>f. f\<lparr>next_p := next_p e\<rparr>) l);
     l2 \<leftarrow> (case next_p e of
             None \<Rightarrow> Some (l1\<lparr>p_tail := prev_p e\<rparr>)
           | Some n \<Rightarrow> upd_elem n (\<lambda>f. f\<lparr>prev_p := prev_p e\<rparr>) l1);
     free_elem a (if \<not> data_p_nonnull then call_dealloc e l2 else l2)
   }"

text \<open>
  \<open>equal\<close> is the comparison already applied to \<open>data_0\<close>; the third component is what was written
  through \<open>data_p\<close> (NULL when nothing was found).
\<close>

definition linked_list_search ::
    "'d list_state option \<Rightarrow> bool \<Rightarrow> ('d \<Rightarrow> bool) option \<Rightarrow> bool \<Rightarrow>
     (linked_list_err_type \<times> 'd list_state option \<times> 'd option) option" where
  "linked_list_search list_data data_p_nonnull equal rm_if_found =
     (case (list_data, equal) of
        (Some p_list, Some eq) \<Rightarrow>
          if p_tail p_list = None then Some (eLINKED_LIST_UNAVAILABLE_RESOURCE, list_data, None)
          else do {
            r \<leftarrow> search_loop eq (elems p_list) (p_head p_list);
            (case r of
               None \<Rightarrow> Some (eLINKED_LIST_SUCCESS, list_data, None)
             | Some a \<Rightarrow> do {
                 e \<leftarrow> elems p_list a;
                 l \<leftarrow> (if rm_if_found then unlink_found data_p_nonnull a p_list else Some p_list);
                 Some (eLINKED_LIST_SUCCESS, Some l, if data_p_nonnull then Some (data_ptr e) else None)
               })
          }
      | _ \<Rightarrow> Some (eLINKED_LIST_INVALID_HANDLE, list_data, None))"

section \<open>Segments of the doubly linked list\<close>

text \<open>
  \<open>dseg H prv p as q\<close>: from pointer \<open>p\<close> the elements at addresses \<open>as\<close> follow each other by
  their next fields up to pointer \<open>q\<close>, and each points back to the one before it (the first
  one to \<open>prv\<close>).
\<close>

primrec dseg :: "(addr \<rightharpoonup> 'd list_element) \<Rightarrow> ptr \<Rightarrow> ptr \<Rightarrow> addr list \<Rightarrow> ptr \<Rightarrow> bool" where
  "dseg H prv p [] q \<longleftrightarrow> p = q"
| "dseg H prv p (a # as) q \<longleftrightarrow>
     p = Some a \<and> (\<exists>e. H a = Some e \<and> prev_p e = prv \<and> dseg H (Some a) (next_p e) as q)"

definition end_of :: "ptr \<Rightarrow> addr list \<Rightarrow> ptr" where
  "end_of prv as = (if as = [] then prv else Some (last as))"

lemma end_of_simps [simp]:
  "end_of prv [] = prv" "end_of prv (as @ [a]) = Some a" "end_of prv (a # as) = end_of (Some a) as"
  by (simp_all add: end_of_def)

lemma end_of_None [simp]: "end_of None as = last_opt as"
  by (simp add: end_of_def last_opt_def)

lemma dseg_append [simp]:
  "dseg H prv p (as @ bs) q \<longleftrightarrow> (\<exists>r. dseg H prv p as r \<and> dseg H (end_of prv as) r bs q)"
  by (induction as arbitrary: prv p) auto

lemma dseg_frame [simp]: "a \<notin> set as \<Longrightarrow> dseg (H(a := v)) prv p as q = dseg H prv p as q"
  by (induction as arbitrary: prv p) auto

lemma dseg_cong:
  "(\<And>x. x \<in> set as \<Longrightarrow> H x = H' x) \<Longrightarrow> dseg H prv p as q = dseg H' prv p as q"
  by (induction as arbitrary: prv p) auto

lemma dseg_dom: "dseg H prv p as q \<Longrightarrow> a \<in> set as \<Longrightarrow> \<exists>e. H a = Some e"
  by (induction as arbitrary: prv p) auto

lemma dseg_end_unique: "dseg H prv p as q \<Longrightarrow> dseg H prv p as r \<Longrightarrow> q = r"
  by (induction as arbitrary: prv p) auto

lemma dseg_set_prev:
  assumes "dseg H prv p (c # cs) q" and "c \<notin> set cs" and "H c = Some e"
  shows "dseg (H(c \<mapsto> e\<lparr>prev_p := prv'\<rparr>)) prv' p (c # cs) q"
  using assms by auto

lemma dseg_set_next:
  assumes "dseg H prv p (bs @ [b]) q" and "b \<notin> set bs" and "H b = Some e"
  shows "dseg (H(b \<mapsto> e\<lparr>next_p := q'\<rparr>)) prv p (bs @ [b]) q'"
  using assms by auto

section \<open>The representation invariant and the queue it stands for\<close>

definition entry_of :: "(addr \<rightharpoonup> 'd list_element) \<Rightarrow> addr \<Rightarrow> 'd \<times> bool" where
  "entry_of H a = (data_ptr (the (H a)), dealloc_func (the (H a)))"

lemma entries_frame [simp]: "a \<notin> set as \<Longrightarrow> map (entry_of (H(a := v))) as = map (entry_of H) as"
  by (auto simp: entry_of_def)

lemma entry_of_upd [simp]:
  "entry_of (H(a \<mapsto> e)) a = (data_ptr e, dealloc_func e)"
  by (simp add: entry_of_def)

text \<open>The elements at \<open>as\<close>, head first, are exactly the allocated ones: no leak, no sharing.\<close>

definition ll_at :: "'d list_state \<Rightarrow> addr list \<Rightarrow> bool" where
  "ll_at l as \<longleftrightarrow> dseg (elems l) None (p_head l) as None \<and> distinct as \<and>
     p_tail l = last_opt as \<and> dom (elems l) = set as"

text \<open>The oldest entry is the one at the tail.\<close>

definition ll_rep :: "'d list_state \<Rightarrow> ('d \<times> bool) list \<Rightarrow> bool" where
  "ll_rep l xs \<longleftrightarrow> (\<exists>as. ll_at l as \<and> xs = rev (map (entry_of (elems l)) as))"

definition fresh_block :: "addr \<Rightarrow> 'd list_state \<Rightarrow> bool" where
  "fresh_block a l \<longleftrightarrow> elems l a = None"

lemma ll_rep_empty_state: "ll_rep empty_list_state []"
  by (simp add: ll_rep_def ll_at_def empty_list_state_def)

lemma linked_list_init_rep:
  "linked_list_init nn ok = (eLINKED_LIST_SUCCESS, h) \<Longrightarrow> \<exists>l. h = Some l \<and> ll_rep l [] \<and> dealloc_log l = []"
  by (auto simp: linked_list_init_def ll_rep_empty_state split: if_splits) (simp add: empty_list_state_def)

lemma dseg_unique: "dseg H prv p as None \<Longrightarrow> dseg H prv p bs None \<Longrightarrow> as = bs"
proof (induction as arbitrary: prv p bs)
  case Nil
  then show ?case by (cases bs) auto
next
  case (Cons a as)
  then show ?case by (cases bs) auto
qed

lemma ll_rep_unique: "ll_rep l xs \<Longrightarrow> ll_rep l ys \<Longrightarrow> xs = ys"
  unfolding ll_rep_def ll_at_def using dseg_unique by blast

lemma ll_at_head: "ll_at l as \<Longrightarrow> p_head l = None \<longleftrightarrow> as = []"
  by (cases as) (auto simp: ll_at_def)

lemma linked_list_empty_rep: "ll_rep l xs \<Longrightarrow> linked_list_empty (Some l) = (if xs = [] then 1 else 0)"
  by (auto simp: linked_list_empty_def ll_rep_def dest: ll_at_head)

lemma linked_list_add_rep:
  assumes "ll_rep l xs" and "fresh_block a l"
  shows "\<exists>l'. linked_list_add (Some a) (Some l) (Some d) f = Some (eLINKED_LIST_SUCCESS, Some l') \<and>
           ll_rep l' (xs @ [(d, f)]) \<and> dealloc_log l' = dealloc_log l"
proof -
  obtain as where as: "ll_at l as" and xs: "xs = rev (map (entry_of (elems l)) as)"
    using assms(1) by (auto simp: ll_rep_def)
  have a: "a \<notin> set as" "elems l a = None"
    using as assms(2) by (auto simp: ll_at_def fresh_block_def)
  show ?thesis
  proof (cases as)
    case Nil
    then have "p_head l = None" using as by (simp add: ll_at_head)
    with Nil as xs show ?thesis
      by (auto simp: linked_list_add_def ll_rep_def ll_at_def intro!: exI [of _ "[a]"])
  next
    case (Cons t ts)
    with as obtain e where t: "p_head l = Some t" "elems l t = Some e" "a \<noteq> t" "t \<notin> set ts" "a \<notin> set ts"
      using a by (auto simp: ll_at_def)
    define H where "H = (elems l)(a \<mapsto> \<lparr>next_p = Some t, prev_p = None, data_ptr = d, dealloc_func = f\<rparr>,
      t \<mapsto> e\<lparr>prev_p := Some a\<rparr>)"
    define l' where "l' = l\<lparr>p_head := Some a, elems := H\<rparr>"
    have "linked_list_add (Some a) (Some l) (Some d) f = Some (eLINKED_LIST_SUCCESS, Some l')"
      using t by (simp add: linked_list_add_def upd_elem_def l'_def H_def)
    moreover have "ll_at l' (a # as)"
      using as Cons t a by (auto simp: ll_at_def l'_def H_def)
    moreover have "map (entry_of (elems l')) (a # as) = (d, f) # map (entry_of (elems l)) as"
      using Cons t a by (auto simp: l'_def H_def entry_of_def)
    ultimately show ?thesis using xs
      unfolding ll_rep_def by (intro exI [of _ l'] conjI exI [of _ "a # as"]) (auto simp: l'_def)
  qed
qed

lemma linked_list_remove_empty:
  "ll_rep l [] \<Longrightarrow> linked_list_remove (Some l) True = Some (eLINKED_LIST_UNAVAILABLE_RESOURCE, Some l, None)"
  by (auto simp: linked_list_remove_def ll_rep_def ll_at_def)

lemma linked_list_remove_rep:
  assumes "ll_rep l ((d, f) # xs)"
  shows "\<exists>l'. linked_list_remove (Some l) True = Some (eLINKED_LIST_SUCCESS, Some l', Some d) \<and>
           ll_rep l' xs \<and> dealloc_log l' = dealloc_log l"
proof -
  obtain as where as: "ll_at l as" and "(d, f) # xs = rev (map (entry_of (elems l)) as)"
    using assms by (auto simp: ll_rep_def)
  then obtain bs t where asb: "as = bs @ [t]" and df: "(d, f) = entry_of (elems l) t"
    and xs: "xs = rev (map (entry_of (elems l)) bs)"
    by (cases as rule: rev_cases) auto
  obtain e where e: "elems l t = Some e" "prev_p e = last_opt bs" "next_p e = None" "t \<notin> set bs"
    using as asb by (auto simp: ll_at_def)
  have tail: "p_tail l = Some t" using as asb by (simp add: ll_at_def)
  have d: "d = data_ptr e" using df e by (simp add: entry_of_def)
  show ?thesis
  proof (cases bs rule: rev_cases)
    case Nil
    with e tail as asb xs d show ?thesis
      by (auto simp: linked_list_remove_def free_elem_def ll_rep_def ll_at_def Let_def
               intro!: exI [of _ "[]"])
  next
    case (snoc cs u)
    with as asb obtain g where g: "elems l u = Some g" "u \<noteq> t" "u \<notin> set cs"
      by (auto simp: ll_at_def)
    define H where "H = ((elems l)(u \<mapsto> g\<lparr>next_p := None\<rparr>))(t := None)"
    define l' where "l' = l\<lparr>p_tail := Some u, elems := H\<rparr>"
    have "linked_list_remove (Some l) True = Some (eLINKED_LIST_SUCCESS, Some l', Some d)"
      using e tail snoc g d
      by (simp add: linked_list_remove_def free_elem_def upd_elem_def l'_def H_def)
    moreover have "ll_at l' bs"
    proof -
      have "dseg (elems l) None (p_head l) (cs @ [u]) (Some t)"
        using as asb snoc by (auto simp: ll_at_def)
      then have "dseg ((elems l)(u \<mapsto> g\<lparr>next_p := None\<rparr>)) None (p_head l) (cs @ [u]) None"
        using dseg_set_next g by blast
      then show ?thesis
        using as asb snoc e g by (auto simp: ll_at_def l'_def H_def)
    qed
    moreover have "map (entry_of (elems l')) bs = map (entry_of (elems l)) bs"
      using snoc e g by (auto simp: l'_def H_def entry_of_def)
    ultimately show ?thesis using xs
      unfolding ll_rep_def by (intro exI [of _ l'] conjI exI [of _ bs]) (auto simp: l'_def)
  qed
qed

lemma flush_loop_seg:
  assumes "dseg (elems l) prv (p_head l) as None" and "distinct as"
  shows "\<exists>l'. flush_loop l = Some l' \<and> p_head l' = None \<and> dom (elems l') = dom (elems l) - set as \<and>
           dealloc_log l' = dealloc_log l @ map fst (filter snd (map (entry_of (elems l)) as))"
  using assms
proof (induction as arbitrary: l prv)
  case Nil
  then show ?case by (simp add: flush_loop.simps)
next
  case (Cons a as)
  then obtain e where e: "p_head l = Some a" "elems l a = Some e" "a \<notin> set as"
    "dseg (elems l) (Some a) (next_p e) as None" by auto
  define l1 where "l1 = (call_dealloc e l)\<lparr>elems := (elems l)(a := None), p_head := next_p e\<rparr>"
  have step: "flush_loop l = flush_loop l1"
    using e by (subst flush_loop.simps) (simp add: free_elem_def call_dealloc_def l1_def)
  have log: "dealloc_log l1 = dealloc_log l @ map fst (filter snd [entry_of (elems l) a])"
    using e by (simp add: l1_def call_dealloc_def entry_of_def)
  have "dseg (elems l1) (Some a) (p_head l1) as None" "distinct as"
    using e Cons.prems by (simp_all add: l1_def call_dealloc_def)
  from Cons.IH [OF this] obtain l' where l': "flush_loop l1 = Some l'" "p_head l' = None"
    "dom (elems l') = dom (elems l1) - set as"
    "dealloc_log l' = dealloc_log l1 @ map fst (filter snd (map (entry_of (elems l1)) as))" by blast
  have "map (entry_of (elems l1)) as = map (entry_of (elems l)) as"
    using e by (simp add: l1_def call_dealloc_def)
  then have "dealloc_log l' = dealloc_log l @ map fst (filter snd (map (entry_of (elems l)) (a # as)))"
    using l'(4) log by (simp del: map_eq_conv)
  moreover have "dom (elems l') = dom (elems l) - set (a # as)"
    using l'(3) by (auto simp: l1_def)
  ultimately show ?case using step l' by auto
qed

definition dealloc_data :: "('d \<times> bool) list \<Rightarrow> 'd list" where
  "dealloc_data xs = map fst (filter snd xs)"

lemma linked_list_flush_rep:
  assumes "ll_rep l xs"
  shows "\<exists>l'. linked_list_flush (Some l) = Some (eLINKED_LIST_SUCCESS, Some l') \<and> ll_rep l' [] \<and>
           dealloc_log l' = dealloc_log l @ dealloc_data (rev xs)"
proof -
  obtain as where as: "ll_at l as" "xs = rev (map (entry_of (elems l)) as)"
    using assms by (auto simp: ll_rep_def)
  then have "dseg (elems l) None (p_head l) as None" "distinct as" by (auto simp: ll_at_def)
  from flush_loop_seg [OF this] obtain l' where l': "flush_loop l = Some l'" "p_head l' = None"
    "dom (elems l') = dom (elems l) - set as"
    "dealloc_log l' = dealloc_log l @ map fst (filter snd (map (entry_of (elems l)) as))" by blast
  then have "elems l' = Map.empty" using as by (simp add: ll_at_def)
  with l' as show ?thesis
    by (auto simp: linked_list_flush_def ll_rep_def ll_at_def dealloc_data_def)
qed

lemma linked_list_destroy_rep:
  assumes "ll_rep l xs"
  shows "linked_list_destroy (Some (Some l)) =
           Some (eLINKED_LIST_SUCCESS, Some None, dealloc_log l @ dealloc_data (rev xs))"
  using linked_list_flush_rep [OF assms] by (auto simp: linked_list_destroy_def)

section \<open>Search\<close>

lemma search_loop_seg:
  "dseg H prv p as None \<Longrightarrow> search_loop eq H p = Some (find (\<lambda>a. eq (data_ptr (the (H a)))) as)"
  by (induction as arbitrary: prv p) (auto simp: search_loop.simps [of _ _ None] search_loop.simps [of _ _ "Some _"])

text \<open>Unlinking an element in the middle joins the segments before and after it.\<close>

lemma unlink_prev_seg:
  assumes "dseg (elems l) None (p_head l) bs (Some a)" and "distinct bs" and "prev_p e = last_opt bs"
  shows "\<exists>l'. (case prev_p e of None \<Rightarrow> Some (l\<lparr>p_head := next_p e\<rparr>)
             | Some p \<Rightarrow> upd_elem p (\<lambda>f. f\<lparr>next_p := next_p e\<rparr>) l) = Some l' \<and>
           dseg (elems l') None (p_head l') bs (next_p e) \<and> (\<forall>x. x \<notin> set bs \<longrightarrow> elems l' x = elems l x) \<and>
           map (entry_of (elems l')) bs = map (entry_of (elems l)) bs \<and>
           dom (elems l') = dom (elems l) \<and> p_tail l' = p_tail l \<and> dealloc_log l' = dealloc_log l"
  using assms by (cases bs rule: rev_cases) (auto simp: upd_elem_def entry_of_def)

lemma unlink_next_seg:
  assumes "dseg (elems l) (Some a) (next_p e) cs None" and "distinct cs" and "p_tail l = last_opt (bs @ a # cs)"
    and "prev_p e = last_opt bs"
  shows "\<exists>l'. (case next_p e of None \<Rightarrow> Some (l\<lparr>p_tail := prev_p e\<rparr>)
             | Some n \<Rightarrow> upd_elem n (\<lambda>f. f\<lparr>prev_p := prev_p e\<rparr>) l) = Some l' \<and>
           dseg (elems l') (last_opt bs) (next_p e) cs None \<and> (\<forall>x. x \<notin> set cs \<longrightarrow> elems l' x = elems l x) \<and>
           map (entry_of (elems l')) cs = map (entry_of (elems l)) cs \<and>
           dom (elems l') = dom (elems l) \<and> p_head l' = p_head l \<and>
           p_tail l' = last_opt (bs @ cs) \<and> dealloc_log l' = dealloc_log l"
  using assms by (cases cs) (auto simp: upd_elem_def entry_of_def last_opt_def)

lemma map_entry_cong:
  "(\<And>x. x \<in> set as \<Longrightarrow> H x = H' x) \<Longrightarrow> map (entry_of H) as = map (entry_of H') as"
  by (auto simp: entry_of_def)

lemma unlink_found_at:
  assumes at: "ll_at l (bs @ a # cs)" and e: "elems l a = Some e"
  shows "\<exists>l'. unlink_found nn a l = Some l' \<and> ll_at l' (bs @ cs) \<and>
           map (entry_of (elems l')) (bs @ cs) = map (entry_of (elems l)) (bs @ cs) \<and>
           dealloc_log l' = dealloc_log l @ (if \<not> nn \<and> dealloc_func e then [data_ptr e] else [])"
proof -
  have dis: "a \<notin> set bs" "a \<notin> set cs" "set bs \<inter> set cs = {}" "distinct bs" "distinct cs"
    and seg1: "dseg (elems l) None (p_head l) bs (Some a)"
    and seg2: "dseg (elems l) (Some a) (next_p e) cs None" and prv: "prev_p e = last_opt bs"
    and dm: "dom (elems l) = insert a (set bs \<union> set cs)" and tl: "p_tail l = last_opt (bs @ a # cs)"
    using at e by (auto simp: ll_at_def)
  obtain l1 where l1: "(case prev_p e of None \<Rightarrow> Some (l\<lparr>p_head := next_p e\<rparr>)
             | Some p \<Rightarrow> upd_elem p (\<lambda>f. f\<lparr>next_p := next_p e\<rparr>) l) = Some l1"
    "dseg (elems l1) None (p_head l1) bs (next_p e)" "\<forall>x. x \<notin> set bs \<longrightarrow> elems l1 x = elems l x"
    "map (entry_of (elems l1)) bs = map (entry_of (elems l)) bs"
    "dom (elems l1) = dom (elems l)" "p_tail l1 = p_tail l" "dealloc_log l1 = dealloc_log l"
    using unlink_prev_seg [OF seg1 dis(4) prv] by blast
  have "dseg (elems l1) (Some a) (next_p e) cs None"
    using seg2 l1(3) dis(3) by (subst dseg_cong [of cs _ "elems l"]) auto
  then obtain l2 where l2: "(case next_p e of None \<Rightarrow> Some (l1\<lparr>p_tail := prev_p e\<rparr>)
             | Some n \<Rightarrow> upd_elem n (\<lambda>f. f\<lparr>prev_p := prev_p e\<rparr>) l1) = Some l2"
    "dseg (elems l2) (last_opt bs) (next_p e) cs None" "\<forall>x. x \<notin> set cs \<longrightarrow> elems l2 x = elems l1 x"
    "map (entry_of (elems l2)) cs = map (entry_of (elems l1)) cs"
    "dom (elems l2) = dom (elems l1)" "p_head l2 = p_head l1" "p_tail l2 = last_opt (bs @ cs)"
    "dealloc_log l2 = dealloc_log l1"
    using unlink_next_seg [of l1 a e cs bs] dis(5) l1(6) tl prv by auto
  have b2: "dseg (elems l2) None (p_head l2) bs (next_p e)"
    using l1(2) l2(3,6) dis(3) by (subst dseg_cong [of bs _ "elems l1"]) auto
  have "map (entry_of (elems l2)) bs = map (entry_of (elems l1)) bs"
    using l2(3) dis(3) by (intro map_entry_cong) auto
  moreover have "map (entry_of (elems l1)) cs = map (entry_of (elems l)) cs"
    using l1(3) dis(3) by (intro map_entry_cong) auto
  ultimately have en: "map (entry_of (elems l2)) (bs @ cs) = map (entry_of (elems l)) (bs @ cs)"
    using l1(4) l2(4) by (simp del: map_eq_conv)
  have ea: "elems l2 a = Some e" using e l1(3) l2(3) dis by simp
  define l3 where "l3 = (if nn then l2 else call_dealloc e l2)\<lparr>elems := (elems l2)(a := None)\<rparr>"
  have "unlink_found nn a l = Some l3"
    using e l1(1) l2(1) ea by (simp add: unlink_found_def l3_def free_elem_def call_dealloc_def)
  moreover have "ll_at l3 (bs @ cs)"
    using b2 l2 dis dm l1(5) by (auto simp: ll_at_def l3_def call_dealloc_def)
  moreover have "map (entry_of (elems l3)) (bs @ cs) = map (entry_of (elems l)) (bs @ cs)"
    using en dis by (simp add: l3_def del: map_append)
  moreover have "dealloc_log l3 = dealloc_log l @ (if \<not> nn \<and> dealloc_func e then [data_ptr e] else [])"
    using l1 l2 by (simp add: l3_def call_dealloc_def)
  ultimately show ?thesis by blast
qed

text \<open>
  The search finds the most recently added match, since it starts at the head, and removes
  that entry only. Nothing found leaves the list alone.
\<close>

lemma linked_list_search_found:
  assumes "ll_rep l (ys @ (d, f) # zs)" and "eq d" and "\<forall>x\<in>set zs. \<not> eq (fst x)"
  shows "\<exists>l'. linked_list_search (Some l) nn (Some eq) rm =
             Some (eLINKED_LIST_SUCCESS, Some l', if nn then Some d else None) \<and>
           (if rm then ll_rep l' (ys @ zs) \<and>
              dealloc_log l' = dealloc_log l @ (if \<not> nn \<and> f then [d] else [])
            else l' = l)"
proof -
  obtain as where as: "ll_at l as" and "ys @ (d, f) # zs = rev (map (entry_of (elems l)) as)"
    using assms(1) by (auto simp: ll_rep_def)
  then have "map (entry_of (elems l)) as = rev zs @ (d, f) # rev ys"
    by (metis append.assoc append_Cons append_Nil rev.simps(2) rev_append rev_rev_ident)
  then obtain bs a cs where as_split: "as = bs @ a # cs" and bs: "map (entry_of (elems l)) bs = rev zs"
    and a: "entry_of (elems l) a = (d, f)" and cs: "map (entry_of (elems l)) cs = rev ys"
    by (auto simp: map_eq_append_conv map_eq_Cons_conv)
  obtain e where e: "elems l a = Some e" using as as_split by (auto simp: ll_at_def)
  have df: "data_ptr e = d" "dealloc_func e = f" using a e by (auto simp: entry_of_def)
  have "set zs = entry_of (elems l) ` set bs" using bs by (metis set_map set_rev)
  then have "\<forall>x\<in>set bs. \<not> eq (data_ptr (the (elems l x)))"
    using assms(3) by (auto simp: entry_of_def)
  then have "find (\<lambda>x. eq (data_ptr (the (elems l x)))) bs = None" by (simp add: find_None_iff)
  then have "find (\<lambda>x. eq (data_ptr (the (elems l x)))) as = Some a"
    using as_split e df assms(2) by (induction bs arbitrary: as) (auto split: if_splits)
  then have sl: "search_loop eq (elems l) (p_head l) = Some (Some a)"
    using as search_loop_seg [of "elems l" None "p_head l" as eq] by (simp add: ll_at_def)
  have tl: "p_tail l \<noteq> None" using as as_split by (simp add: ll_at_def)
  show ?thesis
  proof (cases rm)
    case True
    from unlink_found_at [of l bs a cs e nn] as as_split e obtain l' where l':
      "unlink_found nn a l = Some l'" "ll_at l' (bs @ cs)"
      "map (entry_of (elems l')) (bs @ cs) = map (entry_of (elems l)) (bs @ cs)"
      "dealloc_log l' = dealloc_log l @ (if \<not> nn \<and> f then [d] else [])" using df by auto
    have "ll_rep l' (ys @ zs)"
      unfolding ll_rep_def by (intro exI [of _ "bs @ cs"] conjI l'(2)) (simp only: l'(3), simp add: bs cs)
    with True l' sl e tl df show ?thesis by (auto simp: linked_list_search_def)
  next
    case False
    with sl e tl df show ?thesis by (auto simp: linked_list_search_def)
  qed
qed

lemma linked_list_search_none:
  assumes "ll_rep l xs" and "xs \<noteq> []" and "\<forall>x\<in>set xs. \<not> eq (fst x)"
  shows "linked_list_search (Some l) nn (Some eq) rm = Some (eLINKED_LIST_SUCCESS, Some l, None)"
proof -
  obtain as where as: "ll_at l as" and xs: "xs = rev (map (entry_of (elems l)) as)"
    using assms(1) by (auto simp: ll_rep_def)
  then have "find (\<lambda>x. eq (data_ptr (the (elems l x)))) as = None"
    using assms(3) by (auto simp: find_None_iff entry_of_def)
  with as xs assms(2) show ?thesis
    by (auto simp: linked_list_search_def ll_at_def search_loop_seg)
qed

section \<open>The list provides the FIFO contract\<close>

definition ll_enq :: "addr \<times> bool \<Rightarrow> 'd \<Rightarrow> 'd list_state \<Rightarrow> 'd list_state option" where
  "ll_enq r d l = (case linked_list_add (Some (fst r)) (Some l) (Some d) (snd r) of
     Some (eLINKED_LIST_SUCCESS, Some l') \<Rightarrow> Some l' | _ \<Rightarrow> None)"

definition ll_deq :: "'d list_state \<Rightarrow> ('d option \<times> 'd list_state) option" where
  "ll_deq l = (case linked_list_remove (Some l) True of
     Some (_, Some l', out) \<Rightarrow> Some (out, l') | _ \<Rightarrow> None)"

definition ll_data :: "'d list_state \<Rightarrow> 'd list \<Rightarrow> bool" where
  "ll_data l ds \<longleftrightarrow> (\<exists>xs. ll_rep l xs \<and> ds = map fst xs)"

interpretation lq: fifo ll_data "\<lambda>r. fresh_block (fst r)" ll_enq ll_deq
proof (unfold_locales, goal_cases)
  case (1 l ds r d)
  then obtain xs where xs: "ll_rep l xs" "ds = map fst xs" by (auto simp: ll_data_def)
  from linked_list_add_rep [OF xs(1) 1(2)] obtain l' where
    "linked_list_add (Some (fst r)) (Some l) (Some d) (snd r) = Some (eLINKED_LIST_SUCCESS, Some l')"
    "ll_rep l' (xs @ [(d, snd r)])" by blast
  with xs show ?case by (auto simp: ll_enq_def ll_data_def intro!: exI [of _ "xs @ [(d, snd r)]"])
next
  case (2 l)
  then show ?case by (auto simp: ll_deq_def ll_data_def linked_list_remove_empty)
next
  case (3 l d ds)
  then obtain f xs where "ll_rep l ((d, f) # xs)" "ds = map fst xs"
    by (auto simp: ll_data_def map_eq_Cons_conv)
  with linked_list_remove_rep [of l d f xs] show ?case by (auto simp: ll_deq_def ll_data_def)
qed

section \<open>Properties\<close>

text \<open>from an empty list, any history of additions (each with a newly allocated block) and removals
  runs without touching unallocated memory, hands the data out first-in first-out, and leaves exactly
  the data not yet handed out.\<close>

theorem linked_list_is_fifo:
  assumes "enq_ok (\<lambda>r. fresh_block (fst r)) ll_enq ll_deq empty_list_state ops"
  shows "\<exists>outs l ds. fifo_run ll_enq ll_deq empty_list_state ops = Some (outs, l) \<and> ll_data l ds \<and>
    outs @ ds = enqs ops"
proof -
  have "ll_data empty_list_state []" by (simp add: ll_data_def ll_rep_empty_state)
  from lq.run_total_fifo [OF this assms] show ?thesis by simp
qed

theorem linked_list_is_fifo_witness:
  "\<exists>outs l ds. fifo_run ll_enq ll_deq empty_list_state [Enq (3, True) ''a'', Enq (4, False) ''b'', Deq, Enq (3, True) ''c''] =
     Some (outs, l) \<and> ll_data l ds \<and> outs @ ds = [''a'', ''b'', ''c'']"
  using linked_list_is_fifo [of "[Enq (3, True) ''a'', Enq (4, False) ''b'', Deq, Enq (3, True) ''c'']"]
  by (simp add: ll_enq_def ll_deq_def linked_list_add_def linked_list_remove_def empty_list_state_def
      fresh_block_def upd_elem_def free_elem_def Let_def)

text \<open>a search that removes what it finds takes out exactly the most recently added matching entry and
  keeps the order of all others; the data is handed out if the caller asked for it and otherwise freed
  by its dealloc function. When nothing matches, the list is unchanged.\<close>

theorem linked_list_search_removes_newest_match:
  assumes "ll_rep l xs" and "xs \<noteq> []"
  shows "(\<forall>x\<in>set xs. \<not> eq (fst x)) \<and> linked_list_search (Some l) nn (Some eq) True =
      Some (eLINKED_LIST_SUCCESS, Some l, None) \<or>
    (\<exists>ys d f zs l'. xs = ys @ (d, f) # zs \<and> eq d \<and> (\<forall>x\<in>set zs. \<not> eq (fst x)) \<and>
      linked_list_search (Some l) nn (Some eq) True = Some (eLINKED_LIST_SUCCESS, Some l', if nn then Some d else None) \<and>
      ll_rep l' (ys @ zs) \<and> dealloc_log l' = dealloc_log l @ (if \<not> nn \<and> f then [d] else []))"
proof (cases "\<exists>x\<in>set xs. eq (fst x)")
  case False
  then have "\<forall>x\<in>set xs. \<not> eq (fst x)" by blast
  with linked_list_search_none [OF assms this] show ?thesis by blast
next
  case True
  from split_list_last_prop [OF this] obtain ys x zs where
    x: "xs = ys @ x # zs" "eq (fst x)" "\<forall>x\<in>set zs. \<not> eq (fst x)" by blast
  obtain d f where df: "x = (d, f)" by force
  from linked_list_search_found [of l ys d f zs eq nn True] assms(1) x df obtain l' where
    "linked_list_search (Some l) nn (Some eq) True = Some (eLINKED_LIST_SUCCESS, Some l', if nn then Some d else None)"
    "ll_rep l' (ys @ zs)" "dealloc_log l' = dealloc_log l @ (if \<not> nn \<and> f then [d] else [])" by auto
  moreover have "xs = ys @ (d, f) # zs" "eq d" using x df by auto
  ultimately show ?thesis using x(3) by blast
qed

theorem linked_list_search_removes_newest_match_witness:
  "\<exists>l. ll_rep l [(5 :: int, True)] \<and> (\<exists>l'. linked_list_search (Some l) True (Some ((=) 5)) True =
     Some (eLINKED_LIST_SUCCESS, Some l', Some 5) \<and> ll_rep l' [])"
proof -
  obtain l where l: "ll_rep l [(5 :: int, True)]"
    using linked_list_add_rep [OF ll_rep_empty_state, of 1 "5 :: int" True]
    by (auto simp: fresh_block_def empty_list_state_def)
  from linked_list_search_removes_newest_match [OF l, of "(=) 5" True] l show ?thesis
    by (auto simp: append_eq_Cons_conv Cons_eq_append_conv)
qed

text \<open>destroying a list frees every element and hands each stored datum that has a dealloc function to
  it exactly once, newest first; the caller's handle becomes NULL.\<close>

theorem linked_list_destroy_frees_all:
  assumes "ll_rep l xs"
  shows "linked_list_destroy (Some (Some l)) =
           Some (eLINKED_LIST_SUCCESS, Some None, dealloc_log l @ dealloc_data (rev xs)) \<and>
         (\<exists>l'. linked_list_flush (Some l) = Some (eLINKED_LIST_SUCCESS, Some l') \<and> elems l' = Map.empty)"
proof -
  from linked_list_flush_rep [OF assms] obtain l' where
    "linked_list_flush (Some l) = Some (eLINKED_LIST_SUCCESS, Some l')" "ll_rep l' []" by blast
  then show ?thesis
    using linked_list_destroy_rep [OF assms] by (auto simp: ll_rep_def ll_at_def)
qed

theorem linked_list_destroy_frees_all_witness:
  "\<exists>l. ll_rep l [(5 :: int, True)] \<and> linked_list_destroy (Some (Some l)) =
     Some (eLINKED_LIST_SUCCESS, Some None, dealloc_log l @ [5])"
proof -
  obtain l where l: "ll_rep l [(5 :: int, True)]"
    using linked_list_add_rep [OF ll_rep_empty_state, of 1 "5 :: int" True]
    by (auto simp: fresh_block_def empty_list_state_def)
  with linked_list_destroy_frees_all [OF l] show ?thesis by (auto simp: dealloc_data_def)
qed

end
