(* ===== verification/Msg_Queue.thy ===== *)
theory Msg_Queue
  imports Linked_List
begin

text \<open>
  The message queue of gps/utils/msg_q.c: a linked list behind a mutex and a condition
  variable. Each call is one critical section, so it is a function from the queue to the error
  code, the new queue and the calls it makes on the mutex and the condition variable.
  Receiving may block: the part of msg_q_rcv from the wait loop on is a function of its own,
  run again each time a waiting receiver is scheduled. Threads are added by the step relation
  \<open>mq_step\<close>, which counts the receivers asleep on the condition variable and those already
  woken. None as a result of an operation means an access to memory that is not allocated.
\<close>

section \<open>Data\<close>

datatype msq_q_err_type =
    eMSG_Q_SUCCESS
  | eMSG_Q_FAILURE_GENERAL
  | eMSG_Q_INVALID_PARAMETER
  | eMSG_Q_INVALID_HANDLE
  | eMSG_Q_UNAVAILABLE_RESOURCE
  | eMSG_Q_INSUFFICIENT_BUFFER

fun convert_linked_list_err_type :: "linked_list_err_type \<Rightarrow> msq_q_err_type" where
  "convert_linked_list_err_type eLINKED_LIST_SUCCESS = eMSG_Q_SUCCESS"
| "convert_linked_list_err_type eLINKED_LIST_INVALID_PARAMETER = eMSG_Q_INVALID_PARAMETER"
| "convert_linked_list_err_type eLINKED_LIST_INVALID_HANDLE = eMSG_Q_INVALID_HANDLE"
| "convert_linked_list_err_type eLINKED_LIST_UNAVAILABLE_RESOURCE = eMSG_Q_UNAVAILABLE_RESOURCE"
| "convert_linked_list_err_type eLINKED_LIST_INSUFFICIENT_BUFFER = eMSG_Q_INSUFFICIENT_BUFFER"
| "convert_linked_list_err_type eLINKED_LIST_FAILURE_GENERAL = eMSG_Q_FAILURE_GENERAL"

record 'd msg_q =
  msg_list :: "'d list_state option"
  unblocked :: bool

datatype sync_op = Mutex_Lock | Mutex_Unlock | Cond_Signal | Cond_Broadcast | Cond_Wait

section \<open>Operations\<close>

text \<open>The arguments say whether each allocation or initialisation succeeds.\<close>

definition msg_q_init :: "bool \<Rightarrow> bool \<Rightarrow> bool \<Rightarrow> bool \<Rightarrow> bool \<Rightarrow> msq_q_err_type \<times> 'd msg_q option" where
  "msg_q_init msg_q_data_nonnull calloc_ok list_calloc_ok mutex_ok cond_ok =
     (if \<not> msg_q_data_nonnull then (eMSG_Q_INVALID_PARAMETER, None)
      else if \<not> calloc_ok then (eMSG_Q_FAILURE_GENERAL, None)
      else (case linked_list_init True list_calloc_ok of
        (err, list) \<Rightarrow>
          if linked_list_err_code err \<noteq> 0 then (eMSG_Q_FAILURE_GENERAL, None)
          else if \<not> mutex_ok then (eMSG_Q_FAILURE_GENERAL, None)
          else if \<not> cond_ok then (eMSG_Q_FAILURE_GENERAL, None)
          else (eMSG_Q_SUCCESS, Some \<lparr>msg_list = list, unblocked = False\<rparr>)))"

definition msg_q_init2 :: "bool \<Rightarrow> bool \<Rightarrow> bool \<Rightarrow> bool \<Rightarrow> 'd msg_q option" where
  "msg_q_init2 calloc_ok list_calloc_ok mutex_ok cond_ok =
     (case msg_q_init True calloc_ok list_calloc_ok mutex_ok cond_ok of
        (err, q) \<Rightarrow> if err \<noteq> eMSG_Q_SUCCESS then None else q)"

text \<open>The last component is the log of the message data freed with the queue.\<close>

definition msg_q_destroy :: "'d msg_q option option \<Rightarrow> (msq_q_err_type \<times> 'd msg_q option option \<times> 'd list) option" where
  "msg_q_destroy msg_q_data =
     (case msg_q_data of
        None \<Rightarrow> Some (eMSG_Q_INVALID_HANDLE, None, [])
      | Some None \<Rightarrow> None
      | Some (Some p_msg_q) \<Rightarrow> do {
          (_, _, freed) \<leftarrow> linked_list_destroy (Some (msg_list p_msg_q));
          Some (eMSG_Q_SUCCESS, Some None, freed)
        })"

definition msg_q_snd ::
    "ptr \<Rightarrow> 'd msg_q option \<Rightarrow> 'd option \<Rightarrow> bool \<Rightarrow> (msq_q_err_type \<times> 'd msg_q option \<times> sync_op list) option" where
  "msg_q_snd m msg_q_data msg_obj dealloc =
     (case msg_q_data of
        None \<Rightarrow> Some (eMSG_Q_INVALID_HANDLE, msg_q_data, [])
      | Some p_msg_q \<Rightarrow>
     (case msg_obj of
        None \<Rightarrow> Some (eMSG_Q_INVALID_PARAMETER, msg_q_data, [])
      | Some d \<Rightarrow>
        if unblocked p_msg_q
        then Some (eMSG_Q_UNAVAILABLE_RESOURCE, msg_q_data, [Mutex_Lock, Mutex_Unlock])
        else do {
          (err, l) \<leftarrow> linked_list_add m (msg_list p_msg_q) (Some d) dealloc;
          Some (convert_linked_list_err_type err, Some (p_msg_q\<lparr>msg_list := l\<rparr>),
                [Mutex_Lock, Cond_Signal, Mutex_Unlock])
        }))"

datatype 'd rcv_result = Rcv_Return msq_q_err_type "'d option" | Rcv_Blocked

text \<open>
  The wait loop and what follows it, with the mutex held. A blocked receiver releases the mutex
  in pthread_cond_wait and runs this again when it wakes.
\<close>

definition msg_q_rcv_loop :: "'d msg_q \<Rightarrow> ('d rcv_result \<times> 'd msg_q \<times> sync_op list) option" where
  "msg_q_rcv_loop p_msg_q =
     (if linked_list_empty (msg_list p_msg_q) \<noteq> 0 \<and> \<not> unblocked p_msg_q
      then Some (Rcv_Blocked, p_msg_q, [Cond_Wait])
      else do {
        (err, l, out) \<leftarrow> linked_list_remove (msg_list p_msg_q) True;
        Some (Rcv_Return (convert_linked_list_err_type err) out, p_msg_q\<lparr>msg_list := l\<rparr>, [Mutex_Unlock])
      })"

definition msg_q_rcv ::
    "'d msg_q option \<Rightarrow> bool \<Rightarrow> ('d rcv_result \<times> 'd msg_q option \<times> sync_op list) option" where
  "msg_q_rcv msg_q_data msg_obj_nonnull =
     (case msg_q_data of
        None \<Rightarrow> Some (Rcv_Return eMSG_Q_INVALID_HANDLE None, msg_q_data, [])
      | Some p_msg_q \<Rightarrow>
        if \<not> msg_obj_nonnull then Some (Rcv_Return eMSG_Q_INVALID_PARAMETER None, msg_q_data, [])
        else if unblocked p_msg_q
        then Some (Rcv_Return eMSG_Q_UNAVAILABLE_RESOURCE None, msg_q_data, [Mutex_Lock, Mutex_Unlock])
        else do {
          (r, q, evs) \<leftarrow> msg_q_rcv_loop p_msg_q;
          Some (r, Some q, Mutex_Lock # evs)
        })"

definition msg_q_flush :: "'d msg_q option \<Rightarrow> (msq_q_err_type \<times> 'd msg_q option \<times> sync_op list) option" where
  "msg_q_flush msg_q_data =
     (case msg_q_data of
        None \<Rightarrow> Some (eMSG_Q_INVALID_HANDLE, msg_q_data, [])
      | Some p_msg_q \<Rightarrow> do {
          (err, l) \<leftarrow> linked_list_flush (msg_list p_msg_q);
          Some (convert_linked_list_err_type err, Some (p_msg_q\<lparr>msg_list := l\<rparr>), [Mutex_Lock, Mutex_Unlock])
        })"

definition msg_q_unblock :: "'d msg_q option \<Rightarrow> msq_q_err_type \<times> 'd msg_q option \<times> sync_op list" where
  "msg_q_unblock msg_q_data =
     (case msg_q_data of
        None \<Rightarrow> (eMSG_Q_INVALID_HANDLE, msg_q_data, [])
      | Some p_msg_q \<Rightarrow>
        if unblocked p_msg_q
        then (eMSG_Q_UNAVAILABLE_RESOURCE, msg_q_data, [Mutex_Lock, Mutex_Unlock])
        else (eMSG_Q_SUCCESS, Some (p_msg_q\<lparr>unblocked := True\<rparr>), [Mutex_Lock, Cond_Broadcast, Mutex_Unlock]))"

section \<open>The queue holds its messages in order\<close>

definition mq_rep :: "'d msg_q \<Rightarrow> ('d \<times> bool) list \<Rightarrow> bool" where
  "mq_rep q xs \<longleftrightarrow> (\<exists>l. msg_list q = Some l \<and> ll_rep l xs)"

lemma mq_rep_unique: "mq_rep q xs \<Longrightarrow> mq_rep q ys \<Longrightarrow> xs = ys"
  by (auto simp: mq_rep_def dest: ll_rep_unique)

definition mq_fresh :: "ptr \<Rightarrow> 'd msg_q \<Rightarrow> bool" where
  "mq_fresh m q \<longleftrightarrow> (\<forall>a l. m = Some a \<longrightarrow> msg_list q = Some l \<longrightarrow> fresh_block a l)"

lemma msg_q_init_rep:
  "msg_q_init nn c lc mo co = (eMSG_Q_SUCCESS, h) \<Longrightarrow> \<exists>q. h = Some q \<and> mq_rep q [] \<and> \<not> unblocked q"
  by (auto simp: msg_q_init_def mq_rep_def linked_list_init_def ll_rep_empty_state split: if_splits prod.splits)

text \<open>The queue msg_q_init2 hands out when nothing fails.\<close>

definition fresh_msg_q :: "'d msg_q" where
  "fresh_msg_q = \<lparr>msg_list = Some empty_list_state, unblocked = False\<rparr>"

lemma msg_q_init2_fresh: "msg_q_init2 True True True True = Some fresh_msg_q"
  by (simp add: msg_q_init2_def msg_q_init_def linked_list_init_def fresh_msg_q_def)

lemma fresh_msg_q_rep: "mq_rep fresh_msg_q []" "\<not> unblocked fresh_msg_q"
  by (simp_all add: mq_rep_def fresh_msg_q_def ll_rep_empty_state)

lemma msg_q_snd_rep:
  assumes "mq_rep q xs" and "mq_fresh m q" and "\<not> unblocked q"
  shows "\<exists>q'. msg_q_snd m (Some q) (Some d) f =
           Some (if m = None then eMSG_Q_FAILURE_GENERAL else eMSG_Q_SUCCESS, Some q',
                 [Mutex_Lock, Cond_Signal, Mutex_Unlock]) \<and>
         mq_rep q' (xs @ (if m = None then [] else [(d, f)])) \<and> \<not> unblocked q'"
proof -
  obtain l where l: "msg_list q = Some l" "ll_rep l xs" using assms(1) by (auto simp: mq_rep_def)
  show ?thesis
  proof (cases m)
    case None
    with l assms show ?thesis
      by (intro exI [of _ q]) (auto simp: msg_q_snd_def linked_list_add_def mq_rep_def)
  next
    case (Some a)
    then have "fresh_block a l" using assms(2) l by (simp add: mq_fresh_def)
    from linked_list_add_rep [OF l(2) this, of d f] obtain l' where
      "linked_list_add (Some a) (Some l) (Some d) f = Some (eLINKED_LIST_SUCCESS, Some l')"
      "ll_rep l' (xs @ [(d, f)])" by blast
    with Some l assms(3) show ?thesis
      by (intro exI [of _ "q\<lparr>msg_list := Some l'\<rparr>"]) (auto simp: msg_q_snd_def mq_rep_def)
  qed
qed

lemma msg_q_snd_unblocked:
  "unblocked q \<Longrightarrow> msg_q_snd m (Some q) (Some d) f =
     Some (eMSG_Q_UNAVAILABLE_RESOURCE, Some q, [Mutex_Lock, Mutex_Unlock])"
  by (simp add: msg_q_snd_def)

lemma rcv_loop_Cons:
  assumes "mq_rep q ((d, f) # xs)"
  shows "\<exists>q'. msg_q_rcv_loop q = Some (Rcv_Return eMSG_Q_SUCCESS (Some d), q', [Mutex_Unlock]) \<and>
           mq_rep q' xs \<and> unblocked q' = unblocked q"
proof -
  obtain l where l: "msg_list q = Some l" "ll_rep l ((d, f) # xs)" using assms by (auto simp: mq_rep_def)
  from linked_list_remove_rep [OF l(2)] obtain l' where
    "linked_list_remove (Some l) True = Some (eLINKED_LIST_SUCCESS, Some l', Some d)" "ll_rep l' xs" by blast
  with l linked_list_empty_rep [OF l(2)] show ?thesis
    by (intro exI [of _ "q\<lparr>msg_list := Some l'\<rparr>"]) (auto simp: msg_q_rcv_loop_def mq_rep_def)
qed

lemma rcv_loop_Nil:
  assumes "mq_rep q []"
  shows "msg_q_rcv_loop q =
     (if unblocked q then Some (Rcv_Return eMSG_Q_UNAVAILABLE_RESOURCE None, q, [Mutex_Unlock])
      else Some (Rcv_Blocked, q, [Cond_Wait]))"
proof -
  obtain l where l: "msg_list q = Some l" "ll_rep l []" using assms by (auto simp: mq_rep_def)
  with linked_list_empty_rep [OF l(2)] linked_list_remove_empty [OF l(2)] show ?thesis
    by (cases q) (auto simp: msg_q_rcv_loop_def)
qed

lemma msg_q_flush_rep:
  assumes "mq_rep q xs"
  shows "\<exists>q'. msg_q_flush (Some q) = Some (eMSG_Q_SUCCESS, Some q', [Mutex_Lock, Mutex_Unlock]) \<and>
           mq_rep q' [] \<and> unblocked q' = unblocked q"
proof -
  obtain l where l: "msg_list q = Some l" "ll_rep l xs" using assms by (auto simp: mq_rep_def)
  from linked_list_flush_rep [OF l(2)] obtain l' where
    "linked_list_flush (Some l) = Some (eLINKED_LIST_SUCCESS, Some l')" "ll_rep l' []" by blast
  with l show ?thesis
    by (intro exI [of _ "q\<lparr>msg_list := Some l'\<rparr>"]) (auto simp: msg_q_flush_def mq_rep_def)
qed

section \<open>Threads\<close>

text \<open>
  \<open>sleeping\<close> receivers wait on the condition variable; \<open>woken\<close> receivers have been signalled
  and wait for the mutex. \<open>sent\<close> and \<open>received\<close> are ghosts: the messages accepted (a flush
  forgets those it drops) and the messages handed out.
\<close>

record 'd mq_sys =
  mq :: "'d msg_q"
  sleeping :: nat
  woken :: nat
  sent :: "'d list"
  received :: "'d list"

fun sync_effect :: "sync_op \<Rightarrow> 'd mq_sys \<Rightarrow> 'd mq_sys" where
  "sync_effect Cond_Signal s = (if sleeping s = 0 then s else s\<lparr>sleeping := sleeping s - 1, woken := woken s + 1\<rparr>)"
| "sync_effect Cond_Broadcast s = s\<lparr>sleeping := 0, woken := woken s + sleeping s\<rparr>"
| "sync_effect Cond_Wait s = s\<lparr>sleeping := sleeping s + 1\<rparr>"
| "sync_effect Mutex_Lock s = s"
| "sync_effect Mutex_Unlock s = s"

definition deliver :: "'d rcv_result \<Rightarrow> 'd mq_sys \<Rightarrow> 'd mq_sys" where
  "deliver r s = (case r of
      Rcv_Return err (Some d) \<Rightarrow> (if err = eMSG_Q_SUCCESS then s\<lparr>received := received s @ [d]\<rparr> else s)
    | _ \<Rightarrow> s)"

definition accept :: "msq_q_err_type \<Rightarrow> 'd \<Rightarrow> 'd mq_sys \<Rightarrow> 'd mq_sys" where
  "accept err d s = (if err = eMSG_Q_SUCCESS then s\<lparr>sent := sent s @ [d]\<rparr> else s)"

inductive mq_step :: "'d mq_sys \<Rightarrow> 'd mq_sys \<Rightarrow> bool" where
  send: "mq_fresh m (mq s) \<Longrightarrow> msg_q_snd m (Some (mq s)) (Some d) f = Some (err, Some q, evs) \<Longrightarrow>
    mq_step s (fold sync_effect evs (accept err d (s\<lparr>mq := q\<rparr>)))"
| receive: "msg_q_rcv (Some (mq s)) True = Some (r, Some q, evs) \<Longrightarrow>
    mq_step s (fold sync_effect evs (deliver r (s\<lparr>mq := q\<rparr>)))"
| wake: "0 < woken s \<Longrightarrow> msg_q_rcv_loop (mq s) = Some (r, q, evs) \<Longrightarrow>
    mq_step s (fold sync_effect evs (deliver r (s\<lparr>mq := q, woken := woken s - 1\<rparr>)))"
| spurious: "0 < sleeping s \<Longrightarrow> mq_step s (s\<lparr>sleeping := sleeping s - 1, woken := woken s + 1\<rparr>)"
| flush: "msg_q_flush (Some (mq s)) = Some (err, Some q, evs) \<Longrightarrow>
    mq_step s (fold sync_effect evs (s\<lparr>mq := q, sent := received s\<rparr>))"
| unblock: "msg_q_unblock (Some (mq s)) = (err, Some q, evs) \<Longrightarrow>
    mq_step s (fold sync_effect evs (s\<lparr>mq := q\<rparr>))"

definition mq_start :: "'d mq_sys" where
  "mq_start = \<lparr>mq = fresh_msg_q, sleeping = 0, woken = 0, sent = [], received = []\<rparr>"

inductive mq_reachable :: "'d mq_sys \<Rightarrow> bool" where
  start: "mq_reachable mq_start"
| step: "mq_reachable s \<Longrightarrow> mq_step s t \<Longrightarrow> mq_reachable t"

text \<open>
  The invariant: the stored messages are those sent and not yet received, in order; a receiver
  sleeps only while the queue is not unblocked and every stored message has a woken receiver.
\<close>

definition mq_pending :: "'d mq_sys \<Rightarrow> ('d \<times> bool) list \<Rightarrow> bool" where
  "mq_pending s xs \<longleftrightarrow> mq_rep (mq s) xs \<and> sent s = received s @ map fst xs \<and>
     (0 < sleeping s \<longrightarrow> length xs \<le> woken s \<and> \<not> unblocked (mq s))"

lemma mq_step_pending:
  assumes "mq_step s t" and "mq_pending s xs"
  shows "\<exists>ys. mq_pending t ys"
  using assms
proof (induction rule: mq_step.induct)
  case (send m s d f err q evs)
  then have rep: "mq_rep (mq s) xs" by (simp add: mq_pending_def)
  show ?case
  proof (cases "unblocked (mq s)")
    case True
    with send show ?thesis by (auto simp: msg_q_snd_unblocked accept_def mq_pending_def)
  next
    case False
    from msg_q_snd_rep [OF rep send(1) False, of d f] send(2)
    have q: "err = (if m = None then eMSG_Q_FAILURE_GENERAL else eMSG_Q_SUCCESS)"
      "evs = [Mutex_Lock, Cond_Signal, Mutex_Unlock]" "\<not> unblocked q"
      "mq_rep q (xs @ (if m = None then [] else [(d, f)]))" by auto
    with send(3) show ?thesis
      by (intro exI [of _ "xs @ (if m = None then [] else [(d, f)])"])
        (auto simp: accept_def mq_pending_def split: if_splits)
  qed
next
  case (receive s r q evs)
  then have rep: "mq_rep (mq s) xs" by (simp add: mq_pending_def)
  show ?case
  proof (cases "unblocked (mq s)")
    case True
    with receive show ?thesis by (auto simp: msg_q_rcv_def deliver_def mq_pending_def)
  next
    case False
    show ?thesis
    proof (cases xs)
      case Nil
      with rcv_loop_Nil [of "mq s"] rep receive False show ?thesis
        by (auto simp: msg_q_rcv_def deliver_def mq_pending_def intro!: exI [of _ "[]"])
    next
      case (Cons x ys)
      obtain d f where "x = (d, f)" by force
      with rcv_loop_Cons [of "mq s" d f ys] Cons rep receive False show ?thesis
        by (auto simp: msg_q_rcv_def deliver_def mq_pending_def intro!: exI [of _ ys])
    qed
  qed
next
  case (wake s r q evs)
  then have rep: "mq_rep (mq s) xs" by (simp add: mq_pending_def)
  show ?case
  proof (cases xs)
    case Nil
    with rcv_loop_Nil [of "mq s"] rep wake show ?thesis
      by (auto simp: deliver_def mq_pending_def split: if_splits intro!: exI [of _ "[]"])
  next
    case (Cons x ys)
    obtain d f where "x = (d, f)" by force
    with rcv_loop_Cons [of "mq s" d f ys] Cons rep wake show ?thesis
      by (auto simp: deliver_def mq_pending_def intro!: exI [of _ ys])
  qed
next
  case (spurious s)
  then show ?case by (auto simp: mq_pending_def intro!: exI [of _ xs])
next
  case (flush s err q evs)
  then have rep: "mq_rep (mq s) xs" by (simp add: mq_pending_def)
  from msg_q_flush_rep [OF rep] flush show ?case
    by (auto simp: mq_pending_def intro!: exI [of _ "[]"])
next
  case (unblock s err q evs)
  then show ?case
    by (auto simp: msg_q_unblock_def mq_pending_def mq_rep_def split: if_splits intro!: exI [of _ xs])
qed

lemma mq_reachable_pending: "mq_reachable s \<Longrightarrow> \<exists>xs. mq_pending s xs"
proof (induction rule: mq_reachable.induct)
  case start
  show ?case by (auto simp: mq_pending_def mq_start_def fresh_msg_q_rep intro!: exI [of _ "[]"])
next
  case (step s t)
  then show ?case using mq_step_pending by blast
qed

text \<open>A run for the witnesses: a receiver blocks on the empty queue, then a message is sent.\<close>

lemma blocked_receiver_reachable: "mq_reachable (mq_start\<lparr>sleeping := 1\<rparr>)"
proof -
  have "msg_q_rcv (Some (mq mq_start)) True = Some (Rcv_Blocked, Some fresh_msg_q, [Mutex_Lock, Cond_Wait])"
    by (simp add: msg_q_rcv_def mq_start_def rcv_loop_Nil [OF fresh_msg_q_rep(1)] fresh_msg_q_rep(2))
  from mq_reachable.step [OF mq_reachable.start mq_step.receive [OF this]] show ?thesis
    by (simp add: deliver_def mq_start_def)
qed

lemma woken_receiver_reachable:
  "\<exists>q. mq_rep q [(d, True)] \<and>
     mq_reachable \<lparr>mq = q, sleeping = 0, woken = 1, sent = [d], received = []\<rparr>"
proof -
  have fresh: "mq_fresh (Some 1) fresh_msg_q"
    by (simp add: mq_fresh_def fresh_msg_q_def fresh_block_def empty_list_state_def)
  from msg_q_snd_rep [OF fresh_msg_q_rep(1) this fresh_msg_q_rep(2), of d True] obtain q where
    "msg_q_snd (Some 1) (Some fresh_msg_q) (Some d) True =
       Some (eMSG_Q_SUCCESS, Some q, [Mutex_Lock, Cond_Signal, Mutex_Unlock])" "mq_rep q [(d, True)]" by auto
  then have "msg_q_snd (Some 1) (Some (mq (mq_start\<lparr>sleeping := 1\<rparr>))) (Some d) True =
      Some (eMSG_Q_SUCCESS, Some q, [Mutex_Lock, Cond_Signal, Mutex_Unlock])"
    "mq_fresh (Some 1) (mq (mq_start\<lparr>sleeping := 1\<rparr>))" using fresh by (simp_all add: mq_start_def)
  from mq_reachable.step [OF blocked_receiver_reachable mq_step.send [OF this(2,1)]]
  have "mq_reachable \<lparr>mq = q, sleeping = 0, woken = 1, sent = [d], received = []\<rparr>"
    by (simp add: accept_def mq_start_def)
  with \<open>mq_rep q [(d, True)]\<close> show ?thesis by blast
qed

section \<open>Properties\<close>

text \<open>C5: Messages are delivered in the order they were accepted, whatever the interleaving of
  senders, receivers, flushes and the unblock: in every reachable state the messages accepted
  (and not flushed) are those received followed by those still stored.\<close>

theorem msg_q_delivers_in_order:
  assumes "mq_reachable s"
  shows "\<exists>xs. mq_rep (mq s) xs \<and> sent s = received s @ map fst xs"
  using mq_reachable_pending [OF assms] by (auto simp: mq_pending_def)

theorem msg_q_delivers_in_order_witness:
  "\<exists>(s :: int mq_sys) xs. sent s = [7] \<and> received s = [] \<and> mq_rep (mq s) xs \<and> sent s = received s @ map fst xs"
proof -
  obtain q where q: "mq_reachable \<lparr>mq = q, sleeping = 0, woken = 1, sent = [7 :: int], received = []\<rparr>"
    using woken_receiver_reachable [of "7 :: int"] by blast
  show ?thesis
    by (intro exI [of _ "\<lparr>mq = q, sleeping = 0, woken = 1, sent = [7 :: int], received = []\<rparr>"])
      (use msg_q_delivers_in_order [OF q] in simp)
qed

text \<open>C6: No wake-up is lost: while a receiver sleeps on the condition variable, the queue is
  not unblocked and there are at most as many stored messages as receivers already woken.\<close>

theorem msg_q_no_lost_wakeup:
  assumes "mq_reachable s" and "0 < sleeping s"
  shows "\<not> unblocked (mq s) \<and> (\<exists>xs. mq_rep (mq s) xs \<and> length xs \<le> woken s)"
  using mq_reachable_pending [OF assms(1)] assms(2) by (auto simp: mq_pending_def)

theorem msg_q_no_lost_wakeup_witness:
  "\<not> unblocked (mq (mq_start\<lparr>sleeping := 1\<rparr> :: int mq_sys)) \<and>
   (\<exists>xs. mq_rep (mq (mq_start\<lparr>sleeping := 1\<rparr> :: int mq_sys)) xs \<and> length xs \<le> 0)"
  using msg_q_no_lost_wakeup [OF blocked_receiver_reachable] by (simp add: mq_start_def)

text \<open>C7: Waiting receivers make progress: if a message is stored and some receiver waits, a
  receiver is awake whose wait loop returns the oldest message when it is scheduled; and once the
  queue is unblocked nobody sleeps and no run of the wait loop blocks again.\<close>

theorem msg_q_waiters_progress:
  assumes "mq_reachable s" and "0 < sleeping s + woken s"
  shows "(\<forall>d f xs. mq_rep (mq s) ((d, f) # xs) \<longrightarrow> 0 < woken s \<and>
            (\<exists>q. msg_q_rcv_loop (mq s) = Some (Rcv_Return eMSG_Q_SUCCESS (Some d), q, [Mutex_Unlock]) \<and> mq_rep q xs)) \<and>
         (unblocked (mq s) \<longrightarrow> sleeping s = 0 \<and>
            (\<exists>err out q. msg_q_rcv_loop (mq s) = Some (Rcv_Return err out, q, [Mutex_Unlock])))"
proof (intro conjI allI impI)
  obtain ys where ys: "mq_pending s ys" using mq_reachable_pending [OF assms(1)] by blast
  fix d f xs assume rep: "mq_rep (mq s) ((d, f) # xs)"
  then have "ys = (d, f) # xs"
    using ys mq_rep_unique unfolding mq_pending_def by blast
  then show "0 < woken s" using ys assms(2) by (auto simp: mq_pending_def)
  from rcv_loop_Cons [OF rep]
  show "\<exists>q. msg_q_rcv_loop (mq s) = Some (Rcv_Return eMSG_Q_SUCCESS (Some d), q, [Mutex_Unlock]) \<and> mq_rep q xs"
    by blast
next
  obtain ys where ys: "mq_pending s ys" using mq_reachable_pending [OF assms(1)] by blast
  assume unb: "unblocked (mq s)"
  then show "sleeping s = 0" using ys by (auto simp: mq_pending_def)
  have rep: "mq_rep (mq s) ys" using ys by (simp add: mq_pending_def)
  show "\<exists>err out q. msg_q_rcv_loop (mq s) = Some (Rcv_Return err out, q, [Mutex_Unlock])"
  proof (cases ys)
    case Nil
    with rcv_loop_Nil [of "mq s"] rep unb show ?thesis by simp
  next
    case (Cons x xs)
    obtain d f where "x = (d, f)" by force
    with rcv_loop_Cons [of "mq s" d f xs] Cons rep show ?thesis by blast
  qed
qed

theorem msg_q_waiters_progress_witness:
  "\<exists>(s :: int mq_sys) q. mq_rep (mq s) [(7, True)] \<and> 0 < woken s \<and>
     msg_q_rcv_loop (mq s) = Some (Rcv_Return eMSG_Q_SUCCESS (Some 7), q, [Mutex_Unlock]) \<and> mq_rep q []"
proof -
  obtain q where q: "mq_rep q [(7 :: int, True)]"
    "mq_reachable \<lparr>mq = q, sleeping = 0, woken = 1, sent = [7], received = []\<rparr>"
    using woken_receiver_reachable [of "7 :: int"] by blast
  have "0 < sleeping \<lparr>mq = q, sleeping = 0, woken = 1, sent = [7 :: int], received = []\<rparr> +
      woken \<lparr>mq = q, sleeping = 0, woken = 1, sent = [7 :: int], received = []\<rparr>" by simp
  from conjunct1 [OF msg_q_waiters_progress [OF q(2) this], rule_format, of 7 True "[]"] q(1) obtain q' where
    "msg_q_rcv_loop q = Some (Rcv_Return eMSG_Q_SUCCESS (Some 7), q', [Mutex_Unlock])" "mq_rep q' []" by auto
  note r = this
  show ?thesis
    by (intro exI [of _ "\<lparr>mq = q, sleeping = 0, woken = 1, sent = [7 :: int], received = []\<rparr>"] exI [of _ q'])
      (use q(1) r in simp)
qed

end
