(* ===== verification/Loc_Thread.thy ===== *)
theory Loc_Thread
  imports Msg_Queue
begin

text \<open>
  Threads and message tasks: LocThreadDelegate (gps/utils/LocThread.cpp) as the interleaving of
  the client that starts and stops the thread with threadMain, one step per access to the shared
  delegate, and MsgTask (gps/utils/MsgTask.cpp) as the runnable that takes one message per run()
  from its queue.
\<close>

section \<open>The thread delegate\<close>

text \<open>
  \<open>mRunnable\<close> is whether the pointer is non-NULL. \<open>delegate_frees\<close> and \<open>runnable_frees\<close> count the
  deletions of the delegate and of the client's runnable; \<open>started\<close> is what LocThread::start
  returned.
\<close>

datatype client_pc =
    In_Create       \<comment> \<open>in create(), the constructor has returned\<close>
  | Holding         \<comment> \<open>start() has returned true\<close>
  | In_Stop         \<comment> \<open>in stop(), mRunnable has been nulled\<close>
  | In_Join         \<comment> \<open>in pthread_join\<close>
  | Client_Done     \<comment> \<open>has called destroy() and dropped the pointer\<close>

datatype thread_pc =
    Main_Start | Main_Prerun | Main_Loop | Main_Postrun | Main_Null | Main_Delete | Main_Destroy | Exited

record thread_delegate =
  mRunnable :: bool
  mJoinable :: bool
  mRefCount :: int
  delegate_frees :: nat
  runnable_frees :: nat
  client_at :: client_pc
  thread_at :: thread_pc
  started :: "bool option"

text \<open>The constructor; a failed thread creation leaves a delegate only the client refers to.\<close>

definition LocThreadDelegate_ctor :: "bool \<Rightarrow> bool \<Rightarrow> thread_delegate" where
  "LocThreadDelegate_ctor created joinable =
     (if created
      then \<lparr>mRunnable = True, mJoinable = joinable, mRefCount = 2, delegate_frees = 0, runnable_frees = 0,
            client_at = In_Create, thread_at = Main_Start, started = None\<rparr>
      else \<lparr>mRunnable = False, mJoinable = False, mRefCount = 1, delegate_frees = 0, runnable_frees = 0,
            client_at = In_Create, thread_at = Exited, started = None\<rparr>)"

definition destroy :: "thread_delegate \<Rightarrow> thread_delegate" where
  "destroy d =
     (if mRefCount d > 0
      then (let callDelete = (mRefCount d = 1); d' = d\<lparr>mRefCount := mRefCount d - 1\<rparr>
            in if callDelete then d'\<lparr>delegate_frees := delegate_frees d + 1\<rparr> else d')
      else d)"

text \<open>create() returns the delegate, or NULL after destroying it when it is not running.\<close>

definition create_check :: "thread_delegate \<Rightarrow> thread_delegate" where
  "create_check d =
     (if \<not> mRunnable d then (destroy d)\<lparr>client_at := Client_Done, started := Some False\<rparr>
      else d\<lparr>client_at := Holding, started := Some True\<rparr>)"

definition stop_enter :: "thread_delegate \<Rightarrow> thread_delegate" where
  "stop_enter d = d\<lparr>mRunnable := False, client_at := In_Stop\<rparr>"

definition stop_join :: "thread_delegate \<Rightarrow> thread_delegate" where
  "stop_join d =
     (if mJoinable d then d\<lparr>mJoinable := False, client_at := In_Join\<rparr>
      else (destroy d)\<lparr>client_at := Client_Done\<rparr>)"

definition bye :: "thread_delegate \<Rightarrow> thread_delegate" where
  "bye d = (if mJoinable d then stop_enter d else (destroy d)\<lparr>client_at := Client_Done\<rparr>)"

text \<open>One step of threadMain; \<open>again\<close> is what run() returns if it is called.\<close>

fun threadMain_step :: "bool \<Rightarrow> thread_delegate \<Rightarrow> thread_delegate" where
  "threadMain_step again d =
     (case thread_at d of
        Main_Start \<Rightarrow> d\<lparr>thread_at := (if mRunnable d then Main_Prerun else Main_Destroy)\<rparr>
      | Main_Prerun \<Rightarrow> d\<lparr>thread_at := Main_Loop\<rparr>
      | Main_Loop \<Rightarrow> d\<lparr>thread_at := (if mRunnable d \<and> again then Main_Loop else Main_Postrun)\<rparr>
      | Main_Postrun \<Rightarrow> d\<lparr>thread_at := Main_Null\<rparr>
      | Main_Null \<Rightarrow> d\<lparr>mRunnable := False, thread_at := Main_Delete\<rparr>
      | Main_Delete \<Rightarrow> d\<lparr>runnable_frees := runnable_frees d + 1, thread_at := Main_Destroy\<rparr>
      | Main_Destroy \<Rightarrow> (destroy d)\<lparr>thread_at := Exited\<rparr>
      | Exited \<Rightarrow> d)"

inductive thread_step :: "thread_delegate \<Rightarrow> thread_delegate \<Rightarrow> bool" where
  create: "client_at d = In_Create \<Longrightarrow> thread_step d (create_check d)"
| stop: "client_at d = Holding \<Longrightarrow> thread_step d (stop_enter d)"
| bye: "client_at d = Holding \<Longrightarrow> thread_step d (bye d)"
| join: "client_at d = In_Stop \<Longrightarrow> thread_step d (stop_join d)"
| joined: "client_at d = In_Join \<Longrightarrow> thread_at d = Exited \<Longrightarrow>
    thread_step d ((destroy d)\<lparr>client_at := Client_Done\<rparr>)"
| main: "thread_at d \<noteq> Exited \<Longrightarrow> thread_step d (threadMain_step again d)"

inductive thread_reach :: "bool \<Rightarrow> bool \<Rightarrow> thread_delegate \<Rightarrow> bool" for created joinable where
  ctor: "thread_reach created joinable (LocThreadDelegate_ctor created joinable)"
| step: "thread_reach created joinable d \<Longrightarrow> thread_step d d' \<Longrightarrow> thread_reach created joinable d'"

inductive_cases thread_stepE: "thread_step d d'"

text \<open>
  References: each side holds one until its destroy(). The delegate is freed exactly when the
  last one is gone, and the runnable is freed by the thread on its way out.
\<close>

definition refs :: "thread_delegate \<Rightarrow> int" where
  "refs d = (if client_at d = Client_Done then 0 else 1) + (if thread_at d = Exited then 0 else 1)"

definition thread_inv :: "thread_delegate \<Rightarrow> bool" where
  "thread_inv d \<longleftrightarrow> mRefCount d = refs d \<and> delegate_frees d = (if refs d = 0 then 1 else 0) \<and>
     runnable_frees d \<le> 1 \<and>
     (runnable_frees d = 1 \<longrightarrow> thread_at d \<in> {Main_Destroy, Exited}) \<and>
     (client_at d = In_Join \<longrightarrow> \<not> mJoinable d)"

lemma destroy_simps [simp]:
  "client_at (destroy d) = client_at d" "thread_at (destroy d) = thread_at d"
  "mRunnable (destroy d) = mRunnable d" "mJoinable (destroy d) = mJoinable d"
  "runnable_frees (destroy d) = runnable_frees d" "started (destroy d) = started d"
  by (simp_all add: destroy_def Let_def)

lemma destroy_counts:
  "mRefCount (destroy d) = (if 0 < mRefCount d then mRefCount d - 1 else mRefCount d)"
  "delegate_frees (destroy d) = (if mRefCount d = 1 then delegate_frees d + 1 else delegate_frees d)"
  by (simp_all add: destroy_def Let_def)

lemma thread_step_inv: "thread_step d d' \<Longrightarrow> thread_inv d \<Longrightarrow> thread_inv d'"
proof (induction rule: thread_step.induct)
  case (create d)
  then show ?case by (auto simp: thread_inv_def refs_def create_check_def destroy_counts)
next
  case (stop d)
  then show ?case by (auto simp: thread_inv_def refs_def stop_enter_def)
next
  case (bye d)
  then show ?case by (auto simp: thread_inv_def refs_def bye_def stop_enter_def destroy_counts)
next
  case (join d)
  then show ?case by (auto simp: thread_inv_def refs_def stop_join_def destroy_counts)
next
  case (joined d)
  then show ?case by (auto simp: thread_inv_def refs_def destroy_counts)
next
  case (main d again)
  then show ?case by (cases "thread_at d") (auto simp: thread_inv_def refs_def destroy_counts)
qed

lemma thread_reach_inv: "thread_reach created joinable d \<Longrightarrow> thread_inv d"
proof (induction rule: thread_reach.induct)
  case ctor
  show ?case by (simp add: thread_inv_def refs_def LocThreadDelegate_ctor_def)
next
  case (step d d')
  then show ?case using thread_step_inv by blast
qed

section \<open>MsgTask\<close>

text \<open>
  run() handles one message with its proc(), which acts on the state \<open>'s\<close> of the component that
  sent it; it returns false when the receive fails. \<open>None\<close> as the flag means it is blocked.
\<close>

definition MsgTask_run ::
    "('d \<Rightarrow> 's \<Rightarrow> 's) \<Rightarrow> 'd msg_q \<Rightarrow> 's \<Rightarrow> (bool option \<times> 'd msg_q \<times> 's) option" where
  "MsgTask_run proc q s =
     (case msg_q_rcv (Some q) True of
        Some (Rcv_Return result out, Some q', _) \<Rightarrow>
          (if result \<noteq> eMSG_Q_SUCCESS then Some (Some False, q', s)
           else (case out of Some msg \<Rightarrow> Some (Some True, q', proc msg s) | None \<Rightarrow> None))
      | Some (Rcv_Blocked, Some q', _) \<Rightarrow> Some (None, q', s)
      | _ \<Rightarrow> None)"

text \<open>The thread's loop over run(), with fuel; it stops when run() returns false or blocks.\<close>

fun MsgTask_loop ::
    "nat \<Rightarrow> ('d \<Rightarrow> 's \<Rightarrow> 's) \<Rightarrow> 'd msg_q \<Rightarrow> 's \<Rightarrow> (bool option \<times> 'd msg_q \<times> 's) option" where
  "MsgTask_loop 0 proc q s = None"
| "MsgTask_loop (Suc n) proc q s =
     (case MsgTask_run proc q s of
        Some (Some True, q', s') \<Rightarrow> MsgTask_loop n proc q' s'
      | r \<Rightarrow> r)"

definition MsgTask_sendMsg :: "addr option \<Rightarrow> 'd msg_q \<Rightarrow> 'd option \<Rightarrow> 'd msg_q option" where
  "MsgTask_sendMsg m q msg =
     (case msg of
        Some d \<Rightarrow> (case msg_q_snd m (Some q) (Some d) True of Some (_, q', _) \<Rightarrow> q' | None \<Rightarrow> None)
      | None \<Rightarrow> Some q)"

definition MsgTask_destroy :: "'d msg_q \<Rightarrow> 'd msg_q" where
  "MsgTask_destroy q = (case msg_q_unblock (Some q) of (_, Some q', _) \<Rightarrow> q' | _ \<Rightarrow> q)"

lemma MsgTask_run_Cons:
  assumes "mq_rep q ((d, f) # xs)" and "\<not> unblocked q"
  shows "\<exists>q'. MsgTask_run proc q s = Some (Some True, q', proc d s) \<and> mq_rep q' xs \<and> \<not> unblocked q'"
  using rcv_loop_Cons [OF assms(1)] assms(2) by (auto simp: MsgTask_run_def msg_q_rcv_def)

lemma MsgTask_run_Nil:
  "mq_rep q [] \<Longrightarrow> \<not> unblocked q \<Longrightarrow> MsgTask_run proc q s = Some (None, q, s)"
  by (simp add: MsgTask_run_def msg_q_rcv_def rcv_loop_Nil)

lemma MsgTask_run_unblocked: "unblocked q \<Longrightarrow> MsgTask_run proc q s = Some (Some False, q, s)"
  by (simp add: MsgTask_run_def msg_q_rcv_def)

lemma MsgTask_loop_drains:
  "mq_rep q xs \<Longrightarrow> \<not> unblocked q \<Longrightarrow> length xs < n \<Longrightarrow>
   \<exists>q'. MsgTask_loop n proc q s = Some (None, q', fold proc (map fst xs) s) \<and> mq_rep q' [] \<and> \<not> unblocked q'"
proof (induction xs arbitrary: q s n)
  case Nil
  then show ?case by (cases n) (auto simp: MsgTask_run_Nil)
next
  case (Cons x xs)
  obtain d f where x: "x = (d, f)" by force
  with MsgTask_run_Cons [of q d f xs proc s] Cons.prems obtain q1 where
    q1: "MsgTask_run proc q s = Some (Some True, q1, proc d s)" "mq_rep q1 xs" "\<not> unblocked q1" by auto
  obtain m where m: "n = Suc m" "length xs < m" using Cons.prems(3) by (cases n) auto
  from Cons.IH [OF q1(2,3) m(2), of "proc d s"] q1 m x show ?case by auto
qed

section \<open>Properties\<close>

text \<open>C8: However the client's start, stop and release interleave with threadMain, the delegate
  is freed exactly when both sides have let go of it (never twice, never while one side can
  still use it), and the runnable is freed at most once.\<close>

theorem delegate_freed_once:
  assumes "thread_reach created joinable d"
  shows "(delegate_frees d = 1 \<longleftrightarrow> client_at d = Client_Done \<and> thread_at d = Exited) \<and>
    delegate_frees d \<le> 1 \<and> runnable_frees d \<le> 1"
  using thread_reach_inv [OF assms] by (auto simp: thread_inv_def refs_def split: if_splits)

theorem delegate_freed_once_witness:
  "delegate_frees (create_check (LocThreadDelegate_ctor False True)) = 1 \<and>
   client_at (create_check (LocThreadDelegate_ctor False True)) = Client_Done"
proof -
  have "client_at (LocThreadDelegate_ctor False True) = In_Create" by (simp add: LocThreadDelegate_ctor_def)
  from thread_reach.step [OF thread_reach.ctor thread_step.create [OF this]]
  have "thread_reach False True (create_check (LocThreadDelegate_ctor False True))" .
  from delegate_freed_once [OF this] show ?thesis
    by (simp add: create_check_def LocThreadDelegate_ctor_def)
qed

text \<open>A message task runs its messages one by one in the order they were queued and then
  blocks on the empty queue; once the task is destroyed the next run returns false.\<close>

theorem msg_task_processes_in_order:
  assumes "mq_rep q xs" and "\<not> unblocked q" and "length xs < n"
  shows "(\<exists>q'. MsgTask_loop n proc q s = Some (None, q', fold proc (map fst xs) s) \<and> mq_rep q' []) \<and>
    MsgTask_run proc (MsgTask_destroy q) s = Some (Some False, MsgTask_destroy q, s)"
proof -
  have "unblocked (MsgTask_destroy q)" using assms(2) by (simp add: MsgTask_destroy_def msg_q_unblock_def)
  with MsgTask_loop_drains [OF assms, of proc s] show ?thesis by (auto simp: MsgTask_run_unblocked)
qed

theorem msg_task_processes_in_order_witness:
  "\<exists>q q'. mq_rep q [(7 :: int, True)] \<and> MsgTask_loop 2 (\<lambda>d ds. ds @ [d]) q [] = Some (None, q', [7])"
proof -
  have "mq_fresh (Some 1) fresh_msg_q"
    by (simp add: mq_fresh_def fresh_msg_q_def fresh_block_def empty_list_state_def)
  from msg_q_snd_rep [OF fresh_msg_q_rep(1) this fresh_msg_q_rep(2), of "7 :: int" True]
  obtain q where q: "mq_rep q [(7 :: int, True)]" "\<not> unblocked q" by auto
  from msg_task_processes_in_order [OF q, of 2 "\<lambda>d ds. ds @ [d]" "[]"] q show ?thesis by auto
qed

text \<open>LocThread::start can report failure although the thread ran: if the spawned thread
  finishes before create() looks at mRunnable, start() returns false while the runnable has
  already been deleted, against the contract that the client then still owns it.\<close>

theorem start_may_fail_after_running:
  "\<exists>d. thread_reach True joinable d \<and> started d = Some False \<and> runnable_frees d = 1"
proof -
  define d0 where "d0 = LocThreadDelegate_ctor True joinable"
  define m where "m = threadMain_step False"
  have r: "thread_reach True joinable d \<Longrightarrow> thread_at d \<noteq> Exited \<Longrightarrow> thread_reach True joinable (m d)" for d
    unfolding m_def by (rule thread_reach.step [OF _ thread_step.main])
  have "thread_reach True joinable (m (m (m (m (m (m d0))))))"
    by (intro r) (simp_all add: m_def d0_def LocThreadDelegate_ctor_def thread_reach.ctor [of True joinable, unfolded LocThreadDelegate_ctor_def, simplified])
  moreover define d where "d = m (m (m (m (m (m d0)))))"
  ultimately have "thread_reach True joinable (create_check d)"
    by (auto intro!: thread_reach.step [OF _ thread_step.create] simp: m_def d0_def LocThreadDelegate_ctor_def)
  moreover have "started (create_check d) = Some False" "runnable_frees (create_check d) = 1"
    by (simp_all add: create_check_def d_def m_def d0_def LocThreadDelegate_ctor_def)
  ultimately show ?thesis by blast
qed

end
