(* ===== verification/Agps.thy ===== *)
theory Agps
  imports Prelude "HOL-Library.Monad_Syntax"
begin

text \<open>
  The assisted-GPS connection manager of gps/gnss/Agps.cpp and Agps.h: the state machine that
  shares one data connection between the requests (subscribers) of the modem, its specialisation
  for emergency calls over the data-service client (DS), and the manager that owns up to three
  machines. Callbacks into the adapter and the framework are recorded in order in a log. A
  result \<open>None\<close> is abnormal termination: a NULL machine is dereferenced or an unset
  \<open>std::function\<close> is called.
\<close>

section \<open>Data\<close>

datatype AgpsState =
  AGPS_STATE_INVALID | AGPS_STATE_RELEASED | AGPS_STATE_PENDING | AGPS_STATE_ACQUIRED | AGPS_STATE_RELEASING

datatype AgpsEvent =
  AGPS_EVENT_INVALID | AGPS_EVENT_SUBSCRIBE | AGPS_EVENT_UNSUBSCRIBE | AGPS_EVENT_GRANTED
  | AGPS_EVENT_RELEASED | AGPS_EVENT_DENIED

datatype AgpsNotificationType =
  FOR_ALL_SUBSCRIBERS | FOR_INACTIVE_SUBSCRIBERS | FOR_ACTIVE_SUBSCRIBERS

record AgpsSubscriber =
  mConnHandle :: int
  mWaitForCloseComplete :: bool
  mIsInactive :: bool

text \<open>
  The current subscriber is a pointer to the manager's local object (a request) or to the list's
  element with the given handle (a release).
\<close>

datatype current_subscriber = Cur_Null | Cur_Local AgpsSubscriber | Cur_Listed int

record AgpsStateMachine =
  mSubscriberList :: "AgpsSubscriber list"
  mCurrentSubscriber :: current_subscriber
  mState :: AgpsState
  mAgpsType :: int
  mAPN :: "string option"
  mBearer :: int
  mRetries :: int

abbreviation (input) LOC_AGPS_TYPE_SUPL :: int where "LOC_AGPS_TYPE_SUPL \<equiv> 1"

abbreviation (input) LOC_AGPS_TYPE_WWAN_ANY :: int where "LOC_AGPS_TYPE_WWAN_ANY \<equiv> 3"

abbreviation (input) LOC_AGPS_TYPE_SUPL_ES :: int where "LOC_AGPS_TYPE_SUPL_ES \<equiv> 5"

definition new_sm :: "int \<Rightarrow> AgpsStateMachine" where
  "new_sm agpsType = \<lparr>mSubscriberList = [], mCurrentSubscriber = Cur_Null, mState = AGPS_STATE_RELEASED,
     mAgpsType = agpsType, mAPN = None, mBearer = 0, mRetries = 0\<rparr>"

text \<open>
  The calls out of the component, with their arguments. \<open>Freed_Read\<close> marks that the code read a
  subscriber it had just deleted.
\<close>

datatype agps_out =
    AtlOpenStatus int int "string option" int int
  | AtlCloseStatus int int
  | FrameworkStatus int bool
  | Send_RequestATL int int
  | DSClientInit bool
  | DSClientOpenAndStart
  | DSClientStop
  | DSClientClose
  | DSClientRelease
  | Retry_Timer
  | Freed_Read

text \<open>
  What the environment provides to one operation: whether the ATL and framework callbacks are
  registered, the DS client functions (with the values the two fallible ones return), whether
  the retry timer can be started, and the configuration.
\<close>

record agps_env =
  atlCbs :: bool
  frameworkCb :: bool
  dsInitFn :: "int option"
  dsOpenFn :: "int option"
  dsStopFn :: bool
  dsCloseFn :: bool
  dsReleaseFn :: bool
  timer_starts :: bool
  CAPABILITIES :: u32
  USE_EMERGENCY_PDN :: bool

type_synonym agps_run = "AgpsStateMachine \<times> agps_out list"

text \<open>Calling a function object: abnormal when it is not set.\<close>

definition call :: "bool \<Rightarrow> agps_out \<Rightarrow> agps_run \<Rightarrow> agps_run option" where
  "call registered x run = (if registered then Some (fst run, snd run @ [x]) else None)"

section \<open>The subscriber list\<close>

definition equals :: "AgpsSubscriber \<Rightarrow> AgpsSubscriber \<Rightarrow> bool" where
  "equals s t \<longleftrightarrow> mConnHandle s = mConnHandle t"

definition addSubscriber :: "AgpsSubscriber \<Rightarrow> AgpsStateMachine \<Rightarrow> AgpsStateMachine" where
  "addSubscriber subscriberToAdd sm =
     (if list_ex (\<lambda>s. equals s subscriberToAdd) (mSubscriberList sm) then sm
      else sm\<lparr>mSubscriberList := mSubscriberList sm @ [subscriberToAdd]\<rparr>)"

text \<open>
  The loop of deleteSubscriber: every equal element is erased. The argument points to the list
  element itself, so once that is deleted (\<open>freed\<close>) each further comparison reads freed memory;
  the second component says whether that happened.
\<close>

fun deleteSubscriber_loop :: "AgpsSubscriber \<Rightarrow> bool \<Rightarrow> AgpsSubscriber list \<Rightarrow> AgpsSubscriber list \<times> bool" where
  "deleteSubscriber_loop subscriberToDelete freed [] = ([], False)"
| "deleteSubscriber_loop subscriberToDelete freed (s # ss) =
     (if equals s subscriberToDelete
      then (let (rest, u) = deleteSubscriber_loop subscriberToDelete True ss in (rest, freed \<or> u))
      else (let (rest, u) = deleteSubscriber_loop subscriberToDelete freed ss in (s # rest, freed \<or> u)))"

definition deleteSubscriber :: "AgpsSubscriber \<Rightarrow> agps_run \<Rightarrow> agps_run" where
  "deleteSubscriber subscriberToDelete run =
     (let (rest, u) = deleteSubscriber_loop subscriberToDelete False (mSubscriberList (fst run))
      in ((fst run)\<lparr>mSubscriberList := rest\<rparr>, if u then snd run @ [Freed_Read] else snd run))"

definition anyActiveSubscribers :: "AgpsStateMachine \<Rightarrow> bool" where
  "anyActiveSubscribers sm = list_ex (\<lambda>s. \<not> mIsInactive s) (mSubscriberList sm)"

definition setAPN :: "string option \<Rightarrow> nat \<Rightarrow> AgpsStateMachine \<Rightarrow> AgpsStateMachine" where
  "setAPN apn len sm = sm\<lparr>mAPN := map_option (take len) apn\<rparr>"

definition getSubscriber :: "int \<Rightarrow> AgpsStateMachine \<Rightarrow> AgpsSubscriber option" where
  "getSubscriber connHandle sm = find (\<lambda>s. mConnHandle s = connHandle) (mSubscriberList sm)"

definition getFirstSubscriber :: "bool \<Rightarrow> AgpsStateMachine \<Rightarrow> AgpsSubscriber option" where
  "getFirstSubscriber isInactive sm = find (\<lambda>s. mIsInactive s = isInactive) (mSubscriberList sm)"

definition dropAllSubscribers :: "AgpsStateMachine \<Rightarrow> AgpsStateMachine" where
  "dropAllSubscribers sm = sm\<lparr>mSubscriberList := []\<rparr>"

definition transitionState :: "AgpsState \<Rightarrow> agps_run \<Rightarrow> agps_run" where
  "transitionState newState run = ((fst run)\<lparr>mState := newState\<rparr>, snd run)"

text \<open>The object mCurrentSubscriber points to.\<close>

definition current :: "AgpsStateMachine \<Rightarrow> AgpsSubscriber option" where
  "current sm = (case mCurrentSubscriber sm of
     Cur_Null \<Rightarrow> None | Cur_Local s \<Rightarrow> Some s | Cur_Listed h \<Rightarrow> getSubscriber h sm)"

text \<open>Setting mIsInactive through that pointer.\<close>

fun inactivate_first :: "int \<Rightarrow> AgpsSubscriber list \<Rightarrow> AgpsSubscriber list" where
  "inactivate_first h [] = []"
| "inactivate_first h (s # ss) =
     (if mConnHandle s = h then s\<lparr>mIsInactive := True\<rparr> # ss else s # inactivate_first h ss)"

definition inactivate_current :: "AgpsStateMachine \<Rightarrow> AgpsStateMachine" where
  "inactivate_current sm = (case mCurrentSubscriber sm of
     Cur_Null \<Rightarrow> sm
   | Cur_Local s \<Rightarrow> sm\<lparr>mCurrentSubscriber := Cur_Local (s\<lparr>mIsInactive := True\<rparr>)\<rparr>
   | Cur_Listed h \<Rightarrow> sm\<lparr>mSubscriberList := inactivate_first h (mSubscriberList sm)\<rparr>)"

section \<open>The virtual methods\<close>

text \<open>
  The base class calls two virtual methods; the event processing takes them as arguments.
  First the base versions.
\<close>

type_synonym request_fn = "bool \<Rightarrow> agps_run \<Rightarrow> (int \<times> agps_run) option"

type_synonym notify_fn = "AgpsEvent \<Rightarrow> AgpsSubscriber \<Rightarrow> bool \<Rightarrow> agps_run \<Rightarrow> agps_run option"

definition base_requestOrReleaseDataConn :: "agps_env \<Rightarrow> request_fn" where
  "base_requestOrReleaseDataConn env request run = do {
     run' \<leftarrow> call (frameworkCb env) (FrameworkStatus (mAgpsType (fst run)) request) run;
     Some (0, run')
   }"

definition base_notifyEventToSubscriber :: "agps_env \<Rightarrow> notify_fn" where
  "base_notifyEventToSubscriber env event subscriberToNotify deleteSubscriberPostNotify run = do {
     run' \<leftarrow> (case event of
        AGPS_EVENT_GRANTED \<Rightarrow>
          call (atlCbs env) (AtlOpenStatus (mConnHandle subscriberToNotify) 1 (mAPN (fst run)) (mBearer (fst run)) (mAgpsType (fst run))) run
      | AGPS_EVENT_DENIED \<Rightarrow>
          call (atlCbs env) (AtlOpenStatus (mConnHandle subscriberToNotify) 0 (mAPN (fst run)) (mBearer (fst run)) (mAgpsType (fst run))) run
      | AGPS_EVENT_UNSUBSCRIBE \<Rightarrow> call (atlCbs env) (AtlCloseStatus (mConnHandle subscriberToNotify) 1) run
      | AGPS_EVENT_RELEASED \<Rightarrow> call (atlCbs env) (AtlCloseStatus (mConnHandle subscriberToNotify) 1) run
      | _ \<Rightarrow> Some run);
     Some (if deleteSubscriberPostNotify then deleteSubscriber subscriberToNotify run' else run')
   }"

definition MAX_START_DATA_CALL_RETRIES :: int where
  "MAX_START_DATA_CALL_RETRIES = 4"

definition DS_notifyEventToSubscriber :: "agps_env \<Rightarrow> notify_fn" where
  "DS_notifyEventToSubscriber env event subscriberToNotify deleteSubscriberPostNotify run = do {
     run' \<leftarrow> (case event of
        AGPS_EVENT_GRANTED \<Rightarrow>
          call (atlCbs env) (AtlOpenStatus (mConnHandle subscriberToNotify) 1 None 0 LOC_AGPS_TYPE_SUPL_ES) run
      | AGPS_EVENT_DENIED \<Rightarrow>
          call (atlCbs env) (Send_RequestATL (mConnHandle subscriberToNotify) LOC_AGPS_TYPE_SUPL)
            ((fst run)\<lparr>mRetries := 0\<rparr>, snd run)
      | AGPS_EVENT_UNSUBSCRIBE \<Rightarrow> call (atlCbs env) (AtlCloseStatus (mConnHandle subscriberToNotify) 1) run
      | AGPS_EVENT_RELEASED \<Rightarrow> do {
          r \<leftarrow> call (dsCloseFn env) DSClientClose run;
          call (atlCbs env) (AtlCloseStatus (mConnHandle subscriberToNotify) 1) r
        }
      | _ \<Rightarrow> Some run);
     Some (if deleteSubscriberPostNotify then deleteSubscriber subscriberToNotify run' else run')
   }"

text \<open>
  The DS version of the request: 6 is LOC_API_ADAPTER_ERR_ENGINE_BUSY, 2 is
  LOC_API_ADAPTER_ERR_UNSUPPORTED. A retry timer that was started (a non-NULL handle) is
  reported as the error.
\<close>

definition DS_requestOrReleaseDataConn :: "agps_env \<Rightarrow> request_fn" where
  "DS_requestOrReleaseDataConn env request run =
     (if \<not> request \<and> dsStopFn env then do { run' \<leftarrow> call True DSClientStop run; Some (0, run') }
      else (case getFirstSubscriber False (fst run) of
         None \<Rightarrow> Some (- 1, run)
       | Some subscriber \<Rightarrow>
         (case dsOpenFn env of
            None \<Rightarrow> do {
              run' \<leftarrow> DS_notifyEventToSubscriber env AGPS_EVENT_DENIED subscriber False run;
              Some (- 1, run')
            }
          | Some ret \<Rightarrow> do {
              run1 \<leftarrow> call True DSClientOpenAndStart run;
              (if ret = 6
               then (let sm = (fst run1)\<lparr>mRetries := mRetries (fst run1) + 1\<rparr>; run2 = (sm, snd run1) in
                     if mRetries sm > MAX_START_DATA_CALL_RETRIES
                     then do {
                       run3 \<leftarrow> DS_notifyEventToSubscriber env AGPS_EVENT_DENIED subscriber False run2;
                       Some (ret, run3)
                     }
                     else if timer_starts env
                     then do { run3 \<leftarrow> call True Retry_Timer run2; Some (- 1, run3) }
                     else Some (ret, run2))
               else if ret = 2
               then do {
                 run2 \<leftarrow> DS_notifyEventToSubscriber env AGPS_EVENT_DENIED subscriber False run1;
                 Some (ret, run2)
               }
               else Some (ret, run1))
            })))"

text \<open>The retry timer's callback posts a new request for the first active subscriber.\<close>

definition DS_retryCallback :: "agps_env \<Rightarrow> agps_run \<Rightarrow> agps_run option" where
  "DS_retryCallback env run =
     (case getFirstSubscriber False (fst run) of
        None \<Rightarrow> Some run
      | Some subscriber \<Rightarrow> call (atlCbs env) (Send_RequestATL (mConnHandle subscriber) LOC_AGPS_TYPE_SUPL_ES) run)"

section \<open>Event processing\<close>

fun notified :: "AgpsNotificationType \<Rightarrow> AgpsSubscriber \<Rightarrow> bool" where
  "notified FOR_ALL_SUBSCRIBERS s = True"
| "notified FOR_INACTIVE_SUBSCRIBERS s = mIsInactive s"
| "notified FOR_ACTIVE_SUBSCRIBERS s = (\<not> mIsInactive s)"

text \<open>The loop of notifyAllSubscribers: \<open>kept\<close> has been passed, the last list is ahead.\<close>

fun notifyAll_loop :: "notify_fn \<Rightarrow> AgpsEvent \<Rightarrow> bool \<Rightarrow> AgpsNotificationType \<Rightarrow>
    AgpsSubscriber list \<Rightarrow> AgpsSubscriber list \<Rightarrow> agps_run \<Rightarrow> agps_run option" where
  "notifyAll_loop notify event del nt kept [] run = Some run"
| "notifyAll_loop notify event del nt kept (s # ss) run =
     (if notified nt s
      then do {
        run' \<leftarrow> notify event s False run;
        (if del
         then notifyAll_loop notify event del nt kept ss ((fst run')\<lparr>mSubscriberList := kept @ ss\<rparr>, snd run')
         else notifyAll_loop notify event del nt (kept @ [s]) ss run')
      }
      else notifyAll_loop notify event del nt (kept @ [s]) ss run)"

definition notifyAllSubscribers :: "notify_fn \<Rightarrow> AgpsEvent \<Rightarrow> bool \<Rightarrow> AgpsNotificationType \<Rightarrow> agps_run \<Rightarrow> agps_run option" where
  "notifyAllSubscribers notify event del nt run =
     notifyAll_loop notify event del nt [] (mSubscriberList (fst run)) run"

definition add_current :: "AgpsSubscriber \<Rightarrow> agps_run \<Rightarrow> agps_run" where
  "add_current cur run = (addSubscriber cur (fst run), snd run)"

definition processAgpsEventSubscribe :: "request_fn \<Rightarrow> notify_fn \<Rightarrow> agps_run \<Rightarrow> agps_run option" where
  "processAgpsEventSubscribe request notify run =
     (case mState (fst run) of
        AGPS_STATE_RELEASED \<Rightarrow> do {
          cur \<leftarrow> current (fst run);
          (r, run1) \<leftarrow> request True (add_current cur run);
          Some (if r = 0 then transitionState AGPS_STATE_PENDING run1 else run1)
        }
      | AGPS_STATE_PENDING \<Rightarrow> do { cur \<leftarrow> current (fst run); Some (add_current cur run) }
      | AGPS_STATE_ACQUIRED \<Rightarrow> do {
          cur \<leftarrow> current (fst run);
          run1 \<leftarrow> notify AGPS_EVENT_GRANTED cur False run;
          Some (add_current cur run1)
        }
      | AGPS_STATE_RELEASING \<Rightarrow> do { cur \<leftarrow> current (fst run); Some (add_current cur run) }
      | AGPS_STATE_INVALID \<Rightarrow> Some run)"

text \<open>Leaving a live connection: wait inactive for the close, or be notified and deleted.\<close>

definition leave_current :: "notify_fn \<Rightarrow> agps_run \<Rightarrow> agps_run option" where
  "leave_current notify run = do {
     cur \<leftarrow> current (fst run);
     (if mWaitForCloseComplete cur then Some (inactivate_current (fst run), snd run)
      else notify AGPS_EVENT_UNSUBSCRIBE cur True run)
   }"

definition processAgpsEventUnsubscribe :: "request_fn \<Rightarrow> notify_fn \<Rightarrow> agps_run \<Rightarrow> agps_run option" where
  "processAgpsEventUnsubscribe request notify run =
     (if mState (fst run) = AGPS_STATE_RELEASED
      then do { cur \<leftarrow> current (fst run); notify AGPS_EVENT_UNSUBSCRIBE cur False run }
      else if mState (fst run) = AGPS_STATE_PENDING \<or> mState (fst run) = AGPS_STATE_ACQUIRED
      then do {
        run1 \<leftarrow> leave_current notify run;
        (if mSubscriberList (fst run1) = []
         then do { (_, run2) \<leftarrow> request False (transitionState AGPS_STATE_RELEASED run1); Some run2 }
         else if \<not> anyActiveSubscribers (fst run1)
         then do { (_, run2) \<leftarrow> request False (transitionState AGPS_STATE_RELEASING run1); Some run2 }
         else Some run1)
      }
      else if mState (fst run) = AGPS_STATE_RELEASING
      then do {
        run1 \<leftarrow> leave_current notify run;
        Some (if mSubscriberList (fst run1) = [] then transitionState AGPS_STATE_RELEASED run1 else run1)
      }
      else Some run)"

definition processAgpsEventGranted :: "notify_fn \<Rightarrow> agps_run \<Rightarrow> agps_run option" where
  "processAgpsEventGranted notify run =
     (if mState (fst run) = AGPS_STATE_PENDING
      then notifyAllSubscribers notify AGPS_EVENT_GRANTED False FOR_ACTIVE_SUBSCRIBERS
             (transitionState AGPS_STATE_ACQUIRED run)
      else Some run)"

text \<open>The connection is gone while releasing: answer the inactive, start again for the active.\<close>

definition finish_releasing :: "request_fn \<Rightarrow> notify_fn \<Rightarrow> agps_run \<Rightarrow> agps_run option" where
  "finish_releasing request notify run = do {
     run1 \<leftarrow> notifyAllSubscribers notify AGPS_EVENT_RELEASED True FOR_INACTIVE_SUBSCRIBERS run;
     (if anyActiveSubscribers (fst run1)
      then do { (_, run2) \<leftarrow> request True (transitionState AGPS_STATE_PENDING run1); Some run2 }
      else Some (transitionState AGPS_STATE_RELEASED run1))
   }"

definition processAgpsEventReleased :: "request_fn \<Rightarrow> notify_fn \<Rightarrow> agps_run \<Rightarrow> agps_run option" where
  "processAgpsEventReleased request notify run =
     (case mState (fst run) of
        AGPS_STATE_ACQUIRED \<Rightarrow>
          notifyAllSubscribers notify AGPS_EVENT_RELEASED True FOR_ALL_SUBSCRIBERS
            (transitionState AGPS_STATE_RELEASED run)
      | AGPS_STATE_RELEASING \<Rightarrow> finish_releasing request notify run
      | _ \<Rightarrow> Some run)"

definition processAgpsEventDenied :: "request_fn \<Rightarrow> notify_fn \<Rightarrow> agps_run \<Rightarrow> agps_run option" where
  "processAgpsEventDenied request notify run =
     (case mState (fst run) of
        AGPS_STATE_RELEASING \<Rightarrow> finish_releasing request notify run
      | AGPS_STATE_PENDING \<Rightarrow>
          notifyAllSubscribers notify AGPS_EVENT_DENIED True FOR_ALL_SUBSCRIBERS
            (transitionState AGPS_STATE_RELEASED run)
      | _ \<Rightarrow> Some run)"

definition processAgpsEvent :: "request_fn \<Rightarrow> notify_fn \<Rightarrow> AgpsEvent \<Rightarrow> agps_run \<Rightarrow> agps_run option" where
  "processAgpsEvent request notify event run =
     (case event of
        AGPS_EVENT_SUBSCRIBE \<Rightarrow> processAgpsEventSubscribe request notify run
      | AGPS_EVENT_UNSUBSCRIBE \<Rightarrow> processAgpsEventUnsubscribe request notify run
      | AGPS_EVENT_GRANTED \<Rightarrow> processAgpsEventGranted notify run
      | AGPS_EVENT_RELEASED \<Rightarrow> processAgpsEventReleased request notify run
      | AGPS_EVENT_DENIED \<Rightarrow> processAgpsEventDenied request notify run
      | AGPS_EVENT_INVALID \<Rightarrow> Some run)"

definition base_processAgpsEvent :: "agps_env \<Rightarrow> AgpsEvent \<Rightarrow> agps_run \<Rightarrow> agps_run option" where
  "base_processAgpsEvent env =
     processAgpsEvent (base_requestOrReleaseDataConn env) (base_notifyEventToSubscriber env)"

definition DS_processAgpsEvent :: "agps_env \<Rightarrow> AgpsEvent \<Rightarrow> agps_run \<Rightarrow> agps_run option" where
  "DS_processAgpsEvent env event run =
     processAgpsEvent (DS_requestOrReleaseDataConn env) (DS_notifyEventToSubscriber env)
       (if event = AGPS_EVENT_RELEASED \<and> mState (fst run) = AGPS_STATE_PENDING then AGPS_EVENT_DENIED else event) run"

section \<open>The manager\<close>

record AgpsManager =
  mAgnssNif :: "AgpsStateMachine option"
  mInternetNif :: "AgpsStateMachine option"
  mDsNif :: "AgpsStateMachine option"
  agps_log :: "agps_out list"

definition new_manager :: AgpsManager where
  "new_manager = \<lparr>mAgnssNif = None, mInternetNif = None, mDsNif = None, agps_log = []\<rparr>"

text \<open>Which machine a pointer returned by getAgpsStateMachine designates.\<close>

datatype nif = Agnss_Nif | Internet_Nif | Ds_Nif

fun get_nif :: "nif \<Rightarrow> AgpsManager \<Rightarrow> AgpsStateMachine option" where
  "get_nif Agnss_Nif m = mAgnssNif m"
| "get_nif Internet_Nif m = mInternetNif m"
| "get_nif Ds_Nif m = mDsNif m"

fun put_nif :: "nif \<Rightarrow> agps_run \<Rightarrow> AgpsManager \<Rightarrow> AgpsManager" where
  "put_nif Agnss_Nif run m = m\<lparr>mAgnssNif := Some (fst run), agps_log := snd run\<rparr>"
| "put_nif Internet_Nif run m = m\<lparr>mInternetNif := Some (fst run), agps_log := snd run\<rparr>"
| "put_nif Ds_Nif run m = m\<lparr>mDsNif := Some (fst run), agps_log := snd run\<rparr>"

text \<open>The virtual processAgpsEvent on the designated machine; abnormal on NULL.\<close>

definition process_nif :: "agps_env \<Rightarrow> nif \<Rightarrow> AgpsEvent \<Rightarrow> AgpsManager \<Rightarrow> AgpsManager option" where
  "process_nif env n event m = do {
     sm \<leftarrow> get_nif n m;
     run \<leftarrow> (if n = Ds_Nif then DS_processAgpsEvent else base_processAgpsEvent) env event (sm, agps_log m);
     Some (put_nif n run m)
   }"

definition agpsCapable :: "agps_env \<Rightarrow> bool" where
  "agpsCapable env \<longleftrightarrow> bit (CAPABILITIES env) 2 \<or> bit (CAPABILITIES env) 1"

definition createAgpsStateMachines :: "agps_env \<Rightarrow> AgpsManager \<Rightarrow> AgpsManager" where
  "createAgpsStateMachines env m =
     (let m1 = (if mInternetNif m = None then m\<lparr>mInternetNif := Some (new_sm LOC_AGPS_TYPE_WWAN_ANY)\<rparr> else m) in
      if agpsCapable env
      then (let m2 = (if mAgnssNif m1 = None then m1\<lparr>mAgnssNif := Some (new_sm LOC_AGPS_TYPE_SUPL)\<rparr> else m1) in
            if mDsNif m2 = None \<and> USE_EMERGENCY_PDN env
            then (case dsInitFn env of
                    None \<Rightarrow> m2
                  | Some r \<Rightarrow>
                      (let m3 = m2\<lparr>agps_log := agps_log m2 @ [DSClientInit False]\<rparr> in
                       if r \<noteq> 0 then m3 else m3\<lparr>mDsNif := Some (new_sm LOC_AGPS_TYPE_SUPL_ES)\<rparr>))
            else m2)
      else m1)"

text \<open>LOC_AGPS_TYPE_INVALID is -1; all types but SUPL and SUPL_ES use the internet machine.\<close>

definition getAgpsStateMachine :: "agps_env \<Rightarrow> int \<Rightarrow> AgpsManager \<Rightarrow> nif \<times> AgpsManager" where
  "getAgpsStateMachine env agpsType m =
     (if agpsType = - 1 \<or> agpsType = LOC_AGPS_TYPE_SUPL then (Agnss_Nif, m)
      else if agpsType = LOC_AGPS_TYPE_SUPL_ES
      then (if USE_EMERGENCY_PDN env
            then (Ds_Nif, if mDsNif m = None then createAgpsStateMachines env m else m)
            else (Agnss_Nif, m))
      else (Internet_Nif, m))"

definition set_current :: "nif \<Rightarrow> current_subscriber \<Rightarrow> AgpsManager \<Rightarrow> AgpsManager option" where
  "set_current n cur m = do {
     sm \<leftarrow> get_nif n m;
     Some (put_nif n (sm\<lparr>mCurrentSubscriber := cur\<rparr>, agps_log m) m)
   }"

definition requestATL :: "agps_env \<Rightarrow> int \<Rightarrow> int \<Rightarrow> AgpsManager \<Rightarrow> AgpsManager option" where
  "requestATL env connHandle agpsType m =
     (let (n, m1) = getAgpsStateMachine env agpsType m in
      if get_nif n m1 = None
      then (if atlCbs env
            then Some (m1\<lparr>agps_log := agps_log m1 @ [AtlOpenStatus connHandle 0 None 0 agpsType]\<rparr>)
            else None)
      else do {
        m2 \<leftarrow> set_current n (Cur_Local \<lparr>mConnHandle = connHandle,
                mWaitForCloseComplete = (agpsType = LOC_AGPS_TYPE_SUPL_ES), mIsInactive = False\<rparr>) m1;
        process_nif env n AGPS_EVENT_SUBSCRIBE m2
      })"

definition has_subscriber :: "int \<Rightarrow> AgpsStateMachine option \<Rightarrow> bool" where
  "has_subscriber h sm = (case sm of None \<Rightarrow> False | Some s \<Rightarrow> getSubscriber h s \<noteq> None)"

definition releaseATL :: "agps_env \<Rightarrow> int \<Rightarrow> AgpsManager \<Rightarrow> AgpsManager option" where
  "releaseATL env connHandle m =
     (case (if has_subscriber connHandle (mAgnssNif m) then Some Agnss_Nif
            else if has_subscriber connHandle (mInternetNif m) then Some Internet_Nif
            else if has_subscriber connHandle (mDsNif m) then Some Ds_Nif else None) of
        None \<Rightarrow> (if atlCbs env then Some (m\<lparr>agps_log := agps_log m @ [AtlCloseStatus connHandle 0]\<rparr>) else None)
      | Some n \<Rightarrow> do {
          m1 \<leftarrow> set_current n (Cur_Listed connHandle) m;
          process_nif env n AGPS_EVENT_UNSUBSCRIBE m1
        })"

definition reportDataCallOpened :: "agps_env \<Rightarrow> AgpsManager \<Rightarrow> AgpsManager option" where
  "reportDataCallOpened env m =
     (if mDsNif m \<noteq> None then process_nif env Ds_Nif AGPS_EVENT_GRANTED m else Some m)"

definition reportDataCallClosed :: "agps_env \<Rightarrow> AgpsManager \<Rightarrow> AgpsManager option" where
  "reportDataCallClosed env m =
     (if mDsNif m \<noteq> None then process_nif env Ds_Nif AGPS_EVENT_RELEASED m else Some m)"

definition reportAtlOpenSuccess ::
    "agps_env \<Rightarrow> int \<Rightarrow> string option \<Rightarrow> nat \<Rightarrow> int \<Rightarrow> AgpsManager \<Rightarrow> AgpsManager option" where
  "reportAtlOpenSuccess env agpsType apnName apnLen bearerType m =
     (let (n, m1) = getAgpsStateMachine env agpsType m in do {
        sm \<leftarrow> get_nif n m1;
        process_nif env n AGPS_EVENT_GRANTED
          (put_nif n (setAPN apnName apnLen (sm\<lparr>mBearer := bearerType\<rparr>), agps_log m1) m1)
      })"

definition reportAtlOpenFailed :: "agps_env \<Rightarrow> int \<Rightarrow> AgpsManager \<Rightarrow> AgpsManager option" where
  "reportAtlOpenFailed env agpsType m =
     (let (n, m1) = getAgpsStateMachine env agpsType m in process_nif env n AGPS_EVENT_DENIED m1)"

definition reportAtlClosed :: "agps_env \<Rightarrow> int \<Rightarrow> AgpsManager \<Rightarrow> AgpsManager option" where
  "reportAtlClosed env agpsType m =
     (let (n, m1) = getAgpsStateMachine env agpsType m in process_nif env n AGPS_EVENT_RELEASED m1)"

text \<open>After a modem restart; the four DS functions are called without a check.\<close>

definition handleModemSSR :: "agps_env \<Rightarrow> AgpsManager \<Rightarrow> AgpsManager option" where
  "handleModemSSR env m =
     (let m1 = m\<lparr>mAgnssNif := map_option dropAllSubscribers (mAgnssNif m),
                 mInternetNif := map_option dropAllSubscribers (mInternetNif m),
                 mDsNif := map_option dropAllSubscribers (mDsNif m)\<rparr> in
      if USE_EMERGENCY_PDN env
      then (if dsStopFn env \<and> dsCloseFn env \<and> dsReleaseFn env \<and> dsInitFn env \<noteq> None
            then Some (m1\<lparr>agps_log := agps_log m1 @ [DSClientStop, DSClientClose, DSClientRelease, DSClientInit True]\<rparr>)
            else None)
      else Some m1)"

text \<open>The retry timer of the DS machine fires.\<close>

definition retryCallback :: "agps_env \<Rightarrow> AgpsManager \<Rightarrow> AgpsManager option" where
  "retryCallback env m = do {
     sm \<leftarrow> mDsNif m;
     run \<leftarrow> DS_retryCallback env (sm, agps_log m);
     Some (put_nif Ds_Nif run m)
   }"

section \<open>The contract of the virtual methods\<close>

text \<open>The outputs that answer the request of a handle.\<close>

fun told :: "int \<Rightarrow> agps_out \<Rightarrow> bool" where
  "told h (AtlOpenStatus h' ok apn bearer t) = (h = h')"
| "told h (AtlCloseStatus h' ok) = (h = h')"
| "told h (Send_RequestATL h' t) = (h = h')"
| "told h _ = False"

definition tells :: "AgpsEvent \<Rightarrow> bool" where
  "tells event \<longleftrightarrow> event \<in> {AGPS_EVENT_GRANTED, AGPS_EVENT_DENIED, AGPS_EVENT_UNSUBSCRIBE, AGPS_EVENT_RELEASED}"

text \<open>The log only grows; \<open>grown P\<close> says the new entries satisfy \<open>P\<close>.\<close>

definition grown :: "(agps_out list \<Rightarrow> bool) \<Rightarrow> agps_run \<Rightarrow> agps_run \<Rightarrow> bool" where
  "grown P run run' \<longleftrightarrow> (\<exists>new. snd run' = snd run @ new \<and> P new)"

definition answers :: "int set \<Rightarrow> agps_out list \<Rightarrow> bool" where
  "answers H new \<longleftrightarrow> (\<forall>h\<in>H. \<exists>x\<in>set new. told h x)"

lemma grown_refl: "P [] \<Longrightarrow> grown P run run"
  by (simp add: grown_def)

lemma grown_answers_trans:
  "grown (answers A) r1 r2 \<Longrightarrow> grown (answers B) r2 r3 \<Longrightarrow> C \<subseteq> A \<union> B \<Longrightarrow> grown (answers C) r1 r3"
  unfolding grown_def answers_def by (elim exE conjE, rule_tac x = "new @ newa" in exI) fastforce

lemma grown_answers_mono: "grown (answers A) r1 r2 \<Longrightarrow> B \<subseteq> A \<Longrightarrow> grown (answers B) r1 r2"
  by (auto simp: grown_def answers_def)

text \<open>Two states of a machine that agree on what the event processing decides on.\<close>

definition same_sm :: "AgpsStateMachine \<Rightarrow> AgpsStateMachine \<Rightarrow> bool" where
  "same_sm sm sm' \<longleftrightarrow> mState sm' = mState sm \<and> mCurrentSubscriber sm' = mCurrentSubscriber sm"

locale agps_hooks =
  fixes request :: request_fn and notify :: notify_fn
  assumes request_law: "request b run = Some (r, run') \<Longrightarrow>
      same_sm (fst run) (fst run') \<and> mSubscriberList (fst run') = mSubscriberList (fst run) \<and>
      grown (answers {}) run run'"
    and notify_law: "notify event s del run = Some run' \<Longrightarrow>
      same_sm (fst run) (fst run') \<and>
      mSubscriberList (fst run') =
        (if del then filter (\<lambda>x. \<not> equals x s) (mSubscriberList (fst run)) else mSubscriberList (fst run)) \<and>
      grown (answers (if tells event then {mConnHandle s} else {})) run run'"
begin

lemma notifyAll_loop_law:
  assumes "notifyAll_loop notify event del nt kept ss run = Some run'"
    and "mSubscriberList (fst run) = kept @ ss"
  shows "same_sm (fst run) (fst run') \<and>
    mSubscriberList (fst run') = kept @ (if del then filter (\<lambda>s. \<not> notified nt s) ss else ss) \<and>
    grown (answers (if tells event then mConnHandle ` {s \<in> set ss. notified nt s} else {})) run run'"
  using assms
proof (induction ss arbitrary: kept run)
  case Nil
  then show ?case by (auto simp: same_sm_def grown_def answers_def)
next
  case (Cons s ss)
  show ?case
  proof (cases "notified nt s")
    case False
    with Cons.prems have "notifyAll_loop notify event del nt (kept @ [s]) ss run = Some run'"
      "mSubscriberList (fst run) = (kept @ [s]) @ ss" by simp_all
    from Cons.IH [OF this] have I: "same_sm (fst run) (fst run')"
      "mSubscriberList (fst run') = (kept @ [s]) @ (if del then filter (\<lambda>s. \<not> notified nt s) ss else ss)"
      "grown (answers (if tells event then mConnHandle ` {s \<in> set ss. notified nt s} else {})) run run'" by auto
    from I(3) have "grown (answers (if tells event then mConnHandle ` {x \<in> set (s # ss). notified nt x} else {})) run run'"
      by (rule grown_answers_mono) (use False in auto)
    with I(1,2) False show ?thesis by simp
  next
    case True
    with Cons.prems(1) obtain r1 where r1: "notify event s False run = Some r1"
      by (auto simp: Option.bind_eq_Some_conv)
    define r2 where "r2 = (if del then ((fst r1)\<lparr>mSubscriberList := kept @ ss\<rparr>, snd r1) else r1)"
    define kept' where "kept' = (if del then kept else kept @ [s])"
    from notify_law [OF r1] have N: "same_sm (fst run) (fst r1)" "mSubscriberList (fst r1) = mSubscriberList (fst run)"
      "grown (answers (if tells event then {mConnHandle s} else {})) run r1" by simp_all
    have "notifyAll_loop notify event del nt kept' ss r2 = Some run'"
      using Cons.prems(1) True r1 by (simp add: r2_def kept'_def split: if_splits)
    moreover have "mSubscriberList (fst r2) = kept' @ ss"
      using N(2) Cons.prems(2) by (simp add: r2_def kept'_def)
    ultimately have I: "same_sm (fst r2) (fst run')"
      "mSubscriberList (fst run') = kept' @ (if del then filter (\<lambda>s. \<not> notified nt s) ss else ss)"
      "grown (answers (if tells event then mConnHandle ` {s \<in> set ss. notified nt s} else {})) r2 run'"
      using Cons.IH [of kept' r2] by auto
    have "grown (answers (if tells event then {mConnHandle s} else {})) run r2"
      using N(3) by (cases "tells event") (simp_all add: r2_def grown_def)
    then have "grown (answers (if tells event then mConnHandle ` {x \<in> set (s # ss). notified nt x} else {})) run run'"
      by (rule grown_answers_trans [OF _ I(3)]) auto
    moreover have "same_sm (fst run) (fst run')" using N(1) I(1) by (simp add: same_sm_def r2_def split: if_splits)
    ultimately show ?thesis using I(2) True by (simp add: kept'_def)
  qed
qed

lemma notifyAll_law:
  assumes "notifyAllSubscribers notify event del nt run = Some run'"
  shows "same_sm (fst run) (fst run')"
    "mSubscriberList (fst run') =
       (if del then filter (\<lambda>s. \<not> notified nt s) (mSubscriberList (fst run)) else mSubscriberList (fst run))"
    "grown (answers (if tells event then mConnHandle ` {s \<in> set (mSubscriberList (fst run)). notified nt s} else {})) run run'"
  using notifyAll_loop_law [of event del nt "[]" "mSubscriberList (fst run)" run run'] assms
  by (simp_all add: notifyAllSubscribers_def)

end

section \<open>The invariant of a machine\<close>

definition sm_inv :: "AgpsStateMachine \<Rightarrow> bool" where
  "sm_inv sm \<longleftrightarrow> distinct (map mConnHandle (mSubscriberList sm)) \<and> mState sm \<noteq> AGPS_STATE_INVALID \<and>
     (mState sm = AGPS_STATE_RELEASED \<longrightarrow> list_all (\<lambda>s. \<not> mIsInactive s) (mSubscriberList sm)) \<and>
     (mState sm = AGPS_STATE_PENDING \<or> mState sm = AGPS_STATE_ACQUIRED \<longrightarrow> anyActiveSubscribers sm) \<and>
     (mState sm = AGPS_STATE_RELEASING \<longrightarrow> mSubscriberList sm \<noteq> [])"

text \<open>What the manager establishes before an event: the current subscriber is a fresh active object
  or an element of the list.\<close>

definition event_ok :: "AgpsEvent \<Rightarrow> AgpsStateMachine \<Rightarrow> bool" where
  "event_ok event sm = (case event of
     AGPS_EVENT_SUBSCRIBE \<Rightarrow> (case mCurrentSubscriber sm of Cur_Local s \<Rightarrow> \<not> mIsInactive s | _ \<Rightarrow> False)
   | AGPS_EVENT_UNSUBSCRIBE \<Rightarrow>
       (case mCurrentSubscriber sm of Cur_Listed h \<Rightarrow> getSubscriber h sm \<noteq> None | _ \<Rightarrow> False)
   | _ \<Rightarrow> True)"

lemma handles_inactivate [simp]: "map mConnHandle (inactivate_first h ss) = map mConnHandle ss"
  by (induction ss) auto

lemma inactivate_first_Nil [simp]: "inactivate_first h ss = [] \<longleftrightarrow> ss = []"
  by (cases ss) auto

lemma find_handle: "find (\<lambda>s. mConnHandle s = h) ss = Some c \<Longrightarrow> c \<in> set ss \<and> mConnHandle c = h"
  by (induction ss) (auto split: if_splits)

lemma distinct_add: "distinct (map mConnHandle (mSubscriberList sm)) \<Longrightarrow>
    distinct (map mConnHandle (mSubscriberList (addSubscriber c sm)))"
  by (auto simp: addSubscriber_def equals_def list_ex_iff)

lemma addSubscriber_same [simp]:
  "mState (addSubscriber c sm) = mState sm" "mCurrentSubscriber (addSubscriber c sm) = mCurrentSubscriber sm"
  by (simp_all add: addSubscriber_def)

lemma addSubscriber_set:
  "set (mSubscriberList sm) \<subseteq> set (mSubscriberList (addSubscriber c sm))"
  "set (mSubscriberList (addSubscriber c sm)) \<subseteq> insert c (set (mSubscriberList sm))"
  "mSubscriberList (addSubscriber c sm) \<noteq> []"
  by (auto simp: addSubscriber_def list_ex_iff)

lemma anyActive_iff: "anyActiveSubscribers sm \<longleftrightarrow> (\<exists>s\<in>set (mSubscriberList sm). \<not> mIsInactive s)"
  by (simp add: anyActiveSubscribers_def list_ex_iff)

lemma transition_simps [simp]:
  "mState (fst (transitionState st run)) = st" "snd (transitionState st run) = snd run"
  "mSubscriberList (fst (transitionState st run)) = mSubscriberList (fst run)"
  "mCurrentSubscriber (fst (transitionState st run)) = mCurrentSubscriber (fst run)"
  "anyActiveSubscribers (fst (transitionState st run)) = anyActiveSubscribers (fst run)"
  by (simp_all add: transitionState_def anyActiveSubscribers_def)

lemma grown_transition [simp]:
  "grown P (transitionState st run) run' = grown P run run'" "grown P run (transitionState st run') = grown P run run'"
  by (simp_all add: grown_def)

lemma add_current_simps [simp]:
  "mState (fst (add_current c run)) = mState (fst run)" "snd (add_current c run) = snd run"
  "mSubscriberList (fst (add_current c run)) = mSubscriberList (addSubscriber c (fst run))"
  by (simp_all add: add_current_def)

lemma sm_inv_keep:
  assumes "sm_inv sm" and "same_sm sm sm'" and "mSubscriberList sm' = mSubscriberList sm"
  shows "sm_inv sm'"
  using assms by (simp add: sm_inv_def same_sm_def anyActiveSubscribers_def)

lemma sm_inv_add:
  assumes "sm_inv sm" and "\<not> mIsInactive c"
  shows "sm_inv (addSubscriber c sm)"
  using assms distinct_add [of sm c] addSubscriber_set [where sm = sm and c = c]
  unfolding sm_inv_def anyActive_iff list_all_iff by auto

text \<open>The handles a step dropped have been answered.\<close>

definition dropped :: "AgpsStateMachine \<Rightarrow> AgpsStateMachine \<Rightarrow> int set" where
  "dropped sm sm' = mConnHandle ` set (mSubscriberList sm) - mConnHandle ` set (mSubscriberList sm')"

lemma unchanged_law: "grown (answers (dropped (fst run) (fst run))) run run"
  by (simp add: grown_def answers_def dropped_def)

context agps_hooks
begin

lemma subscribe_law:
  assumes "processAgpsEventSubscribe request notify run = Some run'" and "sm_inv (fst run)"
    and "event_ok AGPS_EVENT_SUBSCRIBE (fst run)"
  shows "sm_inv (fst run') \<and> grown (answers {}) run run' \<and> dropped (fst run) (fst run') = {}"
proof -
  obtain c where c: "mCurrentSubscriber (fst run) = Cur_Local c" "\<not> mIsInactive c"
    using assms(3) by (auto simp: event_ok_def split: current_subscriber.splits)
  then have cur: "current (fst run) = Some c" by (simp add: current_def)
  have add: "sm_inv (fst (add_current c run))" "grown (answers {}) run (add_current c run)"
    using sm_inv_add [OF assms(2) c(2)] by (simp_all add: add_current_def grown_def answers_def)
  have keep: "dropped (fst run) sm' = {}" if "mSubscriberList sm' = mSubscriberList (addSubscriber c (fst run))" for sm'
    using that addSubscriber_set(1) [where sm = "fst run" and c = c] by (auto simp: dropped_def)
  show ?thesis
  proof (cases "mState (fst run)")
    case AGPS_STATE_RELEASED
    with assms(1) cur obtain r run1 where r: "request True (add_current c run) = Some (r, run1)"
      "run' = (if r = 0 then transitionState AGPS_STATE_PENDING run1 else run1)"
      by (auto simp: processAgpsEventSubscribe_def Option.bind_eq_Some_conv)
    note R = request_law [OF r(1)]
    have "sm_inv (fst run1)" using R add(1) sm_inv_keep by blast
    moreover have "anyActiveSubscribers (fst run1)"
      using R calculation addSubscriber_set(3) [where sm = "fst run" and c = c] AGPS_STATE_RELEASED
      unfolding sm_inv_def same_sm_def anyActive_iff list_all_iff
      by simp (metis last_in_set)
    ultimately have "sm_inv (fst run')"
      using r(2) by (auto simp: sm_inv_def)
    moreover have "grown (answers {}) run run'"
      using R r(2) by (auto simp: grown_def)
    moreover have "mSubscriberList (fst run') = mSubscriberList (addSubscriber c (fst run))"
      using R r(2) by simp
    ultimately show ?thesis using keep by blast
  next
    case AGPS_STATE_ACQUIRED
    with assms(1) cur obtain run1 where r: "notify AGPS_EVENT_GRANTED c False run = Some run1"
      "run' = add_current c run1"
      by (auto simp: processAgpsEventSubscribe_def Option.bind_eq_Some_conv)
    from notify_law [OF r(1)] have N: "same_sm (fst run) (fst run1)"
      "mSubscriberList (fst run1) = mSubscriberList (fst run)" "grown (answers {}) run run1"
      by (auto elim: grown_answers_mono)
    have "sm_inv (fst run1)" using sm_inv_keep [OF assms(2) N(1,2)] .
    then have "sm_inv (fst run')" using sm_inv_add [OF _ c(2)] r(2) by (simp add: add_current_def)
    moreover have "grown (answers {}) run run'" using N(3) r(2) by (simp add: grown_def)
    moreover have "dropped (fst run) (fst run') = {}"
      using addSubscriber_set(1) [where sm = "fst run1" and c = c] N(2) r(2) by (auto simp: dropped_def)
    ultimately show ?thesis by simp
  qed (use assms cur add keep in \<open>auto simp: processAgpsEventSubscribe_def sm_inv_def\<close>)
qed

lemma leave_law:
  assumes "leave_current notify run = Some run1" and "sm_inv (fst run)" and "event_ok AGPS_EVENT_UNSUBSCRIBE (fst run)"
  shows "mState (fst run1) = mState (fst run) \<and> distinct (map mConnHandle (mSubscriberList (fst run1))) \<and>
    grown (answers (dropped (fst run) (fst run1))) run run1"
proof -
  obtain h c where h: "mCurrentSubscriber (fst run) = Cur_Listed h" "getSubscriber h (fst run) = Some c"
    using assms(3) by (auto simp: event_ok_def split: current_subscriber.splits)
  then have cur: "current (fst run) = Some c" by (simp add: current_def)
  have d: "distinct (map mConnHandle (mSubscriberList (fst run)))" using assms(2) by (simp add: sm_inv_def)
  show ?thesis
  proof (cases "mWaitForCloseComplete c")
    case True
    with assms(1) cur h have r: "run1 = (inactivate_current (fst run), snd run)" by (simp add: leave_current_def)
    have hs: "map mConnHandle (mSubscriberList (fst run1)) = map mConnHandle (mSubscriberList (fst run))"
      using h by (simp add: r inactivate_current_def)
    then have "dropped (fst run) (fst run1) = {}"
      unfolding dropped_def by (metis Diff_cancel list.set_map)
    with d hs h show ?thesis by (simp add: r inactivate_current_def grown_def answers_def)
  next
    case False
    with assms(1) cur have r: "notify AGPS_EVENT_UNSUBSCRIBE c True run = Some run1" by (simp add: leave_current_def)
    from notify_law [OF r] have N: "same_sm (fst run) (fst run1)"
      "mSubscriberList (fst run1) = filter (\<lambda>x. \<not> equals x c) (mSubscriberList (fst run))"
      "grown (answers {mConnHandle c}) run run1" by (simp_all add: tells_def)
    have "dropped (fst run) (fst run1) \<subseteq> {mConnHandle c}"
      unfolding dropped_def N(2) by (auto simp: equals_def)
    with N(3) have "grown (answers (dropped (fst run) (fst run1))) run run1" by (rule grown_answers_mono)
    moreover have "distinct (map mConnHandle (mSubscriberList (fst run1)))"
      using d N(2) by (simp add: distinct_map_filter)
    ultimately show ?thesis using N(1) by (simp add: same_sm_def)
  qed
qed

lemma live_unsubscribe:
  assumes "processAgpsEventUnsubscribe request notify run = Some run'" and "sm_inv (fst run)"
    and "event_ok AGPS_EVENT_UNSUBSCRIBE (fst run)"
    and live: "mState (fst run) = AGPS_STATE_PENDING \<or> mState (fst run) = AGPS_STATE_ACQUIRED"
  shows "sm_inv (fst run') \<and> grown (answers (dropped (fst run) (fst run'))) run run'"
proof -
  from assms(1) live obtain run1 where r: "leave_current notify run = Some run1"
    "(if mSubscriberList (fst run1) = []
      then do { (_, run2) \<leftarrow> request False (transitionState AGPS_STATE_RELEASED run1); Some run2 }
      else if \<not> anyActiveSubscribers (fst run1)
      then do { (_, run2) \<leftarrow> request False (transitionState AGPS_STATE_RELEASING run1); Some run2 }
      else Some run1) = Some run'"
    by (auto simp: processAgpsEventUnsubscribe_def Option.bind_eq_Some_conv)
  note L = leave_law [OF r(1) assms(2,3)]
  show ?thesis
  proof (cases "mSubscriberList (fst run1) \<noteq> [] \<and> anyActiveSubscribers (fst run1)")
    case True
    with r(2) have "run' = run1" by simp
    with L True live show ?thesis by (auto simp: sm_inv_def)
  next
    case False
    define st where "st = (if mSubscriberList (fst run1) = [] then AGPS_STATE_RELEASED else AGPS_STATE_RELEASING)"
    from False r(2) obtain a where a: "request False (transitionState st run1) = Some (a, run')"
      by (auto simp: st_def Option.bind_eq_Some_conv split: if_splits)
    from request_law [OF a] have R: "mState (fst run') = st" "mSubscriberList (fst run') = mSubscriberList (fst run1)"
      "grown (answers {}) run1 run'" by (simp_all add: same_sm_def)
    have "sm_inv (fst run')" using L R(1,2) by (auto simp: sm_inv_def st_def)
    moreover have "dropped (fst run) (fst run') = dropped (fst run) (fst run1)" by (simp add: dropped_def R(2))
    moreover have "grown (answers (dropped (fst run) (fst run1))) run run'"
      by (rule grown_answers_trans [of "dropped (fst run) (fst run1)" run run1 "{}"]) (use L R(3) in auto)
    ultimately show ?thesis by simp
  qed
qed

lemma unsubscribe_law:
  assumes "processAgpsEventUnsubscribe request notify run = Some run'" and "sm_inv (fst run)"
    and "event_ok AGPS_EVENT_UNSUBSCRIBE (fst run)"
  shows "sm_inv (fst run') \<and> grown (answers (dropped (fst run) (fst run'))) run run'"
proof (cases "mState (fst run)")
  case AGPS_STATE_RELEASED
  with assms(1) obtain c where r: "notify AGPS_EVENT_UNSUBSCRIBE c False run = Some run'"
    by (auto simp: processAgpsEventUnsubscribe_def Option.bind_eq_Some_conv)
  from notify_law [OF r] have N: "same_sm (fst run) (fst run')" "mSubscriberList (fst run') = mSubscriberList (fst run)"
    "grown (answers {mConnHandle c}) run run'" by (simp_all add: tells_def)
  have "grown (answers (dropped (fst run) (fst run'))) run run'"
    by (rule grown_answers_mono [OF N(3)]) (simp add: dropped_def N(2))
  with sm_inv_keep [OF assms(2) N(1,2)] show ?thesis by simp
next
  case AGPS_STATE_RELEASING
  with assms(1) obtain run1 where r: "leave_current notify run = Some run1"
    "run' = (if mSubscriberList (fst run1) = [] then transitionState AGPS_STATE_RELEASED run1 else run1)"
    by (auto simp: processAgpsEventUnsubscribe_def Option.bind_eq_Some_conv)
  note L = leave_law [OF r(1) assms(2,3)]
  have "dropped (fst run) (fst run') = dropped (fst run) (fst run1)" using r(2) by (simp add: dropped_def)
  with L r(2) AGPS_STATE_RELEASING show ?thesis by (auto simp: sm_inv_def)
next
  case AGPS_STATE_INVALID
  with assms(2) show ?thesis by (simp add: sm_inv_def)
next
  case live: AGPS_STATE_PENDING
  show ?thesis using assms live_unsubscribe by (simp add: live)
next
  case live: AGPS_STATE_ACQUIRED
  show ?thesis using assms live_unsubscribe by (simp add: live)
qed

lemma granted_law:
  assumes "processAgpsEventGranted notify run = Some run'" and "sm_inv (fst run)"
  shows "sm_inv (fst run') \<and> grown (answers (dropped (fst run) (fst run'))) run run'"
proof (cases "mState (fst run) = AGPS_STATE_PENDING")
  case False
  with assms show ?thesis by (simp add: processAgpsEventGranted_def grown_def answers_def dropped_def)
next
  case True
  with assms(1) have r: "notifyAllSubscribers notify AGPS_EVENT_GRANTED False FOR_ACTIVE_SUBSCRIBERS
      (transitionState AGPS_STATE_ACQUIRED run) = Some run'" by (simp add: processAgpsEventGranted_def)
  note N = notifyAll_law [OF r]
  have "sm_inv (fst (transitionState AGPS_STATE_ACQUIRED run))" using assms(2) True by (simp add: sm_inv_def)
  from sm_inv_keep [OF this N(1)] N(2) have "sm_inv (fst run')" by simp
  moreover have "dropped (fst run) (fst run') = {}" using N(2) by (simp add: dropped_def)
  moreover have "grown (answers {}) run run'" using grown_answers_mono [OF N(3)] by simp
  ultimately show ?thesis by simp
qed

text \<open>Once every subscriber is dropped, each has been answered.\<close>

lemma drop_all_law:
  assumes "notifyAllSubscribers notify event True FOR_ALL_SUBSCRIBERS (transitionState AGPS_STATE_RELEASED run) = Some run'"
    and "tells event"
  shows "sm_inv (fst run') \<and> grown (answers (dropped (fst run) (fst run'))) run run'"
proof -
  note N = notifyAll_law [OF assms(1)]
  have "mSubscriberList (fst run') = []" using N(2) by simp
  moreover have "mState (fst run') = AGPS_STATE_RELEASED" using N(1) by (simp add: same_sm_def)
  moreover have "grown (answers (mConnHandle ` set (mSubscriberList (fst run)))) run run'"
    using N(3) assms(2) by simp
  ultimately show ?thesis by (simp add: sm_inv_def dropped_def)
qed

lemma finish_releasing_law:
  assumes "finish_releasing request notify run = Some run'" and "sm_inv (fst run)"
    and "mState (fst run) = AGPS_STATE_RELEASING"
  shows "sm_inv (fst run') \<and> grown (answers (dropped (fst run) (fst run'))) run run' \<and>
    mSubscriberList (fst run') = filter (\<lambda>s. \<not> mIsInactive s) (mSubscriberList (fst run))"
proof -
  from assms(1) obtain run1 where r:
    "notifyAllSubscribers notify AGPS_EVENT_RELEASED True FOR_INACTIVE_SUBSCRIBERS run = Some run1"
    "(if anyActiveSubscribers (fst run1)
      then do { (_, run2) \<leftarrow> request True (transitionState AGPS_STATE_PENDING run1); Some run2 }
      else Some (transitionState AGPS_STATE_RELEASED run1)) = Some run'"
    by (auto simp: finish_releasing_def Option.bind_eq_Some_conv)
  note N = notifyAll_law [OF r(1)]
  have l: "mSubscriberList (fst run1) = filter (\<lambda>s. \<not> mIsInactive s) (mSubscriberList (fst run))" using N(2) by simp
  have "dropped (fst run) (fst run1) \<subseteq> mConnHandle ` {s \<in> set (mSubscriberList (fst run)). notified FOR_INACTIVE_SUBSCRIBERS s}"
    unfolding dropped_def l by auto
  with N(3) have g: "grown (answers (dropped (fst run) (fst run1))) run run1"
    by (auto simp: tells_def elim: grown_answers_mono)
  have d: "distinct (map mConnHandle (mSubscriberList (fst run1)))"
    using assms(2) l by (simp add: sm_inv_def distinct_map_filter)
  show ?thesis
  proof (cases "anyActiveSubscribers (fst run1)")
    case True
    with r(2) obtain a where a: "request True (transitionState AGPS_STATE_PENDING run1) = Some (a, run')"
      by (auto simp: Option.bind_eq_Some_conv)
    from request_law [OF a] have R: "mState (fst run') = AGPS_STATE_PENDING"
      "mSubscriberList (fst run') = mSubscriberList (fst run1)" "grown (answers {}) run1 run'" by (simp_all add: same_sm_def)
    have "sm_inv (fst run')" using d True R by (simp add: sm_inv_def anyActiveSubscribers_def)
    moreover have "dropped (fst run) (fst run') = dropped (fst run) (fst run1)" by (simp add: dropped_def R(2))
    moreover have "grown (answers (dropped (fst run) (fst run1))) run run'"
      by (rule grown_answers_trans [OF g R(3)]) simp
    ultimately show ?thesis using l R(2) by simp
  next
    case False
    with r(2) have run': "run' = transitionState AGPS_STATE_RELEASED run1" by simp
    have "mSubscriberList (fst run1) = []"
      using False unfolding anyActive_iff l by (simp add: filter_empty_conv)
    then have "sm_inv (fst run')" by (simp add: run' sm_inv_def)
    moreover have "dropped (fst run) (fst run') = dropped (fst run) (fst run1)" by (simp add: dropped_def run')
    ultimately show ?thesis using g l by (simp add: run')
  qed
qed

lemma process_law:
  assumes "processAgpsEvent request notify event run = Some run'" and "sm_inv (fst run)" and "event_ok event (fst run)"
  shows "sm_inv (fst run') \<and> grown (answers (dropped (fst run) (fst run'))) run run'"
proof (cases event)
  case AGPS_EVENT_SUBSCRIBE
  with assms subscribe_law [of run run'] show ?thesis by (simp add: processAgpsEvent_def)
next
  case AGPS_EVENT_UNSUBSCRIBE
  with assms unsubscribe_law [of run run'] show ?thesis by (simp add: processAgpsEvent_def)
next
  case AGPS_EVENT_GRANTED
  with assms granted_law [of run run'] show ?thesis by (simp add: processAgpsEvent_def)
next
  case AGPS_EVENT_RELEASED
  with assms drop_all_law [of AGPS_EVENT_RELEASED run run'] finish_releasing_law [of run run'] show ?thesis
    by (cases "mState (fst run)")
      (simp_all add: processAgpsEvent_def processAgpsEventReleased_def tells_def unchanged_law)
next
  case AGPS_EVENT_DENIED
  with assms drop_all_law [of AGPS_EVENT_DENIED run run'] finish_releasing_law [of run run'] show ?thesis
    by (cases "mState (fst run)")
      (simp_all add: processAgpsEvent_def processAgpsEventDenied_def tells_def unchanged_law)
next
  case AGPS_EVENT_INVALID
  with assms show ?thesis by (simp add: processAgpsEvent_def unchanged_law)
qed

end

section \<open>A connection that can always be requested\<close>

text \<open>When a request never fails, a released machine has no subscribers.\<close>

definition released_empty :: "AgpsStateMachine \<Rightarrow> bool" where
  "released_empty sm \<longleftrightarrow> (mState sm = AGPS_STATE_RELEASED \<longrightarrow> mSubscriberList sm = [])"

locale agps_sure_hooks = agps_hooks +
  assumes request_sure: "request True run = Some (r, run') \<Longrightarrow> r = 0"
begin

lemma finish_released:
  assumes "finish_releasing request notify run = Some run'" and "sm_inv (fst run)"
    and "mState (fst run) = AGPS_STATE_RELEASING"
  shows "released_empty (fst run')"
proof (cases "mState (fst run') = AGPS_STATE_RELEASED")
  case True
  note F = finish_releasing_law [OF assms]
  have "anyActiveSubscribers (fst run') = False"
  proof (rule ccontr)
    assume "anyActiveSubscribers (fst run') \<noteq> False"
    then have "anyActiveSubscribers (fst run')" by simp
    from assms(1) obtain run1 where r:
      "notifyAllSubscribers notify AGPS_EVENT_RELEASED True FOR_INACTIVE_SUBSCRIBERS run = Some run1"
      "(if anyActiveSubscribers (fst run1)
        then do { (_, run2) \<leftarrow> request True (transitionState AGPS_STATE_PENDING run1); Some run2 }
        else Some (transitionState AGPS_STATE_RELEASED run1)) = Some run'"
      by (auto simp: finish_releasing_def Option.bind_eq_Some_conv)
    show False
    proof (cases "anyActiveSubscribers (fst run1)")
      case A: True
      with r(2) obtain a where "request True (transitionState AGPS_STATE_PENDING run1) = Some (a, run')"
        by (auto simp: Option.bind_eq_Some_conv)
      from request_law [OF this] True show False by (simp add: same_sm_def)
    next
      case False
      with r(2) \<open>anyActiveSubscribers (fst run')\<close> show False by auto
    qed
  qed
  with F show ?thesis by (auto simp: released_empty_def anyActive_iff filter_empty_conv)
qed (simp add: released_empty_def)

lemma sure_process_law:
  assumes "processAgpsEvent request notify event run = Some run'" and "sm_inv (fst run)"
    and "event_ok event (fst run)" and "released_empty (fst run)"
  shows "released_empty (fst run')"
proof (cases event)
  case AGPS_EVENT_SUBSCRIBE
  obtain c where c: "current (fst run) = Some c"
    using assms(3) AGPS_EVENT_SUBSCRIBE by (auto simp: event_ok_def current_def split: current_subscriber.splits)
  show ?thesis
  proof (cases "mState (fst run)")
    case AGPS_STATE_RELEASED
    with assms(1) c AGPS_EVENT_SUBSCRIBE obtain r run1 where "request True (add_current c run) = Some (r, run1)"
      "run' = (if r = 0 then transitionState AGPS_STATE_PENDING run1 else run1)"
      by (auto simp: processAgpsEvent_def processAgpsEventSubscribe_def Option.bind_eq_Some_conv)
    with request_sure show ?thesis by (auto simp: released_empty_def)
  next
    case AGPS_STATE_ACQUIRED
    with assms(1) c AGPS_EVENT_SUBSCRIBE obtain run1 where "notify AGPS_EVENT_GRANTED c False run = Some run1"
      "run' = add_current c run1"
      by (auto simp: processAgpsEvent_def processAgpsEventSubscribe_def Option.bind_eq_Some_conv)
    with notify_law AGPS_STATE_ACQUIRED show ?thesis by (auto simp: released_empty_def same_sm_def)
  qed (use assms c AGPS_EVENT_SUBSCRIBE in
        \<open>auto simp: processAgpsEvent_def processAgpsEventSubscribe_def released_empty_def sm_inv_def\<close>)
next
  case AGPS_EVENT_UNSUBSCRIBE
  obtain h c where c: "mCurrentSubscriber (fst run) = Cur_Listed h" "getSubscriber h (fst run) = Some c"
    using assms(3) AGPS_EVENT_UNSUBSCRIBE by (auto simp: event_ok_def split: current_subscriber.splits)
  then have "mSubscriberList (fst run) \<noteq> []" by (auto simp: getSubscriber_def)
  then have live: "mState (fst run) \<noteq> AGPS_STATE_RELEASED" using assms(4) by (auto simp: released_empty_def)
  from assms(1) AGPS_EVENT_UNSUBSCRIBE have p: "processAgpsEventUnsubscribe request notify run = Some run'"
    by (simp add: processAgpsEvent_def)
  show ?thesis
  proof (cases "mState (fst run) = AGPS_STATE_RELEASING")
    case True
    with p obtain run1 where "leave_current notify run = Some run1"
      "run' = (if mSubscriberList (fst run1) = [] then transitionState AGPS_STATE_RELEASED run1 else run1)"
      by (auto simp: processAgpsEventUnsubscribe_def Option.bind_eq_Some_conv)
    with leave_law [of run run1] assms(2,3) AGPS_EVENT_UNSUBSCRIBE True show ?thesis by (auto simp: released_empty_def)
  next
    case False
    with live p assms(2) obtain run1 where r: "leave_current notify run = Some run1"
      "(if mSubscriberList (fst run1) = []
        then do { (_, run2) \<leftarrow> request False (transitionState AGPS_STATE_RELEASED run1); Some run2 }
        else if \<not> anyActiveSubscribers (fst run1)
        then do { (_, run2) \<leftarrow> request False (transitionState AGPS_STATE_RELEASING run1); Some run2 }
        else Some run1) = Some run'"
      by (cases "mState (fst run)") (auto simp: processAgpsEventUnsubscribe_def Option.bind_eq_Some_conv sm_inv_def)
    have L: "mState (fst run1) = mState (fst run)" using leave_law [OF r(1)] assms(2,3) AGPS_EVENT_UNSUBSCRIBE by simp
    show ?thesis
    proof (cases "mSubscriberList (fst run1) \<noteq> [] \<and> anyActiveSubscribers (fst run1)")
      case True
      with r(2) have "run' = run1" by simp
      with L live show ?thesis by (auto simp: released_empty_def)
    next
      case False
      define st where "st = (if mSubscriberList (fst run1) = [] then AGPS_STATE_RELEASED else AGPS_STATE_RELEASING)"
      from False r(2) obtain a where a: "request False (transitionState st run1) = Some (a, run')"
        by (auto simp: st_def Option.bind_eq_Some_conv split: if_splits)
      from request_law [OF a] show ?thesis by (auto simp: released_empty_def same_sm_def st_def split: if_splits)
    qed
  qed
next
  case AGPS_EVENT_GRANTED
  with assms notifyAll_law [of AGPS_EVENT_GRANTED False FOR_ACTIVE_SUBSCRIBERS "transitionState AGPS_STATE_ACQUIRED run" run']
  show ?thesis
    by (auto simp: processAgpsEvent_def processAgpsEventGranted_def released_empty_def same_sm_def split: if_splits)
next
  case AGPS_EVENT_RELEASED
  with assms notifyAll_law [of AGPS_EVENT_RELEASED True FOR_ALL_SUBSCRIBERS "transitionState AGPS_STATE_RELEASED run" run']
    finish_released [of run run']
  show ?thesis
    by (cases "mState (fst run)")
      (simp_all add: processAgpsEvent_def processAgpsEventReleased_def released_empty_def)
next
  case AGPS_EVENT_DENIED
  with assms notifyAll_law [of AGPS_EVENT_DENIED True FOR_ALL_SUBSCRIBERS "transitionState AGPS_STATE_RELEASED run" run']
    finish_released [of run run']
  show ?thesis
    by (cases "mState (fst run)")
      (simp_all add: processAgpsEvent_def processAgpsEventDenied_def released_empty_def)
next
  case AGPS_EVENT_INVALID
  with assms show ?thesis by (simp add: processAgpsEvent_def)
qed

end

section \<open>A bound on the retries\<close>

locale agps_bounded_hooks = agps_hooks +
  fixes bound :: "int \<Rightarrow> bool"
  assumes request_bound: "bound (mRetries (fst run)) \<Longrightarrow> request b run = Some (r, run') \<Longrightarrow> bound (mRetries (fst run'))"
    and notify_bound: "bound (mRetries (fst run)) \<Longrightarrow> notify event s del run = Some run' \<Longrightarrow> bound (mRetries (fst run'))"
begin

lemma loop_bound:
  "notifyAll_loop notify event del nt kept ss run = Some run' \<Longrightarrow> bound (mRetries (fst run)) \<Longrightarrow>
   bound (mRetries (fst run'))"
proof (induction ss arbitrary: kept run)
  case (Cons s ss)
  then show ?case
    by (auto simp: Option.bind_eq_Some_conv split: if_splits dest: notify_bound)
qed simp

lemma transition_retries [simp]: "mRetries (fst (transitionState st run)) = mRetries (fst run)"
  by (simp add: transitionState_def)

lemma add_retries [simp]: "mRetries (fst (add_current c run)) = mRetries (fst run)"
  by (simp add: add_current_def addSubscriber_def)

lemma leave_bound:
  "leave_current notify run = Some run' \<Longrightarrow> bound (mRetries (fst run)) \<Longrightarrow> bound (mRetries (fst run'))"
  by (auto simp: leave_current_def Option.bind_eq_Some_conv inactivate_current_def
      split: if_splits current_subscriber.splits dest: notify_bound)

lemma finish_bound:
  assumes "finish_releasing request notify run = Some run'" and "bound (mRetries (fst run))"
  shows "bound (mRetries (fst run'))"
proof -
  from assms(1) obtain run1 where r:
    "notifyAllSubscribers notify AGPS_EVENT_RELEASED True FOR_INACTIVE_SUBSCRIBERS run = Some run1"
    "(if anyActiveSubscribers (fst run1)
      then do { (_, run2) \<leftarrow> request True (transitionState AGPS_STATE_PENDING run1); Some run2 }
      else Some (transitionState AGPS_STATE_RELEASED run1)) = Some run'"
    by (auto simp: finish_releasing_def Option.bind_eq_Some_conv)
  from loop_bound [OF r(1) [unfolded notifyAllSubscribers_def] assms(2)] r(2)
  show ?thesis
    by (auto simp: Option.bind_eq_Some_conv split: if_splits dest!: request_bound [rotated])
qed

lemma unsubscribe_bound:
  assumes "processAgpsEventUnsubscribe request notify run = Some run'" and b: "bound (mRetries (fst run))"
  shows "bound (mRetries (fst run'))"
proof (cases "mState (fst run)")
  case AGPS_STATE_RELEASED
  with assms show ?thesis
    by (auto simp: processAgpsEventUnsubscribe_def Option.bind_eq_Some_conv dest: notify_bound [rotated])
next
  case AGPS_STATE_RELEASING
  with assms(1) obtain run1 where "leave_current notify run = Some run1"
    "run' = (if mSubscriberList (fst run1) = [] then transitionState AGPS_STATE_RELEASED run1 else run1)"
    by (auto simp: processAgpsEventUnsubscribe_def Option.bind_eq_Some_conv)
  with leave_bound b show ?thesis by auto
next
  case AGPS_STATE_INVALID
  with assms show ?thesis by (simp add: processAgpsEventUnsubscribe_def)
next
  case AGPS_STATE_PENDING
  with assms(1) obtain run1 where r: "leave_current notify run = Some run1"
    "run' = run1 \<or> (\<exists>st a. request False (transitionState st run1) = Some (a, run'))"
    by (auto simp: processAgpsEventUnsubscribe_def Option.bind_eq_Some_conv split: if_splits)
  from leave_bound [OF r(1) b] r(2) show ?thesis by (auto dest: request_bound [rotated])
next
  case AGPS_STATE_ACQUIRED
  with assms(1) obtain run1 where r: "leave_current notify run = Some run1"
    "run' = run1 \<or> (\<exists>st a. request False (transitionState st run1) = Some (a, run'))"
    by (auto simp: processAgpsEventUnsubscribe_def Option.bind_eq_Some_conv split: if_splits)
  from leave_bound [OF r(1) b] r(2) show ?thesis by (auto dest: request_bound [rotated])
qed

lemma process_bound:
  assumes "processAgpsEvent request notify event run = Some run'" and b: "bound (mRetries (fst run))"
  shows "bound (mRetries (fst run'))"
proof (cases event)
  case AGPS_EVENT_SUBSCRIBE
  with assms show ?thesis
    by (cases "mState (fst run)")
      (auto simp: processAgpsEvent_def processAgpsEventSubscribe_def Option.bind_eq_Some_conv split: if_splits
         dest: request_bound [rotated] notify_bound [rotated])
next
  case AGPS_EVENT_UNSUBSCRIBE
  with assms unsubscribe_bound show ?thesis by (simp add: processAgpsEvent_def)
next
  case AGPS_EVENT_GRANTED
  with assms show ?thesis
    by (auto simp: processAgpsEvent_def processAgpsEventGranted_def notifyAllSubscribers_def split: if_splits
         dest: loop_bound)
next
  case AGPS_EVENT_RELEASED
  with assms show ?thesis
    by (cases "mState (fst run)")
      (auto simp: processAgpsEvent_def processAgpsEventReleased_def notifyAllSubscribers_def dest: loop_bound finish_bound)
next
  case AGPS_EVENT_DENIED
  with assms show ?thesis
    by (cases "mState (fst run)")
      (auto simp: processAgpsEvent_def processAgpsEventDenied_def notifyAllSubscribers_def dest: loop_bound finish_bound)
next
  case AGPS_EVENT_INVALID
  with assms show ?thesis by (simp add: processAgpsEvent_def)
qed

end

section \<open>The two machines satisfy the contract\<close>

lemma deleteSubscriber_loop_fst: "fst (deleteSubscriber_loop t f ss) = filter (\<lambda>s. \<not> equals s t) ss"
  by (induction t f ss rule: deleteSubscriber_loop.induct) (auto split: prod.splits)

lemma deleteSubscriber_simps [simp]:
  "mSubscriberList (fst (deleteSubscriber s run)) = filter (\<lambda>x. \<not> equals x s) (mSubscriberList (fst run))"
  "same_sm (fst run) (fst (deleteSubscriber s run))" "mRetries (fst (deleteSubscriber s run)) = mRetries (fst run)"
  using deleteSubscriber_loop_fst [of s False "mSubscriberList (fst run)"]
  by (auto simp: deleteSubscriber_def same_sm_def split: prod.splits)

lemma deleteSubscriber_grown: "\<exists>new. snd (deleteSubscriber s run) = snd run @ new"
  by (auto simp: deleteSubscriber_def split: prod.splits)

lemma call_Some [simp]: "call r x run = Some run' \<longleftrightarrow> r \<and> run' = (fst run, snd run @ [x])"
  by (auto simp: call_def)

lemma notify_hook_law:
  assumes "fst run1 = fst run \<or> fst run1 = (fst run)\<lparr>mRetries := 0\<rparr>" and "snd run1 = snd run @ new"
    and "answers H new" and "run' = (if del then deleteSubscriber s run1 else run1)"
  shows "same_sm (fst run) (fst run') \<and>
    mSubscriberList (fst run') =
      (if del then filter (\<lambda>x. \<not> equals x s) (mSubscriberList (fst run)) else mSubscriberList (fst run)) \<and>
    grown (answers H) run run'"
proof -
  obtain new' where "snd run' = snd run1 @ new'" using assms(4) deleteSubscriber_grown [of s run1] by (cases del) auto
  then have "grown (answers H) run run'"
    using assms(2,3) by (auto simp: grown_def answers_def)
  moreover have "same_sm (fst run) (fst run1)" "mSubscriberList (fst run1) = mSubscriberList (fst run)"
    using assms(1) by (auto simp: same_sm_def)
  ultimately show ?thesis using assms(4) deleteSubscriber_simps(2) [of run1 s] by (auto simp: same_sm_def)
qed

lemma base_notify_law:
  assumes "base_notifyEventToSubscriber env event s del run = Some run'"
  shows "same_sm (fst run) (fst run') \<and>
    mSubscriberList (fst run') =
      (if del then filter (\<lambda>x. \<not> equals x s) (mSubscriberList (fst run)) else mSubscriberList (fst run)) \<and>
    grown (answers (if tells event then {mConnHandle s} else {})) run run'"
proof -
  from assms obtain run1 new where "run' = (if del then deleteSubscriber s run1 else run1)"
    "fst run1 = fst run" "snd run1 = snd run @ new" "answers (if tells event then {mConnHandle s} else {}) new"
    by (cases run; cases event) (auto simp: base_notifyEventToSubscriber_def Option.bind_eq_Some_conv tells_def answers_def)
  then show ?thesis by (intro notify_hook_law) auto
qed

lemma DS_notify_law:
  assumes "DS_notifyEventToSubscriber env event s del run = Some run'"
  shows "same_sm (fst run) (fst run') \<and>
    mSubscriberList (fst run') =
      (if del then filter (\<lambda>x. \<not> equals x s) (mSubscriberList (fst run)) else mSubscriberList (fst run)) \<and>
    grown (answers (if tells event then {mConnHandle s} else {})) run run'"
proof -
  from assms obtain run1 new where "run' = (if del then deleteSubscriber s run1 else run1)"
    "fst run1 = fst run \<or> fst run1 = (fst run)\<lparr>mRetries := 0\<rparr>" "snd run1 = snd run @ new"
    "answers (if tells event then {mConnHandle s} else {}) new"
    by (cases run; cases event) (auto simp: DS_notifyEventToSubscriber_def Option.bind_eq_Some_conv tells_def answers_def)
  then show ?thesis by (intro notify_hook_law) auto
qed

interpretation base: agps_sure_hooks "base_requestOrReleaseDataConn env" "base_notifyEventToSubscriber env" for env
proof (unfold_locales, goal_cases)
  case (1 b run r run')
  then show ?case
    by (auto simp: base_requestOrReleaseDataConn_def Option.bind_eq_Some_conv same_sm_def grown_def answers_def)
next
  case (2 event s del run run')
  then show ?case by (rule base_notify_law)
next
  case (3 run r run')
  then show ?case by (auto simp: base_requestOrReleaseDataConn_def Option.bind_eq_Some_conv)
qed

text \<open>The retries of the DS machine stay between 0 and the maximum.\<close>

definition retries_ok :: "int \<Rightarrow> bool" where
  "retries_ok n \<longleftrightarrow> 0 \<le> n \<and> n \<le> MAX_START_DATA_CALL_RETRIES"

lemma DS_notify_retries:
  "retries_ok (mRetries (fst run)) \<Longrightarrow> DS_notifyEventToSubscriber env event s del run = Some run' \<Longrightarrow>
   retries_ok (mRetries (fst run'))"
  by (cases event) (auto simp: DS_notifyEventToSubscriber_def Option.bind_eq_Some_conv retries_ok_def MAX_START_DATA_CALL_RETRIES_def)

lemma DS_denied_retries:
  "DS_notifyEventToSubscriber env AGPS_EVENT_DENIED s del run = Some run' \<Longrightarrow> mRetries (fst run') = 0"
  by (auto simp: DS_notifyEventToSubscriber_def Option.bind_eq_Some_conv)

text \<open>A request logs something that answers nobody, perhaps counts a retry, and may end in a DENIED.\<close>

definition ds_request_to :: "agps_env \<Rightarrow> agps_run \<Rightarrow> agps_run \<Rightarrow> agps_run \<Rightarrow> bool" where
  "ds_request_to env run run1 run' \<longleftrightarrow> (\<exists>new. snd run1 = snd run @ new \<and> answers {} new) \<and>
     (fst run1 = fst run \<or> fst run1 = (fst run)\<lparr>mRetries := mRetries (fst run) + 1\<rparr>) \<and>
     (run' = run1 \<and> (fst run1 = fst run \<or> mRetries (fst run) < MAX_START_DATA_CALL_RETRIES) \<or>
      (\<exists>s. DS_notifyEventToSubscriber env AGPS_EVENT_DENIED s False run1 = Some run'))"

lemma DS_request_cases:
  assumes "DS_requestOrReleaseDataConn env request run = Some (r, run')"
  shows "\<exists>run1. ds_request_to env run run1 run'"
proof -
  define sm where "sm = fst run"
  define plus where "plus = sm\<lparr>mRetries := mRetries sm + 1\<rparr>"
  show ?thesis
  proof (cases "\<not> request \<and> dsStopFn env")
    case True
    with assms show ?thesis
      by (intro exI [of _ run'])
        (auto simp: DS_requestOrReleaseDataConn_def ds_request_to_def answers_def Option.bind_eq_Some_conv)
  next
    case 1: False
    show ?thesis
    proof (cases "getFirstSubscriber False (fst run)")
      case None
      with 1 assms show ?thesis
        by (intro exI [of _ run]) (auto simp: DS_requestOrReleaseDataConn_def ds_request_to_def answers_def)
    next
      case s: (Some s)
      show ?thesis
      proof (cases "dsOpenFn env")
        case None
        with 1 s assms show ?thesis
          by (intro exI [of _ run])
            (auto simp: DS_requestOrReleaseDataConn_def ds_request_to_def answers_def Option.bind_eq_Some_conv)
      next
        case (Some ret)
        with 1 s assms have
          "run' = (sm, snd run @ [DSClientOpenAndStart]) \<or>
           DS_notifyEventToSubscriber env AGPS_EVENT_DENIED s False (sm, snd run @ [DSClientOpenAndStart]) = Some run' \<or>
           DS_notifyEventToSubscriber env AGPS_EVENT_DENIED s False (plus, snd run @ [DSClientOpenAndStart]) = Some run' \<or>
           mRetries sm < MAX_START_DATA_CALL_RETRIES \<and>
           (run' = (plus, snd run @ [DSClientOpenAndStart]) \<or> run' = (plus, snd run @ [DSClientOpenAndStart, Retry_Timer]))"
          by (auto simp: DS_requestOrReleaseDataConn_def Option.bind_eq_Some_conv Let_def sm_def plus_def split: if_splits)
        then show ?thesis
        proof (elim disjE conjE)
          assume "run' = (sm, snd run @ [DSClientOpenAndStart])"
          then show ?thesis by (intro exI [of _ run']) (auto simp: ds_request_to_def answers_def sm_def)
        next
          assume "DS_notifyEventToSubscriber env AGPS_EVENT_DENIED s False (sm, snd run @ [DSClientOpenAndStart]) = Some run'"
          then show ?thesis
            by (intro exI [of _ "(sm, snd run @ [DSClientOpenAndStart])"]) (auto simp: ds_request_to_def answers_def sm_def)
        next
          assume "DS_notifyEventToSubscriber env AGPS_EVENT_DENIED s False (plus, snd run @ [DSClientOpenAndStart]) = Some run'"
          then show ?thesis
            by (intro exI [of _ "(plus, snd run @ [DSClientOpenAndStart])"]) (auto simp: ds_request_to_def answers_def plus_def sm_def)
        next
          assume "mRetries sm < MAX_START_DATA_CALL_RETRIES" "run' = (plus, snd run @ [DSClientOpenAndStart])"
          then show ?thesis by (intro exI [of _ run']) (auto simp: ds_request_to_def answers_def plus_def sm_def)
        next
          assume "mRetries sm < MAX_START_DATA_CALL_RETRIES" "run' = (plus, snd run @ [DSClientOpenAndStart, Retry_Timer])"
          then show ?thesis by (intro exI [of _ run']) (auto simp: ds_request_to_def answers_def plus_def sm_def)
        qed
      qed
    qed
  qed
qed

lemma DS_request_law:
  assumes "DS_requestOrReleaseDataConn env request run = Some (r, run')"
  shows "same_sm (fst run) (fst run') \<and> mSubscriberList (fst run') = mSubscriberList (fst run) \<and>
    grown (answers {}) run run'"
proof -
  from DS_request_cases [OF assms] obtain run1 where r1: "ds_request_to env run run1 run'" by blast
  then have S: "same_sm (fst run) (fst run1)" "mSubscriberList (fst run1) = mSubscriberList (fst run)"
    "grown (answers {}) run run1" by (auto simp: ds_request_to_def same_sm_def grown_def)
  from r1 consider "run' = run1" | s where "DS_notifyEventToSubscriber env AGPS_EVENT_DENIED s False run1 = Some run'"
    by (auto simp: ds_request_to_def)
  then show ?thesis
  proof cases
    case 1
    with S show ?thesis by simp
  next
    case 2
    from DS_notify_law [OF 2] have N: "same_sm (fst run1) (fst run')"
      "mSubscriberList (fst run') = mSubscriberList (fst run1)" "grown (answers {}) run1 run'"
      by (auto elim: grown_answers_mono)
    from grown_answers_trans [OF S(3) N(3)] S N show ?thesis by (simp add: same_sm_def)
  qed
qed

lemma DS_request_retries:
  assumes "retries_ok (mRetries (fst run))" and "DS_requestOrReleaseDataConn env request run = Some (r, run')"
  shows "retries_ok (mRetries (fst run'))"
proof -
  from DS_request_cases [OF assms(2)] obtain run1 where "ds_request_to env run run1 run'" by blast
  then consider "run' = run1" "fst run1 = fst run"
    | "run' = run1" "mRetries (fst run) < MAX_START_DATA_CALL_RETRIES" "fst run1 = (fst run)\<lparr>mRetries := mRetries (fst run) + 1\<rparr>"
    | s where "DS_notifyEventToSubscriber env AGPS_EVENT_DENIED s False run1 = Some run'"
    by (auto simp: ds_request_to_def)
  then show ?thesis
  proof cases
    case 3
    from DS_denied_retries [OF 3] show ?thesis by (simp add: retries_ok_def MAX_START_DATA_CALL_RETRIES_def)
  qed (use assms(1) in \<open>auto simp: retries_ok_def\<close>)
qed

interpretation ds: agps_bounded_hooks "DS_requestOrReleaseDataConn env" "DS_notifyEventToSubscriber env" retries_ok for env
proof (unfold_locales, goal_cases)
  case (1 b run r run')
  then show ?case by (rule DS_request_law)
next
  case (2 event s del run run')
  then show ?case by (rule DS_notify_law)
next
  case (3 run b r run')
  then show ?case by (rule DS_request_retries)
next
  case (4 run event s del run')
  then show ?case by (rule DS_notify_retries)
qed

section \<open>The requests for the data connection\<close>

text \<open>
  The state diagram with the data-connection requests (True: request, False: release) a step
  makes on the way.
\<close>

definition conn_step :: "AgpsState \<Rightarrow> bool list \<Rightarrow> AgpsState \<Rightarrow> bool" where
  "conn_step st c st' \<longleftrightarrow>
     c = [True] \<and> st \<in> {AGPS_STATE_RELEASED, AGPS_STATE_RELEASING} \<and> st' = AGPS_STATE_PENDING \<or>
     c = [False] \<and> st \<in> {AGPS_STATE_PENDING, AGPS_STATE_ACQUIRED} \<and> st' \<in> {AGPS_STATE_RELEASED, AGPS_STATE_RELEASING} \<or>
     c = [] \<and> (st' = st \<or> st = AGPS_STATE_PENDING \<and> st' = AGPS_STATE_ACQUIRED \<or> st' = AGPS_STATE_RELEASED)"

fun framework_conn :: "agps_out \<Rightarrow> bool option" where
  "framework_conn (FrameworkStatus t b) = Some b"
| "framework_conn _ = None"

text \<open>\<open>conns c run run'\<close>: the log grew, and \<open>c\<close> are the connection requests in the new part.\<close>

definition conns :: "bool list \<Rightarrow> agps_run \<Rightarrow> agps_run \<Rightarrow> bool" where
  "conns c run run' \<longleftrightarrow> (\<exists>new. snd run' = snd run @ new \<and> List.map_filter framework_conn new = c)"

lemma conns_trans: "conns c r1 r2 \<Longrightarrow> conns d r2 r3 \<Longrightarrow> conns (c @ d) r1 r3"
  unfolding conns_def by (elim exE conjE) (rule_tac x = "new @ newa" in exI, simp add: map_filter_def)

lemma conns_refl: "conns [] run run"
  by (simp add: conns_def map_filter_def)

lemma conns_log [simp]:
  "conns c (transitionState st run) run' = conns c run run'" "conns c run (transitionState st run') = conns c run run'"
  "conns c (add_current s run) run' = conns c run run'" "conns c run (add_current s run') = conns c run run'"
  by (simp_all add: conns_def)

locale agps_conn_hooks = agps_sure_hooks +
  assumes request_conn: "request b run = Some (r, run') \<Longrightarrow> conns [b] run run'"
    and notify_conn: "notify event s del run = Some run' \<Longrightarrow> conns [] run run'"
begin

lemma loop_conn: "notifyAll_loop notify event del nt kept ss run = Some run' \<Longrightarrow> conns [] run run'"
proof (induction ss arbitrary: kept run)
  case Nil
  then show ?case by (simp add: conns_refl)
next
  case (Cons s ss)
  show ?case
  proof (cases "notified nt s")
    case False
    with Cons show ?thesis by simp
  next
    case True
    with Cons.prems obtain r1 r2 kept' where r: "notify event s False run = Some r1"
      "notifyAll_loop notify event del nt kept' ss r2 = Some run'" "snd r2 = snd r1"
      by (auto simp: Option.bind_eq_Some_conv split: if_splits)
    from notify_conn [OF r(1)] r(3) have "conns [] run r2" by (simp add: conns_def)
    with Cons.IH [OF r(2)] conns_trans show ?thesis by fastforce
  qed
qed

lemma all_conn: "notifyAllSubscribers notify event del nt run = Some run' \<Longrightarrow> conns [] run run'"
  unfolding notifyAllSubscribers_def by (rule loop_conn)

lemma leave_conn: "leave_current notify run = Some run' \<Longrightarrow> conns [] run run'"
  by (auto simp: leave_current_def Option.bind_eq_Some_conv split: if_splits dest: notify_conn)
    (simp add: conns_def map_filter_def)

lemma finish_conn:
  assumes "finish_releasing request notify run = Some run'" and "mState (fst run) = AGPS_STATE_RELEASING"
  shows "\<exists>c. conns c run run' \<and> conn_step (mState (fst run)) c (mState (fst run'))"
proof -
  from assms(1) obtain run1 where r:
    "notifyAllSubscribers notify AGPS_EVENT_RELEASED True FOR_INACTIVE_SUBSCRIBERS run = Some run1"
    "(if anyActiveSubscribers (fst run1)
      then do { (_, run2) \<leftarrow> request True (transitionState AGPS_STATE_PENDING run1); Some run2 }
      else Some (transitionState AGPS_STATE_RELEASED run1)) = Some run'"
    by (auto simp: finish_releasing_def Option.bind_eq_Some_conv)
  note c1 = all_conn [OF r(1)]
  show ?thesis
  proof (cases "anyActiveSubscribers (fst run1)")
    case True
    with r(2) obtain a where a: "request True (transitionState AGPS_STATE_PENDING run1) = Some (a, run')"
      by (auto simp: Option.bind_eq_Some_conv)
    from conns_trans [OF c1] request_conn [OF a] have "conns [True] run run'" by fastforce
    moreover have "mState (fst run') = AGPS_STATE_PENDING" using request_law [OF a] by (simp add: same_sm_def)
    ultimately show ?thesis using assms(2) by (auto simp: conn_step_def)
  next
    case False
    with r(2) c1 show ?thesis by (intro exI [of _ "[]"]) (auto simp: conn_step_def)
  qed
qed

lemma unsubscribe_conn:
  assumes "processAgpsEventUnsubscribe request notify run = Some run'" and "sm_inv (fst run)"
    and "event_ok AGPS_EVENT_UNSUBSCRIBE (fst run)"
  shows "\<exists>c. conns c run run' \<and> conn_step (mState (fst run)) c (mState (fst run'))"
proof -
  consider "mState (fst run) = AGPS_STATE_RELEASED" | "mState (fst run) = AGPS_STATE_RELEASING"
    | "mState (fst run) = AGPS_STATE_PENDING \<or> mState (fst run) = AGPS_STATE_ACQUIRED"
    using assms(2) by (cases "mState (fst run)") (auto simp: sm_inv_def)
  then show ?thesis
  proof cases
    case 1
    with assms(1) obtain c where r: "notify AGPS_EVENT_UNSUBSCRIBE c False run = Some run'"
      by (auto simp: processAgpsEventUnsubscribe_def Option.bind_eq_Some_conv)
    from notify_conn [OF r] notify_law [OF r] show ?thesis
      by (intro exI [of _ "[]"]) (auto simp: conn_step_def same_sm_def)
  next
    case 2
    with assms(1) obtain run1 where r: "leave_current notify run = Some run1"
      "run' = (if mSubscriberList (fst run1) = [] then transitionState AGPS_STATE_RELEASED run1 else run1)"
      by (auto simp: processAgpsEventUnsubscribe_def Option.bind_eq_Some_conv)
    from leave_conn [OF r(1)] leave_law [OF r(1) assms(2,3)] r(2) show ?thesis
      by (intro exI [of _ "[]"]) (auto simp: conn_step_def)
  next
    case 3
    with assms(1) obtain run1 where r: "leave_current notify run = Some run1"
      "run' = run1 \<or> (\<exists>st a. st \<in> {AGPS_STATE_RELEASED, AGPS_STATE_RELEASING} \<and>
         request False (transitionState st run1) = Some (a, run'))"
      by (auto simp: processAgpsEventUnsubscribe_def Option.bind_eq_Some_conv split: if_splits)
    have L: "mState (fst run1) = mState (fst run)" using leave_law [OF r(1) assms(2,3)] by simp
    from r(2) show ?thesis
    proof (elim disjE exE conjE)
      assume "run' = run1"
      with leave_conn [OF r(1)] L show ?thesis by (intro exI [of _ "[]"]) (auto simp: conn_step_def)
    next
      fix st a assume st: "st \<in> {AGPS_STATE_RELEASED, AGPS_STATE_RELEASING}"
        and a: "request False (transitionState st run1) = Some (a, run')"
      from conns_trans [OF leave_conn [OF r(1)]] request_conn [OF a] have "conns [False] run run'" by fastforce
      moreover have "mState (fst run') = st" using request_law [OF a] by (simp add: same_sm_def)
      ultimately show ?thesis using 3 st by (auto simp: conn_step_def)
    qed
  qed
qed

lemma subscribe_conn:
  assumes "processAgpsEventSubscribe request notify run = Some run'"
  shows "\<exists>c. conns c run run' \<and> conn_step (mState (fst run)) c (mState (fst run'))"
proof (cases "mState (fst run)")
  case AGPS_STATE_RELEASED
  with assms obtain cur r run1 where r: "request True (add_current cur run) = Some (r, run1)"
    "run' = (if r = 0 then transitionState AGPS_STATE_PENDING run1 else run1)"
    by (auto simp: processAgpsEventSubscribe_def Option.bind_eq_Some_conv)
  from request_conn [OF r(1)] request_sure [OF r(1)] r(2) AGPS_STATE_RELEASED show ?thesis
    by (intro exI [of _ "[True]"]) (auto simp: conn_step_def)
next
  case AGPS_STATE_ACQUIRED
  with assms obtain c run1 where r: "notify AGPS_EVENT_GRANTED c False run = Some run1" "run' = add_current c run1"
    by (auto simp: processAgpsEventSubscribe_def Option.bind_eq_Some_conv)
  from notify_conn [OF r(1)] notify_law [OF r(1)] r(2) show ?thesis
    by (intro exI [of _ "[]"]) (auto simp: conn_step_def same_sm_def)
next
  case AGPS_STATE_INVALID
  with assms conns_refl [of run] show ?thesis
    by (intro exI [of _ "[]"]) (simp add: processAgpsEventSubscribe_def conn_step_def)
next
  case AGPS_STATE_PENDING
  with assms conns_refl [of run] show ?thesis
    by (intro exI [of _ "[]"]) (auto simp: processAgpsEventSubscribe_def Option.bind_eq_Some_conv conn_step_def)
next
  case AGPS_STATE_RELEASING
  with assms conns_refl [of run] show ?thesis
    by (intro exI [of _ "[]"]) (auto simp: processAgpsEventSubscribe_def Option.bind_eq_Some_conv conn_step_def)
qed

text \<open>Dropping or notifying everyone makes no request.\<close>

lemma all_state:
  assumes "notifyAllSubscribers notify event del nt (transitionState st run) = Some run'"
  shows "conns [] run run'" "mState (fst run') = st"
  using all_conn [OF assms] notifyAll_law(1) [OF assms] by (simp_all add: same_sm_def)

lemma process_conn:
  assumes "processAgpsEvent request notify event run = Some run'" and "sm_inv (fst run)" and "event_ok event (fst run)"
  shows "\<exists>c. conns c run run' \<and> conn_step (mState (fst run)) c (mState (fst run'))"
proof (cases event)
  case AGPS_EVENT_SUBSCRIBE
  with assms subscribe_conn show ?thesis by (simp add: processAgpsEvent_def)
next
  case AGPS_EVENT_UNSUBSCRIBE
  with assms unsubscribe_conn show ?thesis by (simp add: processAgpsEvent_def)
next
  case AGPS_EVENT_GRANTED
  with assms(1) conns_refl all_state [of AGPS_EVENT_GRANTED False FOR_ACTIVE_SUBSCRIBERS AGPS_STATE_ACQUIRED run run']
  show ?thesis
    by (intro exI [of _ "[]"]) (auto simp: processAgpsEvent_def processAgpsEventGranted_def conn_step_def split: if_splits)
next
  case AGPS_EVENT_RELEASED
  with assms finish_conn [of run run'] conns_refl
    all_state [of AGPS_EVENT_RELEASED True FOR_ALL_SUBSCRIBERS AGPS_STATE_RELEASED run run']
  show ?thesis
    by (cases "mState (fst run)") (auto simp: processAgpsEvent_def processAgpsEventReleased_def conn_step_def)
next
  case AGPS_EVENT_DENIED
  with assms finish_conn [of run run'] conns_refl
    all_state [of AGPS_EVENT_DENIED True FOR_ALL_SUBSCRIBERS AGPS_STATE_RELEASED run run']
  show ?thesis
    by (cases "mState (fst run)") (auto simp: processAgpsEvent_def processAgpsEventDenied_def conn_step_def)
next
  case AGPS_EVENT_INVALID
  with assms(1) conns_refl [of run] show ?thesis
    by (intro exI [of _ "[]"]) (simp add: processAgpsEvent_def conn_step_def)
qed

end

lemma deleteSubscriber_conns: "conns [] run run1 \<Longrightarrow> conns [] run (deleteSubscriber s run1)"
  by (auto simp: deleteSubscriber_def conns_def map_filter_def split: prod.splits)

interpretation base_conn: agps_conn_hooks "base_requestOrReleaseDataConn env" "base_notifyEventToSubscriber env" for env
proof (unfold_locales, goal_cases)
  case (1 b run r run')
  then show ?case
    by (auto simp: base_requestOrReleaseDataConn_def Option.bind_eq_Some_conv conns_def map_filter_def)
next
  case (2 event s del run run')
  then obtain run1 new where "run' = (if del then deleteSubscriber s run1 else run1)" "snd run1 = snd run @ new"
    "List.map_filter framework_conn new = []"
    by (cases run; cases event) (auto simp: base_notifyEventToSubscriber_def Option.bind_eq_Some_conv map_filter_def)
  then have "conns [] run run1" "run' = run1 \<or> run' = deleteSubscriber s run1" by (auto simp: conns_def)
  then show ?case using deleteSubscriber_conns [of run run1 s] by auto
qed

section \<open>No abnormal termination\<close>

lemma bind_total: "x \<noteq> None \<Longrightarrow> (\<And>y. x = Some y \<Longrightarrow> f y \<noteq> None) \<Longrightarrow> x \<bind> f \<noteq> None"
  by (cases x) auto

locale agps_total_hooks = agps_hooks +
  fixes ready :: bool
  assumes request_total: "ready \<Longrightarrow> request b run \<noteq> None"
    and notify_total: "ready \<Longrightarrow> notify event s del run \<noteq> None"
begin

lemma loop_total: "ready \<Longrightarrow> notifyAll_loop notify event del nt kept ss run \<noteq> None"
proof (induction ss arbitrary: kept run)
  case (Cons s ss)
  obtain r where "notify event s False run = Some r" using notify_total [OF Cons.prems] by blast
  with Cons.IH [OF Cons.prems] show ?case by (cases del; cases "notified nt s") (simp_all del: not_None_eq)
qed simp

lemma bind_request_total:
  "ready \<Longrightarrow> (\<And>r run'. f (r, run') \<noteq> None) \<Longrightarrow> request b run \<bind> f \<noteq> None"
  by (rule bind_total [OF request_total]) auto

lemma finish_total: "ready \<Longrightarrow> finish_releasing request notify run \<noteq> None"
proof -
  assume r: "ready"
  obtain r1 where "notifyAllSubscribers notify AGPS_EVENT_RELEASED True FOR_INACTIVE_SUBSCRIBERS run = Some r1"
    using loop_total [OF r] unfolding notifyAllSubscribers_def by blast
  moreover have "do { (_, run2) \<leftarrow> request True x; Some run2 } \<noteq> None" for x
    by (rule bind_request_total [OF r]) simp
  ultimately show ?thesis by (simp add: finish_releasing_def)
qed

lemma leave_total: "ready \<Longrightarrow> current (fst run) \<noteq> None \<Longrightarrow> leave_current notify run \<noteq> None"
  using notify_total by (cases "current (fst run)") (simp_all add: leave_current_def del: not_None_eq)

lemma process_total:
  assumes "ready" and "event \<in> {AGPS_EVENT_SUBSCRIBE, AGPS_EVENT_UNSUBSCRIBE} \<Longrightarrow> current (fst run) \<noteq> None"
  shows "processAgpsEvent request notify event run \<noteq> None"
proof (cases event)
  case AGPS_EVENT_SUBSCRIBE
  with assms obtain c where "current (fst run) = Some c" by auto
  moreover have "request True x \<bind> (\<lambda>(r, run1). Some (if r = 0 then transitionState AGPS_STATE_PENDING run1 else run1)) \<noteq> None" for x
    by (rule bind_request_total [OF assms(1)]) simp
  moreover have "notify AGPS_EVENT_GRANTED x False run \<bind> (\<lambda>run1. Some (add_current x run1)) \<noteq> None" for x
    by (rule bind_total [OF notify_total [OF assms(1)]]) simp
  ultimately show ?thesis
    using AGPS_EVENT_SUBSCRIBE
    by (cases "mState (fst run)") (simp_all add: processAgpsEvent_def processAgpsEventSubscribe_def del: not_None_eq)
next
  case AGPS_EVENT_UNSUBSCRIBE
  with assms obtain c where c: "current (fst run) = Some c" by auto
  obtain r where r: "leave_current notify run = Some r" using leave_total [OF assms(1)] c by fastforce
  have q: "do { (_, run2) \<leftarrow> request False x; Some run2 } \<noteq> None" for x
    by (rule bind_request_total [OF assms(1)]) simp
  from AGPS_EVENT_UNSUBSCRIBE c r q notify_total [OF assms(1)] show ?thesis
    by (simp add: processAgpsEvent_def processAgpsEventUnsubscribe_def)
next
  case AGPS_EVENT_GRANTED
  with assms(1) loop_total show ?thesis
    by (simp add: processAgpsEvent_def processAgpsEventGranted_def notifyAllSubscribers_def)
next
  case AGPS_EVENT_RELEASED
  with assms(1) loop_total finish_total show ?thesis
    by (cases "mState (fst run)")
      (simp_all add: processAgpsEvent_def processAgpsEventReleased_def notifyAllSubscribers_def)
next
  case AGPS_EVENT_DENIED
  with assms(1) loop_total finish_total show ?thesis
    by (cases "mState (fst run)")
      (simp_all add: processAgpsEvent_def processAgpsEventDenied_def notifyAllSubscribers_def)
next
  case AGPS_EVENT_INVALID
  then show ?thesis by (simp add: processAgpsEvent_def)
qed

end

text \<open>Every callback is registered.\<close>

definition all_registered :: "agps_env \<Rightarrow> bool" where
  "all_registered env \<longleftrightarrow> atlCbs env \<and> frameworkCb env \<and> dsCloseFn env"

interpretation base_total: agps_total_hooks "base_requestOrReleaseDataConn env" "base_notifyEventToSubscriber env"
    "all_registered env" for env
proof (unfold_locales, goal_cases)
  case (1 b run)
  then show ?case by (simp add: base_requestOrReleaseDataConn_def call_def all_registered_def)
next
  case (2 event s del run)
  then show ?case by (cases event) (simp_all add: base_notifyEventToSubscriber_def call_def all_registered_def)
qed

lemma DS_notify_total: "all_registered env \<Longrightarrow> DS_notifyEventToSubscriber env event s del run \<noteq> None"
  by (cases event) (simp_all add: DS_notifyEventToSubscriber_def call_def all_registered_def)

interpretation ds_total: agps_total_hooks "DS_requestOrReleaseDataConn env" "DS_notifyEventToSubscriber env"
    "all_registered env" for env
proof (unfold_locales, goal_cases)
  case (1 b run)
  have "DS_notifyEventToSubscriber env AGPS_EVENT_DENIED s False x \<bind> (\<lambda>run'. Some (r :: int, run')) \<noteq> None" for s x r
    by (rule bind_total [OF DS_notify_total [OF 1]]) simp
  then show ?case
    by (simp add: DS_requestOrReleaseDataConn_def Let_def call_def del: not_None_eq split: option.split)
next
  case (2 event s del run)
  then show ?case by (rule DS_notify_total)
qed

section \<open>The manager's invariant\<close>

definition mgr_inv :: "AgpsManager \<Rightarrow> bool" where
  "mgr_inv m \<longleftrightarrow> (\<forall>n sm. get_nif n m = Some sm \<longrightarrow> sm_inv sm \<and> retries_ok (mRetries sm) \<and>
     (n \<noteq> Ds_Nif \<longrightarrow> released_empty sm))"

lemma get_put_nif [simp]: "get_nif n (put_nif n' run m) = (if n = n' then Some (fst run) else get_nif n m)"
  by (cases n; cases n') auto

lemma log_put_nif [simp]: "agps_log (put_nif n run m) = snd run"
  by (cases n) auto

lemma get_nif_log [simp]: "get_nif n (m\<lparr>agps_log := l\<rparr>) = get_nif n m"
  by (cases n) auto

lemma mgr_inv_put:
  "mgr_inv m \<Longrightarrow> sm_inv (fst run) \<Longrightarrow> retries_ok (mRetries (fst run)) \<Longrightarrow>
   (n \<noteq> Ds_Nif \<Longrightarrow> released_empty (fst run)) \<Longrightarrow> mgr_inv (put_nif n run m)"
  by (auto simp: mgr_inv_def)

lemma new_sm_ok: "sm_inv (new_sm t) \<and> released_empty (new_sm t) \<and> retries_ok (mRetries (new_sm t))"
  by (simp add: new_sm_def sm_inv_def released_empty_def retries_ok_def MAX_START_DATA_CALL_RETRIES_def)

lemma sm_inv_fields [simp]:
  "sm_inv (sm\<lparr>mCurrentSubscriber := c\<rparr>) = sm_inv sm" "sm_inv (sm\<lparr>mBearer := b\<rparr>) = sm_inv sm"
  "sm_inv (sm\<lparr>mAPN := a\<rparr>) = sm_inv sm"
  by (simp_all add: sm_inv_def anyActiveSubscribers_def)

lemma released_empty_fields [simp]:
  "released_empty (sm\<lparr>mCurrentSubscriber := c\<rparr>) = released_empty sm"
  "released_empty (sm\<lparr>mBearer := b\<rparr>) = released_empty sm" "released_empty (sm\<lparr>mAPN := a\<rparr>) = released_empty sm"
  by (simp_all add: released_empty_def)

interpretation base_bound: agps_bounded_hooks "base_requestOrReleaseDataConn env" "base_notifyEventToSubscriber env"
    retries_ok for env
proof (unfold_locales, goal_cases)
  case (1 run b r run')
  then show ?case by (auto simp: base_requestOrReleaseDataConn_def Option.bind_eq_Some_conv)
next
  case (2 run event s del run')
  then show ?case
    by (cases event) (auto simp: base_notifyEventToSubscriber_def Option.bind_eq_Some_conv)
qed

text \<open>The event the DS machine really processes.\<close>

definition translated :: "nif \<Rightarrow> AgpsEvent \<Rightarrow> AgpsStateMachine \<Rightarrow> AgpsEvent" where
  "translated n event sm =
     (if n = Ds_Nif \<and> event = AGPS_EVENT_RELEASED \<and> mState sm = AGPS_STATE_PENDING then AGPS_EVENT_DENIED else event)"

lemma event_ok_translated: "event_ok event sm \<Longrightarrow> event_ok (translated n event sm) sm"
  by (auto simp: translated_def event_ok_def)

lemma process_nif_law:
  assumes "mgr_inv m" and "process_nif env n event m = Some m'" and "get_nif n m = Some sm" and "event_ok event sm"
  shows "mgr_inv m' \<and> (\<exists>sm' new. get_nif n m' = Some sm' \<and> agps_log m' = agps_log m @ new \<and>
     answers (dropped sm sm') new) \<and> (\<forall>n'. n' \<noteq> n \<longrightarrow> get_nif n' m' = get_nif n' m)"
proof -
  have sm: "sm_inv sm" "retries_ok (mRetries sm)" "n \<noteq> Ds_Nif \<Longrightarrow> released_empty sm"
    using assms(1,3) by (auto simp: mgr_inv_def)
  define ev where "ev = translated n event sm"
  have ok: "event_ok ev sm" using event_ok_translated [OF assms(4)] by (simp add: ev_def)
  show ?thesis
  proof (cases "n = Ds_Nif")
    case True
    with assms(2,3) obtain run where r: "m' = put_nif n run m"
      "processAgpsEvent (DS_requestOrReleaseDataConn env) (DS_notifyEventToSubscriber env) ev (sm, agps_log m) = Some run"
      by (auto simp: process_nif_def DS_processAgpsEvent_def Option.bind_eq_Some_conv ev_def translated_def)
    from ds.process_law [OF r(2)] sm(1) ok have L: "sm_inv (fst run)"
      "grown (answers (dropped sm (fst run))) (sm, agps_log m) run" by auto
    have "retries_ok (mRetries (fst run))" using ds.process_bound [OF r(2)] sm(2) by simp
    then have "mgr_inv m'"
      unfolding r(1) using L assms(1) True by (intro mgr_inv_put) simp_all
    with L r(1) show ?thesis by (auto simp: grown_def)
  next
    case False
    with assms(2,3) obtain run where r: "m' = put_nif n run m"
      "processAgpsEvent (base_requestOrReleaseDataConn env) (base_notifyEventToSubscriber env) ev (sm, agps_log m) = Some run"
      by (auto simp: process_nif_def base_processAgpsEvent_def Option.bind_eq_Some_conv ev_def translated_def)
    from base.process_law [OF r(2)] sm(1) ok have L: "sm_inv (fst run)"
      "grown (answers (dropped sm (fst run))) (sm, agps_log m) run" by auto
    have "retries_ok (mRetries (fst run))" using base_bound.process_bound [OF r(2)] sm(2) by simp
    moreover have "released_empty (fst run)"
      using base.sure_process_law [OF r(2)] sm ok False by simp
    ultimately have "mgr_inv m'"
      unfolding r(1) using L assms(1) by (intro mgr_inv_put) simp_all
    with L r(1) show ?thesis by (auto simp: grown_def)
  qed
qed

section \<open>Operations of the manager\<close>

lemma mgr_inv_log [simp]: "mgr_inv (m\<lparr>agps_log := l\<rparr>) = mgr_inv m"
  by (simp add: mgr_inv_def)

lemma nif_all: "(\<forall>n. P n) \<longleftrightarrow> P Agnss_Nif \<and> P Internet_Nif \<and> P Ds_Nif"
  by (metis nif.exhaust)

lemma mgr_inv_parts:
  "mgr_inv m \<longleftrightarrow>
     (\<forall>sm. mAgnssNif m = Some sm \<longrightarrow> sm_inv sm \<and> retries_ok (mRetries sm) \<and> released_empty sm) \<and>
     (\<forall>sm. mInternetNif m = Some sm \<longrightarrow> sm_inv sm \<and> retries_ok (mRetries sm) \<and> released_empty sm) \<and>
     (\<forall>sm. mDsNif m = Some sm \<longrightarrow> sm_inv sm \<and> retries_ok (mRetries sm))"
  unfolding mgr_inv_def nif_all by simp

text \<open>
  What every operation but the restart guarantees: the invariant, a log that only grows, no
  machine that disappears, and an answer in the new part of the log for every dropped handle.
\<close>

definition step_ok :: "AgpsManager \<Rightarrow> AgpsManager \<Rightarrow> bool" where
  "step_ok m m' \<longleftrightarrow> mgr_inv m' \<and> (\<exists>new. agps_log m' = agps_log m @ new \<and>
     (\<forall>n sm. get_nif n m = Some sm \<longrightarrow> (\<exists>sm'. get_nif n m' = Some sm' \<and> answers (dropped sm sm') new)))"

lemma step_okI:
  assumes "mgr_inv m'" and "agps_log m' = agps_log m @ new"
    and "\<And>n sm. get_nif n m = Some sm \<Longrightarrow> \<exists>sm'. get_nif n m' = Some sm' \<and> answers (dropped sm sm') new"
  shows "step_ok m m'"
  using assms by (auto simp: step_ok_def)

lemma dropped_same [simp]: "mSubscriberList sm' = mSubscriberList sm \<Longrightarrow> dropped sm sm' = {}"
  by (simp add: dropped_def)

lemma answers_empty [simp]: "answers {} new"
  by (simp add: answers_def)

lemma step_ok_trans:
  assumes "step_ok m m1" and "step_ok m1 m2"
  shows "step_ok m m2"
proof -
  from assms(1) obtain new1 where n1: "agps_log m1 = agps_log m @ new1"
    "\<And>n sm. get_nif n m = Some sm \<Longrightarrow> \<exists>sm'. get_nif n m1 = Some sm' \<and> answers (dropped sm sm') new1"
    by (auto simp: step_ok_def)
  from assms(2) obtain new2 where n2: "agps_log m2 = agps_log m1 @ new2"
    "\<And>n sm. get_nif n m1 = Some sm \<Longrightarrow> \<exists>sm'. get_nif n m2 = Some sm' \<and> answers (dropped sm sm') new2"
    by (auto simp: step_ok_def)
  show ?thesis
  proof (rule step_okI)
    show "mgr_inv m2" using assms(2) by (simp add: step_ok_def)
    show "agps_log m2 = agps_log m @ (new1 @ new2)" using n1(1) n2(1) by simp
    fix n sm assume "get_nif n m = Some sm"
    from n1(2) [OF this] obtain sm1 where s1: "get_nif n m1 = Some sm1" "answers (dropped sm sm1) new1" by blast
    from n2(2) [OF s1(1)] obtain sm2 where s2: "get_nif n m2 = Some sm2" "answers (dropped sm1 sm2) new2" by blast
    have "answers (dropped sm sm2) (new1 @ new2)"
      unfolding answers_def
    proof
      fix h assume "h \<in> dropped sm sm2"
      then show "\<exists>x\<in>set (new1 @ new2). told h x"
        using s1(2) s2(2) by (cases "h \<in> mConnHandle ` set (mSubscriberList sm1)") (auto simp: answers_def dropped_def)
    qed
    with s2(1) show "\<exists>sm'. get_nif n m2 = Some sm' \<and> answers (dropped sm sm') (new1 @ new2)" by blast
  qed
qed

lemma step_ok_log: "mgr_inv m \<Longrightarrow> step_ok m (m\<lparr>agps_log := agps_log m @ l\<rparr>)"
  by (rule step_okI [of _ _ l]) auto

lemma create_law: "mgr_inv m \<Longrightarrow> step_ok m (createAgpsStateMachines env m)"
proof -
  assume inv: "mgr_inv m"
  have keep: "get_nif n (createAgpsStateMachines env m) = Some sm" if "get_nif n m = Some sm" for n sm
    using that by (cases n) (auto simp: createAgpsStateMachines_def Let_def split: option.splits)
  have "mgr_inv (createAgpsStateMachines env m)"
    using inv new_sm_ok by (auto simp: createAgpsStateMachines_def Let_def mgr_inv_parts split: option.splits)
  moreover have "\<exists>new. agps_log (createAgpsStateMachines env m) = agps_log m @ new"
    by (simp add: createAgpsStateMachines_def Let_def split: option.split)
  then obtain new where "agps_log (createAgpsStateMachines env m) = agps_log m @ new" by blast
  ultimately show ?thesis using keep by (intro step_okI [of _ _ new]) auto
qed

lemma step_ok_refl: "mgr_inv m \<Longrightarrow> step_ok m m"
  by (rule step_okI [of _ _ "[]"]) auto

lemma getAgpsStateMachine_law: "getAgpsStateMachine env t m = (n, m1) \<Longrightarrow> mgr_inv m \<Longrightarrow> step_ok m m1"
  by (auto simp: getAgpsStateMachine_def create_law step_ok_refl split: if_splits)

lemma put_law:
  assumes "mgr_inv m" and "get_nif n m = Some sm" and "mSubscriberList sm' = mSubscriberList sm"
    and "mState sm' = mState sm" and "mRetries sm' = mRetries sm"
  shows "step_ok m (put_nif n (sm', agps_log m) m)"
proof (rule step_okI)
  show "mgr_inv (put_nif n (sm', agps_log m) m)"
    using assms by (intro mgr_inv_put) (auto simp: mgr_inv_def sm_inv_def released_empty_def anyActiveSubscribers_def)
  show "agps_log (put_nif n (sm', agps_log m) m) = agps_log m @ []" by simp
  fix n' x assume "get_nif n' m = Some x"
  with assms(2,3) show "\<exists>x'. get_nif n' (put_nif n (sm', agps_log m) m) = Some x' \<and> answers (dropped x x') []"
    by (cases "n' = n") auto
qed

lemma process_nif_step:
  assumes "mgr_inv m" and "process_nif env n event m = Some m'" and "event_ok event (the (get_nif n m))"
  shows "step_ok m m'"
proof -
  from assms(2) obtain sm where sm: "get_nif n m = Some sm" by (auto simp: process_nif_def Option.bind_eq_Some_conv)
  with assms(3) process_nif_law [OF assms(1,2) sm] obtain sm' new where L: "mgr_inv m'" "get_nif n m' = Some sm'"
    "agps_log m' = agps_log m @ new" "answers (dropped sm sm') new" "\<forall>n'. n' \<noteq> n \<longrightarrow> get_nif n' m' = get_nif n' m" by auto
  show ?thesis
  proof (rule step_okI [OF L(1,3)])
    fix n' x assume "get_nif n' m = Some x"
    with L sm show "\<exists>x'. get_nif n' m' = Some x' \<and> answers (dropped x x') new"
      by (cases "n' = n") auto
  qed
qed

lemma set_current_law:
  assumes "set_current n cur m = Some m'" and "mgr_inv m"
  obtains sm where "get_nif n m = Some sm" "get_nif n m' = Some (sm\<lparr>mCurrentSubscriber := cur\<rparr>)" "step_ok m m'"
proof -
  from assms(1) obtain sm where sm: "get_nif n m = Some sm"
    "m' = put_nif n (sm\<lparr>mCurrentSubscriber := cur\<rparr>, agps_log m) m"
    by (auto simp: set_current_def Option.bind_eq_Some_conv)
  have "step_ok m m'" unfolding sm(2) by (rule put_law [OF assms(2) sm(1)]) simp_all
  with sm that show ?thesis by simp
qed

lemma step_ok_inv: "step_ok m m' \<Longrightarrow> mgr_inv m'"
  by (simp add: step_ok_def)

lemma requestATL_law:
  assumes "mgr_inv m" and "requestATL env h t m = Some m'"
  shows "step_ok m m'"
proof -
  obtain n m1 where g: "getAgpsStateMachine env t m = (n, m1)" by force
  note o1 = getAgpsStateMachine_law [OF g assms(1)]
  note i1 = step_ok_inv [OF o1]
  show ?thesis
  proof (cases "get_nif n m1")
    case None
    with assms g have "m' = m1\<lparr>agps_log := agps_log m1 @ [AtlOpenStatus h 0 None 0 t]\<rparr>"
      by (auto simp: requestATL_def split: if_splits)
    with step_ok_trans [OF o1 step_ok_log [OF i1]] show ?thesis by simp
  next
    case (Some sm)
    define c where "c = Cur_Local \<lparr>mConnHandle = h, mWaitForCloseComplete = (t = LOC_AGPS_TYPE_SUPL_ES), mIsInactive = False\<rparr>"
    from Some assms g obtain m2 where m2: "set_current n c m1 = Some m2" "process_nif env n AGPS_EVENT_SUBSCRIBE m2 = Some m'"
      by (auto simp: requestATL_def Option.bind_eq_Some_conv c_def)
    obtain sm1 where s1: "get_nif n m2 = Some (sm1\<lparr>mCurrentSubscriber := c\<rparr>)" "step_ok m1 m2"
      by (rule set_current_law [OF m2(1) i1])
    have "step_ok m2 m'"
      by (rule process_nif_step [OF step_ok_inv [OF s1(2)] m2(2)]) (simp add: s1(1) event_ok_def c_def)
    with step_ok_trans [OF step_ok_trans [OF o1 s1(2)]] show ?thesis by blast
  qed
qed

lemma has_subscriber_Some: "has_subscriber h sm \<longleftrightarrow> (\<exists>s c. sm = Some s \<and> getSubscriber h s = Some c)"
  by (auto simp: has_subscriber_def split: option.splits)

lemma releaseATL_law:
  assumes "mgr_inv m" and "releaseATL env h m = Some m'"
  shows "step_ok m m'"
proof -
  from assms(2) consider "m' = m\<lparr>agps_log := agps_log m @ [AtlCloseStatus h 0]\<rparr>"
    | n m1 where "has_subscriber h (get_nif n m)" "set_current n (Cur_Listed h) m = Some m1"
      "process_nif env n AGPS_EVENT_UNSUBSCRIBE m1 = Some m'"
    unfolding releaseATL_def
    by (auto simp: Option.bind_eq_Some_conv split: if_splits) (metis get_nif.simps)+
  then show ?thesis
  proof cases
    case 1
    with assms(1) step_ok_log show ?thesis by simp
  next
    case 2
    obtain sm where sm: "get_nif n m = Some sm" "get_nif n m1 = Some (sm\<lparr>mCurrentSubscriber := Cur_Listed h\<rparr>)" "step_ok m m1"
      by (rule set_current_law [OF 2(2) assms(1)])
    have "step_ok m1 m'"
      by (rule process_nif_step [OF step_ok_inv [OF sm(3)] 2(3)])
        (use 2(1) sm(1,2) in \<open>auto simp: event_ok_def has_subscriber_Some getSubscriber_def\<close>)
    with step_ok_trans [OF sm(3)] show ?thesis by blast
  qed
qed

lemma report_law:
  assumes "mgr_inv m" and "process_nif env n event m = Some m'"
    and "event \<in> {AGPS_EVENT_GRANTED, AGPS_EVENT_RELEASED, AGPS_EVENT_DENIED}"
  shows "step_ok m m'"
  by (rule process_nif_step [OF assms(1,2)]) (use assms(3) in \<open>auto simp: event_ok_def\<close>)

lemma report_via_get:
  assumes "mgr_inv m" and "getAgpsStateMachine env t m = (n, m1)" and "process_nif env n event m1 = Some m'"
    and "event \<in> {AGPS_EVENT_GRANTED, AGPS_EVENT_RELEASED, AGPS_EVENT_DENIED}"
  shows "step_ok m m'"
  using getAgpsStateMachine_law [OF assms(2,1)] report_law [OF _ assms(3,4)] step_ok_inv step_ok_trans by blast

lemma reportAtlOpenSuccess_law:
  assumes "mgr_inv m" and "reportAtlOpenSuccess env t apn len bearer m = Some m'"
  shows "step_ok m m'"
proof -
  obtain n m1 where g: "getAgpsStateMachine env t m = (n, m1)" by force
  note o1 = getAgpsStateMachine_law [OF g assms(1)]
  from assms(2) g obtain sm where sm: "get_nif n m1 = Some sm" "process_nif env n AGPS_EVENT_GRANTED
      (put_nif n (setAPN apn len (sm\<lparr>mBearer := bearer\<rparr>), agps_log m1) m1) = Some m'"
    by (auto simp: reportAtlOpenSuccess_def Option.bind_eq_Some_conv)
  have o2: "step_ok m1 (put_nif n (setAPN apn len (sm\<lparr>mBearer := bearer\<rparr>), agps_log m1) m1)"
    by (rule put_law [OF step_ok_inv [OF o1] sm(1)]) (simp_all add: setAPN_def)
  from report_law [OF step_ok_inv [OF o2] sm(2)] step_ok_trans [OF step_ok_trans [OF o1 o2]] show ?thesis by simp
qed

lemma retryCallback_law:
  assumes "mgr_inv m" and "retryCallback env m = Some m'"
  shows "step_ok m m'"
proof -
  from assms(2) obtain sm run where r: "mDsNif m = Some sm" "DS_retryCallback env (sm, agps_log m) = Some run"
    "m' = put_nif Ds_Nif run m" by (auto simp: retryCallback_def Option.bind_eq_Some_conv)
  then obtain new where new: "run = (sm, agps_log m @ new)"
    by (cases "getFirstSubscriber False sm") (auto simp: DS_retryCallback_def)
  have "m' = m\<lparr>agps_log := agps_log m @ new\<rparr>" using r(1,3) new by simp
  with step_ok_log [OF assms(1)] show ?thesis by simp
qed

text \<open>
  Steps of the manager, driven by the modem, the framework and the DS client, in any order and
  any environment; the modem restart is left out (see the last property).
\<close>

inductive agps_step :: "AgpsManager \<Rightarrow> AgpsManager \<Rightarrow> bool" where
  create: "agps_step m (createAgpsStateMachines env m)"
| request: "requestATL env h t m = Some m' \<Longrightarrow> agps_step m m'"
| release: "releaseATL env h m = Some m' \<Longrightarrow> agps_step m m'"
| opened: "reportDataCallOpened env m = Some m' \<Longrightarrow> agps_step m m'"
| closed: "reportDataCallClosed env m = Some m' \<Longrightarrow> agps_step m m'"
| success: "reportAtlOpenSuccess env t apn len bearer m = Some m' \<Longrightarrow> agps_step m m'"
| failed: "reportAtlOpenFailed env t m = Some m' \<Longrightarrow> agps_step m m'"
| atl_closed: "reportAtlClosed env t m = Some m' \<Longrightarrow> agps_step m m'"
| retry: "retryCallback env m = Some m' \<Longrightarrow> agps_step m m'"

inductive agps_reach :: "AgpsManager \<Rightarrow> bool" where
  init: "agps_reach new_manager"
| step: "agps_reach m \<Longrightarrow> agps_step m m' \<Longrightarrow> agps_reach m'"

lemma agps_step_ok: "agps_step m m' \<Longrightarrow> mgr_inv m \<Longrightarrow> step_ok m m'"
proof (induction rule: agps_step.induct)
  case (opened env m m')
  then show ?case using report_law [of m env Ds_Nif AGPS_EVENT_GRANTED m']
    by (auto simp: reportDataCallOpened_def step_ok_refl split: if_splits)
next
  case (closed env m m')
  then show ?case using report_law [of m env Ds_Nif AGPS_EVENT_RELEASED m']
    by (auto simp: reportDataCallClosed_def step_ok_refl split: if_splits)
next
  case (failed env t m m')
  then show ?case using report_via_get [of m env t] by (auto simp: reportAtlOpenFailed_def split: prod.splits)
next
  case (atl_closed env t m m')
  then show ?case using report_via_get [of m env t] by (auto simp: reportAtlClosed_def split: prod.splits)
qed (blast intro: create_law requestATL_law releaseATL_law reportAtlOpenSuccess_law retryCallback_law)+

lemma agps_reach_inv: "agps_reach m \<Longrightarrow> mgr_inv m"
proof (induction rule: agps_reach.induct)
  case init
  show ?case by (simp add: mgr_inv_parts new_manager_def)
next
  case (step m m')
  then show ?case using agps_step_ok step_ok_inv by blast
qed

lemma process_nif_total:
  assumes "all_registered env" and "get_nif n x = Some sm"
    and "event \<in> {AGPS_EVENT_SUBSCRIBE, AGPS_EVENT_UNSUBSCRIBE} \<Longrightarrow> current sm \<noteq> None"
  shows "process_nif env n event x \<noteq> None"
proof -
  have t: "translated n event sm \<in> {AGPS_EVENT_SUBSCRIBE, AGPS_EVENT_UNSUBSCRIBE} \<Longrightarrow> current sm \<noteq> None"
    using assms(3) by (auto simp: translated_def split: if_splits)
  have "(if n = Ds_Nif then DS_processAgpsEvent else base_processAgpsEvent) env event (sm, agps_log x) \<noteq> None"
  proof (cases "n = Ds_Nif")
    case True
    with ds_total.process_total [OF assms(1), of "translated n event sm" "(sm, agps_log x)"] t
    show ?thesis by (simp add: DS_processAgpsEvent_def translated_def del: not_None_eq)
  next
    case False
    with base_total.process_total [OF assms(1), of event "(sm, agps_log x)"] assms(3)
    show ?thesis by (simp add: base_processAgpsEvent_def del: not_None_eq)
  qed
  then show ?thesis
    unfolding process_nif_def assms(2) by (cases "n = Ds_Nif") (auto simp: Option.bind_eq_None_conv)
qed

section \<open>Concrete runs\<close>

text \<open>Everything is registered; the DS client answers its open call with the given value.\<close>

definition demo_env :: "int \<Rightarrow> agps_env" where
  "demo_env ds_ret = \<lparr>atlCbs = True, frameworkCb = True, dsInitFn = Some 0, dsOpenFn = Some ds_ret,
     dsStopFn = True, dsCloseFn = True, dsReleaseFn = True, timer_starts = True, CAPABILITIES = 6,
     USE_EMERGENCY_PDN = True\<rparr>"

text \<open>Two SUPL requests, 10 and 11, and the framework's connection.\<close>

definition two_requests :: "AgpsManager option" where
  "two_requests = do {
     m1 \<leftarrow> requestATL (demo_env 0) 10 1 (createAgpsStateMachines (demo_env 0) new_manager);
     m2 \<leftarrow> requestATL (demo_env 0) 11 1 m1;
     reportAtlOpenSuccess (demo_env 0) 1 (Some ''apn'') 3 1 m2
   }"

lemma two_requests_reach: "\<exists>m. two_requests = Some m \<and> agps_reach m"
proof -
  let ?m0 = "createAgpsStateMachines (demo_env 0) new_manager"
  have "requestATL (demo_env 0) 10 1 ?m0 \<noteq> None" by code_simp
  then obtain m1 where m1: "requestATL (demo_env 0) 10 1 ?m0 = Some m1" by blast
  have "requestATL (demo_env 0) 10 1 ?m0 \<bind> requestATL (demo_env 0) 11 1 \<noteq> None" by code_simp
  then obtain m2 where m2: "requestATL (demo_env 0) 11 1 m1 = Some m2" using m1 by auto
  have "two_requests \<noteq> None" by code_simp
  then obtain m3 where m3: "two_requests = Some m3" by blast
  then have "reportAtlOpenSuccess (demo_env 0) 1 (Some ''apn'') 3 1 m2 = Some m3"
    using m1 m2 by (simp add: two_requests_def)
  then have "agps_reach m3"
    by (meson agps_reach.step agps_reach.init agps_step.create agps_step.request agps_step.success m1 m2)
  with m3 show ?thesis by blast
qed

section \<open>Properties\<close>

text \<open>C9: in every state the manager can reach (without a modem restart) each machine is consistent: no
  handle subscribes twice, a connection that is pending or acquired has an active subscriber, one that is
  being released still has a subscriber waiting, a released machine other than the emergency one has none,
  and the emergency machine has made at most four retries.\<close>

theorem agps_machines_consistent:
  assumes "agps_reach m" and "get_nif n m = Some sm"
  shows "distinct (map mConnHandle (mSubscriberList sm)) \<and>
    (mState sm = AGPS_STATE_PENDING \<or> mState sm = AGPS_STATE_ACQUIRED \<longrightarrow> (\<exists>s\<in>set (mSubscriberList sm). \<not> mIsInactive s)) \<and>
    (mState sm = AGPS_STATE_RELEASING \<longrightarrow> mSubscriberList sm \<noteq> []) \<and>
    (mState sm = AGPS_STATE_RELEASED \<and> n \<noteq> Ds_Nif \<longrightarrow> mSubscriberList sm = []) \<and>
    0 \<le> mRetries sm \<and> mRetries sm \<le> 4"
  using agps_reach_inv [OF assms(1)] assms(2)
  by (auto simp: mgr_inv_def sm_inv_def released_empty_def retries_ok_def MAX_START_DATA_CALL_RETRIES_def anyActive_iff)

theorem agps_machines_consistent_witness:
  "\<exists>m sm. two_requests = Some m \<and> get_nif Agnss_Nif m = Some sm \<and> mState sm = AGPS_STATE_ACQUIRED \<and>
     (\<exists>s\<in>set (mSubscriberList sm). \<not> mIsInactive s)"
proof -
  obtain m where m: "two_requests = Some m" "agps_reach m" using two_requests_reach by blast
  have "map_option (\<lambda>m. map_option mState (get_nif Agnss_Nif m)) two_requests = Some (Some AGPS_STATE_ACQUIRED)"
    by code_simp
  from this [unfolded m(1)] obtain sm where sm: "get_nif Agnss_Nif m = Some sm" "mState sm = AGPS_STATE_ACQUIRED"
    by auto
  from agps_machines_consistent [OF m(2) sm(1)] sm m(1) show ?thesis by blast
qed



text \<open>the SUPL and internet machines ask the framework for a connection exactly on entering PENDING
  (from RELEASED or RELEASING), give it back exactly once, on leaving PENDING or ACQUIRED on the last active
  subscriber's release, and make no other request.\<close>

theorem agps_connection_protocol:
  assumes "sm_inv sm" and "event_ok event sm" and "base_processAgpsEvent env event (sm, log) = Some (sm', log')"
  shows "\<exists>new c. log' = log @ new \<and> List.map_filter framework_conn new = c \<and> conn_step (mState sm) c (mState sm')"
  using base_conn.process_conn [of env event "(sm, log)" "(sm', log')"] assms
  by (auto simp: base_processAgpsEvent_def conns_def)

theorem agps_connection_protocol_witness:
  "\<exists>sm' new. base_processAgpsEvent (demo_env 0) AGPS_EVENT_SUBSCRIBE
      ((new_sm 1)\<lparr>mCurrentSubscriber := Cur_Local \<lparr>mConnHandle = 7, mWaitForCloseComplete = False, mIsInactive = False\<rparr>\<rparr>, [])
      = Some (sm', new) \<and> mState sm' = AGPS_STATE_PENDING \<and>
      conn_step AGPS_STATE_RELEASED (List.map_filter framework_conn new) AGPS_STATE_PENDING"
proof -
  let ?sm = "(new_sm 1)\<lparr>mCurrentSubscriber := Cur_Local \<lparr>mConnHandle = 7, mWaitForCloseComplete = False, mIsInactive = False\<rparr>\<rparr>"
  have "map_option (\<lambda>r. mState (fst r)) (base_processAgpsEvent (demo_env 0) AGPS_EVENT_SUBSCRIBE (?sm, [])) =
      Some AGPS_STATE_PENDING" by code_simp
  then obtain sm' new where r: "base_processAgpsEvent (demo_env 0) AGPS_EVENT_SUBSCRIBE (?sm, []) = Some (sm', new)"
    "mState sm' = AGPS_STATE_PENDING" by auto
  have "sm_inv ?sm" by (simp only: sm_inv_fields new_sm_ok)
  moreover have "event_ok AGPS_EVENT_SUBSCRIBE ?sm" "mState ?sm = AGPS_STATE_RELEASED"
    by (simp_all add: event_ok_def new_sm_def)
  ultimately show ?thesis using agps_connection_protocol [OF _ _ r(1)] r by auto
qed

text \<open>with all callbacks registered, requests and releases never end abnormally in a reachable state,
  while a report about a connection does exactly when the machine it is routed to does not exist (the code
  dereferences the NULL pointer).\<close>

theorem agps_abnormal_only_on_missing_machine:
  assumes "agps_reach m" and "all_registered env"
  shows "requestATL env h t m \<noteq> None \<and> releaseATL env h m \<noteq> None \<and>
    (reportAtlOpenFailed env t m = None \<longleftrightarrow>
       get_nif (fst (getAgpsStateMachine env t m)) (snd (getAgpsStateMachine env t m)) = None)"
proof -
  note total = process_nif_total [OF assms(2)]
  obtain n m1 where g: "getAgpsStateMachine env t m = (n, m1)" by force
  have "requestATL env h t m \<noteq> None"
  proof (cases "get_nif n m1")
    case None
    with g assms(2) show ?thesis by (simp add: requestATL_def all_registered_def)
  next
    case (Some sm)
    with g total [of n "put_nif n (sm\<lparr>mCurrentSubscriber := c\<rparr>, agps_log m1) m1" "sm\<lparr>mCurrentSubscriber := c\<rparr>"
        AGPS_EVENT_SUBSCRIBE for c]
    show ?thesis by (simp add: requestATL_def set_current_def current_def del: not_None_eq)
  qed
  moreover have "releaseATL env h m \<noteq> None"
  proof -
    have "set_current n (Cur_Listed h) m \<bind> process_nif env n AGPS_EVENT_UNSUBSCRIBE \<noteq> None"
      if has: "has_subscriber h (get_nif n m)" for n
    proof -
      obtain sm c where sm: "get_nif n m = Some sm" "getSubscriber h sm = Some c" using has by (auto simp: has_subscriber_Some)
      then have "current (sm\<lparr>mCurrentSubscriber := Cur_Listed h\<rparr>) \<noteq> None" by (simp add: current_def getSubscriber_def)
      with sm(1) total [of n "put_nif n (sm\<lparr>mCurrentSubscriber := Cur_Listed h\<rparr>, agps_log m) m"
          "sm\<lparr>mCurrentSubscriber := Cur_Listed h\<rparr>" AGPS_EVENT_UNSUBSCRIBE]
      show ?thesis by (simp add: set_current_def del: not_None_eq)
    qed
    from this [of Agnss_Nif] this [of Internet_Nif] this [of Ds_Nif] assms(2) show ?thesis
      by (simp add: releaseATL_def all_registered_def del: not_None_eq)
  qed
  moreover have "reportAtlOpenFailed env t m = None \<longleftrightarrow> get_nif n m1 = None"
  proof (cases "get_nif n m1")
    case None
    with g show ?thesis by (simp add: reportAtlOpenFailed_def process_nif_def)
  next
    case (Some sm)
    with g total [of n m1 sm AGPS_EVENT_DENIED] show ?thesis by (simp add: reportAtlOpenFailed_def del: not_None_eq)
  qed
  ultimately show ?thesis using g by simp
qed

theorem agps_abnormal_only_on_missing_machine_witness:
  "reportAtlOpenFailed (demo_env 0) 1 new_manager = None"
  using agps_abnormal_only_on_missing_machine [OF agps_reach.init, of "demo_env 0" 0 1]
  by (simp add: all_registered_def demo_env_def getAgpsStateMachine_def new_manager_def)

text \<open>releasing a request reads freed memory: deleteSubscriber compares the remaining list elements with
  the subscriber it has just deleted, whenever the released one is not the last of the list.\<close>

theorem agps_release_reads_freed_subscriber:
  "\<exists>m m'. agps_reach m \<and> Freed_Read \<notin> set (agps_log m) \<and> releaseATL (demo_env 0) 10 m = Some m' \<and>
     Freed_Read \<in> set (agps_log m')"
proof -
  obtain m where m: "two_requests = Some m" "agps_reach m" using two_requests_reach by blast
  have "map_option (\<lambda>m. Freed_Read \<in> set (agps_log m)) two_requests = Some False"
    "map_option (\<lambda>m. Freed_Read \<in> set (agps_log m)) (two_requests \<bind> releaseATL (demo_env 0) 10) = Some True"
    by code_simp+
  from this [unfolded m(1)] m(2) show ?thesis by auto
qed

text \<open>a released emergency request can come back: while the data call is being retried the machine is in
  RELEASED, a release then reports the handle closed but leaves its subscriber active in the list, and the
  retry timer posts a new request for that handle.\<close>

theorem agps_released_emergency_request_retried:
  "\<exists>m m' m''. agps_reach m \<and> releaseATL (demo_env 6) 7 m = Some m' \<and> last (agps_log m') = AtlCloseStatus 7 1 \<and>
     retryCallback (demo_env 6) m' = Some m'' \<and> last (agps_log m'') = Send_RequestATL 7 5"
proof -
  let ?r = "requestATL (demo_env 6) 7 5 (createAgpsStateMachines (demo_env 6) new_manager)"
  have "map_option (\<lambda>m. last (agps_log m)) (?r \<bind> releaseATL (demo_env 6) 7) = Some (AtlCloseStatus 7 1)"
    "map_option (\<lambda>m. last (agps_log m)) (?r \<bind> releaseATL (demo_env 6) 7 \<bind> retryCallback (demo_env 6)) =
       Some (Send_RequestATL 7 5)" by code_simp+
  then obtain m m' m'' where m: "?r = Some m" "releaseATL (demo_env 6) 7 m = Some m'" "last (agps_log m') = AtlCloseStatus 7 1"
    "retryCallback (demo_env 6) m' = Some m''" "last (agps_log m'') = Send_RequestATL 7 5"
    by (auto simp: Option.bind_eq_Some_conv)
  have "agps_reach m"
    by (rule agps_reach.step [OF agps_reach.step [OF agps_reach.init agps_step.create] agps_step.request [OF m(1)]])
  with m show ?thesis by blast
qed

end
