(* ===== verification/Std_Map.thy ===== *)
theory Std_Map
  imports Prelude
begin

text \<open>
  std::map of the C++ standard library as the code uses it: an association list sorted by key,
  which is the order iterators visit. \<open>map_index\<close> is \<open>operator[]\<close>, which inserts the default
  value of the mapped type when the key is absent. The locale \<open>two_way_map\<close> is the contract of
  two maps that are kept as each other's inverse.
\<close>

type_synonym ('k, 'v) std_map = "('k \<times> 'v) list"

fun map_put :: "'k::linorder \<Rightarrow> 'v \<Rightarrow> ('k, 'v) std_map \<Rightarrow> ('k, 'v) std_map" where
  "map_put k v [] = [(k, v)]"
| "map_put k v ((k', v') # m) =
     (if k < k' then (k, v) # (k', v') # m
      else if k = k' then (k, v) # m
      else (k', v') # map_put k v m)"

definition map_erase :: "'k \<Rightarrow> ('k, 'v) std_map \<Rightarrow> ('k, 'v) std_map" where
  "map_erase k m = filter (\<lambda>(k', v). k' \<noteq> k) m"

definition map_has :: "('k, 'v) std_map \<Rightarrow> 'k \<Rightarrow> bool" where
  "map_has m k \<longleftrightarrow> map_of m k \<noteq> None"

definition map_index :: "'k::linorder \<Rightarrow> 'v \<Rightarrow> ('k, 'v) std_map \<Rightarrow> 'v \<times> ('k, 'v) std_map" where
  "map_index k dflt m = (case map_of m k of Some v \<Rightarrow> (v, m) | None \<Rightarrow> (dflt, map_put k dflt m))"

definition map_sorted :: "('k::linorder, 'v) std_map \<Rightarrow> bool" where
  "map_sorted m \<longleftrightarrow> sorted_wrt (<) (map fst m)"

lemma map_sorted_Nil [simp]: "map_sorted []"
  by (simp add: map_sorted_def)

lemma map_of_put [simp]: "map_of (map_put k v m) = (map_of m)(k \<mapsto> v)"
  by (induction k v m rule: map_put.induct) (auto simp: fun_eq_iff)

lemma map_of_erase [simp]: "map_of (map_erase k m) = (map_of m)(k := None)"
  by (induction m) (auto simp: map_erase_def fun_eq_iff)

lemma map_put_keys [simp]: "fst ` set (map_put k v m) = insert k (fst ` set m)"
  by (induction k v m rule: map_put.induct) auto

lemma map_sorted_Cons: "map_sorted ((k, v) # m) \<longleftrightarrow> (\<forall>x \<in> fst ` set m. k < x) \<and> map_sorted m"
  by (auto simp: map_sorted_def)

lemma map_sorted_put [simp]: "map_sorted m \<Longrightarrow> map_sorted (map_put k v m)"
proof (induction k v m rule: map_put.induct)
  case (1 k v)
  then show ?case by (simp add: map_sorted_def)
next
  case (2 k v k' v' m)
  from "2.prems" have m: "map_sorted m" and lt: "\<forall>x \<in> fst ` set m. k' < x"
    unfolding map_sorted_Cons by blast+
  consider "k < k'" | "k = k'" | "k' < k" by (rule linorder_cases)
  then show ?case
  proof cases
    case 1
    with lt have "\<forall>x \<in> fst ` set m. k < x" by (meson less_trans)
    with 1 "2.prems" show ?thesis by (simp add: map_sorted_Cons)
  next
    case 2
    with m lt show ?thesis by (simp add: map_sorted_Cons)
  next
    case 3
    with "2.IH" m have ih: "map_sorted (map_put k v m)" by simp
    from 3 lt have "\<forall>x \<in> fst ` set (map_put k v m). k' < x"
      unfolding map_put_keys by blast
    then have "map_sorted ((k', v') # map_put k v m)" using ih by (simp only: map_sorted_Cons)
    moreover from 3 have "\<not> k < k'" "k \<noteq> k'" by auto
    ultimately show ?thesis by simp
  qed
qed

lemma map_sorted_erase [simp]: "map_sorted m \<Longrightarrow> map_sorted (map_erase k m)"
  by (induction m) (auto simp: map_sorted_def map_erase_def)

lemma map_sorted_distinct: "map_sorted m \<Longrightarrow> distinct (map fst m)"
  by (simp add: map_sorted_def strict_sorted_iff)

lemma map_sorted_of_eq: "map_sorted m \<Longrightarrow> map_of m k = Some v \<longleftrightarrow> (k, v) \<in> set m"
  by (rule map_of_eq_Some_iff [OF map_sorted_distinct])

lemma map_erase_set: "set (map_erase k m) = {(k', v) \<in> set m. k' \<noteq> k}"
  by (auto simp: map_erase_def)

lemma map_has_dom: "map_has m k \<longleftrightarrow> k \<in> dom (map_of m)"
  by (simp add: map_has_def dom_def)

section \<open>Two maps that invert each other\<close>

locale assoc =
  fixes get :: "'m \<Rightarrow> 'k \<Rightarrow> 'v option"
    and put :: "'k \<Rightarrow> 'v \<Rightarrow> 'm \<Rightarrow> 'm"
    and erase :: "'k \<Rightarrow> 'm \<Rightarrow> 'm"
  assumes get_put: "get (put k v m) = (get m)(k \<mapsto> v)"
    and get_erase: "get (erase k m) = (get m)(k := None)"

locale two_way_map = fw: assoc getf putf erasef + bw: assoc getb putb eraseb
  for getf :: "'f \<Rightarrow> 'i \<Rightarrow> 's option" and putf erasef
    and getb :: "'b \<Rightarrow> 's \<Rightarrow> 'i option" and putb eraseb
begin

definition inverse_maps :: "'f \<Rightarrow> 'b \<Rightarrow> bool" where
  "inverse_maps f b \<longleftrightarrow> (\<forall>i s. getf f i = Some s \<longleftrightarrow> getb b s = Some i)"

lemma inverse_put_fresh:
  "inverse_maps f b \<Longrightarrow> getf f i = None \<Longrightarrow> getb b s = None \<Longrightarrow> inverse_maps (putf i s f) (putb s i b)"
  unfolding inverse_maps_def fw.get_put bw.get_put fun_upd_def by (metis option.distinct(1) option.inject)

lemma inverse_put_same:
  "inverse_maps f b \<Longrightarrow> getf f i = Some s \<Longrightarrow> inverse_maps (putf i s f) (putb s i b)"
  unfolding inverse_maps_def fw.get_put bw.get_put fun_upd_def by (metis option.inject)

lemma inverse_erase:
  "inverse_maps f b \<Longrightarrow> getf f i = Some s \<Longrightarrow> inverse_maps (erasef i f) (eraseb s b)"
  unfolding inverse_maps_def fw.get_erase bw.get_erase fun_upd_def by (metis option.distinct(1) option.inject)

lemma inverse_injective:
  "inverse_maps f b \<Longrightarrow> getf f i = Some s \<Longrightarrow> getf f j = Some s \<Longrightarrow> i = j"
  unfolding inverse_maps_def by (metis option.inject)

end

interpretation sm: two_way_map map_of map_put map_erase map_of map_put map_erase
  by unfold_locales simp_all

end
