(* ===== verification/Client_Base.thy ===== *)
theory Client_Base
  imports Std_Map Fifo_Spec
begin

text \<open>
  The client side of the location API, gps/location/LocationAPIClientBase.cpp and .h: the queues
  of requests that wait for their response, the dictionaries between the client's ids and the
  API's sessions, the control client and the location client. Calls to the API and to the
  client's callbacks are outputs, in order; what the API returns is an argument of the operation.
\<close>

section \<open>Data of LocationAPI.h\<close>

datatype LocationError =
  LOCATION_ERROR_SUCCESS | LOCATION_ERROR_GENERAL_FAILURE | LOCATION_ERROR_CALLBACK_MISSING
  | LOCATION_ERROR_INVALID_PARAMETER | LOCATION_ERROR_ID_EXISTS | LOCATION_ERROR_ID_UNKNOWN
  | LOCATION_ERROR_ALREADY_STARTED | LOCATION_ERROR_GEOFENCES_AT_MAX | LOCATION_ERROR_NOT_SUPPORTED

datatype GeofenceBreachType =
  GEOFENCE_BREACH_ENTER | GEOFENCE_BREACH_EXIT | GEOFENCE_BREACH_DWELL_IN | GEOFENCE_BREACH_DWELL_OUT
  | GEOFENCE_BREACH_UNKNOWN

type_synonym GeofenceBreachTypeMask = "16 word"

abbreviation (input) GEOFENCE_BREACH_ENTER_BIT :: GeofenceBreachTypeMask where
  "GEOFENCE_BREACH_ENTER_BIT \<equiv> 1"

abbreviation (input) GEOFENCE_BREACH_EXIT_BIT :: GeofenceBreachTypeMask where
  "GEOFENCE_BREACH_EXIT_BIT \<equiv> 2"

datatype BatchingMode = BATCHING_MODE_ROUTINE | BATCHING_MODE_TRIP | BATCHING_MODE_NO_AUTO_REPORT

datatype BatchingStatus =
  BATCHING_STATUS_TRIP_COMPLETED | BATCHING_STATUS_POSITION_AVAILABE | BATCHING_STATUS_POSITION_UNAVAILABLE

datatype GnssSuplMode = GNSS_SUPL_MODE_STANDALONE | GNSS_SUPL_MODE_MSB | GNSS_SUPL_MODE_MSA

datatype GnssNiResponse =
  GNSS_NI_RESPONSE_ACCEPT | GNSS_NI_RESPONSE_DENY | GNSS_NI_RESPONSE_NO_RESPONSE | GNSS_NI_RESPONSE_IGNORE

record LocationOptions =
  minInterval :: u32
  minDistance :: u32
  suplMode :: GnssSuplMode

record GeofenceOption =
  breachTypeMask :: GeofenceBreachTypeMask
  responsiveness :: u32
  dwellTime :: u32

text \<open>The pending geofence and configuration requests share one fixed session id.\<close>

abbreviation (input) GEOFENCE_SESSION_ID :: u32 where "GEOFENCE_SESSION_ID \<equiv> 0xFFFFFFFF"

abbreviation (input) CONFIG_SESSION_ID :: u32 where "CONFIG_SESSION_ID \<equiv> 0xFFFFFFFF"

text \<open>A session mode is a \<open>uint32_t\<close> compared with the enumerators of SESSION_MODE.\<close>

abbreviation (input) SESSION_MODE_NONE :: u32 where "SESSION_MODE_NONE \<equiv> 0"

abbreviation (input) SESSION_MODE_ON_FULL :: u32 where "SESSION_MODE_ON_FULL \<equiv> 1"

abbreviation (input) SESSION_MODE_ON_FIX :: u32 where "SESSION_MODE_ON_FIX \<equiv> 2"

abbreviation (input) SESSION_MODE_ON_TRIP_COMPLETED :: u32 where "SESSION_MODE_ON_TRIP_COMPLETED \<equiv> 3"

datatype REQUEST_TYPE = REQUEST_TRACKING | REQUEST_SESSION | REQUEST_GEOFENCE | REQUEST_NIRESPONSE

datatype CTRL_REQUEST_TYPE = CTRL_REQUEST_DELETEAIDINGDATA | CTRL_REQUEST_CONTROL | CTRL_REQUEST_CONFIG

section \<open>Request queues\<close>

record 'r RequestQueue =
  mSession :: u32
  mQueue :: "'r list"

definition rq_setSession :: "u32 \<Rightarrow> 'r RequestQueue \<Rightarrow> 'r RequestQueue" where
  "rq_setSession session q = q\<lparr>mSession := session\<rparr>"

text \<open>\<open>reset\<close> deletes the queued requests one by one; none of them is answered.\<close>

fun rq_drop_all :: "'r list \<Rightarrow> 'r list" where
  "rq_drop_all [] = []"
| "rq_drop_all (request # rs) = rq_drop_all rs"

definition rq_reset :: "u32 \<Rightarrow> 'r RequestQueue \<Rightarrow> 'r RequestQueue" where
  "rq_reset session q = q\<lparr>mQueue := rq_drop_all (mQueue q), mSession := session\<rparr>"

definition rq_push :: "'r \<Rightarrow> 'r RequestQueue \<Rightarrow> 'r RequestQueue" where
  "rq_push request q = q\<lparr>mQueue := mQueue q @ [request]\<rparr>"

definition rq_pop :: "'r RequestQueue \<Rightarrow> 'r option \<times> 'r RequestQueue" where
  "rq_pop q = (case mQueue q of [] \<Rightarrow> (None, q) | request # rs \<Rightarrow> (Some request, q\<lparr>mQueue := rs\<rparr>))"

lemma rq_drop_all_Nil [simp]: "rq_drop_all rs = []"
  by (induction rs) simp_all

lemma rq_simps [simp]:
  "mSession (rq_setSession n q) = n" "mQueue (rq_setSession n q) = mQueue q"
  "mSession (rq_reset n q) = n" "mQueue (rq_reset n q) = []"
  "mSession (rq_push r q) = mSession q" "mQueue (rq_push r q) = mQueue q @ [r]"
  by (simp_all add: rq_setSession_def rq_reset_def rq_push_def)

lemma rq_pop_simps [simp]:
  "mQueue q = [] \<Longrightarrow> rq_pop q = (None, q)"
  "mQueue q = r # rs \<Longrightarrow> rq_pop q = (Some r, q\<lparr>mQueue := rs\<rparr>)"
  by (simp_all add: rq_pop_def)

lemma rq_pop_session [simp]: "rq_pop q = (r, q') \<Longrightarrow> mSession q' = mSession q"
  by (auto simp: rq_pop_def split: list.splits)

text \<open>The queue keeps the contract of a first-in first-out store.\<close>

definition rq_enq :: "unit \<Rightarrow> 'r \<Rightarrow> 'r RequestQueue \<Rightarrow> 'r RequestQueue option" where
  "rq_enq u request q = Some (rq_push request q)"

definition rq_deq :: "'r RequestQueue \<Rightarrow> ('r option \<times> 'r RequestQueue) option" where
  "rq_deq q = Some (rq_pop q)"

interpretation rq: fifo "\<lambda>q rs. mQueue q = rs" "\<lambda>u q. True" rq_enq rq_deq
  by unfold_locales (simp_all add: rq_enq_def rq_deq_def)

section \<open>The two-way dictionary\<close>

record 'e BiDict =
  mForwardMap :: "(u32, u32) std_map"
  mBackwardMap :: "(u32, u32) std_map"
  mExtMap :: "(u32, 'e) std_map"

definition bd_new :: "'e BiDict" where
  "bd_new = \<lparr>mForwardMap = [], mBackwardMap = [], mExtMap = []\<rparr>"

definition bd_hasId :: "u32 \<Rightarrow> 'e BiDict \<Rightarrow> bool" where
  "bd_hasId i d = map_has (mForwardMap d) i"

definition bd_hasSession :: "u32 \<Rightarrow> 'e BiDict \<Rightarrow> bool" where
  "bd_hasSession session d = map_has (mBackwardMap d) session"

definition bd_set :: "u32 \<Rightarrow> u32 \<Rightarrow> 'e \<Rightarrow> 'e BiDict \<Rightarrow> 'e BiDict" where
  "bd_set i session ext d =
     d\<lparr>mForwardMap := map_put i session (mForwardMap d),
       mBackwardMap := map_put session i (mBackwardMap d),
       mExtMap := map_put session ext (mExtMap d)\<rparr>"

definition bd_clear :: "'e BiDict \<Rightarrow> 'e BiDict" where
  "bd_clear d = d\<lparr>mForwardMap := [], mBackwardMap := [], mExtMap := []\<rparr>"

definition bd_rmById :: "u32 \<Rightarrow> 'e BiDict \<Rightarrow> 'e BiDict" where
  "bd_rmById i d =
     (let (session, fw) = map_index i 0 (mForwardMap d);
          bw = map_erase session (mBackwardMap d);
          (session', fw') = map_index i 0 fw;
          ex = map_erase session' (mExtMap d)
      in d\<lparr>mForwardMap := map_erase i fw', mBackwardMap := bw, mExtMap := ex\<rparr>)"

definition bd_rmBySession :: "u32 \<Rightarrow> 'e BiDict \<Rightarrow> 'e BiDict" where
  "bd_rmBySession session d =
     (let (i, bw) = map_index session 0 (mBackwardMap d)
      in d\<lparr>mForwardMap := map_erase i (mForwardMap d),
           mBackwardMap := map_erase session bw,
           mExtMap := map_erase session (mExtMap d)\<rparr>)"

definition bd_getId :: "u32 \<Rightarrow> 'e BiDict \<Rightarrow> u32" where
  "bd_getId session d = (case map_of (mBackwardMap d) session of None \<Rightarrow> 0 | Some i \<Rightarrow> i)"

definition bd_getSession :: "u32 \<Rightarrow> 'e BiDict \<Rightarrow> u32" where
  "bd_getSession i d = (case map_of (mForwardMap d) i of None \<Rightarrow> 0 | Some session \<Rightarrow> session)"

text \<open>\<open>zero\<close> is the all-zero value of \<open>T\<close> that memset leaves.\<close>

definition bd_getExtById :: "'e \<Rightarrow> u32 \<Rightarrow> 'e BiDict \<Rightarrow> 'e \<times> 'e BiDict" where
  "bd_getExtById zero i d =
     (let (session, fw) = map_index i 0 (mForwardMap d)
      in (if 0 < session
          then (case map_of (mExtMap d) session of None \<Rightarrow> zero | Some ext \<Rightarrow> ext)
          else zero,
          d\<lparr>mForwardMap := fw\<rparr>))"

definition bd_getExtBySession :: "'e \<Rightarrow> u32 \<Rightarrow> 'e BiDict \<Rightarrow> 'e" where
  "bd_getExtBySession zero session d =
     (case map_of (mExtMap d) session of None \<Rightarrow> zero | Some ext \<Rightarrow> ext)"

definition bd_getAllSessions :: "'e BiDict \<Rightarrow> u32 list" where
  "bd_getAllSessions d = map fst (mBackwardMap d)"

text \<open>
  The dictionary is consistent: its maps are sorted, the forward and the backward map hold the
  same pairs, the extensions belong to exactly the known sessions.
\<close>

definition bd_ok :: "'e BiDict \<Rightarrow> bool" where
  "bd_ok d \<longleftrightarrow> map_sorted (mForwardMap d) \<and> map_sorted (mBackwardMap d) \<and> map_sorted (mExtMap d) \<and>
     set (mForwardMap d) = prod.swap ` set (mBackwardMap d) \<and>
     fst ` set (mExtMap d) = fst ` set (mBackwardMap d)"

definition bd_pairs :: "'e BiDict \<Rightarrow> (u32 \<times> u32) set" where
  "bd_pairs d = set (mForwardMap d)"

lemma bd_ok_iff:
  "bd_ok d \<longleftrightarrow> map_sorted (mForwardMap d) \<and> map_sorted (mBackwardMap d) \<and> map_sorted (mExtMap d) \<and>
     sm.inverse_maps (mForwardMap d) (mBackwardMap d) \<and>
     dom (map_of (mExtMap d)) = dom (map_of (mBackwardMap d))"
proof -
  have "set f = prod.swap ` set b \<longleftrightarrow> sm.inverse_maps f b"
    if "map_sorted f" "map_sorted b" for f b :: "(u32, u32) std_map"
  proof -
    have "set f = prod.swap ` set b \<longleftrightarrow> (\<forall>i s. (i, s) \<in> set f \<longleftrightarrow> (i, s) \<in> prod.swap ` set b)"
      by (auto simp: set_eq_iff)
    also have "\<dots> \<longleftrightarrow> (\<forall>i s. (i, s) \<in> set f \<longleftrightarrow> (s, i) \<in> set b)"
      by (force simp: image_iff)
    finally show ?thesis
      unfolding sm.inverse_maps_def by (simp add: map_sorted_of_eq [OF that(1)] map_sorted_of_eq [OF that(2)])
  qed
  then show ?thesis
    unfolding bd_ok_def dom_map_of_conv_image_fst by blast
qed

lemma bd_ok_new [simp]: "bd_ok bd_new"
  by (simp add: bd_ok_def bd_new_def)

lemma bd_ok_clear [simp]: "bd_ok (bd_clear d)"
  by (simp add: bd_ok_def bd_clear_def)

lemma bd_has_iff:
  "bd_hasId i d \<longleftrightarrow> map_of (mForwardMap d) i \<noteq> None"
  "bd_hasSession s d \<longleftrightarrow> map_of (mBackwardMap d) s \<noteq> None"
  by (simp_all add: bd_hasId_def bd_hasSession_def map_has_def)

lemma bd_ok_Some: "bd_ok d \<Longrightarrow> map_of (mForwardMap d) i = Some s \<longleftrightarrow> map_of (mBackwardMap d) s = Some i"
  by (simp add: bd_ok_iff sm.inverse_maps_def)

lemma bd_ok_set_fresh:
  "bd_ok d \<Longrightarrow> \<not> bd_hasId i d \<Longrightarrow> \<not> bd_hasSession s d \<Longrightarrow> bd_ok (bd_set i s e d)"
  by (simp add: bd_ok_iff bd_set_def bd_has_iff sm.inverse_put_fresh)

lemma bd_ok_set_same:
  "bd_ok d \<Longrightarrow> map_of (mForwardMap d) i = Some s \<Longrightarrow> bd_ok (bd_set i s e d)"
  by (simp add: bd_ok_iff bd_set_def sm.inverse_put_same)

lemma map_index_Some [simp]: "map_of m k = Some v \<Longrightarrow> map_index k z m = (v, m)"
  by (simp add: map_index_def)

lemma bd_rmBySession_known:
  "map_of (mBackwardMap d) s = Some i \<Longrightarrow>
   bd_rmBySession s d = d\<lparr>mForwardMap := map_erase i (mForwardMap d),
     mBackwardMap := map_erase s (mBackwardMap d), mExtMap := map_erase s (mExtMap d)\<rparr>"
  by (simp add: bd_rmBySession_def)

lemma bd_rmById_known:
  "map_of (mForwardMap d) i = Some s \<Longrightarrow>
   bd_rmById i d = d\<lparr>mForwardMap := map_erase i (mForwardMap d),
     mBackwardMap := map_erase s (mBackwardMap d), mExtMap := map_erase s (mExtMap d)\<rparr>"
  by (simp add: bd_rmById_def)

lemma bd_rmById_eq_rmBySession:
  "bd_ok d \<Longrightarrow> map_of (mForwardMap d) i = Some s \<Longrightarrow> bd_rmById i d = bd_rmBySession s d"
  by (simp add: bd_rmById_known bd_rmBySession_known bd_ok_Some)

lemma bd_ok_rmBySession: "bd_ok d \<Longrightarrow> bd_hasSession s d \<Longrightarrow> bd_ok (bd_rmBySession s d)"
  by (auto simp: bd_has_iff bd_ok_Some [symmetric] bd_rmBySession_known, simp add: bd_ok_iff sm.inverse_erase)

lemma bd_getSession_eq:
  "map_of (mForwardMap d) i = Some s \<Longrightarrow> bd_getSession i d = s"
  "map_of (mForwardMap d) i = None \<Longrightarrow> bd_getSession i d = 0"
  by (simp_all add: bd_getSession_def)

lemma bd_getId_eq:
  "map_of (mBackwardMap d) s = Some i \<Longrightarrow> bd_getId s d = i"
  "map_of (mBackwardMap d) s = None \<Longrightarrow> bd_getId s d = 0"
  by (simp_all add: bd_getId_def)

text \<open>A positive session comes from a known id.\<close>

lemma bd_getSession_pos:
  "0 < bd_getSession i d \<Longrightarrow> map_of (mForwardMap d) i = Some (bd_getSession i d)"
  by (simp add: bd_getSession_def split: option.splits)

lemma bd_getExtById_known:
  "bd_ok d \<Longrightarrow> map_of (mForwardMap d) i = Some s \<Longrightarrow> 0 < s \<Longrightarrow>
   bd_getExtById zero i d = (bd_getExtBySession zero s d, d)"
  by (simp add: bd_getExtById_def bd_getExtBySession_def)

lemma bd_set_simps [simp]:
  "mForwardMap (bd_set i s e d) = map_put i s (mForwardMap d)"
  "mBackwardMap (bd_set i s e d) = map_put s i (mBackwardMap d)"
  "mExtMap (bd_set i s e d) = map_put s e (mExtMap d)"
  by (simp_all add: bd_set_def)

lemma bd_new_simps [simp]: "mForwardMap bd_new = []" "mBackwardMap bd_new = []" "mExtMap bd_new = []"
  by (simp_all add: bd_new_def)

section \<open>The control client\<close>

datatype CtrlRequest =
  GnssDeleteAidingDataRequest | EnableRequest | DisableRequest | GnssUpdateConfigRequest

text \<open>\<open>'c\<close> is GnssConfig, \<open>'d\<close> GnssAidingData; both only pass through.\<close>

datatype ('c, 'd) ctrl_out =
  Api_gnssDeleteAidingData 'd
| Api_enable int
| Api_disable u32
| Api_gnssUpdateConfig 'c
| Api_ctrl_destroy
| Cb_onGnssDeleteAidingData LocationError
| Cb_onEnable LocationError
| Cb_onDisable LocationError
| Cb_onGnssUpdateConfig "LocationError list" "u32 list"

record 'c CtrlClient =
  mLocationControlAPI :: bool
  mCtrlQueues :: "CTRL_REQUEST_TYPE \<Rightarrow> CtrlRequest RequestQueue"
  mEnabled :: bool
  mConfig :: 'c

definition ctrl_upd ::
  "CTRL_REQUEST_TYPE \<Rightarrow> (CtrlRequest RequestQueue \<Rightarrow> CtrlRequest RequestQueue) \<Rightarrow> 'c CtrlClient \<Rightarrow> 'c CtrlClient" where
  "ctrl_upd t g c = c\<lparr>mCtrlQueues := (mCtrlQueues c)(t := g (mCtrlQueues c t))\<rparr>"

text \<open>\<open>zero_config\<close> is the zeroed GnssConfig; \<open>created\<close> that createInstance returned an object.\<close>

definition ctrl_new :: "'c \<Rightarrow> bool \<Rightarrow> 'c CtrlClient" where
  "ctrl_new zero_config created =
     \<lparr>mLocationControlAPI = created, mCtrlQueues = (\<lambda>_. \<lparr>mSession = 0, mQueue = []\<rparr>),
      mEnabled = False, mConfig = zero_config\<rparr>"

definition ctrl_destroy :: "'c CtrlClient \<Rightarrow> ('c, 'd) ctrl_out list \<times> 'c CtrlClient" where
  "ctrl_destroy c =
     ((if mLocationControlAPI c then [Api_ctrl_destroy] else []),
      c\<lparr>mLocationControlAPI := False, mCtrlQueues := (\<lambda>t. rq_reset 0 (mCtrlQueues c t))\<rparr>)"

definition locAPIGnssDeleteAidingData ::
  "'d \<Rightarrow> u32 \<Rightarrow> 'c CtrlClient \<Rightarrow> LocationError \<times> ('c, 'd) ctrl_out list \<times> 'c CtrlClient" where
  "locAPIGnssDeleteAidingData data session c =
     (if mLocationControlAPI c
      then (LOCATION_ERROR_SUCCESS, [Api_gnssDeleteAidingData data],
            ctrl_upd CTRL_REQUEST_DELETEAIDINGDATA
              (\<lambda>q. rq_push GnssDeleteAidingDataRequest (rq_reset session q)) c)
      else (LOCATION_ERROR_GENERAL_FAILURE, [], c))"

definition locAPIEnable ::
  "int \<Rightarrow> u32 \<Rightarrow> 'c CtrlClient \<Rightarrow> LocationError \<times> ('c, 'd) ctrl_out list \<times> 'c CtrlClient" where
  "locAPIEnable techType session c =
     (if mEnabled c then (LOCATION_ERROR_SUCCESS, [], c)
      else if mLocationControlAPI c
      then (LOCATION_ERROR_SUCCESS, [Api_enable techType],
            (ctrl_upd CTRL_REQUEST_CONTROL (\<lambda>q. rq_push EnableRequest (rq_reset session q)) c)
              \<lparr>mEnabled := True\<rparr>)
      else (LOCATION_ERROR_GENERAL_FAILURE, [], c))"

definition locAPIDisable :: "'c CtrlClient \<Rightarrow> ('c, 'd) ctrl_out list \<times> 'c CtrlClient" where
  "locAPIDisable c =
     (if mEnabled c \<and> mLocationControlAPI c
      then (let session = mSession (mCtrlQueues c CTRL_REQUEST_CONTROL)
            in if 0 < session
               then ([Api_disable session],
                     (ctrl_upd CTRL_REQUEST_CONTROL (rq_push DisableRequest) c)\<lparr>mEnabled := False\<rparr>)
               else ([], c))
      else ([], c))"

text \<open>The argument \<open>idArray\<close> says whether gnssUpdateConfig returned an array of ids.\<close>

definition locAPIGnssUpdateConfig ::
  "'c \<Rightarrow> bool \<Rightarrow> 'c CtrlClient \<Rightarrow> LocationError \<times> ('c, 'd) ctrl_out list \<times> 'c CtrlClient" where
  "locAPIGnssUpdateConfig config idArray c =
     (if mConfig c = config then (LOCATION_ERROR_SUCCESS, [], c)
      else if mLocationControlAPI c
      then (let c = c\<lparr>mConfig := config\<rparr>
            in if idArray
               then (LOCATION_ERROR_SUCCESS, [Api_gnssUpdateConfig config],
                     ctrl_upd CTRL_REQUEST_CONFIG
                       (\<lambda>q. rq_push GnssUpdateConfigRequest
                          (if mSession q \<noteq> CONFIG_SESSION_ID then rq_reset CONFIG_SESSION_ID q else q)) c)
               else (LOCATION_ERROR_GENERAL_FAILURE, [Api_gnssUpdateConfig config], c))
      else (LOCATION_ERROR_GENERAL_FAILURE, [], c))"

fun ctrl_onResponse :: "CtrlRequest \<Rightarrow> LocationError \<Rightarrow> ('c, 'd) ctrl_out list" where
  "ctrl_onResponse GnssDeleteAidingDataRequest err = [Cb_onGnssDeleteAidingData err]"
| "ctrl_onResponse EnableRequest err = [Cb_onEnable err]"
| "ctrl_onResponse DisableRequest err = [Cb_onDisable err]"
| "ctrl_onResponse GnssUpdateConfigRequest err = []"

fun ctrl_onCollectiveResponse ::
  "CtrlRequest \<Rightarrow> LocationError list \<Rightarrow> u32 list \<Rightarrow> ('c, 'd) ctrl_out list" where
  "ctrl_onCollectiveResponse GnssUpdateConfigRequest errors ids = [Cb_onGnssUpdateConfig errors ids]"
| "ctrl_onCollectiveResponse r errors ids = []"

text \<open>The loop over the queues of getRequestBySession; the first queue of the session is popped.\<close>

fun ctrl_find_request ::
  "CTRL_REQUEST_TYPE list \<Rightarrow> u32 \<Rightarrow> 'c CtrlClient \<Rightarrow> CtrlRequest option \<times> 'c CtrlClient" where
  "ctrl_find_request [] session c = (None, c)"
| "ctrl_find_request (t # ts) session c =
     (if t \<noteq> CTRL_REQUEST_CONFIG \<and> mSession (mCtrlQueues c t) = session
      then (let (r, q) = rq_pop (mCtrlQueues c t) in (r, ctrl_upd t (\<lambda>_. q) c))
      else ctrl_find_request ts session c)"

definition ctrl_getRequestBySession :: "u32 \<Rightarrow> 'c CtrlClient \<Rightarrow> CtrlRequest option \<times> 'c CtrlClient" where
  "ctrl_getRequestBySession session c =
     ctrl_find_request [CTRL_REQUEST_DELETEAIDINGDATA, CTRL_REQUEST_CONTROL, CTRL_REQUEST_CONFIG] session c"

definition onCtrlResponseCb ::
  "LocationError \<Rightarrow> u32 \<Rightarrow> 'c CtrlClient \<Rightarrow> ('c, 'd) ctrl_out list \<times> 'c CtrlClient" where
  "onCtrlResponseCb err i c =
     (case ctrl_getRequestBySession i c of
        (None, c') \<Rightarrow> ([], c')
      | (Some r, c') \<Rightarrow> (ctrl_onResponse r err, c'))"

definition onCtrlCollectiveResponseCb ::
  "LocationError list \<Rightarrow> u32 list \<Rightarrow> 'c CtrlClient \<Rightarrow> ('c, 'd) ctrl_out list \<times> 'c CtrlClient" where
  "onCtrlCollectiveResponseCb errors ids c =
     (if mSession (mCtrlQueues c CTRL_REQUEST_CONFIG) = CONFIG_SESSION_ID
      then (case rq_pop (mCtrlQueues c CTRL_REQUEST_CONFIG) of
              (None, q) \<Rightarrow> ([], c)
            | (Some r, q) \<Rightarrow>
                (ctrl_onCollectiveResponse r errors ids, ctrl_upd CTRL_REQUEST_CONFIG (\<lambda>_. q) c))
      else ([], c))"

section \<open>The location client: data\<close>

record SessionEntity =
  se_id :: u32
  trackingSession :: u32
  batchingSession :: u32
  sessionMode :: u32

definition zero_entity :: SessionEntity where
  "zero_entity = \<lparr>se_id = 0, trackingSession = 0, batchingSession = 0, sessionMode = 0\<rparr>"

datatype Request =
  StartTrackingRequest | StopTrackingRequest | UpdateTrackingOptionsRequest
| StartBatchingRequest | StopBatchingRequest | UpdateBatchingOptionsRequest | GetBatchedLocationsRequest
| AddGeofencesRequest | RemoveGeofencesRequest "GeofenceBreachTypeMask BiDict option"
| ModifyGeofencesRequest | PauseGeofencesRequest | ResumeGeofencesRequest | GnssNiResponseRequest

text \<open>\<open>'g\<close> is GeofenceInfo; \<open>'l\<close> the location and time stamp of a breach. A callback is a number.\<close>

datatype ('g, 'l) client_out =
  Api_createInstance bool bool
| Api_updateCallbacks bool bool
| Api_destroy
| Api_startTracking LocationOptions
| Api_stopTracking u32
| Api_updateTrackingOptions u32 LocationOptions
| Api_startBatching LocationOptions BatchingMode
| Api_stopBatching u32
| Api_updateBatchingOptions u32 LocationOptions BatchingMode
| Api_getBatchedLocations u32 nat
| Api_addGeofences "GeofenceOption list" "'g list"
| Api_removeGeofences "u32 list"
| Api_modifyGeofences "u32 list" "GeofenceOption list"
| Api_pauseGeofences "u32 list"
| Api_resumeGeofences "u32 list"
| Api_gnssNiResponse u32 GnssNiResponse
| Cb_onStartTracking LocationError | Cb_onStopTracking LocationError
| Cb_onUpdateTrackingOptions LocationError
| Cb_onStartBatching LocationError | Cb_onStopBatching LocationError
| Cb_onUpdateBatchingOptions LocationError | Cb_onGetBatchedLocations LocationError
| Cb_onAddGeofences "LocationError list" "u32 list"
| Cb_onRemoveGeofences "LocationError list" "u32 list"
| Cb_onModifyGeofences "LocationError list" "u32 list"
| Cb_onPauseGeofences "LocationError list" "u32 list"
| Cb_onResumeGeofences "LocationError list" "u32 list"
| Cb_onGnssNiResponse LocationError
| Cb_geofenceBreach nat "u32 list" GeofenceBreachType 'l
| Cb_batchingStatus "nat option" BatchingStatus "u32 list"

record Client =
  mGeofenceBreachCallback :: "nat option"
  mBatchingStatusCallback :: "nat option"
  mLocationAPI :: bool
  mRequestQueues :: "REQUEST_TYPE \<Rightarrow> Request RequestQueue"
  mGeofenceBiDict :: "GeofenceBreachTypeMask BiDict"
  mSessionBiDict :: "SessionEntity BiDict"
  mBatchSize :: int
  mTracking :: bool

definition client_new :: Client where
  "client_new =
     \<lparr>mGeofenceBreachCallback = None, mBatchingStatusCallback = None, mLocationAPI = False,
      mRequestQueues = (\<lambda>_. rq_reset 0 \<lparr>mSession = 0, mQueue = []\<rparr>),
      mGeofenceBiDict = bd_new, mSessionBiDict = bd_new, mBatchSize = -1, mTracking = False\<rparr>"

definition queue_upd ::
  "REQUEST_TYPE \<Rightarrow> (Request RequestQueue \<Rightarrow> Request RequestQueue) \<Rightarrow> Client \<Rightarrow> Client" where
  "queue_upd t g c = c\<lparr>mRequestQueues := (mRequestQueues c)(t := g (mRequestQueues c t))\<rparr>"

text \<open>\<open>created\<close>: createInstance returned an object. The callbacks are installed wrapped.\<close>

definition locAPISetCallbacks ::
  "nat option \<Rightarrow> nat option \<Rightarrow> bool \<Rightarrow> Client \<Rightarrow> ('g, 'l) client_out list \<times> Client" where
  "locAPISetCallbacks geofenceBreachCb batchingStatusCb created c =
     (let c = (if geofenceBreachCb \<noteq> None then c\<lparr>mGeofenceBreachCallback := geofenceBreachCb\<rparr> else c);
          c = (if batchingStatusCb \<noteq> None then c\<lparr>mBatchingStatusCallback := batchingStatusCb\<rparr> else c)
      in if \<not> mLocationAPI c
         then ([Api_createInstance (geofenceBreachCb \<noteq> None) (batchingStatusCb \<noteq> None)],
               c\<lparr>mLocationAPI := created\<rparr>)
         else ([Api_updateCallbacks (geofenceBreachCb \<noteq> None) (batchingStatusCb \<noteq> None)], c))"

definition client_destroy :: "Client \<Rightarrow> ('g, 'l) client_out list \<times> Client" where
  "client_destroy c =
     ((if mLocationAPI c then [Api_destroy] else []),
      c\<lparr>mGeofenceBreachCallback := None, mLocationAPI := False,
        mRequestQueues := (\<lambda>t. rq_reset 0 (mRequestQueues c t))\<rparr>)"

end
