(* ===== verification/Location_Client.thy ===== *)
theory Location_Client
  imports Client_Base
begin

unbundle bit_operations_syntax

text \<open>
  The operations of LocationAPIClientBase (gps/location/LocationAPIClientBase.cpp): tracking,
  sessions, geofences and the dispatch of the API's responses and reports. Each operation holds
  the client's recursive mutex and is one function from state to state and outputs; what the
  API call returns is an argument.
\<close>

section \<open>Tracking\<close>

definition locAPIStartTracking ::
  "LocationOptions \<Rightarrow> u32 \<Rightarrow> Client \<Rightarrow> LocationError \<times> ('g, 'l) client_out list \<times> Client" where
  "locAPIStartTracking options session c =
     (if mLocationAPI c
      then if mTracking c then (LOCATION_ERROR_SUCCESS, [], c)
           else (LOCATION_ERROR_SUCCESS, [Api_startTracking options],
                 (queue_upd REQUEST_TRACKING (\<lambda>q. rq_push StartTrackingRequest (rq_reset session q)) c)
                   \<lparr>mTracking := True\<rparr>)
      else (LOCATION_ERROR_GENERAL_FAILURE, [], c))"

definition locAPIStopTracking :: "Client \<Rightarrow> ('g, 'l) client_out list \<times> Client" where
  "locAPIStopTracking c =
     (if mLocationAPI c
      then (let session = mSession (mRequestQueues c REQUEST_TRACKING)
            in if 0 < session
               then ([Api_stopTracking session],
                     (queue_upd REQUEST_TRACKING (rq_push StopTrackingRequest) c)\<lparr>mTracking := False\<rparr>)
               else ([], c))
      else ([], c))"

definition locAPIUpdateTrackingOptions ::
  "LocationOptions \<Rightarrow> Client \<Rightarrow> ('g, 'l) client_out list \<times> Client" where
  "locAPIUpdateTrackingOptions options c =
     (if mLocationAPI c
      then (let session = mSession (mRequestQueues c REQUEST_TRACKING)
            in if 0 < session
               then ([Api_updateTrackingOptions session options],
                     queue_upd REQUEST_TRACKING (rq_push UpdateTrackingOptionsRequest) c)
               else ([], c))
      else ([], c))"

section \<open>Sessions\<close>

text \<open>\<open>conf\<close> is the value of BATCH_SIZE in the configuration file, when it has one.\<close>

definition locAPIGetBatchSize :: "int option \<Rightarrow> Client \<Rightarrow> int \<times> Client" where
  "locAPIGetBatchSize conf c =
     (if mBatchSize c = -1
      then (let n = (case conf of None \<Rightarrow> mBatchSize c | Some n \<Rightarrow> n);
                c = c\<lparr>mBatchSize := (if n < 0 then 0 else n)\<rparr>
            in (mBatchSize c, c))
      else (mBatchSize c, c))"

definition batching_mode_of :: "u32 \<Rightarrow> BatchingMode" where
  "batching_mode_of mode =
     (if mode = SESSION_MODE_ON_FULL then BATCHING_MODE_ROUTINE
      else if mode = SESSION_MODE_ON_TRIP_COMPLETED then BATCHING_MODE_TRIP
      else BATCHING_MODE_NO_AUTO_REPORT)"

text \<open>\<open>ret\<close> is the session that the call to startTracking or startBatching returns.\<close>

definition locAPIStartSession ::
  "u32 \<Rightarrow> u32 \<Rightarrow> LocationOptions \<Rightarrow> u32 \<Rightarrow> Client \<Rightarrow> LocationError \<times> ('g, 'l) client_out list \<times> Client" where
  "locAPIStartSession i mode options ret c =
     (if mLocationAPI c
      then if bd_hasId i (mSessionBiDict c) then (LOCATION_ERROR_ALREADY_STARTED, [], c)
           else let (tracking, batching, out, c) =
                      (if mode = SESSION_MODE_ON_FIX
                       then (ret, 0, [Api_startTracking options],
                             queue_upd REQUEST_SESSION (rq_push StartTrackingRequest) c)
                       else (0, ret, [Api_startBatching options (batching_mode_of mode)],
                             queue_upd REQUEST_SESSION
                               (\<lambda>q. rq_push StartBatchingRequest (rq_setSession ret q)) c));
                    session = (if mode \<noteq> SESSION_MODE_ON_FIX then batching else tracking);
                    entity = \<lparr>se_id = i, trackingSession = tracking, batchingSession = batching,
                              sessionMode = mode\<rparr>
                in (LOCATION_ERROR_SUCCESS, out,
                    c\<lparr>mSessionBiDict := bd_set i session entity (mSessionBiDict c)\<rparr>)
      else (LOCATION_ERROR_GENERAL_FAILURE, [], c))"

definition locAPIStopSession ::
  "u32 \<Rightarrow> Client \<Rightarrow> LocationError \<times> ('g, 'l) client_out list \<times> Client" where
  "locAPIStopSession i c =
     (if mLocationAPI c
      then if bd_hasId i (mSessionBiDict c)
           then let (entity, d) = bd_getExtById zero_entity i (mSessionBiDict c);
                    c = c\<lparr>mSessionBiDict := d\<rparr>
                in if sessionMode entity = SESSION_MODE_ON_FIX
                   then (LOCATION_ERROR_SUCCESS, [Api_stopTracking (trackingSession entity)],
                         queue_upd REQUEST_SESSION (rq_push StopTrackingRequest) c)
                   else (LOCATION_ERROR_SUCCESS, [Api_stopBatching (batchingSession entity)],
                         queue_upd REQUEST_SESSION (rq_push StopBatchingRequest) c)
           else (LOCATION_ERROR_ID_UNKNOWN, [], c)
      else (LOCATION_ERROR_GENERAL_FAILURE, [], c))"

definition locAPIUpdateSessionOptions ::
  "u32 \<Rightarrow> u32 \<Rightarrow> LocationOptions \<Rightarrow> u32 \<Rightarrow> Client \<Rightarrow> LocationError \<times> ('g, 'l) client_out list \<times> Client" where
  "locAPIUpdateSessionOptions i mode options ret c =
     (if mLocationAPI c
      then if bd_hasId i (mSessionBiDict c)
           then let (entity, d) = bd_getExtById zero_entity i (mSessionBiDict c);
                    c = c\<lparr>mSessionBiDict := d\<rparr>;
                    tracking = trackingSession entity;
                    batching = batchingSession entity;
                    sMode = sessionMode entity;
                    (tracking, batching, out, c) =
                      (if mode = SESSION_MODE_ON_FIX
                       then let c = queue_upd REQUEST_SESSION (rq_push UpdateTrackingOptionsRequest) c
                            in if sMode = SESSION_MODE_ON_FIX
                               then (tracking, batching, [Api_updateTrackingOptions tracking options], c)
                               else (ret, 0, [Api_stopBatching batching, Api_startTracking options],
                                     queue_upd REQUEST_SESSION (rq_setSession 0) c)
                       else let c = queue_upd REQUEST_SESSION (rq_push UpdateBatchingOptionsRequest) c
                            in if sMode = SESSION_MODE_ON_FIX
                               then (0, ret,
                                     [Api_stopTracking tracking,
                                      Api_startBatching options (batching_mode_of mode)],
                                     queue_upd REQUEST_SESSION (rq_setSession ret) c)
                               else (tracking, batching,
                                     [Api_updateBatchingOptions batching options (batching_mode_of mode)], c));
                    session = (if mode \<noteq> SESSION_MODE_ON_FIX then batching else tracking);
                    entity = entity\<lparr>trackingSession := tracking, batchingSession := batching,
                                    sessionMode := mode\<rparr>
                in (LOCATION_ERROR_SUCCESS, out,
                    c\<lparr>mSessionBiDict := bd_set i session entity (bd_rmById i (mSessionBiDict c))\<rparr>)
           else (LOCATION_ERROR_ID_UNKNOWN, [], c)
      else (LOCATION_ERROR_GENERAL_FAILURE, [], c))"

definition locAPIGetBatchedLocations ::
  "u32 \<Rightarrow> nat \<Rightarrow> Client \<Rightarrow> LocationError \<times> ('g, 'l) client_out list \<times> Client" where
  "locAPIGetBatchedLocations i cnt c =
     (if mLocationAPI c
      then if bd_hasId i (mSessionBiDict c)
           then let (entity, d) = bd_getExtById zero_entity i (mSessionBiDict c);
                    c = c\<lparr>mSessionBiDict := d\<rparr>
                in if sessionMode entity \<noteq> SESSION_MODE_ON_FIX
                   then (LOCATION_ERROR_SUCCESS, [Api_getBatchedLocations (batchingSession entity) cnt],
                         queue_upd REQUEST_SESSION (rq_push GetBatchedLocationsRequest) c)
                   else (LOCATION_ERROR_NOT_SUPPORTED, [], c)
           else (LOCATION_ERROR_ID_UNKNOWN, [], c)
      else (LOCATION_ERROR_GENERAL_FAILURE, [], c))"

section \<open>Geofences\<close>

text \<open>
  The arrays \<open>ids\<close>, \<open>sessions\<close>, \<open>options\<close> of an operation have \<open>count\<close> elements each; the loops
  stop with the shortest of them.
\<close>

fun add_loop ::
  "u32 list \<Rightarrow> u32 list \<Rightarrow> GeofenceOption list \<Rightarrow> GeofenceBreachTypeMask BiDict \<Rightarrow> GeofenceBreachTypeMask BiDict" where
  "add_loop (i # ids) (session # sessions) (option # options) d =
     add_loop ids sessions options (bd_set i session (breachTypeMask option) d)"
| "add_loop ids sessions options d = d"

definition locAPIAddGeofences ::
  "u32 list \<Rightarrow> GeofenceOption list \<Rightarrow> 'g list \<Rightarrow> u32 list option \<Rightarrow> Client \<Rightarrow>
   LocationError \<times> ('g, 'l) client_out list \<times> Client" where
  "locAPIAddGeofences ids options data ret c =
     (if mLocationAPI c
      then let c = (if mSession (mRequestQueues c REQUEST_GEOFENCE) \<noteq> GEOFENCE_SESSION_ID
                    then queue_upd REQUEST_GEOFENCE (rq_reset GEOFENCE_SESSION_ID) c else c)
           in case ret of
                None \<Rightarrow> (LOCATION_ERROR_GENERAL_FAILURE, [Api_addGeofences options data], c)
              | Some sessions \<Rightarrow>
                  (LOCATION_ERROR_SUCCESS, [Api_addGeofences options data],
                   (queue_upd REQUEST_GEOFENCE (rq_push AddGeofencesRequest) c)
                     \<lparr>mGeofenceBiDict := add_loop ids sessions options (mGeofenceBiDict c)\<rparr>)
      else (LOCATION_ERROR_GENERAL_FAILURE, [], c))"

fun remove_loop ::
  "u32 list \<Rightarrow> GeofenceBreachTypeMask BiDict \<Rightarrow> GeofenceBreachTypeMask BiDict \<Rightarrow>
   u32 list \<times> GeofenceBreachTypeMask BiDict \<times> GeofenceBreachTypeMask BiDict" where
  "remove_loop [] d removed = ([], d, removed)"
| "remove_loop (i # ids) d removed =
     (let session = bd_getSession i d
      in if 0 < session
         then (let type = bd_getExtBySession 0 session d;
                   (sessions, d', removed') =
                     remove_loop ids (bd_rmBySession session d) (bd_set i session type removed)
               in (session # sessions, d', removed'))
         else remove_loop ids d removed)"

text \<open>\<open>alloc\<close>: malloc returned a block for the array of sessions.\<close>

definition locAPIRemoveGeofences ::
  "u32 list \<Rightarrow> bool \<Rightarrow> Client \<Rightarrow> ('g, 'l) client_out list \<times> Client" where
  "locAPIRemoveGeofences ids alloc c =
     (if mLocationAPI c
      then if \<not> alloc then ([], c)
           else if mSession (mRequestQueues c REQUEST_GEOFENCE) = GEOFENCE_SESSION_ID
           then (let (sessions, d, removed) = remove_loop ids (mGeofenceBiDict c) bd_new;
                     c = c\<lparr>mGeofenceBiDict := d\<rparr>
                 in if sessions \<noteq> []
                    then ([Api_removeGeofences sessions],
                          queue_upd REQUEST_GEOFENCE (rq_push (RemoveGeofencesRequest (Some removed))) c)
                    else ([], c))
           else ([], c)
      else ([], c))"

fun modify_loop ::
  "u32 list \<Rightarrow> GeofenceOption list \<Rightarrow> GeofenceBreachTypeMask BiDict \<Rightarrow>
   u32 list \<times> GeofenceBreachTypeMask BiDict" where
  "modify_loop (i # ids) (option # options) d =
     (let session = bd_getSession i d
      in if 0 < session
         then (let (sessions, d') = modify_loop ids options (bd_set i session (breachTypeMask option) d)
               in (session # sessions, d'))
         else modify_loop ids options d)"
| "modify_loop ids options d = ([], d)"

text \<open>The API gets the compacted array of sessions and the uncompacted array of options.\<close>

definition locAPIModifyGeofences ::
  "u32 list \<Rightarrow> GeofenceOption list \<Rightarrow> bool \<Rightarrow> Client \<Rightarrow> ('g, 'l) client_out list \<times> Client" where
  "locAPIModifyGeofences ids options alloc c =
     (if mLocationAPI c
      then if \<not> alloc then ([], c)
           else if mSession (mRequestQueues c REQUEST_GEOFENCE) = GEOFENCE_SESSION_ID
           then (let (sessions, d) = modify_loop ids options (mGeofenceBiDict c);
                     c = c\<lparr>mGeofenceBiDict := d\<rparr>
                 in if sessions \<noteq> []
                    then ([Api_modifyGeofences sessions options],
                          queue_upd REQUEST_GEOFENCE (rq_push ModifyGeofencesRequest) c)
                    else ([], c))
           else ([], c)
      else ([], c))"

fun known_loop :: "u32 list \<Rightarrow> GeofenceBreachTypeMask BiDict \<Rightarrow> u32 list" where
  "known_loop [] d = []"
| "known_loop (i # ids) d =
     (let session = bd_getSession i d
      in if 0 < session then session # known_loop ids d else known_loop ids d)"

definition locAPIPauseGeofences ::
  "u32 list \<Rightarrow> bool \<Rightarrow> Client \<Rightarrow> ('g, 'l) client_out list \<times> Client" where
  "locAPIPauseGeofences ids alloc c =
     (if mLocationAPI c
      then if \<not> alloc then ([], c)
           else if mSession (mRequestQueues c REQUEST_GEOFENCE) = GEOFENCE_SESSION_ID
           then (let sessions = known_loop ids (mGeofenceBiDict c)
                 in if sessions \<noteq> []
                    then ([Api_pauseGeofences sessions],
                          queue_upd REQUEST_GEOFENCE (rq_push PauseGeofencesRequest) c)
                    else ([], c))
           else ([], c)
      else ([], c))"

fun resume_loop ::
  "u32 list \<Rightarrow> GeofenceBreachTypeMask list option \<Rightarrow> GeofenceBreachTypeMask BiDict \<Rightarrow>
   u32 list \<times> GeofenceBreachTypeMask BiDict" where
  "resume_loop (i # ids) None d =
     (let session = bd_getSession i d
      in if 0 < session then (let (sessions, d') = resume_loop ids None d in (session # sessions, d'))
         else resume_loop ids None d)"
| "resume_loop (i # ids) (Some (m # ms)) d =
     (let session = bd_getSession i d
      in if 0 < session
         then (let (sessions, d') = resume_loop ids (Some ms) (bd_set i session m d)
               in (session # sessions, d'))
         else resume_loop ids (Some ms) d)"
| "resume_loop ids ms d = ([], d)"

definition locAPIResumeGeofences ::
  "u32 list \<Rightarrow> GeofenceBreachTypeMask list option \<Rightarrow> bool \<Rightarrow> Client \<Rightarrow> ('g, 'l) client_out list \<times> Client" where
  "locAPIResumeGeofences ids ms alloc c =
     (if mLocationAPI c
      then if \<not> alloc then ([], c)
           else if mSession (mRequestQueues c REQUEST_GEOFENCE) = GEOFENCE_SESSION_ID
           then (let (sessions, d) = resume_loop ids ms (mGeofenceBiDict c);
                     c = c\<lparr>mGeofenceBiDict := d\<rparr>
                 in if sessions \<noteq> []
                    then ([Api_resumeGeofences sessions],
                          queue_upd REQUEST_GEOFENCE (rq_push ResumeGeofencesRequest) c)
                    else ([], c))
           else ([], c)
      else ([], c))"

text \<open>The sessions, not the ids, are handed to locAPIRemoveGeofences, as in the code.\<close>

definition locAPIRemoveAllGeofences :: "bool \<Rightarrow> Client \<Rightarrow> ('g, 'l) client_out list \<times> Client" where
  "locAPIRemoveAllGeofences alloc c =
     (let sessionsVec = bd_getAllSessions (mGeofenceBiDict c) in locAPIRemoveGeofences sessionsVec alloc c)"

definition locAPIGnssNiResponse ::
  "u32 \<Rightarrow> GnssNiResponse \<Rightarrow> Client \<Rightarrow> ('g, 'l) client_out list \<times> Client" where
  "locAPIGnssNiResponse i response c =
     (if mLocationAPI c
      then ([Api_gnssNiResponse i response],
            queue_upd REQUEST_NIRESPONSE (\<lambda>q. rq_push GnssNiResponseRequest (rq_reset i q)) c)
      else ([], c))"

section \<open>Reports and responses\<close>

definition breach_selected :: "GeofenceBreachType \<Rightarrow> GeofenceBreachTypeMask \<Rightarrow> bool" where
  "breach_selected type m \<longleftrightarrow>
     type = GEOFENCE_BREACH_ENTER \<and> m AND GEOFENCE_BREACH_ENTER_BIT \<noteq> 0 \<or>
     type = GEOFENCE_BREACH_EXIT \<and> m AND GEOFENCE_BREACH_EXIT_BIT \<noteq> 0"

fun breach_loop :: "GeofenceBreachType \<Rightarrow> u32 list \<Rightarrow> GeofenceBreachTypeMask BiDict \<Rightarrow> u32 list" where
  "breach_loop type [] d = []"
| "breach_loop type (session # sessions) d =
     (let i = bd_getId session d; m = bd_getExtBySession 0 session d
      in if breach_selected type m then i # breach_loop type sessions d
         else breach_loop type sessions d)"

definition beforeGeofenceBreachCb ::
  "u32 list \<Rightarrow> GeofenceBreachType \<Rightarrow> 'l \<Rightarrow> bool \<Rightarrow> Client \<Rightarrow> ('g, 'l) client_out list" where
  "beforeGeofenceBreachCb sessions type loc alloc c =
     (if \<not> alloc then []
      else case mGeofenceBreachCallback c of
             None \<Rightarrow> []
           | Some cb \<Rightarrow> [Cb_geofenceBreach cb (breach_loop type sessions (mGeofenceBiDict c)) type loc])"

fun trip_loop :: "u32 list \<Rightarrow> SessionEntity BiDict \<Rightarrow> u32 list \<times> SessionEntity BiDict" where
  "trip_loop [] d = ([], d)"
| "trip_loop (session # sessions) d =
     (if bd_hasSession session d
      then let entity = bd_getExtBySession zero_entity session d
           in if sessionMode entity = SESSION_MODE_ON_TRIP_COMPLETED
              then (let (ids, d') = trip_loop sessions (bd_rmBySession session d) in (se_id entity # ids, d'))
              else trip_loop sessions d
      else trip_loop sessions d)"

text \<open>The client's callback is called unchecked; the output shows whether there is one.\<close>

definition beforeBatchingStatusCb ::
  "BatchingStatus \<Rightarrow> u32 list \<Rightarrow> Client \<Rightarrow> ('g, 'l) client_out list \<times> Client" where
  "beforeBatchingStatusCb status sessions c =
     (let (ids, d) = (if status = BATCHING_STATUS_TRIP_COMPLETED then trip_loop sessions (mSessionBiDict c)
                      else ([], mSessionBiDict c))
      in ([Cb_batchingStatus (mBatchingStatusCallback c) status ids], c\<lparr>mSessionBiDict := d\<rparr>))"

definition removeSession :: "u32 \<Rightarrow> Client \<Rightarrow> Client" where
  "removeSession session c =
     (if bd_hasSession session (mSessionBiDict c)
      then c\<lparr>mSessionBiDict := bd_rmBySession session (mSessionBiDict c)\<rparr> else c)"

fun find_request :: "REQUEST_TYPE list \<Rightarrow> u32 \<Rightarrow> Client \<Rightarrow> Request option \<times> Client" where
  "find_request [] session c = (None, c)"
| "find_request (t # ts) session c =
     (if t \<noteq> REQUEST_GEOFENCE \<and> t \<noteq> REQUEST_SESSION \<and> mSession (mRequestQueues c t) = session
      then (let (r, q) = rq_pop (mRequestQueues c t) in (r, queue_upd t (\<lambda>_. q) c))
      else find_request ts session c)"

definition getRequestBySession :: "u32 \<Rightarrow> Client \<Rightarrow> Request option \<times> Client" where
  "getRequestBySession session c =
     (case find_request [REQUEST_TRACKING, REQUEST_SESSION, REQUEST_GEOFENCE, REQUEST_NIRESPONSE] session c of
        (Some r, c) \<Rightarrow> (Some r, c)
      | (None, c) \<Rightarrow>
          if bd_hasSession session (mSessionBiDict c)
          then (let (r, q) = rq_pop (mRequestQueues c REQUEST_SESSION)
                in (r, queue_upd REQUEST_SESSION (\<lambda>_. q) c))
          else (None, c))"

text \<open>The virtual \<open>onResponse\<close> and \<open>onCollectiveResponse\<close> of the request classes.\<close>

fun onResponse ::
  "Request \<Rightarrow> LocationError \<Rightarrow> u32 \<Rightarrow> Client \<Rightarrow> ('g, 'l) client_out list \<times> Client" where
  "onResponse StartTrackingRequest err i c =
     (let c = (if err \<noteq> LOCATION_ERROR_SUCCESS then removeSession i c else c) in ([Cb_onStartTracking err], c))"
| "onResponse StopTrackingRequest err i c =
     ([Cb_onStopTracking err], if err = LOCATION_ERROR_SUCCESS then removeSession i c else c)"
| "onResponse UpdateTrackingOptionsRequest err i c = ([Cb_onUpdateTrackingOptions err], c)"
| "onResponse StartBatchingRequest err i c =
     (let c = (if err \<noteq> LOCATION_ERROR_SUCCESS then removeSession i c else c) in ([Cb_onStartBatching err], c))"
| "onResponse StopBatchingRequest err i c =
     ([Cb_onStopBatching err], if err = LOCATION_ERROR_SUCCESS then removeSession i c else c)"
| "onResponse UpdateBatchingOptionsRequest err i c = ([Cb_onUpdateBatchingOptions err], c)"
| "onResponse GetBatchedLocationsRequest err i c = ([Cb_onGetBatchedLocations err], c)"
| "onResponse GnssNiResponseRequest err i c = ([Cb_onGnssNiResponse err], c)"
| "onResponse r err i c = ([], c)"

definition ids_of :: "u32 list \<Rightarrow> GeofenceBreachTypeMask BiDict \<Rightarrow> u32 list" where
  "ids_of sessions d = map (\<lambda>session. bd_getId session d) sessions"

fun onCollectiveResponse ::
  "Request \<Rightarrow> LocationError list \<Rightarrow> u32 list \<Rightarrow> Client \<Rightarrow> ('g, 'l) client_out list" where
  "onCollectiveResponse AddGeofencesRequest errors sessions c =
     [Cb_onAddGeofences errors (ids_of sessions (mGeofenceBiDict c))]"
| "onCollectiveResponse (RemoveGeofencesRequest removed) errors sessions c =
     (case removed of None \<Rightarrow> [] | Some d \<Rightarrow> [Cb_onRemoveGeofences errors (ids_of sessions d)])"
| "onCollectiveResponse ModifyGeofencesRequest errors sessions c =
     [Cb_onModifyGeofences errors (ids_of sessions (mGeofenceBiDict c))]"
| "onCollectiveResponse PauseGeofencesRequest errors sessions c =
     [Cb_onPauseGeofences errors (ids_of sessions (mGeofenceBiDict c))]"
| "onCollectiveResponse ResumeGeofencesRequest errors sessions c =
     [Cb_onResumeGeofences errors (ids_of sessions (mGeofenceBiDict c))]"
| "onCollectiveResponse r errors sessions c = []"

definition onResponseCb ::
  "LocationError \<Rightarrow> u32 \<Rightarrow> Client \<Rightarrow> ('g, 'l) client_out list \<times> Client" where
  "onResponseCb err i c =
     (case getRequestBySession i c of
        (None, c') \<Rightarrow> ([], c')
      | (Some r, c') \<Rightarrow> onResponse r err i c')"

definition onCollectiveResponseCb ::
  "LocationError list \<Rightarrow> u32 list \<Rightarrow> Client \<Rightarrow> ('g, 'l) client_out list \<times> Client" where
  "onCollectiveResponseCb errors ids c =
     (if mSession (mRequestQueues c REQUEST_GEOFENCE) = GEOFENCE_SESSION_ID
      then (case rq_pop (mRequestQueues c REQUEST_GEOFENCE) of
              (None, q) \<Rightarrow> ([], c)
            | (Some r, q) \<Rightarrow>
                (let c = queue_upd REQUEST_GEOFENCE (\<lambda>_. q) c in (onCollectiveResponse r errors ids c, c)))
      else ([], c))"

section \<open>Histories\<close>

text \<open>One call into the client, with what the API returns during it.\<close>

datatype 'g client_op =
  Op_SetCallbacks "nat option" "nat option" bool
| Op_StartTracking LocationOptions u32
| Op_StopTracking
| Op_UpdateTracking LocationOptions
| Op_GetBatchSize "int option"
| Op_StartSession u32 u32 LocationOptions u32
| Op_StopSession u32
| Op_UpdateSession u32 u32 LocationOptions u32
| Op_GetBatchedLocations u32 nat
| Op_AddGeofences "u32 list" "GeofenceOption list" "'g list" "u32 list option"
| Op_RemoveGeofences "u32 list" bool
| Op_ModifyGeofences "u32 list" "GeofenceOption list" bool
| Op_PauseGeofences "u32 list" bool
| Op_ResumeGeofences "u32 list" "GeofenceBreachTypeMask list option" bool
| Op_RemoveAllGeofences bool
| Op_NiResponse u32 GnssNiResponse
| Op_Breach "u32 list" GeofenceBreachType bool
| Op_BatchingStatus BatchingStatus "u32 list"
| Op_Response LocationError u32
| Op_CollectiveResponse "LocationError list" "u32 list"

fun client_exec :: "'g client_op \<Rightarrow> Client \<Rightarrow> ('g, unit) client_out list \<times> Client" where
  "client_exec (Op_SetCallbacks b t n) c = locAPISetCallbacks b t n c"
| "client_exec (Op_StartTracking op s) c = snd (locAPIStartTracking op s c)"
| "client_exec Op_StopTracking c = locAPIStopTracking c"
| "client_exec (Op_UpdateTracking op) c = locAPIUpdateTrackingOptions op c"
| "client_exec (Op_GetBatchSize n) c = ([], snd (locAPIGetBatchSize n c))"
| "client_exec (Op_StartSession i m op s) c = snd (locAPIStartSession i m op s c)"
| "client_exec (Op_StopSession i) c = snd (locAPIStopSession i c)"
| "client_exec (Op_UpdateSession i m op s) c = snd (locAPIUpdateSessionOptions i m op s c)"
| "client_exec (Op_GetBatchedLocations i n) c = snd (locAPIGetBatchedLocations i n c)"
| "client_exec (Op_AddGeofences ids ops data r) c = snd (locAPIAddGeofences ids ops data r c)"
| "client_exec (Op_RemoveGeofences ids al) c = locAPIRemoveGeofences ids al c"
| "client_exec (Op_ModifyGeofences ids ops al) c = locAPIModifyGeofences ids ops al c"
| "client_exec (Op_PauseGeofences ids al) c = locAPIPauseGeofences ids al c"
| "client_exec (Op_ResumeGeofences ids m al) c = locAPIResumeGeofences ids m al c"
| "client_exec (Op_RemoveAllGeofences al) c = locAPIRemoveAllGeofences al c"
| "client_exec (Op_NiResponse i r) c = locAPIGnssNiResponse i r c"
| "client_exec (Op_Breach ss t al) c = (beforeGeofenceBreachCb ss t () al c, c)"
| "client_exec (Op_BatchingStatus st ss) c = beforeBatchingStatusCb st ss c"
| "client_exec (Op_Response e i) c = onResponseCb e i c"
| "client_exec (Op_CollectiveResponse es ss) c = onCollectiveResponseCb es ss c"

text \<open>
  What the documentation of the API promises of its session numbers, and what it asks of the
  client: new sessions are not 0 and not in use, ids of added geofences are new.
\<close>

fun client_op_ok :: "'g client_op \<Rightarrow> Client \<Rightarrow> bool" where
  "client_op_ok (Op_StartSession i m op s) c \<longleftrightarrow> 0 < s \<and> \<not> bd_hasSession s (mSessionBiDict c)"
| "client_op_ok (Op_UpdateSession i m op s) c \<longleftrightarrow> 0 < s \<and> \<not> bd_hasSession s (mSessionBiDict c)"
| "client_op_ok (Op_AddGeofences ids ops data r) c \<longleftrightarrow>
     (case r of None \<Rightarrow> True
      | Some ss \<Rightarrow> length ids = length ss \<and> length ops = length ss \<and> distinct ids \<and> distinct ss \<and>
          0 \<notin> set ss \<and> list_all (\<lambda>i. \<not> bd_hasId i (mGeofenceBiDict c)) ids \<and>
          list_all (\<lambda>s. \<not> bd_hasSession s (mGeofenceBiDict c)) ss)"
| "client_op_ok op c \<longleftrightarrow> True"

inductive client_reach :: "'g client_op list \<Rightarrow> ('g, unit) client_out list \<Rightarrow> Client \<Rightarrow> bool" where
  reach_init: "client_reach [] [] client_new"
| reach_op: "client_reach ops outs c \<Longrightarrow> client_op_ok op c \<Longrightarrow> client_exec op c = (out, c') \<Longrightarrow>
    client_reach (ops @ [op]) (outs @ out) c'"

end
