(* ===== verification/Location_Client_Props.thy ===== *)
theory Location_Client_Props
  imports Location_Client
begin

text \<open>
  The correctness of the location client: the dictionaries stay consistent through every
  history of calls, responses and reports; what each geofence operation sends and reports; the
  order in which requests are answered; and the histories in which a failed start is never
  noticed.
\<close>

section \<open>The invariant\<close>

definition active_session :: "SessionEntity \<Rightarrow> u32" where
  "active_session e = (if sessionMode e \<noteq> SESSION_MODE_ON_FIX then batchingSession e else trackingSession e)"

definition geo_ok :: "'e BiDict \<Rightarrow> bool" where
  "geo_ok d \<longleftrightarrow> bd_ok d \<and> \<not> bd_hasSession 0 d"

definition sess_ok :: "SessionEntity BiDict \<Rightarrow> bool" where
  "sess_ok d \<longleftrightarrow> geo_ok d \<and>
     (\<forall>s e. map_of (mExtMap d) s = Some e \<longrightarrow>
        map_of (mBackwardMap d) s = Some (se_id e) \<and> active_session e = s)"

fun kind_ok :: "REQUEST_TYPE \<Rightarrow> Request \<Rightarrow> bool" where
  "kind_ok REQUEST_TRACKING r \<longleftrightarrow>
     r \<in> {StartTrackingRequest, StopTrackingRequest, UpdateTrackingOptionsRequest}"
| "kind_ok REQUEST_SESSION r \<longleftrightarrow>
     r \<in> {StartTrackingRequest, StopTrackingRequest, UpdateTrackingOptionsRequest, StartBatchingRequest,
          StopBatchingRequest, UpdateBatchingOptionsRequest, GetBatchedLocationsRequest}"
| "kind_ok REQUEST_NIRESPONSE r \<longleftrightarrow> r = GnssNiResponseRequest"
| "kind_ok REQUEST_GEOFENCE (RemoveGeofencesRequest removed) \<longleftrightarrow>
     (case removed of None \<Rightarrow> False | Some d \<Rightarrow> geo_ok d)"
| "kind_ok REQUEST_GEOFENCE r \<longleftrightarrow>
     r \<in> {AddGeofencesRequest, ModifyGeofencesRequest, PauseGeofencesRequest, ResumeGeofencesRequest}"

definition queues_ok :: "Client \<Rightarrow> bool" where
  "queues_ok c \<longleftrightarrow> (\<forall>t. list_all (kind_ok t) (mQueue (mRequestQueues c t)))"

definition client_ok :: "Client \<Rightarrow> bool" where
  "client_ok c \<longleftrightarrow> geo_ok (mGeofenceBiDict c) \<and> sess_ok (mSessionBiDict c) \<and> queues_ok c"

lemma geo_ok_new [simp]: "geo_ok bd_new"
  by (simp add: geo_ok_def bd_has_iff)

lemma geo_ok_bd [simp]: "geo_ok d \<Longrightarrow> bd_ok d"
  by (simp add: geo_ok_def)

lemma geo_ok_known:
  "geo_ok d \<Longrightarrow> map_of (mForwardMap d) i = Some s \<Longrightarrow> 0 < s \<and> map_of (mBackwardMap d) s = Some i"
  by (metis bd_has_iff(2) bd_ok_Some geo_ok_def option.distinct(1) word_gt_0)

lemma geo_ok_getSession_pos:
  "geo_ok d \<Longrightarrow> 0 < bd_getSession i d \<longleftrightarrow> bd_hasId i d"
  by (cases "map_of (mForwardMap d) i") (auto simp: bd_getSession_def bd_has_iff dest: geo_ok_known)

lemma geo_ok_set_fresh:
  "geo_ok d \<Longrightarrow> \<not> bd_hasId i d \<Longrightarrow> \<not> bd_hasSession s d \<Longrightarrow> 0 < s \<Longrightarrow> geo_ok (bd_set i s e d)"
  by (simp add: geo_ok_def bd_ok_set_fresh) (simp add: bd_has_iff word_gt_0)

lemma geo_ok_set_same:
  "geo_ok d \<Longrightarrow> map_of (mForwardMap d) i = Some s \<Longrightarrow> geo_ok (bd_set i s e d)"
  using geo_ok_known [of d i s] by (simp add: geo_ok_def bd_ok_set_same) (simp add: bd_has_iff word_gt_0)

lemma geo_ok_rmBySession:
  "geo_ok d \<Longrightarrow> bd_hasSession s d \<Longrightarrow> geo_ok (bd_rmBySession s d)"
  by (simp add: geo_ok_def bd_ok_rmBySession) (auto simp: bd_has_iff bd_rmBySession_known)

lemma queues_ok_upd [simp]:
  "queues_ok (queue_upd t g c) \<longleftrightarrow>
   list_all (kind_ok t) (mQueue (g (mRequestQueues c t))) \<and>
   (\<forall>t'. t' \<noteq> t \<longrightarrow> list_all (kind_ok t') (mQueue (mRequestQueues c t')))"
  by (auto simp: queues_ok_def queue_upd_def)

lemma queue_upd_simps [simp]:
  "mGeofenceBreachCallback (queue_upd t g c) = mGeofenceBreachCallback c"
  "mBatchingStatusCallback (queue_upd t g c) = mBatchingStatusCallback c"
  "mLocationAPI (queue_upd t g c) = mLocationAPI c"
  "mGeofenceBiDict (queue_upd t g c) = mGeofenceBiDict c"
  "mSessionBiDict (queue_upd t g c) = mSessionBiDict c"
  "mTracking (queue_upd t g c) = mTracking c"
  "mRequestQueues (queue_upd t g c) t = g (mRequestQueues c t)"
  "t' \<noteq> t \<Longrightarrow> mRequestQueues (queue_upd t g c) t' = mRequestQueues c t'"
  by (simp_all add: queue_upd_def)

lemma queues_ok_fields [simp]:
  "queues_ok (c\<lparr>mGeofenceBreachCallback := b\<rparr>) = queues_ok c"
  "queues_ok (c\<lparr>mBatchingStatusCallback := b\<rparr>) = queues_ok c"
  "queues_ok (c\<lparr>mLocationAPI := a\<rparr>) = queues_ok c"
  "queues_ok (c\<lparr>mGeofenceBiDict := g\<rparr>) = queues_ok c"
  "queues_ok (c\<lparr>mSessionBiDict := s\<rparr>) = queues_ok c"
  "queues_ok (c\<lparr>mBatchSize := n\<rparr>) = queues_ok c"
  "queues_ok (c\<lparr>mTracking := tr\<rparr>) = queues_ok c"
  by (simp_all add: queues_ok_def)

lemma queues_okD [simp]: "queues_ok c \<Longrightarrow> list_all (kind_ok t) (mQueue (mRequestQueues c t))"
  by (simp add: queues_ok_def)

lemma queues_ok_new: "queues_ok client_new"
  by (simp add: queues_ok_def client_new_def)

text \<open>Popping hands out a request of the queue's kind.\<close>

lemma rq_pop_kind:
  "rq_pop q = (r, q') \<Longrightarrow> list_all P (mQueue q) \<Longrightarrow>
   list_all P (mQueue q') \<and> (\<forall>x. r = Some x \<longrightarrow> P x)"
  by (cases "mQueue q") auto

lemma rq_pop_kind_snd [simp]: "list_all P (mQueue q) \<Longrightarrow> list_all P (mQueue (snd (rq_pop q)))"
  by (cases "mQueue q") auto

section \<open>Sessions\<close>

lemma sess_ok_geo [simp]: "sess_ok d \<Longrightarrow> geo_ok d"
  by (simp add: sess_ok_def)

lemma sess_okI:
  "geo_ok d \<Longrightarrow>
   (\<And>s e. map_of (mExtMap d) s = Some e \<Longrightarrow>
      map_of (mBackwardMap d) s = Some (se_id e) \<and> active_session e = s) \<Longrightarrow> sess_ok d"
  unfolding sess_ok_def by blast

lemma sess_ok_ext:
  "sess_ok d \<Longrightarrow> map_of (mExtMap d) s = Some e \<Longrightarrow>
   map_of (mBackwardMap d) s = Some (se_id e) \<and> active_session e = s"
  unfolding sess_ok_def by blast

lemma bd_ok_ext: "bd_ok d \<Longrightarrow> dom (map_of (mExtMap d)) = dom (map_of (mBackwardMap d))"
  unfolding bd_ok_iff by blast

lemma sess_ok_set_fresh:
  assumes "sess_ok d" "\<not> bd_hasId i d" "\<not> bd_hasSession s d" "0 < s"
    and "se_id e = i" "active_session e = s"
  shows "sess_ok (bd_set i s e d)"
proof -
  have "dom (map_of (mExtMap d)) = dom (map_of (mBackwardMap d))"
    by (rule bd_ok_ext) (use assms(1) in simp)
  with assms(3) have "s \<notin> dom (map_of (mExtMap d))" by (simp add: bd_has_iff domIff)
  then have new: "map_of (mExtMap d) s = None" by (simp only: domIff not_not)
  show ?thesis
  proof (rule sess_okI)
    show "geo_ok (bd_set i s e d)" using assms by (simp add: geo_ok_set_fresh)
  next
    fix s' e'
    assume "map_of (mExtMap (bd_set i s e d)) s' = Some e'"
    then show "map_of (mBackwardMap (bd_set i s e d)) s' = Some (se_id e') \<and> active_session e' = s'"
      using assms(5,6) sess_ok_ext [OF assms(1), of s' e'] by (cases "s' = s") simp_all
  qed
qed

lemma sess_ok_rmBySession:
  assumes "sess_ok d" "bd_hasSession s d"
  shows "sess_ok (bd_rmBySession s d)"
proof -
  from assms(2) obtain i where i: "map_of (mBackwardMap d) s = Some i" by (auto simp: bd_has_iff)
  show ?thesis
  proof (rule sess_okI)
    show "geo_ok (bd_rmBySession s d)" using assms by (simp add: geo_ok_rmBySession)
  next
    fix s' e'
    assume "map_of (mExtMap (bd_rmBySession s d)) s' = Some e'"
    then show "map_of (mBackwardMap (bd_rmBySession s d)) s' = Some (se_id e') \<and> active_session e' = s'"
      using i sess_ok_ext [OF assms(1), of s' e']
      by (cases "s' = s") (simp_all add: bd_rmBySession_known)
  qed
qed

text \<open>For a known id the dictionary holds an entity whose active session is the id's session.\<close>

lemma sess_ok_entity:
  assumes "sess_ok d" "bd_hasId i d"
  obtains s e where "map_of (mForwardMap d) i = Some s" "map_of (mBackwardMap d) s = Some i" "0 < s"
    "map_of (mExtMap d) s = Some e" "se_id e = i" "active_session e = s"
    "bd_getExtById zero_entity i d = (e, d)"
proof -
  from assms(2) obtain s where s: "map_of (mForwardMap d) i = Some s" by (auto simp: bd_has_iff)
  with assms(1) have b: "map_of (mBackwardMap d) s = Some i" "0 < s"
    using geo_ok_known [of d i s] by simp_all
  have "s \<in> dom (map_of (mExtMap d))"
    unfolding bd_ok_ext [OF geo_ok_bd [OF sess_ok_geo [OF assms(1)]]] using b(1) by (rule domI)
  then obtain e where e: "map_of (mExtMap d) s = Some e" by auto
  from sess_ok_ext [OF assms(1) e] b(1) have "se_id e = i" "active_session e = s" by simp_all
  moreover have "bd_getExtById zero_entity i d = (e, d)"
    using bd_getExtById_known [of d i s zero_entity] s b e assms(1) by (simp add: bd_getExtBySession_def)
  ultimately show ?thesis using that s b e by blast
qed

section \<open>The geofence loops\<close>

lemma bd_has_set [simp]:
  "bd_hasId j (bd_set i s e d) \<longleftrightarrow> j = i \<or> bd_hasId j d"
  "bd_hasSession t (bd_set i s e d) \<longleftrightarrow> t = s \<or> bd_hasSession t d"
  by (simp_all add: bd_has_iff)

lemma add_loop_ok:
  "geo_ok d \<Longrightarrow> distinct ids \<Longrightarrow> distinct ss \<Longrightarrow> 0 \<notin> set ss \<Longrightarrow>
   list_all (\<lambda>i. \<not> bd_hasId i d) ids \<Longrightarrow> list_all (\<lambda>s. \<not> bd_hasSession s d) ss \<Longrightarrow>
   geo_ok (add_loop ids ss ops d)"
proof (induction ids ss ops d rule: add_loop.induct)
  case (1 i ids session sessions option options d)
  from "1.prems" have "geo_ok (bd_set i session (breachTypeMask option) d)"
    by (simp add: geo_ok_set_fresh word_gt_0)
  moreover from "1.prems" have "list_all (\<lambda>j. \<not> bd_hasId j (bd_set i session (breachTypeMask option) d)) ids"
    "list_all (\<lambda>t. \<not> bd_hasSession t (bd_set i session (breachTypeMask option) d)) sessions"
    by (auto simp: list_all_iff)
  ultimately show ?case using "1.prems" "1.IH" by simp
qed simp_all

lemma modify_loop_ok:
  "geo_ok d \<Longrightarrow> geo_ok (snd (modify_loop ids ops d))"
  by (induction ids ops d rule: modify_loop.induct)
    (simp_all add: Let_def split_beta geo_ok_set_same bd_getSession_pos)

lemma resume_loop_ok:
  "geo_ok d \<Longrightarrow> geo_ok (snd (resume_loop ids ms d))"
  by (induction ids ms d rule: resume_loop.induct)
    (simp_all add: Let_def split_beta geo_ok_set_same bd_getSession_pos)

lemma bd_has_rmBySession:
  assumes "geo_ok d" "map_of (mForwardMap d) i = Some s"
  shows "bd_hasId j (bd_rmBySession s d) \<longleftrightarrow> j \<noteq> i \<and> bd_hasId j d"
    and "bd_hasSession t (bd_rmBySession s d) \<longleftrightarrow> t \<noteq> s \<and> bd_hasSession t d"
  using assms geo_ok_known [OF assms] by (simp_all add: bd_has_iff bd_rmBySession_known)

lemma bd_getSession_rmBySession:
  assumes "geo_ok d" "map_of (mForwardMap d) i = Some s"
  shows "map_of (mForwardMap (bd_rmBySession s d)) = (map_of (mForwardMap d))(i := None)"
    and "mForwardMap (bd_rmBySession s d) = map_erase i (mForwardMap d)"
  using geo_ok_known [OF assms] by (simp_all add: bd_rmBySession_known)

text \<open>
  What the removal loop does: the removed dictionary stays consistent because an id that it
  gets is no longer in the live one, nor is its session.
\<close>

lemma remove_loop_ok:
  "geo_ok d \<Longrightarrow> geo_ok r \<Longrightarrow>
   (\<And>i. bd_hasId i d \<Longrightarrow> \<not> bd_hasId i r) \<Longrightarrow> (\<And>s. bd_hasSession s d \<Longrightarrow> \<not> bd_hasSession s r) \<Longrightarrow>
   remove_loop ids d r = (ss, d', r') \<Longrightarrow> geo_ok d' \<and> geo_ok r'"
proof (induction ids d r arbitrary: ss d' r' rule: remove_loop.induct)
  case (1 d removed)
  then show ?case by simp
next
  case (2 i ids d r)
  show ?case
  proof (cases "0 < bd_getSession i d")
    case True
    define s where "s = bd_getSession i d"
    from True have s: "map_of (mForwardMap d) i = Some s" "0 < s"
      unfolding s_def by (simp_all add: bd_getSession_pos)
    with "2.prems"(1) have b: "map_of (mBackwardMap d) s = Some i" using geo_ok_known by blast
    obtain ss1 d1 r1 where l: "remove_loop ids (bd_rmBySession s d) (bd_set i s (bd_getExtBySession 0 s d) r)
        = (ss1, d1, r1)" by (metis prod_cases3)
    have ok: "geo_ok (bd_rmBySession s d)" using "2.prems"(1) b by (simp add: geo_ok_rmBySession bd_has_iff)
    have ok': "geo_ok (bd_set i s (bd_getExtBySession 0 s d) r)"
      using "2.prems"(2-4) s b by (simp add: geo_ok_set_fresh bd_has_iff)
    have "geo_ok d1 \<and> geo_ok r1"
      by (rule "2.IH"(1) [OF s_def s(2) refl ok ok' _ _ l])
        (use "2.prems"(3,4) in \<open>auto simp: bd_has_rmBySession [OF "2.prems"(1) s(1)]\<close>)
    with "2.prems"(5) True l show ?thesis by (simp add: Let_def s_def)
  next
    case False
    with "2.IH"(2) [OF refl False] "2.prems" show ?thesis by (simp add: Let_def)
  qed
qed

text \<open>The API is sent exactly the sessions of the known ids, each once, and the ids are gone.\<close>

definition sessions_of :: "u32 list \<Rightarrow> 'e BiDict \<Rightarrow> u32 list" where
  "sessions_of ids d = List.map_filter (map_of (mForwardMap d)) ids"

lemma known_loop_eq:
  "geo_ok d \<Longrightarrow> known_loop ids d = sessions_of ids d"
  by (induction ids)
    (auto simp: sessions_of_def map_filter_simps Let_def bd_getSession_def split: option.splits
      dest: geo_ok_known)

lemma sessions_of_rmBySession:
  "geo_ok d \<Longrightarrow> map_of (mForwardMap d) i = Some s \<Longrightarrow> i \<notin> set ids \<Longrightarrow>
   sessions_of ids (bd_rmBySession s d) = sessions_of ids d"
  by (induction ids) (auto simp: sessions_of_def map_filter_simps bd_getSession_rmBySession split: option.split)

lemma remove_loop_exact:
  "geo_ok d \<Longrightarrow> distinct ids \<Longrightarrow> remove_loop ids d r = (ss, d', r') \<Longrightarrow>
   ss = sessions_of ids d \<and>
   mForwardMap d' = filter (\<lambda>(i, s). i \<notin> set ids) (mForwardMap d) \<and>
   map_of (mBackwardMap r') =
     (\<lambda>s. case map_of (mBackwardMap d) s of
            None \<Rightarrow> map_of (mBackwardMap r) s
          | Some i \<Rightarrow> if i \<in> set ids then Some i else map_of (mBackwardMap r) s)"
proof (induction ids d r arbitrary: ss d' r' rule: remove_loop.induct)
  case (1 d removed)
  then show ?case by (simp add: sessions_of_def map_filter_simps fun_eq_iff split: option.split)
next
  case (2 i ids d r)
  show ?case
  proof (cases "0 < bd_getSession i d")
    case True
    define s where "s = bd_getSession i d"
    from True have s: "map_of (mForwardMap d) i = Some s" "0 < s"
      unfolding s_def by (simp_all add: bd_getSession_pos)
    with "2.prems"(1) have b: "map_of (mBackwardMap d) s = Some i" using geo_ok_known by blast
    obtain ss1 d1 r1 where l: "remove_loop ids (bd_rmBySession s d) (bd_set i s (bd_getExtBySession 0 s d) r)
        = (ss1, d1, r1)" by (metis prod_cases3)
    have ok: "geo_ok (bd_rmBySession s d)" using "2.prems"(1) b by (simp add: geo_ok_rmBySession bd_has_iff)
    have ih: "ss1 = sessions_of ids (bd_rmBySession s d)"
      "mForwardMap d1 = filter (\<lambda>(i, s). i \<notin> set ids) (mForwardMap (bd_rmBySession s d))"
      "map_of (mBackwardMap r1) = (\<lambda>t. case map_of (mBackwardMap (bd_rmBySession s d)) t of
          None \<Rightarrow> map_of (mBackwardMap (bd_set i s (bd_getExtBySession 0 s d) r)) t
        | Some j \<Rightarrow> if j \<in> set ids then Some j
            else map_of (mBackwardMap (bd_set i s (bd_getExtBySession 0 s d) r)) t)"
      using "2.IH"(1) [OF s_def s(2) refl ok _ l] "2.prems"(2) by simp_all
    from "2.prems"(3) True l have eq: "ss = s # ss1" "d' = d1" "r' = r1"
      by (simp_all add: Let_def s_def)
    have "ss = sessions_of (i # ids) d"
      using eq ih(1) s "2.prems"(1,2) sessions_of_rmBySession [of d i s ids]
      by (simp add: sessions_of_def map_filter_simps)
    moreover have "mForwardMap d' = filter (\<lambda>(j, t). j \<notin> set (i # ids)) (mForwardMap d)"
      using eq ih(2) bd_getSession_rmBySession(2) [OF "2.prems"(1) s(1)]
      by (simp add: map_erase_def) (rule filter_cong, auto)
    moreover have "map_of (mBackwardMap r') t =
      (case map_of (mBackwardMap d) t of
         None \<Rightarrow> map_of (mBackwardMap r) t
       | Some j \<Rightarrow> if j \<in> set (i # ids) then Some j else map_of (mBackwardMap r) t)" for t
    proof (cases "t = s")
      case True
      then show ?thesis using eq ih(3) b by (simp add: bd_rmBySession_known)
    next
      case False
      then have "map_of (mBackwardMap d) t \<noteq> Some i"
        using b s geo_ok_bd [OF "2.prems"(1)] by (metis bd_ok_Some option.inject)
      with False show ?thesis using eq ih(3) b by (simp add: bd_rmBySession_known split: option.split)
    qed
    ultimately show ?thesis by blast
  next
    case False
    then have u: "map_of (mForwardMap d) i = None"
      using "2.prems"(1) by (metis geo_ok_getSession_pos bd_has_iff(1))
    from "2.prems"(1) have "map_of (mBackwardMap d) t \<noteq> Some i" for t
      using u bd_ok_Some [of d i t] by simp
    moreover have "\<forall>p \<in> set (mForwardMap d). fst p \<noteq> i"
      using u by (auto simp: map_of_eq_None_iff)
    moreover from "2.prems"(3) False have "remove_loop ids d r = (ss, d', r')" by (simp add: Let_def)
    ultimately show ?thesis
      using "2.IH"(2) [OF refl False "2.prems"(1)] "2.prems"(2) u
      by (auto simp: sessions_of_def map_filter_simps fun_eq_iff split: option.splits
          intro!: filter_cong)
  qed
qed

section \<open>Every operation keeps the invariant\<close>

lemma client_ok_upd [simp]:
  "client_ok (queue_upd t g c) \<longleftrightarrow>
   geo_ok (mGeofenceBiDict c) \<and> sess_ok (mSessionBiDict c) \<and> queues_ok (queue_upd t g c)"
  "client_ok (c\<lparr>mGeofenceBreachCallback := b\<rparr>) = client_ok c"
  "client_ok (c\<lparr>mBatchingStatusCallback := b\<rparr>) = client_ok c"
  "client_ok (c\<lparr>mLocationAPI := a\<rparr>) = client_ok c"
  "client_ok (c\<lparr>mGeofenceBiDict := g'\<rparr>) \<longleftrightarrow> geo_ok g' \<and> sess_ok (mSessionBiDict c) \<and> queues_ok c"
  "client_ok (c\<lparr>mSessionBiDict := s\<rparr>) \<longleftrightarrow> geo_ok (mGeofenceBiDict c) \<and> sess_ok s \<and> queues_ok c"
  "client_ok (c\<lparr>mBatchSize := n\<rparr>) = client_ok c"
  "client_ok (c\<lparr>mTracking := tr\<rparr>) = client_ok c"
  by (simp_all add: client_ok_def)

lemma client_okD [simp]:
  "client_ok c \<Longrightarrow> geo_ok (mGeofenceBiDict c)"
  "client_ok c \<Longrightarrow> sess_ok (mSessionBiDict c)"
  "client_ok c \<Longrightarrow> queues_ok c"
  by (simp_all add: client_ok_def)

lemma client_ok_new: "client_ok client_new"
  unfolding client_ok_def using queues_ok_new sess_okI [of bd_new] by (simp add: client_new_def)

lemma setCallbacks_ok: "client_ok c \<Longrightarrow> client_ok (snd (locAPISetCallbacks b t n c))"
  by (simp add: locAPISetCallbacks_def Let_def)

lemma tracking_ops_ok:
  assumes "client_ok c"
  shows "client_ok (snd (snd (locAPIStartTracking op s c)))"
    and "client_ok (snd (locAPIStopTracking c))"
    and "client_ok (snd (locAPIUpdateTrackingOptions op c))"
    and "client_ok (snd (locAPIGetBatchSize n c))"
  using assms
  by (simp_all add: locAPIStartTracking_def locAPIStopTracking_def locAPIUpdateTrackingOptions_def
      locAPIGetBatchSize_def Let_def)

lemma startSession_ok:
  assumes "client_ok c" "0 < s" "\<not> bd_hasSession s (mSessionBiDict c)"
  shows "client_ok (snd (snd (locAPIStartSession i m op s c)))"
  using assms
  by (auto simp: locAPIStartSession_def Let_def active_session_def intro!: sess_ok_set_fresh)

lemma bd_set_self:
  "sess_ok d \<Longrightarrow> bd_hasId i d \<Longrightarrow> bd_getExtById zero_entity i d = (e, d') \<Longrightarrow> d' = d"
  by (metis prod.inject sess_ok_entity)

lemma stopSession_ok:
  assumes "client_ok c"
  shows "client_ok (snd (snd (locAPIStopSession i c)))"
    and "client_ok (snd (snd (locAPIGetBatchedLocations i n c)))"
  using assms bd_set_self [of "mSessionBiDict c" i]
  by (auto simp: locAPIStopSession_def locAPIGetBatchedLocations_def Let_def split: prod.splits)

lemma geofence_ops_ok:
  assumes "client_ok c"
  shows "client_ok (snd (locAPIModifyGeofences ids ops al c))"
    and "client_ok (snd (locAPIPauseGeofences ids al c))"
    and "client_ok (snd (locAPIResumeGeofences ids ms al c))"
    and "client_ok (snd (locAPIGnssNiResponse i r c))"
  using assms modify_loop_ok [of "mGeofenceBiDict c" ids ops] resume_loop_ok [of "mGeofenceBiDict c" ids ms]
  by (simp_all add: locAPIModifyGeofences_def locAPIPauseGeofences_def locAPIResumeGeofences_def
      locAPIGnssNiResponse_def Let_def split_beta)

lemma removeGeofences_ok:
  assumes "client_ok c"
  shows "client_ok (snd (locAPIRemoveGeofences ids al c))"
proof -
  obtain ss d r where l: "remove_loop ids (mGeofenceBiDict c) bd_new = (ss, d, r)" by (metis prod_cases3)
  have "geo_ok d \<and> geo_ok r"
    by (rule remove_loop_ok [OF _ _ _ _ l]) (use assms in \<open>simp_all add: bd_has_iff\<close>)
  with assms l show ?thesis by (simp add: locAPIRemoveGeofences_def Let_def)
qed

lemma addGeofences_ok:
  assumes "client_ok c" "client_op_ok (Op_AddGeofences ids ops data r) c"
  shows "client_ok (snd (snd (locAPIAddGeofences ids ops data r c)))"
  using assms by (auto simp: locAPIAddGeofences_def Let_def split: option.split intro!: add_loop_ok)

lemma removeSession_ok: "client_ok c \<Longrightarrow> client_ok (removeSession s c)"
  by (simp add: removeSession_def sess_ok_rmBySession)

lemma trip_loop_ok: "sess_ok d \<Longrightarrow> sess_ok (snd (trip_loop ss d))"
  by (induction ss d rule: trip_loop.induct) (simp_all add: Let_def split_beta sess_ok_rmBySession)

lemma batchingStatus_ok: "client_ok c \<Longrightarrow> client_ok (snd (beforeBatchingStatusCb st ss c))"
  by (simp add: beforeBatchingStatusCb_def Let_def trip_loop_ok split_beta)

lemma pop_ok:
  "client_ok c \<Longrightarrow> rq_pop (mRequestQueues c t) = (r, q) \<Longrightarrow> client_ok (queue_upd t (\<lambda>_. q) c)"
  using rq_pop_kind [of "mRequestQueues c t" r q "kind_ok t"] by simp

lemma find_request_ok: "client_ok c \<Longrightarrow> client_ok (snd (find_request ts s c))"
  by (induction ts) (simp_all add: split_beta pop_ok [OF _ prod.collapse [symmetric]])

lemma getRequestBySession_ok: "client_ok c \<Longrightarrow> client_ok (snd (getRequestBySession s c))"
  using find_request_ok [of c "[REQUEST_TRACKING, REQUEST_SESSION, REQUEST_GEOFENCE, REQUEST_NIRESPONSE]" s]
    pop_ok [OF _ prod.collapse [symmetric]]
  unfolding getRequestBySession_def by (auto simp: split_beta simp del: find_request.simps split: option.split prod.split)

lemma onResponse_ok: "client_ok c \<Longrightarrow> client_ok (snd (onResponse r e i c))"
  by (cases r) (simp_all add: removeSession_ok Let_def)

lemma responses_ok:
  assumes "client_ok c"
  shows "client_ok (snd (onResponseCb e i c))"
    and "client_ok (snd (onCollectiveResponseCb es ss c))"
  using assms getRequestBySession_ok [of c i] pop_ok [of c REQUEST_GEOFENCE]
  by (auto simp: onResponseCb_def onCollectiveResponseCb_def Let_def onResponse_ok
      split: prod.split option.split)

lemma updateSession_ok:
  assumes "client_ok c" "0 < ret" "\<not> bd_hasSession ret (mSessionBiDict c)"
  shows "client_ok (snd (snd (locAPIUpdateSessionOptions i m op ret c)))"
proof (cases "mLocationAPI c \<and> bd_hasId i (mSessionBiDict c)")
  case True
  define d where "d = mSessionBiDict c"
  have d: "sess_ok d" "bd_hasId i d" using assms(1) True by (simp_all add: d_def)
  from sess_ok_entity [OF d] obtain s e where e: "map_of (mForwardMap d) i = Some s"
    "map_of (mBackwardMap d) s = Some i" "0 < s" "map_of (mExtMap d) s = Some e" "se_id e = i"
    "active_session e = s" "bd_getExtById zero_entity i d = (e, d)" by metis
  have rm: "bd_rmById i d = bd_rmBySession s d"
    using d(1) e(1) by (simp add: bd_rmById_eq_rmBySession)
  have ok: "sess_ok (bd_rmById i d)"
    unfolding rm using d(1) e(2) by (simp add: sess_ok_rmBySession bd_has_iff)
  have set_ok: "sess_ok (bd_set i t e' (bd_rmById i d))"
    if "t = s \<or> t = ret" "se_id e' = i" "active_session e' = t" for t e'
  proof (rule sess_ok_set_fresh [OF ok])
    show "\<not> bd_hasId i (bd_rmById i d)" "\<not> bd_hasSession t (bd_rmById i d)"
      unfolding rm using that(1) assms(3) d(1)
      by (auto simp: bd_has_rmBySession [OF sess_ok_geo [OF d(1)] e(1)] d_def [symmetric])
    show "0 < t" using that(1) assms(2) e(3) by blast
  qed (use that in simp_all)
  have "sess_ok (mSessionBiDict (snd (snd (locAPIUpdateSessionOptions i m op ret c))))"
    using True e(5,6) unfolding locAPIUpdateSessionOptions_def d_def [symmetric]
    by (cases "m = 2"; cases "sessionMode e = 2")
      (simp_all add: e(7) Let_def d_def [symmetric] active_session_def set_ok)
  moreover have "geo_ok (mGeofenceBiDict (snd (snd (locAPIUpdateSessionOptions i m op ret c))))"
    using True assms(1) by (simp add: locAPIUpdateSessionOptions_def Let_def split_beta)
  moreover have "queues_ok (snd (snd (locAPIUpdateSessionOptions i m op ret c)))"
    using True assms(1) e(7) by (simp add: locAPIUpdateSessionOptions_def Let_def d_def split_beta)
  ultimately show ?thesis by (simp only: client_ok_def)
next
  case False
  with assms(1) show ?thesis by (auto simp: locAPIUpdateSessionOptions_def)
qed

lemmas client_ops_ok = setCallbacks_ok tracking_ops_ok startSession_ok stopSession_ok updateSession_ok
  geofence_ops_ok removeGeofences_ok batchingStatus_ok responses_ok

lemma client_exec_ok: "client_ok c \<Longrightarrow> client_op_ok op c \<Longrightarrow> client_ok (snd (client_exec op c))"
proof (cases op)
  case (Op_AddGeofences ids ops data r)
  then show "client_ok c \<Longrightarrow> client_op_ok op c \<Longrightarrow> ?thesis" by (simp only: client_exec.simps addGeofences_ok)
qed (simp_all add: client_ops_ok locAPIRemoveAllGeofences_def)

lemma client_reach_ok: "client_reach ops outs c \<Longrightarrow> client_ok c"
  by (induction rule: client_reach.induct) (simp add: client_ok_new, metis client_exec_ok snd_conv)

section \<open>Runs\<close>

fun client_run :: "'g client_op list \<Rightarrow> Client \<Rightarrow> ('g, unit) client_out list \<times> Client" where
  "client_run [] c = ([], c)"
| "client_run (op # ops) c =
     (let (out, c') = client_exec op c; (outs, c'') = client_run ops c' in (out @ outs, c''))"

fun client_run_ok :: "'g client_op list \<Rightarrow> Client \<Rightarrow> bool" where
  "client_run_ok [] c = True"
| "client_run_ok (op # ops) c \<longleftrightarrow> client_op_ok op c \<and> client_run_ok ops (snd (client_exec op c))"

lemma client_run_reach_from:
  "client_reach ops0 outs0 c \<Longrightarrow> client_run_ok ops c \<Longrightarrow>
   client_reach (ops0 @ ops) (outs0 @ fst (client_run ops c)) (snd (client_run ops c))"
proof (induction ops arbitrary: ops0 outs0 c)
  case (Cons op ops)
  obtain out c' where e: "client_exec op c = (out, c')" by fastforce
  with Cons.prems have "client_reach (ops0 @ [op]) (outs0 @ out) c'" by (simp add: reach_op)
  with Cons.IH [OF this] Cons.prems(2) e show ?case by (simp add: split_beta)
qed simp

lemma client_run_reach:
  "client_run_ok ops client_new \<Longrightarrow>
   client_reach ops (fst (client_run ops client_new)) (snd (client_run ops client_new))"
  using client_run_reach_from [OF reach_init] by simp

section \<open>Properties\<close>

text \<open>C11: In every history of calls, responses and reports in which the API hands out new session
  numbers and the client new geofence ids, both dictionaries stay consistent: ids and sessions
  are in one-to-one correspondence, no session is 0, and the entity kept for a session carries
  the client's id of it and its active tracking or batching session. Every queue holds only
  requests of its own kind.
\<close>

theorem client_dictionaries_consistent:
  assumes "client_reach ops outs c"
  shows "bd_ok (mGeofenceBiDict c) \<and> bd_ok (mSessionBiDict c) \<and> queues_ok c \<and>
    (bd_hasId i (mGeofenceBiDict c) \<longrightarrow>
       0 < bd_getSession i (mGeofenceBiDict c) \<and>
       bd_getId (bd_getSession i (mGeofenceBiDict c)) (mGeofenceBiDict c) = i) \<and>
    (bd_hasId i (mSessionBiDict c) \<longrightarrow>
       0 < bd_getSession i (mSessionBiDict c) \<and>
       (let (e, d) = bd_getExtById zero_entity i (mSessionBiDict c)
        in d = mSessionBiDict c \<and> se_id e = i \<and> active_session e = bd_getSession i (mSessionBiDict c)))"
proof -
  from assms have ok: "client_ok c" by (rule client_reach_ok)
  have "0 < bd_getSession i d \<and> bd_getId (bd_getSession i d) d = i" if "geo_ok d" "bd_hasId i d"
    for d :: "GeofenceBreachTypeMask BiDict"
  proof -
    from that(2) obtain s where "map_of (mForwardMap d) i = Some s" by (auto simp: bd_has_iff)
    with geo_ok_known [OF that(1) this] show ?thesis by (simp add: bd_getSession_eq bd_getId_eq)
  qed
  moreover have "0 < bd_getSession i d \<and>
      (let (e, d') = bd_getExtById zero_entity i d
       in d' = d \<and> se_id e = i \<and> active_session e = bd_getSession i d)"
    if d: "sess_ok d" "bd_hasId i d" for d
  proof -
    obtain s e where "map_of (mForwardMap d) i = Some s" "0 < s" "se_id e = i" "active_session e = s"
      "bd_getExtById zero_entity i d = (e, d)"
      by (rule sess_ok_entity [OF d]) blast
    then show ?thesis by (simp add: bd_getSession_eq(1))
  qed
  ultimately show ?thesis using ok by simp
qed

definition demo_options :: LocationOptions where
  "demo_options = \<lparr>minInterval = 1000, minDistance = 0, suplMode = GNSS_SUPL_MODE_MSB\<rparr>"

definition demo_fence :: "GeofenceBreachTypeMask \<Rightarrow> GeofenceOption" where
  "demo_fence m = \<lparr>breachTypeMask = m, responsiveness = 0, dwellTime = 0\<rparr>"

definition demo_ops :: "unit client_op list" where
  "demo_ops = [Op_SetCallbacks (Some 1) (Some 2) True, Op_StartSession 5 SESSION_MODE_ON_FIX demo_options 11,
     Op_AddGeofences [7, 9] [demo_fence 1, demo_fence 3] [(), ()] (Some [21, 22]),
     Op_UpdateSession 5 SESSION_MODE_ON_FULL demo_options 12]"

lemma demo_reach:
  "client_reach demo_ops (fst (client_run demo_ops client_new)) (snd (client_run demo_ops client_new))"
  by (rule client_run_reach) code_simp

lemma client_dictionaries_consistent_witness:
  "bd_ok (mGeofenceBiDict (snd (client_run demo_ops client_new))) \<and>
   bd_hasId 5 (mSessionBiDict (snd (client_run demo_ops client_new))) \<and>
   0 < bd_getSession 5 (mSessionBiDict (snd (client_run demo_ops client_new)))"
proof -
  have "bd_hasId 5 (mSessionBiDict (snd (client_run demo_ops client_new)))" by code_simp
  with client_dictionaries_consistent [OF demo_reach, of 5] show ?thesis by simp
qed

subsection \<open>Geofences\<close>

lemma add_loop_lookup:
  "length ids = length ss \<Longrightarrow> length ops = length ss \<Longrightarrow> distinct ss \<Longrightarrow>
   map_of (mBackwardMap (add_loop ids ss ops d)) t =
     (if t \<in> set ss then map_of (zip ss ids) t else map_of (mBackwardMap d) t)"
  "length ids = length ss \<Longrightarrow> length ops = length ss \<Longrightarrow> distinct ss \<Longrightarrow>
   map_of (mExtMap (add_loop ids ss ops d)) t =
     (if t \<in> set ss then map_of (zip ss (map breachTypeMask ops)) t else map_of (mExtMap d) t)"
  by (induction ids ss ops d rule: add_loop.induct) auto

lemma add_loop_reports:
  assumes "distinct ss" "length ids = length ss" "length ops = length ss"
  shows "ids_of ss (add_loop ids ss ops d) = ids"
    and "map (\<lambda>s. bd_getExtBySession 0 s (add_loop ids ss ops d)) ss = map breachTypeMask ops"
  using assms
  by (auto simp: ids_of_def bd_getId_def bd_getExtBySession_def add_loop_lookup map_of_zip_nth
      intro!: nth_equalityI)

text \<open>When the API accepts new geofences while no geofence request is pending, the response
  that lists the API's sessions is reported to the client's callback with the client's own ids
  in the order it gave them, and every new session is registered with the breach mask of its option.
\<close>

theorem added_geofences_reported_by_client_id:
  assumes "distinct ss" "length ids = length ss" "length ops = length ss"
    and "mLocationAPI c" "mQueue (mRequestQueues c REQUEST_GEOFENCE) = []"
    and "locAPIAddGeofences ids ops data (Some ss) c = (err, (out :: ('g, 'l) client_out list), c')"
  shows "err = LOCATION_ERROR_SUCCESS \<and> out = [Api_addGeofences ops data] \<and>
    fst (onCollectiveResponseCb errors ss c') = [Cb_onAddGeofences errors ids :: ('g, 'l) client_out] \<and>
    map (\<lambda>s. bd_getExtBySession 0 s (mGeofenceBiDict c')) ss = map breachTypeMask ops"
  using assms add_loop_reports [OF assms(1-3), of "mGeofenceBiDict c"]
  by (auto simp: locAPIAddGeofences_def onCollectiveResponseCb_def Let_def)

lemma added_geofences_reported_by_client_id_witness:
  "\<exists>(out :: (unit, unit) client_out list) c'. locAPIAddGeofences [7, 9] [demo_fence 1, demo_fence 3] [(), ()] (Some [21, 22])
       (client_new\<lparr>mLocationAPI := True\<rparr>) = (LOCATION_ERROR_SUCCESS, out, c') \<and>
     fst (onCollectiveResponseCb [LOCATION_ERROR_SUCCESS, LOCATION_ERROR_GEOFENCES_AT_MAX] [21, 22] c') =
       [Cb_onAddGeofences [LOCATION_ERROR_SUCCESS, LOCATION_ERROR_GEOFENCES_AT_MAX] [7, 9] :: (unit, unit) client_out]"
proof -
  obtain err out c' where e: "locAPIAddGeofences [7, 9] [demo_fence 1, demo_fence 3] [(), ()] (Some [21, 22])
      (client_new\<lparr>mLocationAPI := True\<rparr>) = (err, (out :: (unit, unit) client_out list), c')"
    by (metis prod_cases3)
  have q: "mQueue (mRequestQueues (client_new\<lparr>mLocationAPI := True\<rparr>) REQUEST_GEOFENCE) = []"
    by (simp add: client_new_def)
  have r: "err = LOCATION_ERROR_SUCCESS \<and> fst (onCollectiveResponseCb errors [21, 22] c') =
      [Cb_onAddGeofences errors [7, 9] :: (unit, unit) client_out]" for errors
    using added_geofences_reported_by_client_id [OF _ _ _ _ q e, of errors] by (simp add: e)
  then have "err = LOCATION_ERROR_SUCCESS" by blast
  with e r show ?thesis by blast
qed

text \<open>The sessions that a removal sends, read back through the dictionary it keeps, are the known ids.\<close>

lemma map_of_filter_keys: "map_of (filter (\<lambda>(i, s). P i) m) k = (if P k then map_of m k else None)"
  by (induction m) auto

lemma removed_ids:
  "geo_ok d \<Longrightarrow>
   map_of (mBackwardMap r) = (\<lambda>s. case map_of (mBackwardMap d) s of None \<Rightarrow> None
      | Some i \<Rightarrow> if i \<in> set ids0 then Some i else None) \<Longrightarrow> set ids \<subseteq> set ids0 \<Longrightarrow>
   ids_of (sessions_of ids d) r = filter (\<lambda>i. bd_hasId i d) ids"
  by (induction ids)
    (auto simp: sessions_of_def map_filter_simps ids_of_def bd_getId_def bd_has_iff
      dest: geo_ok_known split: option.split)

text \<open>In every reachable state a removal sends the API exactly the sessions of the known ids,
  in the client's order, forgets these ids and no others, and its response reports exactly the
  known ids, although they are no longer in the live dictionary.
\<close>

theorem removed_geofences_exact:
  assumes "client_reach ops outs c" "mLocationAPI c" "distinct ids"
    and "mSession (mRequestQueues c REQUEST_GEOFENCE) = GEOFENCE_SESSION_ID"
    and "mQueue (mRequestQueues c REQUEST_GEOFENCE) = []"
    and "list_ex (\<lambda>i. bd_hasId i (mGeofenceBiDict c)) ids"
    and "locAPIRemoveGeofences ids True c = ((out :: ('g, 'l) client_out list), c')"
  shows "out = [Api_removeGeofences (sessions_of ids (mGeofenceBiDict c))] \<and>
    (bd_hasId i (mGeofenceBiDict c') \<longleftrightarrow> bd_hasId i (mGeofenceBiDict c) \<and> i \<notin> set ids) \<and>
    fst (onCollectiveResponseCb errors (sessions_of ids (mGeofenceBiDict c)) c') =
      [Cb_onRemoveGeofences errors (filter (\<lambda>i. bd_hasId i (mGeofenceBiDict c)) ids) :: ('g, 'l) client_out]"
proof -
  have ok: "geo_ok (mGeofenceBiDict c)" using client_reach_ok [OF assms(1)] by simp
  obtain ss d r where l: "remove_loop ids (mGeofenceBiDict c) bd_new = (ss, d, r)" by (metis prod_cases3)
  have ex: "ss = sessions_of ids (mGeofenceBiDict c)"
    "mForwardMap d = filter (\<lambda>(i, s). i \<notin> set ids) (mForwardMap (mGeofenceBiDict c))"
    "map_of (mBackwardMap r) = (\<lambda>s. case map_of (mBackwardMap (mGeofenceBiDict c)) s of None \<Rightarrow> None
      | Some i \<Rightarrow> if i \<in> set ids then Some i else None)"
    using remove_loop_exact [OF ok assms(3) l] unfolding bd_new_simps map_of.simps by blast+
  from removed_ids [OF ok ex(3)] have rid: "ids_of ss r = filter (\<lambda>i. bd_hasId i (mGeofenceBiDict c)) ids"
    using ex(1) by simp
  moreover from assms(6) have "filter (\<lambda>i. bd_hasId i (mGeofenceBiDict c)) ids \<noteq> []"
    by (simp add: list_ex_iff filter_empty_conv)
  ultimately have "ss \<noteq> []" by (auto simp: ids_of_def)
  with assms(2,4,5,7) l have o: "out = [Api_removeGeofences ss]"
    "c' = queue_upd REQUEST_GEOFENCE (rq_push (RemoveGeofencesRequest (Some r))) (c\<lparr>mGeofenceBiDict := d\<rparr>)"
    by (simp_all add: locAPIRemoveGeofences_def Let_def)
  have "bd_hasId i (mGeofenceBiDict c') \<longleftrightarrow> bd_hasId i (mGeofenceBiDict c) \<and> i \<notin> set ids"
    unfolding o(2) by (simp add: bd_has_iff ex(2) map_of_filter_keys)
  moreover have "fst (onCollectiveResponseCb errors ss c') = [Cb_onRemoveGeofences errors (ids_of ss r)]"
    unfolding o(2) using assms(4,5) by (simp add: onCollectiveResponseCb_def Let_def)
  ultimately show ?thesis using o(1) rid ex(1) by simp
qed

definition demo_client :: Client where
  "demo_client = snd (client_run (demo_ops @ [Op_CollectiveResponse [] [21, 22]]) client_new)"

lemma demo_client_reach:
  "\<exists>outs. client_reach (demo_ops @ [Op_CollectiveResponse [] [21, 22]]) outs demo_client"
proof -
  have "client_run_ok (demo_ops @ [Op_CollectiveResponse [] [21, 22]]) client_new" by code_simp
  from client_run_reach [OF this] show ?thesis unfolding demo_client_def by blast
qed

lemma removed_geofences_exact_witness:
  "\<exists>c'. locAPIRemoveGeofences [9, 8] True demo_client = ([Api_removeGeofences [22] :: (unit, unit) client_out], c') \<and>
     \<not> bd_hasId 9 (mGeofenceBiDict c') \<and>
     fst (onCollectiveResponseCb [LOCATION_ERROR_SUCCESS] [22] c') =
       [Cb_onRemoveGeofences [LOCATION_ERROR_SUCCESS] [9] :: (unit, unit) client_out]"
proof -
  obtain outs where r: "client_reach (demo_ops @ [Op_CollectiveResponse [] [21, 22]]) outs demo_client"
    using demo_client_reach by blast
  obtain out c' where e: "locAPIRemoveGeofences [9, 8] True demo_client = ((out :: (unit, unit) client_out list), c')"
    by fastforce
  have m: "mLocationAPI demo_client" "distinct [9, 8 :: u32]"
    "mSession (mRequestQueues demo_client REQUEST_GEOFENCE) = GEOFENCE_SESSION_ID"
    "mQueue (mRequestQueues demo_client REQUEST_GEOFENCE) = []"
    "list_ex (\<lambda>i. bd_hasId i (mGeofenceBiDict demo_client)) [9, 8]"
    "sessions_of [9, 8] (mGeofenceBiDict demo_client) = [22]"
    "filter (\<lambda>i. bd_hasId i (mGeofenceBiDict demo_client)) [9, 8] = [9]"
    by code_simp+
  have "out = [Api_removeGeofences [22]] \<and> \<not> bd_hasId 9 (mGeofenceBiDict c') \<and>
    fst (onCollectiveResponseCb [LOCATION_ERROR_SUCCESS] [22] c') =
      [Cb_onRemoveGeofences [LOCATION_ERROR_SUCCESS] [9] :: (unit, unit) client_out]"
    using removed_geofences_exact [OF r m(1-5) e, of 9 "[LOCATION_ERROR_SUCCESS]"] unfolding m(6,7)
    by simp
  with e show ?thesis by blast
qed

lemma breach_loop_eq:
  "breach_loop type ss d =
     map (\<lambda>s. bd_getId s d) (filter (\<lambda>s. breach_selected type (bd_getExtBySession 0 s d)) ss)"
  by (induction type ss d rule: breach_loop.induct) (simp_all add: Let_def)

text \<open>In every reachable state a breach report calls the client's breach callback exactly once,
  with exactly those sessions of the report, in order and translated to the client's ids, that
  are registered with a breach mask that has the bit of the reported type; reports of dwelling
  select nothing. Every id passed is a registered one of a reported session.
\<close>

theorem breach_reports_selected_ids:
  assumes "client_reach ops outs c" "mGeofenceBreachCallback c = Some cb"
  shows "beforeGeofenceBreachCb ss type loc True c =
    [Cb_geofenceBreach cb
       (map (\<lambda>s. bd_getId s (mGeofenceBiDict c))
         (filter (\<lambda>s. bd_hasSession s (mGeofenceBiDict c) \<and>
            breach_selected type (bd_getExtBySession 0 s (mGeofenceBiDict c))) ss)) type loc] \<and>
    (\<forall>i \<in> set (breach_loop type ss (mGeofenceBiDict c)).
       bd_hasId i (mGeofenceBiDict c) \<and> bd_getSession i (mGeofenceBiDict c) \<in> set ss)"
proof -
  let ?d = "mGeofenceBiDict c"
  have ok: "bd_ok ?d" using client_reach_ok [OF assms(1)] by simp
  have known: "bd_hasSession s ?d" if "breach_selected type (bd_getExtBySession 0 s ?d)" for s
  proof (rule ccontr)
    assume "\<not> bd_hasSession s ?d"
    then have "s \<notin> dom (map_of (mExtMap ?d))"
      unfolding bd_ok_ext [OF ok] by (simp add: bd_has_iff domIff)
    then have "map_of (mExtMap ?d) s = None" by (simp only: domIff not_not)
    with that show False by (simp add: bd_getExtBySession_def breach_selected_def)
  qed
  have "filter (\<lambda>s. breach_selected type (bd_getExtBySession 0 s ?d)) ss =
    filter (\<lambda>s. bd_hasSession s ?d \<and> breach_selected type (bd_getExtBySession 0 s ?d)) ss"
    by (rule filter_cong) (auto intro: known)
  with assms(2) have "beforeGeofenceBreachCb ss type loc True c =
    [Cb_geofenceBreach cb (map (\<lambda>s. bd_getId s ?d)
       (filter (\<lambda>s. bd_hasSession s ?d \<and> breach_selected type (bd_getExtBySession 0 s ?d)) ss)) type loc]"
    by (simp add: beforeGeofenceBreachCb_def breach_loop_eq)
  moreover have "bd_hasId (bd_getId s ?d) ?d \<and> bd_getSession (bd_getId s ?d) ?d = s"
    if has: "bd_hasSession s ?d" for s
  proof -
    from has obtain i where i: "map_of (mBackwardMap ?d) s = Some i" by (auto simp: bd_has_iff)
    with bd_ok_Some [OF ok, of i s] show ?thesis
      by (simp add: bd_has_iff bd_getId_eq(1) bd_getSession_eq(1))
  qed
  ultimately show ?thesis using known by (auto simp: breach_loop_eq)
qed

lemma breach_reports_selected_ids_witness:
  "beforeGeofenceBreachCb [21, 22, 30] GEOFENCE_BREACH_EXIT () True demo_client =
     [Cb_geofenceBreach 1 [9] GEOFENCE_BREACH_EXIT () :: (unit, unit) client_out]"
proof -
  obtain outs where r: "client_reach (demo_ops @ [Op_CollectiveResponse [] [21, 22]]) outs demo_client"
    using demo_client_reach by blast
  have cb: "mGeofenceBreachCallback demo_client = Some 1" by code_simp
  have "map (\<lambda>s. bd_getId s (mGeofenceBiDict demo_client))
      (filter (\<lambda>s. bd_hasSession s (mGeofenceBiDict demo_client) \<and>
         breach_selected GEOFENCE_BREACH_EXIT (bd_getExtBySession 0 s (mGeofenceBiDict demo_client)))
        [21, 22, 30]) = [9]"
    by code_simp
  then show ?thesis by (rule subst) (rule conjunct1 [OF breach_reports_selected_ids [OF r cb]])
qed

text \<open>locAPIRemoveAllGeofences hands the API's session numbers to locAPIRemoveGeofences, which
  takes client ids: in every state in which no session number happens to be an id of the
  client, nothing is sent and nothing is removed.
\<close>

theorem remove_all_geofences_removes_nothing:
  assumes "list_all (\<lambda>s. \<not> bd_hasId s (mGeofenceBiDict c)) (bd_getAllSessions (mGeofenceBiDict c))"
  shows "locAPIRemoveAllGeofences alloc c = ([], c)"
proof -
  have "remove_loop ids d r = ([], d, r)" if "list_all (\<lambda>s. \<not> bd_hasId s d) ids" for ids d r
    using that by (induction ids) (simp_all add: bd_has_iff bd_getSession_eq(2) Let_def)
  from this [OF assms] show ?thesis by (simp add: locAPIRemoveAllGeofences_def locAPIRemoveGeofences_def Let_def)
qed

lemma remove_all_geofences_removes_nothing_witness:
  "bd_getAllSessions (mGeofenceBiDict demo_client) = [21, 22] \<and>
   locAPIRemoveAllGeofences True demo_client = ([] :: (unit, unit) client_out list, demo_client)"
proof -
  have "list_all (\<lambda>s. \<not> bd_hasId s (mGeofenceBiDict demo_client)) (bd_getAllSessions (mGeofenceBiDict demo_client))"
    "bd_getAllSessions (mGeofenceBiDict demo_client) = [21, 22]" by code_simp+
  with remove_all_geofences_removes_nothing show ?thesis by blast
qed

subsection \<open>Responses\<close>

text \<open>Any history of pushes and pops of a request queue hands out the requests in the order pushed.\<close>

lemma rq_enq_ok: "enq_ok (\<lambda>u q. True) rq_enq rq_deq q ops"
  by (induction ops arbitrary: q rule: enqs.induct) (simp_all add: rq_enq_def rq_deq_def split: prod.split)

lemma request_queue_is_fifo:
  "\<exists>outs q'. fifo_run rq_enq rq_deq q ops = Some (outs, q') \<and> outs @ mQueue q' = mQueue q @ enqs ops"
  using rq.run_total_fifo [OF refl rq_enq_ok] by metis








text \<open>
  A start that failed: the API returned session 0 and will send no response. Nothing afterwards
  resets \<open>mTracking\<close> or the queue's session.
\<close>

definition tracking_stuck :: "Client \<Rightarrow> bool" where
  "tracking_stuck c \<longleftrightarrow> mLocationAPI c \<and> mTracking c \<and> mSession (mRequestQueues c REQUEST_TRACKING) = 0"

lemma find_request_frame:
  "mLocationAPI (snd (find_request ts s c)) = mLocationAPI c \<and>
   mTracking (snd (find_request ts s c)) = mTracking c \<and>
   mSession (mRequestQueues (snd (find_request ts s c)) t) = mSession (mRequestQueues c t)"
proof (induction ts)
  case (Cons t' ts)
  obtain r q where "rq_pop (mRequestQueues c t') = (r, q)" by fastforce
  with Cons show ?case by (cases "t = t'") simp_all
qed simp

lemma getRequest_stuck: "tracking_stuck c \<Longrightarrow> tracking_stuck (snd (getRequestBySession s c))"
  using find_request_frame [of "[REQUEST_TRACKING, REQUEST_SESSION, REQUEST_GEOFENCE, REQUEST_NIRESPONSE]" s c]
  unfolding getRequestBySession_def tracking_stuck_def
  by (auto simp del: find_request.simps split: prod.splits option.splits)

lemma onResponse_stuck: "tracking_stuck (snd (onResponse r e i c)) = tracking_stuck c"
  by (cases r) (simp_all add: tracking_stuck_def removeSession_def Let_def)

lemma tracking_stuck_exec: "tracking_stuck c \<Longrightarrow> tracking_stuck (snd (client_exec op c))"
proof (cases op)
  case (Op_Response e i)
  then show "tracking_stuck c \<Longrightarrow> ?thesis"
    using getRequest_stuck [of c i]
    by (auto simp: onResponseCb_def onResponse_stuck split: prod.split option.split)
qed (auto simp: tracking_stuck_def locAPISetCallbacks_def locAPIStartTracking_def locAPIStopTracking_def
    locAPIUpdateTrackingOptions_def locAPIGetBatchSize_def locAPIStartSession_def locAPIStopSession_def
    locAPIUpdateSessionOptions_def locAPIGetBatchedLocations_def locAPIAddGeofences_def
    locAPIRemoveGeofences_def locAPIModifyGeofences_def locAPIPauseGeofences_def locAPIResumeGeofences_def
    locAPIRemoveAllGeofences_def locAPIGnssNiResponse_def beforeBatchingStatusCb_def
    onCollectiveResponseCb_def Let_def split: prod.split option.split)

lemma tracking_stuck_run: "tracking_stuck c \<Longrightarrow> tracking_stuck (snd (client_run ops c))"
  by (induction ops arbitrary: c) (simp_all add: split_beta tracking_stuck_exec)

text \<open>A start of tracking that the API refused (it returned session 0) is reported as success and
  never recovered from: whatever calls, responses and reports follow, every later start of tracking
  returns success without asking the API, and every stop is ignored.
\<close>

theorem refused_tracking_never_restarts:
  assumes "mLocationAPI c" "\<not> mTracking c"
    and "locAPIStartTracking options 0 c = (err, (out :: ('g, 'l) client_out list), c1)"
  shows "err = LOCATION_ERROR_SUCCESS \<and>
    locAPIStartTracking options' session (snd (client_run ops c1)) =
      (LOCATION_ERROR_SUCCESS, [], snd (client_run ops c1)) \<and>
    locAPIStopTracking (snd (client_run ops c1)) = ([], snd (client_run ops c1))"
proof -
  have "tracking_stuck c1" "err = LOCATION_ERROR_SUCCESS"
    using assms by (auto simp: locAPIStartTracking_def tracking_stuck_def)
  with tracking_stuck_run [of c1 ops] show ?thesis
    by (simp add: tracking_stuck_def locAPIStartTracking_def locAPIStopTracking_def)
qed

lemma refused_tracking_never_restarts_witness:
  "locAPIStopTracking (snd (client_run [Op_StopTracking, Op_StartTracking demo_options 6 :: unit client_op]
      (snd (snd (locAPIStartTracking demo_options 0 (client_new\<lparr>mLocationAPI := True\<rparr>)
         :: _ \<times> (unit, unit) client_out list \<times> _))))) =
   ([] :: (unit, unit) client_out list,
    snd (client_run [Op_StopTracking, Op_StartTracking demo_options 6 :: unit client_op]
      (snd (snd (locAPIStartTracking demo_options 0 (client_new\<lparr>mLocationAPI := True\<rparr>)
         :: _ \<times> (unit, unit) client_out list \<times> _)))))"
proof -
  obtain err out c1 where e: "locAPIStartTracking demo_options 0 (client_new\<lparr>mLocationAPI := True\<rparr>) =
      (err, (out :: (unit, unit) client_out list), c1)" by (metis prod_cases3)
  have m: "mLocationAPI (client_new\<lparr>mLocationAPI := True\<rparr>)" "\<not> mTracking (client_new\<lparr>mLocationAPI := True\<rparr>)"
    by (simp_all add: client_new_def)
  show ?thesis unfolding e snd_conv
    by (rule conjunct2 [OF conjunct2 [OF refused_tracking_never_restarts [OF m e]]])
qed

subsection \<open>The control client\<close>

text \<open>A configuration whose update failed in the API is remembered as the current one: the
  client gets a failure, and its retry with the same configuration returns success without any
  call to the API.
\<close>

theorem failed_config_update_not_retried:
  assumes "mLocationControlAPI c" "mConfig c \<noteq> config"
    and "locAPIGnssUpdateConfig config False c = (err, (out :: ('c, 'd) ctrl_out list), c')"
  shows "err = LOCATION_ERROR_GENERAL_FAILURE \<and> out = [Api_gnssUpdateConfig config] \<and>
    locAPIGnssUpdateConfig config idArray c' = (LOCATION_ERROR_SUCCESS, ([] :: ('c, 'd) ctrl_out list), c')"
  using assms by (auto simp: locAPIGnssUpdateConfig_def Let_def)

lemma failed_config_update_not_retried_witness:
  "\<exists>c'. locAPIGnssUpdateConfig (5 :: int) True c' = (LOCATION_ERROR_SUCCESS, ([] :: (int, int) ctrl_out list), c') \<and>
     fst (locAPIGnssUpdateConfig 5 False (ctrl_new 0 True) :: _ \<times> (int, int) ctrl_out list \<times> _) =
       LOCATION_ERROR_GENERAL_FAILURE"
proof -
  obtain err out c' where e: "locAPIGnssUpdateConfig 5 False (ctrl_new (0 :: int) True) =
      (err, (out :: (int, int) ctrl_out list), c')" by (metis prod_cases3)
  have m: "mLocationControlAPI (ctrl_new (0 :: int) True)" "mConfig (ctrl_new (0 :: int) True) \<noteq> 5"
    by (simp_all add: ctrl_new_def)
  from failed_config_update_not_retried [OF m e, of True] e show ?thesis by auto
qed

text \<open>A refused enable (session 0) likewise leaves the client enabled for good.\<close>

lemma refused_enable_sticks:
  assumes "mLocationControlAPI c" "\<not> mEnabled c"
    and "locAPIEnable tech 0 c = (err, (out :: ('c, 'd) ctrl_out list), c')"
  shows "locAPIEnable tech' session c' = (LOCATION_ERROR_SUCCESS, [], c')" and "locAPIDisable c' = ([], c')"
  using assms by (auto simp: locAPIEnable_def locAPIDisable_def ctrl_upd_def)

subsection \<open>Histories behind the findings\<close>

text \<open>
  Two sessions are active. The client stops session 1 and asks session 2 for its batch; the
  answer to the second request arrives first and is taken for the answer to the stop: session 2 is
  forgotten, session 1 stays.
\<close>

definition demo_swap :: "unit client_op list" where
  "demo_swap = [Op_SetCallbacks None None True,
     Op_StartSession 1 SESSION_MODE_ON_FULL demo_options 31,
     Op_StartSession 2 SESSION_MODE_ON_FULL demo_options 32,
     Op_Response LOCATION_ERROR_SUCCESS 31, Op_Response LOCATION_ERROR_SUCCESS 32,
     Op_StopSession 1, Op_GetBatchedLocations 2 10, Op_Response LOCATION_ERROR_SUCCESS 32]"

lemma swapped_responses_forget_wrong_session:
  "client_run_ok demo_swap client_new"
  "last (fst (client_run demo_swap client_new)) = Cb_onStopBatching LOCATION_ERROR_SUCCESS"
  "bd_hasId 1 (mSessionBiDict (snd (client_run demo_swap client_new)))"
  "\<not> bd_hasId 2 (mSessionBiDict (snd (client_run demo_swap client_new)))"
  by code_simp+

text \<open>An unknown id before a known one shifts the sessions against the options of a modification.\<close>

lemma modified_options_misaligned:
  "fst (locAPIModifyGeofences [8, 9] [demo_fence 1, demo_fence 2] True demo_client) =
     [Api_modifyGeofences [22] [demo_fence 1, demo_fence 2] :: (unit, unit) client_out]"
  by code_simp

text \<open>A session whose start the API refused (session 0) blocks its id.\<close>

lemma refused_session_blocks_id:
  assumes "mLocationAPI c" "\<not> bd_hasId i (mSessionBiDict c)"
  shows "fst (locAPIStartSession i m' op' ret
      (snd (snd (locAPIStartSession i m op 0 c :: _ \<times> ('g, 'l) client_out list \<times> _)))) =
    LOCATION_ERROR_ALREADY_STARTED"
  using assms by (simp add: locAPIStartSession_def Let_def)

end
