(* ===== verification/Set_Map.thy ===== *)
theory Set_Map
  imports Prelude
begin

text \<open>
  gps/utils/LocUnorderedSetMap.h: a map from keys to non-empty sets of values. An
  unordered_set is a duplicate-free list in some iteration order, an unordered_map an association
  list with distinct keys; loops run over them in that order. The abstraction is the relation
  between keys and values, which does not depend on the order.
\<close>

section \<open>Unordered containers\<close>

type_synonym 'a uset = "'a list"
type_synonym ('k, 'v) umap = "('k \<times> 'v) list"

definition us_insert :: "'a \<Rightarrow> 'a uset \<Rightarrow> 'a uset" where
  "us_insert x s = (if x \<in> set s then s else x # s)"

definition us_erase :: "'a \<Rightarrow> 'a uset \<Rightarrow> 'a uset" where
  "us_erase x s = filter (\<lambda>y. y \<noteq> x) s"

definition us_insert_all :: "'a uset \<Rightarrow> 'a uset \<Rightarrow> 'a uset" where
  "us_insert_all xs s = fold us_insert xs s"

lemma set_us_insert [simp]: "set (us_insert x s) = insert x (set s)"
  by (auto simp: us_insert_def)

lemma distinct_us_insert [simp]: "distinct s \<Longrightarrow> distinct (us_insert x s)"
  by (simp add: us_insert_def)

lemma set_us_erase [simp]: "set (us_erase x s) = set s - {x}"
  by (auto simp: us_erase_def)

lemma distinct_us_erase [simp]: "distinct s \<Longrightarrow> distinct (us_erase x s)"
  by (simp add: us_erase_def)

lemma set_us_insert_all [simp]: "set (us_insert_all xs s) = set xs \<union> set s"
  unfolding us_insert_all_def by (induction xs arbitrary: s) auto

lemma distinct_us_insert_all [simp]: "distinct s \<Longrightarrow> distinct (us_insert_all xs s)"
  unfolding us_insert_all_def by (induction xs arbitrary: s) auto

section \<open>The functions\<close>

text \<open>trimSet: the flag says whether the caller passed a set for the removed values.\<close>

fun trimSet :: "'a uset \<Rightarrow> 'a uset \<Rightarrow> 'a uset option \<Rightarrow> 'a uset \<times> 'a uset option" where
  "trimSet fromSet [] goneVals = (fromSet, goneVals)"
| "trimSet fromSet (v # rVals) goneVals =
     (if v \<in> set fromSet
      then trimSet (us_erase v fromSet) rVals (map_option (us_insert v) goneVals)
      else trimSet fromSet rVals goneVals)"

text \<open>
  The loop visits every element that \<open>s2\<close> held at its start; the code gets to the next element
  by incrementing an iterator whose element it has just erased.
\<close>

fun interset_loop :: "'a uset \<Rightarrow> 'a uset \<Rightarrow> 'a uset \<Rightarrow> 'a uset \<Rightarrow> 'a uset \<times> 'a uset \<times> 'a uset" where
  "interset_loop [] s1 s2 common = (common, s1, s2)"
| "interset_loop (b # bs) s1 s2 common =
     (if b \<in> set s1 then interset_loop bs (us_erase b s1) (us_erase b s2) (us_insert b common)
      else interset_loop bs s1 s2 common)"

definition removeAndReturnInterset :: "'a uset \<Rightarrow> 'a uset \<Rightarrow> 'a uset \<times> 'a uset \<times> 'a uset" where
  "removeAndReturnInterset s1 s2 = interset_loop s2 s1 s2 []"

type_synonym ('k, 'v) set_map = "('k, 'v uset) umap"

definition sm_getValSet :: "'k \<Rightarrow> ('k, 'v) set_map \<Rightarrow> 'v uset" where
  "sm_getValSet key m = (case map_of m key of Some vs \<Rightarrow> vs | None \<Rightarrow> [])"

definition sm_getValSetPtr :: "'k \<Rightarrow> ('k, 'v) set_map \<Rightarrow> 'v uset option" where
  "sm_getValSetPtr key m = map_of m key"

fun keys_loop :: "('k, 'v) set_map \<Rightarrow> 'k uset \<Rightarrow> 'k uset" where
  "keys_loop [] keys = keys"
| "keys_loop ((k, vs) # m) keys = keys_loop m (us_insert k keys)"

definition sm_getKeys :: "('k, 'v) set_map \<Rightarrow> 'k uset" where
  "sm_getKeys m = keys_loop m []"

definition sm_empty :: "('k, 'v) set_map \<Rightarrow> bool" where
  "sm_empty m \<longleftrightarrow> m = []"

definition sm_remove :: "'k \<Rightarrow> ('k, 'v) set_map \<Rightarrow> bool \<times> ('k, 'v) set_map" where
  "sm_remove key m = (map_of m key \<noteq> None, AList.delete key m)"

text \<open>The private trimOrRemove on the entry of \<open>key\<close>, whose values are \<open>vs\<close>.\<close>

definition trim_entry :: "'k \<Rightarrow> 'v uset \<Rightarrow> 'v uset \<Rightarrow> 'v uset option \<Rightarrow> ('k, 'v) set_map \<Rightarrow>
    bool \<times> 'v uset option \<times> ('k, 'v) set_map" where
  "trim_entry key vs rVals goneVals m =
     (let (vs', goneVals') = trimSet vs rVals goneVals;
          m' = AList.update key vs' m;
          removeEntry = (vs' = [])
      in (removeEntry, goneVals', if removeEntry then AList.delete key m' else m'))"

fun sm_trimOrRemove :: "'k uset \<Rightarrow> 'v uset \<Rightarrow> 'k uset option \<Rightarrow> 'v uset option \<Rightarrow> ('k, 'v) set_map \<Rightarrow>
    'k uset option \<times> 'v uset option \<times> ('k, 'v) set_map" where
  "sm_trimOrRemove [] rVals goneKeys goneVals m = (goneKeys, goneVals, m)"
| "sm_trimOrRemove (key # keys) rVals goneKeys goneVals m =
     (case map_of m key of
        None \<Rightarrow> sm_trimOrRemove keys rVals goneKeys goneVals m
      | Some vs \<Rightarrow>
          (let (gone, goneVals, m) = trim_entry key vs rVals goneVals m
           in sm_trimOrRemove keys rVals (if gone then map_option (us_insert key) goneKeys else goneKeys)
                goneVals m))"

definition sm_add1 :: "'k \<Rightarrow> 'v uset \<Rightarrow> ('k, 'v) set_map \<Rightarrow> bool \<times> ('k, 'v) set_map" where
  "sm_add1 key newVals m =
     (if newVals \<noteq> []
      then (case map_of m key of
              Some vs \<Rightarrow> (False, AList.update key (us_insert_all newVals vs) m)
            | None \<Rightarrow> (True, AList.update key newVals m))
      else (False, m))"

fun sm_add :: "'k uset \<Rightarrow> 'v uset \<Rightarrow> 'k uset option \<Rightarrow> ('k, 'v) set_map \<Rightarrow> 'k uset option \<times> ('k, 'v) set_map" where
  "sm_add [] newVals newKeys m = (newKeys, m)"
| "sm_add (key # keys) newVals newKeys m =
     (let (added, m) = sm_add1 key newVals m
      in sm_add keys newVals (if added then map_option (us_insert key) newKeys else newKeys) m)"

text \<open>update returns (what it calls the gone values, the new values as left to the caller, the map).\<close>

definition sm_update :: "'k \<Rightarrow> 'v uset \<Rightarrow> ('k, 'v) set_map \<Rightarrow> 'v uset \<times> 'v uset \<times> ('k, 'v) set_map" where
  "sm_update key newVals m =
     (if newVals = [] then ([], newVals, AList.delete key m)
      else let curVals = sm_getValSet key m;
               m' = AList.update key newVals m;
               (goneVals, curVals', newVals') = removeAndReturnInterset curVals newVals
           in (goneVals, newVals', m'))"

section \<open>The relation a set map stands for\<close>

definition sm_rel :: "('k, 'v) set_map \<Rightarrow> ('k \<times> 'v) set" where
  "sm_rel m = {(k, v). v \<in> set (sm_getValSet k m)}"

definition sm_ok :: "('k, 'v) set_map \<Rightarrow> bool" where
  "sm_ok m \<longleftrightarrow> distinct (map fst m) \<and> list_all (\<lambda>(k, vs). vs \<noteq> [] \<and> distinct vs) m"

lemma sm_ok_Nil [simp]: "sm_ok []"
  by (simp add: sm_ok_def)

lemma sm_ok_iff:
  "sm_ok m \<longleftrightarrow> distinct (map fst m) \<and> (\<forall>k vs. map_of m k = Some vs \<longrightarrow> vs \<noteq> [] \<and> distinct vs)"
  unfolding sm_ok_def list_all_iff
  by (rule conj_cong [OF refl], rule iffI, blast dest: map_of_SomeD)
    (use map_of_eq_Some_iff in fastforce)

lemma sm_okI:
  "distinct (map fst m) \<Longrightarrow> (\<And>k vs. map_of m k = Some vs \<Longrightarrow> vs \<noteq> [] \<and> distinct vs) \<Longrightarrow> sm_ok m"
  unfolding sm_ok_iff by blast

lemma sm_okD: "sm_ok m \<Longrightarrow> map_of m k = Some vs \<Longrightarrow> vs \<noteq> [] \<and> distinct vs"
  unfolding sm_ok_iff by blast

lemma sm_ok_keys: "sm_ok m \<Longrightarrow> distinct (map fst m)"
  by (simp add: sm_ok_def)

lemma sm_ok_delete [simp]: "sm_ok m \<Longrightarrow> sm_ok (AList.delete k m)"
  by (rule sm_okI) (simp add: sm_ok_keys distinct_delete, auto simp: delete_conv' dest: sm_okD split: if_splits)

lemma sm_ok_put [simp]: "sm_ok m \<Longrightarrow> vs \<noteq> [] \<Longrightarrow> distinct vs \<Longrightarrow> sm_ok (AList.update k vs m)"
  by (rule sm_okI) (simp add: sm_ok_keys distinct_update, auto simp: update_conv' dest: sm_okD split: if_splits)

lemma sm_getValSet_put [simp]:
  "sm_getValSet k (AList.update k' vs m) = (if k = k' then vs else sm_getValSet k m)"
  by (simp add: sm_getValSet_def update_conv')

lemma sm_getValSet_delete [simp]:
  "sm_getValSet k (AList.delete k' m) = (if k = k' then [] else sm_getValSet k m)"
  by (simp add: sm_getValSet_def delete_conv')

lemma sm_rel_iff [simp]: "(k, v) \<in> sm_rel m \<longleftrightarrow> v \<in> set (sm_getValSet k m)"
  by (simp add: sm_rel_def)

lemma sm_rel_Nil [simp]: "sm_rel [] = {}"
  by (simp add: sm_rel_def sm_getValSet_def)

lemma sm_rel_keys: "sm_ok m \<Longrightarrow> map_of m k = None \<longleftrightarrow> k \<notin> Domain (sm_rel m)"
proof (cases "map_of m k")
  case (Some vs)
  assume "sm_ok m"
  with Some obtain v where "v \<in> set vs" using sm_okD [of m k vs] by (cases vs) auto
  with Some show ?thesis by (auto simp: sm_getValSet_def)
qed (auto simp: sm_getValSet_def)

lemma sm_getKeys_set: "set (sm_getKeys m) = fst ` set m"
proof -
  have "set (keys_loop m ks) = fst ` set m \<union> set ks" for ks
    by (induction m ks rule: keys_loop.induct) auto
  then show ?thesis by (simp add: sm_getKeys_def)
qed

lemma sm_getKeys_Domain: "sm_ok m \<Longrightarrow> set (sm_getKeys m) = Domain (sm_rel m)"
  using sm_rel_keys [of m] by (auto simp: sm_getKeys_set map_of_eq_None_iff)

section \<open>Each operation on the relation\<close>

lemma trimSet_left:
  "fst (trimSet s r g) = filter (\<lambda>v. v \<notin> set r) s"
  by (induction s r g rule: trimSet.induct) (auto simp: us_erase_def intro!: filter_cong)

lemma trimSet_gone_None [simp]: "snd (trimSet s r None) = None"
  by (induction s r "None :: 'a list option" rule: trimSet.induct) auto

lemma trimSet_gone:
  "\<exists>gs'. snd (trimSet s r (Some gs)) = Some gs' \<and> set gs' = set gs \<union> (set s \<inter> set r)"
proof (induction r arbitrary: s gs)
  case (Cons v r)
  show ?case
  proof (cases "v \<in> set s")
    case True
    with Cons.IH [of "us_erase v s" "us_insert v gs"] show ?thesis by auto
  next
    case False
    with Cons.IH [of s gs] show ?thesis by auto
  qed
qed simp

lemma trimSet_spec:
  assumes "trimSet s r g = (s', g')"
  shows "set s' = set s - set r \<and> (distinct s \<longrightarrow> distinct s') \<and>
    (case g of None \<Rightarrow> g' = None | Some gs \<Rightarrow> \<exists>gs'. g' = Some gs' \<and> set gs' = set gs \<union> (set s \<inter> set r))"
proof -
  have "s' = filter (\<lambda>v. v \<notin> set r) s" using trimSet_left [of s r g] assms by simp
  then have "set s' = set s - set r \<and> (distinct s \<longrightarrow> distinct s')" by auto
  moreover have "case g of None \<Rightarrow> g' = None
      | Some gs \<Rightarrow> \<exists>gs'. g' = Some gs' \<and> set gs' = set gs \<union> (set s \<inter> set r)"
  proof (cases g)
    case None
    with assms trimSet_gone_None [of s r] show ?thesis by simp
  next
    case (Some gs)
    with assms trimSet_gone [of s r gs] show ?thesis by simp
  qed
  ultimately show ?thesis by (intro conjI) blast+
qed

lemma interset_spec:
  "interset_loop bs s1 s2 c = (c', s1', s2') \<Longrightarrow>
   set c' = set c \<union> (set s1 \<inter> set bs) \<and> set s1' = set s1 - set bs \<and>
   set s2' = set s2 - (set s1 \<inter> set bs)"
proof (induction bs s1 s2 c arbitrary: c' s1' s2' rule: interset_loop.induct)
  case (2 b bs s1 s2 c)
  show ?case
  proof (cases "b \<in> set s1")
    case True
    with "2.prems" have "interset_loop bs (us_erase b s1) (us_erase b s2) (us_insert b c) = (c', s1', s2')" by simp
    from "2.IH"(1) [OF True this] True
    have "set c' = insert b (set c) \<union> ((set s1 - {b}) \<inter> set bs)" "set s1' = set s1 - {b} - set bs"
      "set s2' = set s2 - {b} - ((set s1 - {b}) \<inter> set bs)" by simp_all
    with True show ?thesis by auto
  next
    case False
    with "2.prems" have "interset_loop bs s1 s2 c = (c', s1', s2')" by simp
    from "2.IH"(2) [OF False this] False
    have "set c' = set c \<union> (set s1 \<inter> set bs)" "set s1' = set s1 - set bs"
      "set s2' = set s2 - (set s1 \<inter> set bs)" by simp_all
    with False show ?thesis by auto
  qed
qed simp

lemma trim_entry_spec:
  assumes "sm_ok m" "map_of m k = Some vs" "trim_entry k vs r g m = (gone, g', m')"
  shows "sm_ok m' \<and> sm_rel m' = sm_rel m - {k} \<times> set r \<and> (gone \<longleftrightarrow> k \<notin> Domain (sm_rel m')) \<and>
    (case g of None \<Rightarrow> g' = None
     | Some gs \<Rightarrow> \<exists>gs'. g' = Some gs' \<and> set gs' = set gs \<union> (sm_rel m `` {k} \<inter> set r))"
proof -
  obtain vs' g0 where t0: "trimSet vs r g = (vs', g0)" by fastforce
  with assms(3) have "g' = g0" by (simp add: trim_entry_def Let_def)
  with t0 have t: "trimSet vs r g = (vs', g')" by simp
  note ts = trimSet_spec [OF t]
  have vs: "sm_getValSet k m = vs" "distinct vs"
    using assms(2) sm_okD [OF assms(1,2)] by (simp_all add: sm_getValSet_def)
  have m': "m' = (if vs' = [] then AList.delete k (AList.update k vs' m) else AList.update k vs' m)"
    "gone \<longleftrightarrow> vs' = []"
    using assms(3) t by (auto simp: trim_entry_def Let_def)
  have ok: "sm_ok m'"
  proof (cases "vs' = []")
    case True
    have "AList.delete k (AList.update k vs' m) = AList.delete k m" by (rule delete_update_same)
    with True m' assms(1) show ?thesis by simp
  next
    case False
    with m' ts vs assms(1) show ?thesis by simp
  qed
  have get: "sm_getValSet j m' = (if j = k then vs' else sm_getValSet j m)" for j
    unfolding m'(1) by simp
  have "sm_rel m' = sm_rel m - {k} \<times> set r"
  proof (rule set_eqI, clarify)
    fix j v
    show "(j, v) \<in> sm_rel m' \<longleftrightarrow> (j, v) \<in> sm_rel m - {k} \<times> set r"
      using conjunct1 [OF ts] vs(1) by (simp add: get)
  qed
  moreover have "gone \<longleftrightarrow> k \<notin> Domain (sm_rel m')"
    unfolding m'(2) Domain_iff sm_rel_iff get by (simp add: ex_in_conv)
  moreover have "sm_rel m `` {k} = set vs"
    using vs(1) by (auto simp: sm_rel_def)
  ultimately show ?thesis using ok conjunct2 [OF conjunct2 [OF ts]] by (simp only: Int_commute simp_thms)
qed

text \<open>What the optional output set holds afterwards, when the caller passed one.\<close>

definition outset :: "'a uset option \<Rightarrow> 'a set \<Rightarrow> 'a uset option \<Rightarrow> bool" where
  "outset g new g' \<longleftrightarrow>
     (case g of None \<Rightarrow> g' = None | Some gs \<Rightarrow> \<exists>gs'. g' = Some gs' \<and> set gs' = set gs \<union> new)"

lemma outset_refl [simp]: "outset g {} g"
  by (simp add: outset_def split: option.split)

lemma outset_insert: "outset (map_option (us_insert x) g) new g' \<Longrightarrow> outset g (insert x new) g'"
  by (cases g) (auto simp: outset_def)

lemma outset_trans: "outset g a g1 \<Longrightarrow> outset g1 b g2 \<Longrightarrow> outset g (a \<union> b) g2"
  by (cases g) (auto simp: outset_def)

lemma outset_Some: "outset (Some gs) new g' \<Longrightarrow> \<exists>gs'. g' = Some gs' \<and> set gs' = set gs \<union> new"
  by (simp add: outset_def)

lemma sm_trimOrRemove_spec:
  "sm_ok m \<Longrightarrow> sm_trimOrRemove keys r gk gv m = (gk', gv', m') \<Longrightarrow>
   sm_ok m' \<and> sm_rel m' = sm_rel m - set keys \<times> set r \<and>
   outset gk (Domain (sm_rel m) - Domain (sm_rel m')) gk' \<and>
   outset gv (sm_rel m `` set keys \<inter> set r) gv'"
proof (induction keys arbitrary: gk gv m)
  case (Cons key keys)
  show ?case
  proof (cases "map_of m key")
    case None
    with Cons.prems have "sm_trimOrRemove keys r gk gv m = (gk', gv', m')" by simp
    moreover have "sm_getValSet key m = []" using None by (simp add: sm_getValSet_def)
    then have "sm_rel m - set keys \<times> set r = sm_rel m - set (key # keys) \<times> set r"
      "sm_rel m `` set keys = sm_rel m `` set (key # keys)" by (auto simp: Image_iff)
    ultimately show ?thesis using Cons.IH [OF Cons.prems(1)] by metis
  next
    case (Some vs)
    obtain gone gv1 m1 where e: "trim_entry key vs r gv m = (gone, gv1, m1)" by (metis prod_cases3)
    from trim_entry_spec [OF Cons.prems(1) Some e]
    have t: "sm_ok m1" "sm_rel m1 = sm_rel m - {key} \<times> set r" "gone \<longleftrightarrow> key \<notin> Domain (sm_rel m1)"
      "outset gv (sm_rel m `` {key} \<inter> set r) gv1" by (simp_all add: outset_def)
    have "sm_trimOrRemove keys r (if gone then map_option (us_insert key) gk else gk) gv1 m1 = (gk', gv', m')"
      using Cons.prems(2) Some e by simp
    from Cons.IH [OF t(1) this]
    have ih: "sm_ok m'" "sm_rel m' = sm_rel m1 - set keys \<times> set r"
      "outset (if gone then map_option (us_insert key) gk else gk) (Domain (sm_rel m1) - Domain (sm_rel m')) gk'"
      "outset gv1 (sm_rel m1 `` set keys \<inter> set r) gv'" by blast+
    have key: "key \<in> Domain (sm_rel m)" using Some Cons.prems(1) sm_rel_keys [of m key] by simp
    have "outset gk (Domain (sm_rel m) - Domain (sm_rel m')) gk'"
    proof (cases gone)
      case True
      have d: "Domain (sm_rel m) - Domain (sm_rel m') = insert key (Domain (sm_rel m1) - Domain (sm_rel m'))"
        using True t(3) key ih(2) unfolding t(2) by blast
      show ?thesis unfolding d by (rule outset_insert) (use ih(3) True in simp)
    next
      case False
      then have "Domain (sm_rel m1) = Domain (sm_rel m)" using t(3) key unfolding t(2) by blast
      with ih(3) False show ?thesis by simp
    qed
    moreover have "outset gv (sm_rel m `` set (key # keys) \<inter> set r) gv'"
    proof -
      have d: "sm_rel m `` set (key # keys) \<inter> set r =
          (sm_rel m `` {key} \<inter> set r) \<union> (sm_rel m1 `` set keys \<inter> set r)"
        unfolding t(2) by auto
      show ?thesis unfolding d by (rule outset_trans [OF t(4) ih(4)])
    qed
    moreover have "sm_rel m' = sm_rel m - set (key # keys) \<times> set r"
      unfolding ih(2) t(2) by auto
    ultimately show ?thesis using ih(1) by blast
  qed
qed simp

lemma sm_add1_spec:
  assumes "sm_ok m" "distinct vals" "sm_add1 key vals m = (added, m')"
  shows "sm_ok m' \<and> sm_rel m' = sm_rel m \<union> {key} \<times> set vals \<and>
    (added \<longleftrightarrow> vals \<noteq> [] \<and> key \<notin> Domain (sm_rel m))"
proof (cases "vals = []")
  case False
  show ?thesis
  proof (cases "map_of m key")
    case None
    with False assms(3) have "added" "m' = AList.update key vals m" by (simp_all add: sm_add1_def)
    moreover have "sm_getValSet key m = []" using None by (simp add: sm_getValSet_def)
    ultimately show ?thesis
      using False assms(1,2) None sm_rel_keys [OF assms(1), of key] by (auto simp: sm_rel_def split: if_splits)
  next
    case (Some vs)
    with False assms(3) have m': "\<not> added" "m' = AList.update key (us_insert_all vals vs) m"
      by (simp_all add: sm_add1_def)
    have vs: "sm_getValSet key m = vs" using Some by (simp add: sm_getValSet_def)
    have "us_insert_all vals vs \<noteq> []"
      using False by (metis Un_empty set_empty set_us_insert_all)
    then have "sm_ok m'" using m'(2) assms(1) sm_okD [OF assms(1) Some] by simp
    moreover have "sm_rel m' = sm_rel m \<union> {key} \<times> set vals"
      unfolding m'(2) using vs by (auto simp: sm_rel_def split: if_splits)
    ultimately show ?thesis using m'(1) Some sm_rel_keys [OF assms(1), of key] by simp
  qed
qed (use assms in \<open>simp add: sm_add1_def\<close>)

lemma sm_add_spec:
  "sm_ok m \<Longrightarrow> distinct vals \<Longrightarrow> sm_add keys vals gk m = (gk', m') \<Longrightarrow>
   sm_ok m' \<and> sm_rel m' = sm_rel m \<union> set keys \<times> set vals \<and>
   outset gk (Domain (sm_rel m') - Domain (sm_rel m)) gk'"
proof (induction keys arbitrary: gk m)
  case (Cons key keys)
  obtain added m1 where e: "sm_add1 key vals m = (added, m1)" by fastforce
  note t = sm_add1_spec [OF Cons.prems(1,2) e]
  have "sm_add keys vals (if added then map_option (us_insert key) gk else gk) m1 = (gk', m')"
    using Cons.prems(3) e by simp
  from Cons.IH [OF conjunct1 [OF t] Cons.prems(2) this]
  have ih: "sm_ok m'" "sm_rel m' = sm_rel m1 \<union> set keys \<times> set vals"
    "outset (if added then map_option (us_insert key) gk else gk) (Domain (sm_rel m') - Domain (sm_rel m1)) gk'"
    by blast+
  have m1: "sm_rel m1 = sm_rel m \<union> {key} \<times> set vals" using t by blast
  have "outset gk (Domain (sm_rel m') - Domain (sm_rel m)) gk'"
  proof (cases added)
    case True
    with t have k: "key \<notin> Domain (sm_rel m)" "\<exists>v. v \<in> set vals" by (auto simp: ex_in_conv)
    have d: "Domain (sm_rel m') - Domain (sm_rel m) = insert key (Domain (sm_rel m') - Domain (sm_rel m1))"
      using k unfolding ih(2) m1 by blast
    show ?thesis unfolding d by (rule outset_insert) (use ih(3) True in simp)
  next
    case False
    with t have "set vals = {} \<or> key \<in> Domain (sm_rel m)" by auto
    then have "Domain (sm_rel m1) = Domain (sm_rel m)" unfolding m1 by auto
    with ih(3) False show ?thesis by simp
  qed
  moreover have "sm_rel m' = sm_rel m \<union> set (key # keys) \<times> set vals" unfolding ih(2) m1 by auto
  ultimately show ?case using ih(1) by blast
qed simp

lemma sm_update_spec:
  assumes "sm_ok m" "distinct vals" "vals \<noteq> []" "sm_update key vals m = (gone, vals', m')"
  shows "sm_ok m' \<and> sm_rel m' = sm_rel m - {key} \<times> UNIV \<union> {key} \<times> set vals \<and>
    set gone = sm_rel m `` {key} \<inter> set vals \<and> set vals' = set vals - sm_rel m `` {key}"
proof -
  obtain c s1 s2 where e: "interset_loop vals (sm_getValSet key m) vals [] = (c, s1, s2)"
    by (metis prod_cases3)
  from interset_spec [OF e] have i: "set c = set (sm_getValSet key m) \<inter> set vals"
    "set s2 = set vals - (set (sm_getValSet key m) \<inter> set vals)" by simp_all
  have m': "m' = AList.update key vals m" "gone = c" "vals' = s2"
    using assms(3,4) e by (simp_all add: sm_update_def removeAndReturnInterset_def Let_def)
  have "sm_rel m `` {key} = set (sm_getValSet key m)" by auto
  moreover have "sm_rel m' = sm_rel m - {key} \<times> UNIV \<union> {key} \<times> set vals"
    unfolding m'(1) by (auto simp: sm_rel_def split: if_splits)
  ultimately show ?thesis using i m' assms(1-3) by auto
qed

lemma sm_remove_spec:
  "sm_ok m \<Longrightarrow> sm_ok (snd (sm_remove key m)) \<and> sm_rel (snd (sm_remove key m)) = sm_rel m - {key} \<times> UNIV"
  by (auto simp: sm_remove_def sm_rel_def split: if_splits)

end
