(* ===== verification/Os_Observer.thy ===== *)
theory Os_Observer
  imports Set_Map
begin

text \<open>
  gps/core/SystemStatusOsObserver.cpp: the observer that shares the framework's data items between
  clients. A call from outside only queues a message; the message task handles the messages in
  order. Clients and the framework objects are numbers; what is said to them is an output. The
  data items (a library) are abstract values with their factory and copy function.
\<close>

section \<open>State, messages, outputs\<close>

type_synonym DataItemId = int
type_synonym observer = nat

text \<open>
  What the code calls and cannot be read here, free to answer differently every time: the factory of
  data items (None: NULL), \<open>copy\<close> of a data item onto another (result, updated), and whether
  SystemStatus::eventDataItemNotify accepts the item at a position of the notification.
\<close>

record 'v os_env =
  di_new :: "DataItemId \<Rightarrow> 'v option"
  di_copy :: "'v \<Rightarrow> 'v \<Rightarrow> 'v \<times> bool"
  ss_accepts :: "nat \<Rightarrow> bool"

datatype action_target = Target_Self | Target_Framework

datatype 'v os_msg =
  SetSubsObj nat
| HandleSubscribeReq "DataItemId uset" observer bool
| HandleUpdateSubscriptionReq "DataItemId uset" observer
| HandleUnsubscribeReq "DataItemId uset" observer
| HandleUnsubscribeAllReq observer
| HandleNotify "(DataItemId \<times> 'v) option list"
| HandleTurnOnMsg action_target DataItemId int
| HandleTurnOffMsg action_target DataItemId
| HandleConnectBackhaul
| HandleDisconnectBackhaul

datatype 'v os_out =
  Fw_subscribe nat "DataItemId list"
| Fw_requestData nat "DataItemId list"
| Fw_unsubscribe nat "DataItemId list"
| Client_notify observer "(DataItemId \<times> 'v) list"
| Ss_eventDataItemNotify DataItemId 'v
| Fw_turnOn DataItemId int
| Fw_turnOff DataItemId
| Fw_connectBackhaul
| Fw_disconnectBackhaul

record 'v os_state =
  mSubscriptionObj :: "nat option"
  mFrameworkActionReqObj :: bool
  mClientToDataItems :: "(observer, DataItemId) set_map"
  mDataItemToClients :: "(DataItemId, observer) set_map"
  mDataItemCache :: "(DataItemId, 'v) umap"
  mActiveRequestCount :: "(DataItemId, int) umap"
  mBackHaulConnectReqCount :: int
  os_msgs :: "'v os_msg list"

definition os_new :: "'v os_state" where
  "os_new = \<lparr>mSubscriptionObj = None, mFrameworkActionReqObj = False, mClientToDataItems = [],
     mDataItemToClients = [], mDataItemCache = [], mActiveRequestCount = [],
     mBackHaulConnectReqCount = 0, os_msgs = []\<rparr>"

definition os_destroy :: "'v os_state \<Rightarrow> 'v os_state" where
  "os_destroy s = s\<lparr>mDataItemCache := []\<rparr>"

definition sendMsg :: "'v os_msg \<Rightarrow> 'v os_state \<Rightarrow> 'v os_state" where
  "sendMsg m s = s\<lparr>os_msgs := os_msgs s @ [m]\<rparr>"

text \<open>containerTransfer inserts every item at the begin of the new container.\<close>

definition transfer_to_set :: "'a list \<Rightarrow> 'a uset" where
  "transfer_to_set xs = fold us_insert xs []"

definition transfer_to_list :: "'a uset \<Rightarrow> 'a list" where
  "transfer_to_list s = fold (\<lambda>x out. x # out) s []"

section \<open>Calls\<close>

definition setSubscriptionObj :: "nat option \<Rightarrow> 'v os_state \<Rightarrow> 'v os_state" where
  "setSubscriptionObj obj s = (case obj of None \<Rightarrow> s | Some ob \<Rightarrow> sendMsg (SetSubsObj ob) s)"

definition connectBackhaul :: "'v os_state \<Rightarrow> bool \<times> 'v os_state" where
  "connectBackhaul s =
     (if mFrameworkActionReqObj s then (True, sendMsg HandleConnectBackhaul s)
      else (False, s\<lparr>mBackHaulConnectReqCount := mBackHaulConnectReqCount s + 1\<rparr>))"

definition disconnectBackhaul :: "'v os_state \<Rightarrow> bool \<times> 'v os_state" where
  "disconnectBackhaul s =
     (if mFrameworkActionReqObj s then (False, sendMsg HandleDisconnectBackhaul s)
      else (False, if mBackHaulConnectReqCount s > 0
                   then s\<lparr>mBackHaulConnectReqCount := mBackHaulConnectReqCount s - 1\<rparr> else s))"

definition setFrameworkActionReqObj :: "bool \<Rightarrow> 'v os_state \<Rightarrow> 'v os_state" where
  "setFrameworkActionReqObj obj s =
     (let s = s\<lparr>mFrameworkActionReqObj := obj\<rparr>
      in if mBackHaulConnectReqCount s > 0
         then (snd (connectBackhaul s))\<lparr>mBackHaulConnectReqCount := 0\<rparr> else s)"

definition os_subscribe :: "DataItemId list \<Rightarrow> observer option \<Rightarrow> bool \<Rightarrow> 'v os_state \<Rightarrow> 'v os_state" where
  "os_subscribe l client toRequestData s =
     (case client of
        None \<Rightarrow> s
      | Some c \<Rightarrow> if l = [] then s else sendMsg (HandleSubscribeReq (transfer_to_set l) c toRequestData) s)"

definition os_updateSubscription :: "DataItemId list \<Rightarrow> observer option \<Rightarrow> 'v os_state \<Rightarrow> 'v os_state" where
  "os_updateSubscription l client s =
     (case client of
        None \<Rightarrow> s
      | Some c \<Rightarrow> if l = [] then s else sendMsg (HandleUpdateSubscriptionReq (transfer_to_set l) c) s)"

definition os_unsubscribe :: "DataItemId list \<Rightarrow> observer option \<Rightarrow> 'v os_state \<Rightarrow> 'v os_state" where
  "os_unsubscribe l client s =
     (case client of
        None \<Rightarrow> s
      | Some c \<Rightarrow> if l = [] then s else sendMsg (HandleUnsubscribeReq (transfer_to_set l) c) s)"

definition os_unsubscribeAll :: "observer option \<Rightarrow> 'v os_state \<Rightarrow> 'v os_state" where
  "os_unsubscribeAll client s =
     (case client of None \<Rightarrow> s | Some c \<Rightarrow> sendMsg (HandleUnsubscribeAllReq c) s)"

text \<open>The vector is created with as many NULL entries as there are items, then appended to.\<close>

fun notify_copies :: "'v os_env \<Rightarrow> (DataItemId \<times> 'v) list \<Rightarrow> (DataItemId \<times> 'v) option list" where
  "notify_copies env [] = []"
| "notify_copies env ((i, v) # dlist) =
     (case di_new env i of
        None \<Rightarrow> notify_copies env dlist
      | Some n \<Rightarrow> Some (i, fst (di_copy env n v)) # notify_copies env dlist)"

definition os_notify :: "'v os_env \<Rightarrow> (DataItemId \<times> 'v) list \<Rightarrow> 'v os_state \<Rightarrow> 'v os_state" where
  "os_notify env dlist s =
     (if dlist = [] then s
      else let dataItemVec = replicate (length dlist) None @ notify_copies env dlist
           in if dataItemVec \<noteq> [] then sendMsg (HandleNotify dataItemVec) s else s)"

definition os_turnOn :: "DataItemId \<Rightarrow> int \<Rightarrow> 'v os_state \<Rightarrow> 'v os_state" where
  "os_turnOn dit timeOut s =
     (if \<not> mFrameworkActionReqObj s then s
      else case map_of (mActiveRequestCount s) dit of
             None \<Rightarrow> sendMsg (HandleTurnOnMsg Target_Self dit timeOut)
                       (s\<lparr>mActiveRequestCount := AList.update dit 1 (mActiveRequestCount s)\<rparr>)
           | Some n \<Rightarrow> s\<lparr>mActiveRequestCount := AList.update dit (n + 1) (mActiveRequestCount s)\<rparr>)"

definition os_turnOff :: "DataItemId \<Rightarrow> 'v os_state \<Rightarrow> 'v os_state" where
  "os_turnOff dit s =
     (if \<not> mFrameworkActionReqObj s then s
      else case map_of (mActiveRequestCount s) dit of
             None \<Rightarrow> s
           | Some n \<Rightarrow>
               if n - 1 = 0
               then sendMsg (HandleTurnOffMsg Target_Framework dit)
                      (s\<lparr>mActiveRequestCount := AList.delete dit (mActiveRequestCount s)\<rparr>)
               else s\<lparr>mActiveRequestCount := AList.update dit (n - 1) (mActiveRequestCount s)\<rparr>)"

section \<open>Handling of messages\<close>

fun cached_loop :: "DataItemId uset \<Rightarrow> (DataItemId, 'v) umap \<Rightarrow> (DataItemId \<times> 'v) list \<Rightarrow> (DataItemId \<times> 'v) list" where
  "cached_loop [] cache dataItems = dataItems"
| "cached_loop (i # s) cache dataItems =
     (case map_of cache i of
        None \<Rightarrow> cached_loop s cache dataItems
      | Some v \<Rightarrow> cached_loop s cache ((i, v) # dataItems))"

definition sendCachedDataItems :: "DataItemId uset \<Rightarrow> observer \<Rightarrow> 'v os_state \<Rightarrow> 'v os_out list" where
  "sendCachedDataItems items to s =
     (let dataItems = cached_loop items (mDataItemCache s) []
      in if dataItems = [] then [] else [Client_notify to dataItems])"

definition updateCache :: "'v os_env \<Rightarrow> nat \<Rightarrow> (DataItemId \<times> 'v) option \<Rightarrow> 'v os_state \<Rightarrow>
    bool \<times> 'v os_out list \<times> 'v os_state" where
  "updateCache env pos d s =
     (case d of
        None \<Rightarrow> (False, [], s)
      | Some (i, v) \<Rightarrow>
          if ss_accepts env pos
          then (case map_of (mDataItemCache s) i of
                  None \<Rightarrow>
                    (case di_new env i of
                       None \<Rightarrow> (False, [Ss_eventDataItemNotify i v], s)
                     | Some n \<Rightarrow>
                         (True, [Ss_eventDataItemNotify i v],
                          s\<lparr>mDataItemCache := AList.update i (fst (di_copy env n v)) (mDataItemCache s)\<rparr>))
                | Some old \<Rightarrow>
                    (let (v', updated) = di_copy env old v
                     in (updated, [Ss_eventDataItemNotify i v],
                         s\<lparr>mDataItemCache := AList.update i v' (mDataItemCache s)\<rparr>)))
          else (False, [Ss_eventDataItemNotify i v], s))"

fun update_cache_loop :: "'v os_env \<Rightarrow> nat \<Rightarrow> (DataItemId \<times> 'v) option list \<Rightarrow> DataItemId uset \<Rightarrow> 'v os_state \<Rightarrow>
    DataItemId uset \<times> 'v os_out list \<times> 'v os_state" where
  "update_cache_loop env pos [] ids s = (ids, [], s)"
| "update_cache_loop env pos (d # ds) ids s =
     (let (updated, out, s) = updateCache env pos d s;
          ids = (case d of Some (i, v) \<Rightarrow> if updated then us_insert i ids else ids | None \<Rightarrow> ids);
          (ids, outs, s) = update_cache_loop env (pos + 1) ds ids s
      in (ids, out @ outs, s))"

fun clients_loop :: "DataItemId uset \<Rightarrow> (DataItemId, observer) set_map \<Rightarrow> observer uset \<Rightarrow> observer uset" where
  "clients_loop [] m clientSet = clientSet"
| "clients_loop (each # ids) m clientSet =
     (case sm_getValSetPtr each m of
        None \<Rightarrow> clients_loop ids m clientSet
      | Some clients \<Rightarrow> clients_loop ids m (us_insert_all clients clientSet))"

fun send_loop :: "observer uset \<Rightarrow> DataItemId uset \<Rightarrow> 'v os_state \<Rightarrow> 'v os_out list" where
  "send_loop [] ids s = []"
| "send_loop (client # clients) ids s =
     (let forThisClient = filter (\<lambda>i. i \<in> set ids) (sm_getValSet client (mClientToDataItems s))
      in sendCachedDataItems forThisClient client s @ send_loop clients ids s)"

fun os_proc :: "'v os_env \<Rightarrow> 'v os_msg \<Rightarrow> 'v os_state \<Rightarrow> 'v os_out list \<times> 'v os_state" where
  "os_proc env (SetSubsObj ob) s =
     (let s = s\<lparr>mSubscriptionObj := Some ob\<rparr>
      in if \<not> sm_empty (mDataItemToClients s)
         then (let dis = transfer_to_list (sm_getKeys (mDataItemToClients s))
               in ([Fw_subscribe ob dis, Fw_requestData ob dis], s))
         else ([], s))"
| "os_proc env (HandleSubscribeReq items client toRequestData) s =
     (let (toSubscribe, d2c) = sm_add items [client] (Some []) (mDataItemToClients s);
          (_, c2d) = sm_add1 client items (mClientToDataItems s);
          s = s\<lparr>mDataItemToClients := d2c, mClientToDataItems := c2d\<rparr>;
          out = sendCachedDataItems items client s;
          new = the toSubscribe
      in case mSubscriptionObj s of
           None \<Rightarrow> (out, s)
         | Some ob \<Rightarrow>
             (if new \<noteq> []
              then out @ [if toRequestData then Fw_requestData ob (transfer_to_list new)
                          else Fw_subscribe ob (transfer_to_list new)]
              else out, s))"
| "os_proc env (HandleUpdateSubscriptionReq items client) s =
     (let (gone, items, c2d) = sm_update client items (mClientToDataItems s);
          (toUnsubscribe, _, d2c) = sm_trimOrRemove gone [client] (Some []) None (mDataItemToClients s);
          (toSubscribe, d2c) = sm_add items [client] (Some []) d2c;
          s = s\<lparr>mDataItemToClients := d2c, mClientToDataItems := c2d\<rparr>;
          out = sendCachedDataItems items client s
      in case mSubscriptionObj s of
           None \<Rightarrow> (out, s)
         | Some ob \<Rightarrow>
             (out @ (if the toSubscribe \<noteq> [] then [Fw_subscribe ob (transfer_to_list (the toSubscribe))] else [])
                  @ (if the toUnsubscribe \<noteq> [] then [Fw_unsubscribe ob (transfer_to_list (the toUnsubscribe))] else []),
              s))"
| "os_proc env (HandleUnsubscribeReq items client) s =
     (let (_, unused, c2d) = sm_trimOrRemove [client] items (Some []) (Some []) (mClientToDataItems s);
          (toUnsubscribe, _, d2c) = sm_trimOrRemove (the unused) [client] (Some []) None (mDataItemToClients s);
          s = s\<lparr>mDataItemToClients := d2c, mClientToDataItems := c2d\<rparr>
      in case mSubscriptionObj s of
           None \<Rightarrow> ([], s)
         | Some ob \<Rightarrow>
             (if the toUnsubscribe \<noteq> [] then [Fw_unsubscribe ob (transfer_to_list (the toUnsubscribe))] else [], s))"
| "os_proc env (HandleUnsubscribeAllReq client) s =
     (let diByClient = sm_getValSet client (mClientToDataItems s)
      in if diByClient \<noteq> []
         then (let (_, c2d) = sm_remove client (mClientToDataItems s);
                   (toUnsubscribe, _, d2c) = sm_trimOrRemove diByClient [client] (Some []) None (mDataItemToClients s);
                   s = s\<lparr>mDataItemToClients := d2c, mClientToDataItems := c2d\<rparr>
               in case mSubscriptionObj s of
                    None \<Rightarrow> ([], s)
                  | Some ob \<Rightarrow>
                      (if the toUnsubscribe \<noteq> [] then [Fw_unsubscribe ob (transfer_to_list (the toUnsubscribe))]
                       else [], s))
         else ([], s))"
| "os_proc env (HandleNotify mDiVec) s =
     (let (ids, out, s) = update_cache_loop env 0 mDiVec [] s;
          clientSet = clients_loop ids (mDataItemToClients s) []
      in (out @ send_loop clientSet ids s, s))"
| "os_proc env (HandleTurnOnMsg target dit timeOut) s =
     (case target of
        Target_Self \<Rightarrow> ([], os_turnOn dit timeOut s)
      | Target_Framework \<Rightarrow> ([Fw_turnOn dit timeOut], s))"
| "os_proc env (HandleTurnOffMsg target dit) s =
     (case target of
        Target_Self \<Rightarrow> ([], os_turnOff dit s)
      | Target_Framework \<Rightarrow> ([Fw_turnOff dit], s))"
| "os_proc env HandleConnectBackhaul s = ([Fw_connectBackhaul], s)"
| "os_proc env HandleDisconnectBackhaul s = ([Fw_disconnectBackhaul], s)"

section \<open>Histories\<close>

datatype 'v os_call =
  Call_setSubscriptionObj "nat option"
| Call_setFrameworkActionReqObj bool
| Call_subscribe "DataItemId list" "observer option"
| Call_requestData "DataItemId list" "observer option"
| Call_updateSubscription "DataItemId list" "observer option"
| Call_unsubscribe "DataItemId list" "observer option"
| Call_unsubscribeAll "observer option"
| Call_notify "(DataItemId \<times> 'v) list"
| Call_turnOn DataItemId int
| Call_turnOff DataItemId
| Call_connectBackhaul
| Call_disconnectBackhaul

fun os_exec :: "'v os_env \<Rightarrow> 'v os_call \<Rightarrow> 'v os_state \<Rightarrow> 'v os_state" where
  "os_exec env (Call_setSubscriptionObj ob) s = setSubscriptionObj ob s"
| "os_exec env (Call_setFrameworkActionReqObj ob) s = setFrameworkActionReqObj ob s"
| "os_exec env (Call_subscribe l c) s = os_subscribe l c False s"
| "os_exec env (Call_requestData l c) s = os_subscribe l c True s"
| "os_exec env (Call_updateSubscription l c) s = os_updateSubscription l c s"
| "os_exec env (Call_unsubscribe l c) s = os_unsubscribe l c s"
| "os_exec env (Call_unsubscribeAll c) s = os_unsubscribeAll c s"
| "os_exec env (Call_notify dlist) s = os_notify env dlist s"
| "os_exec env (Call_turnOn dit timeOut) s = os_turnOn dit timeOut s"
| "os_exec env (Call_turnOff dit) s = os_turnOff dit s"
| "os_exec env Call_connectBackhaul s = snd (connectBackhaul s)"
| "os_exec env Call_disconnectBackhaul s = snd (disconnectBackhaul s)"

text \<open>
  The message task handles the oldest message; a call may come between any two messages.
\<close>

inductive os_reach :: "'v os_call list \<Rightarrow> 'v os_out list \<Rightarrow> 'v os_state \<Rightarrow> bool" where
  os_init: "os_reach [] [] os_new"
| os_call: "os_reach calls outs s \<Longrightarrow> os_reach (calls @ [c]) outs (os_exec env c s)"
| os_task: "os_reach calls outs s \<Longrightarrow> os_msgs s = m # ms \<Longrightarrow>
    os_proc env m (s\<lparr>os_msgs := ms\<rparr>) = (out, s') \<Longrightarrow> os_reach calls (outs @ out) s'"

end
