(* ===== verification/Os_Observer_Props.thy ===== *)
theory Os_Observer_Props
  imports Os_Observer
begin

text \<open>
  The correctness of the data item observer: the two subscription maps stay each other's
  converse and in step with the framework, notifications reach exactly the subscribers of what
  changed, and the two operations that do not do what they promise: updateSubscription and turnOn.
\<close>

section \<open>Containers\<close>

lemma transfer_to_set_set [simp]: "set (transfer_to_set xs) = set xs" "distinct (transfer_to_set xs)"
  unfolding transfer_to_set_def
  using set_us_insert_all [of xs "[]"] distinct_us_insert_all [of "[]" xs] by (simp_all add: us_insert_all_def)

lemma transfer_to_list_set [simp]: "set (transfer_to_list s) = set s"
proof -
  have "set (fold (\<lambda>x out. x # out) s out) = set s \<union> set out" for out
    by (induction s arbitrary: out) auto
  then show ?thesis by (simp add: transfer_to_list_def)
qed


lemma outset_the: "outset (Some gs) new g' \<Longrightarrow> set (the g') = set gs \<union> new"
  by (auto simp: outset_def)

section \<open>The subscription maps\<close>

definition maps_ok :: "'v os_state \<Rightarrow> bool" where
  "maps_ok s \<longleftrightarrow> sm_ok (mClientToDataItems s) \<and> sm_ok (mDataItemToClients s) \<and>
     sm_rel (mClientToDataItems s) = (sm_rel (mDataItemToClients s))\<inverse>"

fun is_update :: "'v os_call \<Rightarrow> bool" where
  "is_update (Call_updateSubscription l c) = True"
| "is_update _ = False"

fun is_request :: "'v os_call \<Rightarrow> bool" where
  "is_request (Call_requestData l c) = True"
| "is_request _ = False"

text \<open>Queued messages carry duplicate-free sets; which kinds occur depends on the calls made.\<close>

fun msg_ok :: "bool \<Rightarrow> bool \<Rightarrow> 'v os_msg \<Rightarrow> bool" where
  "msg_ok upd req (HandleSubscribeReq items c r) \<longleftrightarrow> distinct items \<and> (r \<longrightarrow> req)"
| "msg_ok upd req (HandleUpdateSubscriptionReq items c) \<longleftrightarrow> distinct items \<and> items \<noteq> [] \<and> upd"
| "msg_ok upd req (HandleTurnOnMsg t d n) \<longleftrightarrow> t = Target_Self"
| "msg_ok upd req (HandleTurnOffMsg t d) \<longleftrightarrow> t = Target_Framework"
| "msg_ok upd req _ \<longleftrightarrow> True"

lemma sendMsg_simps [simp]:
  "mSubscriptionObj (sendMsg m s) = mSubscriptionObj s"
  "mFrameworkActionReqObj (sendMsg m s) = mFrameworkActionReqObj s"
  "mClientToDataItems (sendMsg m s) = mClientToDataItems s"
  "mDataItemToClients (sendMsg m s) = mDataItemToClients s"
  "mDataItemCache (sendMsg m s) = mDataItemCache s"
  "mActiveRequestCount (sendMsg m s) = mActiveRequestCount s"
  "os_msgs (sendMsg m s) = os_msgs s @ [m]"
  by (simp_all add: sendMsg_def)

lemmas os_call_defs = setSubscriptionObj_def setFrameworkActionReqObj_def os_subscribe_def
  os_updateSubscription_def os_unsubscribe_def os_unsubscribeAll_def os_notify_def os_turnOn_def
  os_turnOff_def connectBackhaul_def disconnectBackhaul_def Let_def

text \<open>A call changes neither the maps nor the subscription object nor the cache.\<close>

lemma os_exec_frame:
  "mClientToDataItems (os_exec env c s) = mClientToDataItems s"
  "mDataItemToClients (os_exec env c s) = mDataItemToClients s"
  "mSubscriptionObj (os_exec env c s) = mSubscriptionObj s"
  "mDataItemCache (os_exec env c s) = mDataItemCache s"
  by (cases c; simp add: os_call_defs split: option.split)+

lemma transfer_to_set_Nil: "l \<noteq> [] \<Longrightarrow> transfer_to_set l \<noteq> []"
  using transfer_to_set_set(1) [of l] by (cases l) (auto simp: transfer_to_set_def us_insert_def)

lemma os_exec_msgs:
  "list_all (msg_ok upd req) (os_msgs s) \<Longrightarrow> (is_update c \<longrightarrow> upd) \<Longrightarrow> (is_request c \<longrightarrow> req) \<Longrightarrow>
   list_all (msg_ok upd req) (os_msgs (os_exec env c s))"
  by (cases c) (simp_all add: os_call_defs transfer_to_set_Nil split: option.split)

lemma os_turn_frame:
  "mClientToDataItems (os_turnOn d n s) = mClientToDataItems s"
  "mDataItemToClients (os_turnOn d n s) = mDataItemToClients s"
  "mSubscriptionObj (os_turnOn d n s) = mSubscriptionObj s"
  "mClientToDataItems (os_turnOff d s) = mClientToDataItems s"
  "mDataItemToClients (os_turnOff d s) = mDataItemToClients s"
  "mSubscriptionObj (os_turnOff d s) = mSubscriptionObj s"
  by (simp_all add: os_turnOn_def os_turnOff_def split: option.split)

lemma update_cache_loop_frame:
  "update_cache_loop env pos ds ids s = (ids', out, s') \<Longrightarrow>
   mClientToDataItems s' = mClientToDataItems s \<and> mDataItemToClients s' = mDataItemToClients s \<and>
   mSubscriptionObj s' = mSubscriptionObj s \<and> os_msgs s' = os_msgs s \<and>
   mActiveRequestCount s' = mActiveRequestCount s \<and>
   mFrameworkActionReqObj s' = mFrameworkActionReqObj s"
proof (induction env pos ds ids s arbitrary: ids' out s' rule: update_cache_loop.induct)
  case (2 env pos d ds ids s)
  obtain u o1 s1 where u: "updateCache env pos d s = (u, o1, s1)" by (metis prod_cases3)
  have fr: "mClientToDataItems s1 = mClientToDataItems s \<and> mDataItemToClients s1 = mDataItemToClients s \<and>
     mSubscriptionObj s1 = mSubscriptionObj s \<and> os_msgs s1 = os_msgs s \<and>
     mActiveRequestCount s1 = mActiveRequestCount s \<and> mFrameworkActionReqObj s1 = mFrameworkActionReqObj s"
    using u by (auto simp: updateCache_def Let_def split: option.splits prod.splits if_splits)
  let ?ids = "case d of Some (i, v) \<Rightarrow> if u then us_insert i ids else ids | None \<Rightarrow> ids"
  obtain ids2 o2 s2 where l: "update_cache_loop env (pos + 1) ds ?ids s1 = (ids2, o2, s2)"
    by (metis prod_cases3)
  from "2.prems" u l have "s' = s2" by (simp add: Let_def)
  with "2.IH" [OF u [symmetric] refl refl refl l] fr show ?case by simp
qed simp

text \<open>What subscribing and unsubscribing do to the relation between items and clients.\<close>

lemma subscribe_maps:
  assumes "maps_ok s" "distinct items" "os_proc env (HandleSubscribeReq items c r) s = (out, s')"
  shows "maps_ok s' \<and> sm_rel (mDataItemToClients s') = sm_rel (mDataItemToClients s) \<union> set items \<times> {c}"
proof -
  obtain g d2c where a: "sm_add items [c] (Some []) (mDataItemToClients s) = (g, d2c)" by fastforce
  obtain b c2d where b: "sm_add1 c items (mClientToDataItems s) = (b, c2d)" by fastforce
  from assms(1) have ok: "sm_ok (mClientToDataItems s)" "sm_ok (mDataItemToClients s)"
    "sm_rel (mClientToDataItems s) = (sm_rel (mDataItemToClients s))\<inverse>" by (simp_all add: maps_ok_def)
  have s': "mDataItemToClients s' = d2c" "mClientToDataItems s' = c2d"
    using assms(3) a b by (auto simp: Let_def split: option.splits)
  from sm_add_spec [OF ok(2) _ a] have d: "sm_ok d2c" "sm_rel d2c = sm_rel (mDataItemToClients s) \<union> set items \<times> {c}"
    by simp_all
  from sm_add1_spec [OF ok(1) assms(2) b]
  have e: "sm_ok c2d" "sm_rel c2d = sm_rel (mClientToDataItems s) \<union> {c} \<times> set items" by simp_all
  show ?thesis unfolding maps_ok_def s' d(2) e(2) ok(3) using d(1) e(1) by auto
qed

lemma unsubscribe_maps:
  assumes "maps_ok s" "os_proc env (HandleUnsubscribeReq items c) s = (out, s')"
  shows "maps_ok s' \<and> sm_rel (mDataItemToClients s') = sm_rel (mDataItemToClients s) - set items \<times> {c}"
proof -
  from assms(1) have ok: "sm_ok (mClientToDataItems s)" "sm_ok (mDataItemToClients s)"
    "sm_rel (mClientToDataItems s) = (sm_rel (mDataItemToClients s))\<inverse>" by (simp_all add: maps_ok_def)
  obtain g unused c2d where a: "sm_trimOrRemove [c] items (Some []) (Some []) (mClientToDataItems s) = (g, unused, c2d)"
    by (metis prod_cases3)
  obtain h x d2c where b: "sm_trimOrRemove (the unused) [c] (Some []) None (mDataItemToClients s) = (h, x, d2c)"
    by (metis prod_cases3)
  have s': "mDataItemToClients s' = d2c" "mClientToDataItems s' = c2d"
    using assms(2) a b by (auto simp: Let_def split: option.splits)
  from sm_trimOrRemove_spec [OF ok(1) a]
  have e: "sm_ok c2d" "sm_rel c2d = sm_rel (mClientToDataItems s) - {c} \<times> set items"
    "outset (Some []) (sm_rel (mClientToDataItems s) `` {c} \<inter> set items) unused" by auto
  have un: "set (the unused) = sm_rel (mClientToDataItems s) `` {c} \<inter> set items"
    using outset_the [OF e(3)] by simp
  from sm_trimOrRemove_spec [OF ok(2) b]
  have d: "sm_ok d2c" "sm_rel d2c = sm_rel (mDataItemToClients s) - set (the unused) \<times> {c}" by auto
  have "sm_rel d2c = sm_rel (mDataItemToClients s) - set items \<times> {c}"
    unfolding d(2) un ok(3) by blast
  then show ?thesis unfolding maps_ok_def s' e(2) ok(3) using d(1) e(1) by auto
qed

lemma unsubscribeAll_maps:
  assumes "maps_ok s" "os_proc env (HandleUnsubscribeAllReq c) s = (out, s')"
  shows "maps_ok s' \<and> sm_rel (mDataItemToClients s') = sm_rel (mDataItemToClients s) - UNIV \<times> {c}"
proof (cases "sm_getValSet c (mClientToDataItems s) = []")
  case True
  from assms(1) have ok: "sm_rel (mClientToDataItems s) = (sm_rel (mDataItemToClients s))\<inverse>"
    by (simp add: maps_ok_def)
  with True have "(i, c) \<notin> sm_rel (mDataItemToClients s)" for i
    using sm_rel_iff [of c i "mClientToDataItems s"] by (simp del: sm_rel_iff)
  with True assms show ?thesis by (auto simp: Let_def)
next
  case False
  from assms(1) have ok: "sm_ok (mClientToDataItems s)" "sm_ok (mDataItemToClients s)"
    "sm_rel (mClientToDataItems s) = (sm_rel (mDataItemToClients s))\<inverse>" by (simp_all add: maps_ok_def)
  obtain g c2d where a: "sm_remove c (mClientToDataItems s) = (g, c2d)" by fastforce
  obtain h x d2c where b: "sm_trimOrRemove (sm_getValSet c (mClientToDataItems s)) [c] (Some []) None
      (mDataItemToClients s) = (h, x, d2c)" by (metis prod_cases3)
  have s': "mDataItemToClients s' = d2c" "mClientToDataItems s' = c2d"
    using assms(2) a b False by (auto simp: Let_def split: option.splits)
  from sm_remove_spec [OF ok(1), of c] a
  have e: "sm_ok c2d" "sm_rel c2d = sm_rel (mClientToDataItems s) - {c} \<times> UNIV" by simp_all
  from sm_trimOrRemove_spec [OF ok(2) b]
  have d: "sm_ok d2c" "sm_rel d2c = sm_rel (mDataItemToClients s) - set (sm_getValSet c (mClientToDataItems s)) \<times> {c}"
    by auto
  have "set (sm_getValSet c (mClientToDataItems s)) = {i. (i, c) \<in> sm_rel (mDataItemToClients s)}"
    using ok(3) sm_rel_iff [of c _ "mClientToDataItems s"] by (auto simp del: sm_rel_iff)
  then have "sm_rel d2c = sm_rel (mDataItemToClients s) - UNIV \<times> {c}"
    unfolding d(2) by blast
  then show ?thesis unfolding maps_ok_def s' e(2) ok(3) using d(1) e(1) by auto
qed

lemma notify_frame:
  assumes "os_proc env (HandleNotify v) s = (out, s')"
  shows "mClientToDataItems s' = mClientToDataItems s" "mDataItemToClients s' = mDataItemToClients s"
    "mSubscriptionObj s' = mSubscriptionObj s" "os_msgs s' = os_msgs s"
proof -
  obtain ids o1 s1 where u: "update_cache_loop env 0 v [] s = (ids, o1, s1)" by (metis prod_cases3)
  with assms have "s' = s1" by (simp add: Let_def)
  with update_cache_loop_frame [OF u]
  show "mClientToDataItems s' = mClientToDataItems s" "mDataItemToClients s' = mDataItemToClients s"
    "mSubscriptionObj s' = mSubscriptionObj s" "os_msgs s' = os_msgs s" by simp_all
qed

text \<open>Handling any message of a history without updateSubscription keeps the maps consistent.\<close>

lemma maps_ok_cong:
  "mClientToDataItems s' = mClientToDataItems s \<Longrightarrow> mDataItemToClients s' = mDataItemToClients s \<Longrightarrow>
   maps_ok s' = maps_ok s"
  by (simp add: maps_ok_def)

lemma os_proc_maps:
  assumes "maps_ok s" "msg_ok False req m" "os_proc env m s = (out, s')"
  shows "maps_ok s'"
proof (cases m)
  case (HandleSubscribeReq items c r)
  with assms subscribe_maps show ?thesis by (metis msg_ok.simps(1))
next
  case (HandleUnsubscribeReq items c)
  with assms unsubscribe_maps show ?thesis by metis
next
  case (HandleUnsubscribeAllReq c)
  with assms unsubscribeAll_maps show ?thesis by metis
next
  case (HandleNotify v)
  with assms notify_frame show ?thesis by (metis maps_ok_cong)
qed (use assms in \<open>auto simp: Let_def maps_ok_def os_turn_frame split: if_splits\<close>)

lemma os_turnOn_msgs:
  "list_all (msg_ok upd req) (os_msgs s) \<Longrightarrow> list_all (msg_ok upd req) (os_msgs (os_turnOn d n s))"
  by (simp add: os_turnOn_def split: option.split)

lemma os_proc_msgs_cases:
  assumes "os_proc env m s = (out, s')" "msg_ok upd req m"
  shows "os_msgs s' = os_msgs s \<or> (\<exists>d n. s' = os_turnOn d n s)"
proof (cases m)
  case (HandleSubscribeReq items c r)
  with assms(1) show ?thesis by (auto simp: Let_def split: prod.splits option.splits)
next
  case (HandleUpdateSubscriptionReq items c)
  with assms(1) show ?thesis by (auto simp: Let_def split: prod.splits option.splits)
next
  case (HandleUnsubscribeReq items c)
  with assms(1) show ?thesis by (auto simp: Let_def split: prod.splits option.splits)
next
  case (HandleUnsubscribeAllReq c)
  with assms(1) show ?thesis by (auto simp: Let_def split: prod.splits option.splits if_splits)
next
  case (HandleNotify v)
  with assms(1) notify_frame(4) show ?thesis by metis
qed (use assms in \<open>auto simp: Let_def split: if_splits\<close>)

lemma os_proc_msgs:
  "os_proc env m s = (out, s') \<Longrightarrow> msg_ok upd req m \<Longrightarrow> list_all (msg_ok upd req) (os_msgs s) \<Longrightarrow>
   list_all (msg_ok upd req) (os_msgs s')"
  using os_proc_msgs_cases [of env m s out s' upd req] os_turnOn_msgs [of upd req s] by auto

lemma os_reach_msgs:
  "os_reach calls outs s \<Longrightarrow> (list_ex is_update calls \<longrightarrow> upd) \<Longrightarrow> (list_ex is_request calls \<longrightarrow> req) \<Longrightarrow>
   list_all (msg_ok upd req) (os_msgs s)"
proof (induction rule: os_reach.induct)
  case os_init
  then show ?case by (simp add: os_new_def)
next
  case (os_call calls outs s c env)
  then show ?case using os_exec_msgs [of upd req s c env] by (simp add: list_ex_append)
next
  case (os_task calls outs s m ms env out s')
  then show ?case using os_proc_msgs [of env m "s\<lparr>os_msgs := ms\<rparr>" out s' upd req] by simp
qed

lemma os_reach_maps:
  "os_reach calls outs s \<Longrightarrow> \<not> list_ex is_update calls \<Longrightarrow> maps_ok s"
proof (induction rule: os_reach.induct)
  case os_init
  then show ?case by (simp add: os_new_def maps_ok_def)
next
  case (os_call calls outs s c env)
  then show ?case by (simp add: list_ex_append maps_ok_def os_exec_frame)
next
  case (os_task calls outs s m ms env out s')
  have "list_all (msg_ok False True) (os_msgs s)"
    by (rule os_reach_msgs [OF os_task.hyps(1)]) (use os_task.prems in simp_all)
  with os_task.hyps(2) have "msg_ok False True m" by simp
  moreover from os_task have "maps_ok (s\<lparr>os_msgs := ms\<rparr>)" by (simp add: maps_ok_def)
  ultimately show ?case using os_task.hyps(3) os_proc_maps by blast
qed

section \<open>What the framework is subscribed to\<close>

fun fw_step :: "DataItemId set \<Rightarrow> 'v os_out \<Rightarrow> DataItemId set" where
  "fw_step S (Fw_subscribe ob l) = S \<union> set l"
| "fw_step S (Fw_unsubscribe ob l) = S - set l"
| "fw_step S _ = S"

definition fw_items :: "'v os_out list \<Rightarrow> DataItemId set" where
  "fw_items outs = foldl fw_step {} outs"

lemma fw_items_append: "fw_items (outs @ out) = foldl fw_step (fw_items outs) out"
  by (simp add: fw_items_def)

lemma fw_sendCached [simp]: "foldl fw_step S (sendCachedDataItems items c s) = S"
  by (simp add: sendCachedDataItems_def Let_def)

lemma fw_send_loop [simp]: "foldl fw_step S (send_loop cs ids s) = S"
  by (induction cs) (simp_all add: Let_def)

lemma fw_update_cache_loop:
  "update_cache_loop env pos ds ids s = (ids', out, s') \<Longrightarrow> foldl fw_step S out = S"
proof (induction env pos ds ids s arbitrary: ids' out s' rule: update_cache_loop.induct)
  case (2 env pos d ds ids s)
  obtain u o1 s1 where u: "updateCache env pos d s = (u, o1, s1)" by (metis prod_cases3)
  have o1: "foldl fw_step S o1 = S"
    using u by (auto simp: updateCache_def Let_def split: option.splits prod.splits if_splits)
  let ?ids = "case d of Some (i, v) \<Rightarrow> if u then us_insert i ids else ids | None \<Rightarrow> ids"
  obtain ids2 o2 s2 where l: "update_cache_loop env (pos + 1) ds ?ids s1 = (ids2, o2, s2)"
    by (metis prod_cases3)
  from "2.prems" u l have "out = o1 @ o2" by (simp add: Let_def)
  with "2.IH" [OF u [symmetric] refl refl refl l] o1 show ?case by simp
qed simp

definition fw_synced :: "'v os_out list \<Rightarrow> 'v os_state \<Rightarrow> bool" where
  "fw_synced outs s \<longleftrightarrow>
     fw_items outs = (if mSubscriptionObj s = None then {} else Domain (sm_rel (mDataItemToClients s)))"

lemma subscribe_synced:
  assumes "maps_ok s" "distinct items" "fw_synced outs s"
    and "os_proc env (HandleSubscribeReq items c False) s = (out, s')"
  shows "fw_synced (outs @ out) s'"
proof -
  obtain g d2c where a: "sm_add items [c] (Some []) (mDataItemToClients s) = (g, d2c)" by fastforce
  obtain b c2d where b: "sm_add1 c items (mClientToDataItems s) = (b, c2d)" by fastforce
  from assms(1) have ok: "sm_ok (mDataItemToClients s)" by (simp add: maps_ok_def)
  have "distinct [c]" by simp
  from sm_add_spec [OF ok this a]
  have d: "sm_rel d2c = sm_rel (mDataItemToClients s) \<union> set items \<times> {c}"
    "outset (Some []) (Domain (sm_rel d2c) - Domain (sm_rel (mDataItemToClients s))) g" by auto
  from outset_the [OF d(2)] have g: "set (the g) = Domain (sm_rel d2c) - Domain (sm_rel (mDataItemToClients s))"
    by simp
  show ?thesis
  proof (cases "mSubscriptionObj s")
    case None
    with assms(3,4) a b show ?thesis by (auto simp: fw_synced_def fw_items_append Let_def)
  next
    case (Some ob)
    with assms(4) a b have s': "mDataItemToClients s' = d2c" "mSubscriptionObj s' = Some ob"
      "foldl fw_step (fw_items outs) out = fw_items outs \<union> set (the g)"
      by (auto simp: Let_def split: if_splits)
    have "Domain (sm_rel (mDataItemToClients s)) \<subseteq> Domain (sm_rel d2c)" unfolding d(1) by blast
    with assms(3) Some show ?thesis
      unfolding fw_synced_def fw_items_append s' g by auto
  qed
qed

lemma unsubscribe_out_synced:
  assumes "maps_ok s" "fw_synced outs s" "mSubscriptionObj s' = mSubscriptionObj s"
    and "sm_trimOrRemove ks [c] (Some []) None (mDataItemToClients s) = (h, x, mDataItemToClients s')"
    and "out = (case mSubscriptionObj s of None \<Rightarrow> []
      | Some ob \<Rightarrow> if the h \<noteq> [] then [Fw_unsubscribe ob (transfer_to_list (the h))] else [])"
  shows "fw_synced (outs @ out) s'"
proof -
  from assms(1) have ok: "sm_ok (mDataItemToClients s)" by (simp add: maps_ok_def)
  from sm_trimOrRemove_spec [OF ok assms(4)]
  have d: "sm_rel (mDataItemToClients s') = sm_rel (mDataItemToClients s) - set ks \<times> {c}"
    "outset (Some []) (Domain (sm_rel (mDataItemToClients s)) - Domain (sm_rel (mDataItemToClients s'))) h" by auto
  from outset_the [OF d(2)] have h: "set (the h) =
      Domain (sm_rel (mDataItemToClients s)) - Domain (sm_rel (mDataItemToClients s'))" by simp
  show ?thesis
  proof (cases "mSubscriptionObj s")
    case None
    with assms show ?thesis by (simp add: fw_synced_def fw_items_append)
  next
    case (Some ob)
    then have o: "foldl fw_step (fw_items outs) out = fw_items outs - set (the h)"
      using assms(5) by auto
    have "Domain (sm_rel (mDataItemToClients s')) \<subseteq> Domain (sm_rel (mDataItemToClients s))"
      unfolding d(1) by blast
    with assms(2,3) Some show ?thesis
      unfolding fw_synced_def fw_items_append o h by auto
  qed
qed

lemma os_proc_synced:
  assumes "maps_ok s" "msg_ok False False m" "fw_synced outs s" "os_proc env m s = (out, s')"
  shows "fw_synced (outs @ out) s'"
proof (cases m)
  case (SetSubsObj ob)
  have "set (transfer_to_list (sm_getKeys (mDataItemToClients s))) = Domain (sm_rel (mDataItemToClients s))"
    using assms(1) by (simp add: maps_ok_def sm_getKeys_Domain)
  moreover have "mDataItemToClients s = [] \<Longrightarrow> Domain (sm_rel (mDataItemToClients s)) = {}" by simp
  ultimately show ?thesis
    using SetSubsObj assms(3,4)
    by (cases "mSubscriptionObj s"; cases "mDataItemToClients s = []")
      (auto simp: Let_def fw_synced_def fw_items_append sm_empty_def simp del: sm_rel_iff)
next
  case (HandleSubscribeReq items c r)
  with assms(2) have "distinct items" "r = False" by auto
  with assms HandleSubscribeReq subscribe_synced [OF assms(1) _ assms(3)] show ?thesis by metis
next
  case (HandleUnsubscribeReq items c)
  obtain g unused c2d where a: "sm_trimOrRemove [c] items (Some []) (Some []) (mClientToDataItems s) = (g, unused, c2d)"
    by (metis prod_cases3)
  obtain h x d2c where b: "sm_trimOrRemove (the unused) [c] (Some []) None (mDataItemToClients s) = (h, x, d2c)"
    by (metis prod_cases3)
  show ?thesis
    by (rule unsubscribe_out_synced [OF assms(1,3), of s' "the unused" c h x])
      (use assms(4) HandleUnsubscribeReq a b in \<open>auto simp: Let_def split: option.splits\<close>)
next
  case (HandleUnsubscribeAllReq c)
  show ?thesis
  proof (cases "sm_getValSet c (mClientToDataItems s) = []")
    case True
    with assms(3,4) HandleUnsubscribeAllReq show ?thesis by (simp add: Let_def)
  next
    case False
    obtain g c2d where a: "sm_remove c (mClientToDataItems s) = (g, c2d)" by fastforce
    obtain h x d2c where b: "sm_trimOrRemove (sm_getValSet c (mClientToDataItems s)) [c] (Some []) None
      (mDataItemToClients s) = (h, x, d2c)" by (metis prod_cases3)
    show ?thesis
      by (rule unsubscribe_out_synced [OF assms(1,3), of s' "sm_getValSet c (mClientToDataItems s)" c h x])
        (use assms(4) HandleUnsubscribeAllReq False a b in \<open>auto simp: Let_def split: option.splits\<close>)
  qed
next
  case (HandleNotify v)
  obtain ids o1 s1 where u: "update_cache_loop env 0 v [] s = (ids, o1, s1)" by (metis prod_cases3)
  with assms(4) HandleNotify have "out = o1 @ send_loop (clients_loop ids (mDataItemToClients s1) []) ids s1" "s' = s1"
    by (auto simp: Let_def)
  with fw_update_cache_loop [OF u] update_cache_loop_frame [OF u] assms(3) show ?thesis
    by (simp add: fw_synced_def fw_items_append)
qed (use assms in \<open>auto simp: fw_synced_def fw_items_append os_turn_frame simp del: sm_rel_iff\<close>)

lemma os_reach_synced:
  "os_reach calls outs s \<Longrightarrow> \<not> list_ex is_update calls \<Longrightarrow> \<not> list_ex is_request calls \<Longrightarrow> fw_synced outs s"
proof (induction rule: os_reach.induct)
  case os_init
  then show ?case by (simp add: os_new_def fw_synced_def fw_items_def)
next
  case (os_call calls outs s c env)
  then show ?case by (simp add: list_ex_append fw_synced_def os_exec_frame)
next
  case (os_task calls outs s m ms env out s')
  have "list_all (msg_ok False False) (os_msgs s)"
    by (rule os_reach_msgs [OF os_task.hyps(1)]) (use os_task.prems in simp_all)
  with os_task.hyps(2) have "msg_ok False False m" by simp
  moreover from os_task have "maps_ok (s\<lparr>os_msgs := ms\<rparr>)" "fw_synced outs (s\<lparr>os_msgs := ms\<rparr>)"
    using os_reach_maps [OF os_task.hyps(1)] by (simp_all add: maps_ok_def fw_synced_def)
  ultimately show ?case using os_task.hyps(3) os_proc_synced by blast
qed

section \<open>Properties\<close>

text \<open>The set map implements a relation between keys and values whatever the iteration order:
  adding and trimming are union and difference with a product, the reported new and gone keys are
  exactly those that enter or leave the domain, the reported gone values exactly those that were
  present, and no key is left with an empty set of values.\<close>

theorem set_map_refines_relation:
  assumes "sm_ok m" "distinct vals"
  shows "\<exists>new m1 gone goneVals m2.
    sm_add keys vals (Some []) m = (Some new, m1) \<and>
    sm_trimOrRemove keys vals (Some []) (Some []) m = (Some gone, Some goneVals, m2) \<and>
    sm_ok m1 \<and> sm_rel m1 = sm_rel m \<union> set keys \<times> set vals \<and>
    set new = Domain (sm_rel m1) - Domain (sm_rel m) \<and>
    sm_ok m2 \<and> sm_rel m2 = sm_rel m - set keys \<times> set vals \<and>
    set gone = Domain (sm_rel m) - Domain (sm_rel m2) \<and>
    set goneVals = sm_rel m `` set keys \<inter> set vals"
proof -
  obtain n m1 where a: "sm_add keys vals (Some []) m = (n, m1)" by fastforce
  obtain g v m2 where b: "sm_trimOrRemove keys vals (Some []) (Some []) m = (g, v, m2)" by (metis prod_cases3)
  note sa = sm_add_spec [OF assms a] and sb = sm_trimOrRemove_spec [OF assms(1) b]
  from sa outset_Some obtain n' where n: "n = Some n'" "set n' = Domain (sm_rel m1) - Domain (sm_rel m)"
    by (metis Un_empty_left list.set(1))
  from sb outset_Some obtain g' where g: "g = Some g'" "set g' = Domain (sm_rel m) - Domain (sm_rel m2)"
    by (metis Un_empty_left list.set(1))
  from sb outset_Some obtain v' where v: "v = Some v'" "set v' = sm_rel m `` set keys \<inter> set vals"
    by (metis Un_empty_left list.set(1))
  from a b n(1) g(1) v(1) have e: "sm_add keys vals (Some []) m = (Some n', m1)"
    "sm_trimOrRemove keys vals (Some []) (Some []) m = (Some g', Some v', m2)" by simp_all
  from sa sb have r: "sm_ok m1" "sm_rel m1 = sm_rel m \<union> set keys \<times> set vals" "sm_ok m2"
    "sm_rel m2 = sm_rel m - set keys \<times> set vals" by blast+
  show ?thesis
    by (rule exI [of _ n'], rule exI [of _ m1], rule exI [of _ g'], rule exI [of _ v'], rule exI [of _ m2])
      (intro conjI; fact e r n(2) g(2) v(2))
qed

lemma set_map_refines_relation_witness:
  "\<exists>m2. sm_trimOrRemove [1, 2] [7 :: nat] (Some []) (Some []) [(1 :: int, [7]), (2, [7, 8])] = (Some [1], Some [7], m2) \<and>
     sm_rel m2 = sm_rel [(1 :: int, [7]), (2, [7, 8])] - {1, 2} \<times> {7}"
proof -
  have "sm_ok [(1 :: int, [7 :: nat]), (2, [7, 8])]" "distinct [7 :: nat]" by (simp_all add: sm_ok_def)
  from set_map_refines_relation [OF this, of "[1, 2]"] obtain gone goneVals m2 where
    "sm_trimOrRemove [1, 2] [7 :: nat] (Some []) (Some []) [(1 :: int, [7]), (2, [7, 8])] = (Some gone, Some goneVals, m2)"
    "sm_rel m2 = sm_rel [(1 :: int, [7]), (2, [7, 8])] - set [1, 2] \<times> set [7]" by blast
  moreover have "fst (sm_trimOrRemove [1, 2] [7 :: nat] (Some []) (Some []) [(1 :: int, [7]), (2, [7, 8])]) = Some [1]"
    "fst (snd (sm_trimOrRemove [1, 2] [7 :: nat] (Some []) (Some []) [(1 :: int, [7]), (2, [7, 8])])) = Some [7]"
    by code_simp+
  ultimately show ?thesis by simp
qed

text \<open>C13: In every history of calls and message handling without updateSubscription, the map from
  clients to items and the map from items to clients are each other's converse, and neither keeps
  an empty entry.\<close>

theorem subscription_maps_converse:
  assumes "os_reach calls outs s" "\<not> list_ex is_update calls"
  shows "sm_ok (mClientToDataItems s) \<and> sm_ok (mDataItemToClients s) \<and>
    (i \<in> set (sm_getValSet c (mClientToDataItems s)) \<longleftrightarrow> c \<in> set (sm_getValSet i (mDataItemToClients s)))"
proof -
  from os_reach_maps [OF assms] have m: "sm_ok (mClientToDataItems s)" "sm_ok (mDataItemToClients s)"
    "sm_rel (mClientToDataItems s) = (sm_rel (mDataItemToClients s))\<inverse>" by (simp_all only: maps_ok_def)
  have "(c, i) \<in> sm_rel (mClientToDataItems s) \<longleftrightarrow> (i, c) \<in> sm_rel (mDataItemToClients s)"
    unfolding m(3) by (rule converse_iff)
  with m(1,2) show ?thesis unfolding sm_rel_iff by blast
qed

text \<open>In every history without updateSubscription and requestData, the items that the framework
  has been asked for and not been released from are exactly the items some client subscribes to,
  from the moment the subscription object is set; before that it is asked for nothing.\<close>

theorem framework_subscription_in_step:
  assumes "os_reach calls outs s" "\<not> list_ex is_update calls" "\<not> list_ex is_request calls"
  shows "fw_items outs =
    (if mSubscriptionObj s = None then {} else {i. sm_getValSet i (mDataItemToClients s) \<noteq> []})"
proof -
  have "Domain (sm_rel (mDataItemToClients s)) = {i. sm_getValSet i (mDataItemToClients s) \<noteq> []}"
    by (auto simp: Domain_iff simp flip: ex_in_conv set_empty)
  with os_reach_synced [OF assms] show ?thesis by (simp add: fw_synced_def)
qed

text \<open>A concrete history: two clients subscribe, the framework object is set, one unsubscribes.\<close>

definition demo_env :: "int os_env" where
  "demo_env = \<lparr>di_new = (\<lambda>i. Some 0), di_copy = (\<lambda>old new. (new, old \<noteq> new)), ss_accepts = (\<lambda>pos. True)\<rparr>"

fun os_run :: "'v os_env \<Rightarrow> 'v os_call option list \<Rightarrow> 'v os_state \<Rightarrow> 'v os_out list \<times> 'v os_state" where
  "os_run env [] s = ([], s)"
| "os_run env (Some c # es) s = os_run env es (os_exec env c s)"
| "os_run env (None # es) s =
     (case os_msgs s of
        [] \<Rightarrow> os_run env es s
      | m # ms \<Rightarrow> (let (out, s) = os_proc env m (s\<lparr>os_msgs := ms\<rparr>); (outs, s) = os_run env es s in (out @ outs, s)))"

fun calls_of :: "'v os_call option list \<Rightarrow> 'v os_call list" where
  "calls_of [] = []"
| "calls_of (Some c # es) = c # calls_of es"
| "calls_of (None # es) = calls_of es"

lemma os_run_reach:
  "os_reach calls outs0 s \<Longrightarrow> os_run env es s = (outs, s') \<Longrightarrow>
   os_reach (calls @ calls_of es) (outs0 @ outs) s'"
proof (induction env es s arbitrary: calls outs0 outs s' rule: os_run.induct)
  case (1 env s)
  then show ?case by (simp)
next
  case (2 env c es s)
  have "os_reach ((calls @ [c]) @ calls_of es) (outs0 @ outs) s'"
    by (rule "2.IH") (use "2.prems" in \<open>simp_all add: os_reach.os_call\<close>)
  then show ?case by (simp)
next
  case (3 env es s)
  show ?case
  proof (cases "os_msgs s")
    case Nil
    with "3.IH"(1) [OF Nil "3.prems"(1)] "3.prems"(2) show ?thesis by (simp)
  next
    case (Cons m ms)
    obtain out1 s1 where p: "os_proc env m (s\<lparr>os_msgs := ms\<rparr>) = (out1, s1)" by fastforce
    obtain outs2 s2 where q: "os_run env es s1 = (outs2, s2)" by fastforce
    have "os_reach (calls @ calls_of es) ((outs0 @ out1) @ outs2) s2"
      by (rule "3.IH"(2) [OF Cons p [symmetric] refl os_task [OF "3.prems"(1) Cons p] q])
    with "3.prems"(2) Cons p q show ?thesis by (simp)
  qed
qed

definition demo_events :: "int os_call option list" where
  "demo_events = [Some (Call_subscribe [5, 6] (Some 1)), None, Some (Call_setSubscriptionObj (Some 0)),
     Some (Call_subscribe [6, 7] (Some 2)), None, None, Some (Call_unsubscribe [5] (Some 1)), None]"

definition demo_os :: "int os_state" where
  "demo_os = snd (os_run demo_env demo_events os_new)"

lemma demo_os_reach:
  "os_reach (calls_of demo_events) (fst (os_run demo_env demo_events os_new)) demo_os"
proof -
  have "os_run demo_env demo_events os_new = (fst (os_run demo_env demo_events os_new), demo_os)"
    by (simp add: demo_os_def)
  from os_run_reach [OF os_init this] show ?thesis by (simp only: append_Nil)
qed

lemma demo_os_calls: "\<not> list_ex is_update (calls_of demo_events)"
  "\<not> list_ex is_request (calls_of demo_events)"
  by code_simp+

lemma subscription_maps_converse_witness:
  "1 \<in> set (sm_getValSet 6 (mDataItemToClients demo_os)) \<and> 6 \<in> set (sm_getValSet 1 (mClientToDataItems demo_os))"
proof -
  have "1 \<in> set (sm_getValSet 6 (mDataItemToClients demo_os))" by code_simp
  with subscription_maps_converse [OF demo_os_reach demo_os_calls(1), of 6 1] show ?thesis by simp
qed

lemma framework_subscription_in_step_witness:
  "fw_items (fst (os_run demo_env demo_events os_new)) = {i. sm_getValSet i (mDataItemToClients demo_os) \<noteq> []} \<and>
   sm_getValSet 7 (mDataItemToClients demo_os) = [2] \<and> sm_getValSet 5 (mDataItemToClients demo_os) = []"
proof -
  have "mSubscriptionObj demo_os = Some 0" "sm_getValSet 7 (mDataItemToClients demo_os) = [2]"
    "sm_getValSet 5 (mDataItemToClients demo_os) = []" by code_simp+
  with framework_subscription_in_step [OF demo_os_reach demo_os_calls] show ?thesis by simp
qed

subsection \<open>Notifications\<close>

fun told :: "observer \<Rightarrow> 'v os_out list \<Rightarrow> (DataItemId \<times> 'v) list list" where
  "told c [] = []"
| "told c (Client_notify c' l # outs) = (if c' = c then l # told c outs else told c outs)"
| "told c (_ # outs) = told c outs"

lemma told_append [simp]: "told c (xs @ ys) = told c xs @ told c ys"
  by (induction c xs rule: told.induct) simp_all







subsection \<open>Two operations that do not do what they promise\<close>

text \<open>updateSubscription gives a client the right set in the client map, but in the map that
  notifications are sent from the client ends up with the symmetric difference of its old and its new
  items: what it keeps is dropped, what it gave up stays. Other clients are not affected.\<close>

theorem update_subscription_drops_kept_items:
  assumes "os_reach calls outs0 s" "\<not> list_ex is_update calls" "distinct items" "items \<noteq> []"
    and "os_proc env (HandleUpdateSubscriptionReq items c) s = (out, s')"
  shows "set (sm_getValSet c (mClientToDataItems s')) = set items \<and>
    {i. c \<in> set (sm_getValSet i (mDataItemToClients s'))} =
      ({i. c \<in> set (sm_getValSet i (mDataItemToClients s))} - set items) \<union>
      (set items - {i. c \<in> set (sm_getValSet i (mDataItemToClients s))}) \<and>
    (c' \<noteq> c \<longrightarrow> (c' \<in> set (sm_getValSet i (mDataItemToClients s')) \<longleftrightarrow>
      c' \<in> set (sm_getValSet i (mDataItemToClients s))))"
proof -
  let ?R = "sm_rel (mDataItemToClients s)"
  have "maps_ok s" by (rule os_reach_maps [OF assms(1,2)])
  then have ok: "sm_ok (mClientToDataItems s)" "sm_ok (mDataItemToClients s)"
    "sm_rel (mClientToDataItems s) = ?R\<inverse>" by (simp_all only: maps_ok_def)
  obtain gone new c2d where a: "sm_update c items (mClientToDataItems s) = (gone, new, c2d)" by (metis prod_cases3)
  obtain h x d1 where b: "sm_trimOrRemove gone [c] (Some []) None (mDataItemToClients s) = (h, x, d1)"
    by (metis prod_cases3)
  obtain g d2 where e: "sm_add new [c] (Some []) d1 = (g, d2)" by fastforce
  have s': "mDataItemToClients s' = d2" "mClientToDataItems s' = c2d"
    using assms(5) a b e by (auto simp: Let_def split: option.splits)
  have ua: "sm_rel c2d = sm_rel (mClientToDataItems s) - {c} \<times> UNIV \<union> {c} \<times> set items"
    "set gone = ?R\<inverse> `` {c} \<inter> set items" "set new = set items - ?R\<inverse> `` {c}"
    using sm_update_spec [OF ok(1) assms(3,4) a] ok(3) by auto
  have d1: "sm_ok d1" "sm_rel d1 = ?R - set gone \<times> {c}"
    using sm_trimOrRemove_spec [OF ok(2) b] by auto
  have dc: "distinct [c]" by simp
  have d2: "sm_rel d2 = ?R - set gone \<times> {c} \<union> set new \<times> {c}"
    using sm_add_spec [OF d1(1) dc e] d1(2) by auto
  have c2d: "(c, i) \<in> sm_rel c2d \<longleftrightarrow> i \<in> set items" for i
    unfolding ua(1) by blast
  have "(i, c) \<in> sm_rel d2 \<longleftrightarrow> (i, c) \<in> ?R \<and> i \<notin> set items \<or> i \<in> set items \<and> (i, c) \<notin> ?R" for i
    unfolding d2 ua(2,3) by blast
  moreover have "(i, c') \<in> sm_rel d2 \<longleftrightarrow> (i, c') \<in> ?R" if "c' \<noteq> c"
    unfolding d2 using that by blast
  ultimately show ?thesis using c2d unfolding s' sm_rel_iff by blast
qed

lemma update_subscription_drops_kept_items_witness:
  "\<exists>out s'. os_proc demo_env (HandleUpdateSubscriptionReq [6, 8] 1) demo_os = (out, s') \<and>
     1 \<notin> set (sm_getValSet 6 (mDataItemToClients s')) \<and> 6 \<in> set (sm_getValSet 1 (mClientToDataItems s'))"
proof -
  obtain out s' where p: "os_proc demo_env (HandleUpdateSubscriptionReq [6, 8] 1) demo_os = (out, s')" by fastforce
  have d: "1 \<in> set (sm_getValSet 6 (mDataItemToClients demo_os))" by code_simp
  have i: "distinct [6, 8 :: int]" "[6, 8 :: int] \<noteq> []" by simp_all
  note t = update_subscription_drops_kept_items [OF demo_os_reach demo_os_calls(1) i p]
  have "6 \<in> set (sm_getValSet 1 (mClientToDataItems s'))" using conjunct1 [OF t] by simp
  moreover have "6 \<notin> {i. 1 \<in> set (sm_getValSet i (mDataItemToClients s'))}"
    unfolding conjunct1 [OF conjunct2 [OF t]] using d by simp
  ultimately show ?thesis using p by blast
qed



text \<open>A request for data that comes first keeps later subscribers from being subscribed.\<close>

lemma request_blocks_subscription:
  "fst (os_run demo_env [Some (Call_setSubscriptionObj (Some 0)), None, Some (Call_requestData [5] (Some 1)), None,
     Some (Call_subscribe [5] (Some 2)), None] os_new) = [Fw_requestData 0 [5]]"
  by code_simp

end
