(* ===== verification/Loc_Cfg.thy ===== *)
theory Loc_Cfg
  imports Prelude "HOL-Library.Char_ord"
begin

text \<open>
  The configuration files of the GPS stack: gps/utils/loc_cfg.cpp (the reader of NAME = VALUE
  lines into a table of parameters) with the string helpers of gps/utils/loc_misc_utils.cpp. Strings
  are lists of characters without NUL. The C library's strtok_r, fgets, strtol, atoi and strlcpy
  are modelled as the C standard describes them; atof is a parameter.
\<close>

section \<open>String helpers\<close>

definition isspace :: "char \<Rightarrow> bool" where
  "isspace c \<longleftrightarrow> c \<in> {CHR 0x20, CHR 0x09, CHR 0x0A, CHR 0x0B, CHR 0x0C, CHR 0x0D}"

text \<open>
  loc_util_trim_space: the loop shifts the characters from the first non-space one on to the left;
  \<open>written\<close> is what write_ptr has passed, \<open>last\<close> its length up to the last non-space character.
\<close>

fun trim_loop :: "string \<Rightarrow> bool \<Rightarrow> string \<Rightarrow> nat option \<Rightarrow> string \<times> nat option" where
  "trim_loop [] first written last_nonspace = (written, last_nonspace)"
| "trim_loop (c # cs) first written last_nonspace =
     (let first = (first \<or> \<not> isspace c)
      in if first
         then trim_loop cs first (written @ [c])
                (if \<not> isspace c then Some (length written + 1) else last_nonspace)
         else trim_loop cs first written last_nonspace)"

definition loc_util_trim_space :: "string \<Rightarrow> string" where
  "loc_util_trim_space org =
     (case trim_loop org False [] None of
        (written, None) \<Rightarrow> org
      | (written, Some n) \<Rightarrow> take n written)"

text \<open>
  loc_util_split_string: the substrings at the delimiters, at most \<open>room\<close> of them; what follows the
  last one is cut off.
\<close>

fun split_loop :: "nat \<Rightarrow> char \<Rightarrow> string \<Rightarrow> string \<Rightarrow> string list" where
  "split_loop room d cur [] = [cur]"
| "split_loop room d cur (c # cs) =
     (if c = d then (if 1 < room then cur # split_loop (room - 1) d [] cs else [cur])
      else split_loop room d (cur @ [c]) cs)"

definition loc_util_split_string :: "string \<Rightarrow> nat \<Rightarrow> char \<Rightarrow> string list" where
  "loc_util_split_string raw max_num d = split_loop max_num d [] raw"

section \<open>The C library\<close>

definition strtok :: "char \<Rightarrow> string \<Rightarrow> (string \<times> string) option" where
  "strtok d s =
     (let s' = dropWhile (\<lambda>c. c = d) s
      in if s' = [] then None
         else Some (takeWhile (\<lambda>c. c \<noteq> d) s', drop 1 (dropWhile (\<lambda>c. c \<noteq> d) s')))"

fun fgets_take :: "nat \<Rightarrow> string \<Rightarrow> string \<times> string" where
  "fgets_take 0 s = ([], s)"
| "fgets_take (Suc n) [] = ([], [])"
| "fgets_take (Suc n) (c # s) =
     (if c = CHR 0x0A then ([c], s) else (let (line, rest) = fgets_take n s in (c # line, rest)))"

definition fgets :: "nat \<Rightarrow> string \<Rightarrow> (string \<times> string) option" where
  "fgets n s = (if s = [] then None else Some (fgets_take (n - 1) s))"

definition digit_of :: "char \<Rightarrow> int option" where
  "digit_of c =
     (let n = of_char c :: nat
      in if 48 \<le> n \<and> n \<le> 57 then Some (int n - 48)
         else if 97 \<le> n \<and> n \<le> 122 then Some (int n - 87)
         else if 65 \<le> n \<and> n \<le> 90 then Some (int n - 55)
         else None)"

fun strtol_digits :: "int \<Rightarrow> int \<Rightarrow> string \<Rightarrow> int" where
  "strtol_digits base acc [] = acc"
| "strtol_digits base acc (c # cs) =
     (case digit_of c of
        Some d \<Rightarrow> if d < base then strtol_digits base (acc * base + d) cs else acc
      | None \<Rightarrow> acc)"

definition is_x :: "char \<Rightarrow> bool" where
  "is_x c \<longleftrightarrow> c = CHR ''x'' \<or> c = CHR ''X''"

text \<open>An optional 0x before a hexadecimal digit.\<close>

definition skip_0x :: "string \<Rightarrow> string" where
  "skip_0x s =
     (case s of
        z # x # h # rest \<Rightarrow>
          if z = CHR ''0'' \<and> is_x x \<and> (case digit_of h of Some d \<Rightarrow> d < 16 | None \<Rightarrow> False)
          then h # rest else s
      | _ \<Rightarrow> s)"

text \<open>The result is a long of 64 bits; out of range values saturate.\<close>

definition strtol :: "int \<Rightarrow> string \<Rightarrow> int" where
  "strtol base s =
     (let s = dropWhile isspace s;
          (neg, s) = (case s of c # cs \<Rightarrow> if c = CHR ''-'' then (True, cs) else if c = CHR ''+'' then (False, cs) else (False, s)
                              | [] \<Rightarrow> (False, s));
          s = (if base = 16 then skip_0x s else s);
          v = strtol_digits base 0 s;
          v = (if neg then - v else v)
      in max (- (2 ^ 63)) (min v (2 ^ 63 - 1)))"

definition atoi :: "string \<Rightarrow> 32 word" where
  "atoi s = word_of_int (strtol 10 s)"

definition strlcpy :: "string \<Rightarrow> nat \<Rightarrow> string" where
  "strlcpy src n = take (n - 1) src"

section \<open>The parameter table\<close>

abbreviation (input) LOC_MAX_PARAM_STRING :: nat where "LOC_MAX_PARAM_STRING \<equiv> 80"

abbreviation (input) LOC_MAX_PARAM_LINE :: nat where "LOC_MAX_PARAM_LINE \<equiv> 160"

text \<open>Destinations and validity bytes are numbered; a NULL pointer is None.\<close>

record loc_param =
  p_name :: string
  p_ptr :: "nat option"
  p_set :: "nat option"
  p_type :: char

datatype 'd pval = PNum "32 word" | PStr string | PDouble 'd

record 'd conf_store =
  vals :: "nat \<Rightarrow> 'd pval option"
  sets :: "nat \<Rightarrow> bool"

record 'd conf_value =
  v_name :: string
  v_str :: string
  v_int :: "32 word"
  v_double :: 'd

text \<open>The floating point functions: atof and the zero that memset leaves.\<close>

record 'd fp =
  atof :: "string \<Rightarrow> 'd"
  fzero :: 'd

definition mark_set :: "loc_param \<Rightarrow> 'd conf_store \<Rightarrow> 'd conf_store" where
  "mark_set e st = (case p_set e of None \<Rightarrow> st | Some q \<Rightarrow> st\<lparr>sets := (sets st)(q := True)\<rparr>)"

definition loc_set_config_entry ::
  "loc_param option \<Rightarrow> 'd conf_value option \<Rightarrow> 'd conf_store \<Rightarrow> int \<times> 'd conf_store" where
  "loc_set_config_entry entry val st =
     (case (entry, val) of
        (Some e, Some v) \<Rightarrow>
          (case p_ptr e of
             None \<Rightarrow> (-1, st)
           | Some p \<Rightarrow>
               if p_name e = v_name v
               then if p_type e = CHR ''s''
                    then (0, mark_set e (st\<lparr>vals := (vals st)(p \<mapsto>
                            PStr (if v_str v = ''NULL'' then [] else strlcpy (v_str v) (LOC_MAX_PARAM_STRING + 1)))\<rparr>))
                    else if p_type e = CHR ''n''
                    then (0, mark_set e (st\<lparr>vals := (vals st)(p \<mapsto> PNum (v_int v))\<rparr>))
                    else if p_type e = CHR ''f''
                    then (0, mark_set e (st\<lparr>vals := (vals st)(p \<mapsto> PDouble (v_double v))\<rparr>))
                    else (-1, st)
               else (-1, st))
      | _ \<Rightarrow> (-1, st))"

fun set_entries :: "loc_param list \<Rightarrow> 'd conf_value \<Rightarrow> 'd conf_store \<Rightarrow> nat \<times> 'd conf_store" where
  "set_entries [] v st = (0, st)"
| "set_entries (e # es) v st =
     (let (r, st) = loc_set_config_entry (Some e) (Some v) st;
          (n, st) = set_entries es v st
      in ((if r = 0 then 1 else 0) + n, st))"

definition parse_value :: "'d fp \<Rightarrow> string \<Rightarrow> string \<Rightarrow> 'd conf_value" where
  "parse_value F name str =
     (if 3 \<le> length str \<and> str ! 0 = CHR ''0'' \<and> is_x (str ! 1)
      then \<lparr>v_name = name, v_str = str, v_int = word_of_int (strtol 16 (drop 2 str)), v_double = fzero F\<rparr>
      else \<lparr>v_name = name, v_str = str, v_int = atoi str, v_double = atof F str\<rparr>)"

text \<open>The table is the array with the given length, or None for a NULL pointer.\<close>

definition loc_fill_conf_item ::
  "'d fp \<Rightarrow> string option \<Rightarrow> loc_param list option \<Rightarrow> 'd conf_store \<Rightarrow> nat \<times> 'd conf_store" where
  "loc_fill_conf_item F input_buf config_table st =
     (case (input_buf, config_table) of
        (Some buf, Some table) \<Rightarrow>
          (case strtok (CHR ''='') buf of
             None \<Rightarrow> (0, st)
           | Some (name, lasts) \<Rightarrow>
               (case strtok (CHR ''='') lasts of
                  None \<Rightarrow> (0, st)
                | Some (str, _) \<Rightarrow>
                    set_entries table (parse_value F (loc_util_trim_space name) (loc_util_trim_space str)) st))
      | _ \<Rightarrow> (0, st))"

fun clear_sets :: "loc_param list \<Rightarrow> 'd conf_store \<Rightarrow> 'd conf_store" where
  "clear_sets [] st = st"
| "clear_sets (e # es) st =
     clear_sets es (case p_set e of None \<Rightarrow> st | Some q \<Rightarrow> st\<lparr>sets := (sets st)(q := False)\<rparr>)"

lemma fgets_take_shorter: "snd (fgets_take n s) = drop (length (fst (fgets_take n s))) s"
  by (induction n s rule: fgets_take.induct) (auto simp: split_beta)

lemma fgets_take_length: "length (fst (fgets_take n s)) \<le> n"
  by (induction n s rule: fgets_take.induct) (auto simp: split_beta)

lemma fgets_take_nonempty: "n \<noteq> 0 \<Longrightarrow> s \<noteq> [] \<Longrightarrow> fst (fgets_take n s) \<noteq> []"
  by (cases "(n, s)" rule: fgets_take.cases) (auto simp: split_beta)

lemma fgets_progress: "fgets n s = Some (line, rest) \<Longrightarrow> 1 < n \<Longrightarrow> length rest < length s"
  using fgets_take_shorter [of "n - 1" s] fgets_take_nonempty [of "n - 1" s]
  by (auto simp: fgets_def split: if_splits)

text \<open>The loop of loc_read_conf_r: \<open>num_params\<close> is a 32-bit unsigned count.\<close>

function read_loop :: "'d fp \<Rightarrow> 32 word \<Rightarrow> string \<Rightarrow> loc_param list option \<Rightarrow> 'd conf_store \<Rightarrow> string \<times> 'd conf_store" where
  "read_loop F num_params file config_table st =
     (if num_params = 0 then (file, st)
      else case fgets LOC_MAX_PARAM_LINE file of
             None \<Rightarrow> (file, st)
           | Some (input_buf, rest) \<Rightarrow>
               (let (n, st) = loc_fill_conf_item F (Some input_buf) config_table st
                in read_loop F (num_params - of_nat n) rest config_table st))"
  by pat_completeness auto
termination by (relation "measure (\<lambda>(F, n, file, t, st). length file)") (auto intro: fgets_progress)

declare read_loop.simps [simp del]

text \<open>\<open>conf_fp\<close>: the rest of the file, None for a NULL pointer.\<close>

definition loc_read_conf_r ::
  "'d fp \<Rightarrow> string option \<Rightarrow> loc_param list option \<Rightarrow> 32 word \<Rightarrow> 'd conf_store \<Rightarrow> int \<times> string option \<times> 'd conf_store" where
  "loc_read_conf_r F conf_fp config_table table_length st =
     (case conf_fp of
        None \<Rightarrow> (-1, None, st)
      | Some file \<Rightarrow>
          (let table = map_option (take (unat table_length)) config_table;
               st = (case table of None \<Rightarrow> st | Some es \<Rightarrow> clear_sets es st);
               (rest, st) = read_loop F table_length file table st
           in (0, Some rest, st)))"

lemma strtok_progress: "strtok d s = Some (tok, rest) \<Longrightarrow> length rest < length s"
proof -
  assume st: "strtok d s = Some (tok, rest)"
  define s' where "s' = dropWhile (\<lambda>c. c = d) s"
  from st have ne: "s' \<noteq> []" and r: "rest = drop 1 (dropWhile (\<lambda>c. c \<noteq> d) s')"
    by (auto simp: strtok_def s'_def Let_def split: if_splits)
  have "hd s' \<noteq> d" using ne unfolding s'_def using hd_dropWhile by blast
  with ne have "length (dropWhile (\<lambda>c. c \<noteq> d) s') < length s'"
    by (cases s') (auto simp: le_imp_less_Suc length_dropWhile_le)
  moreover have "length s' \<le> length s" unfolding s'_def by (rule length_dropWhile_le)
  ultimately show ?thesis using r by simp
qed

function update_loop :: "'d fp \<Rightarrow> 32 word \<Rightarrow> (string \<times> string) option \<Rightarrow> int \<Rightarrow> loc_param list \<Rightarrow> 'd conf_store \<Rightarrow>
    int \<times> 'd conf_store" where
  "update_loop F num_params None ret table st = (ret, st)"
| "update_loop F num_params (Some (input_buf, saveptr)) ret table st =
     (if num_params = 0 then (ret, st)
      else let (n, st) = loc_fill_conf_item F (Some input_buf) (Some table) st
           in update_loop F (num_params - of_nat n) (strtok (CHR 0x0A) saveptr) (ret + 1) table st)"
  by pat_completeness auto
termination
proof (relation "measure (\<lambda>(F, n, tok, r, t, st). case tok of None \<Rightarrow> 0 | Some (b, s) \<Rightarrow> Suc (length s))")
  fix F :: "'d fp" and num_params :: "32 word" and input_buf saveptr ret table and st x y and xa :: nat and ya
  show "((F, num_params - of_nat xa, strtok (CHR 0x0A) saveptr, ret + 1, table, ya),
         F, num_params, Some (input_buf, saveptr), ret, table, st)
      \<in> measure (\<lambda>(F, n, tok, r, t, st). case tok of None \<Rightarrow> 0 | Some (b, s) \<Rightarrow> Suc (length s))"
    using strtok_progress [of "CHR 0x0A" saveptr] by (cases "strtok (CHR 0x0A) saveptr") auto
qed simp

text \<open>\<open>alloc\<close>: malloc returned a block for the copy of the buffer.\<close>

definition loc_update_conf ::
  "'d fp \<Rightarrow> string option \<Rightarrow> nat \<Rightarrow> loc_param list option \<Rightarrow> 32 word \<Rightarrow> bool \<Rightarrow> 'd conf_store \<Rightarrow> int \<times> 'd conf_store" where
  "loc_update_conf F conf_data len config_table table_length alloc st =
     (case (conf_data, config_table) of
        (Some dat, Some table) \<Rightarrow>
          if len \<noteq> 0 \<and> table_length \<noteq> 0 \<and> alloc
          then update_loop F (table_length - 1) (strtok (CHR 0x0A) (take len dat)) 0
                 (take (unat table_length) table) st
          else (-1, st)
      | _ \<Rightarrow> (-1, st))"

text \<open>
  \<open>file\<close>: the file's contents, None when fopen fails. The second read is that of the logging
  parameters; the logger is initialised from the store afterwards.
\<close>

definition loc_read_conf ::
  "'d fp \<Rightarrow> string option \<Rightarrow> loc_param list option \<Rightarrow> 32 word \<Rightarrow> loc_param list \<Rightarrow> 'd conf_store \<Rightarrow> 'd conf_store" where
  "loc_read_conf F file config_table table_length loc_param_table st =
     (case file of
        None \<Rightarrow> st
      | Some f \<Rightarrow>
          (let st = (if table_length \<noteq> 0 \<and> config_table \<noteq> None
                     then snd (snd (loc_read_conf_r F (Some f) config_table table_length st)) else st)
           in snd (snd (loc_read_conf_r F (Some f) (Some loc_param_table)
                (of_nat (length loc_param_table)) st))))"

end
