(* ===== verification/Loc_Cfg_Props.thy ===== *)
theory Loc_Cfg_Props
  imports Loc_Cfg
begin

text \<open>
  The correctness of the configuration reader: what trimming and tokenising do to a line, that a
  printed parameter is read back, when reading a file stops, how long the stored strings can get.
\<close>

section \<open>Trimming\<close>

definition rstrip :: "string \<Rightarrow> string" where
  "rstrip s = rev (dropWhile isspace (rev s))"

lemma rstrip_Nil [simp]: "rstrip [] = []"
  by (simp add: rstrip_def)

lemma rstrip_Cons: "rstrip (c # cs) = (if rstrip cs \<noteq> [] then c # rstrip cs else if isspace c then [] else [c])"
  by (auto simp: rstrip_def dropWhile_append)

lemma rstrip_eq_Nil: "rstrip s = [] \<longleftrightarrow> list_all isspace s"
  by (induction s) (simp_all add: rstrip_Cons)

lemma rstrip_take: "take (length (rstrip s)) s = rstrip s"
  by (induction s) (simp_all add: rstrip_Cons)

lemma trim_loop_True:
  "trim_loop cs True w l = (w @ cs, if rstrip cs = [] then l else Some (length w + length (rstrip cs)))"
  by (induction cs arbitrary: w l) (simp_all add: rstrip_Cons)

lemma trim_loop_False:
  "trim_loop cs False [] None =
     (let d = dropWhile isspace cs in (d, if d = [] then None else Some (length (rstrip d))))"
  by (induction cs) (simp_all add: trim_loop_True rstrip_Cons)

lemma trim_space_eq:
  "loc_util_trim_space s = (if list_all isspace s then s else rstrip (dropWhile isspace s))"
  using rstrip_take [of "dropWhile isspace s"]
  by (auto simp: loc_util_trim_space_def trim_loop_False Let_def list_all_iff dropWhile_eq_Nil_conv)

lemma rstrip_append_spaces: "list_all isspace b \<Longrightarrow> rstrip (x @ b) = rstrip x"
  by (induction x) (simp_all add: rstrip_Cons rstrip_eq_Nil)

lemma rstrip_id: "x \<noteq> [] \<Longrightarrow> \<not> isspace (last x) \<Longrightarrow> rstrip x = x"
  by (cases x rule: rev_cases) (simp_all add: rstrip_def)

lemma trim_space_padded:
  assumes "list_all isspace a" "list_all isspace b" "x \<noteq> []" "\<not> isspace (hd x)" "\<not> isspace (last x)"
  shows "loc_util_trim_space (a @ x @ b) = x"
proof -
  have "dropWhile isspace (a @ x @ b) = x @ b"
    using assms(1,3,4) by (cases x) (simp_all add: dropWhile_append2 list_all_iff)
  moreover have "\<not> list_all isspace x" using assms(3,4) by (cases x) simp_all
  ultimately show ?thesis
    using assms(2,3,5) by (simp add: trim_space_eq rstrip_append_spaces rstrip_id)
qed

section \<open>Lines\<close>

lemma strtok_split:
  assumes "d \<notin> set a" "a \<noteq> []"
  shows "strtok d (a @ d # b) = Some (a, b)"
proof -
  have ne: "\<forall>c \<in> set a. c \<noteq> d" using assms(1) by auto
  have "dropWhile (\<lambda>c. c = d) (a @ d # b) = a @ d # b" using assms by (cases a) auto
  moreover have "takeWhile (\<lambda>c. c \<noteq> d) (a @ d # b) = a" using ne by (simp add: takeWhile_append2)
  moreover have "dropWhile (\<lambda>c. c \<noteq> d) (a @ d # b) = d # b" using ne by (simp add: dropWhile_append2)
  ultimately show ?thesis by (simp add: strtok_def)
qed

lemma strtok_last:
  assumes "d \<notin> set a" "a \<noteq> []"
  shows "strtok d a = Some (a, [])"
proof -
  have ne: "\<forall>c \<in> set a. c \<noteq> d" using assms(1) by auto
  have t: "takeWhile (\<lambda>c. c \<noteq> d) a = a" using ne by (simp add: takeWhile_eq_all_conv)
  have e: "dropWhile (\<lambda>c. c \<noteq> d) a = []" using ne by (simp only: dropWhile_eq_Nil_conv)
  have f: "dropWhile (\<lambda>c. c = d) a = a" using assms by (cases a) auto
  show ?thesis using assms(2) unfolding strtok_def f Let_def t e by simp
qed

text \<open>A word: not empty, without the separator, not starting or ending with a space.\<close>

definition conf_word :: "string \<Rightarrow> bool" where
  "conf_word w \<longleftrightarrow> w \<noteq> [] \<and> CHR ''='' \<notin> set w \<and> \<not> isspace (hd w) \<and> \<not> isspace (last w)"

definition spaces :: "string \<Rightarrow> bool" where
  "spaces s \<longleftrightarrow> list_all isspace s"

lemma eq_not_space: "\<not> isspace (CHR ''='')"
  by (simp add: isspace_def)

lemma spaces_no_eq: "spaces s \<Longrightarrow> CHR ''='' \<notin> set s"
  using eq_not_space unfolding spaces_def list_all_iff by blast

text \<open>The line of a parameter: any spaces around the name and the value.\<close>

definition conf_line :: "string \<Rightarrow> string \<Rightarrow> string \<Rightarrow> string \<Rightarrow> string \<Rightarrow> string \<Rightarrow> string" where
  "conf_line a name b c val d = a @ name @ b @ CHR ''='' # c @ val @ d"

lemma fill_conf_line:
  assumes "conf_word name" "conf_word val" "spaces a" "spaces b" "spaces c" "spaces d"
  shows "loc_fill_conf_item F (Some (conf_line a name b c val d)) (Some table) st =
    set_entries table (parse_value F name val) st"
proof -
  have ne: "CHR ''='' \<notin> set a" "CHR ''='' \<notin> set b" "CHR ''='' \<notin> set c" "CHR ''='' \<notin> set d"
    "CHR ''='' \<notin> set name" "CHR ''='' \<notin> set val" "name \<noteq> []" "val \<noteq> []"
    using assms by (simp_all add: conf_word_def spaces_no_eq)
  have "strtok (CHR ''='') ((a @ name @ b) @ CHR ''='' # c @ val @ d) = Some (a @ name @ b, c @ val @ d)"
    by (rule strtok_split) (use ne in auto)
  then have "strtok (CHR ''='') (conf_line a name b c val d) = Some (a @ name @ b, c @ val @ d)"
    unfolding conf_line_def append_assoc .
  moreover have "strtok (CHR ''='') (c @ val @ d) = Some (c @ val @ d, [])"
    by (rule strtok_last) (use ne in auto)
  moreover have "loc_util_trim_space (a @ name @ b) = name" "loc_util_trim_space (c @ val @ d) = val"
    using assms by (simp_all add: trim_space_padded conf_word_def spaces_def)
  ultimately show ?thesis by (simp add: loc_fill_conf_item_def)
qed

text \<open>Only the entry of that name is touched.\<close>

lemma set_entries_other:
  "v_name v \<notin> p_name ` set es \<Longrightarrow> set_entries es v st = (0, st)"
  by (induction es) (auto simp: loc_set_config_entry_def split: option.split)

definition stored :: "loc_param \<Rightarrow> 'd conf_value \<Rightarrow> 'd pval" where
  "stored e v =
     (if p_type e = CHR ''s''
      then PStr (if v_str v = ''NULL'' then [] else strlcpy (v_str v) (LOC_MAX_PARAM_STRING + 1))
      else if p_type e = CHR ''n'' then PNum (v_int v) else PDouble (v_double v))"

lemma set_entries_one:
  assumes "distinct (map p_name es)" "e \<in> set es" "p_name e = v_name v" "p_ptr e = Some p"
    and "p_type e \<in> {CHR ''s'', CHR ''n'', CHR ''f''}"
  shows "set_entries es v st = (1, mark_set e (st\<lparr>vals := (vals st)(p \<mapsto> stored e v)\<rparr>))"
  using assms(1,2)
proof (induction es)
  case (Cons x es)
  show ?case
  proof (cases "x = e")
    case True
    with Cons.prems assms(3) have "v_name v \<notin> p_name ` set es" by auto
    with True assms(3-5) show ?thesis
      by (auto simp: set_entries_other loc_set_config_entry_def stored_def fun_upd_def)
  next
    case False
    with Cons.prems have e: "e \<in> set es" and d: "distinct (map p_name es)" by auto
    have "p_name e \<in> p_name ` set es" using e by blast
    then have "p_name x \<noteq> v_name v" using Cons.prems(1) assms(3) by auto
    with Cons.IH [OF d e] show ?thesis by (simp add: loc_set_config_entry_def split: option.split)
  qed
qed simp

section \<open>Decimal numbers\<close>

definition dec_int :: "int \<Rightarrow> string" where
  "dec_int i = (if i < 0 then CHR ''-'' # dec (nat (- i)) else dec (nat i))"

definition is_digit :: "char \<Rightarrow> bool" where
  "is_digit c \<longleftrightarrow> 48 \<le> (of_char c :: nat) \<and> (of_char c :: nat) \<le> 57"

lemma digit_char: "k < 10 \<Longrightarrow> is_digit (char_of (48 + k)) \<and> digit_of (char_of (48 + k)) = Some (int k)"
proof -
  assume k: "k < 10"
  then have "k \<in> {0, 1, 2, 3, 4, 5, 6, 7, 8, 9}" by auto
  then show ?thesis by (auto simp: is_digit_def digit_of_def)
qed

lemma is_digit_not: "is_digit c \<Longrightarrow> \<not> isspace c \<and> c \<noteq> CHR ''='' \<and> c \<noteq> CHR ''-'' \<and> c \<noteq> CHR ''+'' \<and> \<not> is_x c"
  by (auto simp: is_digit_def isspace_def is_x_def)

lemma dec_nonempty [simp]: "dec n \<noteq> []"
  by (subst dec.simps) simp

lemma dec_digits: "list_all is_digit (dec n)"
proof (induction n rule: dec.induct)
  case (1 n)
  then show ?case by (subst dec.simps) (simp add: digit_char)
qed

lemma strtol_dec: "strtol_digits 10 acc (dec n @ cs) = strtol_digits 10 (acc * 10 ^ length (dec n) + int n) cs"
proof (induction n arbitrary: acc cs rule: dec.induct)
  case (1 n)
  show ?case
  proof (cases "n < 10")
    case True
    then have "dec n = [char_of (48 + n)]" by (subst dec.simps) simp
    with True show ?thesis by (simp add: digit_char)
  next
    case False
    then have d: "dec n = dec (n div 10) @ [char_of (48 + n mod 10)]" by (subst dec.simps) simp
    have "int n = int (n div 10) * 10 + int (n mod 10)" by presburger
    with "1.IH" [OF False] show ?thesis
      unfolding d by (simp add: digit_char algebra_simps)
  qed
qed

lemma atoi_dec_int:
  assumes "- (2 ^ 31) \<le> i" "i < 2 ^ 31"
  shows "atoi (dec_int i) = word_of_int i"
proof -
  have digits: "strtol_digits 10 0 (dec n) = int n" for n
    using strtol_dec [of 0 n "[]"] by simp
  have "strtol 10 (dec_int i) = max (- (2 ^ 63)) (min i (2 ^ 63 - 1))"
  proof (cases "i < 0")
    case True
    then show ?thesis by (simp add: strtol_def dec_int_def isspace_def digits)
  next
    case False
    obtain c cs where c: "dec (nat i) = c # cs" "is_digit c"
      using dec_digits [of "nat i"] by (cases "dec (nat i)") auto
    with is_digit_not [OF c(2)] False digits [of "nat i"] show ?thesis
      by (simp add: strtol_def dec_int_def)
  qed
  with assms show ?thesis by (simp add: atoi_def)
qed

lemma dec_ends: "is_digit (last (dec n))" "is_digit (hd (dec n))"
  using dec_digits [of n] by (simp_all add: list_all_iff)

lemma dec_int_chars: "is_digit (last (dec_int i))"
  "hd (dec_int i) = CHR ''-'' \<or> is_digit (hd (dec_int i))" "CHR ''='' \<notin> set (dec_int i)" "dec_int i \<noteq> []"
proof -
  show "is_digit (last (dec_int i))" "hd (dec_int i) = CHR ''-'' \<or> is_digit (hd (dec_int i))" "dec_int i \<noteq> []"
    using dec_ends by (simp_all add: dec_int_def)
  have "CHR ''='' \<notin> set (dec n)" for n
    using dec_digits [of n] is_digit_not unfolding list_all_iff by blast
  then show "CHR ''='' \<notin> set (dec_int i)" by (simp add: dec_int_def)
qed

lemma dec_int_word: "conf_word (dec_int i)"
proof -
  have "\<not> isspace (CHR ''-'')" by (simp add: isspace_def)
  then have "\<not> isspace (hd (dec_int i))" using dec_int_chars(2) [of i] is_digit_not by metis
  moreover have "\<not> isspace (last (dec_int i))" using dec_int_chars(1) [of i] is_digit_not by simp
  ultimately show ?thesis using dec_int_chars(3,4) by (simp add: conf_word_def)
qed

lemma dec_int_not_hex: "\<not> (3 \<le> length (dec_int i) \<and> dec_int i ! 0 = CHR ''0'' \<and> is_x (dec_int i ! 1))"
proof (cases "i < 0")
  case False
  have "\<forall>c \<in> set (dec (nat i)). \<not> is_x c" using dec_digits [of "nat i"] is_digit_not by (auto simp: list_all_iff)
  then show ?thesis using False nth_mem [of 1 "dec (nat i)"] by (auto simp: dec_int_def)
qed (simp add: dec_int_def)

text \<open>A numeric parameter printed in decimal on a line of its own, with any white space around the name
  and the value, is read back: exactly the entry of that name gets the number and its validity mark, and the
  line counts as one record.\<close>

theorem conf_number_roundtrip:
  assumes "conf_word (p_name e)" "spaces a" "spaces b" "spaces c" "spaces d"
    and "distinct (map p_name table)" "e \<in> set table" "p_type e = CHR ''n''" "p_ptr e = Some p"
    and "- (2 ^ 31) \<le> i" "i < 2 ^ 31"
  shows "loc_fill_conf_item F (Some (conf_line a (p_name e) b c (dec_int i) d)) (Some table) st =
    (1, mark_set e (st\<lparr>vals := (vals st)(p \<mapsto> PNum (word_of_int i))\<rparr>))"
proof -
  let ?v = "parse_value F (p_name e) (dec_int i)"
  have "v_name ?v = p_name e" "v_int ?v = word_of_int i"
    using atoi_dec_int [OF assms(10,11)] dec_int_not_hex [of i] by (simp_all only: parse_value_def if_False conf_value.simps)
  then show ?thesis
    using assms(8,9) set_entries_one [of table e ?v p st] assms(6,7)
    by (simp add: fill_conf_line [OF assms(1) dec_int_word assms(2-5)] stored_def)
qed

theorem conf_number_roundtrip_witness:
  "\<exists>e :: loc_param. \<exists>st' :: nat conf_store. loc_fill_conf_item \<lparr>atof = \<lambda>_. 0, fzero = 0\<rparr>
     (Some (conf_line [] (p_name e) [CHR '' ''] [CHR '' ''] ''-170'' [CHR 0x0A])) (Some [e])
     \<lparr>vals = Map.empty, sets = \<lambda>_. False\<rparr> = (1, st') \<and>
     vals st' 0 = Some (PNum (word_of_int (-170))) \<and> sets st' 7"
proof -
  let ?e = "\<lparr>p_name = ''XTRA'', p_ptr = Some 0, p_set = Some 7, p_type = CHR ''n''\<rparr>"
  have "dec_int (-170) = ''-170''" by code_simp
  then have "loc_fill_conf_item \<lparr>atof = \<lambda>_. 0, fzero = 0 :: nat\<rparr>
     (Some (conf_line [] (p_name ?e) [CHR '' ''] [CHR '' ''] ''-170'' [CHR 0x0A])) (Some [?e])
     \<lparr>vals = Map.empty, sets = \<lambda>_. False\<rparr> =
     (1, mark_set ?e (\<lparr>vals = Map.empty, sets = \<lambda>_. False\<rparr>\<lparr>vals := Map.empty(0 \<mapsto> PNum (word_of_int (-170)))\<rparr>))"
    using conf_number_roundtrip [of ?e "[]" "[CHR '' '']" "[CHR '' '']" "[CHR 0x0A]" "[?e]" 0 "-170"
        "\<lparr>atof = \<lambda>_. 0, fzero = 0 :: nat\<rparr>" "\<lparr>vals = Map.empty, sets = \<lambda>_. False\<rparr>"]
    by (simp add: conf_word_def spaces_def isspace_def)
  then show ?thesis by (intro exI conjI) (assumption, simp_all add: mark_set_def)
qed

section \<open>Splitting\<close>

text \<open>The reference: the pieces between all delimiters, and what joining them gives.\<close>

fun pieces :: "char \<Rightarrow> string \<Rightarrow> string list" where
  "pieces d [] = [[]]"
| "pieces d (c # cs) = (if c = d then [] # pieces d cs else (c # hd (pieces d cs)) # tl (pieces d cs))"

fun joined :: "char \<Rightarrow> string list \<Rightarrow> string" where
  "joined d [] = []"
| "joined d [p] = p"
| "joined d (p # ps) = p @ d # joined d ps"

lemma pieces_nonempty [simp]: "pieces d s \<noteq> []"
  by (cases s) auto

lemma split_loop_pieces:
  "split_loop n d cur s = take (max 1 n) ((cur @ hd (pieces d s)) # tl (pieces d s))"
proof (induction n d cur s rule: split_loop.induct)
  case (2 n d cur c cs)
  show ?case
  proof (cases "c = d \<and> 1 < n")
    case True
    then have c: "c = d" and n: "1 < n" by simp_all
    have IH: "split_loop (n - 1) d [] cs = take (max 1 (n - 1)) (pieces d cs)"
      using "2.IH"(1) [OF c n] by simp
    have "take (max 1 n) (cur # pieces d cs) = cur # take (max 1 (n - 1)) (pieces d cs)"
      using n by (cases n) (auto simp: max_def Suc_le_eq)
    with c n IH show ?thesis by (simp only: split_loop.simps pieces.simps if_True list.sel append_Nil2 simp_thms)
  next
    case False
    show ?thesis
    proof (cases "c = d")
      case True
      with False have "max 1 n = 1" by simp
      with True False show ?thesis by simp
    next
      case c: False
      from "2.IH"(2) [OF c] c show ?thesis by simp
    qed
  qed
qed (simp add: max_def)

lemma joined_Cons: "ps \<noteq> [] \<Longrightarrow> joined d (p # ps) = p @ d # joined d ps"
  by (cases ps) simp_all

lemma joined_head: "ps \<noteq> [] \<Longrightarrow> joined d ((c # hd ps) # tl ps) = c # joined d ps"
  by (cases ps; cases "tl ps") simp_all

lemma joined_pieces: "joined d (pieces d s) = s"
  by (induction s) (simp_all add: joined_Cons joined_head)

lemma pieces_no_delimiter: "d \<notin> \<Union> (set ` set (pieces d s))"
proof (induction s)
  case (Cons c cs)
  then show ?case by (cases "pieces d cs") auto
qed simp

text \<open>Splitting a string returns the first pieces between the delimiters, at most the number asked for and
  at least one; the pieces contain no delimiter, and all of them joined by it are the string again.\<close>

theorem split_string_reference:
  "loc_util_split_string raw n d = take (max 1 n) (pieces d raw) \<and>
   joined d (pieces d raw) = raw \<and> d \<notin> \<Union> (set ` set (pieces d raw))"
  using split_loop_pieces [of n d "[]" raw] pieces_no_delimiter [of d raw]
  unfolding loc_util_split_string_def joined_pieces by simp

section \<open>Updating a table from a buffer\<close>

text \<open>
  The count of the parameters still expected starts one too low: a table of one entry is never updated,
  and the call reports success.
\<close>

lemma one_entry_never_updated:
  "len \<noteq> 0 \<Longrightarrow> loc_update_conf F (Some dat) len (Some [e]) 1 True st = (0, st)"
  by (cases "strtok (CHR 0x0A) (take len dat)") (auto simp: loc_update_conf_def)

text \<open>Trimming leaves a string of white space as it is.\<close>

lemma trim_keeps_blank: "list_all isspace s \<Longrightarrow> loc_util_trim_space s = s"
  by (simp add: trim_space_eq)

end
