(* ===== verification/Loc_Process_Conf.thy ===== *)
theory Loc_Process_Conf
  imports Loc_Cfg
begin

text \<open>
  The launcher's process list: loc_read_process_conf of gps/utils/loc_cfg.cpp. It reads gps.conf and
  the feature modes into the static structure \<open>conf\<close>, derives the service mask from the modes,
  counts the PROCESS_NAME lines, reads the file again block by block and decides for every process
  whether it is launched on this device and with which arguments. getpwnam and the three device names
  are parameters. The buffers of the structure are taken as large enough for a value of 80 characters.
\<close>

unbundle bit_operations_syntax

section \<open>The structure conf and its tables\<close>

text \<open>Destinations of the parameter tables: the members of conf.\<close>

abbreviation (input) at_proc_name :: nat where "at_proc_name \<equiv> 0"
abbreviation (input) at_proc_argument :: nat where "at_proc_argument \<equiv> 1"
abbreviation (input) at_proc_status :: nat where "at_proc_status \<equiv> 2"
abbreviation (input) at_group_list :: nat where "at_group_list \<equiv> 3"
abbreviation (input) at_premium_feature :: nat where "at_premium_feature \<equiv> 4"
abbreviation (input) at_loc_feature_mask :: nat where "at_loc_feature_mask \<equiv> 5"
abbreviation (input) at_platform_list :: nat where "at_platform_list \<equiv> 6"
abbreviation (input) at_baseband :: nat where "at_baseband \<equiv> 7"
abbreviation (input) at_sglte_target :: nat where "at_sglte_target \<equiv> 8"
abbreviation (input) at_gtp_cell_proc :: nat where "at_gtp_cell_proc \<equiv> 9"
abbreviation (input) at_gtp_waa :: nat where "at_gtp_waa \<equiv> 10"
abbreviation (input) at_gtp_cell :: nat where "at_gtp_cell \<equiv> 11"
abbreviation (input) at_gtp_wifi :: nat where "at_gtp_wifi \<equiv> 12"
abbreviation (input) at_sap :: nat where "at_sap \<equiv> 13"
abbreviation (input) at_odcpi :: nat where "at_odcpi \<equiv> 14"
abbreviation (input) at_free_wifi_scan_inject :: nat where "at_free_wifi_scan_inject \<equiv> 15"
abbreviation (input) at_supl_wifi :: nat where "at_supl_wifi \<equiv> 16"
abbreviation (input) at_wifi_supplicant_info :: nat where "at_wifi_supplicant_info \<equiv> 17"
abbreviation (input) at_auto_platform :: nat where "at_auto_platform \<equiv> 18"
abbreviation (input) at_DEBUG_LEVEL :: nat where "at_DEBUG_LEVEL \<equiv> 19"
abbreviation (input) at_TIMESTAMP :: nat where "at_TIMESTAMP \<equiv> 20"
abbreviation (input) at_LOC_MODEM_EMULATOR :: nat where "at_LOC_MODEM_EMULATOR \<equiv> 21"

record loc_launcher_conf =
  proc_name :: string
  proc_argument :: string
  proc_state :: string
  group_names :: string
  premium_feature :: "32 word"
  loc_feature_mask :: "32 word"
  platform_list :: string
  baseband :: string
  sglte_target :: "32 word"
  auto_platform :: string

definition param :: "string \<Rightarrow> nat \<Rightarrow> char \<Rightarrow> loc_param" where
  "param name p t = \<lparr>p_name = name, p_ptr = Some p, p_set = None, p_type = t\<rparr>"

definition loc_param_table :: "loc_param list" where
  "loc_param_table =
     [param ''DEBUG_LEVEL'' at_DEBUG_LEVEL CHR ''n'', param ''TIMESTAMP'' at_TIMESTAMP CHR ''n'',
      param ''LOC_MODEM_EMULATOR'' at_LOC_MODEM_EMULATOR CHR ''n'']"

definition gps_conf_parameter_table :: "loc_param list" where
  "gps_conf_parameter_table = [param ''SGLTE_TARGET'' at_sglte_target CHR ''n'']"

definition loc_feature_conf_table :: "loc_param list" where
  "loc_feature_conf_table =
     [param ''GTP_CELL_PROC'' at_gtp_cell_proc CHR ''s'', param ''GTP_CELL'' at_gtp_cell CHR ''s'',
      param ''GTP_WIFI'' at_gtp_wifi CHR ''s'', param ''GTP_WAA'' at_gtp_waa CHR ''s'',
      param ''SAP'' at_sap CHR ''s'', param ''ODCPI'' at_odcpi CHR ''s'',
      param ''FREE_WIFI_SCAN_INJECT'' at_free_wifi_scan_inject CHR ''s'',
      param ''SUPL_WIFI'' at_supl_wifi CHR ''s'',
      param ''WIFI_SUPPLICANT_INFO'' at_wifi_supplicant_info CHR ''s'']"

definition loc_process_conf_parameter_table :: "loc_param list" where
  "loc_process_conf_parameter_table =
     [param ''PROCESS_NAME'' at_proc_name CHR ''s'', param ''PROCESS_ARGUMENT'' at_proc_argument CHR ''s'',
      param ''PROCESS_STATE'' at_proc_status CHR ''s'', param ''PROCESS_GROUPS'' at_group_list CHR ''s'',
      param ''PREMIUM_FEATURE'' at_premium_feature CHR ''n'',
      param ''IZAT_FEATURE_MASK'' at_loc_feature_mask CHR ''n'',
      param ''PLATFORMS'' at_platform_list CHR ''s'', param ''BASEBAND'' at_baseband CHR ''s'',
      param ''HARDWARE_TYPE'' at_auto_platform CHR ''s'']"

text \<open>A member that was never set is the zero of static memory.\<close>

definition str_at :: "'d conf_store \<Rightarrow> nat \<Rightarrow> string" where
  "str_at st p = (case vals st p of Some (PStr s) \<Rightarrow> s | _ \<Rightarrow> [])"

definition num_at :: "'d conf_store \<Rightarrow> nat \<Rightarrow> 32 word" where
  "num_at st p = (case vals st p of Some (PNum n) \<Rightarrow> n | _ \<Rightarrow> 0)"

definition put_str :: "nat \<Rightarrow> string \<Rightarrow> 'd conf_store \<Rightarrow> 'd conf_store" where
  "put_str p s st = st\<lparr>vals := (vals st)(p \<mapsto> PStr s)\<rparr>"

definition conf_of :: "'d conf_store \<Rightarrow> loc_launcher_conf" where
  "conf_of st =
     \<lparr>proc_name = str_at st at_proc_name, proc_argument = str_at st at_proc_argument,
      proc_state = str_at st at_proc_status, group_names = str_at st at_group_list,
      premium_feature = num_at st at_premium_feature, loc_feature_mask = num_at st at_loc_feature_mask,
      platform_list = str_at st at_platform_list, baseband = str_at st at_baseband,
      sglte_target = num_at st at_sglte_target, auto_platform = str_at st at_auto_platform\<rparr>"

section \<open>The service mask\<close>

abbreviation (input) MASK_GTP_WIFI_BASIC :: "32 word" where "MASK_GTP_WIFI_BASIC \<equiv> 0x01"
abbreviation (input) MASK_GTP_WIFI_PREMIUM :: "32 word" where "MASK_GTP_WIFI_PREMIUM \<equiv> 0x02"
abbreviation (input) MASK_GTP_AP_CELL_BASIC :: "32 word" where "MASK_GTP_AP_CELL_BASIC \<equiv> 0x04"
abbreviation (input) MASK_GTP_AP_CELL_PREMIUM :: "32 word" where "MASK_GTP_AP_CELL_PREMIUM \<equiv> 0x08"
abbreviation (input) MASK_SAP_BASIC :: "32 word" where "MASK_SAP_BASIC \<equiv> 0x40"
abbreviation (input) MASK_SAP_PREMIUM :: "32 word" where "MASK_SAP_PREMIUM \<equiv> 0x80"
abbreviation (input) MASK_GTP_WAA_BASIC :: "32 word" where "MASK_GTP_WAA_BASIC \<equiv> 0x100"
abbreviation (input) MASK_GTP_WAA_PREMIUM :: "32 word" where "MASK_GTP_WAA_PREMIUM \<equiv> 0x200"
abbreviation (input) MASK_GTP_MODEM_CELL_BASIC :: "32 word" where "MASK_GTP_MODEM_CELL_BASIC \<equiv> 0x400"
abbreviation (input) MASK_GTP_MODEM_CELL_PREMIUM :: "32 word" where "MASK_GTP_MODEM_CELL_PREMIUM \<equiv> 0x800"
abbreviation (input) MASK_ODCPI :: "32 word" where "MASK_ODCPI \<equiv> 0x1000"
abbreviation (input) MASK_FREE_WIFI_SCAN_INJECT :: "32 word" where "MASK_FREE_WIFI_SCAN_INJECT \<equiv> 0x2000"
abbreviation (input) MASK_SUPL_WIFI :: "32 word" where "MASK_SUPL_WIFI \<equiv> 0x4000"
abbreviation (input) MASK_WIFI_SUPPLICANT_INFO :: "32 word" where "MASK_WIFI_SUPPLICANT_INFO \<equiv> 0x8000"

definition gtp_wifi_mask :: "string \<Rightarrow> 32 word" where
  "gtp_wifi_mask mode =
     (if mode = ''DISABLED'' then 0 else if mode = ''BASIC'' then MASK_GTP_WIFI_BASIC else MASK_GTP_WIFI_BASIC)"

definition gtp_cell_mask :: "string \<Rightarrow> string \<Rightarrow> 32 word" where
  "gtp_cell_mask cell_proc mode =
     (let gtp_cell_ap_enabled = (cell_proc = ''AP'');
          basic = (if gtp_cell_ap_enabled then MASK_GTP_AP_CELL_BASIC else MASK_GTP_MODEM_CELL_BASIC)
      in if mode = ''PREMIUM'' then basic
         else if mode = ''BASIC'' then basic
         else if mode = ''DISABLED'' then 0
         else basic)"

definition gtp_waa_mask :: "string \<Rightarrow> 32 word" where
  "gtp_waa_mask mode =
     (if mode = ''PREMIUM'' then MASK_GTP_WAA_BASIC else if mode = ''BASIC'' then MASK_GTP_WAA_BASIC else 0)"

definition sap_mask :: "string \<Rightarrow> 32 word" where
  "sap_mask mode =
     (if mode = ''PREMIUM'' then MASK_SAP_PREMIUM else if mode = ''BASIC'' then MASK_SAP_BASIC
      else if mode = ''DISABLED'' then 0 else MASK_SAP_BASIC)"

definition optional_mask :: "32 word \<Rightarrow> string \<Rightarrow> 32 word" where
  "optional_mask b mode =
     (if mode = ''BASIC'' then b else if mode = ''DISABLED'' then 0 else if mode = ''PREMIUM'' then b else 0)"

definition loc_service_mask :: "'d conf_store \<Rightarrow> 32 word" where
  "loc_service_mask st =
     gtp_wifi_mask (str_at st at_gtp_wifi) OR
     gtp_cell_mask (str_at st at_gtp_cell_proc) (str_at st at_gtp_cell) OR
     gtp_waa_mask (str_at st at_gtp_waa) OR
     sap_mask (str_at st at_sap) OR
     optional_mask MASK_ODCPI (str_at st at_odcpi) OR
     optional_mask MASK_FREE_WIFI_SCAN_INJECT (str_at st at_free_wifi_scan_inject) OR
     optional_mask MASK_SUPL_WIFI (str_at st at_supl_wifi) OR
     optional_mask MASK_WIFI_SUPPLICANT_INFO (str_at st at_wifi_supplicant_info)"

section \<open>Which devices a process is for\<close>

abbreviation (input) TARGET_ALL :: "8 word" where "TARGET_ALL \<equiv> 0x01"
abbreviation (input) TARGET_FOUND :: "8 word" where "TARGET_FOUND \<equiv> 0x02"
abbreviation (input) TARGET_CHECK :: "8 word" where "TARGET_CHECK \<equiv> 0x03"
abbreviation (input) BASEBAND_ALL :: "8 word" where "BASEBAND_ALL \<equiv> 0x04"
abbreviation (input) BASEBAND_FOUND :: "8 word" where "BASEBAND_FOUND \<equiv> 0x08"
abbreviation (input) BASEBAND_CHECK :: "8 word" where "BASEBAND_CHECK \<equiv> 0x0c"
abbreviation (input) AUTOPLATFORM_ALL :: "8 word" where "AUTOPLATFORM_ALL \<equiv> 0x10"
abbreviation (input) AUTOPLATFORM_FOUND :: "8 word" where "AUTOPLATFORM_FOUND \<equiv> 0x20"
abbreviation (input) AUTOPLATFORM_CHECK :: "8 word" where "AUTOPLATFORM_CHECK \<equiv> 0x30"

abbreviation (input) MAX_NUM_STRINGS :: nat where "MAX_NUM_STRINGS \<equiv> 20"

fun exclude_loop :: "string \<Rightarrow> 8 word \<Rightarrow> string list \<Rightarrow> 8 word \<Rightarrow> 8 word" where
  "exclude_loop name found [] config_mask = config_mask"
| "exclude_loop name found (s # ss) config_mask =
     (if name = s then config_mask AND NOT found else exclude_loop name found ss config_mask)"

fun found_loop :: "(string \<Rightarrow> bool) \<Rightarrow> 8 word \<Rightarrow> string list \<Rightarrow> 8 word \<Rightarrow> 8 word" where
  "found_loop matches found [] config_mask = config_mask"
| "found_loop matches found (s # ss) config_mask =
     (if matches s then config_mask OR found else found_loop matches found ss config_mask)"

text \<open>The blocks for PLATFORMS and BASEBAND have the same shape.\<close>

definition select_strings ::
  "string \<Rightarrow> (string \<Rightarrow> bool) \<Rightarrow> 8 word \<Rightarrow> 8 word \<Rightarrow> string list \<Rightarrow> 8 word \<Rightarrow> 8 word" where
  "select_strings name matches all_bit found split_strings config_mask =
     (let nstrings = length split_strings
      in if split_strings ! 0 = ''all''
         then if nstrings = 1 \<or> (nstrings = 2 \<and> split_strings ! 1 = ''exclude'')
              then config_mask OR all_bit
              else if 2 < nstrings \<and> split_strings ! 1 = ''exclude''
              then exclude_loop name found (drop 2 split_strings) (config_mask OR found)
              else config_mask
         else found_loop matches found split_strings config_mask)"

definition select_auto :: "string \<Rightarrow> string list \<Rightarrow> 8 word \<Rightarrow> 8 word" where
  "select_auto name split_strings config_mask =
     (if split_strings ! 0 = ''all'' then config_mask OR AUTOPLATFORM_ALL
      else found_loop (\<lambda>s. name = s) AUTOPLATFORM_FOUND split_strings config_mask)"

record device =
  platform_name :: string
  baseband_name :: string
  autoplatform_name :: string
  getpwnam :: "string \<Rightarrow> nat option"

definition config_mask_of :: "device \<Rightarrow> loc_launcher_conf \<Rightarrow> 8 word" where
  "config_mask_of dev conf =
     select_auto (autoplatform_name dev) (loc_util_split_string (auto_platform conf) MAX_NUM_STRINGS CHR '' '')
       (select_strings (baseband_name dev)
          (\<lambda>s. baseband_name dev = s \<or> (s = ''sglte'' \<and> sglte_target conf \<noteq> 0)) BASEBAND_ALL BASEBAND_FOUND
          (loc_util_split_string (baseband conf) MAX_NUM_STRINGS CHR '' '')
          (select_strings (platform_name dev) (\<lambda>s. platform_name dev = s) TARGET_ALL TARGET_FOUND
             (loc_util_split_string (platform_list conf) MAX_NUM_STRINGS CHR '' '') 0))"

section \<open>One process\<close>

datatype loc_process_e_status = ENABLED | RUNNING | DISABLED | DISABLED_FROM_CONF

abbreviation (input) MAX_NUM_GROUPS :: nat where "MAX_NUM_GROUPS \<equiv> 20"
abbreviation (input) MAX_NUM_ARGS :: nat where "MAX_NUM_ARGS \<equiv> 25"
abbreviation (input) MAX_ARG_STR_LENGTH :: nat where "MAX_ARG_STR_LENGTH \<equiv> 32"

record loc_process_info =
  proc_status :: loc_process_e_status
  name0 :: string
  group_list :: "nat list"
  num_groups :: "8 word"
  args :: "string list"
  argumentString :: string

definition new_process :: loc_process_info where
  "new_process =
     \<lparr>proc_status = DISABLED, name0 = [], group_list = replicate MAX_NUM_GROUPS 0, num_groups = 0,
      args = replicate MAX_NUM_ARGS [], argumentString = []\<rparr>"

fun group_loop :: "(string \<Rightarrow> nat option) \<Rightarrow> nat \<Rightarrow> string list \<Rightarrow> loc_process_info \<Rightarrow> loc_process_info" where
  "group_loop pwnam i [] info = info"
| "group_loop pwnam i (s # ss) info =
     group_loop pwnam (i + 1) ss
       (case pwnam s of
          None \<Rightarrow> info
        | Some gid \<Rightarrow> info\<lparr>group_list := (group_list info)[i := gid], num_groups := num_groups info + 1\<rparr>)"

definition strlcat :: "string \<Rightarrow> string \<Rightarrow> nat \<Rightarrow> string" where
  "strlcat dst src n = take (n - 1) (dst @ src)"

text \<open>strlcpy into args[i++].\<close>

definition put_arg :: "string \<Rightarrow> nat \<times> loc_process_info \<Rightarrow> nat \<times> loc_process_info" where
  "put_arg s = (\<lambda>(i, info). (i + 1, info\<lparr>args := (args info)[i := strlcpy s MAX_ARG_STR_LENGTH]\<rparr>))"

definition put_pair :: "string \<Rightarrow> string \<Rightarrow> nat \<times> loc_process_info \<Rightarrow> nat \<times> loc_process_info" where
  "put_pair a b = put_arg b \<circ> put_arg a"

definition feature_arg :: "string \<Rightarrow> string" where
  "feature_arg feature = strlcat ''--'' feature (MAX_ARG_STR_LENGTH - 3)"

definition mode_args ::
  "string \<Rightarrow> 32 word \<Rightarrow> 32 word \<Rightarrow> 32 word \<Rightarrow> 32 word \<Rightarrow> nat \<times> loc_process_info \<Rightarrow> nat \<times> loc_process_info" where
  "mode_args feature basic premium proc_mask service_mask acc =
     (if proc_mask AND (basic OR premium) = 0 then acc
      else if service_mask AND basic \<noteq> 0 then put_pair (feature_arg feature) ''BASIC'' acc
      else if service_mask AND premium \<noteq> 0 then put_pair (feature_arg feature) ''PREMIUM'' acc
      else put_pair (feature_arg feature) ''DISABLED'' acc)"

definition cell_args :: "32 word \<Rightarrow> 32 word \<Rightarrow> nat \<times> loc_process_info \<Rightarrow> nat \<times> loc_process_info" where
  "cell_args proc_mask service_mask acc =
     (let ap = feature_arg ''gtp-ap-cell''; modem = feature_arg ''gtp-modem-cell''
      in if proc_mask AND (MASK_GTP_AP_CELL_BASIC OR MASK_GTP_AP_CELL_PREMIUM) = 0 then acc
         else if service_mask AND MASK_GTP_AP_CELL_BASIC \<noteq> 0
         then put_pair modem ''DISABLED'' (put_pair ap ''BASIC'' acc)
         else if service_mask AND MASK_GTP_AP_CELL_PREMIUM \<noteq> 0
         then put_pair modem ''DISABLED'' (put_pair ap ''PREMIUM'' acc)
         else if service_mask AND MASK_GTP_MODEM_CELL_BASIC \<noteq> 0
         then put_pair ap ''DISABLED'' (put_pair modem ''BASIC'' acc)
         else if service_mask AND MASK_GTP_MODEM_CELL_PREMIUM \<noteq> 0
         then put_pair ap ''DISABLED'' (put_pair modem ''PREMIUM'' acc)
         else put_pair modem ''DISABLED'' (put_pair ap ''DISABLED'' acc))"

definition set_proc_status :: "loc_process_e_status \<Rightarrow> nat \<times> loc_process_info \<Rightarrow> nat \<times> loc_process_info" where
  "set_proc_status s = (\<lambda>(i, info). (i, info\<lparr>proc_status := s\<rparr>))"

definition feature_args :: "32 word \<Rightarrow> loc_launcher_conf \<Rightarrow> nat \<times> loc_process_info \<Rightarrow> nat \<times> loc_process_info" where
  "feature_args service_mask conf acc =
     (if premium_feature conf \<noteq> 0
      then if loc_feature_mask conf AND service_mask \<noteq> 0
           then let pm = loc_feature_mask conf;
                    acc = set_proc_status ENABLED acc;
                    acc = mode_args ''gtp-wifi'' MASK_GTP_WIFI_BASIC MASK_GTP_WIFI_PREMIUM pm service_mask acc;
                    acc = cell_args pm service_mask acc;
                    acc = mode_args ''gtp-waa'' MASK_GTP_WAA_BASIC MASK_GTP_WAA_PREMIUM pm service_mask acc
                in mode_args ''sap'' MASK_SAP_BASIC MASK_SAP_PREMIUM pm service_mask acc
           else acc
      else set_proc_status ENABLED acc)"

text \<open>The name after its last slash, when it starts with one.\<close>

definition program_name :: "string \<Rightarrow> string" where
  "program_name name =
     (if take 1 name = ''/'' then rev (takeWhile (\<lambda>c. c \<noteq> CHR ''/'') (rev name)) else name)"

text \<open>The argument string keeps its first token: the split replaces the delimiters by NUL.\<close>

definition conf_args :: "string \<Rightarrow> nat \<times> loc_process_info \<Rightarrow> loc_process_info" where
  "conf_args argument =
     (\<lambda>(i, info).
        if argument = [] then info
        else let as = loc_util_split_string (strlcpy argument LOC_MAX_PARAM_STRING) (MAX_NUM_ARGS - i) CHR '' '';
                 (_, info) = fold put_arg as (i, info)
             in info\<lparr>argumentString := hd as\<rparr>)"

text \<open>
  The body of the loop over the processes, after the block was read. The second component tells
  whether the lists of conf were split in place.
\<close>

definition process_entry :: "device \<Rightarrow> 32 word \<Rightarrow> loc_launcher_conf \<Rightarrow> loc_process_info \<times> bool" where
  "process_entry dev service_mask conf =
     (if proc_name conf = [] \<or> group_names conf = [] \<or> platform_list conf = [] \<or> baseband conf = [] \<or>
         proc_state conf = [] \<or> auto_platform conf = []
      then (new_process, False)
      else if proc_state conf = ''DISABLED'' then (new_process\<lparr>proc_status := DISABLED_FROM_CONF\<rparr>, False)
      else if LOC_MAX_PARAM_STRING < length (proc_name conf) + 1 then (new_process, False)
      else let info = new_process\<lparr>name0 := strlcpy (proc_name conf) LOC_MAX_PARAM_STRING\<rparr>;
               info = group_loop (getpwnam dev) 0
                        (loc_util_split_string (group_names conf) MAX_NUM_STRINGS CHR '' '') info;
               m = config_mask_of dev conf
           in if m AND TARGET_CHECK \<noteq> 0 \<and> m AND BASEBAND_CHECK \<noteq> 0 \<and> m AND AUTOPLATFORM_CHECK \<noteq> 0 \<and>
                 proc_status info \<noteq> DISABLED_FROM_CONF
              then (conf_args (proc_argument conf)
                      (feature_args service_mask conf (put_arg (program_name (name0 info)) (0, info))), True)
              else (info, True))"

definition split_first :: "string \<Rightarrow> string" where
  "split_first s = hd (loc_util_split_string s MAX_NUM_STRINGS CHR '' '')"

definition split_in_place :: "'d conf_store \<Rightarrow> 'd conf_store" where
  "split_in_place st =
     (let cut = (\<lambda>p st. put_str p (split_first (str_at st p)) st)
      in cut at_auto_platform (cut at_baseband (cut at_platform_list (cut at_group_list st))))"

section \<open>The whole file\<close>

text \<open>
  The counting loop runs until a read finds no name; proc_list_length is an unsigned char. The result
  is None if the loop does not return, Some None on its error exit.
\<close>

partial_function (option) count_loop ::
  "'d fp \<Rightarrow> string option \<Rightarrow> 8 word \<Rightarrow> 'd conf_store \<Rightarrow> (8 word \<times> 'd conf_store) option option" where
  "count_loop F conf_fp n st =
     (let st = put_str at_proc_name [] st;
          (r, conf_fp, st) = loc_read_conf_r F conf_fp (Some loc_process_conf_parameter_table) 1 st
      in if r \<noteq> 0 then Some None
         else if str_at st at_proc_name = [] then Some (Some (n, st))
         else count_loop F conf_fp (n + 1) st)"

declare count_loop.simps [code]

fun block_loop :: "nat \<Rightarrow> 'd fp \<Rightarrow> device \<Rightarrow> 32 word \<Rightarrow> string option \<Rightarrow> loc_process_info list \<Rightarrow> 'd conf_store \<Rightarrow>
    (loc_process_info list \<times> 'd conf_store) option" where
  "block_loop 0 F dev service_mask conf_fp done_procs st = Some (done_procs, st)"
| "block_loop (Suc n) F dev service_mask conf_fp done_procs st =
     (let (r, conf_fp, st) = loc_read_conf_r F conf_fp (Some loc_process_conf_parameter_table)
                               (of_nat (length loc_process_conf_parameter_table)) st
      in if r \<noteq> 0 then None
         else let (info, cut) = process_entry dev service_mask (conf_of st)
              in block_loop n F dev service_mask conf_fp (done_procs @ [info])
                   (if cut then split_in_place st else st))"

text \<open>
  \<open>gps_conf\<close> and \<open>file\<close> are the contents of the two files, None when they cannot be opened; \<open>alloc\<close>
  tells whether calloc returned a block. The outputs are None when the pointers for them are NULL;
  the outer None is a call that does not return.
\<close>

definition loc_read_process_conf ::
  "'d fp \<Rightarrow> device \<Rightarrow> string option \<Rightarrow> string option \<Rightarrow> bool \<Rightarrow> bool \<Rightarrow> 'd conf_store \<Rightarrow>
   (int \<times> (8 word \<times> loc_process_info list option) option \<times> 'd conf_store) option" where
  "loc_read_process_conf F dev gps_conf file pointers alloc st =
     (if \<not> pointers then Some (-1, None, st)
      else
        let st = loc_read_conf F gps_conf (Some gps_conf_parameter_table)
                   (of_nat (length gps_conf_parameter_table)) loc_param_table st;
            st = loc_read_conf F file (Some loc_feature_conf_table)
                   (of_nat (length loc_feature_conf_table)) loc_param_table st;
            service_mask = loc_service_mask st;
            failed = (\<lambda>st. Some (-1, Some (0, None), st))
        in case file of
             None \<Rightarrow> failed st
           | Some f \<Rightarrow>
               (case count_loop F (Some f) 0 st of
                  None \<Rightarrow> None
                | Some None \<Rightarrow> failed st
                | Some (Some (n, st)) \<Rightarrow>
                    if \<not> alloc then failed st
                    else (case block_loop (unat n) F dev service_mask (Some f) [] st of
                            None \<Rightarrow> failed st
                          | Some (procs, st) \<Rightarrow> Some (0, Some (n, Some procs), st))))"

end
