(* ===== verification/Location_API.thy ===== *)
theory Location_API
  imports Client_Base
begin

text \<open>
  The location API itself, gps/location/LocationAPI.cpp: the table of its clients, the loading of the
  three interfaces (GNSS, FLP, geofencing), the registration of clients with them and the dispatch of
  every request. The interfaces are libraries loaded at run time: what loading and their functions
  return are arguments, their calls are outputs. Every call holds gDataMutex from start to end.
\<close>

section \<open>State\<close>

text \<open>A callback is present or NULL.\<close>

record callbacks =
  capabilitiesCb :: bool
  responseCb :: bool
  collectiveResponseCb :: bool
  trackingCb :: bool
  batchingCb :: bool
  geofenceBreachCb :: bool
  geofenceStatusCb :: bool
  gnssLocationInfoCb :: bool
  gnssNiCb :: bool
  gnssSvCb :: bool
  gnssNmeaCb :: bool
  gnssMeasurementsCb :: bool
  batchingStatusCb :: bool

datatype iface = GNSS | FLP | GEOFENCE

text \<open>
  gData with the three load flags: \<open>interfaces\<close> tells which interface pointers are set, \<open>loadFailed\<close> is
  gGnssLoadFailed, gFlpLoadFailed and gGeofenceLoadFailed. Clients are LocationAPI objects by address.
\<close>

record location_data =
  clientData :: "addr \<rightharpoonup> callbacks"
  controlAPI :: ptr
  interfaces :: "iface \<Rightarrow> bool"
  loadFailed :: "iface \<Rightarrow> bool"

definition gData_init :: location_data where
  "gData_init = \<lparr>clientData = Map.empty, controlAPI = None, interfaces = \<lambda>_. False, loadFailed = \<lambda>_. False\<rparr>"

datatype iface_call =
    Initialize
  | AddClient addr callbacks
  | RequestCapabilities addr
  | RemoveClient addr
  | StartTracking addr LocationOptions
  | StopTracking addr u32
  | UpdateTrackingOptions addr u32 LocationOptions
  | StartBatching addr LocationOptions BatchingMode
  | StopBatching addr u32
  | UpdateBatchingOptions addr u32 LocationOptions BatchingMode
  | GetBatchedLocations addr u32 nat
  | AddGeofences addr "GeofenceOption list"
  | RemoveGeofences addr "u32 list"
  | ModifyGeofences addr "u32 list" "GeofenceOption list"
  | PauseGeofences addr "u32 list"
  | ResumeGeofences addr "u32 list"
  | NiResponse addr u32 GnssNiResponse
  | SetControlCallbacks
  | Enable u32
  | Disable u32
  | UpdateConfig
  | DeleteAidingData

type_synonym api_out = "(iface \<times> iface_call) list"

section \<open>Kinds of clients\<close>

definition needsGnssTrackingInfo :: "callbacks \<Rightarrow> bool" where
  "needsGnssTrackingInfo cb \<longleftrightarrow>
     gnssLocationInfoCb cb \<or> gnssSvCb cb \<or> gnssNmeaCb cb \<or> gnssMeasurementsCb cb"

definition isGnssClient :: "callbacks \<Rightarrow> bool" where
  "isGnssClient cb \<longleftrightarrow> gnssNiCb cb \<or> trackingCb cb \<or> gnssMeasurementsCb cb"

definition isFlpClient :: "callbacks \<Rightarrow> bool" where
  "isFlpClient cb \<longleftrightarrow> trackingCb cb \<or> batchingCb cb"

definition isGeofenceClient :: "callbacks \<Rightarrow> bool" where
  "isGeofenceClient cb \<longleftrightarrow> geofenceBreachCb cb \<or> geofenceStatusCb cb"

fun isClient :: "iface \<Rightarrow> callbacks \<Rightarrow> bool" where
  "isClient GNSS cb = isGnssClient cb"
| "isClient FLP cb = isFlpClient cb"
| "isClient GEOFENCE cb = isGeofenceClient cb"

definition mandatory :: "callbacks \<Rightarrow> bool" where
  "mandatory cb \<longleftrightarrow> capabilitiesCb cb \<and> responseCb cb \<and> collectiveResponseCb cb"

section \<open>Creation and destruction of clients\<close>

text \<open>Loads an interface unless it is loaded or a load has failed; \<open>found\<close>: the library gives one.\<close>

definition load_interface :: "iface \<Rightarrow> (iface \<Rightarrow> bool) \<Rightarrow> location_data \<Rightarrow> api_out \<times> location_data" where
  "load_interface i found g =
     (if \<not> interfaces g i \<and> \<not> loadFailed g i
      then if found i then ([(i, Initialize)], g\<lparr>interfaces := (interfaces g)(i := True)\<rparr>)
           else ([], g\<lparr>loadFailed := (loadFailed g)(i := True)\<rparr>)
      else ([], g))"

text \<open>
  The block for one interface in createInstance and updateCallbacks; \<open>wanted\<close> tells whether the
  capabilities are still to be requested.
\<close>

definition add_client ::
  "addr \<Rightarrow> callbacks \<Rightarrow> (iface \<Rightarrow> bool) \<Rightarrow> iface \<Rightarrow> api_out \<times> bool \<times> location_data \<Rightarrow> api_out \<times> bool \<times> location_data" where
  "add_client api cb found i = (\<lambda>(out, wanted, g).
     if isClient i cb
     then let (out1, g) = load_interface i found g
          in if interfaces g i
             then (out @ out1 @ [(i, AddClient api cb)] @ (if wanted then [(i, RequestCapabilities api)] else []),
                   False, g)
             else (out @ out1, wanted, g)
     else (out, wanted, g))"

definition createInstance ::
  "callbacks \<Rightarrow> (iface \<Rightarrow> bool) \<Rightarrow> addr \<Rightarrow> location_data \<Rightarrow> ptr \<times> api_out \<times> location_data" where
  "createInstance cb found new_api g =
     (if \<not> mandatory cb then (None, [], g)
      else let (out, _, g) = add_client new_api cb found GEOFENCE
                 (add_client new_api cb found FLP (add_client new_api cb found GNSS ([], True, g)))
           in (Some new_api, out, g\<lparr>clientData := (clientData g)(new_api \<mapsto> cb)\<rparr>))"

definition remove_call :: "addr \<Rightarrow> callbacks \<Rightarrow> location_data \<Rightarrow> iface \<Rightarrow> api_out" where
  "remove_call api cb g i = (if isClient i cb \<and> interfaces g i then [(i, RemoveClient api)] else [])"

definition api_destroy :: "addr \<Rightarrow> location_data \<Rightarrow> api_out \<times> location_data" where
  "api_destroy this g =
     (case clientData g this of
        Some cb \<Rightarrow> (remove_call this cb g GNSS @ remove_call this cb g FLP @ remove_call this cb g GEOFENCE,
                    g\<lparr>clientData := (clientData g)(this := None)\<rparr>)
      | None \<Rightarrow> ([], g))"

definition updateCallbacks :: "addr \<Rightarrow> callbacks \<Rightarrow> (iface \<Rightarrow> bool) \<Rightarrow> location_data \<Rightarrow> api_out \<times> location_data" where
  "updateCallbacks this cb found g =
     (if \<not> mandatory cb then ([], g)
      else let (out, _, g) = add_client this cb found GEOFENCE
                 (add_client this cb found FLP (add_client this cb found GNSS ([], False, g)))
           in (out, g\<lparr>clientData := (clientData g)(this \<mapsto> cb)\<rparr>))"

section \<open>Requests of clients\<close>

text \<open>\<open>ret i\<close>: what the interface's function returns. 0 is no session.\<close>

definition startTracking ::
  "addr \<Rightarrow> LocationOptions \<Rightarrow> (iface \<Rightarrow> u32) \<Rightarrow> location_data \<Rightarrow> u32 \<times> api_out" where
  "startTracking this opts ret g =
     (case clientData g this of
        None \<Rightarrow> (0, [])
      | Some cb \<Rightarrow>
          if interfaces g FLP \<and> 0 < minDistance opts then (ret FLP, [(FLP, StartTracking this opts)])
          else if interfaces g GNSS \<and> needsGnssTrackingInfo cb then (ret GNSS, [(GNSS, StartTracking this opts)])
          else if interfaces g FLP then (ret FLP, [(FLP, StartTracking this opts)])
          else if interfaces g GNSS then (ret GNSS, [(GNSS, StartTracking this opts)])
          else (0, []))"

text \<open>Stops and updates of a tracking session go to both interfaces, GNSS first.\<close>

definition to_both :: "addr \<Rightarrow> iface_call \<Rightarrow> location_data \<Rightarrow> api_out" where
  "to_both this c g =
     (case clientData g this of
        None \<Rightarrow> []
      | Some _ \<Rightarrow> (if interfaces g GNSS then [(GNSS, c)] else []) @ (if interfaces g FLP then [(FLP, c)] else []))"

definition stopTracking :: "addr \<Rightarrow> u32 \<Rightarrow> location_data \<Rightarrow> api_out" where
  "stopTracking this sid g = to_both this (StopTracking this sid) g"

definition updateTrackingOptions :: "addr \<Rightarrow> u32 \<Rightarrow> LocationOptions \<Rightarrow> location_data \<Rightarrow> api_out" where
  "updateTrackingOptions this sid opts g = to_both this (UpdateTrackingOptions this sid opts) g"

definition to_interface :: "iface \<Rightarrow> iface_call \<Rightarrow> location_data \<Rightarrow> api_out" where
  "to_interface i c g = (if interfaces g i then [(i, c)] else [])"

definition startBatching ::
  "addr \<Rightarrow> LocationOptions \<Rightarrow> BatchingMode \<Rightarrow> (iface \<Rightarrow> u32) \<Rightarrow> location_data \<Rightarrow> u32 \<times> api_out" where
  "startBatching this opts bopts ret g =
     (if interfaces g FLP then (ret FLP, [(FLP, StartBatching this opts bopts)]) else (0, []))"

definition stopBatching :: "addr \<Rightarrow> u32 \<Rightarrow> location_data \<Rightarrow> api_out" where
  "stopBatching this sid g = to_interface FLP (StopBatching this sid) g"

definition updateBatchingOptions :: "addr \<Rightarrow> u32 \<Rightarrow> LocationOptions \<Rightarrow> BatchingMode \<Rightarrow> location_data \<Rightarrow> api_out" where
  "updateBatchingOptions this sid opts bopts g = to_interface FLP (UpdateBatchingOptions this sid opts bopts) g"

definition getBatchedLocations :: "addr \<Rightarrow> u32 \<Rightarrow> nat \<Rightarrow> location_data \<Rightarrow> api_out" where
  "getBatchedLocations this sid n g = to_interface FLP (GetBatchedLocations this sid n) g"

text \<open>The array of ids is None for NULL.\<close>

definition addGeofences ::
  "addr \<Rightarrow> GeofenceOption list \<Rightarrow> (iface \<Rightarrow> u32 list option) \<Rightarrow> location_data \<Rightarrow> u32 list option \<times> api_out" where
  "addGeofences this opts ret g =
     (if interfaces g GEOFENCE then (ret GEOFENCE, [(GEOFENCE, AddGeofences this opts)]) else (None, []))"

definition removeGeofences :: "addr \<Rightarrow> u32 list \<Rightarrow> location_data \<Rightarrow> api_out" where
  "removeGeofences this ids g = to_interface GEOFENCE (RemoveGeofences this ids) g"

definition modifyGeofences :: "addr \<Rightarrow> u32 list \<Rightarrow> GeofenceOption list \<Rightarrow> location_data \<Rightarrow> api_out" where
  "modifyGeofences this ids opts g = to_interface GEOFENCE (ModifyGeofences this ids opts) g"

definition pauseGeofences :: "addr \<Rightarrow> u32 list \<Rightarrow> location_data \<Rightarrow> api_out" where
  "pauseGeofences this ids g = to_interface GEOFENCE (PauseGeofences this ids) g"

definition resumeGeofences :: "addr \<Rightarrow> u32 list \<Rightarrow> location_data \<Rightarrow> api_out" where
  "resumeGeofences this ids g = to_interface GEOFENCE (ResumeGeofences this ids) g"

definition gnssNiResponse :: "addr \<Rightarrow> u32 \<Rightarrow> GnssNiResponse \<Rightarrow> location_data \<Rightarrow> api_out" where
  "gnssNiResponse this nid response g = to_interface GNSS (NiResponse this nid response) g"

section \<open>The control API\<close>

definition control_createInstance ::
  "bool \<Rightarrow> (iface \<Rightarrow> bool) \<Rightarrow> addr \<Rightarrow> location_data \<Rightarrow> ptr \<times> api_out \<times> location_data" where
  "control_createInstance has_responseCb found new_api g =
     (if has_responseCb \<and> controlAPI g = None
      then let (out, g) = load_interface GNSS found g
           in if interfaces g GNSS
              then (Some new_api, out @ [(GNSS, SetControlCallbacks)], g\<lparr>controlAPI := Some new_api\<rparr>)
              else (None, out, g)
      else (None, [], g))"

definition control_destroy :: "location_data \<Rightarrow> location_data" where
  "control_destroy g = g\<lparr>controlAPI := None\<rparr>"

definition control_enable :: "u32 \<Rightarrow> (iface \<Rightarrow> u32) \<Rightarrow> location_data \<Rightarrow> u32 \<times> api_out" where
  "control_enable techType ret g = (if interfaces g GNSS then (ret GNSS, [(GNSS, Enable techType)]) else (0, []))"

definition control_disable :: "u32 \<Rightarrow> location_data \<Rightarrow> api_out" where
  "control_disable cid g = to_interface GNSS (Disable cid) g"

definition control_gnssUpdateConfig ::
  "(iface \<Rightarrow> u32 list option) \<Rightarrow> location_data \<Rightarrow> u32 list option \<times> api_out" where
  "control_gnssUpdateConfig ret g = (if interfaces g GNSS then (ret GNSS, [(GNSS, UpdateConfig)]) else (None, []))"

definition control_gnssDeleteAidingData :: "(iface \<Rightarrow> u32) \<Rightarrow> location_data \<Rightarrow> u32 \<times> api_out" where
  "control_gnssDeleteAidingData ret g = (if interfaces g GNSS then (ret GNSS, [(GNSS, DeleteAidingData)]) else (0, []))"

end
