(* ===== verification/Location_API_Props.thy ===== *)
theory Location_API_Props
  imports Location_API
begin

text \<open>
  The location API as a state machine: the calls that change the table of clients, who is registered with
  which interface, and where the requests of a tracking session go.
\<close>

section \<open>Steps\<close>

text \<open>
  \<open>upd old new\<close> restricts the calls of updateCallbacks. Clients call only while their object exists; a new
  object has an address no living one has.
\<close>

inductive api_step ::
  "(callbacks \<Rightarrow> callbacks \<Rightarrow> bool) \<Rightarrow> location_data \<Rightarrow> api_out \<Rightarrow> location_data \<Rightarrow> bool"
  for upd :: "callbacks \<Rightarrow> callbacks \<Rightarrow> bool" where
  create: "a \<notin> dom (clientData g) \<Longrightarrow> createInstance cb found a g = (r, out, g') \<Longrightarrow> api_step upd g out g'"
| destroy: "a \<in> dom (clientData g) \<Longrightarrow> api_destroy a g = (out, g') \<Longrightarrow> api_step upd g out g'"
| update: "clientData g a = Some old \<Longrightarrow> upd old cb \<Longrightarrow> updateCallbacks a cb found g = (out, g') \<Longrightarrow>
    api_step upd g out g'"
| control: "control_createInstance has found a g = (r, out, g') \<Longrightarrow> api_step upd g out g'"
| control_end: "api_step upd g [] (control_destroy g)"

inductive_cases api_stepE: "api_step upd g out g'"

text \<open>Who is registered with an interface after its calls.\<close>

fun register :: "api_out \<Rightarrow> (iface \<Rightarrow> addr set) \<Rightarrow> iface \<Rightarrow> addr set" where
  "register [] reg = reg"
| "register ((i, c) # out) reg =
     register out (case c of
        AddClient a _ \<Rightarrow> reg(i := insert a (reg i))
      | RemoveClient a \<Rightarrow> reg(i := reg i - {a})
      | _ \<Rightarrow> reg)"

inductive api_reach ::
  "(callbacks \<Rightarrow> callbacks \<Rightarrow> bool) \<Rightarrow> location_data \<Rightarrow> (iface \<Rightarrow> addr set) \<Rightarrow> bool"
  for upd :: "callbacks \<Rightarrow> callbacks \<Rightarrow> bool" where
  init: "api_reach upd gData_init (\<lambda>_. {})"
| step: "api_reach upd g reg \<Longrightarrow> api_step upd g out g' \<Longrightarrow> api_reach upd g' (register out reg)"

lemma register_append [simp]: "register (out @ out') reg = register out' (register out reg)"
  by (induction out reg rule: register.induct) simp_all

section \<open>The blocks for one interface\<close>

lemma load_interface_simps:
  assumes "load_interface i found g = (out, g')"
  shows "register out reg = reg" "clientData g' = clientData g" "controlAPI g' = controlAPI g"
    "j \<noteq> i \<Longrightarrow> interfaces g' j = interfaces g j" "interfaces g j \<Longrightarrow> interfaces g' j"
    "interfaces g' i \<or> loadFailed g' i" "loadFailed g j \<Longrightarrow> loadFailed g' j"
    "interfaces g' j \<and> \<not> interfaces g j \<Longrightarrow> j = i \<and> \<not> loadFailed g i"
proof -
  have g': "g' = (if \<not> interfaces g i \<and> \<not> loadFailed g i
      then if found i then g\<lparr>interfaces := (interfaces g)(i := True)\<rparr>
           else g\<lparr>loadFailed := (loadFailed g)(i := True)\<rparr> else g)"
    and out: "out = [] \<or> out = [(i, Initialize)]"
    using assms by (auto simp: load_interface_def split: if_splits)
  show "register out reg = reg" using out by auto
  show "clientData g' = clientData g" "controlAPI g' = controlAPI g" "interfaces g' i \<or> loadFailed g' i"
    by (simp_all add: g')
  show "j \<noteq> i \<Longrightarrow> interfaces g' j = interfaces g j" "interfaces g j \<Longrightarrow> interfaces g' j"
    "loadFailed g j \<Longrightarrow> loadFailed g' j"
    "interfaces g' j \<and> \<not> interfaces g j \<Longrightarrow> j = i \<and> \<not> loadFailed g i"
    by (simp_all add: g' split: if_splits)
qed

lemma add_client_simps:
  assumes "add_client a cb found i (out, w, g) = (out', w', g')"
  shows "register out' reg = (if isClient i cb \<and> interfaces g' i
           then (register out reg)(i := insert a (register out reg i)) else register out reg)"
    "clientData g' = clientData g" "controlAPI g' = controlAPI g"
    "j \<noteq> i \<Longrightarrow> interfaces g' j = interfaces g j" "interfaces g j \<Longrightarrow> interfaces g' j"
    "isClient i cb \<Longrightarrow> interfaces g' i \<or> loadFailed g' i" "loadFailed g j \<Longrightarrow> loadFailed g' j"
    "interfaces g' j \<and> \<not> interfaces g j \<Longrightarrow> j = i \<and> \<not> loadFailed g i"
proof -
  obtain o1 g1 where l: "load_interface i found g = (o1, g1)" by fastforce
  note s = load_interface_simps [OF l]
  show "register out' reg = (if isClient i cb \<and> interfaces g' i
           then (register out reg)(i := insert a (register out reg i)) else register out reg)"
    using assms by (auto simp: add_client_def l s(1) split: if_splits)
  have g': "g' = (if isClient i cb then g1 else g)"
    using assms by (auto simp: add_client_def l split: if_splits)
  show "clientData g' = clientData g" "controlAPI g' = controlAPI g"
    "j \<noteq> i \<Longrightarrow> interfaces g' j = interfaces g j" "interfaces g j \<Longrightarrow> interfaces g' j"
    "isClient i cb \<Longrightarrow> interfaces g' i \<or> loadFailed g' i" "loadFailed g j \<Longrightarrow> loadFailed g' j"
    using s(2-7) by (simp_all add: g')
  show "interfaces g' j \<and> \<not> interfaces g j \<Longrightarrow> j = i \<and> \<not> loadFailed g i"
    using s(8) [of j] by (simp add: g' split: if_splits)
qed

text \<open>The three blocks together.\<close>

definition add_all ::
  "addr \<Rightarrow> callbacks \<Rightarrow> (iface \<Rightarrow> bool) \<Rightarrow> bool \<Rightarrow> location_data \<Rightarrow> api_out \<times> bool \<times> location_data" where
  "add_all a cb found w g =
     add_client a cb found GEOFENCE (add_client a cb found FLP (add_client a cb found GNSS ([], w, g)))"

lemma add_all_simps:
  assumes "add_all a cb found w g = (out, w', g')"
  shows "register out reg i = (if isClient i cb \<and> interfaces g' i then insert a (reg i) else reg i)"
    "clientData g' = clientData g" "controlAPI g' = controlAPI g"
    "interfaces g j \<Longrightarrow> interfaces g' j"
    "isClient j cb \<Longrightarrow> interfaces g' j \<or> loadFailed g' j" "loadFailed g j \<Longrightarrow> loadFailed g' j"
    "interfaces g' j \<and> \<not> interfaces g j \<Longrightarrow> \<not> loadFailed g j"
proof -
  obtain o1 w1 g1 where 1: "add_client a cb found GNSS ([], w, g) = (o1, w1, g1)" by (metis prod_cases3)
  obtain o2 w2 g2 where 2: "add_client a cb found FLP (o1, w1, g1) = (o2, w2, g2)" by (metis prod_cases3)
  have 3: "add_client a cb found GEOFENCE (o2, w2, g2) = (out, w', g')" using assms 1 2 by (simp add: add_all_def)
  note s1 = add_client_simps [OF 1] and s2 = add_client_simps [OF 2] and s3 = add_client_simps [OF 3]
  have i1: "interfaces g' GNSS = interfaces g1 GNSS" "interfaces g' FLP = interfaces g2 FLP"
    using s2(4) [of GNSS] s3(4) [of GNSS] s3(4) [of FLP] by simp_all
  show "register out reg i = (if isClient i cb \<and> interfaces g' i then insert a (reg i) else reg i)"
    unfolding s3(1) s2(1) s1(1) by (cases i) (simp_all add: i1)
  show "clientData g' = clientData g" unfolding s3(2) s2(2) s1(2) ..
  show "controlAPI g' = controlAPI g" unfolding s3(3) s2(3) s1(3) ..
  show "interfaces g j \<Longrightarrow> interfaces g' j" by (rule s3(5) [OF s2(5) [OF s1(5)]])
  show "loadFailed g j \<Longrightarrow> loadFailed g' j" by (rule s3(7) [OF s2(7) [OF s1(7)]])
  show "isClient j cb \<Longrightarrow> interfaces g' j \<or> loadFailed g' j"
    using s1(5,6,7) s2(5,6,7) s3(5,6,7) by (cases j) blast+
  show "interfaces g' j \<and> \<not> interfaces g j \<Longrightarrow> \<not> loadFailed g j"
    using s1(7,8) s2(7,8) s3(8) by blast
qed

lemma createInstance_add_all:
  "createInstance cb found a g =
    (if \<not> mandatory cb then (None, [], g)
     else let (out, _, g) = add_all a cb found True g
          in (Some a, out, g\<lparr>clientData := (clientData g)(a \<mapsto> cb)\<rparr>))"
  by (simp add: createInstance_def add_all_def)

lemma updateCallbacks_add_all:
  "updateCallbacks a cb found g =
    (if \<not> mandatory cb then ([], g)
     else let (out, _, g) = add_all a cb found False g
          in (out, g\<lparr>clientData := (clientData g)(a \<mapsto> cb)\<rparr>))"
  by (simp add: updateCallbacks_def add_all_def)

lemma destroy_register:
  "clientData g a = Some cb \<Longrightarrow>
   register (fst (api_destroy a g)) reg i =
     (if isClient i cb \<and> interfaces g i then reg i - {a} else reg i)"
  by (cases i) (auto simp: api_destroy_def remove_call_def)

section \<open>Registration\<close>

definition is_registered :: "location_data \<Rightarrow> iface \<Rightarrow> addr \<Rightarrow> bool" where
  "is_registered g i a \<longleftrightarrow> (case clientData g a of Some cb \<Rightarrow> isClient i cb \<and> interfaces g i | None \<Rightarrow> False)"

lemma is_registered_iff:
  "is_registered g i a \<longleftrightarrow> (\<exists>cb. clientData g a = Some cb \<and> isClient i cb \<and> interfaces g i)"
  by (simp add: is_registered_def split: option.split)

text \<open>An interface a living client wanted was loaded or failed to load for good.\<close>

definition api_inv :: "location_data \<Rightarrow> (iface \<Rightarrow> addr set) \<Rightarrow> bool" where
  "api_inv g reg \<longleftrightarrow>
     (\<forall>i a. a \<in> reg i \<longleftrightarrow> is_registered g i a) \<and>
     (\<forall>i a cb. clientData g a = Some cb \<longrightarrow> isClient i cb \<longrightarrow> interfaces g i \<or> loadFailed g i)"

text \<open>An update that does not give up an interface.\<close>

definition keeps_kinds :: "callbacks \<Rightarrow> callbacks \<Rightarrow> bool" where
  "keeps_kinds old new \<longleftrightarrow>
     (isGnssClient old \<longrightarrow> isGnssClient new) \<and> (isFlpClient old \<longrightarrow> isFlpClient new) \<and>
     (isGeofenceClient old \<longrightarrow> isGeofenceClient new)"

lemma keeps_kindsD: "keeps_kinds old new \<Longrightarrow> isClient i old \<Longrightarrow> isClient i new"
  by (cases i) (auto simp: keeps_kinds_def)

lemma add_all_inv:
  assumes inv: "api_inv g reg" and add: "add_all a cb found w g = (out, w', g')"
    and old: "\<And>old i. clientData g a = Some old \<Longrightarrow> isClient i old \<Longrightarrow> isClient i cb"
  shows "api_inv (g'\<lparr>clientData := (clientData g')(a \<mapsto> cb)\<rparr>) (register out reg)"
proof -
  note s = add_all_simps [OF add]
  have r: "a' \<in> reg i \<longleftrightarrow> is_registered g i a'" for i a' using inv by (simp add: api_inv_def)
  have l: "interfaces g i \<or> loadFailed g i" if "clientData g a' = Some cb'" "isClient i cb'" for i a' cb'
    using inv that by (auto simp: api_inv_def)
  have same: "interfaces g' i = interfaces g i" if "clientData g a' = Some cb'" "isClient i cb'" for i a' cb'
    using l [OF that] s(4,7) by blast
  show ?thesis
    unfolding api_inv_def
  proof (intro conjI allI impI)
    fix i a'
    show "a' \<in> register out reg i \<longleftrightarrow>
        is_registered (g'\<lparr>clientData := (clientData g')(a \<mapsto> cb)\<rparr>) i a'"
      using same [of a' _ i] old [of _ i] s(4) [of i]
      by (auto simp: s(1,2) r is_registered_def split: option.splits)
  next
    fix i a' cb'
    assume "clientData (g'\<lparr>clientData := (clientData g')(a \<mapsto> cb)\<rparr>) a' = Some cb'" "isClient i cb'"
    then show "interfaces (g'\<lparr>clientData := (clientData g')(a \<mapsto> cb)\<rparr>) i \<or>
        loadFailed (g'\<lparr>clientData := (clientData g')(a \<mapsto> cb)\<rparr>) i"
      using l [of a' cb' i] s(4,5,6) [of i] by (auto simp: s(2) split: if_splits)
  qed
qed

lemma api_step_inv:
  assumes "api_inv g reg" "api_step keeps_kinds g out g'"
  shows "api_inv g' (register out reg)"
  using assms(2)
proof (cases rule: api_step.cases)
  case (create a cb found r)
  then show ?thesis
    using assms(1) add_all_inv [OF assms(1), of a cb found True]
    by (auto simp: createInstance_add_all split: if_splits prod.splits)
next
  case (destroy a)
  then obtain cb where cb: "clientData g a = Some cb" by blast
  have out: "out = fst (api_destroy a g)" and g': "g' = g\<lparr>clientData := (clientData g)(a := None)\<rparr>"
    using destroy(2) cb by (auto simp: api_destroy_def)
  show ?thesis
    using assms(1) cb unfolding api_inv_def out g'
    by (auto simp: destroy_register [OF cb] is_registered_def split: option.splits)
next
  case (update a old cb found)
  then show ?thesis
    using assms(1) add_all_inv [OF assms(1), of a cb found False] keeps_kindsD [OF update(2)]
    by (auto simp: updateCallbacks_add_all split: if_splits prod.splits)
next
  case (control has found a r)
  obtain o1 g1 where l: "load_interface GNSS found g = (o1, g1)" by fastforce
  note s = load_interface_simps [OF l]
  have g': "clientData g' = clientData g" "register out reg = reg"
    "interfaces g' = interfaces g \<and> loadFailed g' = loadFailed g \<or>
     interfaces g' = interfaces g1 \<and> loadFailed g' = loadFailed g1"
    using control s(1,2) by (auto simp: control_createInstance_def l split: if_splits)
  have l: "interfaces g i \<or> loadFailed g i" if "clientData g a' = Some cb'" "isClient i cb'" for i a' cb'
    using assms(1) that by (auto simp: api_inv_def)
  have same: "interfaces g' i = interfaces g i" if "clientData g a' = Some cb'" "isClient i cb'" for i a' cb'
    using l [OF that] g'(3) s(5) [of i] s(8) [of i] by metis
  have "is_registered g' i a' = is_registered g i a'" for i a'
    using same [of a' _ i] by (auto simp: is_registered_def g'(1) split: option.split)
  moreover have "interfaces g' i \<or> loadFailed g' i" if "clientData g a' = Some cb'" "isClient i cb'" for i a' cb'
    using l [OF that] g'(3) s(5,7) [of i] by metis
  ultimately show ?thesis using assms(1) by (simp add: api_inv_def g'(1,2))
next
  case control_end
  then show ?thesis using assms(1) by (simp add: api_inv_def is_registered_iff control_destroy_def)
qed


text \<open>As long as no updateCallbacks gives up an interface, each of the three interfaces has exactly those
  client objects registered that exist and whose callbacks make them a client of it, provided it could be
  loaded: no interface keeps a destroyed client, none misses a living one.\<close>

lemma registered_clients_exact:
  "api_reach keeps_kinds g reg \<Longrightarrow>
   reg i = {a. \<exists>cb. clientData g a = Some cb \<and> isClient i cb \<and> interfaces g i}"
proof -
  assume "api_reach keeps_kinds g reg"
  then have "api_inv g reg"
  proof (induction rule: api_reach.induct)
    case init
    show ?case by (simp add: api_inv_def is_registered_def gData_init_def)
  next
    case (step g reg out g')
    then show ?case by (intro api_step_inv)
  qed
  then show ?thesis by (simp add: api_inv_def is_registered_iff set_eq_iff)
qed

text \<open>A client for tracking, and one for geofences only.\<close>

definition tracking_callbacks :: callbacks where
  "tracking_callbacks =
     \<lparr>capabilitiesCb = True, responseCb = True, collectiveResponseCb = True, trackingCb = True, batchingCb = False,
      geofenceBreachCb = False, geofenceStatusCb = False, gnssLocationInfoCb = False, gnssNiCb = False,
      gnssSvCb = False, gnssNmeaCb = False, gnssMeasurementsCb = False, batchingStatusCb = False\<rparr>"

definition geofence_callbacks :: callbacks where
  "geofence_callbacks = tracking_callbacks\<lparr>trackingCb := False, geofenceBreachCb := True\<rparr>"

lemmas callbacks_simps = tracking_callbacks_def geofence_callbacks_def isGnssClient_def isFlpClient_def
  isGeofenceClient_def mandatory_def

definition all_found :: "iface \<Rightarrow> bool" where
  "all_found i = True"

definition with_client :: location_data where
  "with_client = snd (snd (createInstance tracking_callbacks all_found 7 gData_init))"

lemma with_client_reach:
  "api_reach upd with_client (register (fst (snd (createInstance tracking_callbacks all_found 7 gData_init))) (\<lambda>_. {}))"
proof -
  obtain r out g where c: "createInstance tracking_callbacks all_found 7 gData_init = (r, out, g)"
    by (metis prod_cases3)
  have "7 \<notin> dom (clientData gData_init)" by (simp add: gData_init_def)
  from api_reach.step [OF api_reach.init api_step.create [OF this c]] show ?thesis
    by (simp add: with_client_def c)
qed

lemma registered_clients_exact_witness:
  "\<exists>g reg. api_reach keeps_kinds g reg \<and> reg GNSS = {7} \<and> reg FLP = {7} \<and> reg GEOFENCE = {}"
proof -
  note r = with_client_reach [of keeps_kinds]
  have "clientData with_client = [7 \<mapsto> tracking_callbacks]" "interfaces with_client GNSS" "interfaces with_client FLP"
    by (simp_all add: with_client_def createInstance_def add_client_def load_interface_def gData_init_def
        callbacks_simps all_found_def)
  then show ?thesis
    using r registered_clients_exact [OF r, of GNSS] registered_clients_exact [OF r, of FLP]
      registered_clients_exact [OF r, of GEOFENCE]
    by (intro exI [of _ with_client] exI conjI) (assumption, auto simp: callbacks_simps)
qed

text \<open>
  After an update that gives up an interface the destructor does not deregister the client there: the
  interface keeps the pointer to the deleted object.
\<close>

lemma narrowed_client_dangles:
  "\<exists>g reg. api_reach (\<lambda>_ _. True) g reg \<and> 7 \<in> reg GNSS \<and> clientData g 7 = None"
proof -
  define g1 where "g1 = with_client"
  define reg1 where
    "reg1 = register (fst (snd (createInstance tracking_callbacks all_found 7 gData_init))) (\<lambda>_. {})"
  define g2 where "g2 = snd (updateCallbacks 7 geofence_callbacks all_found g1)"
  define reg2 where "reg2 = register (fst (updateCallbacks 7 geofence_callbacks all_found g1)) reg1"
  define g3 where "g3 = snd (api_destroy 7 g2)"
  define reg3 where "reg3 = register (fst (api_destroy 7 g2)) reg2"
  note defs = g1_def reg1_def g2_def reg2_def g3_def reg3_def with_client_def createInstance_def add_client_def
    load_interface_def gData_init_def callbacks_simps all_found_def updateCallbacks_def api_destroy_def
    remove_call_def
  have 1: "clientData g1 7 = Some tracking_callbacks" by (simp add: defs)
  have 2: "clientData g2 7 = Some geofence_callbacks" by (simp add: defs)
  have "api_reach (\<lambda>_ _. True) g1 reg1" unfolding g1_def reg1_def by (rule with_client_reach)
  then have "api_reach (\<lambda>_ _. True) g2 reg2"
    unfolding reg2_def by (rule api_reach.step) (rule api_step.update [OF 1 TrueI], simp add: g2_def)
  then have "api_reach (\<lambda>_ _. True) g3 reg3"
    unfolding reg3_def by (rule api_reach.step) (rule api_step.destroy [of 7], use 2 in \<open>auto simp: g3_def\<close>)
  moreover have "7 \<in> reg3 GNSS" "clientData g3 7 = None" by (simp_all add: defs)
  ultimately show ?thesis by blast
qed

section \<open>Tracking sessions\<close>

lemma api_step_interfaces: "api_step upd g out g' \<Longrightarrow> interfaces g i \<Longrightarrow> interfaces g' i"
proof (induction rule: api_step.induct)
  case (create a g cb found r out g')
  then show ?case
    using add_all_simps(4) [of a cb found True g] by (auto simp: createInstance_add_all split: if_splits prod.splits)
next
  case (update g a old cb found out g')
  then show ?case
    using add_all_simps(4) [of a cb found False g] by (auto simp: updateCallbacks_add_all split: if_splits prod.splits)
next
  case (destroy a g out g')
  then show ?case by (auto simp: api_destroy_def split: option.splits)
next
  case (control has found a g r out g')
  then show ?case
    using load_interface_simps(5) [of GNSS found g]
    by (auto simp: control_createInstance_def split: if_splits prod.splits)
qed (simp add: control_destroy_def)

inductive api_steps :: "(callbacks \<Rightarrow> callbacks \<Rightarrow> bool) \<Rightarrow> location_data \<Rightarrow> location_data \<Rightarrow> bool"
  for upd :: "callbacks \<Rightarrow> callbacks \<Rightarrow> bool" where
  none: "api_steps upd g g"
| more: "api_steps upd g g1 \<Longrightarrow> api_step upd g1 out g2 \<Longrightarrow> api_steps upd g g2"

lemma api_steps_interfaces: "api_steps upd g g' \<Longrightarrow> interfaces g i \<Longrightarrow> interfaces g' i"
  by (induction rule: api_steps.induct) (auto intro: api_step_interfaces)

text \<open>A start that returns a session has been passed to exactly one interface, and to FLP when FLP is there and a
  minimal distance is asked for; however the clients and callbacks change afterwards, as long as the client
  exists its stop and its updates of that session are passed to that interface, once.\<close>

theorem tracking_requests_reach_their_interface:
  assumes "startTracking a opts ret g = (sid, out)" "sid \<noteq> 0" "api_steps upd g g'" "a \<in> dom (clientData g')"
  shows "\<exists>i. out = [(i, StartTracking a opts)] \<and> ret i = sid \<and>
    (i = FLP \<or> minDistance opts = 0 \<or> \<not> interfaces g FLP) \<and>
    filter (\<lambda>c. fst c = i) (stopTracking a sid g') = [(i, StopTracking a sid)] \<and>
    filter (\<lambda>c. fst c = i) (updateTrackingOptions a sid opts' g') = [(i, UpdateTrackingOptions a sid opts')]"
proof -
  from assms(1,2) obtain i where i: "i = GNSS \<or> i = FLP" "interfaces g i" "out = [(i, StartTracking a opts)]"
    "ret i = sid" "i = FLP \<or> minDistance opts = 0 \<or> \<not> interfaces g FLP"
    by (auto simp: startTracking_def word_gt_0 split: option.splits if_splits)
  have "interfaces g' i" using api_steps_interfaces [OF assms(3) i(2)] .
  then have "filter (\<lambda>c. fst c = i) (to_both a call g') = [(i, call)]" for call
    using i(1) assms(4) by (auto simp: to_both_def)
  with i show ?thesis unfolding stopTracking_def updateTrackingOptions_def by blast
qed

theorem tracking_requests_reach_their_interface_witness:
  "\<exists>i. filter (\<lambda>c. fst c = i) (stopTracking 7 5 with_client) = [(i, StopTracking 7 5)]"
proof -
  let ?opts = "\<lparr>minInterval = 1000, minDistance = 0, suplMode = GNSS_SUPL_MODE_MSB\<rparr>"
  have "startTracking 7 ?opts (\<lambda>_. 5) with_client = (5, [(FLP, StartTracking 7 ?opts)])"
    "7 \<in> dom (clientData with_client)"
    by (simp_all add: startTracking_def with_client_def createInstance_def add_client_def load_interface_def
        gData_init_def callbacks_simps all_found_def needsGnssTrackingInfo_def)
  from tracking_requests_reach_their_interface [OF this(1) _ api_steps.none this(2), of ?opts]
  show ?thesis by auto
qed

end
