(* ===== verification/Gnss_Config.thy ===== *)
theory Gnss_Config
  imports Client_Base
begin

text \<open>
  The configuration data of the GNSS adapter: the enumerations of LocationAPI.h, the conversions of
  gps/gnss/GnssAdapter.cpp between them and the numbers of gps.conf, the part of loc_gps_cfg_s_type the
  adapter reads and writes, and the capabilities the carrier allows (gps/core/ContextBase.cpp).
\<close>

unbundle bit_operations_syntax

section \<open>Enumerations\<close>

datatype GnssConfigGpsLock =
  GNSS_CONFIG_GPS_LOCK_NONE | GNSS_CONFIG_GPS_LOCK_MO | GNSS_CONFIG_GPS_LOCK_NI | GNSS_CONFIG_GPS_LOCK_MO_AND_NI

datatype GnssConfigSuplVersion =
  GNSS_CONFIG_SUPL_VERSION_1_0_0 | GNSS_CONFIG_SUPL_VERSION_2_0_0 | GNSS_CONFIG_SUPL_VERSION_2_0_2

datatype GnssConfigLppProfile =
  GNSS_CONFIG_LPP_PROFILE_RRLP_ON_LTE | GNSS_CONFIG_LPP_PROFILE_USER_PLANE
  | GNSS_CONFIG_LPP_PROFILE_CONTROL_PLANE | GNSS_CONFIG_LPP_PROFILE_USER_PLANE_AND_CONTROL_PLANE

datatype GnssAssistanceType = GNSS_ASSISTANCE_TYPE_SUPL | GNSS_ASSISTANCE_TYPE_C2K

type_synonym config_mask = "16 word"

section \<open>Conversions\<close>

fun convertGpsLock :: "GnssConfigGpsLock \<Rightarrow> u32" where
  "convertGpsLock GNSS_CONFIG_GPS_LOCK_MO = 1"
| "convertGpsLock GNSS_CONFIG_GPS_LOCK_NI = 2"
| "convertGpsLock GNSS_CONFIG_GPS_LOCK_MO_AND_NI = 3"
| "convertGpsLock GNSS_CONFIG_GPS_LOCK_NONE = 0"

definition convertGpsLock_of :: "u32 \<Rightarrow> GnssConfigGpsLock" where
  "convertGpsLock_of gpsLock =
     (if gpsLock = 1 then GNSS_CONFIG_GPS_LOCK_MO
      else if gpsLock = 2 then GNSS_CONFIG_GPS_LOCK_NI
      else if gpsLock = 3 then GNSS_CONFIG_GPS_LOCK_MO_AND_NI
      else GNSS_CONFIG_GPS_LOCK_NONE)"

fun convertSuplVersion :: "GnssConfigSuplVersion \<Rightarrow> u32" where
  "convertSuplVersion GNSS_CONFIG_SUPL_VERSION_2_0_0 = 0x00020000"
| "convertSuplVersion GNSS_CONFIG_SUPL_VERSION_2_0_2 = 0x00020002"
| "convertSuplVersion GNSS_CONFIG_SUPL_VERSION_1_0_0 = 0x00010000"

definition convertSuplVersion_of :: "u32 \<Rightarrow> GnssConfigSuplVersion" where
  "convertSuplVersion_of suplVersion =
     (if suplVersion = 0x00020000 then GNSS_CONFIG_SUPL_VERSION_2_0_0
      else if suplVersion = 0x00020002 then GNSS_CONFIG_SUPL_VERSION_2_0_2
      else GNSS_CONFIG_SUPL_VERSION_1_0_0)"

fun convertLppProfile :: "GnssConfigLppProfile \<Rightarrow> u32" where
  "convertLppProfile GNSS_CONFIG_LPP_PROFILE_USER_PLANE = 1"
| "convertLppProfile GNSS_CONFIG_LPP_PROFILE_CONTROL_PLANE = 2"
| "convertLppProfile GNSS_CONFIG_LPP_PROFILE_USER_PLANE_AND_CONTROL_PLANE = 3"
| "convertLppProfile GNSS_CONFIG_LPP_PROFILE_RRLP_ON_LTE = 0"

definition convertLppProfile_of :: "u32 \<Rightarrow> GnssConfigLppProfile" where
  "convertLppProfile_of lppProfile =
     (if lppProfile = 1 then GNSS_CONFIG_LPP_PROFILE_USER_PLANE
      else if lppProfile = 2 then GNSS_CONFIG_LPP_PROFILE_CONTROL_PLANE
      else if lppProfile = 3 then GNSS_CONFIG_LPP_PROFILE_USER_PLANE_AND_CONTROL_PLANE
      else GNSS_CONFIG_LPP_PROFILE_RRLP_ON_LTE)"

text \<open>The enumerators of the masks are the bits 0, 1, 2 and 3, as are those of the modem.\<close>

definition convertLppeCp :: "config_mask \<Rightarrow> u32" where
  "convertLppeCp m =
     (if m AND 1 \<noteq> 0 then 1 else 0) OR (if m AND 2 \<noteq> 0 then 2 else 0) OR
     (if m AND 4 \<noteq> 0 then 4 else 0) OR (if m AND 8 \<noteq> 0 then 8 else 0)"

definition convertLppeCp_of :: "u32 \<Rightarrow> config_mask" where
  "convertLppeCp_of m =
     (if m AND 1 \<noteq> 0 then 1 else 0) OR (if m AND 2 \<noteq> 0 then 2 else 0) OR
     (if m AND 4 \<noteq> 0 then 4 else 0) OR (if m AND 8 \<noteq> 0 then 8 else 0)"

definition convertLppeUp :: "config_mask \<Rightarrow> u32" where
  "convertLppeUp m =
     (if m AND 1 \<noteq> 0 then 1 else 0) OR (if m AND 2 \<noteq> 0 then 2 else 0) OR
     (if m AND 4 \<noteq> 0 then 4 else 0) OR (if m AND 8 \<noteq> 0 then 8 else 0)"

definition convertLppeUp_of :: "u32 \<Rightarrow> config_mask" where
  "convertLppeUp_of m =
     (if m AND 1 \<noteq> 0 then 1 else 0) OR (if m AND 2 \<noteq> 0 then 2 else 0) OR
     (if m AND 4 \<noteq> 0 then 4 else 0) OR (if m AND 8 \<noteq> 0 then 8 else 0)"

definition convertAGloProt :: "config_mask \<Rightarrow> u32" where
  "convertAGloProt m =
     (if m AND 1 \<noteq> 0 then 1 else 0) OR (if m AND 2 \<noteq> 0 then 2 else 0) OR
     (if m AND 4 \<noteq> 0 then 4 else 0) OR (if m AND 8 \<noteq> 0 then 8 else 0)"

text \<open>The two-valued enumerations NO and YES are the truth values.\<close>

definition convertEP4ES :: "bool \<Rightarrow> u32" where
  "convertEP4ES yes = (if yes then 1 else 0)"

definition convertSuplEs :: "bool \<Rightarrow> u32" where
  "convertSuplEs yes = (if yes then 1 else 0)"

definition convertSuplMode :: "config_mask \<Rightarrow> u32" where
  "convertSuplMode m = (if m AND 1 \<noteq> 0 then 1 else 0) OR (if m AND 2 \<noteq> 0 then 2 else 0)"

section \<open>gps.conf\<close>

record gps_cfg =
  SUPL_VER :: u32
  SUPL_MODE :: u32
  SUPL_ES :: u32
  CAPABILITIES :: u32
  LPP_PROFILE :: u32
  USE_EMERGENCY_PDN_FOR_EMERGENCY_SUPL :: u32
  GPS_LOCK :: u32
  A_GLONASS_POS_PROTOCOL_SELECT :: u32
  AGPS_CONFIG_INJECT :: u32
  LPPE_CP_TECHNOLOGY :: u32
  LPPE_UP_TECHNOLOGY :: u32
  EXTERNAL_DR_ENABLED :: u32

definition getCarrierCapabilities :: "gps_cfg \<Rightarrow> u32" where
  "getCarrierCapabilities gps_conf =
     (let capabilities = CAPABILITIES gps_conf;
          capabilities = (if SUPL_MODE gps_conf AND 2 \<noteq> 2 then capabilities AND NOT 4 else capabilities)
      in if SUPL_MODE gps_conf AND 1 \<noteq> 1 then capabilities AND NOT 2 else capabilities)"

section \<open>GnssConfig\<close>

record GnssConfig =
  flags :: u32
  gpsLock :: GnssConfigGpsLock
  suplVersion :: GnssConfigSuplVersion
  assistanceType :: GnssAssistanceType
  hostName :: "string option"
  hostPort :: u32
  lppProfile :: GnssConfigLppProfile
  lppeControlPlaneMask :: config_mask
  lppeUserPlaneMask :: config_mask
  aGlonassPositionProtocolMask :: config_mask
  emergencyPdnForEmergencySupl :: bool
  suplEmergencyServices :: bool
  suplModeMask :: config_mask

section \<open>The conversions are inverse\<close>

lemma low_bits_nonzero:
  fixes m :: "'a::len word"
  shows "m AND 1 \<noteq> 0 \<longleftrightarrow> bit m 0" "m AND 2 \<noteq> 0 \<longleftrightarrow> bit m 1" "m AND 4 \<noteq> 0 \<longleftrightarrow> bit m 2" "m AND 8 \<noteq> 0 \<longleftrightarrow> bit m 3"
  using and_exp_eq_0_iff_not_bit [of m 0] and_exp_eq_0_iff_not_bit [of m 1] and_exp_eq_0_iff_not_bit [of m 2]
    and_exp_eq_0_iff_not_bit [of m 3] by simp_all

lemma bit_low:
  "bit (1 :: 'a::len word) n \<longleftrightarrow> n = 0"
  "2 \<le> LENGTH('a) \<Longrightarrow> bit (2 :: 'a::len word) n \<longleftrightarrow> n = 1"
  "3 \<le> LENGTH('a) \<Longrightarrow> bit (4 :: 'a::len word) n \<longleftrightarrow> n = 2"
  "4 \<le> LENGTH('a) \<Longrightarrow> bit (8 :: 'a::len word) n \<longleftrightarrow> n = 3"
  using bit_exp_iff [where 'a = "'a word", of 0 n] bit_exp_iff [where 'a = "'a word", of 1 n]
    bit_exp_iff [where 'a = "'a word", of 2 n] bit_exp_iff [where 'a = "'a word", of 3 n]
  by (auto simp: possible_bit_word)

lemma bit_low_config:
  "bit (1 :: config_mask) n \<longleftrightarrow> n = 0" "bit (2 :: config_mask) n \<longleftrightarrow> n = 1"
  "bit (4 :: config_mask) n \<longleftrightarrow> n = 2" "bit (8 :: config_mask) n \<longleftrightarrow> n = 3"
  "bit (1 :: u32) n \<longleftrightarrow> n = 0" "bit (2 :: u32) n \<longleftrightarrow> n = 1" "bit (4 :: u32) n \<longleftrightarrow> n = 2" "bit (8 :: u32) n \<longleftrightarrow> n = 3"
  by (rule bit_low; simp)+

lemma bit_if_0: "bit (if P then (a :: 'a::len word) else 0) n \<longleftrightarrow> P \<and> bit a n"
  by simp

lemma bit_converted:
  "bit (convertLppeCp m) n \<longleftrightarrow> n < 4 \<and> bit m n" "bit (convertLppeUp m) n \<longleftrightarrow> n < 4 \<and> bit m n"
  "bit (convertLppeCp_of w) n \<longleftrightarrow> n < 4 \<and> bit w n" "bit (convertLppeUp_of w) n \<longleftrightarrow> n < 4 \<and> bit w n"
proof -
  have lt: "n < 4 \<longleftrightarrow> n = 0 \<or> n = 1 \<or> n = 2 \<or> n = 3" by auto
  show "bit (convertLppeCp m) n \<longleftrightarrow> n < 4 \<and> bit m n" "bit (convertLppeUp m) n \<longleftrightarrow> n < 4 \<and> bit m n"
    "bit (convertLppeCp_of w) n \<longleftrightarrow> n < 4 \<and> bit w n" "bit (convertLppeUp_of w) n \<longleftrightarrow> n < 4 \<and> bit w n"
    unfolding convertLppeCp_def convertLppeUp_def convertLppeCp_of_def convertLppeUp_of_def
      low_bits_nonzero bit_or_iff bit_if_0 bit_low_config lt
    by blast+
qed

lemma bit_and_15:
  assumes "4 \<le> LENGTH('a)"
  shows "bit (m AND 15 :: 'a::len word) n \<longleftrightarrow> n < 4 \<and> bit m n"
proof -
  have "(15 :: 'a word) = mask 4" by (simp add: mask_eq_exp_minus_1)
  with assms show ?thesis
    by (simp only: bit_and_iff bit_mask_iff possible_bit_word) auto
qed

text \<open>The conversions between the API's enumerations and the numbers of gps.conf are inverse to each other,
  and the mask conversions keep exactly the four bits that are defined.\<close>

theorem gnss_config_conversions_inverse:
  "convertGpsLock_of (convertGpsLock l) = l \<and> convertSuplVersion_of (convertSuplVersion v) = v \<and>
   convertLppProfile_of (convertLppProfile p) = p \<and>
   convertLppeCp_of (convertLppeCp m) = m AND 15 \<and> convertLppeUp_of (convertLppeUp m) = m AND 15 \<and>
   convertLppeCp (convertLppeCp_of w) = w AND 15 \<and> convertLppeUp (convertLppeUp_of w) = w AND 15"
proof (intro conjI)
  show "convertGpsLock_of (convertGpsLock l) = l" by (cases l) (simp_all add: convertGpsLock_of_def)
  show "convertSuplVersion_of (convertSuplVersion v) = v" by (cases v) (simp_all add: convertSuplVersion_of_def)
  show "convertLppProfile_of (convertLppProfile p) = p" by (cases p) (simp_all add: convertLppProfile_of_def)
  show "convertLppeCp_of (convertLppeCp m) = m AND 15" "convertLppeUp_of (convertLppeUp m) = m AND 15"
    "convertLppeCp (convertLppeCp_of w) = w AND 15" "convertLppeUp (convertLppeUp_of w) = w AND 15"
    by (rule bit_eqI; simp add: bit_converted bit_and_15)+
qed

end
