(* ===== verification/Gnss_Adapter.thy ===== *)
theory Gnss_Adapter
  imports Location_API Gnss_Config
begin

text \<open>
  The GNSS adapter, gps/gnss/GnssAdapter.cpp: its clients and event mask, tracking sessions multiplexed
  onto the one fix session of the modem, the power vote of the control client, configuration updates and
  on-demand coarse position injection (ODCPI). A command queues a message for the adapter's thread;
  \<open>ga_proc\<close> is what the thread does with it. Results of the modem API are taken from an oracle in the
  order of the calls. Callbacks and calls of other components are outputs.
\<close>

section \<open>Sessions\<close>

text \<open>LocationSessionKey orders its maps by the id first.\<close>

datatype session_key = SessionKey (sk_client: addr) (sk_id: u32)

definition session_key_less :: "session_key \<Rightarrow> session_key \<Rightarrow> bool" where
  "session_key_less left right \<longleftrightarrow>
     sk_id left < sk_id right \<or> (sk_id left = sk_id right \<and> sk_client left < sk_client right)"

instantiation session_key :: linorder
begin

definition less_session_key :: "session_key \<Rightarrow> session_key \<Rightarrow> bool" where
  "less_session_key = session_key_less"

definition less_eq_session_key :: "session_key \<Rightarrow> session_key \<Rightarrow> bool" where
  "less_eq_session_key left right \<longleftrightarrow> left = right \<or> session_key_less left right"

instance
  by standard (auto simp: less_session_key_def less_eq_session_key_def session_key_less_def intro: session_key.expand)

end

text \<open>The size member is 0 in options that were never set.\<close>

record TrackOptions = LocationOptions +
  opt_size :: u32

definition no_options :: TrackOptions where
  "no_options = \<lparr>minInterval = 0, minDistance = 0, suplMode = GNSS_SUPL_MODE_STANDALONE, opt_size = 0\<rparr>"

datatype LocPositionMode =
  LOC_POSITION_MODE_INVALID | LOC_POSITION_MODE_STANDALONE | LOC_POSITION_MODE_MS_BASED
  | LOC_POSITION_MODE_MS_ASSISTED

record LocPosMode =
  pm_mode :: LocPositionMode
  pm_recurrence :: u32
  pm_min_interval :: u32
  pm_preferred_accuracy :: u32
  pm_preferred_time :: u32
  pm_share_position :: bool
  pm_credentials :: string
  pm_provider :: string

definition new_LocPosMode :: LocPosMode where
  "new_LocPosMode =
     \<lparr>pm_mode = LOC_POSITION_MODE_MS_BASED, pm_recurrence = 0, pm_min_interval = 1000,
      pm_preferred_accuracy = 50, pm_preferred_time = 120000, pm_share_position = True,
      pm_credentials = [], pm_provider = []\<rparr>"

text \<open>share_position is not compared; the strings by strncmp.\<close>

definition LocPosMode_equals :: "LocPosMode \<Rightarrow> LocPosMode \<Rightarrow> bool" where
  "LocPosMode_equals this anotherMode \<longleftrightarrow>
     pm_mode anotherMode = pm_mode this \<and> pm_recurrence anotherMode = pm_recurrence this \<and>
     pm_min_interval anotherMode = pm_min_interval this \<and>
     pm_preferred_accuracy anotherMode = pm_preferred_accuracy this \<and>
     pm_preferred_time anotherMode = pm_preferred_time this \<and>
     take 13 (pm_credentials anotherMode) = take 13 (pm_credentials this) \<and>
     take 7 (pm_provider anotherMode) = take 7 (pm_provider this)"

definition convertOptions :: "TrackOptions \<Rightarrow> LocPosMode" where
  "convertOptions options =
     new_LocPosMode\<lparr>pm_mode := (case suplMode options of
         GNSS_SUPL_MODE_MSB \<Rightarrow> LOC_POSITION_MODE_MS_BASED
       | GNSS_SUPL_MODE_MSA \<Rightarrow> LOC_POSITION_MODE_MS_ASSISTED
       | _ \<Rightarrow> LOC_POSITION_MODE_STANDALONE),
      pm_share_position := True, pm_min_interval := minInterval options\<rparr>"

section \<open>Messages, outputs and state\<close>

record OdcpiRequestInfo =
  odcpi_start :: bool
  tbfMillis :: u32
  isEmergencyMode :: bool

datatype ga_msg =
    MsgAddClient addr callbacks
  | MsgRemoveClient addr
  | MsgRequestCapabilities addr
  | MsgStartTracking addr u32 TrackOptions
  | MsgUpdateTracking addr u32 TrackOptions
  | MsgStopTracking addr u32
  | MsgRestartSessions
  | MsgSetUlpMode LocPosMode
  | MsgUlpStartTracking
  | MsgUlpStopTracking
  | MsgSetControlCallbacks bool bool
  | MsgEnableGnss u32 bool
  | MsgDisableGnss u32
  | MsgGnssUpdateConfig GnssConfig "u32 list"
  | MsgReportOdcpiRequest OdcpiRequestInfo
  | MsgInitOdcpi bool
  | MsgOdcpiTimerExpire

datatype ga_out =
    StartFix LocPosMode bool
  | StopFix bool
  | UlpFixMode LocPosMode
  | UlpStartFix
  | UlpStopFix
  | SetPositionMode LocPosMode
  | UpdateEvtMask "64 word"
  | CapabilitiesCb addr u32
  | ResponseCb addr LocationError u32
  | ControlResponseCb LocationError u32
  | ControlCollectiveCb "LocationError list" "u32 list"
  | SetGpsLock GnssConfigGpsLock
  | XtraLockStatus u32
  | ModemPowerVote bool
  | SetSUPLVersion GnssConfigSuplVersion
  | SetServer string nat
  | SetC2KServer string u32
  | SetLPPConfig GnssConfigLppProfile
  | SetLPPeCp config_mask
  | SetLPPeUp config_mask
  | SetAGLONASS config_mask
  | UlpSetCapabilities u32
  | OdcpiRequestCb OdcpiRequestInfo

text \<open>
  What the adapter gets from outside: the results of the modem's fix calls and of its configuration calls
  by the number of the call, whether a ULP takes over starts and stops, what the modem supports, and
  the name service.
\<close>

record ga_env =
  fix_ok :: "nat \<Rightarrow> bool"
  set_err :: "nat \<Rightarrow> LocationError"
  ulp_takes_start :: bool
  ulp_takes_stop :: bool
  has_LocApi :: bool
  supports_batching :: bool
  supports_distance_tracking :: bool
  supports_outdoor_trip :: bool
  supports_constellation_config :: bool
  supports_debug_nmea :: bool
  has_agps_status_cb :: bool
  resolves :: "string \<Rightarrow> bool"

text \<open>
  \<open>odcpi_armed\<close> is the system timer under OdcpiTimer, \<open>odcpiTimerActive\<close> its own mActive. \<open>apiCalls\<close>
  counts the calls of the modem's API. The bool pair of mControlCallbacks tells which of responseCb and
  collectiveResponseCb are set (none when its size is 0).
\<close>

record gnss_adapter =
  mClientData :: "(addr, callbacks) std_map"
  mTrackingSessions :: "(session_key, TrackOptions) std_map"
  mUlpPositionMode :: LocPosMode
  mControlCallbacks :: "bool \<times> bool"
  mPowerVoteId :: u32
  mNmeaMask :: u32
  mGps_conf :: gps_cfg
  mServerUrl :: string
  mEvtMask :: "64 word"
  has_mOdcpiRequestCb :: bool
  mOdcpiRequestActive :: bool
  odcpiTimerActive :: bool
  odcpi_armed :: bool
  mOdcpiRequest :: OdcpiRequestInfo
  mSessionIdCounter :: u32
  mMsgs :: "ga_msg list"
  apiCalls :: nat

definition new_adapter :: "gps_cfg \<Rightarrow> u32 \<Rightarrow> gnss_adapter" where
  "new_adapter conf counter =
     \<lparr>mClientData = [], mTrackingSessions = [],
      mUlpPositionMode = new_LocPosMode\<lparr>pm_mode := LOC_POSITION_MODE_INVALID\<rparr>,
      mControlCallbacks = (False, False), mPowerVoteId = 0, mNmeaMask = 0, mGps_conf = conf,
      mServerUrl = '':'', mEvtMask = 0, has_mOdcpiRequestCb = False, mOdcpiRequestActive = False,
      odcpiTimerActive = False, odcpi_armed = False,
      mOdcpiRequest = \<lparr>odcpi_start = True, tbfMillis = 0, isEmergencyMode = False\<rparr>,
      mSessionIdCounter = counter, mMsgs = [], apiCalls = 0\<rparr>"

definition ga_sendMsg :: "ga_msg \<Rightarrow> gnss_adapter \<Rightarrow> gnss_adapter" where
  "ga_sendMsg msg st = st\<lparr>mMsgs := mMsgs st @ [msg]\<rparr>"

definition generateSessionId :: "gnss_adapter \<Rightarrow> u32 \<times> gnss_adapter" where
  "generateSessionId st =
     (let c = mSessionIdCounter st + 1; c = (if c = 0xFFFFFFFF then 1 else c)
      in (c, st\<lparr>mSessionIdCounter := c\<rparr>))"

section \<open>Clients\<close>

abbreviation (input) BIT_PARSED_POSITION_REPORT :: "64 word" where "BIT_PARSED_POSITION_REPORT \<equiv> 0x1"
abbreviation (input) BIT_SATELLITE_REPORT :: "64 word" where "BIT_SATELLITE_REPORT \<equiv> 0x2"
abbreviation (input) BIT_NMEA_1HZ_REPORT :: "64 word" where "BIT_NMEA_1HZ_REPORT \<equiv> 0x4"
abbreviation (input) BIT_NI_NOTIFY_VERIFY_REQUEST :: "64 word" where "BIT_NI_NOTIFY_VERIFY_REQUEST \<equiv> 0x10"
abbreviation (input) BIT_LOCATION_SERVER_REQUEST :: "64 word" where "BIT_LOCATION_SERVER_REQUEST \<equiv> 0x40"
abbreviation (input) BIT_REQUEST_WIFI :: "64 word" where "BIT_REQUEST_WIFI \<equiv> 0x200"
abbreviation (input) BIT_GNSS_SV_POLYNOMIAL_REPORT :: "64 word" where "BIT_GNSS_SV_POLYNOMIAL_REPORT \<equiv> 0x800000"
abbreviation (input) BIT_GNSS_MEASUREMENT :: "64 word" where "BIT_GNSS_MEASUREMENT \<equiv> 0x4000000"

definition client_mask :: "u32 \<Rightarrow> callbacks \<Rightarrow> 64 word" where
  "client_mask nmea cb =
     (if trackingCb cb then BIT_PARSED_POSITION_REPORT else 0) OR
     (if gnssNiCb cb then BIT_NI_NOTIFY_VERIFY_REQUEST else 0) OR
     (if gnssSvCb cb then BIT_SATELLITE_REPORT else 0) OR
     (if gnssNmeaCb cb \<and> nmea \<noteq> 0 then BIT_NMEA_1HZ_REPORT else 0) OR
     (if gnssMeasurementsCb cb then BIT_GNSS_MEASUREMENT else 0)"

fun clients_mask :: "u32 \<Rightarrow> (addr, callbacks) std_map \<Rightarrow> 64 word \<Rightarrow> 64 word" where
  "clients_mask nmea [] m = m"
| "clients_mask nmea ((c, cb) # cs) m = clients_mask nmea cs (m OR client_mask nmea cb)"

definition updateClientsEventMask :: "ga_env \<Rightarrow> gnss_adapter \<Rightarrow> ga_out list \<times> gnss_adapter" where
  "updateClientsEventMask env st =
     (let m = clients_mask (mNmeaMask st) (mClientData st) 0;
          m = (if EXTERNAL_DR_ENABLED (mGps_conf st) = 1
               then m OR BIT_GNSS_MEASUREMENT OR BIT_GNSS_SV_POLYNOMIAL_REPORT else m);
          m = (if has_agps_status_cb env then m OR BIT_LOCATION_SERVER_REQUEST else m);
          m = (if has_mOdcpiRequestCb st then m OR BIT_REQUEST_WIFI else m)
      in ([UpdateEvtMask m], st\<lparr>mEvtMask := m\<rparr>))"

definition saveClient :: "ga_env \<Rightarrow> addr \<Rightarrow> callbacks \<Rightarrow> gnss_adapter \<Rightarrow> ga_out list \<times> gnss_adapter" where
  "saveClient env client cb st =
     updateClientsEventMask env (st\<lparr>mClientData := map_put client cb (mClientData st)\<rparr>)"

definition eraseClient :: "ga_env \<Rightarrow> addr \<Rightarrow> gnss_adapter \<Rightarrow> ga_out list \<times> gnss_adapter" where
  "eraseClient env client st =
     updateClientsEventMask env
       (if map_has (mClientData st) client
        then st\<lparr>mClientData := map_erase client (mClientData st)\<rparr> else st)"

definition hasTrackingCallback :: "addr \<Rightarrow> gnss_adapter \<Rightarrow> bool" where
  "hasTrackingCallback client st = (case map_of (mClientData st) client of Some cb \<Rightarrow> trackingCb cb | None \<Rightarrow> False)"

definition hasMeasurementsCallback :: "addr \<Rightarrow> gnss_adapter \<Rightarrow> bool" where
  "hasMeasurementsCallback client st =
     (case map_of (mClientData st) client of Some cb \<Rightarrow> gnssMeasurementsCb cb | None \<Rightarrow> False)"

definition reportResponse :: "addr \<Rightarrow> LocationError \<Rightarrow> u32 \<Rightarrow> gnss_adapter \<Rightarrow> ga_out list" where
  "reportResponse client err sessionId st =
     (case map_of (mClientData st) client of
        Some cb \<Rightarrow> if responseCb cb then [ResponseCb client err sessionId] else []
      | None \<Rightarrow> [])"

definition control_reportResponse :: "LocationError \<Rightarrow> u32 \<Rightarrow> gnss_adapter \<Rightarrow> ga_out list" where
  "control_reportResponse err sessionId st =
     (if fst (mControlCallbacks st) then [ControlResponseCb err sessionId] else [])"

definition collective_reportResponse :: "LocationError list \<Rightarrow> u32 list \<Rightarrow> gnss_adapter \<Rightarrow> ga_out list" where
  "collective_reportResponse errs ids st =
     (if snd (mControlCallbacks st) then [ControlCollectiveCb errs ids] else [])"

definition getCapabilities :: "ga_env \<Rightarrow> gnss_adapter \<Rightarrow> u32" where
  "getCapabilities env st =
     (let carrier = getCarrierCapabilities (mGps_conf st);
          m = 0x01 OR 0x10 OR (if carrier AND 2 \<noteq> 0 then 0x40 else 0) OR (if carrier AND 4 \<noteq> 0 then 0x80 else 0)
      in if \<not> has_LocApi env then m
         else m OR (if supports_batching env then 0x02 OR 0x08 else 0) OR
                (if supports_distance_tracking env then 0x04 else 0) OR
                (if supports_outdoor_trip env then 0x200 else 0) OR
                (if supports_constellation_config env then 0x20 else 0) OR
                (if supports_debug_nmea env then 0x100 else 0))"

fun broadcastCapabilities :: "u32 \<Rightarrow> (addr, callbacks) std_map \<Rightarrow> ga_out list" where
  "broadcastCapabilities m [] = []"
| "broadcastCapabilities m ((c, cb) # cs) =
     (if capabilitiesCb cb then [CapabilitiesCb c m] else []) @ broadcastCapabilities m cs"

section \<open>Tracking\<close>

definition isTrackingSession :: "addr \<Rightarrow> u32 \<Rightarrow> gnss_adapter \<Rightarrow> bool" where
  "isTrackingSession client sessionId st = map_has (mTrackingSessions st) (SessionKey client sessionId)"

definition saveTrackingSession :: "addr \<Rightarrow> u32 \<Rightarrow> TrackOptions \<Rightarrow> gnss_adapter \<Rightarrow> gnss_adapter" where
  "saveTrackingSession client sessionId options st =
     st\<lparr>mTrackingSessions := map_put (SessionKey client sessionId) options (mTrackingSessions st)\<rparr>"

definition eraseTrackingSession :: "addr \<Rightarrow> u32 \<Rightarrow> gnss_adapter \<Rightarrow> gnss_adapter" where
  "eraseTrackingSession client sessionId st =
     st\<lparr>mTrackingSessions := map_erase (SessionKey client sessionId) (mTrackingSessions st)\<rparr>"

definition api_startFix :: "ga_env \<Rightarrow> LocPosMode \<Rightarrow> gnss_adapter \<Rightarrow> bool \<times> ga_out list \<times> gnss_adapter" where
  "api_startFix env m st =
     (let ok = fix_ok env (apiCalls st) in (ok, [StartFix m ok], st\<lparr>apiCalls := apiCalls st + 1\<rparr>))"

definition api_stopFix :: "ga_env \<Rightarrow> gnss_adapter \<Rightarrow> bool \<times> ga_out list \<times> gnss_adapter" where
  "api_stopFix env st =
     (let ok = fix_ok env (apiCalls st) in (ok, [StopFix ok], st\<lparr>apiCalls := apiCalls st + 1\<rparr>))"

definition ga_startTracking :: "ga_env \<Rightarrow> TrackOptions \<Rightarrow> gnss_adapter \<Rightarrow> LocationError \<times> ga_out list \<times> gnss_adapter" where
  "ga_startTracking env options st =
     (let m = convertOptions options; out = [UlpFixMode m, UlpStartFix]
      in if ulp_takes_start env then (LOCATION_ERROR_SUCCESS, out, st)
         else let (ok, out1, st) = api_startFix env m st
              in (if ok then LOCATION_ERROR_SUCCESS else LOCATION_ERROR_GENERAL_FAILURE, out @ out1, st))"

definition ga_stopTracking :: "ga_env \<Rightarrow> gnss_adapter \<Rightarrow> LocationError \<times> ga_out list \<times> gnss_adapter" where
  "ga_stopTracking env st =
     (if ulp_takes_stop env then (LOCATION_ERROR_SUCCESS, [UlpStopFix], st)
      else let (ok, out1, st) = api_stopFix env st
           in (if ok then LOCATION_ERROR_SUCCESS else LOCATION_ERROR_GENERAL_FAILURE, UlpStopFix # out1, st))"

text \<open>The loop for the smallest interval over the sessions that satisfy \<open>counts\<close>.\<close>

fun smallest_loop :: "(session_key \<Rightarrow> bool) \<Rightarrow> TrackOptions \<Rightarrow> (session_key, TrackOptions) std_map \<Rightarrow> TrackOptions" where
  "smallest_loop counts smallest [] = smallest"
| "smallest_loop counts smallest ((k, options) # m) =
     smallest_loop counts
       (if counts k \<and> (opt_size smallest = 0 \<or> minInterval options < minInterval smallest) then options else smallest) m"

definition startTrackingMultiplex ::
  "ga_env \<Rightarrow> TrackOptions \<Rightarrow> gnss_adapter \<Rightarrow> LocationError \<times> ga_out list \<times> gnss_adapter" where
  "startTrackingMultiplex env options st =
     (if mTrackingSessions st = [] then ga_startTracking env options st
      else if minInterval options < minInterval (smallest_loop (\<lambda>_. True) no_options (mTrackingSessions st))
      then ga_startTracking env options st
      else (LOCATION_ERROR_SUCCESS, [], st))"

definition updateTrackingMultiplex ::
  "ga_env \<Rightarrow> addr \<Rightarrow> u32 \<Rightarrow> TrackOptions \<Rightarrow> gnss_adapter \<Rightarrow> LocationError \<times> ga_out list \<times> gnss_adapter" where
  "updateTrackingMultiplex env client sid options st =
     (if length (mTrackingSessions st) = 1 then ga_startTracking env options st
      else case map_of (mTrackingSessions st) (SessionKey client sid) of
             None \<Rightarrow> (LOCATION_ERROR_SUCCESS, [], st)
           | Some old \<Rightarrow>
               (let smallest = smallest_loop (\<lambda>k. k \<noteq> SessionKey client sid) no_options (mTrackingSessions st)
                in if minInterval options < minInterval smallest then ga_startTracking env options st
                   else if minInterval old < minInterval smallest then ga_startTracking env smallest st
                   else (LOCATION_ERROR_SUCCESS, [], st)))"

definition stopTrackingMultiplex ::
  "ga_env \<Rightarrow> addr \<Rightarrow> u32 \<Rightarrow> gnss_adapter \<Rightarrow> LocationError \<times> ga_out list \<times> gnss_adapter" where
  "stopTrackingMultiplex env client sid st =
     (if length (mTrackingSessions st) = 1 then ga_stopTracking env st
      else case map_of (mTrackingSessions st) (SessionKey client sid) of
             None \<Rightarrow> (LOCATION_ERROR_SUCCESS, [], st)
           | Some old \<Rightarrow>
               (let smallest = smallest_loop (\<lambda>k. k \<noteq> SessionKey client sid) no_options (mTrackingSessions st)
                in if minInterval old < minInterval smallest then ga_startTracking env smallest st
                   else (LOCATION_ERROR_SUCCESS, [], st)))"

text \<open>The loop of stopClientSessions over the keys the map had, erasing as it goes.\<close>

fun stop_sessions_loop :: "ga_env \<Rightarrow> addr \<Rightarrow> session_key list \<Rightarrow> gnss_adapter \<Rightarrow> ga_out list \<times> gnss_adapter" where
  "stop_sessions_loop env client [] st = ([], st)"
| "stop_sessions_loop env client (k # ks) st =
     (if client = sk_client k
      then let (err, out1, st) = stopTrackingMultiplex env (sk_client k) (sk_id k) st;
               st = (if err = LOCATION_ERROR_SUCCESS
                     then st\<lparr>mTrackingSessions := map_erase k (mTrackingSessions st)\<rparr> else st);
               (out2, st) = stop_sessions_loop env client ks st
           in (out1 @ out2, st)
      else stop_sessions_loop env client ks st)"

definition stopClientSessions :: "ga_env \<Rightarrow> addr \<Rightarrow> gnss_adapter \<Rightarrow> ga_out list \<times> gnss_adapter" where
  "stopClientSessions env client st = stop_sessions_loop env client (map fst (mTrackingSessions st)) st"

definition restartSessions :: "ga_env \<Rightarrow> gnss_adapter \<Rightarrow> ga_out list \<times> gnss_adapter" where
  "restartSessions env st =
     (let st = st\<lparr>mOdcpiRequestActive := False\<rparr>
      in if mTrackingSessions st = [] then ([], st)
         else let m = convertOptions (smallest_loop (\<lambda>_. True) no_options (mTrackingSessions st));
                  (_, out, st) = api_startFix env m st
              in (out, st))"

section \<open>Configuration updates\<close>

abbreviation (input) MAX_URL_LEN :: nat where "MAX_URL_LEN \<equiv> 256"

definition to_lower :: "char \<Rightarrow> char" where
  "to_lower c = (if 65 \<le> (of_char c :: nat) \<and> (of_char c :: nat) \<le> 90 then char_of (of_char c + 32 :: nat) else c)"

definition same_ignoring_case :: "string \<Rightarrow> string \<Rightarrow> bool" where
  "same_ignoring_case s t \<longleftrightarrow> map to_lower s = map to_lower t"

text \<open>One call of the modem's configuration API.\<close>

definition api_set :: "ga_env \<Rightarrow> ga_out \<Rightarrow> gnss_adapter \<Rightarrow> LocationError \<times> ga_out list \<times> gnss_adapter" where
  "api_set env call st = (set_err env (apiCalls st), [call], st\<lparr>apiCalls := apiCalls st + 1\<rparr>)"

text \<open>
  The URL is written to a buffer of 256 bytes; the length passed on is that of the whole text. \<open>port\<close> is
  an int.
\<close>

definition setSuplHostServer ::
  "ga_env \<Rightarrow> string option \<Rightarrow> u32 \<Rightarrow> gnss_adapter \<Rightarrow> LocationError \<times> ga_out list \<times> gnss_adapter" where
  "setSuplHostServer env server port st =
     (if AGPS_CONFIG_INJECT (mGps_conf st) = 0 then (LOCATION_ERROR_SUCCESS, [], st)
      else
        let url = (case server of
                     None \<Rightarrow> Some []
                   | Some s \<Rightarrow> if s = [] \<or> same_ignoring_case ''NONE'' s then Some []
                               else if 0 < sint port then Some (s @ '':'' @ dec (unat port))
                               else None)
        in case url of
             None \<Rightarrow> (LOCATION_ERROR_INVALID_PARAMETER, [], st)
           | Some u \<Rightarrow>
               let serverUrl = take (MAX_URL_LEN - 1) u
               in if same_ignoring_case (take MAX_URL_LEN (mServerUrl st)) serverUrl
                  then (LOCATION_ERROR_INVALID_PARAMETER, [], st)
                  else api_set env (SetServer serverUrl (length u)) (st\<lparr>mServerUrl := serverUrl\<rparr>))"

text \<open>The items of MsgGnssUpdateConfig, in the order of the code.\<close>

type_synonym cfg_action = "gnss_adapter \<Rightarrow> LocationError \<times> ga_out list \<times> gnss_adapter"

definition upd_conf :: "(gps_cfg \<Rightarrow> gps_cfg) \<Rightarrow> gnss_adapter \<Rightarrow> gnss_adapter" where
  "upd_conf f st = st\<lparr>mGps_conf := f (mGps_conf st)\<rparr>"

definition gps_lock_action :: "ga_env \<Rightarrow> GnssConfig \<Rightarrow> cfg_action" where
  "gps_lock_action env c st =
     (let st = upd_conf (\<lambda>g. g\<lparr>GPS_LOCK := convertGpsLock (gpsLock c)\<rparr>) st
      in if mPowerVoteId st = 0 then api_set env (SetGpsLock (gpsLock c)) st
         else (LOCATION_ERROR_SUCCESS, [], st))"

definition supl_version_action :: "ga_env \<Rightarrow> GnssConfig \<Rightarrow> cfg_action" where
  "supl_version_action env c st =
     (let v = convertSuplVersion (suplVersion c)
      in if v \<noteq> SUPL_VER (mGps_conf st) \<and> AGPS_CONFIG_INJECT (mGps_conf st) \<noteq> 0
         then api_set env (SetSUPLVersion (suplVersion c)) (upd_conf (\<lambda>g. g\<lparr>SUPL_VER := v\<rparr>) st)
         else (LOCATION_ERROR_SUCCESS, [], st))"

definition assistance_action :: "ga_env \<Rightarrow> GnssConfig \<Rightarrow> cfg_action" where
  "assistance_action env c st =
     (case assistanceType c of
        GNSS_ASSISTANCE_TYPE_SUPL \<Rightarrow> setSuplHostServer env (hostName c) (hostPort c) st
      | GNSS_ASSISTANCE_TYPE_C2K \<Rightarrow>
          if AGPS_CONFIG_INJECT (mGps_conf st) \<noteq> 0
          then (let host = (case hostName c of Some h \<Rightarrow> h | None \<Rightarrow> [])
                in if \<not> resolves env host then (LOCATION_ERROR_INVALID_PARAMETER, [], st)
                   else api_set env (SetC2KServer host (hostPort c)) st)
          else (LOCATION_ERROR_SUCCESS, [], st))"

definition lpp_profile_action :: "ga_env \<Rightarrow> GnssConfig \<Rightarrow> cfg_action" where
  "lpp_profile_action env c st =
     (let v = convertLppProfile (lppProfile c)
      in if v \<noteq> LPP_PROFILE (mGps_conf st) \<and> AGPS_CONFIG_INJECT (mGps_conf st) \<noteq> 0
         then api_set env (SetLPPConfig (lppProfile c)) (upd_conf (\<lambda>g. g\<lparr>LPP_PROFILE := v\<rparr>) st)
         else (LOCATION_ERROR_SUCCESS, [], st))"

definition lppe_cp_action :: "ga_env \<Rightarrow> GnssConfig \<Rightarrow> cfg_action" where
  "lppe_cp_action env c st =
     (let v = convertLppeCp (lppeControlPlaneMask c)
      in if v \<noteq> LPPE_CP_TECHNOLOGY (mGps_conf st)
         then api_set env (SetLPPeCp (lppeControlPlaneMask c)) (upd_conf (\<lambda>g. g\<lparr>LPPE_CP_TECHNOLOGY := v\<rparr>) st)
         else (LOCATION_ERROR_SUCCESS, [], st))"

definition lppe_up_action :: "ga_env \<Rightarrow> GnssConfig \<Rightarrow> cfg_action" where
  "lppe_up_action env c st =
     (let v = convertLppeUp (lppeUserPlaneMask c)
      in if v \<noteq> LPPE_UP_TECHNOLOGY (mGps_conf st)
         then api_set env (SetLPPeUp (lppeUserPlaneMask c)) (upd_conf (\<lambda>g. g\<lparr>LPPE_UP_TECHNOLOGY := v\<rparr>) st)
         else (LOCATION_ERROR_SUCCESS, [], st))"

definition aglonass_action :: "ga_env \<Rightarrow> GnssConfig \<Rightarrow> cfg_action" where
  "aglonass_action env c st =
     (let v = convertAGloProt (aGlonassPositionProtocolMask c)
      in if v \<noteq> A_GLONASS_POS_PROTOCOL_SELECT (mGps_conf st) \<and> AGPS_CONFIG_INJECT (mGps_conf st) \<noteq> 0
         then api_set env (SetAGLONASS (aGlonassPositionProtocolMask c))
                (upd_conf (\<lambda>g. g\<lparr>A_GLONASS_POS_PROTOCOL_SELECT := v\<rparr>) st)
         else (LOCATION_ERROR_SUCCESS, [], st))"

definition em_pdn_action :: "GnssConfig \<Rightarrow> cfg_action" where
  "em_pdn_action c st =
     (LOCATION_ERROR_SUCCESS, [],
      upd_conf (\<lambda>g. g\<lparr>USE_EMERGENCY_PDN_FOR_EMERGENCY_SUPL := convertEP4ES (emergencyPdnForEmergencySupl c)\<rparr>) st)"

definition supl_es_action :: "GnssConfig \<Rightarrow> cfg_action" where
  "supl_es_action c st =
     (LOCATION_ERROR_SUCCESS, [], upd_conf (\<lambda>g. g\<lparr>SUPL_ES := convertSuplEs (suplEmergencyServices c)\<rparr>) st)"

definition supl_mode_action :: "ga_env \<Rightarrow> GnssConfig \<Rightarrow> cfg_action" where
  "supl_mode_action env c st =
     (let v = convertSuplMode (suplModeMask c)
      in if v \<noteq> SUPL_MODE (mGps_conf st)
         then let st = upd_conf (\<lambda>g. g\<lparr>SUPL_MODE := v\<rparr>) st
              in (LOCATION_ERROR_SUCCESS,
                  UlpSetCapabilities (getCarrierCapabilities (mGps_conf st)) #
                  broadcastCapabilities (getCapabilities env st) (mClientData st), st)
         else (LOCATION_ERROR_SUCCESS, [], st))"

definition cfg_actions :: "ga_env \<Rightarrow> GnssConfig \<Rightarrow> cfg_action list" where
  "cfg_actions env c =
     [gps_lock_action env c, supl_version_action env c, assistance_action env c, lpp_profile_action env c,
      lppe_cp_action env c, lppe_up_action env c, aglonass_action env c, em_pdn_action c, supl_es_action c,
      supl_mode_action env c]"

text \<open>The action of flag bit \<open>i\<close> and those after it; the results are collected in order.\<close>

fun run_cfg_actions :: "u32 \<Rightarrow> nat \<Rightarrow> cfg_action list \<Rightarrow> gnss_adapter \<Rightarrow> LocationError list \<times> ga_out list \<times> gnss_adapter" where
  "run_cfg_actions fl i [] st = ([], [], st)"
| "run_cfg_actions fl i (a # as) st =
     (if bit fl i
      then let (err, out1, st) = a st; (errs, out2, st) = run_cfg_actions fl (i + 1) as st
           in (err # errs, out1 @ out2, st)
      else run_cfg_actions fl (i + 1) as st)"

text \<open>The ids are reported for as many entries as there are results.\<close>

definition gnssUpdateConfig_proc :: "ga_env \<Rightarrow> GnssConfig \<Rightarrow> u32 list \<Rightarrow> gnss_adapter \<Rightarrow> ga_out list \<times> gnss_adapter" where
  "gnssUpdateConfig_proc env c ids st =
     (let (errs, out, st) = run_cfg_actions (flags c) 0 (cfg_actions env c) st
      in (out @ collective_reportResponse errs (take (length errs) ids) st, st))"

text \<open>Counting the set flags by shifting.\<close>

function count_flags :: "u32 \<Rightarrow> nat" where
  "count_flags f = (if f = 0 then 0 else (if f AND 1 \<noteq> 0 then 1 else 0) + count_flags (drop_bit 1 f))"
  by pat_completeness auto
termination
proof (relation "measure unat")
  fix f :: u32
  assume "f \<noteq> 0"
  then have "unat f div 2 < unat f" by (simp add: unat_gt_0)
  then show "(drop_bit 1 f, f) \<in> measure unat" by (simp add: drop_bit_eq_div unat_div)
qed simp

declare count_flags.simps [simp del]

fun generate_ids :: "nat \<Rightarrow> gnss_adapter \<Rightarrow> u32 list \<times> gnss_adapter" where
  "generate_ids 0 st = ([], st)"
| "generate_ids (Suc n) st =
     (let (i, st) = generateSessionId st; (is, st) = generate_ids n st in (i # is, st))"

definition gnssUpdateConfigCommand :: "GnssConfig \<Rightarrow> gnss_adapter \<Rightarrow> u32 list option \<times> gnss_adapter" where
  "gnssUpdateConfigCommand c st =
     (if count_flags (flags c) = 0 then (None, st)
      else let (ids, st) = generate_ids (count_flags (flags c)) st
           in (Some ids, ga_sendMsg (MsgGnssUpdateConfig c ids) st))"

section \<open>The control client's power vote\<close>

definition enableCommand :: "bool \<Rightarrow> gnss_adapter \<Rightarrow> u32 \<times> ga_out list \<times> gnss_adapter" where
  "enableCommand is_gnss st =
     (let (sid, st) = generateSessionId st
      in (sid, [ModemPowerVote True], ga_sendMsg (MsgEnableGnss sid is_gnss) st))"

definition disableCommand :: "u32 \<Rightarrow> gnss_adapter \<Rightarrow> ga_out list \<times> gnss_adapter" where
  "disableCommand sid st = ([ModemPowerVote False], ga_sendMsg (MsgDisableGnss sid) st)"

definition enable_proc :: "u32 \<Rightarrow> bool \<Rightarrow> gnss_adapter \<Rightarrow> ga_out list \<times> gnss_adapter" where
  "enable_proc sid is_gnss st =
     (if \<not> is_gnss then (control_reportResponse LOCATION_ERROR_INVALID_PARAMETER sid st, st)
      else if 0 < mPowerVoteId st then (control_reportResponse LOCATION_ERROR_ALREADY_STARTED sid st, st)
      else (let st = st\<lparr>mPowerVoteId := sid\<rparr>
            in ([SetGpsLock GNSS_CONFIG_GPS_LOCK_NONE, XtraLockStatus (convertGpsLock GNSS_CONFIG_GPS_LOCK_NONE)] @
                control_reportResponse LOCATION_ERROR_SUCCESS sid st, st)))"

definition disable_proc :: "u32 \<Rightarrow> gnss_adapter \<Rightarrow> ga_out list \<times> gnss_adapter" where
  "disable_proc sid st =
     (if mPowerVoteId st \<noteq> sid then (control_reportResponse LOCATION_ERROR_ID_UNKNOWN sid st, st)
      else (let st = st\<lparr>mPowerVoteId := 0\<rparr>; l = convertGpsLock_of (GPS_LOCK (mGps_conf st))
            in ([SetGpsLock l, XtraLockStatus (convertGpsLock l)] @
                control_reportResponse LOCATION_ERROR_SUCCESS sid st, st)))"

section \<open>ODCPI\<close>

text \<open>OdcpiTimer: LocTimer::start refuses a timer that runs.\<close>

definition odcpiTimer_start :: "gnss_adapter \<Rightarrow> gnss_adapter" where
  "odcpiTimer_start st = st\<lparr>odcpiTimerActive := True, odcpi_armed := True\<rparr>"

definition odcpiTimer_stop :: "gnss_adapter \<Rightarrow> gnss_adapter" where
  "odcpiTimer_stop st = st\<lparr>odcpiTimerActive := False, odcpi_armed := False\<rparr>"

definition odcpiTimer_restart :: "gnss_adapter \<Rightarrow> gnss_adapter" where
  "odcpiTimer_restart st = odcpiTimer_start (odcpiTimer_stop st)"

definition reportOdcpiRequest :: "OdcpiRequestInfo \<Rightarrow> gnss_adapter \<Rightarrow> ga_out list \<times> gnss_adapter" where
  "reportOdcpiRequest request st =
     (if \<not> has_mOdcpiRequestCb st then ([], st)
      else if odcpi_start request
      then let (out, st) =
                 (if \<not> mOdcpiRequestActive st \<and> \<not> odcpiTimerActive st
                  then ([OdcpiRequestCb request], odcpiTimer_start (st\<lparr>mOdcpiRequestActive := True\<rparr>))
                  else if \<not> isEmergencyMode (mOdcpiRequest st) \<and> isEmergencyMode request
                  then ([OdcpiRequestCb request],
                        (let st = st\<lparr>mOdcpiRequestActive := True\<rparr>
                         in if odcpiTimerActive st then odcpiTimer_restart st else odcpiTimer_start st))
                  else if \<not> mOdcpiRequestActive st \<and> odcpiTimerActive st
                  then ([], st\<lparr>mOdcpiRequestActive := True\<rparr>)
                  else ([], st))
           in (out, st\<lparr>mOdcpiRequest := request\<rparr>)
      else ([], st\<lparr>mOdcpiRequestActive := False\<rparr>))"

definition initOdcpi :: "bool \<Rightarrow> gnss_adapter \<Rightarrow> ga_out list \<times> gnss_adapter" where
  "initOdcpi has_cb st =
     (let st = st\<lparr>has_mOdcpiRequestCb := has_cb, mEvtMask := mEvtMask st OR BIT_REQUEST_WIFI\<rparr>
      in ([UpdateEvtMask (mEvtMask st)], st))"

definition odcpiTimerExpire :: "gnss_adapter \<Rightarrow> ga_out list \<times> gnss_adapter" where
  "odcpiTimerExpire st =
     (if mOdcpiRequestActive st then ([OdcpiRequestCb (mOdcpiRequest st)], odcpiTimer_restart st)
      else ([], odcpiTimer_stop st))"

text \<open>The system timer fires on the timer thread, which queues the expiry.\<close>

definition odcpi_timeout :: "gnss_adapter \<Rightarrow> gnss_adapter" where
  "odcpi_timeout st =
     (if odcpi_armed st then ga_sendMsg MsgOdcpiTimerExpire (st\<lparr>odcpi_armed := False\<rparr>) else st)"

section \<open>Commands and messages\<close>

definition startTrackingCommand :: "addr \<Rightarrow> TrackOptions \<Rightarrow> gnss_adapter \<Rightarrow> u32 \<times> gnss_adapter" where
  "startTrackingCommand client options st =
     (let (sid, st) = generateSessionId st in (sid, ga_sendMsg (MsgStartTracking client sid options) st))"

definition updateTrackingOptionsCommand :: "addr \<Rightarrow> u32 \<Rightarrow> TrackOptions \<Rightarrow> gnss_adapter \<Rightarrow> gnss_adapter" where
  "updateTrackingOptionsCommand client sid options st = ga_sendMsg (MsgUpdateTracking client sid options) st"

definition stopTrackingCommand :: "addr \<Rightarrow> u32 \<Rightarrow> gnss_adapter \<Rightarrow> gnss_adapter" where
  "stopTrackingCommand client sid st = ga_sendMsg (MsgStopTracking client sid) st"

definition start_tracking_proc ::
  "ga_env \<Rightarrow> addr \<Rightarrow> u32 \<Rightarrow> TrackOptions \<Rightarrow> gnss_adapter \<Rightarrow> ga_out list \<times> gnss_adapter" where
  "start_tracking_proc env client sid options st =
     (let (err, out, st) =
            (if \<not> hasTrackingCallback client st \<and> \<not> hasMeasurementsCallback client st
             then (LOCATION_ERROR_CALLBACK_MISSING, [], st)
             else if opt_size options = 0 then (LOCATION_ERROR_INVALID_PARAMETER, [], st)
             else let (err, out, st) = startTrackingMultiplex env options st
                  in (err, out, if err = LOCATION_ERROR_SUCCESS then saveTrackingSession client sid options st else st))
      in (out @ reportResponse client err sid st, st))"

definition update_tracking_proc ::
  "ga_env \<Rightarrow> addr \<Rightarrow> u32 \<Rightarrow> TrackOptions \<Rightarrow> gnss_adapter \<Rightarrow> ga_out list \<times> gnss_adapter" where
  "update_tracking_proc env client sid options st =
     (if isTrackingSession client sid st
      then let (err, out, st) =
                 (if opt_size options = 0 then (LOCATION_ERROR_INVALID_PARAMETER, [], st)
                  else let (err, out, st) = updateTrackingMultiplex env client sid options st
                       in (err, out, if err = LOCATION_ERROR_SUCCESS then saveTrackingSession client sid options st else st))
           in (out @ reportResponse client err sid st, st)
      else ([], st))"

definition stop_tracking_proc :: "ga_env \<Rightarrow> addr \<Rightarrow> u32 \<Rightarrow> gnss_adapter \<Rightarrow> ga_out list \<times> gnss_adapter" where
  "stop_tracking_proc env client sid st =
     (if isTrackingSession client sid st
      then let (err, out, st) = stopTrackingMultiplex env client sid st;
               st = (if err = LOCATION_ERROR_SUCCESS then eraseTrackingSession client sid st else st)
           in (out @ reportResponse client err sid st, st)
      else ([], st))"

definition setUlpPositionMode :: "LocPosMode \<Rightarrow> gnss_adapter \<Rightarrow> bool \<times> gnss_adapter" where
  "setUlpPositionMode m st =
     (if \<not> LocPosMode_equals (mUlpPositionMode st) m then (True, st\<lparr>mUlpPositionMode := m\<rparr>) else (False, st))"

definition isInSession :: "gnss_adapter \<Rightarrow> bool" where
  "isInSession st \<longleftrightarrow> mTrackingSessions st \<noteq> []"

fun ga_proc :: "ga_env \<Rightarrow> ga_msg \<Rightarrow> gnss_adapter \<Rightarrow> ga_out list \<times> gnss_adapter" where
  "ga_proc env (MsgAddClient client cb) st = saveClient env client cb st"
| "ga_proc env (MsgRemoveClient client) st =
     (let (out1, st) = stopClientSessions env client st; (out2, st) = eraseClient env client st
      in (out1 @ out2, st))"
| "ga_proc env (MsgRequestCapabilities client) st =
     ((case map_of (mClientData st) client of
         Some cb \<Rightarrow> if capabilitiesCb cb then [CapabilitiesCb client (getCapabilities env st)] else []
       | None \<Rightarrow> []), st)"
| "ga_proc env (MsgStartTracking client sid options) st = start_tracking_proc env client sid options st"
| "ga_proc env (MsgUpdateTracking client sid options) st = update_tracking_proc env client sid options st"
| "ga_proc env (MsgStopTracking client sid) st = stop_tracking_proc env client sid st"
| "ga_proc env MsgRestartSessions st = restartSessions env st"
| "ga_proc env (MsgSetUlpMode m) st =
     (let (changed, st) = setUlpPositionMode m st in (if changed then [SetPositionMode m] else [], st))"
| "ga_proc env MsgUlpStartTracking st =
     (if isInSession st then ([], st)
      else let (_, out, st) = api_startFix env (mUlpPositionMode st) st in (out, st))"
| "ga_proc env MsgUlpStopTracking st =
     (let (_, st) = setUlpPositionMode (new_LocPosMode\<lparr>pm_mode := LOC_POSITION_MODE_INVALID\<rparr>) st;
          (_, out, st) = api_stopFix env st
      in (out, st))"
| "ga_proc env (MsgSetControlCallbacks response collective) st =
     ([], st\<lparr>mControlCallbacks := (response, collective)\<rparr>)"
| "ga_proc env (MsgEnableGnss sid is_gnss) st = enable_proc sid is_gnss st"
| "ga_proc env (MsgDisableGnss sid) st = disable_proc sid st"
| "ga_proc env (MsgGnssUpdateConfig c ids) st = gnssUpdateConfig_proc env c ids st"
| "ga_proc env (MsgReportOdcpiRequest request) st = reportOdcpiRequest request st"
| "ga_proc env (MsgInitOdcpi has_cb) st = initOdcpi has_cb st"
| "ga_proc env MsgOdcpiTimerExpire st = odcpiTimerExpire st"

text \<open>The adapter's thread takes the next message.\<close>

definition ga_next :: "ga_env \<Rightarrow> gnss_adapter \<Rightarrow> ga_out list \<times> gnss_adapter" where
  "ga_next env st = (case mMsgs st of [] \<Rightarrow> ([], st) | msg # ms \<Rightarrow> ga_proc env msg (st\<lparr>mMsgs := ms\<rparr>))"

end
