(* ===== verification/Gnss_Adapter_Props.thy ===== *)
theory Gnss_Adapter_Props
  imports Gnss_Adapter
begin

text \<open>
  The correctness of the GNSS adapter: the modem's fix session follows the fastest tracking session,
  ODCPI requests are limited by the timer, and configuration updates are answered item by item.
\<close>

section \<open>The smallest interval\<close>

definition sized :: "(session_key, TrackOptions) std_map \<Rightarrow> bool" where
  "sized m \<longleftrightarrow> list_all (\<lambda>(k, o'). opt_size o' \<noteq> 0) m"

definition imin :: "(session_key, TrackOptions) std_map \<Rightarrow> u32" where
  "imin m = Min (minInterval ` snd ` set m)"

lemma smallest_loop_filter:
  "smallest_loop P acc m = smallest_loop (\<lambda>_. True) acc (filter (\<lambda>(k, o'). P k) m)"
  by (induction P acc m rule: smallest_loop.induct) auto

lemma smallest_loop_other: "smallest_loop (\<lambda>k'. k' \<noteq> k) acc m = smallest_loop (\<lambda>_. True) acc (map_erase k m)"
  unfolding map_erase_def by (rule smallest_loop_filter)

lemma smallest_loop_sized:
  "sized m \<Longrightarrow> opt_size acc \<noteq> 0 \<Longrightarrow>
   minInterval (smallest_loop (\<lambda>_. True) acc m) = Min (insert (minInterval acc) (minInterval ` snd ` set m)) \<and>
   opt_size (smallest_loop (\<lambda>_. True) acc m) \<noteq> 0"
proof (induction m arbitrary: acc)
  case (Cons x m)
  obtain k o1 where x: "x = (k, o1)" by fastforce
  define acc' where "acc' = (if minInterval o1 < minInterval acc then o1 else acc)"
  have a: "opt_size acc' \<noteq> 0" "minInterval acc' = min (minInterval acc) (minInterval o1)"
    using Cons.prems x by (auto simp: acc'_def sized_def min_def)
  have "smallest_loop (\<lambda>_. True) acc (x # m) = smallest_loop (\<lambda>_. True) acc' m"
    using Cons.prems(2) by (simp add: x acc'_def)
  moreover have "Min (insert (minInterval acc) (minInterval ` snd ` set (x # m))) =
      Min (insert (minInterval acc') (minInterval ` snd ` set m))"
    by (cases m) (simp_all add: x a(2) min.assoc)
  ultimately show ?case using Cons.IH [of acc'] Cons.prems(1) a(1) by (simp add: sized_def)
qed simp

lemma smallest_min:
  assumes "sized m" "m \<noteq> []"
  shows "minInterval (smallest_loop (\<lambda>_. True) no_options m) = imin m"
proof -
  obtain k o1 m' where m: "m = (k, o1) # m'" using assms(2) by (cases m) auto
  have "smallest_loop (\<lambda>_. True) no_options m = smallest_loop (\<lambda>_. True) o1 m'"
    by (simp add: m no_options_def)
  with smallest_loop_sized [of m' o1] assms(1) show ?thesis by (simp add: m imin_def sized_def)
qed

lemma map_put_set:
  fixes m :: "('k::linorder, 'v) std_map"
  assumes "map_sorted m"
  shows "set (map_put k v m) = insert (k, v) (set (map_erase k m))"
proof (rule set_eqI)
  fix x :: "'k \<times> 'v"
  obtain a b where x: "x = (a, b)" by fastforce
  have "(a, b) \<in> set (map_put k v m) \<longleftrightarrow> (if a = k then b = v else map_of m a = Some b)"
    by (auto simp: map_sorted_of_eq [OF map_sorted_put [OF assms], symmetric])
  then show "x \<in> set (map_put k v m) \<longleftrightarrow> x \<in> insert (k, v) (set (map_erase k m))"
    by (simp add: x map_erase_set map_sorted_of_eq [OF assms])
qed

lemma map_set_erase:
  fixes m :: "('k::linorder, 'v) std_map"
  assumes "map_sorted m" "map_of m k = Some v"
  shows "set m = insert (k, v) (set (map_erase k m))"
proof (rule set_eqI)
  fix x :: "'k \<times> 'v"
  obtain a b where x: "x = (a, b)" by fastforce
  show "x \<in> set m \<longleftrightarrow> x \<in> insert (k, v) (set (map_erase k m))"
    using assms(2) by (auto simp: x map_erase_set map_sorted_of_eq [OF assms(1), symmetric])
qed

lemma imin_insert:
  assumes "set m = insert (k, v) (set m')" "m' \<noteq> []"
  shows "imin m = min (minInterval v) (imin m')"
  using assms by (simp add: imin_def)

lemma erase_absent: "map_of m k = None \<Longrightarrow> map_erase k m = m"
  by (induction m) (auto simp: map_erase_def split: if_splits)

lemma erase_single: "length m = 1 \<Longrightarrow> map_of m k = Some v \<Longrightarrow> m = [(k, v)] \<and> map_erase k m = []"
  by (cases m) (auto simp: map_erase_def split: if_splits)

lemma erase_others: "map_sorted m \<Longrightarrow> length m \<noteq> 1 \<Longrightarrow> map_of m k = Some v \<Longrightarrow> map_erase k m \<noteq> []"
proof
  assume a: "map_sorted m" "length m \<noteq> 1" "map_of m k = Some v" "map_erase k m = []"
  then have "set m = {(k, v)}" using map_set_erase [OF a(1,3)] by simp
  moreover have "distinct m" using a(1) map_sorted_distinct distinct_map by blast
  ultimately show False using a(2) distinct_card by fastforce
qed

lemma sized_put: "map_sorted m \<Longrightarrow> sized m \<Longrightarrow> opt_size v \<noteq> 0 \<Longrightarrow> sized (map_put k v m)"
  unfolding sized_def list_all_iff map_put_set by (auto simp: map_erase_def)

lemma sized_erase: "sized m \<Longrightarrow> sized (map_erase k m)"
  by (auto simp: sized_def list_all_iff map_erase_def)

section \<open>The fix session of the modem\<close>

fun engine_after :: "ga_out list \<Rightarrow> LocPosMode option \<Rightarrow> LocPosMode option" where
  "engine_after [] e = e"
| "engine_after (StartFix m ok # out) e = engine_after out (if ok then Some m else e)"
| "engine_after (StopFix ok # out) e = engine_after out (if ok then None else e)"
| "engine_after (_ # out) e = engine_after out e"

lemma engine_after_append [simp]: "engine_after (a @ b) e = engine_after b (engine_after a e)"
  by (induction a e rule: engine_after.induct) simp_all

text \<open>
  The modem runs at the smallest interval of the sessions, and not without one. After a restart of the
  modem, until the sessions are restarted (\<open>lost\<close>), only the second holds.
\<close>

definition multiplexed :: "bool \<Rightarrow> (session_key, TrackOptions) std_map \<Rightarrow> LocPosMode option \<Rightarrow> bool" where
  "multiplexed lost m e \<longleftrightarrow>
     (if m = [] then e = None
      else lost \<or> (case e of Some mode \<Rightarrow> pm_min_interval mode = imin m | None \<Rightarrow> False))"

abbreviation (input) no_ulp :: "ga_env \<Rightarrow> bool" where
  "no_ulp env \<equiv> \<not> ulp_takes_start env \<and> \<not> ulp_takes_stop env"

lemma convertOptions_interval [simp]: "pm_min_interval (convertOptions o') = minInterval o'"
  by (simp add: convertOptions_def)

text \<open>The state apart from the count of API calls.\<close>

lemma ga_startTracking_spec:
  assumes "no_ulp env" "ga_startTracking env options st = (err, out, st')"
  shows "mTrackingSessions st' = mTrackingSessions st" "mMsgs st' = mMsgs st"
    "engine_after out e = (if err = LOCATION_ERROR_SUCCESS then Some (convertOptions options) else e)"
  using assms by (auto simp: ga_startTracking_def api_startFix_def Let_def)

lemma ga_stopTracking_spec:
  assumes "no_ulp env" "ga_stopTracking env st = (err, out, st')"
  shows "mTrackingSessions st' = mTrackingSessions st" "mMsgs st' = mMsgs st"
    "engine_after out e = (if err = LOCATION_ERROR_SUCCESS then None else e)"
  using assms by (auto simp: ga_stopTracking_def api_stopFix_def Let_def)

definition sessions_ok :: "(session_key, TrackOptions) std_map \<Rightarrow> bool" where
  "sessions_ok m \<longleftrightarrow> map_sorted m \<and> sized m"

text \<open>Either a fix was asked for with options \<open>t\<close>, or nothing was done.\<close>

lemma multiplexed_start:
  assumes "no_ulp env" "ga_startTracking env t st = (err, out, st')" "multiplexed lost m e"
    "m' \<noteq> []" "imin m' = minInterval t"
  shows "multiplexed lost (if err = LOCATION_ERROR_SUCCESS then m' else m) (engine_after out e)"
  using assms(3-) by (simp add: ga_startTracking_spec(3) [OF assms(1,2)] multiplexed_def)

lemma multiplexed_stop:
  assumes "no_ulp env" "ga_stopTracking env st = (err, out, st')" "multiplexed lost m e"
  shows "multiplexed lost (if err = LOCATION_ERROR_SUCCESS then [] else m) (engine_after out e)"
  using assms(3) by (simp add: ga_stopTracking_spec(3) [OF assms(1,2)] multiplexed_def)

lemma multiplexed_same:
  assumes "multiplexed lost m e" "m \<noteq> []" "m' \<noteq> []" "imin m' = imin m"
  shows "multiplexed lost m' e"
  using assms by (auto simp: multiplexed_def split: option.splits)

lemma start_multiplex:
  assumes env: "no_ulp env" and ok: "sessions_ok (mTrackingSessions st)"
    and fresh: "map_of (mTrackingSessions st) k = None"
    and start: "startTrackingMultiplex env options st = (err, out, st')"
    and mux: "multiplexed lost (mTrackingSessions st) e"
  shows "mTrackingSessions st' = mTrackingSessions st \<and> mMsgs st' = mMsgs st \<and>
    multiplexed lost (if err = LOCATION_ERROR_SUCCESS then map_put k options (mTrackingSessions st)
                 else mTrackingSessions st) (engine_after out e)"
proof -
  let ?m = "mTrackingSessions st" and ?m' = "map_put k options (mTrackingSessions st)"
  have m: "map_sorted ?m" "sized ?m" using ok(1) by (simp_all add: sessions_ok_def)
  have put: "set ?m' = insert (k, options) (set ?m)"
    using map_put_set [OF m(1), of k options] by (simp only: erase_absent [OF fresh])
  have ne: "?m' \<noteq> []" using put by force
  consider (none) "?m = []" "ga_startTracking env options st = (err, out, st')"
    | (faster) "?m \<noteq> []" "minInterval options < imin ?m" "ga_startTracking env options st = (err, out, st')"
    | (slower) "?m \<noteq> []" "\<not> minInterval options < imin ?m" "err = LOCATION_ERROR_SUCCESS" "out = []" "st' = st"
    using start smallest_min [OF m(2)]
    by (auto simp: startTrackingMultiplex_def split: if_splits)
  then show ?thesis
  proof cases
    case none
    then have "imin ?m' = minInterval options" using put by (simp add: imin_def)
    then show ?thesis
      using multiplexed_start [OF env none(2) mux ne] ga_startTracking_spec(1,2) [OF env none(2)] by simp
  next
    case faster
    then have "imin ?m' = minInterval options" using imin_insert [OF put faster(1)] by simp
    then show ?thesis
      using multiplexed_start [OF env faster(3) mux ne] ga_startTracking_spec(1,2) [OF env faster(3)] by simp
  next
    case slower
    then have "imin ?m' = imin ?m" using imin_insert [OF put slower(1)] by simp
    then show ?thesis using multiplexed_same [OF mux slower(1) ne] slower by simp
  qed
qed

lemma update_multiplex:
  assumes env: "no_ulp env" and ok: "sessions_ok (mTrackingSessions st)"
    and known: "map_of (mTrackingSessions st) (SessionKey client sid) = Some old"
    and upd: "updateTrackingMultiplex env client sid options st = (err, out, st')"
    and mux: "multiplexed lost (mTrackingSessions st) e"
  shows "mTrackingSessions st' = mTrackingSessions st \<and> mMsgs st' = mMsgs st \<and>
    multiplexed lost (if err = LOCATION_ERROR_SUCCESS then map_put (SessionKey client sid) options (mTrackingSessions st)
                 else mTrackingSessions st) (engine_after out e)"
proof -
  let ?m = "mTrackingSessions st" and ?k = "SessionKey client sid"
  let ?r = "map_erase ?k ?m" and ?m' = "map_put ?k options ?m"
  have m: "map_sorted ?m" "sized ?m" using ok(1) by (simp_all add: sessions_ok_def)
  have put: "set ?m' = insert (?k, options) (set ?r)" by (rule map_put_set [OF m(1)])
  have ne: "?m' \<noteq> []" "?m \<noteq> []" using put known by force+
  define s where "s = smallest_loop (\<lambda>k. k \<noteq> ?k) no_options ?m"
  show ?thesis
  proof (cases "length ?m = 1")
    case True
    then have "?r = []" by (rule conjunct2 [OF erase_single [OF _ known]])
    then have "imin ?m' = minInterval options" using put by (simp add: imin_def)
    moreover have start: "ga_startTracking env options st = (err, out, st')"
      using upd True by (simp add: updateTrackingMultiplex_def)
    ultimately show ?thesis
      using multiplexed_start [OF env start mux ne(1)] ga_startTracking_spec(1,2) [OF env start] by simp
  next
    case False
    then have r: "?r \<noteq> []" by (rule erase_others [OF m(1) _ known])
    have s: "minInterval s = imin ?r"
      unfolding s_def smallest_loop_other by (rule smallest_min [OF sized_erase [OF m(2)] r])
    have i: "imin ?m' = min (minInterval options) (minInterval s)"
      unfolding s by (rule imin_insert [OF put r])
    have j: "imin ?m = min (minInterval old) (minInterval s)"
      unfolding s by (rule imin_insert [OF map_set_erase [OF m(1) known] r])
    have u: "(if minInterval options < minInterval s then ga_startTracking env options st
        else if minInterval old < minInterval s then ga_startTracking env s st
        else (LOCATION_ERROR_SUCCESS, [], st)) = (err, out, st')"
      using upd unfolding updateTrackingMultiplex_def known s_def Let_def option.case if_not_P [OF False] .
    consider (faster) "minInterval options < minInterval s" "ga_startTracking env options st = (err, out, st')"
      | (slower) "\<not> minInterval options < minInterval s" "ga_startTracking env s st = (err, out, st')"
      | (same) "\<not> minInterval options < minInterval s" "\<not> minInterval old < minInterval s"
        "err = LOCATION_ERROR_SUCCESS" "out = []" "st' = st"
      using u by (metis (no_types) prod.inject)
    then show ?thesis
    proof cases
      case faster
      then have "imin ?m' = minInterval options" using i by simp
      then show ?thesis
        using multiplexed_start [OF env faster(2) mux ne(1)] ga_startTracking_spec(1,2) [OF env faster(2)] by simp
    next
      case slower
      then have "imin ?m' = minInterval s" using i by simp
      then show ?thesis
        using multiplexed_start [OF env slower(2) mux ne(1)] ga_startTracking_spec(1,2) [OF env slower(2)] by simp
    next
      case same
      then have "imin ?m' = imin ?m" using i j by simp
      then show ?thesis using multiplexed_same [OF mux ne(2,1)] same by simp
    qed
  qed
qed

lemma stop_multiplex:
  assumes env: "no_ulp env" and ok: "sessions_ok (mTrackingSessions st)"
    and known: "map_of (mTrackingSessions st) (SessionKey client sid) = Some old"
    and stop: "stopTrackingMultiplex env client sid st = (err, out, st')"
    and mux: "multiplexed lost (mTrackingSessions st) e"
  shows "mTrackingSessions st' = mTrackingSessions st \<and> mMsgs st' = mMsgs st \<and>
    multiplexed lost (if err = LOCATION_ERROR_SUCCESS then map_erase (SessionKey client sid) (mTrackingSessions st)
                 else mTrackingSessions st) (engine_after out e)"
proof -
  let ?m = "mTrackingSessions st" and ?k = "SessionKey client sid"
  let ?r = "map_erase ?k ?m"
  have m: "map_sorted ?m" "sized ?m" using ok(1) by (simp_all add: sessions_ok_def)
  have ne: "?m \<noteq> []" using known by force
  define s where "s = smallest_loop (\<lambda>k. k \<noteq> ?k) no_options ?m"
  show ?thesis
  proof (cases "length ?m = 1")
    case True
    then have "?r = []" by (rule conjunct2 [OF erase_single [OF _ known]])
    moreover have stop': "ga_stopTracking env st = (err, out, st')"
      using stop True by (simp add: stopTrackingMultiplex_def)
    ultimately show ?thesis
      using multiplexed_stop [OF env stop' mux] ga_stopTracking_spec(1,2) [OF env stop']
      by (simp split: if_splits)
  next
    case False
    then have r: "?r \<noteq> []" by (rule erase_others [OF m(1) _ known])
    have s: "minInterval s = imin ?r"
      unfolding s_def smallest_loop_other by (rule smallest_min [OF sized_erase [OF m(2)] r])
    have j: "imin ?m = min (minInterval old) (minInterval s)"
      unfolding s by (rule imin_insert [OF map_set_erase [OF m(1) known] r])
    have u: "(if minInterval old < minInterval s then ga_startTracking env s st
        else (LOCATION_ERROR_SUCCESS, [], st)) = (err, out, st')"
      using stop unfolding stopTrackingMultiplex_def known s_def Let_def option.case if_not_P [OF False] .
    consider (fastest) "ga_startTracking env s st = (err, out, st')"
      | (other) "\<not> minInterval old < minInterval s" "err = LOCATION_ERROR_SUCCESS" "out = []" "st' = st"
      using u by (metis (no_types) prod.inject)
    then show ?thesis
    proof cases
      case fastest
      then show ?thesis
        using multiplexed_start [OF env fastest mux r s [symmetric]] ga_startTracking_spec(1,2) [OF env fastest] by simp
    next
      case other
      then have "imin ?r = imin ?m" using j s by simp
      then show ?thesis using multiplexed_same [OF mux ne r] other by simp
    qed
  qed
qed

section \<open>What a message leaves alone\<close>

text \<open>Tracking changes only the sessions and the number of calls.\<close>

definition same_but_tracking :: "gnss_adapter \<Rightarrow> gnss_adapter \<Rightarrow> bool" where
  "same_but_tracking st st' \<longleftrightarrow>
     st' = st\<lparr>mTrackingSessions := mTrackingSessions st', apiCalls := apiCalls st'\<rparr>"

lemma same_but_tracking_refl [intro, simp]: "same_but_tracking st st"
  by (simp add: same_but_tracking_def)

lemma same_but_tracking_upd [intro, simp]:
  "same_but_tracking st st' \<Longrightarrow> same_but_tracking st (st'\<lparr>mTrackingSessions := m\<rparr>)"
  "same_but_tracking st st' \<Longrightarrow> same_but_tracking st (st'\<lparr>apiCalls := n\<rparr>)"
  by (cases st; cases st'; simp add: same_but_tracking_def)+

lemma same_but_tracking_trans [trans]:
  "same_but_tracking st st' \<Longrightarrow> same_but_tracking st' st'' \<Longrightarrow> same_but_tracking st st''"
  by (cases st; cases st'; cases st''; simp add: same_but_tracking_def)

lemma same_but_tracking_fields:
  assumes "same_but_tracking st st'"
  shows "mMsgs st' = mMsgs st" "mPowerVoteId st' = mPowerVoteId st" "mGps_conf st' = mGps_conf st"
    "mOdcpiRequestActive st' = mOdcpiRequestActive st" "odcpiTimerActive st' = odcpiTimerActive st"
    "odcpi_armed st' = odcpi_armed st" "mClientData st' = mClientData st"
  using assms by (cases st; cases st'; simp add: same_but_tracking_def)+

definition fix_out :: "ga_out \<Rightarrow> bool" where
  "fix_out x \<longleftrightarrow> (case x of StartFix _ _ \<Rightarrow> True | StopFix _ \<Rightarrow> True | _ \<Rightarrow> False)"

definition tracking_out :: "ga_out \<Rightarrow> bool" where
  "tracking_out x \<longleftrightarrow>
     (case x of StartFix _ _ \<Rightarrow> True | StopFix _ \<Rightarrow> True | UlpFixMode _ \<Rightarrow> True | UlpStartFix \<Rightarrow> True
      | UlpStopFix \<Rightarrow> True | ResponseCb _ _ _ \<Rightarrow> True | _ \<Rightarrow> False)"

lemma engine_after_no_fix: "list_all (\<lambda>x. \<not> fix_out x) out \<Longrightarrow> engine_after out e = e"
  by (induction out e rule: engine_after.induct) (simp_all add: fix_out_def)

lemma report_outs [simp]:
  "list_all tracking_out (reportResponse client err sid st)"
  "list_all (\<lambda>x. \<not> fix_out x) (reportResponse client err sid st)"
  by (auto simp: reportResponse_def tracking_out_def fix_out_def split: option.splits)

lemma engine_after_report [simp]: "engine_after (reportResponse client err sid st) e = e"
  by (rule engine_after_no_fix) simp

lemma ga_startTracking_frame:
  "ga_startTracking env options st = (err, out, st') \<Longrightarrow> same_but_tracking st st' \<and> list_all tracking_out out"
  by (auto simp: ga_startTracking_def api_startFix_def Let_def tracking_out_def split: if_splits)

lemma ga_stopTracking_frame:
  "ga_stopTracking env st = (err, out, st') \<Longrightarrow> same_but_tracking st st' \<and> list_all tracking_out out"
  by (auto simp: ga_stopTracking_def api_stopFix_def Let_def tracking_out_def split: if_splits)

lemma multiplex_frame:
  "startTrackingMultiplex env options st = (err, out, st') \<Longrightarrow> same_but_tracking st st' \<and> list_all tracking_out out"
  "updateTrackingMultiplex env client sid options st = (err, out, st') \<Longrightarrow>
   same_but_tracking st st' \<and> list_all tracking_out out"
  "stopTrackingMultiplex env client sid st = (err, out, st') \<Longrightarrow> same_but_tracking st st' \<and> list_all tracking_out out"
  unfolding startTrackingMultiplex_def updateTrackingMultiplex_def stopTrackingMultiplex_def Let_def
  by (auto split: if_splits option.splits dest: ga_startTracking_frame ga_stopTracking_frame)

lemma tracking_proc_frame:
  "start_tracking_proc env client sid options st = (out, st') \<Longrightarrow> same_but_tracking st st' \<and> list_all tracking_out out"
  "update_tracking_proc env client sid options st = (out, st') \<Longrightarrow> same_but_tracking st st' \<and> list_all tracking_out out"
  "stop_tracking_proc env client sid st = (out, st') \<Longrightarrow> same_but_tracking st st' \<and> list_all tracking_out out"
  unfolding start_tracking_proc_def update_tracking_proc_def stop_tracking_proc_def
    saveTrackingSession_def eraseTrackingSession_def
  by (auto simp: Let_def split: if_splits prod.splits dest!: multiplex_frame)

lemma stop_sessions_loop_frame:
  "stop_sessions_loop env client ks st = (out, st') \<Longrightarrow> same_but_tracking st st' \<and> list_all tracking_out out"
proof (induction ks arbitrary: st out)
  case (Cons k ks)
  show ?case
  proof (cases "client = sk_client k")
    case True
    obtain err out1 st1 where s: "stopTrackingMultiplex env (sk_client k) (sk_id k) st = (err, out1, st1)"
      by (metis prod_cases3)
    define st2 where "st2 = (if err = LOCATION_ERROR_SUCCESS
      then st1\<lparr>mTrackingSessions := map_erase k (mTrackingSessions st1)\<rparr> else st1)"
    obtain out2 where r: "stop_sessions_loop env client ks st2 = (out2, st')" "out = out1 @ out2"
      using Cons.prems True s by (auto simp: st2_def split: prod.splits)
    have "same_but_tracking st st2" using multiplex_frame(3) [OF s] by (simp add: st2_def)
    then show ?thesis
      using Cons.IH [OF r(1)] multiplex_frame(3) [OF s] r(2) by (auto intro: same_but_tracking_trans)
  next
    case False
    with Cons.IH [of st out] Cons.prems show ?thesis by simp
  qed
qed simp

section \<open>Every message keeps the fix session in step\<close>

definition mux_ok :: "bool \<Rightarrow> gnss_adapter \<Rightarrow> LocPosMode option \<Rightarrow> bool" where
  "mux_ok lost st e \<longleftrightarrow> sessions_ok (mTrackingSessions st) \<and> multiplexed lost (mTrackingSessions st) e"

lemma mux_okI [intro]:
  "sessions_ok (mTrackingSessions st) \<Longrightarrow> multiplexed lost (mTrackingSessions st) e \<Longrightarrow> mux_ok lost st e"
  by (simp add: mux_ok_def)

lemma sessions_ok_put [intro]: "sessions_ok m \<Longrightarrow> opt_size v \<noteq> 0 \<Longrightarrow> sessions_ok (map_put k v m)"
  by (simp add: sessions_ok_def sized_put)

lemma sessions_ok_erase [intro]: "sessions_ok m \<Longrightarrow> sessions_ok (map_erase k m)"
  by (simp add: sessions_ok_def sized_erase)

lemma isTrackingSession_iff: "isTrackingSession client sid st \<longleftrightarrow> map_of (mTrackingSessions st) (SessionKey client sid) \<noteq> None"
  by (simp add: isTrackingSession_def map_has_def)

lemma start_proc_mux:
  assumes "no_ulp env" "mux_ok lost st e" "\<not> isTrackingSession client sid st"
    "start_tracking_proc env client sid options st = (out, st')"
  shows "mux_ok lost st' (engine_after out e)"
proof -
  have fresh: "map_of (mTrackingSessions st) (SessionKey client sid) = None"
    using assms(3) by (simp add: isTrackingSession_iff)
  show ?thesis
  proof (cases "(\<not> hasTrackingCallback client st \<and> \<not> hasMeasurementsCallback client st) \<or> opt_size options = 0")
    case True
    then show ?thesis using assms(2,4) by (auto simp: start_tracking_proc_def split: prod.splits if_splits)
  next
    case False
    obtain err out1 st1 where s: "startTrackingMultiplex env options st = (err, out1, st1)" by (metis prod_cases3)
    have m: "mTrackingSessions st1 = mTrackingSessions st \<and> mMsgs st1 = mMsgs st \<and>
        multiplexed lost (if err = LOCATION_ERROR_SUCCESS then map_put (SessionKey client sid) options (mTrackingSessions st)
                 else mTrackingSessions st) (engine_after out1 e)"
      by (rule start_multiplex [OF assms(1) _ fresh s]) (use assms(2) in \<open>simp_all add: mux_ok_def\<close>)
    have st': "st' = (if err = LOCATION_ERROR_SUCCESS then saveTrackingSession client sid options st1 else st1)"
      and out: "engine_after out e = engine_after out1 e"
      using assms(4) False s by (auto simp: start_tracking_proc_def)
    show ?thesis
      using m assms(2) False by (auto simp: st' out mux_ok_def saveTrackingSession_def)
  qed
qed

lemma update_proc_mux:
  assumes "no_ulp env" "mux_ok lost st e"
    "update_tracking_proc env client sid options st = (out, st')"
  shows "mux_ok lost st' (engine_after out e)"
proof (cases "map_of (mTrackingSessions st) (SessionKey client sid)")
  case None
  then show ?thesis using assms(2,3) by (auto simp: update_tracking_proc_def isTrackingSession_iff)
next
  case (Some old)
  show ?thesis
  proof (cases "opt_size options = 0")
    case True
    then show ?thesis using assms(2,3) by (auto simp: update_tracking_proc_def split: if_splits)
  next
    case False
    obtain err out1 st1 where s: "updateTrackingMultiplex env client sid options st = (err, out1, st1)"
      by (metis prod_cases3)
    have m: "mTrackingSessions st1 = mTrackingSessions st \<and> mMsgs st1 = mMsgs st \<and>
        multiplexed lost (if err = LOCATION_ERROR_SUCCESS then map_put (SessionKey client sid) options (mTrackingSessions st)
                 else mTrackingSessions st) (engine_after out1 e)"
      by (rule update_multiplex [OF assms(1) _ Some s]) (use assms(2) in \<open>simp_all add: mux_ok_def\<close>)
    have st': "st' = (if err = LOCATION_ERROR_SUCCESS then saveTrackingSession client sid options st1 else st1)"
      and out: "engine_after out e = engine_after out1 e"
      using assms(3) False s Some by (auto simp: update_tracking_proc_def isTrackingSession_iff)
    show ?thesis
      using m assms(2) False by (auto simp: st' out mux_ok_def saveTrackingSession_def)
  qed
qed

lemma stop_and_erase_mux:
  assumes "no_ulp env" "mux_ok lost st e" "isTrackingSession client sid st"
    "stopTrackingMultiplex env client sid st = (err, out, st1)"
  shows "mux_ok lost (if err = LOCATION_ERROR_SUCCESS then eraseTrackingSession client sid st1 else st1) (engine_after out e)"
    "mTrackingSessions st1 = mTrackingSessions st"
proof -
  obtain old where known: "map_of (mTrackingSessions st) (SessionKey client sid) = Some old"
    using assms(3) by (auto simp: isTrackingSession_iff)
  have m: "mTrackingSessions st1 = mTrackingSessions st \<and> mMsgs st1 = mMsgs st \<and>
      multiplexed lost (if err = LOCATION_ERROR_SUCCESS then map_erase (SessionKey client sid) (mTrackingSessions st)
                 else mTrackingSessions st) (engine_after out e)"
    by (rule stop_multiplex [OF assms(1) _ known assms(4)]) (use assms(2) in \<open>simp_all add: mux_ok_def\<close>)
  then show "mTrackingSessions st1 = mTrackingSessions st" by simp
  show "mux_ok lost (if err = LOCATION_ERROR_SUCCESS then eraseTrackingSession client sid st1 else st1) (engine_after out e)"
    using m assms(2) by (auto simp: mux_ok_def eraseTrackingSession_def)
qed

lemma stop_proc_mux:
  assumes "no_ulp env" "mux_ok lost st e" "stop_tracking_proc env client sid st = (out, st')"
  shows "mux_ok lost st' (engine_after out e)"
proof (cases "isTrackingSession client sid st")
  case True
  obtain err out1 st1 where s: "stopTrackingMultiplex env client sid st = (err, out1, st1)" by (metis prod_cases3)
  have "engine_after out e = engine_after out1 e"
    "st' = (if err = LOCATION_ERROR_SUCCESS then eraseTrackingSession client sid st1 else st1)"
    using assms(3) s True by (auto simp: stop_tracking_proc_def Let_def)
  with stop_and_erase_mux(1) [OF assms(1,2) True s] show ?thesis by simp
next
  case False
  with assms(2,3) show ?thesis by (auto simp: stop_tracking_proc_def)
qed

lemma stop_sessions_loop_mux:
  "no_ulp env \<Longrightarrow> mux_ok lost st e \<Longrightarrow> distinct ks \<Longrightarrow> set ks \<subseteq> fst ` set (mTrackingSessions st) \<Longrightarrow>
   stop_sessions_loop env client ks st = (out, st') \<Longrightarrow> mux_ok lost st' (engine_after out e)"
proof (induction ks arbitrary: st out e)
  case (Cons k ks)
  show ?case
  proof (cases "client = sk_client k")
    case True
    obtain c i where k: "k = SessionKey c i" by (cases k)
    have t: "isTrackingSession c i st"
      using Cons.prems(4) unfolding isTrackingSession_iff k by (simp add: map_of_eq_None_iff)
    obtain err out1 st1 where s: "stopTrackingMultiplex env c i st = (err, out1, st1)" by (metis prod_cases3)
    have s': "stopTrackingMultiplex env (sk_client k) (sk_id k) st = (err, out1, st1)" using s by (simp add: k)
    define st2 where "st2 = (if err = LOCATION_ERROR_SUCCESS
      then st1\<lparr>mTrackingSessions := map_erase k (mTrackingSessions st1)\<rparr> else st1)"
    have st2: "st2 = (if err = LOCATION_ERROR_SUCCESS then eraseTrackingSession c i st1 else st1)"
      unfolding st2_def k eraseTrackingSession_def ..
    obtain out2 where r: "stop_sessions_loop env client ks st2 = (out2, st')" "out = out1 @ out2"
      using Cons.prems(5) True s' by (auto simp: st2_def split: prod.splits)
    have "mux_ok lost st2 (engine_after out1 e)"
      unfolding st2 by (rule stop_and_erase_mux(1) [OF Cons.prems(1,2) t s])
    moreover have "set ks \<subseteq> fst ` set (mTrackingSessions st2)"
      using Cons.prems(3,4) stop_and_erase_mux(2) [OF Cons.prems(1,2) t s]
      by (force simp: st2_def k eraseTrackingSession_def map_erase_set)
    ultimately show ?thesis
      using Cons.IH [OF Cons.prems(1) _ _ _ r(1), of "engine_after out1 e"] Cons.prems(3) r(2) by simp
  next
    case False
    with Cons show ?thesis by simp
  qed
qed simp

lemma stop_client_mux:
  assumes "no_ulp env" "mux_ok lost st e" "stopClientSessions env client st = (out, st')"
  shows "mux_ok lost st' (engine_after out e)"
proof (rule stop_sessions_loop_mux [OF assms(1,2)])
  show "stop_sessions_loop env client (map fst (mTrackingSessions st)) st = (out, st')"
    using assms(3) by (simp add: stopClientSessions_def)
qed (use assms(2) in \<open>simp_all add: mux_ok_def sessions_ok_def map_sorted_distinct\<close>)

text \<open>A restart that the modem accepts ends the loss.\<close>

lemma restart_mux:
  assumes "no_ulp env" "mux_ok lost st e" "restartSessions env st = (out, st')"
  shows "mux_ok (lost \<and> (\<exists>m. StartFix m False \<in> set out)) st' (engine_after out e)"
proof (cases "mTrackingSessions st = []")
  case True
  then show ?thesis using assms(2,3) by (auto simp: restartSessions_def mux_ok_def multiplexed_def)
next
  case False
  then have "sized (mTrackingSessions st)" using assms(2) by (simp add: mux_ok_def sessions_ok_def)
  note i = smallest_min [OF this False]
  show ?thesis
    using False assms(2,3)
    by (cases "fix_ok env (apiCalls st)")
      (auto simp: restartSessions_def api_startFix_def Let_def mux_ok_def multiplexed_def i split: option.splits)
qed

section \<open>Messages that are not about tracking\<close>

definition same_tracking :: "gnss_adapter \<Rightarrow> gnss_adapter \<Rightarrow> bool" where
  "same_tracking st st' \<longleftrightarrow> mTrackingSessions st' = mTrackingSessions st \<and> mMsgs st' = mMsgs st"

abbreviation (input) no_fixes :: "ga_out list \<Rightarrow> bool" where
  "no_fixes \<equiv> list_all (\<lambda>x. \<not> fix_out x)"

lemma mask_frame:
  "saveClient env client cb st = (out, st') \<Longrightarrow> same_tracking st st' \<and> no_fixes out"
  "eraseClient env client st = (out, st') \<Longrightarrow> same_tracking st st' \<and> no_fixes out"
  "initOdcpi has_cb st = (out, st') \<Longrightarrow> same_tracking st st' \<and> no_fixes out"
  by (auto simp: saveClient_def eraseClient_def updateClientsEventMask_def initOdcpi_def Let_def same_tracking_def
      fix_out_def split: if_splits)

lemma vote_frame:
  "enable_proc sid g st = (out, st') \<Longrightarrow> same_tracking st st' \<and> no_fixes out"
  "disable_proc sid st = (out, st') \<Longrightarrow> same_tracking st st' \<and> no_fixes out"
  by (auto simp: enable_proc_def disable_proc_def Let_def same_tracking_def fix_out_def control_reportResponse_def
      split: if_splits)

lemma odcpi_frame:
  "reportOdcpiRequest request st = (out, st') \<Longrightarrow> same_tracking st st' \<and> no_fixes out"
  "odcpiTimerExpire st = (out, st') \<Longrightarrow> same_tracking st st' \<and> no_fixes out"
  by (auto simp: reportOdcpiRequest_def odcpiTimerExpire_def odcpiTimer_start_def odcpiTimer_stop_def
      odcpiTimer_restart_def Let_def same_tracking_def fix_out_def split: if_splits)

lemma broadcast_frame [simp]: "no_fixes (broadcastCapabilities m cs)"
  by (induction m cs rule: broadcastCapabilities.induct) (auto simp: fix_out_def)

text \<open>What an item of a configuration update leaves alone.\<close>

definition same_odcpi :: "gnss_adapter \<Rightarrow> gnss_adapter \<Rightarrow> bool" where
  "same_odcpi st st' \<longleftrightarrow>
     mOdcpiRequestActive st' = mOdcpiRequestActive st \<and> odcpiTimerActive st' = odcpiTimerActive st \<and>
     odcpi_armed st' = odcpi_armed st"

definition odcpi_out :: "ga_out \<Rightarrow> bool" where
  "odcpi_out x \<longleftrightarrow> (case x of OdcpiRequestCb _ \<Rightarrow> True | _ \<Rightarrow> False)"

abbreviation (input) no_odcpi :: "ga_out list \<Rightarrow> bool" where
  "no_odcpi \<equiv> list_all (\<lambda>x. \<not> odcpi_out x)"

lemma broadcast_no_odcpi [simp]: "no_odcpi (broadcastCapabilities m cs)"
  by (induction m cs rule: broadcastCapabilities.induct) (auto simp: odcpi_out_def)

definition cfg_frame :: "gnss_adapter \<Rightarrow> ga_out list \<Rightarrow> gnss_adapter \<Rightarrow> bool" where
  "cfg_frame st out st' \<longleftrightarrow>
     same_tracking st st' \<and> same_odcpi st st' \<and> mPowerVoteId st' = mPowerVoteId st \<and>
     mControlCallbacks st' = mControlCallbacks st \<and> no_fixes out \<and> no_odcpi out"

lemma cfg_frame_trans: "cfg_frame st out st' \<Longrightarrow> cfg_frame st' out' st'' \<Longrightarrow> cfg_frame st (out @ out') st''"
  by (simp add: cfg_frame_def same_tracking_def same_odcpi_def)

definition cfg_action_ok :: "cfg_action \<Rightarrow> bool" where
  "cfg_action_ok a \<longleftrightarrow> (\<forall>st err out st'. a st = (err, out, st') \<longrightarrow> cfg_frame st out st')"

lemmas cfg_frame_defs =
  cfg_frame_def same_tracking_def same_odcpi_def upd_conf_def api_set_def Let_def
  broadcast_frame [unfolded fix_out_def] broadcast_no_odcpi [unfolded odcpi_out_def] fix_out_def odcpi_out_def

lemma cfg_actions_ok: "list_all cfg_action_ok (cfg_actions env c)"
  unfolding cfg_actions_def list.pred_inject
  by (intro conjI TrueI;
      auto simp: cfg_action_ok_def gps_lock_action_def supl_version_action_def assistance_action_def setSuplHostServer_def
        lpp_profile_action_def lppe_cp_action_def lppe_up_action_def aglonass_action_def em_pdn_action_def
        supl_es_action_def supl_mode_action_def cfg_frame_defs
        split: if_splits option.splits GnssAssistanceType.splits)

lemma run_cfg_actions_frame:
  "list_all cfg_action_ok as \<Longrightarrow> run_cfg_actions fl i as st = (errs, out, st') \<Longrightarrow> cfg_frame st out st'"
proof (induction fl i as st arbitrary: errs out st' rule: run_cfg_actions.induct)
  case (2 fl i a as st)
  show ?case
  proof (cases "bit fl i")
    case True
    obtain err out1 st1 where a: "a st = (err, out1, st1)" by (metis prod_cases3)
    obtain errs2 out2 st2 where r: "run_cfg_actions fl (i + 1) as st1 = (errs2, out2, st2)" by (metis prod_cases3)
    have "cfg_frame st out1 st1" using "2.prems"(1) a by (auto simp: cfg_action_ok_def)
    moreover have "cfg_frame st1 out2 st2"
      by (rule "2.IH"(1) [OF True a [symmetric] _ _ _ r]) (use "2.prems"(1) in auto)
    ultimately show ?thesis using "2.prems"(2) True a r by (auto intro: cfg_frame_trans)
  next
    case False
    with "2.IH"(2) [OF False] "2.prems" show ?thesis by simp
  qed
qed (simp add: cfg_frame_def same_tracking_def same_odcpi_def)

lemma update_config_cfg_frame: "gnssUpdateConfig_proc env c ids st = (out, st') \<Longrightarrow> cfg_frame st out st'"
  using run_cfg_actions_frame [OF cfg_actions_ok, of "flags c" 0 env c st]
  by (auto simp: gnssUpdateConfig_proc_def collective_reportResponse_def cfg_frame_def fix_out_def odcpi_out_def
      split: prod.splits if_splits)

lemma update_config_frame:
  "gnssUpdateConfig_proc env c ids st = (out, st') \<Longrightarrow> same_tracking st st' \<and> no_fixes out"
  using update_config_cfg_frame by (simp add: cfg_frame_def)

lemma same_tracking_mux:
  "same_tracking st st' \<and> no_fixes out \<Longrightarrow> mux_ok lost st e \<Longrightarrow> mux_ok lost st' (engine_after out e)"
  by (simp add: same_tracking_def mux_ok_def engine_after_no_fix)

section \<open>The adapter and the modem\<close>

text \<open>
  The state of the adapter, the mode the modem's fix session runs in, and whether the modem lost it in a
  restart that the adapter has not handled yet. Commands come from any thread: they only queue a message
  (and draw an id); a started session's id is new. Without a ULP (\<open>no_ulp\<close>) no message comes from it.
\<close>

type_synonym ga_sys = "gnss_adapter \<times> LocPosMode option \<times> bool"

fun start_keys :: "ga_msg list \<Rightarrow> session_key list" where
  "start_keys [] = []"
| "start_keys (MsgStartTracking client sid _ # ms) = SessionKey client sid # start_keys ms"
| "start_keys (_ # ms) = start_keys ms"

definition plain_msg :: "ga_msg \<Rightarrow> bool" where
  "plain_msg msg \<longleftrightarrow>
     (case msg of MsgStartTracking _ _ _ \<Rightarrow> False | MsgUlpStartTracking \<Rightarrow> False | MsgUlpStopTracking \<Rightarrow> False | _ \<Rightarrow> True)"

definition lost_after :: "ga_msg list \<Rightarrow> ga_out list \<Rightarrow> bool \<Rightarrow> bool" where
  "lost_after msgs out lost =
     (case msgs of MsgRestartSessions # _ \<Rightarrow> lost \<and> (\<exists>m. StartFix m False \<in> set out) | _ \<Rightarrow> lost)"

inductive ga_step :: "ga_env \<Rightarrow> ga_sys \<Rightarrow> ga_sys \<Rightarrow> bool" for env :: ga_env where
  start: "startTrackingCommand client options st = (sid, st') \<Longrightarrow>
    SessionKey client sid \<notin> set (start_keys (mMsgs st)) \<Longrightarrow> \<not> isTrackingSession client sid st \<Longrightarrow>
    ga_step env (st, e, lost) (st', e, lost)"
| send: "plain_msg msg \<Longrightarrow> ga_step env (st, e, lost) (ga_sendMsg msg st, e, lost)"
| enable: "enableCommand is_gnss st = (sid, out, st') \<Longrightarrow> ga_step env (st, e, lost) (st', e, lost)"
| config: "gnssUpdateConfigCommand c st = (ids, st') \<Longrightarrow> ga_step env (st, e, lost) (st', e, lost)"
| timeout: "ga_step env (st, e, lost) (odcpi_timeout st, e, lost)"
| engine_restart: "ga_step env (st, e, lost) (ga_sendMsg MsgRestartSessions st, None, True)"
| deliver: "ga_next env st = (out, st') \<Longrightarrow>
    ga_step env (st, e, lost) (st', engine_after out e, lost_after (mMsgs st) out lost)"

definition ga_inv :: "ga_sys \<Rightarrow> bool" where
  "ga_inv s \<longleftrightarrow>
     (case s of (st, e, lost) \<Rightarrow>
        mux_ok lost st e \<and> distinct (start_keys (mMsgs st)) \<and>
        (\<forall>k \<in> set (start_keys (mMsgs st)). map_of (mTrackingSessions st) k = None) \<and>
        (\<forall>msg \<in> set (mMsgs st). msg \<noteq> MsgUlpStartTracking \<and> msg \<noteq> MsgUlpStopTracking))"

lemma multiplex_sessions:
  "startTrackingMultiplex env options st = (err, out, st') \<Longrightarrow> mTrackingSessions st' = mTrackingSessions st"
  "updateTrackingMultiplex env client sid options st = (err, out, st') \<Longrightarrow> mTrackingSessions st' = mTrackingSessions st"
  "stopTrackingMultiplex env client sid st = (err, out, st') \<Longrightarrow> mTrackingSessions st' = mTrackingSessions st"
  unfolding startTrackingMultiplex_def updateTrackingMultiplex_def stopTrackingMultiplex_def Let_def
  by (auto simp: ga_startTracking_def ga_stopTracking_def api_startFix_def api_stopFix_def Let_def
      split: if_splits option.splits)

abbreviation (input) session_dom :: "gnss_adapter \<Rightarrow> session_key set" where
  "session_dom st \<equiv> dom (map_of (mTrackingSessions st))"

lemma tracking_proc_dom:
  "start_tracking_proc env client sid options st = (out, st') \<Longrightarrow>
   session_dom st' \<subseteq> insert (SessionKey client sid) (session_dom st)"
  "update_tracking_proc env client sid options st = (out, st') \<Longrightarrow> session_dom st' \<subseteq> session_dom st"
  "stop_tracking_proc env client sid st = (out, st') \<Longrightarrow> session_dom st' \<subseteq> session_dom st"
  unfolding start_tracking_proc_def update_tracking_proc_def stop_tracking_proc_def
    saveTrackingSession_def eraseTrackingSession_def isTrackingSession_iff
  by (auto simp: Let_def split: if_splits prod.splits dest!: multiplex_sessions)

lemma stop_sessions_loop_dom:
  "stop_sessions_loop env client ks st = (out, st') \<Longrightarrow> session_dom st' \<subseteq> session_dom st"
proof (induction ks arbitrary: st out)
  case (Cons k ks)
  show ?case
  proof (cases "client = sk_client k")
    case True
    obtain err out1 st1 where s: "stopTrackingMultiplex env (sk_client k) (sk_id k) st = (err, out1, st1)"
      by (metis prod_cases3)
    define st2 where "st2 = (if err = LOCATION_ERROR_SUCCESS
      then st1\<lparr>mTrackingSessions := map_erase k (mTrackingSessions st1)\<rparr> else st1)"
    obtain out2 where r: "stop_sessions_loop env client ks st2 = (out2, st')"
      using Cons.prems True s by (auto simp: st2_def split: prod.splits)
    have "session_dom st2 \<subseteq> session_dom st" using multiplex_sessions(3) [OF s] by (auto simp: st2_def)
    then show ?thesis using Cons.IH [OF r] by blast
  next
    case False
    with Cons show ?thesis by simp
  qed
qed simp

lemma ga_inv_tail:
  assumes "ga_inv (st, e, lost)" "mMsgs st = msg # ms" "mMsgs st' = ms" "mux_ok lost' st' e'"
    "session_dom st' \<subseteq> session_dom st"
  shows "ga_inv (st', e', lost')"
proof -
  have "start_keys (msg # ms) = start_keys ms \<or> (\<exists>k. start_keys (msg # ms) = k # start_keys ms)"
    by (cases msg) auto
  then have "distinct (start_keys ms)" "set (start_keys ms) \<subseteq> set (start_keys (mMsgs st))"
    using assms(1,2) by (auto simp: ga_inv_def)
  then show ?thesis using assms by (auto simp: ga_inv_def domIff subset_iff)
qed

lemma ga_inv_send:
  assumes "ga_inv (st, e, lost)" "plain_msg msg" "mTrackingSessions st' = mTrackingSessions st"
    "mMsgs st' = mMsgs st @ [msg]"
  shows "ga_inv (st', e, lost)"
proof -
  have k: "start_keys (ms @ [msg]) = start_keys ms" for ms
    using assms(2) by (induction ms rule: start_keys.induct) (auto simp: plain_msg_def split: ga_msg.splits)
  show ?thesis using assms by (auto simp: ga_inv_def mux_ok_def k plain_msg_def)
qed

lemma start_keys_append [simp]: "start_keys (a @ b) = start_keys a @ start_keys b"
  by (induction a rule: start_keys.induct) auto

lemma generateSessionId_frame:
  "generateSessionId st = (sid, st') \<Longrightarrow> st' = st\<lparr>mSessionIdCounter := mSessionIdCounter st'\<rparr>"
  by (auto simp: generateSessionId_def Let_def)

lemma generate_ids_frame:
  "generate_ids n st = (ids, st') \<Longrightarrow> st' = st\<lparr>mSessionIdCounter := mSessionIdCounter st'\<rparr>"
proof (induction n arbitrary: st ids)
  case (Suc n)
  obtain i st1 where g: "generateSessionId st = (i, st1)" by fastforce
  obtain ids2 where r: "generate_ids n st1 = (ids2, st')" using Suc.prems g by (auto split: prod.splits)
  show ?case using Suc.IH [OF r] generateSessionId_frame [OF g] by (metis gnss_adapter.surjective gnss_adapter.update_convs(15))
qed simp

lemma ga_inv_init: "ga_inv (new_adapter conf counter, None, False)"
  by (simp add: ga_inv_def mux_ok_def sessions_ok_def sized_def multiplexed_def new_adapter_def)

lemma ga_inv_deliver:
  assumes env: "no_ulp env" and inv: "ga_inv (st, e, lost)" and nxt: "ga_next env st = (out, st')"
  shows "ga_inv (st', engine_after out e, lost_after (mMsgs st) out lost)"
proof (cases "mMsgs st")
  case Nil
  then show ?thesis using inv nxt by (simp add: ga_next_def lost_after_def)
next
  case (Cons msg ms)
  define s where "s = st\<lparr>mMsgs := ms\<rparr>"
  have s: "mTrackingSessions s = mTrackingSessions st" "mMsgs s = ms" by (simp_all add: s_def)
  have p: "ga_proc env msg s = (out, st')" using nxt Cons by (simp add: ga_next_def s_def)
  have mux: "mux_ok lost s e" using inv by (simp add: ga_inv_def mux_ok_def s)
  note tail = ga_inv_tail [OF inv Cons]
  have easy: "ga_inv (st', engine_after out e, lost)" if "same_tracking s st' \<and> no_fixes out"
    using tail same_tracking_mux [OF that mux] that by (simp add: same_tracking_def s)
  show ?thesis
  proof (cases msg)
    case (MsgAddClient client cb)
    then show ?thesis using p Cons by (auto simp: lost_after_def intro!: easy mask_frame(1))
  next
    case (MsgRemoveClient client)
    obtain out1 s1 where t: "stopClientSessions env client s = (out1, s1)" by fastforce
    obtain out2 where r: "eraseClient env client s1 = (out2, st')" "out = out1 @ out2"
      using p MsgRemoveClient t by (auto split: prod.splits)
    have "mux_ok lost s1 (engine_after out1 e)" by (rule stop_client_mux [OF env mux t])
    then have "mux_ok lost st' (engine_after out e)"
      using same_tracking_mux [OF mask_frame(2) [OF r(1)]] r(2) by simp
    moreover have "session_dom s1 \<subseteq> session_dom s"
      using t stop_sessions_loop_dom unfolding stopClientSessions_def by blast
    moreover have "mMsgs s1 = ms"
      using t stop_sessions_loop_frame same_but_tracking_fields(1) s(2) unfolding stopClientSessions_def by metis
    ultimately show ?thesis
      using tail mask_frame(2) [OF r(1)] Cons MsgRemoveClient s by (simp add: same_tracking_def lost_after_def)
  next
    case (MsgRequestCapabilities client)
    have "same_tracking s st' \<and> no_fixes out"
      using p MsgRequestCapabilities by (auto simp: same_tracking_def fix_out_def split: option.splits if_splits)
    then show ?thesis using easy Cons MsgRequestCapabilities by (simp add: lost_after_def)
  next
    case (MsgStartTracking client sid options)
    have fresh: "\<not> isTrackingSession client sid s" and ks: "SessionKey client sid \<notin> set (start_keys ms)"
        "distinct (start_keys ms)"
      using inv Cons MsgStartTracking by (auto simp: ga_inv_def isTrackingSession_iff s)
    have q: "start_tracking_proc env client sid options s = (out, st')" using p MsgStartTracking by simp
    have "mMsgs st' = ms" using tracking_proc_frame(1) [OF q] same_but_tracking_fields(1) s(2) by metis
    moreover have "session_dom st' \<subseteq> insert (SessionKey client sid) (session_dom st)"
      using tracking_proc_dom(1) [OF q] s(1) by simp
    ultimately show ?thesis
      using start_proc_mux [OF env mux fresh q] inv Cons MsgStartTracking ks
      by (auto simp: ga_inv_def lost_after_def domIff subset_iff)
  next
    case (MsgUpdateTracking client sid options)
    then have q: "update_tracking_proc env client sid options s = (out, st')" using p by simp
    have "mMsgs st' = ms" using tracking_proc_frame(2) [OF q] same_but_tracking_fields(1) s(2) by metis
    then show ?thesis
      using tail update_proc_mux [OF env mux q] tracking_proc_dom(2) [OF q] Cons MsgUpdateTracking s(1)
      by (simp add: lost_after_def)
  next
    case (MsgStopTracking client sid)
    then have q: "stop_tracking_proc env client sid s = (out, st')" using p by simp
    have "mMsgs st' = ms" using tracking_proc_frame(3) [OF q] same_but_tracking_fields(1) s(2) by metis
    then show ?thesis
      using tail stop_proc_mux [OF env mux q] tracking_proc_dom(3) [OF q] Cons MsgStopTracking s(1)
      by (simp add: lost_after_def)
  next
    case MsgRestartSessions
    then have q: "restartSessions env s = (out, st')" using p by simp
    then have "mMsgs st' = ms" "mTrackingSessions st' = mTrackingSessions s"
      using s(2) by (auto simp: restartSessions_def api_startFix_def Let_def split: if_splits)
    then show ?thesis
      using tail restart_mux [OF env mux q] Cons MsgRestartSessions s(1) by (simp add: lost_after_def)
  next
    case (MsgSetUlpMode m)
    have "same_tracking s st' \<and> no_fixes out"
      using p MsgSetUlpMode by (auto simp: setUlpPositionMode_def same_tracking_def fix_out_def split: if_splits)
    then show ?thesis using easy Cons MsgSetUlpMode by (simp add: lost_after_def)
  next
    case (MsgSetControlCallbacks r c)
    have "same_tracking s st' \<and> no_fixes out" using p MsgSetControlCallbacks by (auto simp: same_tracking_def)
    then show ?thesis using easy Cons MsgSetControlCallbacks by (simp add: lost_after_def)
  next
    case (MsgEnableGnss sid g)
    then show ?thesis using p Cons by (auto simp: lost_after_def intro!: easy vote_frame(1))
  next
    case (MsgDisableGnss sid)
    then show ?thesis using p Cons by (auto simp: lost_after_def intro!: easy vote_frame(2))
  next
    case (MsgGnssUpdateConfig c ids)
    then show ?thesis using p Cons by (auto simp: lost_after_def intro!: easy update_config_frame)
  next
    case (MsgReportOdcpiRequest request)
    then show ?thesis using p Cons by (auto simp: lost_after_def intro!: easy odcpi_frame(1))
  next
    case (MsgInitOdcpi has_cb)
    then show ?thesis using p Cons by (auto simp: lost_after_def intro!: easy mask_frame(3))
  next
    case MsgOdcpiTimerExpire
    then show ?thesis using p Cons by (auto simp: lost_after_def intro!: easy odcpi_frame(2))
  qed (use inv Cons in \<open>simp_all add: ga_inv_def\<close>)
qed

lemma ga_inv_step: "no_ulp env \<Longrightarrow> ga_step env s s' \<Longrightarrow> ga_inv s \<Longrightarrow> ga_inv s'"
proof -
  assume env: "no_ulp env" and step: "ga_step env s s'" and inv: "ga_inv s"
  from step show ?thesis
  proof (cases rule: ga_step.cases)
    case (start client options st sid st' e lost)
    then have m: "mMsgs st' = mMsgs st @ [MsgStartTracking client sid options]"
        "mTrackingSessions st' = mTrackingSessions st"
      by (auto simp: startTrackingCommand_def generateSessionId_def Let_def ga_sendMsg_def)
    show ?thesis
      using inv start(4,5) unfolding start(1,2) by (auto simp: ga_inv_def mux_ok_def m isTrackingSession_iff)
  next
    case (send msg st e lost)
    then show ?thesis using ga_inv_send inv by (simp add: ga_sendMsg_def)
  next
    case (enable is_gnss st sid out st' e lost)
    have "mMsgs st' = mMsgs st @ [MsgEnableGnss sid is_gnss]" "mTrackingSessions st' = mTrackingSessions st"
      using enable(3) by (auto simp: enableCommand_def generateSessionId_def Let_def ga_sendMsg_def)
    then show ?thesis using ga_inv_send [of st e lost "MsgEnableGnss sid is_gnss" st'] inv
      unfolding enable(1,2) by (simp add: plain_msg_def)
  next
    case (config c st ids st' e lost)
    show ?thesis
    proof (cases "count_flags (flags c) = 0")
      case True
      then show ?thesis using config inv by (auto simp: gnssUpdateConfigCommand_def)
    next
      case False
      obtain ids2 st2 where g: "generate_ids (count_flags (flags c)) st = (ids2, st2)" by fastforce
      have st': "st' = ga_sendMsg (MsgGnssUpdateConfig c ids2) st2"
        using config(3) False g by (simp add: gnssUpdateConfigCommand_def)
      have "mMsgs st2 = mMsgs st" "mTrackingSessions st2 = mTrackingSessions st"
        using arg_cong [OF generate_ids_frame [OF g], of mMsgs]
          arg_cong [OF generate_ids_frame [OF g], of mTrackingSessions] by simp_all
      then show ?thesis using ga_inv_send [of st e lost "MsgGnssUpdateConfig c ids2" st'] inv
        unfolding config(1,2) by (simp add: st' ga_sendMsg_def plain_msg_def)
    qed
  next
    case (timeout st e lost)
    show ?thesis
    proof (cases "odcpi_armed st")
      case True
      then show ?thesis
        using ga_inv_send [of st e lost MsgOdcpiTimerExpire "odcpi_timeout st"] inv
        unfolding timeout by (simp add: odcpi_timeout_def ga_sendMsg_def plain_msg_def)
    next
      case False
      then show ?thesis using inv timeout by (simp add: odcpi_timeout_def)
    qed
  next
    case (engine_restart st e lost)
    then have "ga_inv (st, None, True)"
      using inv by (auto simp: ga_inv_def mux_ok_def multiplexed_def split: if_splits)
    then show ?thesis
      using ga_inv_send [of st None True MsgRestartSessions] unfolding engine_restart
      by (simp add: ga_sendMsg_def plain_msg_def)
  next
    case (deliver st out st' e lost)
    then show ?thesis using ga_inv_deliver [OF env, of st e lost out st'] inv by simp
  qed
qed

lemma ga_inv_reachable:
  assumes "no_ulp env" "(ga_step env)\<^sup>*\<^sup>* (new_adapter conf counter, None, False) s"
  shows "ga_inv s"
  using assms(2) by (induction rule: rtranclp_induct) (use ga_inv_init ga_inv_step [OF assms(1)] in blast)+

section \<open>Examples\<close>

abbreviation (input) ex_conf :: gps_cfg where
  "ex_conf \<equiv> \<lparr>SUPL_VER = 0, SUPL_MODE = 3, SUPL_ES = 0, CAPABILITIES = 7, LPP_PROFILE = 0,
     USE_EMERGENCY_PDN_FOR_EMERGENCY_SUPL = 0, GPS_LOCK = 3, A_GLONASS_POS_PROTOCOL_SELECT = 0,
     AGPS_CONFIG_INJECT = 1, LPPE_CP_TECHNOLOGY = 0, LPPE_UP_TECHNOLOGY = 0, EXTERNAL_DR_ENABLED = 0\<rparr>"

abbreviation (input) ex_env :: ga_env where
  "ex_env \<equiv> \<lparr>fix_ok = \<lambda>_. True, set_err = \<lambda>_. LOCATION_ERROR_SUCCESS, ulp_takes_start = False,
     ulp_takes_stop = False, has_LocApi = True, supports_batching = False, supports_distance_tracking = False,
     supports_outdoor_trip = False, supports_constellation_config = False, supports_debug_nmea = False,
     has_agps_status_cb = False, resolves = \<lambda>_. True\<rparr>"

abbreviation (input) ex_callbacks :: callbacks where
  "ex_callbacks \<equiv> \<lparr>capabilitiesCb = True, responseCb = True, collectiveResponseCb = True, trackingCb = True,
     batchingCb = False, geofenceBreachCb = False, geofenceStatusCb = False, gnssLocationInfoCb = False,
     gnssNiCb = False, gnssSvCb = False, gnssNmeaCb = False, gnssMeasurementsCb = False, batchingStatusCb = False\<rparr>"

abbreviation (input) ex_update :: GnssConfig where
  "ex_update \<equiv> \<lparr>flags = 0x21, gpsLock = GNSS_CONFIG_GPS_LOCK_NI, suplVersion = GNSS_CONFIG_SUPL_VERSION_2_0_0,
     assistanceType = GNSS_ASSISTANCE_TYPE_SUPL, hostName = None, hostPort = 0,
     lppProfile = GNSS_CONFIG_LPP_PROFILE_USER_PLANE, lppeControlPlaneMask = 0, lppeUserPlaneMask = 3,
     aGlonassPositionProtocolMask = 0, emergencyPdnForEmergencySupl = False, suplEmergencyServices = False,
     suplModeMask = 0\<rparr>"

abbreviation (input) ex_options :: "u32 \<Rightarrow> TrackOptions" where
  "ex_options interval \<equiv>
     \<lparr>minInterval = interval, minDistance = 0, suplMode = GNSS_SUPL_MODE_STANDALONE, opt_size = 16\<rparr>"

lemma ga_steps_send:
  "(ga_step env)\<^sup>*\<^sup>* s (st, e, lost) \<Longrightarrow> plain_msg msg \<Longrightarrow> (ga_step env)\<^sup>*\<^sup>* s (ga_sendMsg msg st, e, lost)"
  by (erule rtranclp.rtrancl_into_rtrancl, rule ga_step.send)

lemma ga_steps_start:
  "(ga_step env)\<^sup>*\<^sup>* s (st, e, lost) \<Longrightarrow> startTrackingCommand client options st = (sid, st') \<Longrightarrow>
   SessionKey client sid \<notin> set (start_keys (mMsgs st)) \<Longrightarrow> \<not> isTrackingSession client sid st \<Longrightarrow>
   (ga_step env)\<^sup>*\<^sup>* s (st', e, lost)"
  by (erule rtranclp.rtrancl_into_rtrancl, rule ga_step.start)

lemma ga_steps_deliver:
  "(ga_step env)\<^sup>*\<^sup>* s (st, e, lost) \<Longrightarrow> ga_next env st = (out, st') \<Longrightarrow>
   (ga_step env)\<^sup>*\<^sup>* s (st', engine_after out e, lost_after (mMsgs st) out lost)"
  by (erule rtranclp.rtrancl_into_rtrancl, rule ga_step.deliver)

text \<open>C19: Without a ULP, in every reachable state of the adapter and the modem: there is no fix session when
  there is no tracking session; and otherwise, except between a restart of the modem and an accepted
  restart of the sessions, the modem's fix session runs at the smallest interval of the tracking sessions.
  Failed calls of the modem and removed clients are included.
\<close>

theorem modem_follows_fastest_session:
  assumes "\<not> ulp_takes_start env" "\<not> ulp_takes_stop env"
    and "(ga_step env)\<^sup>*\<^sup>* (new_adapter conf counter, None, False) (st, e, lost)"
  shows "(if mTrackingSessions st = [] then e = None
          else lost \<or> (\<exists>mode. e = Some mode \<and>
            pm_min_interval mode = Min (minInterval ` snd ` set (mTrackingSessions st))))"
  using ga_inv_reachable [OF conjI [OF assms(1,2)] assms(3)]
  by (auto simp: ga_inv_def mux_ok_def multiplexed_def imin_def split: option.splits if_splits)


text \<open>Two sessions of one client, at 1000 and 500 ms: the modem runs at 500.\<close>

theorem modem_follows_fastest_session_witness:
  "\<exists>st e. (ga_step ex_env)\<^sup>*\<^sup>* (new_adapter ex_conf 0, None, False) (st, e, False) \<and>
     length (mTrackingSessions st) = 2 \<and> Min (minInterval ` snd ` set (mTrackingSessions st)) = 500 \<and>
     (\<exists>mode. e = Some mode \<and> pm_min_interval mode = Min (minInterval ` snd ` set (mTrackingSessions st)))"
proof -
  define s1 where "s1 = ga_sendMsg (MsgAddClient 7 ex_callbacks) (new_adapter ex_conf 0)"
  define s2 where "s2 = snd (startTrackingCommand 7 (ex_options 1000) s1)"
  define s3 where "s3 = snd (startTrackingCommand 7 (ex_options 500) s2)"
  define s4 where "s4 = snd (ga_next ex_env s3)"
  define s5 where "s5 = snd (ga_next ex_env s4)"
  define s6 where "s6 = snd (ga_next ex_env s5)"
  note d1 = s1_def ga_sendMsg_def new_adapter_def
  note d2 = d1 s2_def startTrackingCommand_def generateSessionId_def Let_def
  have r1: "(ga_step ex_env)\<^sup>*\<^sup>* (new_adapter ex_conf 0, None, False) (s1, None, False)"
    unfolding s1_def by (rule ga_steps_send) (simp_all add: plain_msg_def)
  have r2: "(ga_step ex_env)\<^sup>*\<^sup>* (new_adapter ex_conf 0, None, False) (s2, None, False)"
    by (rule ga_steps_start [OF r1, of 7 "ex_options 1000" 1]) (simp_all add: d2 isTrackingSession_iff)
  have r3: "(ga_step ex_env)\<^sup>*\<^sup>* (new_adapter ex_conf 0, None, False) (s3, None, False)"
    by (rule ga_steps_start [OF r2, of 7 "ex_options 500" 2]) (simp_all add: d2 s3_def isTrackingSession_iff)
  note d3 = d2 s3_def s4_def ga_next_def saveClient_def updateClientsEventMask_def
  have r4: "(ga_step ex_env)\<^sup>*\<^sup>* (new_adapter ex_conf 0, None, False) (s4, None, False)"
    using ga_steps_deliver [OF r3, of "fst (ga_next ex_env s3)" s4] by (simp add: d3 lost_after_def)
  let ?m = "new_LocPosMode\<lparr>pm_mode := LOC_POSITION_MODE_STANDALONE\<rparr>"
  note d4 = d3 s5_def start_tracking_proc_def hasTrackingCallback_def startTrackingMultiplex_def ga_startTracking_def
    api_startFix_def saveTrackingSession_def reportResponse_def no_options_def less_session_key_def session_key_less_def convertOptions_def
    new_LocPosMode_def
  have r5: "(ga_step ex_env)\<^sup>*\<^sup>* (new_adapter ex_conf 0, None, False) (s5, Some ?m, False)"
    using ga_steps_deliver [OF r4, of "fst (ga_next ex_env s4)" s5] by (simp add: d4 lost_after_def)
  have r6: "(ga_step ex_env)\<^sup>*\<^sup>* (new_adapter ex_conf 0, None, False)
      (s6, Some (?m\<lparr>pm_min_interval := 500\<rparr>), False)"
    using ga_steps_deliver [OF r5, of "fst (ga_next ex_env s5)" s6] by (simp add: d4 s6_def lost_after_def)
  have m: "mTrackingSessions s6 = [(SessionKey 7 1, ex_options 1000), (SessionKey 7 2, ex_options 500)]"
    by (simp add: d4 s6_def)
  have t: "\<exists>mode. Some (?m\<lparr>pm_min_interval := 500\<rparr>) = Some mode \<and>
      pm_min_interval mode = Min (minInterval ` snd ` set (mTrackingSessions s6))"
    using modem_follows_fastest_session [OF _ _ r6] m by simp
  have n: "length (mTrackingSessions s6) = 2" "Min (minInterval ` snd ` set (mTrackingSessions s6)) = 500"
    using m by simp_all
  show ?thesis
    by (rule exI [of _ s6], rule exI [of _ "Some (?m\<lparr>pm_min_interval := 500\<rparr>)"]) (use r6 n t in blast)
qed

end
