(* ===== verification/Gnss_Requests_Props.thy ===== *)
theory Gnss_Requests_Props
  imports Gnss_Adapter_Props
begin

text \<open>
  The other requests of the GNSS adapter: on-demand coarse position injection is requested at the pace of
  its timer and never forgotten, and a configuration update is answered item by item.
\<close>

section \<open>ODCPI\<close>

fun ga_run :: "ga_env \<Rightarrow> ga_msg list \<Rightarrow> gnss_adapter \<Rightarrow> ga_out list \<times> gnss_adapter" where
  "ga_run env [] st = ([], st)"
| "ga_run env (msg # ms) st =
     (let (out1, st) = ga_proc env msg st; (out2, st) = ga_run env ms st in (out1 @ out2, st))"

text \<open>The messages that entitle to a request of their own: expiries and emergency starts.\<close>

definition grants_request :: "ga_msg \<Rightarrow> bool" where
  "grants_request msg \<longleftrightarrow>
     (case msg of MsgOdcpiTimerExpire \<Rightarrow> True
      | MsgReportOdcpiRequest request \<Rightarrow> odcpi_start request \<and> isEmergencyMode request | _ \<Rightarrow> False)"

lemma no_odcpi_filter: "no_odcpi out \<Longrightarrow> filter odcpi_out out = []"
  by (induction out) auto

lemma tracking_no_odcpi: "list_all tracking_out out \<Longrightarrow> no_odcpi out"
  by (induction out) (auto simp: tracking_out_def odcpi_out_def split: ga_out.splits)

definition quiet :: "gnss_adapter \<Rightarrow> ga_out list \<Rightarrow> gnss_adapter \<Rightarrow> bool" where
  "quiet st out st' \<longleftrightarrow> same_odcpi st st' \<and> mMsgs st' = mMsgs st \<and> no_odcpi out"

lemma quiet_tracking: "same_but_tracking st st' \<and> list_all tracking_out out \<Longrightarrow> quiet st out st'"
  by (simp add: quiet_def same_odcpi_def same_but_tracking_fields tracking_no_odcpi)

lemma quiet_mask:
  "saveClient env client cb st = (out, st') \<Longrightarrow> quiet st out st'"
  "eraseClient env client st = (out, st') \<Longrightarrow> quiet st out st'"
  "initOdcpi has_cb st = (out, st') \<Longrightarrow> quiet st out st'"
  by (auto simp: saveClient_def eraseClient_def updateClientsEventMask_def initOdcpi_def Let_def same_odcpi_def
      odcpi_out_def quiet_def split: if_splits)

lemma quiet_vote:
  "enable_proc sid g st = (out, st') \<Longrightarrow> quiet st out st'"
  "disable_proc sid st = (out, st') \<Longrightarrow> quiet st out st'"
  by (auto simp: enable_proc_def disable_proc_def Let_def same_odcpi_def odcpi_out_def quiet_def
      control_reportResponse_def split: if_splits)

lemma quiet_config: "gnssUpdateConfig_proc env c ids st = (out, st') \<Longrightarrow> quiet st out st'"
  using update_config_cfg_frame by (simp add: cfg_frame_def quiet_def same_tracking_def)

lemma quiet_remove: "ga_proc env (MsgRemoveClient client) st = (out, st') \<Longrightarrow> quiet st out st'"
proof -
  assume p: "ga_proc env (MsgRemoveClient client) st = (out, st')"
  obtain out1 st1 where t: "stopClientSessions env client st = (out1, st1)" by fastforce
  obtain out2 where r: "eraseClient env client st1 = (out2, st')" "out = out1 @ out2"
    using p t by (auto split: prod.splits)
  have "quiet st out1 st1"
    using t stop_sessions_loop_frame quiet_tracking unfolding stopClientSessions_def by blast
  then show ?thesis using quiet_mask(2) [OF r(1)] r(2) by (simp add: quiet_def same_odcpi_def)
qed

text \<open>Only three messages are about ODCPI.\<close>

definition odcpi_msg :: "ga_msg \<Rightarrow> bool" where
  "odcpi_msg msg \<longleftrightarrow>
     (case msg of MsgReportOdcpiRequest _ \<Rightarrow> True | MsgOdcpiTimerExpire \<Rightarrow> True | MsgRestartSessions \<Rightarrow> True | _ \<Rightarrow> False)"

lemma other_msgs_quiet:
  assumes "ga_proc env msg st = (out, st')" "\<not> odcpi_msg msg"
  shows "quiet st out st'"
proof (cases msg)
  case (MsgRemoveClient client)
  with assms(1) show ?thesis by (intro quiet_remove) simp
next
  case (MsgRequestCapabilities client)
  with assms(1) show ?thesis
    by (auto simp: quiet_def same_odcpi_def odcpi_out_def split: option.splits if_splits)
next
  case (MsgSetUlpMode m)
  with assms(1) show ?thesis
    by (auto simp: quiet_def same_odcpi_def odcpi_out_def setUlpPositionMode_def split: if_splits)
next
  case MsgUlpStartTracking
  with assms(1) show ?thesis
    by (auto simp: quiet_def same_odcpi_def odcpi_out_def api_startFix_def Let_def split: if_splits)
next
  case MsgUlpStopTracking
  with assms(1) show ?thesis
    by (auto simp: quiet_def same_odcpi_def odcpi_out_def setUlpPositionMode_def api_stopFix_def Let_def split: if_splits)
next
  case (MsgAddClient client cb)
  with assms(1) show ?thesis by (simp add: quiet_mask(1))
next
  case (MsgInitOdcpi has_cb)
  with assms(1) show ?thesis by (simp add: quiet_mask(3))
next
  case (MsgStartTracking client sid options)
  with assms(1) show ?thesis using quiet_tracking tracking_proc_frame(1) by fastforce
next
  case (MsgUpdateTracking client sid options)
  with assms(1) show ?thesis using quiet_tracking tracking_proc_frame(2) by fastforce
next
  case (MsgStopTracking client sid)
  with assms(1) show ?thesis using quiet_tracking tracking_proc_frame(3) by fastforce
next
  case (MsgGnssUpdateConfig c ids)
  with assms(1) show ?thesis by (simp add: quiet_config)
qed (use assms in \<open>auto simp: odcpi_msg_def quiet_def same_odcpi_def dest: quiet_vote\<close>)

lemma restart_quiet:
  assumes "restartSessions env st = (out, st')"
  shows "odcpiTimerActive st' = odcpiTimerActive st" "odcpi_armed st' = odcpi_armed st" "mMsgs st' = mMsgs st"
    "\<not> mOdcpiRequestActive st'" "no_odcpi out"
  using assms by (auto simp: restartSessions_def api_startFix_def Let_def odcpi_out_def split: if_splits)

lemmas odcpi_defs = reportOdcpiRequest_def odcpiTimerExpire_def odcpiTimer_start_def odcpiTimer_stop_def
  odcpiTimer_restart_def Let_def

text \<open>A step issues at most one request, and pays for it with the timer or the message.\<close>

lemma odcpi_step_cost:
  assumes "ga_proc env msg st = (out, st')"
  shows "length (filter odcpi_out out) + of_bool (\<not> odcpiTimerActive st') \<le>
     of_bool (\<not> odcpiTimerActive st) + of_bool (grants_request msg)"
proof (cases "odcpi_msg msg")
  case True
  then consider (report) request where "msg = MsgReportOdcpiRequest request"
    | (expire) "msg = MsgOdcpiTimerExpire" | (restart) "msg = MsgRestartSessions"
    by (auto simp: odcpi_msg_def split: ga_msg.splits)
  then show ?thesis
  proof cases
    case restart
    then show ?thesis using restart_quiet [of env st out st'] assms by (simp add: no_odcpi_filter)
  qed (use assms in \<open>auto simp: odcpi_defs grants_request_def odcpi_out_def split: if_splits\<close>)
next
  case False
  then show ?thesis
    using other_msgs_quiet [OF assms False] by (simp add: quiet_def same_odcpi_def no_odcpi_filter)
qed

lemma odcpi_run_cost:
  "length (filter odcpi_out (fst (ga_run env msgs st))) \<le>
     of_bool (\<not> odcpiTimerActive st) + length (filter grants_request msgs)"
proof (induction msgs arbitrary: st)
  case (Cons msg msgs)
  obtain out1 st1 where p: "ga_proc env msg st = (out1, st1)" by fastforce
  obtain out2 st2 where r: "ga_run env msgs st1 = (out2, st2)" by fastforce
  show ?case
    using odcpi_step_cost [OF p] Cons.IH [of st1] by (auto simp: p r of_bool_def split: if_splits)
qed simp

text \<open>C20: Whatever the adapter handles, it asks the framework for a position at most once at the start and once
  for every expiry of the ODCPI timer and every emergency start: repeated requests of the modem are
  throttled to the timer.
\<close>

theorem odcpi_requests_throttled:
  "length (filter odcpi_out (fst (ga_run env msgs st))) \<le> 1 + length (filter grants_request msgs)"
  using odcpi_run_cost [of env msgs st] by (auto intro: order_trans)

text \<open>An active request has a retry ahead: its timer runs, or the expiry is queued.\<close>

definition odcpi_inv :: "gnss_adapter \<Rightarrow> bool" where
  "odcpi_inv st \<longleftrightarrow>
     (mOdcpiRequestActive st \<longrightarrow> odcpiTimerActive st) \<and>
     (odcpiTimerActive st \<longrightarrow> odcpi_armed st \<or> MsgOdcpiTimerExpire \<in> set (mMsgs st))"

lemma odcpi_inv_mono:
  assumes "odcpi_inv st" "mOdcpiRequestActive st' \<longrightarrow> mOdcpiRequestActive st" "odcpiTimerActive st' = odcpiTimerActive st"
    "odcpi_armed st' = odcpi_armed st" "set (mMsgs st) - {msg} \<subseteq> set (mMsgs st')" "msg \<noteq> MsgOdcpiTimerExpire"
  shows "odcpi_inv st'"
  using assms by (auto simp: odcpi_inv_def)

lemma odcpi_inv_deliver:
  assumes inv: "odcpi_inv st" and nxt: "ga_next env st = (out, st')"
  shows "odcpi_inv st'"
proof (cases "mMsgs st")
  case Nil
  then show ?thesis using assms by (simp add: ga_next_def)
next
  case (Cons msg ms)
  define s where "s = st\<lparr>mMsgs := ms\<rparr>"
  have p: "ga_proc env msg s = (out, st')" using nxt Cons by (simp add: ga_next_def s_def)
  show ?thesis
  proof (cases "odcpi_msg msg")
    case True
    then consider (report) request where "msg = MsgReportOdcpiRequest request"
      | (expire) "msg = MsgOdcpiTimerExpire" | (restart) "msg = MsgRestartSessions"
      by (auto simp: odcpi_msg_def split: ga_msg.splits)
    then show ?thesis
    proof cases
      case report
      then show ?thesis
        using p inv Cons by (auto simp: odcpi_defs odcpi_inv_def s_def split: if_splits)
    next
      case expire
      then show ?thesis using p by (auto simp: odcpi_defs odcpi_inv_def split: if_splits)
    next
      case restart
      then have "restartSessions env s = (out, st')" using p by simp
      from restart_quiet [OF this] show ?thesis
        by (intro odcpi_inv_mono [OF inv, where msg = msg]) (auto simp: Cons restart s_def)
    qed
  next
    case False
    have "quiet s out st'" by (rule other_msgs_quiet [OF p False])
    moreover have "msg \<noteq> MsgOdcpiTimerExpire" using False by (auto simp: odcpi_msg_def)
    ultimately show ?thesis
      by (intro odcpi_inv_mono [OF inv, where msg = msg]) (auto simp: Cons s_def quiet_def same_odcpi_def)
  qed
qed

lemma odcpi_inv_same:
  assumes "odcpi_inv st" "mOdcpiRequestActive st' = mOdcpiRequestActive st" "odcpiTimerActive st' = odcpiTimerActive st"
    "odcpi_armed st' = odcpi_armed st" "set (mMsgs st) \<subseteq> set (mMsgs st')"
  shows "odcpi_inv st'"
  using assms by (auto simp: odcpi_inv_def)

lemma odcpi_inv_step: "ga_step env s s' \<Longrightarrow> odcpi_inv (fst s) \<Longrightarrow> odcpi_inv (fst s')"
proof -
  assume step: "ga_step env s s'" and inv: "odcpi_inv (fst s)"
  from step show ?thesis
  proof (cases rule: ga_step.cases)
    case (start client options st sid st' e lost)
    then show ?thesis
      using inv by (auto intro!: odcpi_inv_same [of st] simp: startTrackingCommand_def generateSessionId_def Let_def
          ga_sendMsg_def)
  next
    case (send msg st e lost)
    then show ?thesis using inv by (auto intro!: odcpi_inv_same [of st] simp: ga_sendMsg_def)
  next
    case (enable is_gnss st sid out st' e lost)
    then show ?thesis
      using inv by (auto intro!: odcpi_inv_same [of st] simp: enableCommand_def generateSessionId_def Let_def ga_sendMsg_def)
  next
    case (config c st ids st' e lost)
    obtain ids2 st2 where g: "generate_ids (count_flags (flags c)) st = (ids2, st2)" by fastforce
    have "odcpi_inv (st\<lparr>mSessionIdCounter := mSessionIdCounter st2\<rparr>)" using inv config by (simp add: odcpi_inv_def)
    then have "odcpi_inv st2" using generate_ids_frame [OF g] by simp
    then show ?thesis
      using config g inv by (auto simp: gnssUpdateConfigCommand_def ga_sendMsg_def odcpi_inv_def split: if_splits)
  next
    case (timeout st e lost)
    then show ?thesis using inv by (auto simp: odcpi_timeout_def ga_sendMsg_def odcpi_inv_def)
  next
    case (engine_restart st e lost)
    then show ?thesis using inv by (auto intro!: odcpi_inv_same [of st] simp: ga_sendMsg_def)
  next
    case (deliver st out st' e lost)
    then show ?thesis using inv odcpi_inv_deliver by simp
  qed
qed

text \<open>In every reachable state of the adapter, while an ODCPI request of the modem is active its retry is
  ahead: the ODCPI timer is armed or its expiry is queued.
\<close>

theorem odcpi_active_request_retried:
  assumes "(ga_step env)\<^sup>*\<^sup>* (new_adapter conf counter, None, False) (st, e, lost)" "mOdcpiRequestActive st"
  shows "odcpi_armed st \<or> MsgOdcpiTimerExpire \<in> set (mMsgs st)"
proof -
  from assms(1) have "odcpi_inv (fst (st, e, lost))"
    by (induction rule: rtranclp_induct)
      (use odcpi_inv_step in \<open>simp add: odcpi_inv_def new_adapter_def, blast\<close>)
  then show ?thesis using assms(2) by (simp add: odcpi_inv_def)
qed

text \<open>A request of the modem is active after it was handled.\<close>

theorem odcpi_active_request_retried_witness:
  "\<exists>st e. (ga_step ex_env)\<^sup>*\<^sup>* (new_adapter ex_conf 0, None, False) (st, e, False) \<and>
     mOdcpiRequestActive st \<and> (odcpi_armed st \<or> MsgOdcpiTimerExpire \<in> set (mMsgs st))"
proof -
  define s1 where "s1 = ga_sendMsg (MsgInitOdcpi True) (new_adapter ex_conf 0)"
  define s2 where "s2 = ga_sendMsg (MsgReportOdcpiRequest
    \<lparr>odcpi_start = True, tbfMillis = 1000, isEmergencyMode = False\<rparr>) s1"
  define s3 where "s3 = snd (ga_next ex_env s2)"
  define s4 where "s4 = snd (ga_next ex_env s3)"
  note d = s1_def s2_def s3_def s4_def ga_sendMsg_def new_adapter_def ga_next_def initOdcpi_def odcpi_defs
  have r2: "(ga_step ex_env)\<^sup>*\<^sup>* (new_adapter ex_conf 0, None, False) (s2, None, False)"
    unfolding s1_def s2_def by (intro ga_steps_send) (simp_all add: plain_msg_def)
  have r3: "(ga_step ex_env)\<^sup>*\<^sup>* (new_adapter ex_conf 0, None, False) (s3, None, False)"
    using ga_steps_deliver [OF r2, of "fst (ga_next ex_env s2)" s3] by (simp add: d lost_after_def)
  have r4: "(ga_step ex_env)\<^sup>*\<^sup>* (new_adapter ex_conf 0, None, False) (s4, None, False)"
    using ga_steps_deliver [OF r3, of "fst (ga_next ex_env s3)" s4] by (simp add: d lost_after_def)
  have a: "mOdcpiRequestActive s4" by (simp add: d)
  show ?thesis
    by (rule exI [of _ s4], rule exI [of _ None]) (use r4 a odcpi_active_request_retried [OF r4 a] in blast)
qed

section \<open>Configuration updates\<close>

text \<open>The shifting loop counts the set bits.\<close>

lemma count_flags_card: "count_flags f = card {i. bit f i}"
proof (induction f rule: count_flags.induct)
  case (1 f)
  show ?case
  proof (cases "f = 0")
    case True
    then show ?thesis by (simp add: count_flags.simps [of 0])
  next
    case False
    have fin: "finite {i. bit (g :: u32) i}" for g
      by (rule finite_subset [of _ "{..< 32}"]) (auto dest: bit_imp_le_length)
    have "{i. bit f i} = (if bit f 0 then {0} else {}) \<union> Suc ` {i. bit (drop_bit 1 f) i}" (is "_ = ?r")
    proof (rule set_eqI)
      fix i
      show "i \<in> {i. bit f i} \<longleftrightarrow> i \<in> ?r" by (cases i) (auto simp: bit_drop_bit_eq)
    qed
    then have "card {i. bit f i} = (if bit f 0 then 1 else 0) + card {i. bit (drop_bit 1 f) i}"
      by (simp add: card_image fin)
    then show ?thesis
      using "1.IH" [OF False] False by (simp add: count_flags.simps [of f] low_bits_nonzero(1))
  qed
qed





text \<open>The id drawn for a flag that is not known is never answered.\<close>

lemma unknown_flag_unanswered:
  assumes "flags c = 1024" "gnssUpdateConfig_proc env c ids st = (out, st')" "snd (mControlCallbacks st)"
  shows "out = [ControlCollectiveCb [] []]" "count_flags (flags c) = 1"
proof -
  have "bit (1024 :: u32) i \<longleftrightarrow> i = 10" for i
    using bit_exp_iff [where 'a = u32, of 10 i] by (auto simp: possible_bit_word)
  then show "count_flags (flags c) = 1" "out = [ControlCollectiveCb [] []]"
    using assms
    by (auto simp: count_flags_card gnssUpdateConfig_proc_def cfg_actions_def collective_reportResponse_def)
qed

section \<open>The control client's vote and the GPS lock\<close>

text \<open>The lock last asked of the modem.\<close>

fun lock_after :: "ga_out list \<Rightarrow> GnssConfigGpsLock \<Rightarrow> GnssConfigGpsLock" where
  "lock_after [] l = l"
| "lock_after (SetGpsLock l' # out) l = lock_after out l'"
| "lock_after (_ # out) l = lock_after out l"

lemma lock_after_append [simp]: "lock_after (a @ b) l = lock_after b (lock_after a l)"
  by (induction a l rule: lock_after.induct) simp_all

definition lock_ok :: "gnss_adapter \<Rightarrow> GnssConfigGpsLock \<Rightarrow> bool" where
  "lock_ok st l \<longleftrightarrow>
     l = (if mPowerVoteId st = 0 then convertGpsLock_of (GPS_LOCK (mGps_conf st)) else GNSS_CONFIG_GPS_LOCK_NONE)"

definition locks_nothing :: "ga_out list \<Rightarrow> bool" where
  "locks_nothing out \<longleftrightarrow> (\<forall>l. lock_after out l = l)"

definition keeps_lock :: "gnss_adapter \<Rightarrow> ga_out list \<Rightarrow> gnss_adapter \<Rightarrow> bool" where
  "keeps_lock st out st' \<longleftrightarrow> (\<forall>l. lock_ok st l \<longrightarrow> lock_ok st' (lock_after out l))"

lemma keeps_lock_trans: "keeps_lock st out st' \<Longrightarrow> keeps_lock st' out' st'' \<Longrightarrow> keeps_lock st (out @ out') st''"
  by (simp add: keeps_lock_def)

lemma keeps_lock_refl: "keeps_lock st [] st"
  by (simp add: keeps_lock_def)

lemma keeps_lock_quiet:
  assumes "mPowerVoteId st' = mPowerVoteId st" "GPS_LOCK (mGps_conf st') = GPS_LOCK (mGps_conf st)" "locks_nothing out"
  shows "keeps_lock st out st'"
  using assms by (simp add: keeps_lock_def lock_ok_def locks_nothing_def)

lemma locks_nothing_tracking: "list_all tracking_out out \<Longrightarrow> locks_nothing out"
  by (induction out) (auto simp: locks_nothing_def tracking_out_def split: ga_out.splits)

lemma locks_nothing_broadcast [simp]: "lock_after (broadcastCapabilities m cs) l = l"
  by (induction m cs rule: broadcastCapabilities.induct) auto

lemma convertGpsLock_inverse: "convertGpsLock_of (convertGpsLock l) = l"
  by (cases l) (simp_all add: convertGpsLock_of_def)

definition action_keeps_lock :: "cfg_action \<Rightarrow> bool" where
  "action_keeps_lock a \<longleftrightarrow> (\<forall>st err out st'. a st = (err, out, st') \<longrightarrow> keeps_lock st out st')"

lemma gps_lock_action_keeps: "action_keeps_lock (gps_lock_action env c)"
  by (auto simp: action_keeps_lock_def gps_lock_action_def api_set_def upd_conf_def Let_def keeps_lock_def lock_ok_def convertGpsLock_inverse
      split: if_splits)

lemma cfg_actions_keep_lock: "list_all action_keeps_lock (cfg_actions env c)"
  unfolding cfg_actions_def list.pred_inject
  by (intro conjI TrueI gps_lock_action_keeps;
      auto simp: action_keeps_lock_def supl_version_action_def assistance_action_def setSuplHostServer_def
        lpp_profile_action_def lppe_cp_action_def lppe_up_action_def aglonass_action_def em_pdn_action_def
        supl_es_action_def supl_mode_action_def api_set_def upd_conf_def Let_def locks_nothing_def
        intro!: keeps_lock_quiet
        split: if_splits option.splits GnssAssistanceType.splits)

lemma run_cfg_actions_keep_lock:
  "list_all action_keeps_lock as \<Longrightarrow> run_cfg_actions fl i as st = (errs, out, st') \<Longrightarrow> keeps_lock st out st'"
proof (induction fl i as st arbitrary: errs out st' rule: run_cfg_actions.induct)
  case (2 fl i a as st)
  show ?case
  proof (cases "bit fl i")
    case True
    obtain err out1 st1 where a: "a st = (err, out1, st1)" by (metis prod_cases3)
    obtain errs2 out2 st2 where r: "run_cfg_actions fl (i + 1) as st1 = (errs2, out2, st2)" by (metis prod_cases3)
    have "keeps_lock st out1 st1" using "2.prems"(1) a by (auto simp: action_keeps_lock_def)
    moreover have "keeps_lock st1 out2 st2"
      by (rule "2.IH"(1) [OF True a [symmetric] _ _ _ r]) (use "2.prems"(1) in auto)
    ultimately show ?thesis using "2.prems"(2) True a r by (auto intro: keeps_lock_trans)
  next
    case False
    with "2.IH"(2) [OF False] "2.prems" show ?thesis by simp
  qed
qed (simp add: keeps_lock_refl)

lemma vote_keeps_lock [inv_intros]:
  "enable_proc sid g st = (out, st') \<Longrightarrow> sid \<noteq> 0 \<Longrightarrow> keeps_lock st out st'"
  "disable_proc sid st = (out, st') \<Longrightarrow> keeps_lock st out st'"
  by (auto simp: enable_proc_def disable_proc_def Let_def keeps_lock_def lock_ok_def control_reportResponse_def
      word_gt_0 split: if_splits)

lemma tracking_keeps_lock: "same_but_tracking st st' \<and> list_all tracking_out out \<Longrightarrow> keeps_lock st out st'"
  by (rule keeps_lock_quiet) (auto dest: same_but_tracking_fields(2) same_but_tracking_fields(3) locks_nothing_tracking)

lemma mask_keeps_lock [inv_intros]:
  "saveClient env client cb st = (out, st') \<Longrightarrow> keeps_lock st out st'"
  "eraseClient env client st = (out, st') \<Longrightarrow> keeps_lock st out st'"
  "initOdcpi has_cb st = (out, st') \<Longrightarrow> keeps_lock st out st'"
  by (auto simp: saveClient_def eraseClient_def updateClientsEventMask_def initOdcpi_def Let_def locks_nothing_def
      intro!: keeps_lock_quiet split: if_splits)

lemma odcpi_keeps_lock [inv_intros]:
  "reportOdcpiRequest request st = (out, st') \<Longrightarrow> keeps_lock st out st'"
  "odcpiTimerExpire st = (out, st') \<Longrightarrow> keeps_lock st out st'"
  "restartSessions env st = (out, st') \<Longrightarrow> keeps_lock st out st'"
  by (auto simp: odcpi_defs restartSessions_def api_startFix_def locks_nothing_def intro!: keeps_lock_quiet
      split: if_splits)

text \<open>The ids that enable requests draw are not 0.\<close>

definition enable_id_ok :: "ga_msg \<Rightarrow> bool" where
  "enable_id_ok msg \<longleftrightarrow> (case msg of MsgEnableGnss sid _ \<Rightarrow> sid \<noteq> 0 | _ \<Rightarrow> True)"

lemma generated_id_nonzero:
  assumes "generateSessionId st = (sid, st')" "mSessionIdCounter st \<noteq> 0xFFFFFFFF"
  shows "sid \<noteq> 0" "mSessionIdCounter st' \<noteq> 0xFFFFFFFF"
proof -
  have wrap: "c = 0xFFFFFFFF" if "c + 1 = 0" for c :: u32
  proof -
    have "(-1 :: u32) = 0xFFFFFFFF" by simp
    then show ?thesis using that eq_neg_iff_add_eq_0 [of c 1] by (simp only:)
  qed
  have one: "(1 :: u32) \<noteq> 0" "(1 :: u32) \<noteq> 0xFFFFFFFF" by simp_all
  show "sid \<noteq> 0"
    using assms(1) wrap [of "mSessionIdCounter st"] assms(2) one(1)
    unfolding generateSessionId_def Let_def prod.inject by metis
  show "mSessionIdCounter st' \<noteq> 0xFFFFFFFF"
    using assms(1) one(2) unfolding generateSessionId_def Let_def prod.inject
    by (cases "mSessionIdCounter st + 1 = 0xFFFFFFFF") auto
qed

lemma ga_proc_keeps_lock:
  assumes "ga_proc env msg st = (out, st')" "enable_id_ok msg"
  shows "keeps_lock st out st'"
proof (cases msg)
  case (MsgRemoveClient client)
  obtain out1 st1 where t: "stopClientSessions env client st = (out1, st1)" by fastforce
  obtain out2 where r: "eraseClient env client st1 = (out2, st')" "out = out1 @ out2"
    using assms(1) MsgRemoveClient t by (auto split: prod.splits)
  have "keeps_lock st out1 st1"
    using t stop_sessions_loop_frame tracking_keeps_lock unfolding stopClientSessions_def by blast
  then show ?thesis using mask_keeps_lock(2) [OF r(1)] r(2) by (simp add: keeps_lock_trans)
next
  case (MsgGnssUpdateConfig c ids)
  obtain errs out1 st1 where r: "run_cfg_actions (flags c) 0 (cfg_actions env c) st = (errs, out1, st1)"
    by (metis prod_cases3)
  show ?thesis
    using run_cfg_actions_keep_lock [OF cfg_actions_keep_lock r] assms(1) MsgGnssUpdateConfig r
    by (auto simp: gnssUpdateConfig_proc_def collective_reportResponse_def keeps_lock_def)
next
  case (MsgStartTracking client sid options)
  with assms(1) show ?thesis using tracking_keeps_lock tracking_proc_frame(1) by fastforce
next
  case (MsgUpdateTracking client sid options)
  with assms(1) show ?thesis using tracking_keeps_lock tracking_proc_frame(2) by fastforce
next
  case (MsgStopTracking client sid)
  with assms(1) show ?thesis using tracking_keeps_lock tracking_proc_frame(3) by fastforce
qed (use assms in \<open>auto simp: enable_id_ok_def inv_intros setUlpPositionMode_def
    api_startFix_def api_stopFix_def Let_def locks_nothing_def intro!: keeps_lock_quiet split: option.splits if_splits\<close>)

text \<open>Whatever messages the adapter handles, from a state where the lock asked of the modem agrees: it
  stays none while the control client's power vote is held, and the one of the configuration otherwise,
  also when the configuration is updated during the vote.
\<close>

lemma gps_lock_follows_power_vote:
  assumes "ga_run env msgs st = (out, st')" "list_all enable_id_ok msgs"
    and "l = (if mPowerVoteId st = 0 then convertGpsLock_of (GPS_LOCK (mGps_conf st)) else GNSS_CONFIG_GPS_LOCK_NONE)"
  shows "lock_after out l =
    (if mPowerVoteId st' = 0 then convertGpsLock_of (GPS_LOCK (mGps_conf st')) else GNSS_CONFIG_GPS_LOCK_NONE)"
proof -
  have "keeps_lock st out st'" using assms(1,2)
  proof (induction msgs arbitrary: st out)
    case (Cons msg msgs)
    obtain out1 st1 where p: "ga_proc env msg st = (out1, st1)" by fastforce
    obtain out2 st2 where r: "ga_run env msgs st1 = (out2, st2)" by fastforce
    show ?case
      using keeps_lock_trans [OF ga_proc_keeps_lock [OF p] Cons.IH [of st1 out2]] Cons.prems p r by simp
  qed (simp add: keeps_lock_refl)
  then show ?thesis using assms(3) by (simp add: keeps_lock_def lock_ok_def)
qed

text \<open>The client votes, the configuration locks MO, the client withdraws its vote.\<close>

theorem gps_lock_follows_power_vote_witness:
  "lock_after (fst (ga_run ex_env
      [MsgEnableGnss 5 True, MsgGnssUpdateConfig (ex_update\<lparr>flags := 1\<rparr>) [6], MsgDisableGnss 5]
      (new_adapter ex_conf 0))) GNSS_CONFIG_GPS_LOCK_MO_AND_NI = GNSS_CONFIG_GPS_LOCK_NI"
proof -
  let ?msgs = "[MsgEnableGnss 5 True, MsgGnssUpdateConfig (ex_update\<lparr>flags := 1\<rparr>) [6], MsgDisableGnss 5]"
  obtain out st' where r: "ga_run ex_env ?msgs (new_adapter ex_conf 0) = (out, st')" by fastforce
  then have "mPowerVoteId st' = 0 \<and> GPS_LOCK (mGps_conf st') = 2"
    by (auto simp: new_adapter_def enable_proc_def disable_proc_def gnssUpdateConfig_proc_def cfg_actions_def
        gps_lock_action_def upd_conf_def bit_1_iff Let_def)
  then show ?thesis
    using gps_lock_follows_power_vote [OF r, of GNSS_CONFIG_GPS_LOCK_MO_AND_NI] r
    by (simp add: enable_id_ok_def new_adapter_def convertGpsLock_of_def)
qed

section \<open>The event mask\<close>

text \<open>The bits of the masks.\<close>

lemma bit_if_word: "{i. bit (if P then (w :: 64 word) else 0) i} = (if P then {i. bit w i} else {})"
  by simp

lemma bits_or: "{i. bit (v OR w :: 64 word) i} = {i. bit v i} \<union> {i. bit w i}"
  by (auto simp: bit_or_iff)

lemma bits_or_if:
  "{i. bit (if P then v OR w else v :: 64 word) i} = {i. bit v i} \<union> (if P then {i. bit w i} else {})"
  by (simp add: bits_or)

lemma bits_of_power: "n < 64 \<Longrightarrow> {i. bit (2 ^ n :: 64 word) i} = {n}"
  by (auto simp: bit_exp_iff possible_bit_word)

lemma event_bits:
  "{i. bit BIT_PARSED_POSITION_REPORT i} = {0}" "{i. bit BIT_SATELLITE_REPORT i} = {1}"
  "{i. bit BIT_NMEA_1HZ_REPORT i} = {2}" "{i. bit BIT_NI_NOTIFY_VERIFY_REQUEST i} = {4}"
  "{i. bit BIT_LOCATION_SERVER_REQUEST i} = {6}" "{i. bit BIT_REQUEST_WIFI i} = {9}"
  "{i. bit BIT_GNSS_SV_POLYNOMIAL_REPORT i} = {23}" "{i. bit BIT_GNSS_MEASUREMENT i} = {26}"
  using bits_of_power [of 0] bits_of_power [of 1] bits_of_power [of 2] bits_of_power [of 4] bits_of_power [of 6]
    bits_of_power [of 9] bits_of_power [of 23] bits_of_power [of 26] by simp_all

definition client_bits :: "u32 \<Rightarrow> callbacks \<Rightarrow> nat set" where
  "client_bits nmea cb =
     (if trackingCb cb then {0} else {}) \<union> (if gnssNiCb cb then {4} else {}) \<union>
     (if gnssSvCb cb then {1} else {}) \<union> (if gnssNmeaCb cb \<and> nmea \<noteq> 0 then {2} else {}) \<union>
     (if gnssMeasurementsCb cb then {26} else {})"

lemma client_mask_bits: "{i. bit (client_mask nmea cb) i} = client_bits nmea cb"
  unfolding client_mask_def bits_or bit_if_word event_bits client_bits_def Un_assoc ..

lemma clients_mask_bits:
  "{i. bit (clients_mask nmea cs m) i} = {i. bit m i} \<union> (\<Union>x \<in> set cs. client_bits nmea (snd x))"
  by (induction nmea cs m rule: clients_mask.induct) (auto simp: bits_or client_mask_bits)

text \<open>The events that the adapter registers for after a client was added, changed or removed are exactly
  those that some client has a callback for (NMEA also needs its mask), with measurements and polynomials
  for external dead reckoning, the server request of AGPS and the one of ODCPI.
\<close>

theorem event_mask_follows_clients:
  "{i. bit (mEvtMask (snd (updateClientsEventMask env st))) i} =
     (\<Union>x \<in> set (mClientData st). client_bits (mNmeaMask st) (snd x)) \<union>
     (if EXTERNAL_DR_ENABLED (mGps_conf st) = 1 then {23, 26} else {}) \<union>
     (if has_agps_status_cb env then {6} else {}) \<union> (if has_mOdcpiRequestCb st then {9} else {})"
proof -
  have "mEvtMask (snd (updateClientsEventMask env st)) =
      (if has_mOdcpiRequestCb st then d OR BIT_REQUEST_WIFI else d)"
    if "d = (if has_agps_status_cb env then c OR BIT_LOCATION_SERVER_REQUEST else c)"
      "c = (if EXTERNAL_DR_ENABLED (mGps_conf st) = 1
            then b OR BIT_GNSS_MEASUREMENT OR BIT_GNSS_SV_POLYNOMIAL_REPORT else b)"
      "b = clients_mask (mNmeaMask st) (mClientData st) 0" for b c d
    unfolding that by (simp add: updateClientsEventMask_def Let_def)
  note e = this [OF refl refl refl]
  show ?thesis
    unfolding e bits_or_if bits_or event_bits clients_mask_bits by auto
qed

section \<open>Servers\<close>

text \<open>A SUPL server that is already in use is answered with an error.\<close>

lemma unchanged_server_refused:
  assumes "AGPS_CONFIG_INJECT (mGps_conf st) \<noteq> 0" "h \<noteq> []" "\<not> same_ignoring_case ''NONE'' h" "0 < sint port"
    "mServerUrl st = h @ '':'' @ dec (unat port)" "length (mServerUrl st) < 256"
  shows "setSuplHostServer env (Some h) port st = (LOCATION_ERROR_INVALID_PARAMETER, [], st)"
  using assms by (simp add: setSuplHostServer_def same_ignoring_case_def Let_def)

end
