(* ===== verification/Gnss_Ni.thy ===== *)
theory Gnss_Ni
  imports Gnss_Adapter
begin

text \<open>
  Network initiated requests, gps/gnss/GnssAdapter.cpp: a request of the modem opens one of two sessions
  (SUPL and emergency SUPL) and a thread that waits for the user's response or a timeout. The adapter's
  thread and the NI threads are interleaved: a step is what one of them does while it holds a session's
  lock, or one of its accesses without the lock. Time is in seconds.
\<close>

section \<open>Sessions\<close>

text \<open>
  The thread of a session: created; waiting until an absolute time; after it gave up the lock, with what it
  still has to send, before it clears respTimeLeft and before it clears reqID. Raw requests are blocks of
  the modem's API, by address.
\<close>

datatype ni_thread =
    NT_Created
  | NT_Waiting nat
  | NT_Clear_Time "(GnssNiResponse \<times> addr) option"
  | NT_Clear_Id "(GnssNiResponse \<times> addr) option"

record NiSession =
  respTimeLeft :: u32
  respRecvd :: bool
  rawRequest :: ptr
  reqID :: u32
  resp :: GnssNiResponse
  threads :: "ni_thread list"

definition new_NiSession :: NiSession where
  "new_NiSession =
     \<lparr>respTimeLeft = 0, respRecvd = False, rawRequest = None, reqID = 0, resp = GNSS_NI_RESPONSE_ACCEPT,
      threads = []\<rparr>"

datatype ni_kind = NI_SUPL | NI_ES

text \<open>
  \<open>signals\<close> are the sessions the message that the adapter's thread is handling has yet to signal,
  \<open>ni_msgs\<close> the queued answers. The rest records what became of the raw requests: answered and then
  freed, freed without an answer, or dropped for want of a client.
\<close>

record ni_sys =
  session_of :: "ni_kind \<Rightarrow> NiSession"
  reqIDCounter :: u32
  ni_clients :: "(addr, callbacks) std_map"
  signals :: "(ni_kind \<times> GnssNiResponse) list"
  ni_msgs :: "(GnssNiResponse \<times> addr) list"
  ni_now :: nat
  given :: "addr list"
  informed :: "(GnssNiResponse \<times> addr) list"
  ni_freed :: "addr list"
  ni_dropped :: "addr list"

definition new_ni :: "(addr, callbacks) std_map \<Rightarrow> ni_sys" where
  "new_ni clients =
     \<lparr>session_of = \<lambda>_. new_NiSession, reqIDCounter = 0, ni_clients = clients, signals = [], ni_msgs = [],
      ni_now = 0, given = [], informed = [], ni_freed = [], ni_dropped = []\<rparr>"

definition set_session :: "ni_kind \<Rightarrow> NiSession \<Rightarrow> ni_sys \<Rightarrow> ni_sys" where
  "set_session k ses s = s\<lparr>session_of := (session_of s)(k := ses)\<rparr>"

section \<open>A request of the modem\<close>

abbreviation (input) LOC_NI_NO_RESPONSE_TIME :: u32 where "LOC_NI_NO_RESPONSE_TIME \<equiv> 20"

fun first_ni_client :: "(addr, callbacks) std_map \<Rightarrow> addr option" where
  "first_ni_client [] = None"
| "first_ni_client ((c, cb) # cs) = (if gnssNiCb cb then Some c else first_ni_client cs)"

definition open_session :: "ni_kind \<Rightarrow> u32 \<Rightarrow> addr \<Rightarrow> ni_sys \<Rightarrow> ni_sys" where
  "open_session k timeout data s =
     (let c = reqIDCounter s + 1; ses = session_of s k
      in set_session k
           (ses\<lparr>rawRequest := Some data, reqID := c,
                respTimeLeft := 5 + (if timeout \<noteq> 0 then timeout else LOC_NI_NO_RESPONSE_TIME),
                threads := threads ses @ [NT_Created]\<rparr>)
           (s\<lparr>reqIDCounter := c\<rparr>))"

text \<open>The result: whether a client was found, and the client notified with its request id.\<close>

definition requestNiNotify :: "bool \<Rightarrow> u32 \<Rightarrow> addr \<Rightarrow> ni_sys \<Rightarrow> bool \<times> (addr \<times> u32) option \<times> ni_sys" where
  "requestNiNotify is_es timeout data s =
     (case first_ni_client (ni_clients s) of
        None \<Rightarrow> (False, None, s\<lparr>ni_dropped := data # ni_dropped s\<rparr>)
      | Some c \<Rightarrow>
          (let k = (if is_es then NI_ES else NI_SUPL);
               busy = (if is_es then rawRequest (session_of s NI_ES) \<noteq> None
                       else rawRequest (session_of s NI_SUPL) \<noteq> None \<or> rawRequest (session_of s NI_ES) \<noteq> None)
           in if busy then (True, None, s\<lparr>ni_freed := data # ni_freed s\<rparr>)
              else (True, Some (c, reqIDCounter s + 1), open_session k timeout data s)))"

section \<open>The user's response\<close>

definition hasNiNotifyCallback :: "addr \<Rightarrow> ni_sys \<Rightarrow> bool" where
  "hasNiNotifyCallback client s = (case map_of (ni_clients s) client of Some cb \<Rightarrow> gnssNiCb cb | None \<Rightarrow> False)"

text \<open>
  What the message decides before it takes a lock: the error to report and the sessions to signal. An
  accepted emergency session makes the other one be ignored.
\<close>

definition niResponse_check ::
  "addr \<Rightarrow> u32 \<Rightarrow> GnssNiResponse \<Rightarrow> ni_sys \<Rightarrow> LocationError \<times> (ni_kind \<times> GnssNiResponse) list" where
  "niResponse_check client sid response s =
     (let active = (\<lambda>k. sid = reqID (session_of s k) \<and> rawRequest (session_of s k) \<noteq> None)
      in if \<not> hasNiNotifyCallback client s then (LOCATION_ERROR_ID_UNKNOWN, [])
         else if active NI_ES
         then (LOCATION_ERROR_SUCCESS,
               (if response = GNSS_NI_RESPONSE_ACCEPT \<and> rawRequest (session_of s NI_SUPL) \<noteq> None
                then [(NI_SUPL, GNSS_NI_RESPONSE_IGNORE)] else []) @ [(NI_ES, response)])
         else if active NI_SUPL then (LOCATION_ERROR_SUCCESS, [(NI_SUPL, response)])
         else (LOCATION_ERROR_ID_UNKNOWN, []))"

text \<open>Signalling a session, under its lock.\<close>

definition ni_signal :: "GnssNiResponse \<Rightarrow> NiSession \<Rightarrow> NiSession" where
  "ni_signal response ses = ses\<lparr>resp := response, respRecvd := True\<rparr>"

section \<open>The thread of a session\<close>

text \<open>The thread takes the lock and computes its expiry.\<close>

definition niThread_expiry :: "nat \<Rightarrow> NiSession \<Rightarrow> nat" where
  "niThread_expiry now ses = now + unat (respTimeLeft ses)"

text \<open>
  What it does, still under the lock, after the wait loop ended by a response or a timeout: the
  session, what is to be sent, and what is freed.
\<close>

definition niThread_finish :: "bool \<Rightarrow> NiSession \<Rightarrow> NiSession \<times> (GnssNiResponse \<times> addr) option \<times> addr list" where
  "niThread_finish timed_out ses =
     (let ses = (if timed_out then ses\<lparr>resp := GNSS_NI_RESPONSE_NO_RESPONSE\<rparr> else ses);
          ses = ses\<lparr>respRecvd := False\<rparr>
      in case rawRequest ses of
           None \<Rightarrow> (ses, None, [])
         | Some raw \<Rightarrow>
             (if resp ses \<noteq> GNSS_NI_RESPONSE_IGNORE then (ses\<lparr>rawRequest := None\<rparr>, Some (resp ses, raw), [])
              else (ses\<lparr>rawRequest := None\<rparr>, None, [raw])))"

definition niThread_send :: "(GnssNiResponse \<times> addr) option \<Rightarrow> ni_sys \<Rightarrow> ni_sys" where
  "niThread_send send s = (case send of Some m \<Rightarrow> s\<lparr>ni_msgs := ni_msgs s @ [m]\<rparr> | None \<Rightarrow> s)"

section \<open>Interleaving\<close>

text \<open>
  The adapter's thread handles a message only when it has signalled all sessions of the one before;
  pthread_create succeeds.
\<close>

inductive ni_step :: "ni_sys \<Rightarrow> ni_sys \<Rightarrow> bool" where
  tick: "ni_step s (s\<lparr>ni_now := ni_now s + 1\<rparr>)"
| clients: "signals s = [] \<Longrightarrow> ni_step s (s\<lparr>ni_clients := cs\<rparr>)"
| request: "signals s = [] \<Longrightarrow> requestNiNotify is_es timeout data (s\<lparr>given := data # given s\<rparr>) = (r, cb, s') \<Longrightarrow>
    ni_step s s'"
| respond: "signals s = [] \<Longrightarrow> niResponse_check client sid response s = (err, sigs) \<Longrightarrow>
    ni_step s (s\<lparr>signals := sigs\<rparr>)"
| signal: "signals s = (k, response) # sigs \<Longrightarrow>
    ni_step s (set_session k (ni_signal response (session_of s k)) (s\<lparr>signals := sigs\<rparr>))"
| inform: "signals s = [] \<Longrightarrow> ni_msgs s = m # ms \<Longrightarrow>
    ni_step s (s\<lparr>ni_msgs := ms, informed := m # informed s\<rparr>)"
| start: "threads (session_of s k) = ts @ NT_Created # us \<Longrightarrow>
    ni_step s (set_session k
      ((session_of s k)\<lparr>threads := ts @ NT_Waiting (niThread_expiry (ni_now s) (session_of s k)) # us\<rparr>) s)"
| wake: "threads (session_of s k) = ts @ NT_Waiting expire # us \<Longrightarrow>
    (if timed_out then expire \<le> ni_now s else respRecvd (session_of s k)) \<Longrightarrow>
    niThread_finish timed_out (session_of s k) = (ses, send, fr) \<Longrightarrow>
    ni_step s (set_session k (ses\<lparr>threads := ts @ NT_Clear_Time send # us\<rparr>) (s\<lparr>ni_freed := fr @ ni_freed s\<rparr>))"
| clear_time: "threads (session_of s k) = ts @ NT_Clear_Time send # us \<Longrightarrow>
    ni_step s (set_session k ((session_of s k)\<lparr>respTimeLeft := 0, threads := ts @ NT_Clear_Id send # us\<rparr>) s)"
| clear_id: "threads (session_of s k) = ts @ NT_Clear_Id send # us \<Longrightarrow>
    ni_step s (niThread_send send (set_session k ((session_of s k)\<lparr>reqID := 0, threads := ts @ us\<rparr>) s))"

definition ni_reach :: "ni_sys \<Rightarrow> bool" where
  "ni_reach s \<longleftrightarrow> (\<exists>cs. ni_step\<^sup>*\<^sup>* (new_ni cs) s)"

section \<open>Every request is disposed of once\<close>

text \<open>The raw request a thread still has to send.\<close>

fun held :: "ni_thread \<Rightarrow> addr list" where
  "held (NT_Clear_Time (Some (_, raw))) = [raw]"
| "held (NT_Clear_Id (Some (_, raw))) = [raw]"
| "held _ = []"

definition session_raws :: "NiSession \<Rightarrow> addr multiset" where
  "session_raws ses = mset (case rawRequest ses of Some raw \<Rightarrow> [raw] | None \<Rightarrow> []) + mset (concat (map held (threads ses)))"

definition all_raws :: "ni_sys \<Rightarrow> addr multiset" where
  "all_raws s =
     session_raws (session_of s NI_SUPL) + session_raws (session_of s NI_ES) + mset (map snd (ni_msgs s)) +
     mset (map snd (informed s)) + mset (ni_freed s) + mset (ni_dropped s)"

text \<open>The threads that still have the wait loop ahead.\<close>

definition active_thread :: "ni_thread \<Rightarrow> bool" where
  "active_thread t \<longleftrightarrow> (case t of NT_Created \<Rightarrow> True | NT_Waiting _ \<Rightarrow> True | _ \<Rightarrow> False)"

definition session_threads_ok :: "NiSession \<Rightarrow> bool" where
  "session_threads_ok ses \<longleftrightarrow>
     length (filter active_thread (threads ses)) = (if rawRequest ses = None then 0 else 1)"

definition ni_inv :: "ni_sys \<Rightarrow> bool" where
  "ni_inv s \<longleftrightarrow> mset (given s) = all_raws s \<and> (\<forall>k. session_threads_ok (session_of s k))"

end
