(* ===== verification/Gnss_Ni_Props.thy ===== *)
theory Gnss_Ni_Props
  imports Gnss_Ni
begin

text \<open>
  The correctness of network initiated requests: under every interleaving a raw request is answered or
  freed exactly once, a session with a request has exactly one thread that will answer it, and the
  race that gives a late response to the next request.
\<close>

lemma set_session_simps [simp]:
  "session_of (set_session k ses s) = (session_of s)(k := ses)"
  "ni_msgs (set_session k ses s) = ni_msgs s" "informed (set_session k ses s) = informed s"
  "ni_freed (set_session k ses s) = ni_freed s" "ni_dropped (set_session k ses s) = ni_dropped s"
  "given (set_session k ses s) = given s" "signals (set_session k ses s) = signals s"
  "ni_now (set_session k ses s) = ni_now s" "ni_clients (set_session k ses s) = ni_clients s"
  by (simp_all add: set_session_def)

lemma all_raws_set_session:
  "all_raws (set_session k ses s) + session_raws (session_of s k) = all_raws s + session_raws ses"
  by (cases k) (simp_all add: all_raws_def ac_simps)

text \<open>One session is replaced, and \<open>extra\<close> leaves it for the lists of the system.\<close>

lemma ni_inv_session:
  assumes inv: "ni_inv s" and same: "session_of s' = (session_of s)(k := ses)" "given s' = given s"
    and moved: "session_raws (session_of s k) = session_raws ses + extra"
    and lists: "mset (map snd (ni_msgs s')) + mset (map snd (informed s')) + mset (ni_freed s') + mset (ni_dropped s') =
      mset (map snd (ni_msgs s)) + mset (map snd (informed s)) + mset (ni_freed s) + mset (ni_dropped s) + extra"
    and ok: "session_threads_ok ses"
  shows "ni_inv s'"
proof -
  have "all_raws s' = all_raws s"
  proof (cases k)
    case NI_SUPL
    then show ?thesis using moved lists by (simp add: all_raws_def same ac_simps)
  next
    case NI_ES
    then show ?thesis using moved lists by (simp add: all_raws_def same ac_simps)
  qed
  then show ?thesis using inv ok same by (simp add: ni_inv_def)
qed

lemma ni_inv_lists:
  assumes "ni_inv s" "session_of s' = session_of s" "given s' = given s"
    "mset (map snd (ni_msgs s')) + mset (map snd (informed s')) + mset (ni_freed s') + mset (ni_dropped s') =
      mset (map snd (ni_msgs s)) + mset (map snd (informed s)) + mset (ni_freed s) + mset (ni_dropped s)"
  shows "ni_inv s'"
  using ni_inv_session [OF assms(1), of s' NI_ES "session_of s NI_ES" "{#}"] assms
  by (simp add: ni_inv_def)

lemma session_raws_simps [simp]:
  "session_raws (ses\<lparr>respTimeLeft := t\<rparr>) = session_raws ses"
  "session_raws (ses\<lparr>respRecvd := b\<rparr>) = session_raws ses"
  "session_raws (ses\<lparr>reqID := i\<rparr>) = session_raws ses"
  "session_raws (ses\<lparr>resp := r\<rparr>) = session_raws ses"
  by (simp_all add: session_raws_def)

lemma session_threads_ok_simps [simp]:
  "session_threads_ok (ses\<lparr>respTimeLeft := t\<rparr>) = session_threads_ok ses"
  "session_threads_ok (ses\<lparr>respRecvd := b\<rparr>) = session_threads_ok ses"
  "session_threads_ok (ses\<lparr>reqID := i\<rparr>) = session_threads_ok ses"
  "session_threads_ok (ses\<lparr>resp := r\<rparr>) = session_threads_ok ses"
  by (simp_all add: session_threads_ok_def)

lemma active_thread_simps [simp]:
  "active_thread NT_Created" "active_thread (NT_Waiting e)"
  "\<not> active_thread (NT_Clear_Time m)" "\<not> active_thread (NT_Clear_Id m)"
  by (simp_all add: active_thread_def)

text \<open>The loop's end empties the session into what is sent or freed.\<close>

lemma finish_spec:
  assumes "niThread_finish timed_out ses = (ses', send, fr)"
  shows "threads ses' = threads ses" "rawRequest ses' = None"
    "mset (case rawRequest ses of Some raw \<Rightarrow> [raw] | None \<Rightarrow> []) = mset (held (NT_Clear_Time send)) + mset fr"
  using assms by (auto simp: niThread_finish_def Let_def split: option.splits if_splits)

lemma held_send: "held (NT_Clear_Time send) = held (NT_Clear_Id send)"
  by (cases send) auto

lemma ni_inv_request:
  assumes inv: "ni_inv s" and req: "requestNiNotify is_es timeout data (s\<lparr>given := data # given s\<rparr>) = (r, cb, s')"
  shows "ni_inv s'"
proof -
  let ?s = "s\<lparr>given := data # given s\<rparr>"
  have given: "mset (given ?s) = add_mset data (all_raws s)" using inv by (simp add: ni_inv_def)
  define k where "k = (if is_es then NI_ES else NI_SUPL)"
  consider (dropped) "s' = ?s\<lparr>ni_dropped := data # ni_dropped s\<rparr>"
    | (busy) "s' = ?s\<lparr>ni_freed := data # ni_freed s\<rparr>"
    | (opened) "rawRequest (session_of s k) = None" "s' = open_session k timeout data ?s"
    using req by (auto simp: requestNiNotify_def Let_def k_def split: option.splits if_splits)
  then show ?thesis
  proof cases
    case opened
    obtain ses where s': "session_of s' = (session_of s)(k := ses)" "given s' = data # given s"
        "ni_msgs s' = ni_msgs s" "informed s' = informed s" "ni_freed s' = ni_freed s" "ni_dropped s' = ni_dropped s"
      and ses: "rawRequest ses = Some data" "threads ses = threads (session_of s k) @ [NT_Created]"
      using opened(2) by (auto simp: open_session_def Let_def)
    have "session_threads_ok (session_of s k)" using inv by (simp add: ni_inv_def)
    then have ok: "session_threads_ok ses" using opened(1) by (simp add: session_threads_ok_def ses)
    have "session_raws ses = add_mset data (session_raws (session_of s k))"
      using opened(1) by (simp add: session_raws_def ses)
    then have "all_raws s' = add_mset data (all_raws s)" by (cases k) (simp_all add: all_raws_def s')
    then show ?thesis using inv ok by (simp add: ni_inv_def s')
  qed (use given inv in \<open>simp_all add: ni_inv_def all_raws_def\<close>)
qed

lemma ni_inv_step: "ni_step s s' \<Longrightarrow> ni_inv s \<Longrightarrow> ni_inv s'"
proof (induction rule: ni_step.induct)
  case (request s is_es timeout data r cb s')
  then show ?case using ni_inv_request by blast
next
  case (signal s k response sigs)
  then have "session_threads_ok (session_of s k)" by (simp add: ni_inv_def)
  then show ?case
    by (intro ni_inv_session [OF signal.prems, where k = k and ses = "ni_signal response (session_of s k)" and extra = "{#}"])
      (simp_all add: ni_signal_def)
next
  case (start s k ts us)
  then have "session_threads_ok (session_of s k)" by (simp add: ni_inv_def)
  with start.hyps show ?case
    by (intro ni_inv_session [OF start.prems, where k = k and extra = "{#}" and
          ses = "(session_of s k)\<lparr>threads := ts @ NT_Waiting (niThread_expiry (ni_now s) (session_of s k)) # us\<rparr>"])
      (simp_all add: session_raws_def session_threads_ok_def)
next
  case (wake s k ts expire us timed_out ses send fr)
  note f = finish_spec [OF wake.hyps(3)]
  have "session_threads_ok (session_of s k)" using wake.prems by (simp add: ni_inv_def)
  then have ok: "session_threads_ok (ses\<lparr>threads := ts @ NT_Clear_Time send # us\<rparr>)"
    using wake.hyps(1) f by (auto simp: session_threads_ok_def split: if_splits)
  have "session_raws (session_of s k) = session_raws (ses\<lparr>threads := ts @ NT_Clear_Time send # us\<rparr>) + mset fr"
    using wake.hyps(1) f by (simp add: session_raws_def ac_simps)
  then show ?case
    by (intro ni_inv_session [OF wake.prems _ _ _ _ ok, where extra = "mset fr"]) simp_all
next
  case (clear_time s k ts send us)
  then have "session_threads_ok (session_of s k)" by (simp add: ni_inv_def)
  with clear_time.hyps show ?case
    by (intro ni_inv_session [OF clear_time.prems, where k = k and extra = "{#}" and
          ses = "(session_of s k)\<lparr>respTimeLeft := 0, threads := ts @ NT_Clear_Id send # us\<rparr>"])
      (simp_all add: session_raws_def session_threads_ok_def held_send)
next
  case (clear_id s k ts send us)
  then have "session_threads_ok (session_of s k)" by (simp add: ni_inv_def)
  with clear_id.hyps show ?case
    by (intro ni_inv_session [OF clear_id.prems, where k = k and extra = "mset (held (NT_Clear_Id send))" and
          ses = "(session_of s k)\<lparr>reqID := 0, threads := ts @ us\<rparr>"])
      (auto simp: session_raws_def session_threads_ok_def niThread_send_def split: option.splits)
qed (auto intro: ni_inv_lists)

lemma ni_inv_init: "ni_inv (new_ni cs)"
  by (simp add: ni_inv_def new_ni_def new_NiSession_def all_raws_def session_raws_def session_threads_ok_def)

lemma ni_inv_reach: "ni_reach s \<Longrightarrow> ni_inv s"
proof -
  assume "ni_reach s"
  then obtain cs where "ni_step\<^sup>*\<^sup>* (new_ni cs) s" by (auto simp: ni_reach_def)
  then show "ni_inv s"
    by (induction rule: rtranclp_induct) (use ni_inv_init ni_inv_step in blast)+
qed

lemma ni_reach_step: "ni_reach s \<Longrightarrow> ni_step s s' \<Longrightarrow> ni_reach s'"
  unfolding ni_reach_def by (blast intro: rtranclp.rtrancl_into_rtrancl)

lemma ni_reach_init: "ni_reach (new_ni cs)"
  unfolding ni_reach_def by blast

lemma distinct_if_submset:
  assumes "mset xs \<subseteq># mset ys" "distinct ys"
  shows "distinct xs"
proof -
  have "count (mset xs) a \<le> (if a \<in> set ys then 1 else 0)" for a
    using mset_subset_eq_count [OF assms(1), of a] assms(2) by (metis distinct_count_atmost_1)
  then have "count (mset xs) a = (if a \<in> set xs then 1 else 0)" for a
    by (metis One_nat_def count_greater_zero_iff le_0_eq le_Suc_eq not_gr_zero set_mset_mset)
  then show ?thesis by (simp add: distinct_count_atmost_1)
qed

section \<open>The properties\<close>

text \<open>C22: Under every interleaving of the adapter's thread and the NI threads, each raw request of the modem is
  disposed of at most once - answered and freed, freed without an answer, or dropped - and once the
  sessions are idle every one of them has been.\<close>

theorem ni_requests_disposed_once:
  assumes "ni_reach s" "distinct (given s)"
  shows "distinct (map snd (informed s) @ ni_freed s @ ni_dropped s) \<and>
    ((\<forall>k. rawRequest (session_of s k) = None \<and> threads (session_of s k) = []) \<and> ni_msgs s = [] \<longrightarrow>
     set (given s) = set (map snd (informed s) @ ni_freed s @ ni_dropped s))"
proof (intro conjI impI)
  have m: "mset (given s) = all_raws s" using ni_inv_reach [OF assms(1)] by (simp add: ni_inv_def)
  then have "mset (map snd (informed s) @ ni_freed s @ ni_dropped s) \<subseteq># mset (given s)"
    unfolding m all_raws_def mset_append by (simp add: ac_simps subset_eq_diff_conv mset_subset_eq_add_left)
  then show "distinct (map snd (informed s) @ ni_freed s @ ni_dropped s)"
    by (rule distinct_if_submset [OF _ assms(2)])
  assume idle: "(\<forall>k. rawRequest (session_of s k) = None \<and> threads (session_of s k) = []) \<and> ni_msgs s = []"
  have "mset (given s) = mset (map snd (informed s) @ ni_freed s @ ni_dropped s)"
    unfolding m using idle by (simp add: all_raws_def session_raws_def ac_simps)
  then show "set (given s) = set (map snd (informed s) @ ni_freed s @ ni_dropped s)" by (rule mset_eq_setD)
qed

text \<open>Under every interleaving, a session holds a request exactly when one of its threads still has the wait
  ahead, and then exactly one: no request is left without the thread that answers it, and two threads
  never wait for the same session.\<close>

theorem ni_outstanding_request_has_thread:
  assumes "ni_reach s"
  shows "length (filter active_thread (threads (session_of s k))) =
    (if rawRequest (session_of s k) = None then 0 else 1)"
  using ni_inv_reach [OF assms] by (simp add: ni_inv_def session_threads_ok_def)

section \<open>Running a schedule\<close>

datatype ni_event =
    E_Tick
  | E_Request bool u32 addr
  | E_Respond addr u32 GnssNiResponse
  | E_Signal
  | E_Inform
  | E_Thread ni_kind nat bool

fun ni_exec :: "ni_event \<Rightarrow> ni_sys \<Rightarrow> ni_sys option" where
  "ni_exec E_Tick s = Some (s\<lparr>ni_now := ni_now s + 1\<rparr>)"
| "ni_exec (E_Request is_es timeout data) s =
     (if signals s \<noteq> [] then None
      else Some (snd (snd (requestNiNotify is_es timeout data (s\<lparr>given := data # given s\<rparr>)))))"
| "ni_exec (E_Respond client sid response) s =
     (if signals s \<noteq> [] then None else Some (s\<lparr>signals := snd (niResponse_check client sid response s)\<rparr>))"
| "ni_exec E_Signal s =
     (case signals s of [] \<Rightarrow> None
      | (k, response) # sigs \<Rightarrow> Some (set_session k (ni_signal response (session_of s k)) (s\<lparr>signals := sigs\<rparr>)))"
| "ni_exec E_Inform s =
     (if signals s \<noteq> [] then None
      else case ni_msgs s of [] \<Rightarrow> None | m # ms \<Rightarrow> Some (s\<lparr>ni_msgs := ms, informed := m # informed s\<rparr>))"
| "ni_exec (E_Thread k i timed_out) s =
     (let ses = session_of s k; ts = threads ses
      in if length ts \<le> i then None
         else case ts ! i of
           NT_Created \<Rightarrow> Some (set_session k (ses\<lparr>threads := ts[i := NT_Waiting (niThread_expiry (ni_now s) ses)]\<rparr>) s)
         | NT_Waiting expire \<Rightarrow>
             (if (if timed_out then expire \<le> ni_now s else respRecvd ses)
              then let (ses', send, fr) = niThread_finish timed_out ses
                   in Some (set_session k (ses'\<lparr>threads := ts[i := NT_Clear_Time send]\<rparr>)
                        (s\<lparr>ni_freed := fr @ ni_freed s\<rparr>))
              else None)
         | NT_Clear_Time send \<Rightarrow> Some (set_session k (ses\<lparr>respTimeLeft := 0, threads := ts[i := NT_Clear_Id send]\<rparr>) s)
         | NT_Clear_Id send \<Rightarrow>
             Some (niThread_send send (set_session k (ses\<lparr>reqID := 0, threads := take i ts @ drop (Suc i) ts\<rparr>) s)))"

lemma ni_exec_step: "ni_exec ev s = Some s' \<Longrightarrow> ni_step s s'"
proof (cases ev)
  case (E_Request is_es timeout data)
  assume e: "ni_exec ev s = Some s'"
  obtain r cb s1 where "requestNiNotify is_es timeout data (s\<lparr>given := data # given s\<rparr>) = (r, cb, s1)" by (metis prod_cases3)
  with e E_Request show ?thesis by (auto intro: ni_step.request split: if_splits)
next
  case (E_Respond client sid response)
  assume e: "ni_exec ev s = Some s'"
  obtain err sigs where "niResponse_check client sid response s = (err, sigs)" by fastforce
  with e E_Respond show ?thesis by (auto intro: ni_step.respond split: if_splits)
next
  case (E_Thread k i timed_out)
  assume e: "ni_exec ev s = Some s'"
  let ?ses = "session_of s k" and ?ts = "threads (session_of s k)"
  have i: "i < length ?ts" using e E_Thread by (auto simp: Let_def split: if_splits)
  have ts: "?ts = take i ?ts @ ?ts ! i # drop (Suc i) ?ts" by (rule id_take_nth_drop [OF i])
  note u = upd_conv_take_nth_drop [OF i]
  have e': "ni_exec (E_Thread k i timed_out) s = Some s'" using e E_Thread by simp
  show ?thesis
  proof (cases "?ts ! i")
    case NT_Created
    then show ?thesis
      using e' i ni_step.start [OF ts [unfolded NT_Created]] by (simp add: Let_def u)
  next
    case (NT_Waiting expire)
    obtain ses' send fr where f: "niThread_finish timed_out ?ses = (ses', send, fr)" by (metis prod_cases3)
    have c: "if timed_out then expire \<le> ni_now s else respRecvd ?ses"
      using e' i NT_Waiting by (auto simp: Let_def split: if_splits)
    then show ?thesis
      using e' i NT_Waiting f c ni_step.wake [OF ts [unfolded NT_Waiting] c f]
      by (cases timed_out) (simp_all add: Let_def u)
  next
    case (NT_Clear_Time send)
    then show ?thesis
      using e' i ni_step.clear_time [OF ts [unfolded NT_Clear_Time]] by (simp add: Let_def u)
  next
    case (NT_Clear_Id send)
    then show ?thesis
      using e' i ni_step.clear_id [OF ts [unfolded NT_Clear_Id]] by (simp add: Let_def)
  qed
qed (auto intro: ni_step.intros ni_step.tick [simplified] split: list.splits if_splits)

fun ni_run :: "ni_event list \<Rightarrow> ni_sys \<Rightarrow> ni_sys option" where
  "ni_run [] s = Some s"
| "ni_run (ev # evs) s = (case ni_exec ev s of None \<Rightarrow> None | Some s' \<Rightarrow> ni_run evs s')"

lemma ni_run_reach: "ni_run evs s = Some s' \<Longrightarrow> ni_reach s \<Longrightarrow> ni_reach s'"
  by (induction evs arbitrary: s) (auto dest: ni_exec_step intro: ni_reach_step split: option.splits)

definition ex_ni :: ni_sys where
  "ex_ni = new_ni [(7, \<lparr>capabilitiesCb = False, responseCb = True, collectiveResponseCb = False, trackingCb = False,
     batchingCb = False, geofenceBreachCb = False, geofenceStatusCb = False, gnssLocationInfoCb = False,
     gnssNiCb = True, gnssSvCb = False, gnssNmeaCb = False, gnssMeasurementsCb = False, batchingStatusCb = False\<rparr>)]"

text \<open>Request 100 is accepted, request 200 comes meanwhile and is freed.\<close>

definition ex_events :: "ni_event list" where
  "ex_events = [E_Request False 0 100, E_Thread NI_SUPL 0 False, E_Request False 0 200,
     E_Respond 7 1 GNSS_NI_RESPONSE_ACCEPT, E_Signal, E_Thread NI_SUPL 0 False, E_Thread NI_SUPL 0 False,
     E_Thread NI_SUPL 0 False, E_Inform]"

lemma ex_ni_run:
  "map_option (\<lambda>s. (given s, informed s, ni_freed s, ni_dropped s)) (ni_run ex_events ex_ni) =
   Some ([200, 100], [(GNSS_NI_RESPONSE_ACCEPT, 100)], [200], [])"
  by code_simp

lemma ex_ni_idle:
  "map_option (\<lambda>s. (ni_msgs s, rawRequest (session_of s NI_SUPL), rawRequest (session_of s NI_ES),
     threads (session_of s NI_SUPL), threads (session_of s NI_ES))) (ni_run ex_events ex_ni) =
   Some ([], None, None, [], [])"
  by code_simp

text \<open>
  The race: the user accepts request 1 (block 100) just when its thread times out. The check sees the
  request, the thread ends, and the signal reaches a session without a thread. The thread of
  request 2 (block 200) finds it and accepts, although the user never answered request 2.
\<close>

lemma stale_response_answers_next_request:
  "map_option ni_msgs (ni_run ([E_Request False 10 100, E_Thread NI_SUPL 0 False] @ replicate 15 E_Tick @
      [E_Respond 7 1 GNSS_NI_RESPONSE_ACCEPT, E_Thread NI_SUPL 0 True, E_Signal, E_Thread NI_SUPL 0 False,
       E_Thread NI_SUPL 0 False, E_Request False 10 200, E_Thread NI_SUPL 0 False, E_Thread NI_SUPL 0 False,
       E_Thread NI_SUPL 0 False, E_Thread NI_SUPL 0 False]) ex_ni) =
   Some [(GNSS_NI_RESPONSE_NO_RESPONSE, 100), (GNSS_NI_RESPONSE_ACCEPT, 200)]"
  by code_simp

text \<open>
  The other race: a request that comes before the thread of the last one has cleared reqID loses its id,
  and the user's response to it is refused.
\<close>

lemma cleared_id_refuses_response:
  "map_option (\<lambda>s. (rawRequest (session_of s NI_SUPL), niResponse_check 7 2 GNSS_NI_RESPONSE_ACCEPT s))
     (ni_run ([E_Request False 10 100, E_Thread NI_SUPL 0 False, E_Respond 7 1 GNSS_NI_RESPONSE_DENY, E_Signal,
       E_Thread NI_SUPL 0 False, E_Request False 10 200, E_Thread NI_SUPL 0 False, E_Thread NI_SUPL 0 False]) ex_ni) =
   Some (Some 200, LOCATION_ERROR_ID_UNKNOWN, [])"
  by code_simp

theorem ni_requests_disposed_once_witness:
  "\<exists>s. ni_run ex_events ex_ni = Some s \<and> given s = [200, 100] \<and>
     distinct (map snd (informed s) @ ni_freed s @ ni_dropped s) \<and>
     set (given s) = set (map snd (informed s) @ ni_freed s @ ni_dropped s)"
proof -
  obtain s where r: "ni_run ex_events ex_ni = Some s" and g: "given s = [200, 100]"
    using ex_ni_run by (auto simp: map_option_eq_Some)
  have reach: "ni_reach s" using ni_run_reach [OF r] ni_reach_init by (simp add: ex_ni_def)
  have idle: "ni_msgs s = []" "rawRequest (session_of s k) = None \<and> threads (session_of s k) = []" for k
    using ex_ni_idle r by (simp, cases k) simp_all
  show ?thesis
    using ni_requests_disposed_once [OF reach] r g idle by simp
qed

theorem ni_outstanding_request_has_thread_witness:
  "\<exists>s. ni_run [E_Request True 0 100, E_Thread NI_ES 0 False] ex_ni = Some s \<and>
     rawRequest (session_of s NI_ES) = Some 100 \<and> length (filter active_thread (threads (session_of s NI_ES))) = 1"
proof -
  have "map_option (\<lambda>s. rawRequest (session_of s NI_ES)) (ni_run [E_Request True 0 100, E_Thread NI_ES 0 False] ex_ni) =
      Some (Some 100)"
    by code_simp
  then obtain s where r: "ni_run [E_Request True 0 100, E_Thread NI_ES 0 False] ex_ni = Some s"
    and raw: "rawRequest (session_of s NI_ES) = Some 100"
    by (auto simp only: map_option_eq_Some)
  have "ni_reach s" using ni_run_reach [OF r] ni_reach_init by (simp add: ex_ni_def)
  from ni_outstanding_request_has_thread [OF this, of NI_ES] show ?thesis using r raw by auto
qed

end
