(* ===== verification/Nmea_Debug.thy ===== *)
theory Nmea_Debug
  imports Loc_Cfg_Props
begin

text \<open>
  The debug NMEA sentences of the modem, the parsers of gps/core/SystemStatus.cpp: a sentence is cut into
  fields, and a class per sentence reads the fields into its members. Signed and unsigned integers are
  words of their width; double and float are an opaque type with the operations used here. Where
  an item of SystemStatus.h has just the members of its sentence, both share one record. A parser whose
  class was left uninitialised gets the memory it finds there as an argument.
\<close>

section \<open>Fields\<close>

abbreviation (input) NMEA_MINSIZE :: nat where "NMEA_MINSIZE \<equiv> 6"
abbreviation (input) NMEA_MAXSIZE :: nat where "NMEA_MAXSIZE \<equiv> 4096"

definition loc_nmea_is_debug :: "string \<Rightarrow> nat \<Rightarrow> bool" where
  "loc_nmea_is_debug nmea len \<longleftrightarrow> NMEA_MINSIZE \<le> len \<and> len \<le> NMEA_MAXSIZE \<and> take 4 nmea = ''$PQW''"

text \<open>The loop of the tokenizer: what follows the last comma is dropped.\<close>

fun nmea_tokens :: "string \<Rightarrow> string \<Rightarrow> string list" where
  "nmea_tokens cur [] = []"
| "nmea_tokens cur (c # cs) =
     (if c = CHR '','' then cur # nmea_tokens [] cs else nmea_tokens (cur @ [c]) cs)"

fun replace_star :: "string \<Rightarrow> string option" where
  "replace_star [] = None"
| "replace_star (c # cs) =
     (if c = CHR ''*'' then Some (CHR '','' # cs) else map_option (Cons c) (replace_star cs))"

definition nmea_fields :: "string \<Rightarrow> nat \<Rightarrow> string list" where
  "nmea_fields str_in len_in =
     (if \<not> loc_nmea_is_debug str_in len_in then []
      else case replace_star str_in of None \<Rightarrow> [] | Some parser \<Rightarrow> nmea_tokens [] parser)"

section \<open>Numbers\<close>

record 'd fp_ops =
  fp_atof :: "string \<Rightarrow> 'd"
  fp_of_int :: "32 word \<Rightarrow> 'd"
  fp_zero :: 'd
  fp_ne :: "'d \<Rightarrow> 'd \<Rightarrow> bool"

definition atoi8 :: "string \<Rightarrow> 8 word" where "atoi8 s = ucast (atoi s)"

definition atoi16 :: "string \<Rightarrow> 16 word" where "atoi16 s = ucast (atoi s)"

definition hex :: "string \<Rightarrow> 'a::len word" where "hex s = word_of_int (strtol 16 s)"

section \<open>PQWM1\<close>

record 'd PQWM1 =
  mGpsWeek :: "16 word"
  mGpsTowMs :: u32
  mTimeValid :: "8 word"
  mTimeSource :: "8 word"
  mTimeUnc :: u32
  mClockFreqBias :: u32
  mClockFreqBiasUnc :: u32
  mXoState :: "8 word"
  mPgaGain :: u32
  mGpsBpAmpI :: u32
  mGpsBpAmpQ :: u32
  mAdcI :: u32
  mAdcQ :: u32
  mJammerGps :: u32
  mJammerGlo :: u32
  mJammerBds :: u32
  mJammerGal :: u32
  mRecErrorRecovery :: u32
  mAgcGps :: 'd
  mAgcGlo :: 'd
  mAgcBds :: 'd
  mAgcGal :: 'd
  mLeapSeconds :: u32
  mLeapSecUnc :: u32
  mGloBpAmpI :: u32
  mGloBpAmpQ :: u32
  mBdsBpAmpI :: u32
  mBdsBpAmpQ :: u32
  mGalBpAmpI :: u32
  mGalBpAmpQ :: u32

definition PQWM1parser :: "'d fp_ops \<Rightarrow> string list \<Rightarrow> 'd PQWM1" where
  "PQWM1parser F f =
     (let ok = 22 < length f; num = (\<lambda>i. if ok then atoi (f ! i) else 0); num8 = (\<lambda>i. if ok then atoi8 (f ! i) else 0);
          dbl = (\<lambda>i. if ok then fp_atof F (f ! i) else fp_zero F);
          leap = (\<lambda>i. if 24 < length f then atoi (f ! i) else 0);
          amp = (\<lambda>i. if 30 < length f then atoi (f ! i) else 0)
      in \<lparr>mGpsWeek = (if ok then atoi16 (f ! 1) else 0), mGpsTowMs = num 2, mTimeValid = num8 3, mTimeSource = num8 4,
          mTimeUnc = num 5, mClockFreqBias = num 6, mClockFreqBiasUnc = num 7, mXoState = num8 8, mPgaGain = num 9,
          mGpsBpAmpI = num 10, mGpsBpAmpQ = num 11, mAdcI = num 12, mAdcQ = num 13, mJammerGps = num 14,
          mJammerGlo = num 15, mJammerBds = num 16, mJammerGal = num 17, mRecErrorRecovery = num 18,
          mAgcGps = dbl 19, mAgcGlo = dbl 20, mAgcBds = dbl 21, mAgcGal = dbl 22,
          mLeapSeconds = leap 23, mLeapSecUnc = leap 24, mGloBpAmpI = amp 25, mGloBpAmpQ = amp 26,
          mBdsBpAmpI = amp 27, mBdsBpAmpQ = amp 28, mGalBpAmpI = amp 29, mGalBpAmpQ = amp 30\<rparr>)"

section \<open>PQWP1 to PQWP7 and PQWS1\<close>

record 'd PQWP1 =
  mEpiValidity :: "8 word"
  mEpiLat :: 'd
  mEpiLon :: 'd
  mEpiAlt :: 'd
  mEpiHepe :: 'd
  mEpiAltUnc :: 'd
  mEpiSrc :: "8 word"

definition PQWP1parser :: "'d fp_ops \<Rightarrow> 'd PQWP1 \<Rightarrow> string list \<Rightarrow> 'd PQWP1" where
  "PQWP1parser F garbage f =
     (if length f < 9 then garbage
      else \<lparr>mEpiValidity = hex (f ! 2), mEpiLat = fp_atof F (f ! 3), mEpiLon = fp_atof F (f ! 4),
            mEpiAlt = fp_atof F (f ! 5), mEpiHepe = fp_of_int F (atoi (f ! 6)), mEpiAltUnc = fp_atof F (f ! 7),
            mEpiSrc = atoi8 (f ! 8)\<rparr>)"

record 'd PQWP2 =
  mBestLat :: 'd
  mBestLon :: 'd
  mBestAlt :: 'd
  mBestHepe :: 'd
  mBestAltUnc :: 'd

definition PQWP2parser :: "'d fp_ops \<Rightarrow> 'd PQWP2 \<Rightarrow> string list \<Rightarrow> 'd PQWP2" where
  "PQWP2parser F garbage f =
     (if length f < 7 then garbage
      else \<lparr>mBestLat = fp_atof F (f ! 2), mBestLon = fp_atof F (f ! 3), mBestAlt = fp_atof F (f ! 4),
            mBestHepe = fp_atof F (f ! 5), mBestAltUnc = fp_atof F (f ! 6)\<rparr>)"

record PQWP3 =
  mXtraValidMask :: "8 word"
  mGpsXtraAge :: u32
  mGloXtraAge :: u32
  mBdsXtraAge :: u32
  mGalXtraAge :: u32
  mQzssXtraAge :: u32
  mGpsXtraValid :: u32
  mGloXtraValid :: u32
  mBdsXtraValid :: "64 word"
  mGalXtraValid :: "64 word"
  mQzssXtraValid :: "8 word"

definition PQWP3parser :: "PQWP3 \<Rightarrow> string list \<Rightarrow> PQWP3" where
  "PQWP3parser garbage f =
     (if length f < 13 then garbage
      else \<lparr>mXtraValidMask = hex (f ! 2), mGpsXtraAge = atoi (f ! 3), mGloXtraAge = atoi (f ! 4),
            mBdsXtraAge = atoi (f ! 5), mGalXtraAge = atoi (f ! 6), mQzssXtraAge = atoi (f ! 7),
            mGpsXtraValid = hex (f ! 8), mGloXtraValid = hex (f ! 9), mBdsXtraValid = hex (f ! 10),
            mGalXtraValid = hex (f ! 11), mQzssXtraValid = hex (f ! 12)\<rparr>)"

record PQWP4 =
  mGpsEpheValid :: u32
  mGloEpheValid :: u32
  mBdsEpheValid :: "64 word"
  mGalEpheValid :: "64 word"
  mQzssEpheValid :: "8 word"

definition PQWP4parser :: "PQWP4 \<Rightarrow> string list \<Rightarrow> PQWP4" where
  "PQWP4parser garbage f =
     (if length f < 7 then garbage
      else \<lparr>mGpsEpheValid = hex (f ! 2), mGloEpheValid = hex (f ! 3), mBdsEpheValid = hex (f ! 4),
            mGalEpheValid = hex (f ! 5), mQzssEpheValid = hex (f ! 6)\<rparr>)"

record PQWP5 =
  mGpsUnknownMask :: u32
  mGloUnknownMask :: u32
  mBdsUnknownMask :: "64 word"
  mGalUnknownMask :: "64 word"
  mQzssUnknownMask :: "8 word"
  mGpsGoodMask :: u32
  mGloGoodMask :: u32
  mBdsGoodMask :: "64 word"
  mGalGoodMask :: "64 word"
  mQzssGoodMask :: "8 word"
  mGpsBadMask :: u32
  mGloBadMask :: u32
  mBdsBadMask :: "64 word"
  mGalBadMask :: "64 word"
  mQzssBadMask :: "8 word"

definition PQWP5parser :: "PQWP5 \<Rightarrow> string list \<Rightarrow> PQWP5" where
  "PQWP5parser garbage f =
     (if length f < 17 then garbage
      else \<lparr>mGpsUnknownMask = hex (f ! 2), mGloUnknownMask = hex (f ! 3), mBdsUnknownMask = hex (f ! 4),
            mGalUnknownMask = hex (f ! 5), mQzssUnknownMask = hex (f ! 6), mGpsGoodMask = hex (f ! 7),
            mGloGoodMask = hex (f ! 8), mBdsGoodMask = hex (f ! 9), mGalGoodMask = hex (f ! 10),
            mQzssGoodMask = hex (f ! 11), mGpsBadMask = hex (f ! 12), mGloBadMask = hex (f ! 13),
            mBdsBadMask = hex (f ! 14), mGalBadMask = hex (f ! 15), mQzssBadMask = hex (f ! 16)\<rparr>)"

text \<open>PQWP6 has one member, mFixInfoMask.\<close>

type_synonym PQWP6 = u32

definition PQWP6parser :: "PQWP6 \<Rightarrow> string list \<Rightarrow> PQWP6" where
  "PQWP6parser garbage f = (if length f < 3 then garbage else hex (f ! 2))"

record SystemStatusNav =
  mType :: u32
  mSource :: u32
  mAgeSec :: u32

abbreviation (input) SV_ALL_NUM :: nat where "SV_ALL_NUM \<equiv> 134"

definition PQWP7parser :: "SystemStatusNav list \<Rightarrow> string list \<Rightarrow> SystemStatusNav list" where
  "PQWP7parser garbage f =
     (if length f < 2 + SV_ALL_NUM * 3 then garbage
      else map (\<lambda>i. \<lparr>mType = atoi (f ! (i * 3 + 2)), mSource = atoi (f ! (i * 3 + 3)), mAgeSec = atoi (f ! (i * 3 + 4))\<rparr>)
             [0 ..< SV_ALL_NUM])"

record PQWS1 =
  mFixInfoMask :: u32
  mHepeLimit :: u32

definition PQWS1parser :: "PQWS1 \<Rightarrow> string list \<Rightarrow> PQWS1" where
  "PQWS1parser garbage f =
     (if length f < 4 then garbage else \<lparr>mFixInfoMask = atoi (f ! 2), mHepeLimit = atoi (f ! 3)\<rparr>)"

end
