(* ===== verification/System_Status.thy ===== *)
theory System_Status
  imports Nmea_Debug
begin

text \<open>
  The cache of reports, gps/core/SystemStatus.cpp and .h: vectors of at most five items for what the modem's
  debug sentences, its positions and the framework's data items tell. Every operation holds the mutex
  from start to end. An item carries the time it was created and the time it was last reported.
\<close>

unbundle bit_operations_syntax

section \<open>Items\<close>

record 'b item =
  mUtcTime :: nat
  mUtcReported :: nat
  body :: 'b

definition new_item :: "nat \<Rightarrow> 'b \<Rightarrow> 'b item" where
  "new_item now b = \<lparr>mUtcTime = now, mUtcReported = now, body = b\<rparr>"

abbreviation (input) maxItem :: nat where "maxItem \<equiv> 5"

definition push_item :: "'b item list \<Rightarrow> 'b item \<Rightarrow> 'b item list" where
  "push_item report s = (let r = report @ [s] in if maxItem < length r then tl r else r)"

text \<open>\<open>collate\<close> may change the new item by the last one of the report.\<close>

definition setIteminReport ::
  "('b \<Rightarrow> 'b \<Rightarrow> bool) \<Rightarrow> ('b \<Rightarrow> 'b \<Rightarrow> 'b) \<Rightarrow> 'b item list \<Rightarrow> 'b item \<Rightarrow> bool \<times> 'b item list" where
  "setIteminReport equals collate report s =
     (if report = [] then (True, push_item report s)
      else let back = last report; s = s\<lparr>body := collate (body back) (body s)\<rparr>
           in if equals (body back) (body s)
              then (False, butlast report @ [back\<lparr>mUtcReported := mUtcReported s\<rparr>])
              else (True, push_item report s))"

abbreviation (input) no_collate :: "'b \<Rightarrow> 'b \<Rightarrow> 'b" where "no_collate \<equiv> \<lambda>cur s. s"

definition getIteminReport :: "'b item list \<Rightarrow> 'b item list" where
  "getIteminReport c = (if 1 \<le> length c then [last c] else [])"

section \<open>Items of the engine\<close>

record SystemStatusTimeAndClock =
  tc_GpsWeek :: "16 word"
  tc_GpsTowMs :: u32
  tc_TimeValid :: "8 word"
  tc_TimeSource :: "8 word"
  tc_TimeUnc :: u32
  tc_ClockFreqBias :: u32
  tc_ClockFreqBiasUnc :: u32
  tc_LeapSeconds :: u32
  tc_LeapSecUnc :: u32

definition TimeAndClock_of :: "'d PQWM1 \<Rightarrow> SystemStatusTimeAndClock" where
  "TimeAndClock_of nmea =
     \<lparr>tc_GpsWeek = mGpsWeek nmea, tc_GpsTowMs = mGpsTowMs nmea, tc_TimeValid = mTimeValid nmea,
      tc_TimeSource = mTimeSource nmea, tc_TimeUnc = mTimeUnc nmea, tc_ClockFreqBias = mClockFreqBias nmea,
      tc_ClockFreqBiasUnc = mClockFreqBiasUnc nmea, tc_LeapSeconds = mLeapSeconds nmea,
      tc_LeapSecUnc = mLeapSecUnc nmea\<rparr>"

definition TimeAndClock_equals :: "SystemStatusTimeAndClock \<Rightarrow> SystemStatusTimeAndClock \<Rightarrow> bool" where
  "TimeAndClock_equals this peer \<longleftrightarrow>
     \<not> (tc_GpsWeek this \<noteq> tc_GpsWeek peer \<or> tc_GpsTowMs this \<noteq> tc_GpsTowMs peer \<or>
        tc_TimeValid this \<noteq> tc_TimeValid peer \<or> tc_TimeSource this \<noteq> tc_TimeSource peer \<or>
        tc_TimeUnc this \<noteq> tc_TimeUnc peer \<or> tc_ClockFreqBias this \<noteq> tc_ClockFreqBias peer \<or>
        tc_ClockFreqBiasUnc this \<noteq> tc_ClockFreqBiasUnc peer \<or> tc_LeapSeconds this \<noteq> tc_LeapSeconds peer \<or>
        tc_LeapSecUnc this \<noteq> tc_LeapSecUnc peer)"

record 'd SystemStatusRfAndParams =
  rf_PgaGain :: u32
  rf_GpsBpAmpI :: u32
  rf_GpsBpAmpQ :: u32
  rf_AdcI :: u32
  rf_AdcQ :: u32
  rf_JammerGps :: u32
  rf_JammerGlo :: u32
  rf_JammerBds :: u32
  rf_JammerGal :: u32
  rf_AgcGps :: 'd
  rf_AgcGlo :: 'd
  rf_AgcBds :: 'd
  rf_AgcGal :: 'd
  rf_GloBpAmpI :: u32
  rf_GloBpAmpQ :: u32
  rf_BdsBpAmpI :: u32
  rf_BdsBpAmpQ :: u32
  rf_GalBpAmpI :: u32
  rf_GalBpAmpQ :: u32

definition RfAndParams_of :: "'d PQWM1 \<Rightarrow> 'd SystemStatusRfAndParams" where
  "RfAndParams_of nmea =
     \<lparr>rf_PgaGain = mPgaGain nmea, rf_GpsBpAmpI = mGpsBpAmpI nmea, rf_GpsBpAmpQ = mGpsBpAmpQ nmea,
      rf_AdcI = mAdcI nmea, rf_AdcQ = mAdcQ nmea, rf_JammerGps = mJammerGps nmea, rf_JammerGlo = mJammerGlo nmea,
      rf_JammerBds = mJammerBds nmea, rf_JammerGal = mJammerGal nmea, rf_AgcGps = mAgcGps nmea,
      rf_AgcGlo = mAgcGlo nmea, rf_AgcBds = mAgcBds nmea, rf_AgcGal = mAgcGal nmea,
      rf_GloBpAmpI = mGloBpAmpI nmea, rf_GloBpAmpQ = mGloBpAmpQ nmea, rf_BdsBpAmpI = mBdsBpAmpI nmea,
      rf_BdsBpAmpQ = mBdsBpAmpQ nmea, rf_GalBpAmpI = mGalBpAmpI nmea, rf_GalBpAmpQ = mGalBpAmpQ nmea\<rparr>"

definition RfAndParams_equals ::
  "'d fp_ops \<Rightarrow> 'd SystemStatusRfAndParams \<Rightarrow> 'd SystemStatusRfAndParams \<Rightarrow> bool" where
  "RfAndParams_equals F this peer \<longleftrightarrow>
     \<not> (rf_PgaGain this \<noteq> rf_PgaGain peer \<or> rf_GpsBpAmpI this \<noteq> rf_GpsBpAmpI peer \<or>
        rf_GpsBpAmpQ this \<noteq> rf_GpsBpAmpQ peer \<or> rf_AdcI this \<noteq> rf_AdcI peer \<or> rf_AdcQ this \<noteq> rf_AdcQ peer \<or>
        rf_JammerGps this \<noteq> rf_JammerGps peer \<or> rf_JammerGlo this \<noteq> rf_JammerGlo peer \<or>
        rf_JammerBds this \<noteq> rf_JammerBds peer \<or> rf_JammerGal this \<noteq> rf_JammerGal peer \<or>
        fp_ne F (rf_AgcGps this) (rf_AgcGps peer) \<or> fp_ne F (rf_AgcGlo this) (rf_AgcGlo peer) \<or>
        fp_ne F (rf_AgcBds this) (rf_AgcBds peer) \<or> fp_ne F (rf_AgcGal this) (rf_AgcGal peer) \<or>
        rf_GloBpAmpI this \<noteq> rf_GloBpAmpI peer \<or> rf_GloBpAmpQ this \<noteq> rf_GloBpAmpQ peer \<or>
        rf_BdsBpAmpI this \<noteq> rf_BdsBpAmpI peer \<or> rf_BdsBpAmpQ this \<noteq> rf_BdsBpAmpQ peer \<or>
        rf_GalBpAmpI this \<noteq> rf_GalBpAmpI peer \<or> rf_GalBpAmpQ this \<noteq> rf_GalBpAmpQ peer)"

definition InjectedPosition_equals :: "'d fp_ops \<Rightarrow> 'd PQWP1 \<Rightarrow> 'd PQWP1 \<Rightarrow> bool" where
  "InjectedPosition_equals F this peer \<longleftrightarrow>
     \<not> (mEpiValidity this \<noteq> mEpiValidity peer \<or> fp_ne F (mEpiLat this) (mEpiLat peer) \<or>
        fp_ne F (mEpiLon this) (mEpiLon peer) \<or> fp_ne F (mEpiAlt this) (mEpiAlt peer) \<or>
        fp_ne F (mEpiHepe this) (mEpiHepe peer) \<or> fp_ne F (mEpiAltUnc this) (mEpiAltUnc peer) \<or>
        mEpiSrc this \<noteq> mEpiSrc peer)"

text \<open>The best position with its mValid, which is not compared.\<close>

type_synonym 'd SystemStatusBestPosition = "bool \<times> 'd PQWP2"

definition BestPosition_equals ::
  "'d fp_ops \<Rightarrow> 'd SystemStatusBestPosition \<Rightarrow> 'd SystemStatusBestPosition \<Rightarrow> bool" where
  "BestPosition_equals F this peer \<longleftrightarrow>
     \<not> (fp_ne F (mBestLat (snd this)) (mBestLat (snd peer)) \<or> fp_ne F (mBestLon (snd this)) (mBestLon (snd peer)) \<or>
        fp_ne F (mBestAlt (snd this)) (mBestAlt (snd peer)) \<or> fp_ne F (mBestHepe (snd this)) (mBestHepe (snd peer)) \<or>
        fp_ne F (mBestAltUnc (snd this)) (mBestAltUnc (snd peer)))"

definition Xtra_equals :: "PQWP3 \<Rightarrow> PQWP3 \<Rightarrow> bool" where
  "Xtra_equals this peer \<longleftrightarrow>
     \<not> (mXtraValidMask this \<noteq> mXtraValidMask peer \<or> mGpsXtraAge this \<noteq> mGpsXtraAge peer \<or>
        mGloXtraAge this \<noteq> mGloXtraAge peer \<or> mBdsXtraAge this \<noteq> mBdsXtraAge peer \<or>
        mGalXtraAge this \<noteq> mGalXtraAge peer \<or> mQzssXtraAge this \<noteq> mQzssXtraAge peer \<or>
        mGpsXtraValid this \<noteq> mGpsXtraValid peer \<or> mGloXtraValid this \<noteq> mGloXtraValid peer \<or>
        mBdsXtraValid this \<noteq> mBdsXtraValid peer \<or> mGalXtraValid this \<noteq> mGalXtraValid peer \<or>
        mQzssXtraValid this \<noteq> mQzssXtraValid peer)"

definition Ephemeris_equals :: "PQWP4 \<Rightarrow> PQWP4 \<Rightarrow> bool" where
  "Ephemeris_equals this peer \<longleftrightarrow>
     \<not> (mGpsEpheValid this \<noteq> mGpsEpheValid peer \<or> mGloEpheValid this \<noteq> mGloEpheValid peer \<or>
        mBdsEpheValid this \<noteq> mBdsEpheValid peer \<or> mGalEpheValid this \<noteq> mGalEpheValid peer \<or>
        mQzssEpheValid this \<noteq> mQzssEpheValid peer)"

definition SvHealth_equals :: "PQWP5 \<Rightarrow> PQWP5 \<Rightarrow> bool" where
  "SvHealth_equals this peer \<longleftrightarrow>
     \<not> (mGpsUnknownMask this \<noteq> mGpsUnknownMask peer \<or> mGloUnknownMask this \<noteq> mGloUnknownMask peer \<or>
        mBdsUnknownMask this \<noteq> mBdsUnknownMask peer \<or> mGalUnknownMask this \<noteq> mGalUnknownMask peer \<or>
        mQzssUnknownMask this \<noteq> mQzssUnknownMask peer \<or> mGpsGoodMask this \<noteq> mGpsGoodMask peer \<or>
        mGloGoodMask this \<noteq> mGloGoodMask peer \<or> mBdsGoodMask this \<noteq> mBdsGoodMask peer \<or>
        mGalGoodMask this \<noteq> mGalGoodMask peer \<or> mQzssGoodMask this \<noteq> mQzssGoodMask peer \<or>
        mGpsBadMask this \<noteq> mGpsBadMask peer \<or> mGloBadMask this \<noteq> mGloBadMask peer \<or>
        mBdsBadMask this \<noteq> mBdsBadMask peer \<or> mGalBadMask this \<noteq> mGalBadMask peer \<or>
        mQzssBadMask this \<noteq> mQzssBadMask peer)"

definition Pdr_equals :: "PQWP6 \<Rightarrow> PQWP6 \<Rightarrow> bool" where
  "Pdr_equals this peer \<longleftrightarrow> \<not> this \<noteq> peer"

fun NavData_equals :: "SystemStatusNav list \<Rightarrow> SystemStatusNav list \<Rightarrow> bool" where
  "NavData_equals (a # this) (b # peer) =
     (if mType a \<noteq> mType b \<or> mSource a \<noteq> mSource b \<or> mAgeSec a \<noteq> mAgeSec b then False
      else NavData_equals this peer)"
| "NavData_equals _ _ = True"

definition PositionFailure_equals :: "PQWS1 \<Rightarrow> PQWS1 \<Rightarrow> bool" where
  "PositionFailure_equals this peer \<longleftrightarrow>
     \<not> (mFixInfoMask this \<noteq> mFixInfoMask peer \<or> mHepeLimit this \<noteq> mHepeLimit peer)"

text \<open>The members of UlpLocation that are compared, and the rest of it with the extended location.\<close>

record ('d, 'l) SystemStatusLocation =
  mValid :: bool
  latitude :: 'd
  longitude :: 'd
  altitude :: 'd
  loc_rest :: 'l

definition Location_equals ::
  "'d fp_ops \<Rightarrow> ('d, 'l) SystemStatusLocation \<Rightarrow> ('d, 'l) SystemStatusLocation \<Rightarrow> bool" where
  "Location_equals F this peer \<longleftrightarrow>
     \<not> (fp_ne F (latitude this) (latitude peer) \<or> fp_ne F (longitude this) (longitude peer) \<or>
        fp_ne F (altitude this) (altitude peer))"

section \<open>Data items\<close>

text \<open>NetworkInfoDataItemBase; a type is an int.\<close>

record network_info =
  mAllTypes :: "64 word"
  ni_Type :: u32
  mTypeName :: string
  mSubTypeName :: string
  mAvailable :: bool
  mConnected :: bool
  mRoaming :: bool

definition typeToAllTypes :: "u32 \<Rightarrow> 64 word" where
  "typeToAllTypes t = (if 9 \<le> sint t \<or> sint t < 0 then 0 else ucast (push_bit (unat t) (1 :: u32)))"

definition new_network_info :: "u32 \<Rightarrow> string \<Rightarrow> string \<Rightarrow> bool \<Rightarrow> bool \<Rightarrow> network_info" where
  "new_network_info t typeName subTypeName connected roaming =
     \<lparr>mAllTypes = typeToAllTypes t, ni_Type = t, mTypeName = typeName, mSubTypeName = subTypeName,
      mAvailable = (connected \<and> \<not> roaming), mConnected = connected, mRoaming = roaming\<rparr>"

definition NetworkInfo_collate :: "network_info \<Rightarrow> network_info \<Rightarrow> network_info" where
  "NetworkInfo_collate curInfo this =
     (let allTypes = mAllTypes curInfo
      in if mConnected this then this\<lparr>mAllTypes := mAllTypes this OR allTypes\<rparr>
         else if mAllTypes this \<noteq> 0 then this\<lparr>mAllTypes := allTypes AND NOT (mAllTypes this)\<rparr>
         else this)"

record wifi_supplicant =
  ws_State :: nat
  ws_ApMacAddressValid :: bool
  ws_ApMacAddress :: "8 word list"
  ws_WifiApSsidValid :: bool
  ws_WifiApSsid :: string

text \<open>The items with an id the cache does not know come last; 's is the data of a Bluetooth scan.\<close>

datatype 's data_item =
    AirplaneMode bool
  | ENH bool
  | GpsState bool
  | NLPStatus bool
  | WifiHardwareState bool
  | NetworkInfo network_info
  | RilServiceInfo ptr
  | RilCellInfo ptr
  | ServiceStatus u32
  | Model string
  | Manufacturer string
  | AssistedGps bool
  | ScreenState bool
  | PowerConnectState bool
  | TimeZoneChange "64 word" u32 u32
  | TimeChange "64 word" u32 u32
  | WifiSupplicantStatus wifi_supplicant
  | ShutdownState bool
  | Tac string
  | MccMnc string
  | BtLeDeviceScanDetails 's
  | BtDeviceScanDetails 's
  | OtherDataItem nat

text \<open>The vectors of SystemStatusReports that hold data items.\<close>

datatype item_vector =
    V_AirplaneMode | V_ENH | V_GPSState | V_NLPStatus | V_WifiHardwareState | V_NetworkInfo | V_RilServiceInfo
  | V_RilCellInfo | V_ServiceStatus | V_Model | V_Manufacturer | V_AssistedGps | V_ScreenState
  | V_PowerConnectState | V_TimeZoneChange | V_TimeChange | V_WifiSupplicantStatus | V_ShutdownState | V_Tac
  | V_MccMnc | V_BtDeviceScanDetail | V_BtLeDeviceScanDetail

text \<open>The switch of eventDataItemNotify: the two Bluetooth ids are exchanged.\<close>

fun vector_of :: "'s data_item \<Rightarrow> item_vector option" where
  "vector_of (AirplaneMode _) = Some V_AirplaneMode"
| "vector_of (ENH _) = Some V_ENH"
| "vector_of (GpsState _) = Some V_GPSState"
| "vector_of (NLPStatus _) = Some V_NLPStatus"
| "vector_of (WifiHardwareState _) = Some V_WifiHardwareState"
| "vector_of (NetworkInfo _) = Some V_NetworkInfo"
| "vector_of (RilServiceInfo _) = Some V_RilServiceInfo"
| "vector_of (RilCellInfo _) = Some V_RilCellInfo"
| "vector_of (ServiceStatus _) = Some V_ServiceStatus"
| "vector_of (Model _) = Some V_Model"
| "vector_of (Manufacturer _) = Some V_Manufacturer"
| "vector_of (AssistedGps _) = Some V_AssistedGps"
| "vector_of (ScreenState _) = Some V_ScreenState"
| "vector_of (PowerConnectState _) = Some V_PowerConnectState"
| "vector_of (TimeZoneChange _ _ _) = Some V_TimeZoneChange"
| "vector_of (TimeChange _ _ _) = Some V_TimeChange"
| "vector_of (WifiSupplicantStatus _) = Some V_WifiSupplicantStatus"
| "vector_of (ShutdownState _) = Some V_ShutdownState"
| "vector_of (Tac _) = Some V_Tac"
| "vector_of (MccMnc _) = Some V_MccMnc"
| "vector_of (BtLeDeviceScanDetails _) = Some V_BtDeviceScanDetail"
| "vector_of (BtDeviceScanDetails _) = Some V_BtLeDeviceScanDetail"
| "vector_of (OtherDataItem _) = None"

text \<open>
  equals of the items, for two of the same vector: the network item compares mAllTypes only, the
  supplicant's all but the MAC address, the scans nothing, and the others all they hold.
\<close>

definition data_item_equals :: "'s data_item \<Rightarrow> 's data_item \<Rightarrow> bool" where
  "data_item_equals this peer =
     (case this of
        NetworkInfo a \<Rightarrow> (case peer of NetworkInfo b \<Rightarrow> mAllTypes a = mAllTypes b | _ \<Rightarrow> False)
      | WifiSupplicantStatus a \<Rightarrow>
          (case peer of
             WifiSupplicantStatus b \<Rightarrow>
               ws_State a = ws_State b \<and> ws_ApMacAddressValid a = ws_ApMacAddressValid b \<and>
               ws_WifiApSsidValid a = ws_WifiApSsidValid b \<and> ws_WifiApSsid a = ws_WifiApSsid b
           | _ \<Rightarrow> False)
      | BtLeDeviceScanDetails _ \<Rightarrow> True
      | BtDeviceScanDetails _ \<Rightarrow> True
      | _ \<Rightarrow> this = peer)"

definition data_item_collate :: "'s data_item \<Rightarrow> 's data_item \<Rightarrow> 's data_item" where
  "data_item_collate cur this =
     (case this of
        NetworkInfo a \<Rightarrow> (case cur of NetworkInfo c \<Rightarrow> NetworkInfo (NetworkInfo_collate c a) | _ \<Rightarrow> this)
      | _ \<Rightarrow> this)"

section \<open>The cache\<close>

record ('d, 'l, 's) SystemStatusReports =
  r_Location :: "('d, 'l) SystemStatusLocation item list"
  r_TimeAndClock :: "SystemStatusTimeAndClock item list"
  r_XoState :: "8 word item list"
  r_RfAndParams :: "'d SystemStatusRfAndParams item list"
  r_ErrRecovery :: "u32 item list"
  r_InjectedPosition :: "'d PQWP1 item list"
  r_BestPosition :: "'d SystemStatusBestPosition item list"
  r_Xtra :: "PQWP3 item list"
  r_Ephemeris :: "PQWP4 item list"
  r_SvHealth :: "PQWP5 item list"
  r_Pdr :: "PQWP6 item list"
  r_NavData :: "SystemStatusNav list item list"
  r_PositionFailure :: "PQWS1 item list"
  r_DataItems :: "item_vector \<Rightarrow> 's data_item item list"

definition new_SystemStatus :: "('d, 'l, 's) SystemStatusReports" where
  "new_SystemStatus =
     \<lparr>r_Location = [], r_TimeAndClock = [], r_XoState = [], r_RfAndParams = [], r_ErrRecovery = [],
      r_InjectedPosition = [], r_BestPosition = [], r_Xtra = [], r_Ephemeris = [], r_SvHealth = [], r_Pdr = [],
      r_NavData = [], r_PositionFailure = [], r_DataItems = \<lambda>_. []\<rparr>"

text \<open>What an uninitialised parser class holds, and an uninitialised location.\<close>

record ('d, 'l) garbage =
  g_P1 :: "'d PQWP1"
  g_P2 :: "'d PQWP2"
  g_P3 :: PQWP3
  g_P4 :: PQWP4
  g_P5 :: PQWP5
  g_P6 :: PQWP6
  g_P7 :: "SystemStatusNav list"
  g_S1 :: PQWS1
  g_location :: "('d, 'l) SystemStatusLocation"

text \<open>The time is that of the call.\<close>

definition setNmeaString ::
  "'d fp_ops \<Rightarrow> ('d, 'l) garbage \<Rightarrow> nat \<Rightarrow> string \<Rightarrow> nat \<Rightarrow> ('d, 'l, 's) SystemStatusReports \<Rightarrow>
   bool \<times> ('d, 'l, 's) SystemStatusReports" where
  "setNmeaString F g now data len c =
     (if \<not> loc_nmea_is_debug data len then (False, c)
      else
        let buf = take NMEA_MAXSIZE data; f = nmea_fields buf len; key = take NMEA_MINSIZE data
        in (True,
            if key = ''$PQWM1'' then
              let s = PQWM1parser F f
              in c\<lparr>r_TimeAndClock := snd (setIteminReport TimeAndClock_equals no_collate (r_TimeAndClock c)
                                            (new_item now (TimeAndClock_of s))),
                   r_XoState := snd (setIteminReport (=) no_collate (r_XoState c) (new_item now (mXoState s))),
                   r_RfAndParams := snd (setIteminReport (RfAndParams_equals F) no_collate (r_RfAndParams c)
                                           (new_item now (RfAndParams_of s))),
                   r_ErrRecovery := snd (setIteminReport (=) no_collate (r_ErrRecovery c)
                                           (new_item now (mRecErrorRecovery s)))\<rparr>
            else if key = ''$PQWP1'' then
              c\<lparr>r_InjectedPosition := snd (setIteminReport (InjectedPosition_equals F) no_collate (r_InjectedPosition c)
                                            (new_item now (PQWP1parser F (g_P1 g) f)))\<rparr>
            else if key = ''$PQWP2'' then
              c\<lparr>r_BestPosition := snd (setIteminReport (BestPosition_equals F) no_collate (r_BestPosition c)
                                        (new_item now (True, PQWP2parser F (g_P2 g) f)))\<rparr>
            else if key = ''$PQWP3'' then
              c\<lparr>r_Xtra := snd (setIteminReport Xtra_equals no_collate (r_Xtra c) (new_item now (PQWP3parser (g_P3 g) f)))\<rparr>
            else if key = ''$PQWP4'' then
              c\<lparr>r_Ephemeris := snd (setIteminReport Ephemeris_equals no_collate (r_Ephemeris c)
                                     (new_item now (PQWP4parser (g_P4 g) f)))\<rparr>
            else if key = ''$PQWP5'' then
              c\<lparr>r_SvHealth := snd (setIteminReport SvHealth_equals no_collate (r_SvHealth c)
                                    (new_item now (PQWP5parser (g_P5 g) f)))\<rparr>
            else if key = ''$PQWP6'' then
              c\<lparr>r_Pdr := snd (setIteminReport Pdr_equals no_collate (r_Pdr c) (new_item now (PQWP6parser (g_P6 g) f)))\<rparr>
            else if key = ''$PQWP7'' then
              c\<lparr>r_NavData := snd (setIteminReport NavData_equals no_collate (r_NavData c)
                                   (new_item now (PQWP7parser (g_P7 g) f)))\<rparr>
            else if key = ''$PQWS1'' then
              c\<lparr>r_PositionFailure := snd (setIteminReport PositionFailure_equals no_collate (r_PositionFailure c)
                                           (new_item now (PQWS1parser (g_S1 g) f)))\<rparr>
            else c))"

definition eventPosition ::
  "'d fp_ops \<Rightarrow> nat \<Rightarrow> ('d, 'l) SystemStatusLocation \<Rightarrow> ('d, 'l, 's) SystemStatusReports \<Rightarrow>
   bool \<times> ('d, 'l, 's) SystemStatusReports" where
  "eventPosition F now loc c =
     (let (ret, v) = setIteminReport (Location_equals F) no_collate (r_Location c) (new_item now (loc\<lparr>mValid := True\<rparr>))
      in (ret, c\<lparr>r_Location := v\<rparr>))"

text \<open>
  The result, the data item of the caller afterwards (collating writes mAllTypes back to it) and the cache.
\<close>

definition eventDataItemNotify ::
  "nat \<Rightarrow> 's data_item \<Rightarrow> ('d, 'l, 's) SystemStatusReports \<Rightarrow>
   bool \<times> 's data_item \<times> ('d, 'l, 's) SystemStatusReports" where
  "eventDataItemNotify now dataitem c =
     (case vector_of dataitem of
        None \<Rightarrow> (False, dataitem, c)
      | Some v \<Rightarrow>
          (let report = r_DataItems c v;
               (ret, report') = setIteminReport data_item_equals data_item_collate report (new_item now dataitem)
           in (ret, if report = [] then dataitem else data_item_collate (body (last report)) dataitem,
               c\<lparr>r_DataItems := (r_DataItems c)(v := report')\<rparr>)))"

definition getReport ::
  "bool \<Rightarrow> ('d, 'l, 's) SystemStatusReports \<Rightarrow> bool \<times> ('d, 'l, 's) SystemStatusReports" where
  "getReport isLatestOnly c =
     (True,
      if isLatestOnly
      then \<lparr>r_Location = getIteminReport (r_Location c), r_TimeAndClock = getIteminReport (r_TimeAndClock c),
            r_XoState = getIteminReport (r_XoState c), r_RfAndParams = getIteminReport (r_RfAndParams c),
            r_ErrRecovery = getIteminReport (r_ErrRecovery c),
            r_InjectedPosition = getIteminReport (r_InjectedPosition c),
            r_BestPosition = getIteminReport (r_BestPosition c), r_Xtra = getIteminReport (r_Xtra c),
            r_Ephemeris = getIteminReport (r_Ephemeris c), r_SvHealth = getIteminReport (r_SvHealth c),
            r_Pdr = getIteminReport (r_Pdr c), r_NavData = getIteminReport (r_NavData c),
            r_PositionFailure = getIteminReport (r_PositionFailure c),
            r_DataItems = \<lambda>v. getIteminReport (r_DataItems c v)\<rparr>
      else c)"

definition zero_rf :: "'d fp_ops \<Rightarrow> 'd SystemStatusRfAndParams" where
  "zero_rf F =
     \<lparr>rf_PgaGain = 0, rf_GpsBpAmpI = 0, rf_GpsBpAmpQ = 0, rf_AdcI = 0, rf_AdcQ = 0, rf_JammerGps = 0,
      rf_JammerGlo = 0, rf_JammerBds = 0, rf_JammerGal = 0, rf_AgcGps = fp_zero F, rf_AgcGlo = fp_zero F,
      rf_AgcBds = fp_zero F, rf_AgcGal = fp_zero F, rf_GloBpAmpI = 0, rf_GloBpAmpQ = 0, rf_BdsBpAmpI = 0,
      rf_BdsBpAmpQ = 0, rf_GalBpAmpI = 0, rf_GalBpAmpQ = 0\<rparr>"

text \<open>The types of GNSS_EPH_TYPE_UNKNOWN and GNSS_EPH_SOURCE_UNKNOWN are 0.\<close>

definition setDefaultGnssEngineStates ::
  "'d fp_ops \<Rightarrow> ('d, 'l) garbage \<Rightarrow> nat \<Rightarrow> ('d, 'l, 's) SystemStatusReports \<Rightarrow> bool \<times> ('d, 'l, 's) SystemStatusReports" where
  "setDefaultGnssEngineStates F g now c =
     (let z = fp_zero F; zero_health = \<lparr>mGpsUnknownMask = 0, mGloUnknownMask = 0, mBdsUnknownMask = 0,
            mGalUnknownMask = 0, mQzssUnknownMask = 0, mGpsGoodMask = 0, mGloGoodMask = 0, mBdsGoodMask = 0,
            mGalGoodMask = 0, mQzssGoodMask = 0, mGpsBadMask = 0, mGloBadMask = 0, mBdsBadMask = 0,
            mGalBadMask = 0, mQzssBadMask = 0\<rparr>
      in (True,
          c\<lparr>r_Location := push_item (r_Location c) (new_item now ((g_location g)\<lparr>mValid := False\<rparr>)),
            r_TimeAndClock := push_item (r_TimeAndClock c) (new_item now
              \<lparr>tc_GpsWeek = 0, tc_GpsTowMs = 0, tc_TimeValid = 0, tc_TimeSource = 0, tc_TimeUnc = 0,
               tc_ClockFreqBias = 0, tc_ClockFreqBiasUnc = 0, tc_LeapSeconds = 0, tc_LeapSecUnc = 0\<rparr>),
            r_XoState := push_item (r_XoState c) (new_item now 0),
            r_RfAndParams := push_item (r_RfAndParams c) (new_item now (zero_rf F)),
            r_ErrRecovery := push_item (r_ErrRecovery c) (new_item now 0),
            r_InjectedPosition := push_item (r_InjectedPosition c) (new_item now
              \<lparr>mEpiValidity = 0, mEpiLat = z, mEpiLon = z, mEpiAlt = z, mEpiHepe = z, mEpiAltUnc = z, mEpiSrc = 0\<rparr>),
            r_BestPosition := push_item (r_BestPosition c) (new_item now
              (False, \<lparr>mBestLat = z, mBestLon = z, mBestAlt = z, mBestHepe = z, mBestAltUnc = z\<rparr>)),
            r_Xtra := push_item (r_Xtra c) (new_item now
              \<lparr>mXtraValidMask = 0, mGpsXtraAge = 0, mGloXtraAge = 0, mBdsXtraAge = 0, mGalXtraAge = 0,
               mQzssXtraAge = 0, mGpsXtraValid = 0, mGloXtraValid = 0, mBdsXtraValid = 0, mGalXtraValid = 0,
               mQzssXtraValid = 0\<rparr>),
            r_Ephemeris := push_item (r_Ephemeris c) (new_item now
              \<lparr>mGpsEpheValid = 0, mGloEpheValid = 0, mBdsEpheValid = 0, mGalEpheValid = 0, mQzssEpheValid = 0\<rparr>),
            r_SvHealth := push_item (r_SvHealth c) (new_item now zero_health),
            r_Pdr := push_item (r_Pdr c) (new_item now 0),
            r_NavData := push_item (r_NavData c) (new_item now
              (replicate SV_ALL_NUM \<lparr>mType = 0, mSource = 0, mAgeSec = 0\<rparr>)),
            r_PositionFailure := push_item (r_PositionFailure c) (new_item now \<lparr>mFixInfoMask = 0, mHepeLimit = 0\<rparr>)\<rparr>))"

text \<open>The network item that is sent to the observer's clients; the type is an int8_t.\<close>

definition eventConnectionStatus :: "bool \<Rightarrow> 8 word \<Rightarrow> bool \<times> 's data_item list" where
  "eventConnectionStatus connected t = (True, [NetworkInfo (new_network_info (scast t) [] [] connected False)])"

text \<open>The one instance, under the mutex.\<close>

definition getInstance ::
  "ptr \<Rightarrow> ('d, 'l, 's) SystemStatusReports option \<Rightarrow> ('d, 'l, 's) SystemStatusReports option" where
  "getInstance msgTask mInstance =
     (case mInstance of None \<Rightarrow> if msgTask = None then None else Some new_SystemStatus | Some c \<Rightarrow> Some c)"

end
