(* ===== verification/System_Status_Props.thy ===== *)
theory System_Status_Props
  imports System_Status
begin

text \<open>
  The correctness of the report cache: a sentence printed from fields is cut into them again, every vector
  holds the last five changes of what was reported, and the network item tracks the connected types.
\<close>

section \<open>Cutting a sentence\<close>

lemma nmea_tokens_field: "CHR '','' \<notin> set f \<Longrightarrow> nmea_tokens cur (f @ CHR '','' # s) = (cur @ f) # nmea_tokens [] s"
  by (induction f arbitrary: cur) auto

lemma nmea_tokens_end: "CHR '','' \<notin> set s \<Longrightarrow> nmea_tokens cur s = []"
  by (induction s arbitrary: cur) auto

lemma nmea_tokens_joined:
  "fs \<noteq> [] \<Longrightarrow> \<forall>f \<in> set fs. CHR '','' \<notin> set f \<Longrightarrow> CHR '','' \<notin> set cs \<Longrightarrow>
   nmea_tokens [] (joined (CHR '','') fs @ CHR '','' # cs) = fs"
proof (induction fs)
  case (Cons f fs)
  then show ?case by (cases fs) (simp_all add: nmea_tokens_field nmea_tokens_end)
qed simp

lemma replace_star_first: "CHR ''*'' \<notin> set s \<Longrightarrow> replace_star (s @ CHR ''*'' # cs) = Some (s @ CHR '','' # cs)"
  by (induction s) auto

lemma joined_chars: "c \<noteq> d \<Longrightarrow> c \<in> set (joined d fs) \<longleftrightarrow> (\<exists>f \<in> set fs. c \<in> set f)"
  by (induction d fs rule: joined.induct) auto

text \<open>A sentence of the given fields with a checksum.\<close>

definition nmea_sentence :: "string list \<Rightarrow> string \<Rightarrow> string" where
  "nmea_sentence fs checksum = joined (CHR '','') fs @ CHR ''*'' # checksum"

definition field_ok :: "string \<Rightarrow> bool" where
  "field_ok f \<longleftrightarrow> CHR '','' \<notin> set f \<and> CHR ''*'' \<notin> set f"

lemma joined_prefix: "fs \<noteq> [] \<Longrightarrow> k \<le> length (hd fs) \<Longrightarrow> take k (joined d fs @ s) = take k (hd fs)"
  by (cases fs; cases "tl fs") (simp_all add: joined_Cons)

lemma nmea_fields_sentence:
  assumes "fs \<noteq> []" "list_all field_ok fs" "field_ok checksum" "take 4 (hd fs) = ''$PQW''"
    "6 \<le> len" "len \<le> 4096"
  shows "nmea_fields (nmea_sentence fs checksum) len = fs"
proof -
  let ?s = "nmea_sentence fs checksum"
  have "4 \<le> length (hd fs)" using arg_cong [OF assms(4), of length] by (simp split: if_splits add: min_def)
  then have "take 4 ?s = ''$PQW''"
    unfolding nmea_sentence_def using joined_prefix [OF assms(1), of 4] assms(4) by simp
  then have "loc_nmea_is_debug ?s len" using assms(5,6) by (simp add: loc_nmea_is_debug_def)
  moreover have "CHR ''*'' \<notin> set (joined (CHR '','') fs)"
    using assms(2) by (auto simp: joined_chars list_all_iff field_ok_def)
  moreover have "nmea_tokens [] (joined (CHR '','') fs @ CHR '','' # checksum) = fs"
    using assms(1,2,3) by (intro nmea_tokens_joined) (auto simp: list_all_iff field_ok_def)
  ultimately show ?thesis by (simp add: nmea_fields_def nmea_sentence_def replace_star_first)
qed

section \<open>The history of a vector\<close>

definition last_n :: "nat \<Rightarrow> 'a list \<Rightarrow> 'a list" where
  "last_n n xs = drop (length xs - n) xs"

lemma last_n_snoc: "length (last_n 5 xs) = min 5 (length xs)"
  by (simp add: last_n_def min_def)

lemma remdups_adj_snoc:
  "remdups_adj (xs @ [x]) = (if xs \<noteq> [] \<and> last xs = x then remdups_adj xs else remdups_adj xs @ [x])"
proof (cases xs rule: rev_cases)
  case (snoc ys y)
  then show ?thesis using remdups_adj_append_two [of ys y x] by simp
qed simp

lemma last_n_empty [simp]: "last_n n [] = []"
  by (simp add: last_n_def)

lemma push_item_body:
  assumes "length r \<le> 5"
  shows "map body (push_item r s) = last_n 5 (map body r @ [body s])"
proof (cases "length r = 5")
  case True
  then show ?thesis by (cases r) (simp_all add: push_item_def last_n_def Let_def)
next
  case False
  with assms show ?thesis by (simp add: push_item_def last_n_def Let_def)
qed

lemma last_n_push: "last_n 5 (last_n 5 xs @ [x]) = last_n 5 (xs @ [x])"
proof (cases "length xs \<le> 5")
  case False
  then have "length xs - 4 = Suc (length xs - 5)" by arith
  then show ?thesis using False by (simp add: last_n_def)
qed (simp add: last_n_def)

lemma last_n_Nil [simp]: "last_n 5 xs = [] \<longleftrightarrow> xs = []"
proof -
  have "length xs \<le> length xs - 5 \<longleftrightarrow> length xs = 0" by arith
  then show ?thesis by (simp add: last_n_def)
qed

lemma last_last_n:
  assumes "xs \<noteq> []"
  shows "last (last_n 5 xs) = last xs"
proof -
  have "length xs - 5 < length xs" using assms by simp
  then show ?thesis by (simp add: last_n_def last_drop)
qed

text \<open>A vector holds the last five changes of the sequence of bodies.\<close>

definition holds :: "'b item list \<Rightarrow> 'b list \<Rightarrow> bool" where
  "holds r bs \<longleftrightarrow> map body r = last_n 5 (remdups_adj bs)"

lemma holds_Nil [simp]: "holds [] []"
  by (simp add: holds_def)

lemma holds_set:
  assumes "holds r bs" "\<And>a b. equals a b \<longleftrightarrow> a = b"
  shows "holds (snd (setIteminReport equals no_collate r (new_item now b))) (bs @ [b])"
proof (cases "bs = []")
  case True
  then have "r = []" using assms(1) by (simp add: holds_def)
  with True show ?thesis by (simp add: setIteminReport_def push_item_def holds_def new_item_def last_n_def)
next
  case False
  have r: "map body r = last_n 5 (remdups_adj bs)" using assms(1) by (simp add: holds_def)
  then have ne: "r \<noteq> []" using False by (metis last_n_Nil map_is_Nil_conv remdups_adj_Nil_iff)
  have len: "length r \<le> 5" using r last_n_snoc [of "remdups_adj bs"] by (metis length_map min.cobounded1)
  have "last (map body r) = last bs" unfolding r using False by (simp add: last_last_n)
  then have l: "body (last r) = last bs" using ne by (simp add: last_map)
  show ?thesis
  proof (cases "last bs = b")
    case True
    have "map body (butlast r @ [(last r)\<lparr>mUtcReported := now\<rparr>]) = map body r"
      using ne by (metis (no_types, lifting) append_butlast_last_id item.select_convs(3) item.surjective item.update_convs(2) list.simps(8,9) map_append)
    then show ?thesis
      using True False ne l r assms(2)
      by (simp add: setIteminReport_def holds_def new_item_def remdups_adj_snoc Let_def)
  next
    case neq: False
    have "map body (push_item r (new_item now b)) = last_n 5 (remdups_adj bs @ [b])"
      unfolding push_item_body [OF len] r by (simp add: new_item_def last_n_push)
    then show ?thesis
      using neq False ne l assms(2)
      by (simp add: setIteminReport_def holds_def new_item_def remdups_adj_snoc Let_def)
  qed
qed

section \<open>Sequences of sentences\<close>







lemma TimeAndClock_eq: "TimeAndClock_equals t t' \<longleftrightarrow> t = t'"
  by (cases t; cases t'; auto simp: TimeAndClock_equals_def)

lemma Xtra_eq: "Xtra_equals x x' \<longleftrightarrow> x = x'"
  by (cases x; cases x'; auto simp: Xtra_equals_def)

lemma Ephemeris_eq: "Ephemeris_equals e e' \<longleftrightarrow> e = e'"
  by (cases e; cases e'; auto simp: Ephemeris_equals_def)

lemma SvHealth_eq: "SvHealth_equals h h' \<longleftrightarrow> h = h'"
  by (cases h; cases h'; auto simp: SvHealth_equals_def)

lemma PositionFailure_eq: "PositionFailure_equals s s' \<longleftrightarrow> s = s'"
  by (cases s; cases s'; auto simp: PositionFailure_equals_def)

lemma Pdr_eq: "Pdr_equals p p' \<longleftrightarrow> p = p'"
  by (simp add: Pdr_equals_def)

lemmas holds_sets [inv_intros] =
  holds_set [where equals = TimeAndClock_equals, OF _ TimeAndClock_eq]
  holds_set [where equals = Xtra_equals, OF _ Xtra_eq]
  holds_set [where equals = Ephemeris_equals, OF _ Ephemeris_eq]
  holds_set [where equals = SvHealth_equals, OF _ SvHealth_eq]
  holds_set [where equals = PositionFailure_equals, OF _ PositionFailure_eq]
  holds_set [where equals = Pdr_equals, OF _ Pdr_eq]
  holds_set [where equals = "(=)", OF _ refl]



section \<open>Network types\<close>

text \<open>The network items of a sequence of notifications, as their constructor makes them.\<close>

fun network_items :: "(nat \<times> 's data_item) list \<Rightarrow> network_info list" where
  "network_items [] = []"
| "network_items ((now, NetworkInfo n) # xs) = n # network_items xs"
| "network_items ((now, d) # xs) = network_items xs"

lemma network_items_append: "network_items (xs @ ys) = network_items xs @ network_items ys"
  by (induction xs rule: network_items.induct) simp_all

definition notify_all ::
  "(nat \<times> 's data_item) list \<Rightarrow> ('d, 'l, 's) SystemStatusReports \<Rightarrow> ('d, 'l, 's) SystemStatusReports" where
  "notify_all xs c = fold (\<lambda>(now, d) c. snd (snd (eventDataItemNotify now d c))) xs c"

lemma notify_all_snoc: "notify_all (xs @ [(now, d)]) c = snd (snd (eventDataItemNotify now d (notify_all xs c)))"
  by (simp add: notify_all_def)

definition constructed :: "network_info \<Rightarrow> bool" where
  "constructed n \<longleftrightarrow> mAllTypes n = typeToAllTypes (ni_Type n)"

text \<open>
  The types that are connected: a disconnection of a type outside the enumeration ends all connections.
\<close>

fun connect_step :: "network_info \<Rightarrow> nat set \<Rightarrow> nat set" where
  "connect_step n S =
     (let t = unat (ni_Type n); known = t < 9
      in if mConnected n then if known then insert t S else S
         else if known then S - {t} else {})"

definition connected_types :: "network_info list \<Rightarrow> nat set" where
  "connected_types ns = fold connect_step ns {}"

lemma type_mask:
  "typeToAllTypes t = 0 \<longleftrightarrow> \<not> unat t < 9" (is ?zero)
  "bit (typeToAllTypes t) k \<longleftrightarrow> unat t < 9 \<and> k = unat t" (is ?bit)
proof -
  have "?zero \<and> ?bit"
  proof (cases "unat t < 9")
    case True
    then have "t = of_nat (unat t)" "unat t \<in> {0, 1, 2, 3, 4, 5, 6, 7, 8}" by auto
    then have "t \<in> {0, 1, 2, 3, 4, 5, 6, 7, 8}" by (elim insertE emptyE) (simp_all only:, simp_all)
    then have "0 \<le> sint t \<and> sint t < 9" by auto
    then have m: "typeToAllTypes t = ucast (push_bit (unat t) (1 :: u32))" by (simp add: typeToAllTypes_def)
    have "bit (typeToAllTypes t) j \<longleftrightarrow> j = unat t" for j
      unfolding m using True by (auto simp: bit_simps)
    then show ?thesis using True by (metis bit_0_eq bot_apply bot_bool_def)
  next
    case False
    have "9 \<le> sint t \<or> sint t < 0"
    proof (rule ccontr)
      assume *: "\<not> ?thesis"
      have w: "t = word_of_int (sint t)" by simp
      from * have "sint t \<in> {0, 1, 2, 3, 4, 5, 6, 7, 8}" by auto
      then have "t \<in> {0, 1, 2, 3, 4, 5, 6, 7, 8}"
        using w by (elim insertE emptyE) simp_all
      with False show False by auto
    qed
    then show ?thesis using False by (simp add: typeToAllTypes_def)
  qed
  then show ?zero ?bit by simp_all
qed

lemma notify_network:
  "r_DataItems (snd (snd (eventDataItemNotify now d c))) V_NetworkInfo =
   (case d of
      NetworkInfo n \<Rightarrow>
        snd (setIteminReport data_item_equals data_item_collate (r_DataItems c V_NetworkInfo) (new_item now d))
    | _ \<Rightarrow> r_DataItems c V_NetworkInfo)"
  by (cases d) (simp_all add: eventDataItemNotify_def Let_def case_prod_beta)

text \<open>The last network item of the cache and its types.\<close>

definition network_state :: "('d, 'l, 's) SystemStatusReports \<Rightarrow> 64 word option" where
  "network_state c =
     (if r_DataItems c V_NetworkInfo = [] then None
      else case body (last (r_DataItems c V_NetworkInfo)) of NetworkInfo n \<Rightarrow> Some (mAllTypes n) | _ \<Rightarrow> None)"

definition network_ok :: "('d, 'l, 's) SystemStatusReports \<Rightarrow> bool" where
  "network_ok c \<longleftrightarrow> r_DataItems c V_NetworkInfo \<noteq> [] \<longrightarrow> (\<exists>n. body (last (r_DataItems c V_NetworkInfo)) = NetworkInfo n)"

definition collated :: "64 word \<Rightarrow> network_info \<Rightarrow> 64 word" where
  "collated cur n =
     (if mConnected n then mAllTypes n OR cur
      else if mAllTypes n \<noteq> 0 then cur AND NOT (mAllTypes n) else 0)"

lemma last_push: "last (push_item r s) = s"
  by (cases r) (auto simp: push_item_def Let_def)

lemma push_ne: "push_item r s \<noteq> []"
  by (cases r) (auto simp: push_item_def Let_def)

lemma network_notify:
  assumes "network_ok c" "network_state c = cur" "c' = snd (snd (eventDataItemNotify now (NetworkInfo n) c))"
  shows "network_ok c'"
    "network_state c' = Some (case cur of None \<Rightarrow> mAllTypes n | Some m \<Rightarrow> collated m n)"
proof -
  let ?r = "r_DataItems c V_NetworkInfo"
  have r': "r_DataItems c' V_NetworkInfo =
    snd (setIteminReport data_item_equals data_item_collate ?r (new_item now (NetworkInfo n)))"
    unfolding assms(3) notify_network by simp
  have "network_ok c' \<and> network_state c' = Some (case cur of None \<Rightarrow> mAllTypes n | Some m \<Rightarrow> collated m n)"
  proof (cases "?r = []")
    case True
    then show ?thesis using assms(2) r'
      by (auto simp: network_ok_def network_state_def setIteminReport_def push_item_def new_item_def)
  next
    case False
    then obtain m where m: "body (last ?r) = NetworkInfo m" using assms(1) by (auto simp: network_ok_def)
    have cur: "cur = Some (mAllTypes m)" using m False assms(2) by (simp add: network_state_def)
    have all: "mAllTypes (NetworkInfo_collate m n) = collated (mAllTypes m) n"
      by (simp add: NetworkInfo_collate_def collated_def Let_def)
    show ?thesis
      using False m all unfolding cur
      by (auto simp: network_ok_def network_state_def r' setIteminReport_def Let_def new_item_def
          data_item_collate_def data_item_equals_def last_push push_ne)
  qed
  then show "network_ok c'" "network_state c' = Some (case cur of None \<Rightarrow> mAllTypes n | Some m \<Rightarrow> collated m n)"
    by simp_all
qed

text \<open>A mask is the set of its bits.\<close>

definition types_of :: "64 word \<Rightarrow> nat set" where
  "types_of m = {k. bit m k}"

lemma types_zero [simp]: "types_of 0 = {}"
  by (simp add: types_of_def)

lemma types_constructed:
  "constructed n \<Longrightarrow> types_of (mAllTypes n) = (if unat (ni_Type n) < 9 then {unat (ni_Type n)} else {})"
  by (auto simp: constructed_def types_of_def type_mask)

lemma types_collated: "constructed n \<Longrightarrow> types_of (collated m n) = connect_step n (types_of m)"
  using type_mask(1) [of "ni_Type n"]
  by (auto simp: collated_def constructed_def types_of_def type_mask(2) bit_or_iff bit_and_iff bit_not_iff Let_def
      dest: bit_imp_le_length)

lemma network_other:
  assumes "\<forall>n. d \<noteq> NetworkInfo n"
  shows "network_items [(now, d)] = []"
    "network_ok (snd (snd (eventDataItemNotify now d c))) = network_ok c"
    "network_state (snd (snd (eventDataItemNotify now d c))) = network_state c"
  using assms by (cases d; simp add: notify_network network_ok_def network_state_def)+

lemma network_inv:
  "list_all constructed (network_items xs) \<Longrightarrow> network_items xs = [] \<or> mConnected (hd (network_items xs)) \<Longrightarrow>
   network_ok (notify_all xs (new_SystemStatus :: ('d, 'l, 's) SystemStatusReports)) \<and>
   (if network_items xs = [] then network_state (notify_all xs (new_SystemStatus :: ('d, 'l, 's) SystemStatusReports)) = None
    else \<exists>m. network_state (notify_all xs (new_SystemStatus :: ('d, 'l, 's) SystemStatusReports)) = Some m \<and>
             types_of m = connected_types (network_items xs))"
proof (induction xs rule: rev_induct)
  case Nil
  then show ?case by (simp add: notify_all_def network_ok_def network_state_def new_SystemStatus_def)
next
  case (snoc x xs)
  let ?c = "notify_all xs (new_SystemStatus :: ('d, 'l, 's) SystemStatusReports)"
  obtain now d where x: "x = (now, d)" by (cases x)
  have IH: "network_ok ?c"
    "if network_items xs = [] then network_state ?c = None
     else \<exists>m. network_state ?c = Some m \<and> types_of m = connected_types (network_items xs)"
    using snoc by (auto simp: network_items_append hd_append split: if_splits)
  show ?case
  proof (cases "\<exists>n. d = NetworkInfo n")
    case False
    then have "\<forall>n. d \<noteq> NetworkInfo n" by blast
    note other = network_other [OF this]
    show ?thesis using IH by (simp add: x notify_all_snoc network_items_append other)
  next
    case True
    then obtain n where d: "d = NetworkInfo n" by blast
    have n: "constructed n" using snoc.prems(1) by (simp add: x d network_items_append)
    note step = network_notify [OF IH(1) refl refl, of now n]
    show ?thesis
    proof (cases "network_items xs = []")
      case True
      then have conn: "mConnected n" using snoc.prems(2) by (simp add: x d network_items_append)
      have "types_of (mAllTypes n) = connected_types [n]"
        using conn types_constructed [OF n] by (simp add: connected_types_def Let_def)
      then show ?thesis using True IH(2) step by (simp add: x d notify_all_snoc network_items_append)
    next
      case False
      then obtain m where m: "network_state ?c = Some m" "types_of m = connected_types (network_items xs)"
        using IH(2) by auto
      have "types_of (collated m n) = connected_types (network_items xs @ [n])"
        using types_collated [OF n, of m] m(2) by (simp add: connected_types_def)
      then show ?thesis using False m step by (simp add: x d notify_all_snoc network_items_append)
    qed
  qed
qed

section \<open>The properties\<close>

text \<open>a debug sentence (first field $PQW..., 6 to 4096 characters announced) that was printed by joining
  fields without comma and star, a star and a checksum is cut into exactly those fields; the checksum is
  dropped unread.\<close>

theorem debug_sentence_roundtrip:
  assumes "fs \<noteq> []" "list_all field_ok fs" "field_ok checksum" "take 4 (hd fs) = ''$PQW''"
    "6 \<le> len" "len \<le> 4096"
  shows "nmea_fields (nmea_sentence fs checksum) len = fs"
  using assms by (rule nmea_fields_sentence)

theorem debug_sentence_roundtrip_witness:
  "nmea_fields (nmea_sentence [''$PQWP6'', ''1'', ''FF''] ''3A'') 16 = [''$PQWP6'', ''1'', ''FF'']"
  by (rule debug_sentence_roundtrip) (simp_all add: field_ok_def)


text \<open>Over any notifications whose network items come from the constructor and of which the first tells a
  connection, the types in the last network item of the cache are exactly the types connected since and
  not disconnected, where a disconnection without a type ends all of them.\<close>

lemma network_types_tracked:
  assumes "list_all constructed (network_items xs)" "network_items xs \<noteq> []" "mConnected (hd (network_items xs))"
  shows "\<exists>m. network_state (notify_all xs (new_SystemStatus :: ('d, 'l, 's) SystemStatusReports)) = Some m \<and>
    types_of m = connected_types (network_items xs)"
  using assms network_inv [OF assms(1)] by metis

lemma network_types_tracked_witness:
  "\<exists>m. network_state (notify_all
       [(1, NetworkInfo (new_network_info 0 [] [] True False)), (2, AirplaneMode True),
        (3, NetworkInfo (new_network_info 1 [] [] True False)), (4, NetworkInfo (new_network_info 0 [] [] False False))]
       (new_SystemStatus :: (nat, nat, nat) SystemStatusReports)) = Some m \<and> types_of m = {1}"
  using network_types_tracked [where 'd = nat and 'l = nat and 's = nat, of
    "[(1, NetworkInfo (new_network_info 0 [] [] True False)), (2, AirplaneMode True),
      (3, NetworkInfo (new_network_info 1 [] [] True False)), (4, NetworkInfo (new_network_info 0 [] [] False False))]"]
  by (simp add: constructed_def new_network_info_def connected_types_def insert_Diff_if)

end
