(* ===== verification/Nmea_Gen.thy ===== *)
theory Nmea_Gen
  imports Prelude "HOL-Library.Signed_Division"
begin

text \<open>
  The NMEA generator, gps/utils/loc_nmea.cpp: sentences for the satellites in view (GSV) and for a position
  (GSA, VTG, RMC, GGA). The C library's snprintf writes into a buffer of 200 characters that is modelled by
  its text and the room left. Floating point values, their conversions and their printing, gmtime and
  the shift 1 << n are parameters.
\<close>

unbundle bit_operations_syntax

section \<open>Printing\<close>

abbreviation (input) NMEA_SENTENCE_MAX_LENGTH :: int where "NMEA_SENTENCE_MAX_LENGTH \<equiv> 200"

definition hex_digit :: "nat \<Rightarrow> char" where
  "hex_digit n = (if n < 10 then char_of (48 + n) else char_of (55 + n))"

text \<open>\<open>%02X\<close> of a byte.\<close>

definition fmt_02X :: "8 word \<Rightarrow> string" where
  "fmt_02X b = [hex_digit (unat b div 16), hex_digit (unat b mod 16)]"

record writer =
  w_text :: string
  lengthRemaining :: int

text \<open>
  A sequence of snprintf calls at pMarker, each with its length check or without. A negative room becomes
  a huge unsigned size.
\<close>

datatype printed = Printed writer | Format_Error | Overrun

fun print_seq :: "(bool \<times> string) list \<Rightarrow> writer \<Rightarrow> printed" where
  "print_seq [] w = Printed w"
| "print_seq ((check, s) # ps) w =
     (if lengthRemaining w < 0 then Overrun
      else if check \<and> lengthRemaining w \<le> int (length s) then Format_Error
      else print_seq ps \<lparr>w_text = w_text w @ take (nat (lengthRemaining w) - 1) s,
                         lengthRemaining = lengthRemaining w - int (length s)\<rparr>)"

abbreviation (input) fresh_buffer :: writer where
  "fresh_buffer \<equiv> \<lparr>w_text = [], lengthRemaining = NMEA_SENTENCE_MAX_LENGTH\<rparr>"

definition xor_chars :: "string \<Rightarrow> 8 word" where
  "xor_chars s = fold (\<lambda>c checksum. checksum XOR of_char c) s 0"

definition checksum_text :: "8 word \<Rightarrow> string" where
  "checksum_text c = CHR ''*'' # fmt_02X c @ [CHR 0x0D, CHR 0x0A]"

text \<open>The result and the text in the buffer afterwards.\<close>

definition loc_nmea_put_checksum :: "string \<Rightarrow> int \<Rightarrow> int \<times> string" where
  "loc_nmea_put_checksum pNmea maxSize =
     (let checksum = xor_chars (tl pNmea); len = int (length (tl pNmea)); t = checksum_text checksum
      in (len + int (length t) + 1, pNmea @ take (nat (maxSize - len - 1) - 1) t))"

section \<open>Satellites\<close>

datatype GnssSvType =
    GNSS_SV_TYPE_UNKNOWN
  | GNSS_SV_TYPE_GPS
  | GNSS_SV_TYPE_SBAS
  | GNSS_SV_TYPE_GLONASS
  | GNSS_SV_TYPE_QZSS
  | GNSS_SV_TYPE_BEIDOU
  | GNSS_SV_TYPE_GALILEO

record 'd GnssSv =
  svId :: "16 word"
  sv_type :: GnssSvType
  cN0Dbhz :: 'd
  elevation :: 'd
  azimuth :: 'd
  gnssSvOptionsMask :: "16 word"

record 'd nmea_fp =
  half_up :: "'d \<Rightarrow> u32"
  positive :: "'d \<Rightarrow> bool"
  negative :: "'d \<Rightarrow> bool"
  negate :: "'d \<Rightarrow> 'd"
  fmt_1f :: "'d \<Rightarrow> string"
  fmt_09_6f :: "'d \<Rightarrow> string"
  knots :: "'d \<Rightarrow> 'd"
  km_per_hour :: "'d \<Rightarrow> 'd"
  floor8 :: "'d \<Rightarrow> 8 word"
  minutes :: "'d \<Rightarrow> 'd"
  fp_minus :: "'d \<Rightarrow> 'd \<Rightarrow> 'd"
  shift_one :: "int \<Rightarrow> u32"

record loc_nmea_sv_meta =
  talker :: string
  svType :: GnssSvType
  used_mask :: u32
  svCount :: u32
  svIdOffset :: u32
  signalId :: u32
  systemId :: u32

record loc_sv_cache_info =
  gps_used_mask :: u32
  glo_used_mask :: u32
  gal_used_mask :: u32
  qzss_used_mask :: u32
  bds_used_mask :: u32
  gps_count :: u32
  glo_count :: u32
  gal_count :: u32
  qzss_count :: u32
  bds_count :: u32

definition empty_cache_info :: loc_sv_cache_info where
  "empty_cache_info =
     \<lparr>gps_used_mask = 0, glo_used_mask = 0, gal_used_mask = 0, qzss_used_mask = 0, bds_used_mask = 0,
      gps_count = 0, glo_count = 0, gal_count = 0, qzss_count = 0, bds_count = 0\<rparr>"

definition used_systems :: "loc_sv_cache_info \<Rightarrow> nat" where
  "used_systems c =
     (if gps_used_mask c \<noteq> 0 then 1 else 0) + (if glo_used_mask c \<noteq> 0 then 1 else 0) +
     (if gal_used_mask c \<noteq> 0 then 1 else 0) + (if qzss_used_mask c \<noteq> 0 then 1 else 0) +
     (if bds_used_mask c \<noteq> 0 then 1 else 0)"

definition loc_nmea_sv_meta_init :: "loc_sv_cache_info \<Rightarrow> GnssSvType \<Rightarrow> bool \<Rightarrow> loc_nmea_sv_meta option" where
  "loc_nmea_sv_meta_init c t needCombine =
     map_option (\<lambda>m. if needCombine \<and> 1 < used_systems c then m\<lparr>talker := ''GN''\<rparr> else m)
       (case t of
          GNSS_SV_TYPE_GPS \<Rightarrow>
            Some \<lparr>talker = ''GP'', svType = t, used_mask = gps_used_mask c, svCount = gps_count c, svIdOffset = 0,
                  signalId = 1, systemId = 1\<rparr>
        | GNSS_SV_TYPE_GLONASS \<Rightarrow>
            Some \<lparr>talker = ''GL'', svType = t, used_mask = glo_used_mask c, svCount = glo_count c, svIdOffset = 64,
                  signalId = 1, systemId = 2\<rparr>
        | GNSS_SV_TYPE_GALILEO \<Rightarrow>
            Some \<lparr>talker = ''GA'', svType = t, used_mask = gal_used_mask c, svCount = gal_count c, svIdOffset = 0,
                  signalId = 7, systemId = 3\<rparr>
        | GNSS_SV_TYPE_QZSS \<Rightarrow>
            Some \<lparr>talker = ''PQ'', svType = t, used_mask = qzss_used_mask c, svCount = qzss_count c, svIdOffset = 0,
                  signalId = 0, systemId = 5\<rparr>
        | GNSS_SV_TYPE_BEIDOU \<Rightarrow>
            Some \<lparr>talker = ''PQ'', svType = t, used_mask = bds_used_mask c, svCount = bds_count c, svIdOffset = 0,
                  signalId = 0, systemId = 4\<rparr>
        | _ \<Rightarrow> None)"

section \<open>GSV\<close>

text \<open>The inner loop: what is printed for up to four satellites of the type, and the satellites left.\<close>

fun gsv_svs ::
  "'d nmea_fp \<Rightarrow> loc_nmea_sv_meta \<Rightarrow> 'd GnssSv list \<Rightarrow> nat \<Rightarrow> (bool \<times> string) list \<times> 'd GnssSv list" where
  "gsv_svs F m [] i = ([], [])"
| "gsv_svs F m (sv # svs) i =
     (if i < 4
      then if svType m = sv_type sv
           then let (ps, rest) = gsv_svs F m svs (i + 1)
                in ((True, CHR '','' # fmt_d 2 (sint (ucast (svId sv) + svIdOffset m)) @
                           CHR '','' # fmt_d 2 (sint (half_up F (elevation sv))) @
                           CHR '','' # fmt_d 3 (sint (half_up F (azimuth sv))) @ '','') #
                    (if positive F (cN0Dbhz sv) then [(True, fmt_d 2 (sint (half_up F (cN0Dbhz sv))))] else []) @ ps,
                    rest)
           else gsv_svs F m svs i
      else ([], sv # svs))"

definition gsv_header :: "loc_nmea_sv_meta \<Rightarrow> int \<Rightarrow> int \<Rightarrow> int \<Rightarrow> string" where
  "gsv_header m sentenceCount sentenceNumber svcount =
     CHR ''$'' # talker m @ ''GSV,'' @ fmt_d 0 sentenceCount @ CHR '','' # fmt_d 0 sentenceNumber @ CHR '','' # fmt_d 2 svcount"

text \<open>None is undefined behaviour; a formatting error ends the sequence of sentences.\<close>

function gsv_loop ::
  "'d nmea_fp \<Rightarrow> loc_nmea_sv_meta \<Rightarrow> int \<Rightarrow> int \<Rightarrow> 'd GnssSv list \<Rightarrow> string list option" where
  "gsv_loop F m sentenceCount sentenceNumber svs =
     (if sentenceNumber \<le> sentenceCount
      then let (ps, rest) = gsv_svs F m svs 0
           in case print_seq ((True, gsv_header m sentenceCount sentenceNumber (sint (svCount m))) # ps @
                              [(False, CHR '','' # fmt_d 0 (sint (signalId m)))]) fresh_buffer of
                Overrun \<Rightarrow> None
              | Format_Error \<Rightarrow> Some []
              | Printed w \<Rightarrow>
                  map_option (Cons (snd (loc_nmea_put_checksum (w_text w) NMEA_SENTENCE_MAX_LENGTH)))
                    (gsv_loop F m sentenceCount (sentenceNumber + 1) rest)
      else Some [])"
  by pat_completeness auto
termination
  by (relation "measure (\<lambda>(F, m, c, n, svs). nat (c + 1 - n))") auto

declare gsv_loop.simps [simp del]

definition loc_nmea_generate_GSV ::
  "'d nmea_fp \<Rightarrow> 'd GnssSv list \<Rightarrow> loc_nmea_sv_meta option \<Rightarrow> string list option" where
  "loc_nmea_generate_GSV F svs sv_meta_p =
     (case sv_meta_p of
        None \<Rightarrow> None
      | Some m \<Rightarrow>
          let count = sint (svCount m)
          in if count \<le> 0
             then (case print_seq [(False, CHR ''$'' # talker m @ ''GSV,1,1,0,'' @ fmt_d 0 (sint (signalId m)))] fresh_buffer of
                     Printed w \<Rightarrow> Some [snd (loc_nmea_put_checksum (w_text w) NMEA_SENTENCE_MAX_LENGTH)]
                   | _ \<Rightarrow> None)
             else gsv_loop F m (count sdiv 4 + (if count smod 4 \<noteq> 0 then 1 else 0)) 1 svs)"

definition count_sv :: "'d nmea_fp \<Rightarrow> 'd GnssSv \<Rightarrow> loc_sv_cache_info \<Rightarrow> loc_sv_cache_info" where
  "count_sv F sv c =
     (let used = gnssSvOptionsMask sv AND 4 = 4; bit1 = (if used then shift_one F (uint (svId sv) - 1) else 0)
      in case sv_type sv of
           GNSS_SV_TYPE_GPS \<Rightarrow> c\<lparr>gps_used_mask := gps_used_mask c OR bit1, gps_count := gps_count c + 1\<rparr>
         | GNSS_SV_TYPE_GLONASS \<Rightarrow> c\<lparr>glo_used_mask := glo_used_mask c OR bit1, glo_count := glo_count c + 1\<rparr>
         | GNSS_SV_TYPE_GALILEO \<Rightarrow> c\<lparr>gal_used_mask := gal_used_mask c OR bit1, gal_count := gal_count c + 1\<rparr>
         | GNSS_SV_TYPE_QZSS \<Rightarrow> c\<lparr>qzss_used_mask := qzss_used_mask c OR bit1, qzss_count := qzss_count c + 1\<rparr>
         | GNSS_SV_TYPE_BEIDOU \<Rightarrow> c\<lparr>bds_used_mask := bds_used_mask c OR bit1, bds_count := bds_count c + 1\<rparr>
         | _ \<Rightarrow> c)"

text \<open>The strings that are appended to nmeaArraystr.\<close>

definition loc_nmea_generate_sv :: "'d nmea_fp \<Rightarrow> 'd GnssSv list \<Rightarrow> string list option" where
  "loc_nmea_generate_sv F svs =
     (let c = fold (count_sv F) svs empty_cache_info;
          gsv = (\<lambda>t. loc_nmea_generate_GSV F svs (loc_nmea_sv_meta_init c t False))
      in case gsv GNSS_SV_TYPE_GPS of None \<Rightarrow> None | Some s1 \<Rightarrow>
         (case gsv GNSS_SV_TYPE_GLONASS of None \<Rightarrow> None | Some s2 \<Rightarrow>
         (case gsv GNSS_SV_TYPE_GALILEO of None \<Rightarrow> None | Some s3 \<Rightarrow>
         (case gsv GNSS_SV_TYPE_QZSS of None \<Rightarrow> None | Some s4 \<Rightarrow>
         (case gsv GNSS_SV_TYPE_BEIDOU of None \<Rightarrow> None | Some s5 \<Rightarrow> Some (s1 @ s2 @ s3 @ s4 @ s5))))))"

section \<open>GSA\<close>

record 'd UlpLocation =
  ul_flags :: "16 word"
  ul_latitude :: 'd
  ul_longitude :: 'd
  ul_altitude :: 'd
  speed :: 'd
  bearing :: 'd
  timestamp :: int

record 'd GpsLocationExtended =
  ext_flags :: u32
  altitudeMeanSeaLevel :: 'd
  pdop :: 'd
  hdop :: 'd
  vdop :: 'd
  magneticDeviation :: 'd
  gps_sv_used_ids_mask :: "64 word"
  glo_sv_used_ids_mask :: "64 word"
  gal_sv_used_ids_mask :: "64 word"
  bds_sv_used_ids_mask :: "64 word"
  qzss_sv_used_ids_mask :: "64 word"
  navSolutionMask :: u32
  tech_mask :: u32

definition HAS_DOP :: u32 where "HAS_DOP = 0x1"
definition HAS_ALTITUDE_MEAN_SEA_LEVEL :: u32 where "HAS_ALTITUDE_MEAN_SEA_LEVEL = 0x2"
definition HAS_MAG_DEV :: u32 where "HAS_MAG_DEV = 0x4"
definition HAS_GNSS_SV_USED_DATA :: u32 where "HAS_GNSS_SV_USED_DATA = 0x1000"

text \<open>The loop over the mask; the counter i is a uint8_t.\<close>

function sv_used_loop :: "u32 \<Rightarrow> u32 \<Rightarrow> 8 word \<Rightarrow> u32 list \<Rightarrow> u32 list" where
  "sv_used_loop offset m i used =
     (if m \<noteq> 0 \<and> length used < 32
      then sv_used_loop offset (drop_bit 1 m) (i + 1) (if m AND 1 \<noteq> 0 then used @ [ucast i + offset] else used)
      else used)"
  by pat_completeness auto
termination
  by (relation "measure (\<lambda>(offset, m, i, used). unat m)") (auto simp: drop_bit_eq_div unat_div unat_gt_0)

declare sv_used_loop.simps [simp del]

definition dop_fields :: "'d nmea_fp \<Rightarrow> 'd GpsLocationExtended \<Rightarrow> string" where
  "dop_fields F ext =
     (if ext_flags ext AND HAS_DOP \<noteq> 0
      then fmt_1f F (pdop ext) @ CHR '','' # fmt_1f F (hdop ext) @ CHR '','' # fmt_1f F (vdop ext) @ '',''
      else '',,,'')"

text \<open>The count and the sentences appended.\<close>

definition loc_nmea_generate_GSA ::
  "'d nmea_fp \<Rightarrow> 'd GpsLocationExtended \<Rightarrow> loc_nmea_sv_meta option \<Rightarrow> (nat \<times> string list) option" where
  "loc_nmea_generate_GSA F ext sv_meta_p =
     (case sv_meta_p of
        None \<Rightarrow> Some (0, [])
      | Some m \<Rightarrow>
          let used = sv_used_loop (svIdOffset m) (used_mask m) 1 []; svUsedCount = length used;
              fixType = (if svUsedCount = 0 then CHR ''1'' else if svUsedCount \<le> 3 then CHR ''2'' else CHR ''3'')
          in if svUsedCount = 0 \<and> GNSS_SV_TYPE_GPS \<noteq> svType m then Some (0, [])
             else case print_seq
                    ((True, CHR ''$'' # talker m @ ''GSA,A,'' @ [fixType, CHR '','']) #
                     map (\<lambda>i. (True, if i < svUsedCount then fmt_d 2 (sint (used ! i)) @ '','' else '','')) [0 ..< 12] @
                     [(False, dop_fields F ext), (False, fmt_d 0 (sint (systemId m)))]) fresh_buffer of
                    Overrun \<Rightarrow> None
                  | Format_Error \<Rightarrow> Some (0, [])
                  | Printed w \<Rightarrow> Some (svUsedCount, [snd (loc_nmea_put_checksum (w_text w) NMEA_SENTENCE_MAX_LENGTH)]))"

section \<open>Positions\<close>

record tm =
  tm_year :: int
  tm_mon :: int
  tm_mday :: int
  tm_hour :: int
  tm_min :: int
  tm_sec :: int

definition HAS_LAT_LONG :: "16 word" where "HAS_LAT_LONG = 1"
definition HAS_ALTITUDE :: "16 word" where "HAS_ALTITUDE = 2"
definition HAS_SPEED :: "16 word" where "HAS_SPEED = 4"
definition HAS_BEARING :: "16 word" where "HAS_BEARING = 8"

definition used_ids :: "'d GpsLocationExtended \<Rightarrow> loc_sv_cache_info" where
  "used_ids ext =
     (if HAS_GNSS_SV_USED_DATA AND ext_flags ext \<noteq> 0
      then empty_cache_info\<lparr>gps_used_mask := ucast (gps_sv_used_ids_mask ext),
                            glo_used_mask := ucast (glo_sv_used_ids_mask ext),
                            gal_used_mask := ucast (gal_sv_used_ids_mask ext),
                            qzss_used_mask := ucast (bds_sv_used_ids_mask ext),
                            bds_used_mask := ucast (qzss_sv_used_ids_mask ext)\<rparr>
      else empty_cache_info)"

text \<open>The five GSA sentences: the talker and the number of satellites used are carried along.\<close>

fun gsa_all ::
  "'d nmea_fp \<Rightarrow> 'd GpsLocationExtended \<Rightarrow> loc_sv_cache_info \<Rightarrow> (GnssSvType \<times> bool) list \<Rightarrow> string \<Rightarrow> nat \<Rightarrow>
   (string \<times> nat \<times> string list) option" where
  "gsa_all F ext c [] tk used = Some (tk, used, [])"
| "gsa_all F ext c ((t, combine) # ts) tk used =
     (let meta = loc_nmea_sv_meta_init c t combine
      in case loc_nmea_generate_GSA F ext meta of
           None \<Rightarrow> None
         | Some (n, out) \<Rightarrow>
             let (tk', used') = (if 0 < n then (if combine then talker (the meta) else tk, used + n) else (tk, used))
             in map_option (\<lambda>(tk, n, out'). (tk, n, out @ out')) (gsa_all F ext c ts tk' used'))"

definition position_fields :: "'d nmea_fp \<Rightarrow> 'd UlpLocation \<Rightarrow> string" where
  "position_fields F l =
     (if ul_flags l AND HAS_LAT_LONG \<noteq> 0
      then let (latHemisphere, latitude) =
                 (if positive F (ul_latitude l) then (CHR ''N'', ul_latitude l) else (CHR ''S'', negate F (ul_latitude l)));
               (lonHemisphere, longitude) =
                 (if negative F (ul_longitude l) then (CHR ''W'', negate F (ul_longitude l)) else (CHR ''E'', ul_longitude l))
           in fmt_d 2 (uint (floor8 F latitude)) @ fmt_09_6f F (minutes F latitude) @ [CHR '','', latHemisphere, CHR '',''] @
              fmt_d 3 (uint (floor8 F longitude)) @ fmt_09_6f F (minutes F longitude) @ [CHR '','', lonHemisphere, CHR '','']
      else '',,,,'')"

definition mode_char :: "char \<Rightarrow> char \<Rightarrow> char \<Rightarrow> char \<Rightarrow> 'd UlpLocation \<Rightarrow> 'd GpsLocationExtended \<Rightarrow> char" where
  "mode_char none differential estimated autonomous l ext =
     (if ul_flags l AND HAS_LAT_LONG = 0 then none
      else if 1 AND navSolutionMask ext \<noteq> 0 then differential
      else if 8 = tech_mask ext then estimated
      else autonomous)"

definition vtg_prints :: "'d nmea_fp \<Rightarrow> 'd UlpLocation \<Rightarrow> 'd GpsLocationExtended \<Rightarrow> string \<Rightarrow> (bool \<times> string) list" where
  "vtg_prints F l ext tk =
     [(True, if ul_flags l AND HAS_BEARING \<noteq> 0
             then CHR ''$'' # tk @ ''VTG,'' @ fmt_1f F (bearing l) @ '',T,'' @ fmt_1f F (bearing l) @ '',M,''
             else CHR ''$'' # tk @ ''VTG,,T,,M,''),
      (True, if ul_flags l AND HAS_SPEED \<noteq> 0
             then fmt_1f F (knots F (speed l)) @ '',N,'' @ fmt_1f F (km_per_hour F (speed l)) @ '',K,''
             else '',N,,K,''),
      (False, [mode_char CHR ''N'' CHR ''D'' CHR ''E'' CHR ''A'' l ext])]"

definition time_fields :: "tm \<Rightarrow> int \<Rightarrow> string" where
  "time_fields pTm utcMSeconds =
     fmt_d 2 (tm_hour pTm) @ fmt_d 2 (tm_min pTm) @ fmt_d 2 (tm_sec pTm) @ CHR ''.'' # fmt_d 2 (utcMSeconds sdiv 10) @ '',''"

definition rmc_prints ::
  "'d nmea_fp \<Rightarrow> 'd UlpLocation \<Rightarrow> 'd GpsLocationExtended \<Rightarrow> tm \<Rightarrow> int \<Rightarrow> string \<Rightarrow> (bool \<times> string) list" where
  "rmc_prints F l ext pTm ms tk =
     [(True, CHR ''$'' # tk @ ''RMC,'' @ time_fields pTm ms @ ''A,''),
      (True, position_fields F l),
      (True, if ul_flags l AND HAS_SPEED \<noteq> 0 then fmt_1f F (knots F (speed l)) @ '','' else '',''),
      (True, if ul_flags l AND HAS_BEARING \<noteq> 0 then fmt_1f F (bearing l) @ '','' else '',''),
      (True, fmt_d 2 (tm_mday pTm) @ fmt_d 2 (tm_mon pTm + 1) @ fmt_d 2 (tm_year pTm smod 100) @ '',''),
      (True, if ext_flags ext AND HAS_MAG_DEV \<noteq> 0
             then if negative F (magneticDeviation ext)
                  then fmt_1f F (negate F (magneticDeviation ext)) @ '',W,''
                  else fmt_1f F (magneticDeviation ext) @ '',E,''
             else '',,''),
      (False, [mode_char CHR ''N'' CHR ''D'' CHR ''E'' CHR ''A'' l ext]),
      (False, '',V'')]"

definition gga_prints ::
  "'d nmea_fp \<Rightarrow> 'd UlpLocation \<Rightarrow> 'd GpsLocationExtended \<Rightarrow> tm \<Rightarrow> int \<Rightarrow> string \<Rightarrow> nat \<Rightarrow> (bool \<times> string) list" where
  "gga_prints F l ext pTm ms tk svUsedCount =
     [(True, CHR ''$'' # tk @ ''GGA,'' @ time_fields pTm ms),
      (True, position_fields F l),
      (True, [mode_char CHR ''0'' CHR ''2'' CHR ''6'' CHR ''1'' l ext, CHR '',''] @ fmt_d 2 (int (min 12 svUsedCount)) @
             (if ext_flags ext AND HAS_DOP \<noteq> 0 then CHR '','' # fmt_1f F (hdop ext) @ '','' else '',,'')),
      (True, if ext_flags ext AND HAS_ALTITUDE_MEAN_SEA_LEVEL \<noteq> 0
             then fmt_1f F (altitudeMeanSeaLevel ext) @ '',M,'' else '',,''),
      (False, if ul_flags l AND HAS_ALTITUDE \<noteq> 0 \<and> ext_flags ext AND HAS_ALTITUDE_MEAN_SEA_LEVEL \<noteq> 0
              then fmt_1f F (fp_minus F (ul_altitude l) (altitudeMeanSeaLevel ext)) @ '',M,,'' else '',,,'')]"

text \<open>The sentences printed one after the other until a formatting error.\<close>

fun print_all :: "(bool \<times> string) list list \<Rightarrow> string list option" where
  "print_all [] = Some []"
| "print_all (ps # pss) =
     (case print_seq ps fresh_buffer of
        Overrun \<Rightarrow> None
      | Format_Error \<Rightarrow> Some []
      | Printed w \<Rightarrow>
          map_option (Cons (snd (loc_nmea_put_checksum (w_text w) NMEA_SENTENCE_MAX_LENGTH))) (print_all pss))"

definition blank_sentences :: "string list" where
  "blank_sentences =
     [''$GPGSA,A,1,,,,,,,,,,,,,,,'', ''$GNGSA,A,1,,,,,,,,,,,,,,,'', ''$PQGSA,A,1,,,,,,,,,,,,,,,'',
      ''$GPVTG,,T,,M,,N,,K,N'', ''$GPRMC,,V,,,,,,,,,,N,V'', ''$GPGGA,,,,,,0,,,,,,,,'']"

definition loc_nmea_generate_pos ::
  "'d nmea_fp \<Rightarrow> (int \<Rightarrow> tm option) \<Rightarrow> 'd UlpLocation \<Rightarrow> 'd GpsLocationExtended \<Rightarrow> bool \<Rightarrow> string list option" where
  "loc_nmea_generate_pos F gmtime l ext generate_nmea =
     (case gmtime (timestamp l sdiv 1000) of
        None \<Rightarrow> Some []
      | Some pTm \<Rightarrow>
          if generate_nmea
          then case gsa_all F ext (used_ids ext)
                 [(GNSS_SV_TYPE_GPS, True), (GNSS_SV_TYPE_GLONASS, True), (GNSS_SV_TYPE_GALILEO, True),
                  (GNSS_SV_TYPE_QZSS, False), (GNSS_SV_TYPE_BEIDOU, False)] ''GP'' 0 of
                 None \<Rightarrow> None
               | Some (tk, svUsedCount, out) \<Rightarrow>
                   let ms = timestamp l smod 1000
                   in map_option (append out)
                        (print_all [vtg_prints F l ext tk, rmc_prints F l ext pTm ms tk,
                                    gga_prints F l ext pTm ms tk svUsedCount])
          else Some (map (\<lambda>s. snd (loc_nmea_put_checksum s NMEA_SENTENCE_MAX_LENGTH)) blank_sentences))"

end
