(* ===== verification/Nmea_Gen_Props.thy ===== *)
theory Nmea_Gen_Props
  imports Nmea_Gen
begin

text \<open>
  The correctness of the NMEA generator: everything fits the buffer, so that each sentence ends with a valid
  checksum, and the GSV sentences list every satellite in view exactly once, four in a sentence.
\<close>

unbundle bit_operations_syntax

section \<open>Lengths and characters of numbers\<close>

lemma dec_length: "n < 10 ^ k \<Longrightarrow> 0 < k \<Longrightarrow> length (dec n) \<le> k"
proof (induction n arbitrary: k rule: dec.induct)
  case (1 n)
  show ?case
  proof (cases "n < 10")
    case True
    then show ?thesis using "1.prems" by (simp add: dec.simps [of n])
  next
    case False
    obtain j where k: "k = Suc j" using "1.prems"(2) by (cases k) auto
    have "0 < j" using "1.prems"(1) False k by (cases j) auto
    moreover have "n div 10 < 10 ^ j" using "1.prems"(1) k by (simp add: less_mult_imp_div_less mult.commute)
    ultimately show ?thesis using "1.IH" False k by (simp add: dec.simps [of n])
  qed
qed

definition is_num_char :: "char \<Rightarrow> bool" where
  "is_num_char c \<longleftrightarrow> c = CHR ''-'' \<or> 48 \<le> (of_char c :: nat) \<and> (of_char c :: nat) \<le> 57"

lemma num_char_of: "(n :: nat) < 10 \<Longrightarrow> is_num_char (char_of (48 + n))"
  by (simp add: is_num_char_def)

lemma dec_chars: "list_all is_num_char (dec n)"
  by (induction n rule: dec.induct) (subst dec.simps, simp add: num_char_of)

lemma fmt_d_chars: "list_all is_num_char (fmt_d w i)"
proof -
  have "is_num_char (CHR ''0'')" "is_num_char (CHR ''-'')" by (simp_all add: is_num_char_def)
  then show ?thesis using dec_chars by (auto simp: fmt_d_def zero_pad_def list_all_iff)
qed

lemma fmt_d_length:
  "0 \<le> i \<Longrightarrow> i < 10 ^ k \<Longrightarrow> w \<le> k \<Longrightarrow> 0 < k \<Longrightarrow> length (fmt_d w i) \<le> k"
  "\<bar>i\<bar> < 10 ^ k \<Longrightarrow> w \<le> k + 1 \<Longrightarrow> 0 < k \<Longrightarrow> length (fmt_d w i) \<le> k + 1"
proof -
  have *: "length (dec (nat j)) \<le> k" if "0 \<le> j" "j < 10 ^ k" "0 < k" for j :: int and k
    using that by (intro dec_length) (simp_all add: nat_less_iff)
  show "0 \<le> i \<Longrightarrow> i < 10 ^ k \<Longrightarrow> w \<le> k \<Longrightarrow> 0 < k \<Longrightarrow> length (fmt_d w i) \<le> k"
    using * [of i k] by (simp add: fmt_d_def zero_pad_def)
  assume "\<bar>i\<bar> < 10 ^ k" "w \<le> k + 1" "0 < k"
  then show "length (fmt_d w i) \<le> k + 1"
    using * [of i k] * [of "- i" k] by (cases "i < 0") (simp_all add: fmt_d_def zero_pad_def)
qed

lemma fmt_sint_length: "w \<le> 11 \<Longrightarrow> length (fmt_d w (sint (x :: u32))) \<le> 11"
proof -
  assume w: "w \<le> 11"
  have "- (2 ^ 31) \<le> sint x" "sint x < 2 ^ 31" using sint_greater_eq [of x] sint_less [of x] by simp_all
  then have "\<bar>sint x\<bar> < 10 ^ 10" by (simp add: abs_less_iff)
  then show ?thesis using fmt_d_length(2) [of "sint x" 10 w] w by simp
qed

section \<open>Printing into the buffer\<close>

lemma print_seq_fits:
  "int (length (concat (map snd ps))) < lengthRemaining w \<Longrightarrow>
   print_seq ps w = Printed \<lparr>w_text = w_text w @ concat (map snd ps),
                             lengthRemaining = lengthRemaining w - int (length (concat (map snd ps)))\<rparr>"
proof (induction ps arbitrary: w)
  case (Cons p ps)
  obtain check s where p: "p = (check, s)" by (cases p)
  have "length s \<le> nat (lengthRemaining w) - 1" using Cons.prems p by simp
  moreover have "int (length s) < lengthRemaining w" using Cons.prems p by simp
  ultimately show ?case using Cons.prems by (simp add: p Cons.IH)
qed simp

text \<open>A complete sentence: dollar, body, star, the checksum of the body, end of line.\<close>

definition nmea_frame :: "string \<Rightarrow> string" where
  "nmea_frame b = CHR ''$'' # b @ checksum_text (xor_chars b)"

lemma put_checksum_fits: "length b < 194 \<Longrightarrow> snd (loc_nmea_put_checksum (CHR ''$'' # b) 200) = nmea_frame b"
  by (simp add: loc_nmea_put_checksum_def nmea_frame_def checksum_text_def fmt_02X_def Let_def)

text \<open>What a receiver accepts: the body, if the checksum matches.\<close>

definition nmea_body :: "string \<Rightarrow> string option" where
  "nmea_body s =
     (let t = tl s; b = takeWhile (\<lambda>c. c \<noteq> CHR ''*'') t
      in if s \<noteq> [] \<and> hd s = CHR ''$'' \<and> dropWhile (\<lambda>c. c \<noteq> CHR ''*'') t = checksum_text (xor_chars b) then Some b
         else None)"

lemma nmea_body_frame: "CHR ''*'' \<notin> set b \<Longrightarrow> nmea_body (nmea_frame b) = Some b"
proof -
  assume "CHR ''*'' \<notin> set b"
  then have "takeWhile (\<lambda>c. c \<noteq> CHR ''*'') (b @ checksum_text c) = b"
    "dropWhile (\<lambda>c. c \<noteq> CHR ''*'') (b @ checksum_text c) = checksum_text c" for c
    by (auto simp: takeWhile_append dropWhile_append checksum_text_def)
  then show ?thesis by (simp add: nmea_body_def nmea_frame_def Let_def)
qed

section \<open>GSV\<close>

fun chunks4 :: "'a list \<Rightarrow> 'a list list" where
  "chunks4 [] = []"
| "chunks4 (x # xs) = take 4 (x # xs) # chunks4 (drop 3 xs)"

lemma chunks4_unfold: "xs \<noteq> [] \<Longrightarrow> chunks4 xs = take 4 xs # chunks4 (drop 4 xs)"
  by (cases xs) simp_all

lemma quarter_step:
  "Suc ((n - 3) div 4 + (if (n - 3) mod 4 \<noteq> 0 then 1 else 0)) = Suc n div 4 + (if Suc n mod 4 \<noteq> 0 then 1 else (0 :: nat))"
  by presburger

lemma chunks4_length: "length (chunks4 xs) = length xs div 4 + (if length xs mod 4 \<noteq> 0 then 1 else 0)"
proof (induction xs rule: chunks4.induct)
  case (2 x xs)
  then show ?case using quarter_step [of "length xs"] by (simp only: chunks4.simps length_Cons length_drop)
qed simp

lemma concat_chunks4: "concat (chunks4 xs) = xs"
  by (induction xs rule: chunks4.induct) (simp_all add: append_take_drop_id [of 3, symmetric])

text \<open>What is printed for one satellite.\<close>

definition sv_text :: "'d nmea_fp \<Rightarrow> u32 \<Rightarrow> 'd GnssSv \<Rightarrow> string" where
  "sv_text F offset sv =
     CHR '','' # fmt_d 2 (sint (ucast (svId sv) + offset)) @ CHR '','' # fmt_d 2 (sint (half_up F (elevation sv))) @
     CHR '','' # fmt_d 3 (sint (half_up F (azimuth sv))) @ CHR '','' #
     (if positive F (cN0Dbhz sv) then fmt_d 2 (sint (half_up F (cN0Dbhz sv))) else [])"

lemma gsv_svs_text:
  "gsv_svs F m svs i = (ps, rest) \<Longrightarrow> i \<le> 4 \<Longrightarrow>
   concat (map snd ps) = concat (map (sv_text F (svIdOffset m)) (take (4 - i) (filter (\<lambda>sv. svType m = sv_type sv) svs))) \<and>
   filter (\<lambda>sv. svType m = sv_type sv) rest = drop (4 - i) (filter (\<lambda>sv. svType m = sv_type sv) svs)"
proof (induction F m svs i arbitrary: ps rest rule: gsv_svs.induct)
  case (2 F m sv svs i)
  show ?case
  proof (cases "i < 4 \<and> svType m = sv_type sv")
    case True
    obtain ps' where r: "gsv_svs F m svs (i + 1) = (ps', rest)"
      using "2.prems"(1) True by (auto split: prod.splits)
    have "Suc (4 - (i + 1)) = 4 - i" using True by arith
    then show ?thesis
      using "2.IH"(1) [of ps' rest] r "2.prems" True
      by (auto simp: sv_text_def take_Cons' drop_Cons' split: prod.splits)
  next
    case False
    with 2 show ?thesis by (auto split: if_splits)
  qed
qed simp

lemma sint_small:
  assumes "unat (x :: u32) < 2 ^ 31"
  shows "sint x = int (unat x)"
proof -
  have x: "uint x = int (unat x)" by simp
  have "int (unat x) < int (2 ^ 31)" using assms by (simp only: of_nat_less_iff)
  then have "0 \<le> uint x" "uint x < 2 ^ 31" by simp_all
  then have "signed_take_bit 31 (uint x) = uint x" by (intro signed_take_bit_int_eq_self) linarith+
  then show ?thesis unfolding x [symmetric] by (simp add: sint_uint)
qed

lemma sv_id_value:
  assumes "offset \<le> (64 :: u32)"
  shows "0 \<le> sint (ucast (i :: 16 word) + offset)" "sint (ucast i + offset) < 10 ^ 5"
proof -
  have i: "unat i < 65536" using unsigned_less [of i] by simp
  have o: "unat offset \<le> 64" using assms by (simp add: word_le_nat_alt)
  have u: "unat (ucast i :: u32) = unat i" using i by (simp add: unsigned_ucast_eq take_bit_nat_eq_self)
  have n: "unat (ucast i + offset) = unat i + unat offset"
    using i o u by (simp add: unat_word_ariths)
  have e: "sint (ucast i + offset) = int (unat (ucast i + offset))"
    using i o n by (intro sint_small) simp
  have "int (unat i + unat offset) < int (10 ^ 5)" using i o by (simp only: of_nat_less_iff) simp
  then show "0 \<le> sint (ucast i + offset)" "sint (ucast i + offset) < 10 ^ 5" unfolding e n by simp_all
qed

lemma sv_text_length: "offset \<le> 64 \<Longrightarrow> length (sv_text F offset sv) \<le> 42"
  using fmt_d_length(1) [OF sv_id_value, of offset 2 "svId sv"] fmt_sint_length [of 2 "half_up F (elevation sv)"]
    fmt_sint_length [of 3 "half_up F (azimuth sv)"] fmt_sint_length [of 2 "half_up F (cN0Dbhz sv)"]
  by (simp add: sv_text_def)

text \<open>The specification: the sentences of one kind of satellites.\<close>

definition gsv_text :: "'d nmea_fp \<Rightarrow> loc_nmea_sv_meta \<Rightarrow> nat \<Rightarrow> nat \<Rightarrow> nat \<Rightarrow> 'd GnssSv list \<Rightarrow> string" where
  "gsv_text F m ntotal n seen svs =
     talker m @ ''GSV,'' @ fmt_d 0 (int ntotal) @ CHR '','' # fmt_d 0 (int n) @ CHR '','' # fmt_d 2 (int seen) @
     concat (map (sv_text F (svIdOffset m)) svs) @ CHR '','' # fmt_d 0 (sint (signalId m))"

fun gsv_texts :: "'d nmea_fp \<Rightarrow> loc_nmea_sv_meta \<Rightarrow> nat \<Rightarrow> nat \<Rightarrow> nat \<Rightarrow> 'd GnssSv list list \<Rightarrow> string list" where
  "gsv_texts F m ntotal n seen [] = []"
| "gsv_texts F m ntotal n seen (svs # svss) = gsv_text F m ntotal n seen svs # gsv_texts F m ntotal (n + 1) seen svss"

definition meta_ok :: "loc_nmea_sv_meta \<Rightarrow> bool" where
  "meta_ok m \<longleftrightarrow> length (talker m) = 2 \<and> svIdOffset m \<le> 64 \<and> signalId m \<in> {0, 1, 7} \<and> CHR ''*'' \<notin> set (talker m)"

lemma signal_length: "meta_ok m \<Longrightarrow> length (fmt_d 0 (sint (signalId m))) = 1"
  by (auto simp: meta_ok_def fmt_d_def zero_pad_def dec.simps)

lemma concat_sv_length:
  assumes "offset \<le> 64" "length svs \<le> 4"
  shows "length (concat (map (sv_text F offset) svs)) \<le> 168"
proof -
  have "length (concat (map (sv_text F offset) svs)) \<le> 42 * length svs"
    using sv_text_length [OF assms(1), of F] by (induction svs) (simp_all add: add_mono)
  then show ?thesis using assms(2) by simp
qed

lemma gsv_text_length:
  assumes "meta_ok m" "ntotal < 100" "n < 100" "seen < 100" "length svs \<le> 4"
  shows "length (gsv_text F m ntotal n seen svs) < 194"
proof -
  have "length (fmt_d w (int k)) \<le> 2" if "k < 100" "w \<le> 2" for k w
    using fmt_d_length(1) [of "int k" 2 w] that by simp
  then have "length (fmt_d 0 (int ntotal)) \<le> 2" "length (fmt_d 0 (int n)) \<le> 2" "length (fmt_d 2 (int seen)) \<le> 2"
    using assms by simp_all
  then show ?thesis
    using concat_sv_length [of "svIdOffset m" svs F] signal_length [OF assms(1)] assms(1,5)
    by (simp add: gsv_text_def meta_ok_def)
qed

lemma gsv_step:
  assumes "meta_ok m" "ntotal < 100" "n < 100" "sint (svCount m) = int seen" "seen < 100"
    and "gsv_svs F m svs 0 = (ps, rest)"
  shows "\<exists>room. print_seq ((True, gsv_header m (int ntotal) (int n) (sint (svCount m))) # ps @
      [(False, CHR '','' # fmt_d 0 (sint (signalId m)))]) fresh_buffer =
    Printed \<lparr>w_text = CHR ''$'' # gsv_text F m ntotal n seen (take 4 (filter (\<lambda>sv. svType m = sv_type sv) svs)),
             lengthRemaining = room\<rparr>"
proof -
  let ?ps = "(True, gsv_header m (int ntotal) (int n) (sint (svCount m))) # ps @ [(False, CHR '','' # fmt_d 0 (sint (signalId m)))]"
  let ?t = "gsv_text F m ntotal n seen (take 4 (filter (\<lambda>sv. svType m = sv_type sv) svs))"
  have all: "concat (map snd ?ps) = CHR ''$'' # ?t"
    using gsv_svs_text [OF assms(6)] assms(4) by (simp add: gsv_header_def gsv_text_def)
  have "length ?t < 194" using assms by (intro gsv_text_length) simp_all
  then have "int (length (concat (map snd ?ps))) < 200" unfolding all by simp
  then show ?thesis using print_seq_fits [of ?ps fresh_buffer] unfolding all by simp
qed

lemma gsv_loop_texts:
  assumes "meta_ok m" "ntotal < 100" "sint (svCount m) = int seen" "seen < 100"
  shows
    "ntotal + 1 = n + length (chunks4 (filter (\<lambda>sv. svType m = sv_type sv) svs)) \<Longrightarrow>
    gsv_loop F m (int ntotal) (int n) svs =
    Some (map nmea_frame (gsv_texts F m ntotal n seen (chunks4 (filter (\<lambda>sv. svType m = sv_type sv) svs))))"
proof (induction "ntotal + 1 - n" arbitrary: n svs)
  case 0
  then have "chunks4 (filter (\<lambda>sv. svType m = sv_type sv) svs) = []" "\<not> int n \<le> int ntotal" by auto
  then show ?case by (simp add: gsv_loop.simps [of F m "int ntotal"])
next
  case (Suc k)
  let ?vis = "filter (\<lambda>sv. svType m = sv_type sv)"
  obtain ps rest where r: "gsv_svs F m svs 0 = (ps, rest)" by fastforce
  have rest: "?vis rest = drop 4 (?vis svs)" using gsv_svs_text [OF r] by simp
  have ne: "?vis svs \<noteq> []" using Suc.hyps(2) Suc.prems by auto
  note chunks = chunks4_unfold [OF ne]
  have le: "n \<le> ntotal" "n < 100" using Suc.hyps(2) assms(2) by arith+
  have "gsv_loop F m (int ntotal) (int (n + 1)) rest =
    Some (map nmea_frame (gsv_texts F m ntotal (n + 1) seen (chunks4 (?vis rest))))"
    using Suc.hyps(2) Suc.prems chunks rest by (intro Suc.hyps(1)) (simp_all)
  moreover obtain room where "print_seq ((True, gsv_header m (int ntotal) (int n) (sint (svCount m))) # ps @
      [(False, CHR '','' # fmt_d 0 (sint (signalId m)))]) fresh_buffer =
    Printed \<lparr>w_text = CHR ''$'' # gsv_text F m ntotal n seen (take 4 (?vis svs)), lengthRemaining = room\<rparr>"
    using gsv_step [OF assms(1,2) le(2) assms(3,4) r] by blast
  moreover have "length (gsv_text F m ntotal n seen (take 4 (?vis svs))) < 194"
    using assms le by (intro gsv_text_length) simp_all
  ultimately show ?case
    using le r rest chunks
    by (subst gsv_loop.simps) (simp add: put_checksum_fits add.commute)
qed

text \<open>The talker, the offset of the ids and the signal of each constellation.\<close>

definition gsv_kind :: "GnssSvType \<Rightarrow> loc_nmea_sv_meta" where
  "gsv_kind t =
     (let (tk, off, sig) =
            (case t of
               GNSS_SV_TYPE_GLONASS \<Rightarrow> (''GL'', 64, 1)
             | GNSS_SV_TYPE_GALILEO \<Rightarrow> (''GA'', 0, 7)
             | GNSS_SV_TYPE_QZSS \<Rightarrow> (''PQ'', 0, 0)
             | GNSS_SV_TYPE_BEIDOU \<Rightarrow> (''PQ'', 0, 0)
             | _ \<Rightarrow> (''GP'', 0, 1))
      in \<lparr>talker = tk, svType = t, used_mask = 0, svCount = 0, svIdOffset = off, signalId = sig, systemId = 0\<rparr>)"

definition gsv_spec :: "'d nmea_fp \<Rightarrow> 'd GnssSv list \<Rightarrow> GnssSvType \<Rightarrow> string list" where
  "gsv_spec F svs t =
     (let m = gsv_kind t; vis = filter (\<lambda>sv. sv_type sv = t) svs
      in if vis = [] then [nmea_frame (talker m @ ''GSV,1,1,0,'' @ fmt_d 0 (sint (signalId m)))]
         else map nmea_frame (gsv_texts F m (length (chunks4 vis)) 1 (length vis) (chunks4 vis)))"

abbreviation (input) gsv_types :: "GnssSvType list" where
  "gsv_types \<equiv> [GNSS_SV_TYPE_GPS, GNSS_SV_TYPE_GLONASS, GNSS_SV_TYPE_GALILEO, GNSS_SV_TYPE_QZSS, GNSS_SV_TYPE_BEIDOU]"

lemma fold_count_sv:
  "gps_count (fold (count_sv F) svs c) = gps_count c + of_nat (length (filter (\<lambda>sv. sv_type sv = GNSS_SV_TYPE_GPS) svs))"
  "glo_count (fold (count_sv F) svs c) = glo_count c + of_nat (length (filter (\<lambda>sv. sv_type sv = GNSS_SV_TYPE_GLONASS) svs))"
  "gal_count (fold (count_sv F) svs c) = gal_count c + of_nat (length (filter (\<lambda>sv. sv_type sv = GNSS_SV_TYPE_GALILEO) svs))"
  "qzss_count (fold (count_sv F) svs c) = qzss_count c + of_nat (length (filter (\<lambda>sv. sv_type sv = GNSS_SV_TYPE_QZSS) svs))"
  "bds_count (fold (count_sv F) svs c) = bds_count c + of_nat (length (filter (\<lambda>sv. sv_type sv = GNSS_SV_TYPE_BEIDOU) svs))"
  by (induction svs arbitrary: c) (simp_all add: count_sv_def Let_def split: GnssSvType.split)

lemma gsv_texts_cong:
  "talker m = talker m' \<Longrightarrow> svIdOffset m = svIdOffset m' \<Longrightarrow> signalId m = signalId m' \<Longrightarrow>
   gsv_texts F m ntotal n seen svss = gsv_texts F m' ntotal n seen svss"
  by (induction svss arbitrary: n) (simp_all add: gsv_text_def)

lemma gsv_meta:
  assumes "t \<in> set gsv_types"
  shows "\<exists>m. loc_nmea_sv_meta_init (fold (count_sv F) svs empty_cache_info) t False = Some m \<and> meta_ok m \<and>
    svType m = t \<and> talker m = talker (gsv_kind t) \<and> svIdOffset m = svIdOffset (gsv_kind t) \<and>
    signalId m = signalId (gsv_kind t) \<and> svCount m = of_nat (length (filter (\<lambda>sv. sv_type sv = t) svs))"
  using assms unfolding list.set
  by (elim insertE emptyE)
    (simp_all add: loc_nmea_sv_meta_init_def gsv_kind_def meta_ok_def fold_count_sv empty_cache_info_def)

lemma quarters: "int k sdiv 4 = int (k div 4)" "int k smod 4 = int (k mod 4)"
  by (simp_all add: signed_divide_int_def signed_modulo_int_def sgn_if zdiv_int zmod_int)

lemma gsv_constellation:
  assumes "length svs \<le> 64" "t \<in> set gsv_types"
  shows "loc_nmea_generate_GSV F svs (loc_nmea_sv_meta_init (fold (count_sv F) svs empty_cache_info) t False) =
    Some (gsv_spec F svs t)"
proof -
  let ?vis = "filter (\<lambda>sv. sv_type sv = t) svs"
  obtain m where m: "loc_nmea_sv_meta_init (fold (count_sv F) svs empty_cache_info) t False = Some m" "meta_ok m"
    "svType m = t" "talker m = talker (gsv_kind t)" "svIdOffset m = svIdOffset (gsv_kind t)"
    "signalId m = signalId (gsv_kind t)" "svCount m = of_nat (length ?vis)"
    using gsv_meta [OF assms(2), of F svs] by blast
  have len: "length ?vis \<le> 64" using assms(1) length_filter_le [of _ svs] by (rule le_trans [rotated])
  have count: "sint (svCount m) = int (length ?vis)"
    using len unfolding m(7) by (subst sint_small) (simp_all add: unsigned_of_nat take_bit_nat_eq_self)
  have vis: "filter (\<lambda>sv. svType m = sv_type sv) svs = ?vis" unfolding m(3) by (intro filter_cong) auto
  show ?thesis
  proof (cases "?vis = []")
    case True
    have "length (talker m) = 2" using m(2) by (simp add: meta_ok_def)
    then have l: "length (talker m @ ''GSV,1,1,0,'' @ fmt_d 0 (sint (signalId m))) < 194"
      using signal_length [OF m(2)] by simp
    show ?thesis
      using True count l put_checksum_fits [OF l] m(1,4,6)
      by (simp add: loc_nmea_generate_GSV_def gsv_spec_def Let_def)
  next
    case False
    have n: "int (length ?vis) sdiv 4 + (if int (length ?vis) smod 4 \<noteq> 0 then 1 else 0) = int (length (chunks4 ?vis))"
      unfolding chunks4_length quarters by simp
    have "length ?vis div 4 \<le> 16" using div_le_mono [OF len, of 4] by simp
    then have "length (chunks4 ?vis) < 100" unfolding chunks4_length by (auto split: if_splits)
    then have "gsv_loop F m (int (length (chunks4 ?vis))) (int 1) svs =
      Some (map nmea_frame (gsv_texts F m (length (chunks4 ?vis)) 1 (length ?vis) (chunks4 ?vis)))"
      using gsv_loop_texts [OF m(2) _ count, of "length (chunks4 ?vis)" 1 svs F] len vis by simp
    then show ?thesis
      using False count n m(1) gsv_texts_cong [OF m(4-6), of F]
      by (simp add: loc_nmea_generate_GSV_def gsv_spec_def Let_def)
  qed
qed

lemma generate_sv_spec:
  "length svs \<le> 64 \<Longrightarrow> loc_nmea_generate_sv F svs = Some (concat (map (gsv_spec F svs) gsv_types))"
  by (simp add: loc_nmea_generate_sv_def Let_def gsv_constellation)

section \<open>Characters\<close>

definition plain :: "string \<Rightarrow> bool" where
  "plain s \<longleftrightarrow> CHR ''*'' \<notin> set s"

lemma plain_append [simp]: "plain (s @ t) \<longleftrightarrow> plain s \<and> plain t"
  and plain_Cons [simp]: "plain (c # s) \<longleftrightarrow> c \<noteq> CHR ''*'' \<and> plain s"
  and plain_Nil [simp]: "plain []"
  by (auto simp: plain_def)

lemma plain_concat: "plain (concat ss) \<longleftrightarrow> list_all plain ss"
  by (induction ss) simp_all

lemma plain_fmt_d [simp]: "plain (fmt_d w i)"
proof -
  have "\<not> is_num_char (CHR ''*'')" by (simp add: is_num_char_def)
  then show ?thesis using fmt_d_chars [of w i] by (auto simp: plain_def list_all_iff)
qed

lemma plain_sv_text: "plain (sv_text F offset sv)"
  by (simp add: sv_text_def)

lemma plain_gsv_text: "plain (talker m) \<Longrightarrow> plain (gsv_text F m n k seen svs)"
  by (simp add: gsv_text_def plain_concat list_all_iff plain_sv_text)

lemma plain_gsv_texts: "plain (talker m) \<Longrightarrow> list_all plain (gsv_texts F m n k seen svss)"
  by (induction svss arbitrary: k) (simp_all add: plain_gsv_text)

definition accepted :: "string \<Rightarrow> bool" where
  "accepted s \<longleftrightarrow> nmea_body s \<noteq> None"

lemma accepted_frame: "plain b \<Longrightarrow> accepted (nmea_frame b)"
  by (simp add: accepted_def plain_def nmea_body_frame)

lemma plain_talker: "plain (talker (gsv_kind t))"
  by (cases t) (simp_all add: gsv_kind_def)

lemma gsv_spec_accepted: "list_all accepted (gsv_spec F svs t)"
proof -
  have "list_all plain (gsv_texts F (gsv_kind t) n k seen svss)" for n k seen svss
    by (rule plain_gsv_texts [OF plain_talker])
  then show ?thesis using plain_talker [of t] by (auto simp: gsv_spec_def Let_def list_all_iff accepted_frame)
qed

section \<open>Positions\<close>

text \<open>The ids of the bits of a mask.\<close>

definition mask_ids :: "u32 \<Rightarrow> u32 \<Rightarrow> u32 list" where
  "mask_ids offset m = map (\<lambda>k. of_nat (k + 1) + offset) (filter (bit m) [0 ..< 32])"

lemma sv_used_loop_from:
  "k \<le> 32 \<Longrightarrow> j + k = 32 \<Longrightarrow> length used \<le> j \<Longrightarrow>
   sv_used_loop offset (drop_bit j m) (of_nat (j + 1)) used =
   used @ map (\<lambda>k. of_nat (k + 1) + offset) (filter (bit m) [j ..< 32])"
proof (induction k arbitrary: j used)
  case 0
  then have "drop_bit j m = 0" by (intro bit_word_eqI) (auto simp: bit_drop_bit_eq dest: bit_imp_le_length)
  with 0 show ?case by (simp add: sv_used_loop.simps)
next
  case (Suc k)
  have id: "(ucast (of_nat (j + 1) :: 8 word) :: u32) = of_nat (j + 1)"
  proof (rule unsigned_word_eqI)
    have "j + 1 < 2 ^ 8" using Suc.prems(2) by simp
    then show "unat (ucast (of_nat (j + 1) :: 8 word) :: u32) = unat (of_nat (j + 1) :: u32)"
      by (simp add: unsigned_ucast_eq unsigned_of_nat take_bit_nat_eq_self del: of_nat_add of_nat_Suc)
  qed
  have range: "[j ..< 32] = j # [Suc j ..< 32]" using Suc.prems(2) by (simp add: upt_conv_Cons)
  show ?case
  proof (cases "drop_bit j m = 0")
    case True
    then have "\<not> bit m i" if "j \<le> i" for i
      using that bit_drop_bit_eq [of j m] by (metis bit_0_eq bot_apply bot_bool_def le_add_diff_inverse comp_apply)
    then have "filter (bit m) [j ..< 32] = []" by (simp add: filter_empty_conv)
    then show ?thesis using True by (simp add: sv_used_loop.simps)
  next
    case False
    have lt: "length used < 32" using Suc.prems by simp
    have odd: "drop_bit j m AND 1 \<noteq> 0 \<longleftrightarrow> bit m j"
      by (simp add: and_one_eq odd_iff_mod_2_eq_one [symmetric] bit_iff_odd_drop_bit mod2_eq_if)
    have next_mask: "drop_bit 1 (drop_bit j m) = drop_bit (Suc j) m" by (simp add: ac_simps)
    show ?thesis
      using False lt odd next_mask id Suc.IH [of "Suc j" "if bit m j then used @ [of_nat (j + 1) + offset] else used"]
        Suc.prems
      by (subst sv_used_loop.simps) (auto simp: range ac_simps)
  qed
qed

lemma sv_used_loop_ids: "sv_used_loop offset m 1 [] = mask_ids offset m"
  using sv_used_loop_from [of 32 0 "[]" offset m] by (simp add: mask_ids_def)

lemma mask_ids_empty: "mask_ids offset m = [] \<longleftrightarrow> m = 0"
proof
  assume "mask_ids offset m = []"
  then have "\<not> bit m k" for k
    by (cases "k < 32") (auto simp: mask_ids_def filter_empty_conv dest: bit_imp_le_length)
  then show "m = 0" by (intro bit_word_eqI) simp
qed (simp add: mask_ids_def)

lemma mask_ids_length: "length (mask_ids offset m) \<le> 32"
  using length_filter_le [of "bit m" "[0 ..< 32]"] by (simp add: mask_ids_def)

lemma mask_ids_text:
  assumes "offset \<le> 64" "i \<in> set (mask_ids offset m)"
  shows "length (fmt_d 2 (sint i)) \<le> 2"
proof -
  obtain k where k: "k < 32" "i = of_nat (k + 1) + offset" using assms(2) by (auto simp: mask_ids_def)
  have o: "unat offset \<le> 64" using assms(1) by (simp add: word_le_nat_alt)
  have "unat (of_nat (k + 1) :: u32) = k + 1"
    using k(1) by (simp add: unsigned_of_nat take_bit_nat_eq_self del: of_nat_add of_nat_Suc)
  then have "unat i = k + 1 + unat offset" using k o by (simp add: unat_word_ariths)
  then have "sint i = int (k + 1 + unat offset)" using k(1) o sint_small [of i] by simp
  moreover have "int (k + 1 + unat offset) < int (10 ^ 2)" using k(1) o by (simp only: of_nat_less_iff) simp
  ultimately show ?thesis by (intro fmt_d_length(1)) simp_all
qed

text \<open>What is expected of the C library: printed floats are of float range, broken-down times are in range.\<close>

definition fmt_ok :: "'d nmea_fp \<Rightarrow> bool" where
  "fmt_ok F \<longleftrightarrow> (\<forall>x. length (fmt_1f F x) \<le> 42 \<and> plain (fmt_1f F x)) \<and>
     (\<forall>x. length (fmt_09_6f F (minutes F x)) \<le> 9 \<and> plain (fmt_09_6f F (minutes F x)))"

definition tm_ok :: "tm \<Rightarrow> bool" where
  "tm_ok t \<longleftrightarrow> (\<forall>i \<in> {tm_mon t + 1, tm_mday t, tm_hour t, tm_min t, tm_sec t}. 0 \<le> i \<and> i < 100)"

lemma print_seq_sentence:
  assumes "concat (map snd ps) = CHR ''$'' # b" "length b < 194"
  shows "\<exists>room. print_seq ps fresh_buffer = Printed \<lparr>w_text = CHR ''$'' # b, lengthRemaining = room\<rparr>"
  using print_seq_fits [of ps fresh_buffer] assms by simp

definition gsa_text :: "'d nmea_fp \<Rightarrow> 'd GpsLocationExtended \<Rightarrow> loc_nmea_sv_meta \<Rightarrow> string" where
  "gsa_text F ext m =
     (let used = mask_ids (svIdOffset m) (used_mask m); n = length used
      in talker m @ ''GSA,A,'' @
         [if n = 0 then CHR ''1'' else if n \<le> 3 then CHR ''2'' else CHR ''3'', CHR '',''] @
         concat (map (\<lambda>i. if i < n then fmt_d 2 (sint (used ! i)) @ '','' else '','') [0 ..< 12]) @
         dop_fields F ext @ fmt_d 0 (sint (systemId m)))"

definition gsa_ok :: "loc_nmea_sv_meta \<Rightarrow> bool" where
  "gsa_ok m \<longleftrightarrow> length (talker m) = 2 \<and> plain (talker m) \<and> svIdOffset m \<le> 64 \<and> systemId m \<in> {1, 2, 3, 4, 5}"

lemma concat_length_le: "(\<And>x. x \<in> set xs \<Longrightarrow> length (f x) \<le> k) \<Longrightarrow> length (concat (map f xs)) \<le> k * length xs"
  by (induction xs) (simp_all add: add_mono)

lemma gsa_text_ok:
  assumes "fmt_ok F" "gsa_ok m"
  shows "length (gsa_text F ext m) < 194" "plain (gsa_text F ext m)"
proof -
  let ?used = "mask_ids (svIdOffset m) (used_mask m)"
  let ?id = "\<lambda>i. if i < length ?used then fmt_d 2 (sint (?used ! i)) @ '','' else '',''"
  have "length (?id i) \<le> 3" for i
    using mask_ids_text [of "svIdOffset m" "?used ! i" "used_mask m"] assms(2) by (simp add: gsa_ok_def)
  then have ids: "length (concat (map ?id [0 ..< 12])) \<le> 36"
    using concat_length_le [of "[0 ..< 12]" ?id 3] by simp
  have f: "length (fmt_1f F x) \<le> 42" "plain (fmt_1f F x)" for x using assms(1) by (simp_all add: fmt_ok_def)
  have dop: "length (dop_fields F ext) \<le> 129" "plain (dop_fields F ext)"
    using f(1) [of "pdop ext"] f(1) [of "hdop ext"] f(1) [of "vdop ext"] f(2) by (simp_all add: dop_fields_def)
  have "length (fmt_d 0 (sint (systemId m))) = 1"
    using assms(2) by (auto simp: gsa_ok_def fmt_d_def zero_pad_def dec.simps)
  then show "length (gsa_text F ext m) < 194"
    using ids dop(1) assms(2) by (simp add: gsa_text_def Let_def gsa_ok_def)
  have "plain (concat (map ?id [0 ..< 12]))" unfolding plain_concat by (auto simp: list_all_iff)
  then show "plain (gsa_text F ext m)"
    using dop(2) assms(2) by (simp add: gsa_text_def Let_def gsa_ok_def)
qed

lemma generate_GSA_spec:
  assumes "fmt_ok F" "gsa_ok m"
  shows "loc_nmea_generate_GSA F ext (Some m) =
    Some (length (mask_ids (svIdOffset m) (used_mask m)),
          if used_mask m = 0 \<and> svType m \<noteq> GNSS_SV_TYPE_GPS then [] else [nmea_frame (gsa_text F ext m)])"
proof -
  let ?used = "mask_ids (svIdOffset m) (used_mask m)"
  let ?fix = "if length ?used = 0 then CHR ''1'' else if length ?used \<le> 3 then CHR ''2'' else CHR ''3''"
  let ?ps = "(True, CHR ''$'' # talker m @ ''GSA,A,'' @ [?fix, CHR '','']) #
     map (\<lambda>i. (True, if i < length ?used then fmt_d 2 (sint (?used ! i)) @ '','' else '','')) [0 ..< 12] @
     [(False, dop_fields F ext), (False, fmt_d 0 (sint (systemId m)))]"
  have all: "concat (map snd ?ps) = CHR ''$'' # gsa_text F ext m"
    by (simp add: gsa_text_def Let_def comp_def del: upt.simps upt_conv_Cons)
  note len = gsa_text_ok(1) [OF assms, of ext]
  obtain room where p: "print_seq ?ps fresh_buffer = Printed \<lparr>w_text = CHR ''$'' # gsa_text F ext m, lengthRemaining = room\<rparr>"
    using print_seq_sentence [OF all len] by blast
  show ?thesis
    unfolding loc_nmea_generate_GSA_def option.case sv_used_loop_ids Let_def p
    using len by (simp add: mask_ids_empty put_checksum_fits eq_commute [of GNSS_SV_TYPE_GPS])
qed

text \<open>The masks of the constellations, and the talker of the position sentences.\<close>

definition used_of :: "loc_sv_cache_info \<Rightarrow> GnssSvType \<Rightarrow> u32" where
  "used_of c t =
     (case t of
        GNSS_SV_TYPE_GLONASS \<Rightarrow> glo_used_mask c
      | GNSS_SV_TYPE_GALILEO \<Rightarrow> gal_used_mask c
      | GNSS_SV_TYPE_QZSS \<Rightarrow> qzss_used_mask c
      | GNSS_SV_TYPE_BEIDOU \<Rightarrow> bds_used_mask c
      | _ \<Rightarrow> gps_used_mask c)"

definition gsa_meta :: "loc_sv_cache_info \<Rightarrow> GnssSvType \<Rightarrow> loc_nmea_sv_meta" where
  "gsa_meta c t = the (loc_nmea_sv_meta_init c t (t \<in> {GNSS_SV_TYPE_GPS, GNSS_SV_TYPE_GLONASS, GNSS_SV_TYPE_GALILEO}))"

definition gsa_bodies :: "'d nmea_fp \<Rightarrow> 'd GpsLocationExtended \<Rightarrow> loc_sv_cache_info \<Rightarrow> GnssSvType \<Rightarrow> string list" where
  "gsa_bodies F ext c t =
     (if used_of c t = 0 \<and> t \<noteq> GNSS_SV_TYPE_GPS then [] else [gsa_text F ext (gsa_meta c t)])"

definition used_number :: "loc_sv_cache_info \<Rightarrow> nat" where
  "used_number c = sum_list (map (\<lambda>t. length (filter (bit (used_of c t)) [0 ..< 32])) gsv_types)"

definition pos_talker :: "loc_sv_cache_info \<Rightarrow> string" where
  "pos_talker c =
     (if gps_used_mask c = 0 \<and> glo_used_mask c = 0 \<and> gal_used_mask c = 0 then ''GP''
      else if 1 < used_systems c then ''GN''
      else if gal_used_mask c \<noteq> 0 then ''GA''
      else if glo_used_mask c \<noteq> 0 then ''GL''
      else ''GP'')"

lemma gsa_meta_ok:
  assumes "t \<in> set gsv_types"
  shows "loc_nmea_sv_meta_init c t (t \<in> {GNSS_SV_TYPE_GPS, GNSS_SV_TYPE_GLONASS, GNSS_SV_TYPE_GALILEO}) = Some (gsa_meta c t)"
    "gsa_ok (gsa_meta c t)" "svType (gsa_meta c t) = t" "used_mask (gsa_meta c t) = used_of c t"
  using assms unfolding list.set
  by (elim insertE emptyE; simp add: gsa_meta_def loc_nmea_sv_meta_init_def gsa_ok_def used_of_def)+

lemma gsa_all_step:
  assumes "fmt_ok F" "t \<in> set gsv_types"
    and "combine = (t \<in> {GNSS_SV_TYPE_GPS, GNSS_SV_TYPE_GLONASS, GNSS_SV_TYPE_GALILEO})"
  shows "gsa_all F ext c ((t, combine) # ts) tk used =
    map_option (\<lambda>(tk, n, out). (tk, n, map nmea_frame (gsa_bodies F ext c t) @ out))
      (gsa_all F ext c ts (if used_of c t \<noteq> 0 \<and> combine then talker (gsa_meta c t) else tk)
        (used + length (filter (bit (used_of c t)) [0 ..< 32])))"
proof -
  note m = gsa_meta_ok [OF assms(2), of c]
  let ?n = "length (mask_ids (svIdOffset (gsa_meta c t)) (used_of c t))"
  have g: "loc_nmea_generate_GSA F ext (Some (gsa_meta c t)) = Some (?n, map nmea_frame (gsa_bodies F ext c t))"
    using generate_GSA_spec [OF assms(1) m(2), of ext] m(3,4) by (simp add: gsa_bodies_def)
  have n: "?n = length (filter (bit (used_of c t)) [0 ..< 32])" by (simp add: mask_ids_def)
  have z: "0 < ?n \<longleftrightarrow> used_of c t \<noteq> 0" using mask_ids_empty by simp
  have i: "loc_nmea_sv_meta_init c t combine = Some (gsa_meta c t)" using m(1) assms(3) by simp
  show ?thesis
  proof (cases "used_of c t = 0")
    case True
    then show ?thesis using g n z i by (simp add: Let_def)
  next
    case False
    then have "0 < ?n" using z by simp
    then show ?thesis using False n by (simp add: Let_def i g)
  qed
qed

lemma gsa_all_spec:
  assumes "fmt_ok F"
  shows "gsa_all F ext c
      [(GNSS_SV_TYPE_GPS, True), (GNSS_SV_TYPE_GLONASS, True), (GNSS_SV_TYPE_GALILEO, True),
       (GNSS_SV_TYPE_QZSS, False), (GNSS_SV_TYPE_BEIDOU, False)] ''GP'' 0 =
    Some (pos_talker c, used_number c, map nmea_frame (concat (map (gsa_bodies F ext c) gsv_types)))"
proof -
  have tk: "talker (gsa_meta c GNSS_SV_TYPE_GPS) = (if 1 < used_systems c then ''GN'' else ''GP'')"
    "talker (gsa_meta c GNSS_SV_TYPE_GLONASS) = (if 1 < used_systems c then ''GN'' else ''GL'')"
    "talker (gsa_meta c GNSS_SV_TYPE_GALILEO) = (if 1 < used_systems c then ''GN'' else ''GA'')"
    by (simp_all add: gsa_meta_def loc_nmea_sv_meta_init_def)
  have u: "used_of c GNSS_SV_TYPE_GPS = gps_used_mask c" "used_of c GNSS_SV_TYPE_GLONASS = glo_used_mask c"
    "used_of c GNSS_SV_TYPE_GALILEO = gal_used_mask c"
    by (simp_all add: used_of_def)
  show ?thesis
    by (simp add: gsa_all_step [OF assms] tk u pos_talker_def used_number_def del: gsa_all.simps(2) upt.simps upt_conv_Cons)
qed

section \<open>The sentences of a position\<close>

lemma int_mod_bounds:
  fixes x n :: int
  shows "0 < n \<Longrightarrow> \<bar>x smod n\<bar> < n"
  "\<bar>x\<bar> < 1000 \<Longrightarrow> \<bar>x sdiv 10\<bar> < 100"
proof -
  assume "0 < n"
  then have "0 \<le> \<bar>x\<bar> mod n" "\<bar>x\<bar> mod n < n" by simp_all
  with \<open>0 < n\<close> show "\<bar>x smod n\<bar> < n" by (auto simp: signed_modulo_int_def sgn_if)
next
  assume "\<bar>x\<bar> < 1000"
  then have "\<bar>x\<bar> div 10 < 100" "0 \<le> \<bar>x\<bar> div 10" by arith+
  then have "\<bar>sgn x * (\<bar>x\<bar> div 10)\<bar> < 100" by (cases x rule: linorder_cases [of 0]) simp_all
  then show "\<bar>x sdiv 10\<bar> < 100" by (simp add: signed_divide_int_def)
qed

lemma fmt_small:
  "0 \<le> i \<Longrightarrow> i < 100 \<Longrightarrow> length (fmt_d 2 i) \<le> 2"
  "\<bar>i\<bar> < 100 \<Longrightarrow> length (fmt_d 2 i) \<le> 3"
  "length (fmt_d 2 (uint (b :: 8 word))) \<le> 3"
  "length (fmt_d 3 (uint (b :: 8 word))) \<le> 3"
proof -
  show "0 \<le> i \<Longrightarrow> i < 100 \<Longrightarrow> length (fmt_d 2 i) \<le> 2" using fmt_d_length(1) [of i 2 2] by simp
  show "\<bar>i\<bar> < 100 \<Longrightarrow> length (fmt_d 2 i) \<le> 3" using fmt_d_length(2) [of i 2 2] by simp
  have "uint b < 2 ^ 8" using unsigned_less [of b, where 'a = int] by simp
  then show "length (fmt_d 2 (uint b)) \<le> 3" "length (fmt_d 3 (uint b)) \<le> 3"
    using fmt_d_length(1) [of "uint b" 3 2] fmt_d_length(1) [of "uint b" 3 3] by simp_all
qed

lemma time_fields_ok: "tm_ok t \<Longrightarrow> \<bar>ms\<bar> < 1000 \<Longrightarrow> length (time_fields t ms) \<le> 11 \<and> plain (time_fields t ms)"
  using fmt_small(1) [of "tm_hour t"] fmt_small(1) [of "tm_min t"] fmt_small(1) [of "tm_sec t"]
    fmt_small(2) [OF int_mod_bounds(2), of ms]
  by (simp add: time_fields_def tm_ok_def)

lemma position_fields_ok: "fmt_ok F \<Longrightarrow> length (position_fields F l) \<le> 30 \<and> plain (position_fields F l)"
proof -
  assume "fmt_ok F"
  then have m: "length (fmt_09_6f F (minutes F x)) \<le> 9" "plain (fmt_09_6f F (minutes F x))" for x
    by (simp_all add: fmt_ok_def)
  have "length (fmt_d 2 (uint (floor8 F x)) @ fmt_09_6f F (minutes F x) @ [CHR '','', c, CHR '',''] @
      fmt_d 3 (uint (floor8 F y)) @ fmt_09_6f F (minutes F y) @ [CHR '','', d, CHR '','']) \<le> 30" for x y c d
    using m(1) [of x] m(1) [of y] fmt_small(3) [of "floor8 F x"] fmt_small(4) [of "floor8 F y"] by simp
  then show ?thesis using m(2) by (simp add: position_fields_def Let_def split: prod.split)
qed

text \<open>A list of prints gives a sentence that fits.\<close>

definition sentence_ok :: "(bool \<times> string) list \<Rightarrow> bool" where
  "sentence_ok ps \<longleftrightarrow> (\<exists>b. concat (map snd ps) = CHR ''$'' # b \<and> length b < 194 \<and> plain b)"

definition sentence_body :: "(bool \<times> string) list \<Rightarrow> string" where
  "sentence_body ps = tl (concat (map snd ps))"

lemma print_all_fits:
  "list_all sentence_ok pss \<Longrightarrow> print_all pss = Some (map (\<lambda>ps. nmea_frame (sentence_body ps)) pss)"
proof (induction pss)
  case (Cons ps pss)
  then obtain b where b: "concat (map snd ps) = CHR ''$'' # b" "length b < 194" by (auto simp: sentence_ok_def)
  obtain room where "print_seq ps fresh_buffer = Printed \<lparr>w_text = CHR ''$'' # b, lengthRemaining = room\<rparr>"
    using print_seq_sentence [OF b] by blast
  then show ?case using Cons b by (simp add: put_checksum_fits sentence_body_def)
qed simp

lemma pos_talker_ok: "length (pos_talker c) = 2 \<and> plain (pos_talker c)"
  by (simp add: pos_talker_def)

lemma mode_char_plain:
  "a \<noteq> CHR ''*'' \<Longrightarrow> b \<noteq> CHR ''*'' \<Longrightarrow> d \<noteq> CHR ''*'' \<Longrightarrow> e \<noteq> CHR ''*'' \<Longrightarrow> mode_char a b d e l ext \<noteq> CHR ''*''"
  by (simp add: mode_char_def)

lemma pos_sentences_fit:
  assumes "fmt_ok F" "tm_ok pTm" "\<bar>ms\<bar> < 1000" "length tk = 2" "plain tk"
  shows "sentence_ok (vtg_prints F l ext tk)" "sentence_ok (rmc_prints F l ext pTm ms tk)"
    "sentence_ok (gga_prints F l ext pTm ms tk n)"
proof -
  have f: "length (fmt_1f F x) \<le> 42" "plain (fmt_1f F x)" for x using assms(1) by (simp_all add: fmt_ok_def)
  note p = position_fields_ok [OF assms(1), of l] and t = time_fields_ok [OF assms(2,3)]
  show "sentence_ok (vtg_prints F l ext tk)"
    using f(1) [of "bearing l"] f(1) [of "knots F (speed l)"] f(1) [of "km_per_hour F (speed l)"] assms(4,5)
    by (auto simp: sentence_ok_def vtg_prints_def f(2) mode_char_plain)
  have d: "length (fmt_d 2 (tm_mday pTm)) \<le> 2" "length (fmt_d 2 (tm_mon pTm + 1)) \<le> 2"
    "length (fmt_d 2 (tm_year pTm smod 100)) \<le> 3"
    using fmt_small(1) [of "tm_mday pTm"] fmt_small(1) [of "tm_mon pTm + 1"]
      fmt_small(2) [OF int_mod_bounds(1) [of 100 "tm_year pTm"]] assms(2) by (simp_all add: tm_ok_def)
  show "sentence_ok (rmc_prints F l ext pTm ms tk)"
    using f(1) [of "bearing l"] f(1) [of "knots F (speed l)"] f(1) [of "magneticDeviation ext"]
      f(1) [of "negate F (magneticDeviation ext)"] d p t assms(4,5)
    by (auto simp: sentence_ok_def rmc_prints_def f(2) mode_char_plain)
  have "length (fmt_d 2 (int (min 12 n))) \<le> 2" by (intro fmt_small(1)) simp_all
  then show "sentence_ok (gga_prints F l ext pTm ms tk n)"
    using f(1) [of "hdop ext"] f(1) [of "altitudeMeanSeaLevel ext"]
      f(1) [of "fp_minus F (ul_altitude l) (altitudeMeanSeaLevel ext)"] p t assms(4,5)
    by (auto simp: sentence_ok_def gga_prints_def f(2) mode_char_plain)
qed

lemma pos_sentences_spec:
  assumes "fmt_ok F" "tm_ok pTm" "gmtime (timestamp l sdiv 1000) = Some pTm"
  shows "loc_nmea_generate_pos F gmtime l ext True =
    Some (map nmea_frame
      (concat (map (gsa_bodies F ext (used_ids ext)) gsv_types) @
       [sentence_body (vtg_prints F l ext (pos_talker (used_ids ext))),
        sentence_body (rmc_prints F l ext pTm (timestamp l smod 1000) (pos_talker (used_ids ext))),
        sentence_body (gga_prints F l ext pTm (timestamp l smod 1000) (pos_talker (used_ids ext)) (used_number (used_ids ext)))]))"
proof -
  have "\<bar>timestamp l smod 1000\<bar> < 1000" by (rule int_mod_bounds(1)) simp
  note fit = pos_sentences_fit [OF assms(1,2) this, of "pos_talker (used_ids ext)"]
  show ?thesis
    unfolding loc_nmea_generate_pos_def assms(3) option.case if_True gsa_all_spec [OF assms(1)] prod.case Let_def
    using fit pos_talker_ok [of "used_ids ext"] by (subst print_all_fits) simp_all
qed

lemma gsa_bodies_plain: "fmt_ok F \<Longrightarrow> t \<in> set gsv_types \<Longrightarrow> list_all plain (gsa_bodies F ext c t)"
proof -
  assume "fmt_ok F" "t \<in> set gsv_types"
  then have "plain (gsa_text F ext (gsa_meta c t))" by (intro gsa_text_ok(2) gsa_meta_ok(2))
  then show ?thesis by (simp add: gsa_bodies_def)
qed

lemma sentence_body_plain: "sentence_ok ps \<Longrightarrow> plain (sentence_body ps)"
  by (auto simp: sentence_ok_def sentence_body_def)

lemma blank_accepted: "list_all accepted (map (\<lambda>s. snd (loc_nmea_put_checksum s 200)) blank_sentences)"
proof -
  have "accepted (snd (loc_nmea_put_checksum (CHR ''$'' # b) 200))" if "length b < 194" "plain b" for b
    using put_checksum_fits [OF that(1)] accepted_frame [OF that(2)] by simp
  then show ?thesis unfolding blank_sentences_def by simp
qed

lemma pos_accepted:
  assumes "fmt_ok F" "\<And>t pTm. gmtime t = Some pTm \<Longrightarrow> tm_ok pTm"
  shows "\<exists>out. loc_nmea_generate_pos F gmtime l ext final = Some out \<and> list_all accepted out"
proof (cases "gmtime (timestamp l sdiv 1000)")
  case None
  then show ?thesis by (simp add: loc_nmea_generate_pos_def)
next
  case (Some pTm)
  show ?thesis
  proof (cases final)
    case True
    let ?ms = "timestamp l smod 1000" and ?c = "used_ids ext"
    have "\<bar>?ms\<bar> < 1000" by (rule int_mod_bounds(1)) simp
    note fit = pos_sentences_fit [OF assms(1) assms(2) [OF Some] this, of "pos_talker ?c" l ext]
    have "\<forall>t \<in> set gsv_types. list_all plain (gsa_bodies F ext ?c t)" using gsa_bodies_plain [OF assms(1)] by blast
    then have "list_all plain (concat (map (gsa_bodies F ext ?c) gsv_types))" by simp
    then show ?thesis
      using pos_sentences_spec [where gmtime = gmtime and l = l and ext = ext, OF assms(1) assms(2) [OF Some] Some] fit pos_talker_ok [of ?c] True
      by (auto simp: list_all_iff accepted_frame sentence_body_plain)
  next
    case False
    then show ?thesis using blank_accepted Some by (simp add: loc_nmea_generate_pos_def)
  qed
qed

section \<open>The properties\<close>

text \<open>C24: for every notification of at most 64 satellites, whatever their ids, angles and signals, the GSV
  sentences are produced completely: for GPS, GLONASS, Galileo, QZSS and BeiDou in turn, either one empty
  sentence or one for each group of four of the satellites of that kind in their order, numbered,
  with the number of sentences and of satellites, each framed by its checksum; the 200 characters
  never overflow and nothing is cut.\<close>

theorem gsv_lists_every_satellite:
  assumes "length svs \<le> 64"
  shows "loc_nmea_generate_sv F svs = Some (concat (map (gsv_spec F svs)
    [GNSS_SV_TYPE_GPS, GNSS_SV_TYPE_GLONASS, GNSS_SV_TYPE_GALILEO, GNSS_SV_TYPE_QZSS, GNSS_SV_TYPE_BEIDOU]))"
  by (rule generate_sv_spec [OF assms])

definition demo_fp :: "nat nmea_fp" where
  "demo_fp = \<lparr>half_up = of_nat, positive = (\<lambda>x. 0 < x), negative = (\<lambda>x. False), negate = (\<lambda>x. x),
     fmt_1f = (\<lambda>x. ''0.0''), fmt_09_6f = (\<lambda>x. ''00.000000''), knots = (\<lambda>x. x), km_per_hour = (\<lambda>x. x),
     floor8 = of_nat, minutes = (\<lambda>x. x), fp_minus = (-), shift_one = (\<lambda>i. push_bit (nat i) 1)\<rparr>"

definition demo_sv :: "nat \<Rightarrow> GnssSvType \<Rightarrow> nat GnssSv" where
  "demo_sv i t = \<lparr>svId = of_nat i, sv_type = t, cN0Dbhz = 40, elevation = 30, azimuth = 120, gnssSvOptionsMask = 4\<rparr>"

text \<open>Two GPS satellites and one of GLONASS.\<close>

theorem gsv_lists_every_satellite_witness:
  "loc_nmea_generate_sv demo_fp [demo_sv 5 GNSS_SV_TYPE_GPS, demo_sv 3 GNSS_SV_TYPE_GLONASS, demo_sv 7 GNSS_SV_TYPE_GPS] =
   Some (concat (map (gsv_spec demo_fp [demo_sv 5 GNSS_SV_TYPE_GPS, demo_sv 3 GNSS_SV_TYPE_GLONASS, demo_sv 7 GNSS_SV_TYPE_GPS])
    [GNSS_SV_TYPE_GPS, GNSS_SV_TYPE_GLONASS, GNSS_SV_TYPE_GALILEO, GNSS_SV_TYPE_QZSS, GNSS_SV_TYPE_BEIDOU]))"
  by (rule gsv_lists_every_satellite) simp

text \<open>every sentence of both generators is accepted by a receiver that recomputes the checksum over what
  stands between the dollar and the star: those of up to 64 satellites, and those of any position, final or
  not, when printf prints floats of float range and gmtime returns fields in range.\<close>

theorem nmea_sentences_accepted:
  assumes "length svs \<le> 64" "fmt_ok F" "\<And>t pTm. gmtime t = Some pTm \<Longrightarrow> tm_ok pTm"
  shows "(\<exists>out. loc_nmea_generate_sv F svs = Some out \<and> list_all accepted out) \<and>
    (\<exists>out. loc_nmea_generate_pos F gmtime l ext final = Some out \<and> list_all accepted out)"
  using generate_sv_spec [OF assms(1), of F] gsv_spec_accepted [of F svs] pos_accepted [where F = F and gmtime = gmtime and l = l and ext = ext and final = final, OF assms(2,3)]
  by simp

definition demo_tm :: tm where
  "demo_tm = \<lparr>tm_year = 118, tm_mon = 5, tm_mday = 14, tm_hour = 9, tm_min = 41, tm_sec = 7\<rparr>"

definition demo_location :: "nat UlpLocation" where
  "demo_location = \<lparr>ul_flags = 15, ul_latitude = 52, ul_longitude = 13, ul_altitude = 90, speed = 2, bearing = 45,
     timestamp = 1528969267123\<rparr>"

definition demo_ext :: "nat GpsLocationExtended" where
  "demo_ext = \<lparr>ext_flags = 0x1003, altitudeMeanSeaLevel = 40, pdop = 1, hdop = 1, vdop = 1, magneticDeviation = 0,
     gps_sv_used_ids_mask = 0x50, glo_sv_used_ids_mask = 0x4, gal_sv_used_ids_mask = 0, bds_sv_used_ids_mask = 0,
     qzss_sv_used_ids_mask = 0, navSolutionMask = 0, tech_mask = 1\<rparr>"

lemma demo_ok: "fmt_ok demo_fp" "tm_ok demo_tm"
  by (simp_all add: fmt_ok_def demo_fp_def tm_ok_def demo_tm_def)

theorem nmea_sentences_accepted_witness:
  "(\<exists>out. loc_nmea_generate_sv demo_fp [demo_sv 5 GNSS_SV_TYPE_GPS] = Some out \<and> list_all accepted out) \<and>
   (\<exists>out. loc_nmea_generate_pos demo_fp (\<lambda>t. Some demo_tm) demo_location demo_ext True = Some out \<and> list_all accepted out)"
  by (rule nmea_sentences_accepted) (auto simp: demo_ok)



end
