(* ===== verification/Loc_Api_Base.thy ===== *)
theory Loc_Api_Base
  imports Prelude
begin

text \<open>
  The base class of the modem interface, gps/core/LocApiBase.cpp, with the part of
  gps/core/LocAdapterBase.h that registers an adapter and changes its event mask: the array of adapters,
  the mask that is opened at the modem, the delivery of upward calls, and the helpers for
  hexadecimal strings and addresses. An adapter is its address; open and close of the modem's own class are
  recorded as calls. A char is an unsigned byte, as on the device.
\<close>

unbundle bit_operations_syntax

section \<open>Strings\<close>

text \<open>A buffer is a list of bytes; a write outside of it is None.\<close>

definition write_at :: "nat \<Rightarrow> 8 word list \<Rightarrow> 8 word list \<Rightarrow> 8 word list option" where
  "write_at k s buf =
     (if k + length s \<le> length buf then Some (take k buf @ s @ drop (k + length s) buf) else None)"

definition hex_upper :: "8 word \<Rightarrow> 8 word" where
  "hex_upper n = (if n < 10 then 48 + n else 55 + n)"

text \<open>\<open>%02X\<close> and the NUL.\<close>

definition hex_pair :: "8 word \<Rightarrow> 8 word list" where
  "hex_pair ch = [hex_upper (drop_bit 4 ch), hex_upper (ch AND 15)]"

fun hexcode_loop :: "nat \<Rightarrow> 8 word list \<Rightarrow> nat \<Rightarrow> 8 word list \<Rightarrow> (nat \<times> 8 word list) option" where
  "hexcode_loop i hexstring string_size [] = Some (i, hexstring)"
| "hexcode_loop i hexstring string_size (ch # rest) =
     (if i * 2 + 3 \<le> string_size
      then case write_at (i * 2) (hex_pair ch @ [0]) hexstring of
             None \<Rightarrow> None
           | Some hexstring \<Rightarrow> hexcode_loop (i + 1) hexstring string_size rest
      else Some (i, hexstring))"

definition hexcode :: "8 word list \<Rightarrow> nat \<Rightarrow> 8 word list \<Rightarrow> (nat \<times> 8 word list) option" where
  "hexcode hexstring string_size dat = hexcode_loop 0 hexstring string_size dat"

text \<open>One nibble of an address: stored when it is a digit and there is room.\<close>

definition put_digit :: "8 word \<Rightarrow> nat \<Rightarrow> nat \<times> 8 word list \<Rightarrow> (nat \<times> 8 word list) option" where
  "put_digit d string_size p =
     (case p of (idx, buf) \<Rightarrow>
        if d \<le> 9 \<and> int idx < int string_size - 1
        then map_option (\<lambda>buf. (idx + 1, buf)) (write_at idx [d + 48] buf)
        else Some (idx, buf))"

fun decode_loop :: "nat \<Rightarrow> 8 word list \<Rightarrow> nat \<times> 8 word list \<Rightarrow> (nat \<times> 8 word list) option" where
  "decode_loop string_size [] p = Some p"
| "decode_loop string_size (ch # rest) p =
     (case put_digit (ch AND 0x0F) string_size p of
        None \<Rightarrow> None
      | Some p \<Rightarrow>
          (case put_digit (drop_bit 4 ch) string_size p of
             None \<Rightarrow> None
           | Some p \<Rightarrow> decode_loop string_size rest p))"

definition decodeAddress ::
  "8 word list option \<Rightarrow> nat \<Rightarrow> 8 word list option \<Rightarrow> (nat \<times> 8 word list option) option" where
  "decodeAddress addr_string string_size dat =
     (case (dat, addr_string) of
        (Some (prefix # rest), Some buf) \<Rightarrow>
          if prefix \<noteq> 0x91 then map_option (\<lambda>buf. (0, Some buf)) (write_at 0 [0] buf)
          else (case decode_loop string_size rest (0, buf) of
                  None \<Rightarrow> None
                | Some (idx, buf) \<Rightarrow> map_option (\<lambda>buf. (idx, Some buf)) (write_at idx [0] buf))
      | (Some [], Some buf) \<Rightarrow> None
      | _ \<Rightarrow> Some (0, addr_string))"

section \<open>The adapters\<close>

abbreviation (input) MAX_ADAPTERS :: nat where "MAX_ADAPTERS \<equiv> 10"
abbreviation (input) MAX_FEATURE_LENGTH :: nat where "MAX_FEATURE_LENGTH \<equiv> 100"

type_synonym event_mask = "64 word"

datatype api_msg = LocOpenMsg | LocSsrMsg

datatype api_call = Api_open event_mask | Api_close | InjectFeatureConfig | EngineUp addr | EngineDown addr

record loc_api =
  mLocAdapters :: "ptr list"
  adapter_mask :: "addr \<Rightarrow> event_mask"
  mExcludedMask :: event_mask
  mSupportedMsg :: "64 word"
  mFeaturesSupported :: "8 word list"
  api_msgs :: "api_msg list"
  api_calls :: "api_call list"

definition new_loc_api :: "event_mask \<Rightarrow> loc_api" where
  "new_loc_api excludedMask =
     \<lparr>mLocAdapters = replicate MAX_ADAPTERS None, adapter_mask = \<lambda>_. 0, mExcludedMask = excludedMask, mSupportedMsg = 0,
      mFeaturesSupported = replicate MAX_FEATURE_LENGTH 0, api_msgs = [], api_calls = []\<rparr>"

text \<open>TO_ALL_ADAPTERS: the adapters up to the first NULL.\<close>

fun all_adapters :: "ptr list \<Rightarrow> addr list" where
  "all_adapters (Some a # as) = a # all_adapters as"
| "all_adapters _ = []"

text \<open>TO_1ST_HANDLING_ADAPTER: the adapters that are called until one handles the call.\<close>

fun first_handling :: "(addr \<Rightarrow> bool) \<Rightarrow> ptr list \<Rightarrow> addr list" where
  "first_handling handles (Some a # as) = (if handles a then [a] else a # first_handling handles as)"
| "first_handling handles _ = []"

definition getEvtMask :: "loc_api \<Rightarrow> event_mask" where
  "getEvtMask s =
     fold (\<lambda>a m. m OR adapter_mask s a) (all_adapters (mLocAdapters s)) 0 AND NOT (mExcludedMask s)"

fun in_session_loop :: "(addr \<Rightarrow> bool) \<Rightarrow> bool \<Rightarrow> ptr list \<Rightarrow> bool" where
  "in_session_loop inSession_of inSession (Some a # as) =
     (if inSession then inSession else in_session_loop inSession_of (inSession_of a) as)"
| "in_session_loop inSession_of inSession _ = inSession"

definition LocApiBase_isInSession :: "(addr \<Rightarrow> bool) \<Rightarrow> loc_api \<Rightarrow> bool" where
  "LocApiBase_isInSession inSession_of s = in_session_loop inSession_of False (mLocAdapters s)"

definition api_send :: "api_msg \<Rightarrow> loc_api \<Rightarrow> loc_api" where
  "api_send m s = s\<lparr>api_msgs := api_msgs s @ [m]\<rparr>"

definition api_do :: "api_call \<Rightarrow> loc_api \<Rightarrow> loc_api" where
  "api_do c s = s\<lparr>api_calls := api_calls s @ [c]\<rparr>"

text \<open>The array afterwards and whether the adapter was stored.\<close>

fun addAdapter_loop :: "addr \<Rightarrow> ptr list \<Rightarrow> ptr list \<times> bool" where
  "addAdapter_loop a [] = ([], False)"
| "addAdapter_loop a (p # ps) =
     (if p = Some a then (p # ps, False)
      else if p = None then (Some a # ps, True)
      else let (ps', stored) = addAdapter_loop a ps in (p # ps', stored))"

definition addAdapter :: "addr \<Rightarrow> loc_api \<Rightarrow> loc_api" where
  "addAdapter a s =
     (let (arr, stored) = addAdapter_loop a (mLocAdapters s); s = s\<lparr>mLocAdapters := arr\<rparr>
      in if stored then api_send LocOpenMsg s else s)"

text \<open>The inner loop of removeAdapter: the first index from \<open>i\<close> on that is past the end or NULL.\<close>

function scan_null :: "ptr list \<Rightarrow> nat \<Rightarrow> nat" where
  "scan_null arr i = (if i < MAX_ADAPTERS \<and> arr ! i \<noteq> None then scan_null arr (i + 1) else i)"
  by pat_completeness auto
termination by (relation "measure (\<lambda>(arr, i). MAX_ADAPTERS - i)") auto

declare scan_null.simps [simp del]

lemma scan_null_ge: "i \<le> scan_null arr i"
  by (induction arr i rule: scan_null.induct) (subst scan_null.simps, auto)

text \<open>What the loop does where it finds the adapter: the last one is moved there. The index of the last one.\<close>

definition move_last :: "nat \<Rightarrow> ptr list \<Rightarrow> nat \<times> ptr list" where
  "move_last j arr =
     (let arr = arr[j := None]; i = scan_null arr (j + 1) - 1; arr = arr[j := arr ! i] in (i, arr[i := None]))"

lemma move_last_ge: "j \<le> fst (move_last j arr)"
  using scan_null_ge [of "j + 1" "arr[j := None]"] by (simp add: move_last_def Let_def)

function removeAdapter_loop :: "addr \<Rightarrow> nat \<Rightarrow> loc_api \<Rightarrow> loc_api" where
  "removeAdapter_loop a i s =
     (if i < MAX_ADAPTERS \<and> mLocAdapters s ! i \<noteq> None
      then if mLocAdapters s ! i = Some a
           then let m = move_last i (mLocAdapters s); s = s\<lparr>mLocAdapters := snd m\<rparr>;
                    s = (if fst m = 0 then api_do Api_close s else api_send LocOpenMsg s)
                in removeAdapter_loop a (fst m + 1) s
           else removeAdapter_loop a (i + 1) s
      else s)"
  by pat_completeness auto
termination
proof (relation "measure (\<lambda>(a, i, s). MAX_ADAPTERS - i)")
  fix a :: addr and i :: nat and s s' s'' :: loc_api and m
  assume "i < 10 \<and> mLocAdapters s ! i \<noteq> None" "m = move_last i (mLocAdapters s)"
  then show "((a, fst m + 1, s''), a, i, s) \<in> measure (\<lambda>(a, i, s). 10 - i)"
    using move_last_ge [of i "mLocAdapters s"] by (simp, linarith)
qed auto

declare removeAdapter_loop.simps [simp del]

definition removeAdapter :: "addr \<Rightarrow> loc_api \<Rightarrow> loc_api" where
  "removeAdapter a s = removeAdapter_loop a 0 s"

definition updateEvtMask :: "loc_api \<Rightarrow> loc_api" where
  "updateEvtMask s = api_do (Api_open (getEvtMask s)) s"

section \<open>Messages\<close>

fun api_proc :: "api_msg \<Rightarrow> loc_api \<Rightarrow> loc_api" where
  "api_proc LocOpenMsg s = api_do (Api_open (getEvtMask s)) s"
| "api_proc LocSsrMsg s = (let s = api_do Api_close s in api_do (Api_open (getEvtMask s)) s)"

definition handleEngineUpEvent :: "loc_api \<Rightarrow> loc_api" where
  "handleEngineUpEvent s =
     fold (\<lambda>a. api_do (EngineUp a)) (all_adapters (mLocAdapters s)) (api_do InjectFeatureConfig (api_send LocSsrMsg s))"

definition handleEngineDownEvent :: "loc_api \<Rightarrow> loc_api" where
  "handleEngineDownEvent s = fold (\<lambda>a. api_do (EngineDown a)) (all_adapters (mLocAdapters s)) s"

section \<open>Adapters\<close>

datatype registration_status = MASK_ENABLED | MASK_DISABLED | MASK_SET

fun new_evt_mask :: "registration_status \<Rightarrow> event_mask \<Rightarrow> event_mask \<Rightarrow> event_mask" where
  "new_evt_mask MASK_ENABLED event m = m OR event"
| "new_evt_mask MASK_DISABLED event m = m AND NOT event"
| "new_evt_mask MASK_SET event m = event"

definition adapter_updateEvtMask :: "addr \<Rightarrow> event_mask \<Rightarrow> registration_status \<Rightarrow> loc_api \<Rightarrow> loc_api" where
  "adapter_updateEvtMask a event status s =
     updateEvtMask (s\<lparr>adapter_mask := (adapter_mask s)(a := new_evt_mask status event (adapter_mask s a))\<rparr>)"

definition new_adapter_base :: "addr \<Rightarrow> event_mask \<Rightarrow> loc_api \<Rightarrow> loc_api" where
  "new_adapter_base a m s = addAdapter a (s\<lparr>adapter_mask := (adapter_mask s)(a := m)\<rparr>)"

section \<open>Upward calls\<close>

text \<open>The events of the modem; the payload of an event is passed on unread but for the satellites' types.\<close>

datatype upcall =
    ReportPosition | ReportSv "nat list" | ReportSvMeasurement | ReportSvPolynomial | ReportStatus | ReportNmea
  | ReportGnssMeasurementData
  | ReportWwanZppFix | ReportOdcpiRequest | ReportXtraServer | RequestXtraData | RequestTime | RequestLocation
  | RequestATL | ReleaseATL | RequestSuplES | ReportDataCallOpened | ReportDataCallClosed | RequestNiNotify

text \<open>Unknown types of the first 64 satellites become 0.\<close>

definition known_types :: "nat list \<Rightarrow> nat list" where
  "known_types types = map (\<lambda>t. if 6 < t then 0 else t) (take 64 types) @ drop 64 types"

definition to_all :: "upcall \<Rightarrow> bool" where
  "to_all c \<longleftrightarrow>
     (case c of
        ReportPosition \<Rightarrow> True | ReportSv _ \<Rightarrow> True | ReportSvMeasurement \<Rightarrow> True | ReportSvPolynomial \<Rightarrow> True
      | ReportStatus \<Rightarrow> True | ReportNmea \<Rightarrow> True | ReportGnssMeasurementData \<Rightarrow> True | _ \<Rightarrow> False)"

text \<open>The adapters called, in order, with what they are called.\<close>

definition api_deliver :: "(upcall \<Rightarrow> addr \<Rightarrow> bool) \<Rightarrow> upcall \<Rightarrow> loc_api \<Rightarrow> (addr \<times> upcall) list" where
  "api_deliver handles c s =
     (let c' = (case c of ReportSv types \<Rightarrow> ReportSv (known_types types) | _ \<Rightarrow> c)
      in map (\<lambda>a. (a, c'))
           (if to_all c then all_adapters (mLocAdapters s) else first_handling (handles c) (mLocAdapters s)))"

definition saveSupportedMsgList :: "64 word \<Rightarrow> loc_api \<Rightarrow> loc_api" where
  "saveSupportedMsgList l s = s\<lparr>mSupportedMsg := l\<rparr>"

definition saveSupportedFeatureList :: "8 word list \<Rightarrow> loc_api \<Rightarrow> loc_api" where
  "saveSupportedFeatureList featureList s = s\<lparr>mFeaturesSupported := take MAX_FEATURE_LENGTH featureList\<rparr>"

definition isFeatureSupported :: "8 word \<Rightarrow> loc_api \<Rightarrow> bool" where
  "isFeatureSupported featureVal s =
     (let arrayIndex = drop_bit 3 featureVal; bitPos = featureVal AND 7
      in if MAX_FEATURE_LENGTH \<le> unat arrayIndex then False
         else drop_bit (unat bitPos) (mFeaturesSupported s ! unat arrayIndex) AND 1 \<noteq> 0)"

text \<open>The checker is a shifted int: undefined from the 32nd message on.\<close>

definition isMessageSupported :: "nat \<Rightarrow> loc_api \<Rightarrow> bool option" where
  "isMessageSupported msgID s =
     (if 64 < msgID then Some False
      else if 31 < msgID then None
      else let messageChecker = push_bit msgID (1 :: 64 word) in Some (messageChecker AND mSupportedMsg s = messageChecker))"

section \<open>The system\<close>

text \<open>Adapters come and go, change their masks, the modem restarts, the task handles a message.\<close>

inductive modem_api_step :: "loc_api \<Rightarrow> loc_api \<Rightarrow> bool" where
  create: "modem_api_step s (new_adapter_base a m s)" if "Some a \<notin> set (mLocAdapters s)"
| destroy: "modem_api_step s (removeAdapter a s)"
| update: "modem_api_step s (adapter_updateEvtMask a event status s)"
| engine_up: "modem_api_step s (handleEngineUpEvent s)"
| engine_down: "modem_api_step s (handleEngineDownEvent s)"
| features: "modem_api_step s (saveSupportedFeatureList l s)"
| supported: "modem_api_step s (saveSupportedMsgList l s)"
| handle: "modem_api_step s (api_proc m (s\<lparr>api_msgs := ms\<rparr>))" if "api_msgs s = m # ms"

inductive modem_api_reach :: "event_mask \<Rightarrow> loc_api \<Rightarrow> bool" for excludedMask :: event_mask where
  start: "modem_api_reach excludedMask (new_loc_api excludedMask)"
| step: "modem_api_reach excludedMask s \<Longrightarrow> modem_api_step s t \<Longrightarrow> modem_api_reach excludedMask t"

inductive_cases modem_api_stepE: "modem_api_step s t"

end
