(* ===== verification/Loc_Api_Props.thy ===== *)
theory Loc_Api_Props
  imports Loc_Api_Base
begin

text \<open>
  The correctness of the modem interface's base class: the array of adapters has no holes and no
  duplicates, the mask opened at the modem follows the adapters, events reach the adapters they are for,
  and the string helpers stay inside their buffers and can be read back.
\<close>

unbundle bit_operations_syntax

section \<open>The array of adapters\<close>

definition adapters_array :: "addr list \<Rightarrow> ptr list" where
  "adapters_array as = map Some as @ replicate (MAX_ADAPTERS - length as) None"

definition adapters_ok :: "addr list \<Rightarrow> bool" where
  "adapters_ok as \<longleftrightarrow> distinct as \<and> length as \<le> MAX_ADAPTERS"

lemma all_adapters_array [simp]: "all_adapters (adapters_array as) = as"
proof -
  have "all_adapters (map Some as @ replicate k None) = as" for k
    by (induction as) (cases k; simp)+
  then show ?thesis by (simp add: adapters_array_def)
qed

lemma adapters_array_nth:
  "i < MAX_ADAPTERS \<Longrightarrow> length as \<le> MAX_ADAPTERS \<Longrightarrow>
   adapters_array as ! i = (if i < length as then Some (as ! i) else None)"
  by (simp add: adapters_array_def nth_append)

lemma length_adapters_array: "length as \<le> MAX_ADAPTERS \<Longrightarrow> length (adapters_array as) = MAX_ADAPTERS"
  by (simp add: adapters_array_def)

lemma add_loop_array:
  "addAdapter_loop a (map Some as @ replicate k None) =
   (if a \<in> set as \<or> k = 0 then (map Some as @ replicate k None, False)
    else (map Some (as @ [a]) @ replicate (k - 1) None, True))"
proof (induction as)
  case Nil
  then show ?case by (cases k) simp_all
qed (auto split: prod.splits)

lemma addAdapter_array:
  assumes "mLocAdapters s = adapters_array as" "length as \<le> MAX_ADAPTERS"
  shows "addAdapter a s =
    (if a \<in> set as \<or> length as = MAX_ADAPTERS then s
     else api_send LocOpenMsg (s\<lparr>mLocAdapters := adapters_array (as @ [a])\<rparr>))"
proof -
  have "(10 - length as = 0) = (length as = 10)" using assms(2) by auto
  then show ?thesis
    using assms(1) add_loop_array [of a as "10 - length as"] by (simp add: addAdapter_def adapters_array_def Let_def)
qed

lemma scan_null_stops:
  "(\<And>j. i \<le> j \<Longrightarrow> j < n \<Longrightarrow> arr ! j \<noteq> None) \<Longrightarrow> n = MAX_ADAPTERS \<or> arr ! n = None \<Longrightarrow> i \<le> n \<Longrightarrow> n \<le> MAX_ADAPTERS \<Longrightarrow>
   scan_null arr i = n"
proof (induction "n - i" arbitrary: i)
  case 0
  then show ?case by (auto simp: scan_null.simps [of arr i])
next
  case (Suc d)
  then have "arr ! i \<noteq> None" "i < n" by auto
  moreover have "scan_null arr (i + 1) = n" using Suc by (intro Suc.hyps(1)) auto
  ultimately show ?case using Suc.prems(4) by (simp add: scan_null.simps [of arr i])
qed

text \<open>The last adapter moves into the place of the removed one.\<close>

definition without_index :: "nat \<Rightarrow> addr list \<Rightarrow> addr list" where
  "without_index k as = butlast (as[k := last as])"

lemma remove_at:
  assumes "length as \<le> MAX_ADAPTERS" "k < length as"
  shows "move_last k (adapters_array as) = (length as - 1, adapters_array (without_index k as))"
proof -
  let ?arr = "(adapters_array as)[k := None]"
  have scan: "scan_null ?arr (k + 1) = length as"
    using assms by (intro scan_null_stops)
      (auto simp: adapters_array_nth nth_list_update length_adapters_array order_le_less)
  have len: "length (without_index k as) = length as - 1" by (simp add: without_index_def)
  have "?arr[k := ?arr ! (length as - 1), length as - 1 := None] = adapters_array (without_index k as)"
  proof (rule nth_equalityI)
    show "length (?arr[k := ?arr ! (length as - 1), length as - 1 := None]) = length (adapters_array (without_index k as))"
      using assms len by (simp add: length_adapters_array)
    fix i
    assume "i < length (?arr[k := ?arr ! (length as - 1), length as - 1 := None])"
    then have i: "i < 10" using assms by (simp add: length_adapters_array)
    have ne: "as \<noteq> []" using assms(2) by auto
    show "?arr[k := ?arr ! (length as - 1), length as - 1 := None] ! i = adapters_array (without_index k as) ! i"
      using i assms len ne
      by (auto simp: adapters_array_nth nth_list_update length_adapters_array without_index_def nth_butlast last_conv_nth)
  qed
  then show ?thesis unfolding move_last_def Let_def scan by simp
qed

lemma remove_loop_end:
  "mLocAdapters s = adapters_array as \<Longrightarrow> length as \<le> MAX_ADAPTERS \<Longrightarrow> length as \<le> i \<Longrightarrow> removeAdapter_loop a i s = s"
  by (cases "i < 10") (subst removeAdapter_loop.simps, simp add: adapters_array_nth)+

lemma remove_loop_skip:
  "mLocAdapters s = adapters_array as \<Longrightarrow> length as \<le> MAX_ADAPTERS \<Longrightarrow> i \<le> k \<Longrightarrow> k \<le> length as \<Longrightarrow>
   (\<And>j. i \<le> j \<Longrightarrow> j < k \<Longrightarrow> as ! j \<noteq> a) \<Longrightarrow> removeAdapter_loop a i s = removeAdapter_loop a k s"
proof (induction "k - i" arbitrary: i)
  case (Suc d)
  then have "as ! i \<noteq> a" "i < length as" by auto
  moreover have "removeAdapter_loop a (i + 1) s = removeAdapter_loop a k s" using Suc by (intro Suc.hyps(1)) auto
  ultimately show ?case using Suc.prems(1,2) by (subst removeAdapter_loop.simps) (simp add: adapters_array_nth)
qed simp

lemma removeAdapter_array:
  assumes "mLocAdapters s = adapters_array as" "adapters_ok as"
  shows "a \<notin> set as \<Longrightarrow> removeAdapter a s = s"
    "k < length as \<Longrightarrow> as ! k = a \<Longrightarrow>
     removeAdapter a s =
       (let s' = s\<lparr>mLocAdapters := adapters_array (without_index k as)\<rparr>
        in if length as = 1 then api_do Api_close s' else api_send LocOpenMsg s')"
proof -
  have len: "length as \<le> MAX_ADAPTERS" and d: "distinct as" using assms(2) by (simp_all add: adapters_ok_def)
  show "a \<notin> set as \<Longrightarrow> removeAdapter a s = s"
    using remove_loop_skip [OF assms(1) len, of 0 "length as" a] remove_loop_end [OF assms(1) len]
    by (auto simp: removeAdapter_def in_set_conv_nth)
  assume k: "k < length as" "as ! k = a"
  let ?s = "s\<lparr>mLocAdapters := adapters_array (without_index k as)\<rparr>"
  let ?s' = "if length as = 1 then api_do Api_close ?s else api_send LocOpenMsg ?s"
  have before: "as ! j \<noteq> a" if "j < k" for j using d k that by (auto simp: nth_eq_iff_index_eq)
  have nth: "mLocAdapters s ! k = Some a" "k < 10" using assms(1) len k by (simp_all add: adapters_array_nth)
  have last: "length as - 1 + 1 = length as" using k(1) by simp
  have z: "length as - 1 = 0 \<longleftrightarrow> length as = 1" using k(1) by auto
  have "removeAdapter_loop a 0 s = removeAdapter_loop a k s"
    using remove_loop_skip [OF assms(1) len, of 0 k a] before k(1) by simp
  also have "\<dots> = removeAdapter_loop a (length as) ?s'"
    using remove_at [OF len k(1)] nth assms(1) last z
    by (subst removeAdapter_loop.simps) (simp add: Let_def del: One_nat_def)
  also have "\<dots> = ?s'"
    by (rule remove_loop_end [of _ "without_index k as"])
      (use len in \<open>auto simp: api_do_def api_send_def without_index_def\<close>)
  finally show "removeAdapter a s =
       (let s' = s\<lparr>mLocAdapters := adapters_array (without_index k as)\<rparr>
        in if length as = 1 then api_do Api_close s' else api_send LocOpenMsg s')"
    by (simp add: removeAdapter_def Let_def)
qed

lemma without_index_ok:
  assumes "adapters_ok as" "k < length as"
  shows "adapters_ok (without_index k as)" "set (without_index k as) = set as - {as ! k}"
proof -
  have d: "distinct as" using assms(1) by (simp add: adapters_ok_def)
  obtain bs b where as: "as = bs @ [b]" using assms(2) by (cases as rule: rev_cases) auto
  have w: "without_index k as = (if k < length bs then bs[k := b] else bs)"
    using assms(2) by (auto simp: as without_index_def list_update_append butlast_append)
  show "set (without_index k as) = set as - {as ! k}"
  proof (cases "k < length bs")
    case True
    then obtain xs c ys where bs: "bs = xs @ c # ys" "k = length xs" by (metis id_take_nth_drop length_take min.absorb4)
    then show ?thesis using d w by (auto simp: as nth_append)
  next
    case False
    then have "as ! k = b" using assms(2) by (simp add: as nth_append)
    then show ?thesis using False d w by (auto simp: as)
  qed
  show "adapters_ok (without_index k as)"
    using assms d w by (auto simp: as adapters_ok_def distinct_list_update)
qed

section \<open>The mask at the modem\<close>

fun mask_after :: "event_mask \<Rightarrow> api_call \<Rightarrow> event_mask" where
  "mask_after m (Api_open m') = m'"
| "mask_after m Api_close = 0"
| "mask_after m _ = m"

definition modem_mask :: "api_call list \<Rightarrow> event_mask" where
  "modem_mask cs = foldl mask_after 0 cs"

lemma modem_mask_two [simp]: "modem_mask (cs @ [c, d]) = mask_after (mask_after (modem_mask cs) c) d"
  by (simp add: modem_mask_def)

lemma modem_mask_snoc [simp]: "modem_mask (cs @ [c]) = mask_after (modem_mask cs) c"
  by (simp add: modem_mask_def)

definition modem_api_inv :: "event_mask \<Rightarrow> loc_api \<Rightarrow> bool" where
  "modem_api_inv excl s \<longleftrightarrow>
     (\<exists>as. mLocAdapters s = adapters_array as \<and> adapters_ok as) \<and> mExcludedMask s = excl \<and>
     (api_msgs s = [] \<longrightarrow> modem_mask (api_calls s) = getEvtMask s)"

lemma api_do_fields [simp]:
  "mLocAdapters (api_do c s) = mLocAdapters s" "adapter_mask (api_do c s) = adapter_mask s"
  "mExcludedMask (api_do c s) = mExcludedMask s" "api_msgs (api_do c s) = api_msgs s"
  "api_calls (api_do c s) = api_calls s @ [c]" "getEvtMask (api_do c s) = getEvtMask s"
  by (simp_all add: api_do_def getEvtMask_def)

lemma api_send_fields [simp]:
  "mLocAdapters (api_send m s) = mLocAdapters s" "adapter_mask (api_send m s) = adapter_mask s"
  "mExcludedMask (api_send m s) = mExcludedMask s" "api_msgs (api_send m s) = api_msgs s @ [m]"
  "api_calls (api_send m s) = api_calls s" "getEvtMask (api_send m s) = getEvtMask s"
  by (simp_all add: api_send_def getEvtMask_def)

lemma fold_engine [simp]:
  "modem_mask (api_calls (fold (\<lambda>a. api_do (EngineUp a)) as s)) = modem_mask (api_calls s)"
  "modem_mask (api_calls (fold (\<lambda>a. api_do (EngineDown a)) as s)) = modem_mask (api_calls s)"
  "mLocAdapters (fold (\<lambda>a. api_do (c a)) as s) = mLocAdapters s"
  "mExcludedMask (fold (\<lambda>a. api_do (c a)) as s) = mExcludedMask s"
  "api_msgs (fold (\<lambda>a. api_do (c a)) as s) = api_msgs s"
  "adapter_mask (fold (\<lambda>a. api_do (c a)) as s) = adapter_mask s"
  "getEvtMask (fold (\<lambda>a. api_do (c a)) as s) = getEvtMask s"
  by (induction as arbitrary: s) simp_all

lemma getEvtMask_cong:
  "mLocAdapters s = adapters_array as \<Longrightarrow> mLocAdapters t = adapters_array as \<Longrightarrow> mExcludedMask t = mExcludedMask s \<Longrightarrow>
   (\<And>a. a \<in> set as \<Longrightarrow> adapter_mask t a = adapter_mask s a) \<Longrightarrow> getEvtMask t = getEvtMask s"
proof -
  assume a: "mLocAdapters s = adapters_array as" "mLocAdapters t = adapters_array as" "mExcludedMask t = mExcludedMask s"
    "\<And>a. a \<in> set as \<Longrightarrow> adapter_mask t a = adapter_mask s a"
  have "fold (\<lambda>a m. m OR adapter_mask t a) as m = fold (\<lambda>a m. m OR adapter_mask s a) as m" for m
    by (rule fold_cong) (simp_all add: a(4))
  then show ?thesis using a(1-3) by (simp add: getEvtMask_def)
qed


lemma api_inv_create:
  assumes "modem_api_inv excl s" "Some a \<notin> set (mLocAdapters s)"
  shows "modem_api_inv excl (new_adapter_base a m s)"
proof -
  obtain as where as: "mLocAdapters s = adapters_array as" "adapters_ok as" using assms(1) by (auto simp: modem_api_inv_def)
  let ?s = "s\<lparr>adapter_mask := (adapter_mask s)(a := m)\<rparr>"
  have a: "a \<notin> set as" using assms(2) as(1) by (auto simp: adapters_array_def)
  have len: "length as \<le> 10" using as(2) by (simp add: adapters_ok_def)
  have add: "addAdapter a ?s = (if a \<in> set as \<or> length as = 10 then ?s
      else api_send LocOpenMsg (?s\<lparr>mLocAdapters := adapters_array (as @ [a])\<rparr>))"
    using addAdapter_array [of ?s as a] as(1) len by simp
  show ?thesis
  proof (cases "length as = 10")
    case True
    have "getEvtMask ?s = getEvtMask s" by (rule getEvtMask_cong [of _ as]) (use as(1) a in auto)
    then show ?thesis using True add as assms(1) by (auto simp: new_adapter_base_def modem_api_inv_def)
  next
    case False
    have "adapters_ok (as @ [a])" using as(2) a False by (simp add: adapters_ok_def)
    then show ?thesis using False a add assms(1) by (auto simp: new_adapter_base_def modem_api_inv_def)
  qed
qed

lemma api_inv_destroy:
  assumes "modem_api_inv excl s"
  shows "modem_api_inv excl (removeAdapter a s)"
proof -
  obtain as where as: "mLocAdapters s = adapters_array as" "adapters_ok as" using assms(1) by (auto simp: modem_api_inv_def)
  show ?thesis
  proof (cases "a \<in> set as")
    case False
    then show ?thesis using removeAdapter_array(1) [OF as] assms by simp
  next
    case True
    then obtain k where k: "k < length as" "as ! k = a" by (auto simp: in_set_conv_nth)
    note r = removeAdapter_array(2) [OF as k] and ok = without_index_ok [OF as(2) k(1)]
    show ?thesis
    proof (cases "length as = 1")
      case True
      then have "length (without_index k as) = 0" by (simp add: without_index_def)
      then have "without_index k as = []" by simp
      then show ?thesis using r True ok assms by (auto simp: modem_api_inv_def Let_def getEvtMask_def)
    next
      case False
      then show ?thesis using r ok assms by (auto simp: modem_api_inv_def Let_def)
    qed
  qed
qed

lemma api_inv_step: "modem_api_step s t \<Longrightarrow> modem_api_inv excl s \<Longrightarrow> modem_api_inv excl t"
proof (induction rule: modem_api_step.induct)
  case (create a s m)
  then show ?case by (simp add: api_inv_create)
next
  case (handle s m ms)
  have "getEvtMask (s\<lparr>api_msgs := ms\<rparr>) = getEvtMask s" by (simp add: getEvtMask_def)
  with handle show ?case by (cases m) (auto simp: modem_api_inv_def Let_def)
next
  case (destroy s a)
  then show ?case by (simp add: api_inv_destroy)
qed (auto simp: adapter_updateEvtMask_def updateEvtMask_def handleEngineUpEvent_def
    handleEngineDownEvent_def saveSupportedFeatureList_def saveSupportedMsgList_def modem_api_inv_def getEvtMask_def)

lemma api_inv_reach: "modem_api_reach excl s \<Longrightarrow> modem_api_inv excl s"
proof (induction rule: modem_api_reach.induct)
  case start
  have "adapters_array [] = replicate 10 None" "adapters_ok []" by (simp_all add: adapters_array_def adapters_ok_def)
  moreover have "all_adapters (replicate 10 None) = []" by (simp add: numeral_eq_Suc)
  ultimately show ?case
    by (auto simp: modem_api_inv_def new_loc_api_def getEvtMask_def modem_mask_def intro!: exI [of _ "[]"])
qed (rule api_inv_step)

section \<open>Strings\<close>

definition unhex_digit :: "8 word \<Rightarrow> 8 word" where
  "unhex_digit c = (if c < 58 then c - 48 else c - 55)"

fun unhex :: "8 word list \<Rightarrow> 8 word list" where
  "unhex (h # l # s) = (push_bit 4 (unhex_digit h) OR unhex_digit l) # unhex s"
| "unhex _ = []"

lemma unhex_upper: "n < 16 \<Longrightarrow> unhex_digit (hex_upper n) = n"
proof -
  assume n: "n < 16"
  then have "unat n < 16" by (simp add: word_less_nat_alt)
  then have "unat n \<in> {0..<16}" by simp
  then have "unat n \<in> set [0..<16]" by simp
  then have "(of_nat (unat n) :: 8 word) \<in> of_nat ` set [0..<16]" by (rule imageI)
  then have n: "n \<in> set (map of_nat [0..<16])" by simp
  have all: "list_all (\<lambda>n :: 8 word. unhex_digit (hex_upper n) = n) (map of_nat [0..<16])"
    by (simp add: upt_conv_Cons unhex_digit_def hex_upper_def)
  show ?thesis by (rule bspec [OF all [unfolded list_all_iff] n])
qed

lemma nibbles: "push_bit 4 (drop_bit 4 ch) OR (ch AND 15) = (ch :: 8 word)" "drop_bit 4 (ch :: 8 word) < 16" "ch AND 15 < 16"
proof -
  have m: "ch AND 15 = take_bit 4 ch" by (simp add: take_bit_eq_mask mask_eq_exp_minus_1)
  show "push_bit 4 (drop_bit 4 ch) OR (ch AND 15) = ch"
    unfolding m by (rule bit_word_eqI) (auto simp: bit_simps)
  have "take_bit 4 (unat ch) < 2 ^ 4" by (rule take_bit_nat_less_exp)
  then show "ch AND 15 < 16" unfolding m by (simp add: word_less_nat_alt unsigned_take_bit_eq)
  have "unat ch < 256" using unsigned_less [of ch] by simp
  then show "drop_bit 4 ch < 16" by (simp add: word_less_nat_alt unsigned_drop_bit_eq drop_bit_eq_div unat_div)
qed

lemma unhex_pairs: "unhex (concat (map hex_pair dat)) = dat"
  by (induction dat) (simp_all add: hex_pair_def unhex_upper nibbles)

lemma write_at_append:
  "length pre = k \<Longrightarrow> length s \<le> length rest \<Longrightarrow> write_at k s (pre @ rest) = Some (pre @ s @ drop (length s) rest)"
  by (simp add: write_at_def)

text \<open>The loop on a buffer whose first \<open>2 i\<close> bytes are written: \<open>k\<close> more bytes fit.\<close>

lemma hexcode_loop_exact:
  "length pre = 2 * i \<Longrightarrow> sz = length pre + length rest \<Longrightarrow> k = min (length dat) ((sz - 1) div 2 - i) \<Longrightarrow>
   hexcode_loop i (pre @ rest) sz dat =
     Some (i + k, if k = 0 then pre @ rest else pre @ concat (map hex_pair (take k dat)) @ 0 # drop (2 * k + 1) rest)"
proof (induction dat arbitrary: i pre rest k)
  case (Cons ch dat)
  show ?case
  proof (cases "i * 2 + 3 \<le> sz")
    case True
    then have room: "3 \<le> length rest" using Cons.prems(1,2) by simp
    then obtain x y z rest' where rest: "rest = x # y # z # rest'"
      by (metis One_nat_def Suc_1 Suc_le_length_iff numeral_3_eq_3)
    let ?k = "min (length dat) ((sz - 1) div 2 - (i + 1))"
    have "(sz - 1) div 2 - i = Suc ((sz - 1) div 2 - (i + 1))" using True by arith
    then have k: "k = Suc ?k" using Cons.prems(3) by simp
    have w: "write_at (i * 2) (hex_pair ch @ [0]) (pre @ rest) = Some ((pre @ hex_pair ch) @ 0 # rest')"
      using Cons.prems(1) by (subst write_at_append) (simp_all add: rest hex_pair_def)
    have "hexcode_loop (i + 1) ((pre @ hex_pair ch) @ 0 # rest') sz dat =
        Some (i + 1 + ?k, if ?k = 0 then (pre @ hex_pair ch) @ 0 # rest'
          else (pre @ hex_pair ch) @ concat (map hex_pair (take ?k dat)) @ 0 # drop (2 * ?k + 1) (0 # rest'))"
      by (rule Cons.IH) (use Cons.prems in \<open>simp_all add: rest hex_pair_def\<close>)
    then show ?thesis using True w k by (simp add: rest)
  next
    case False
    then have "(sz - 1) div 2 - i = 0" by auto
    then show ?thesis using False Cons.prems(3) by simp
  qed
qed simp

lemma hexcode_exact:
  "hexcode buf (length buf) dat =
     (let n = min (length dat) ((length buf - 1) div 2)
      in Some (n, if n = 0 then buf else concat (map hex_pair (take n dat)) @ 0 # drop (2 * n + 1) buf))"
proof -
  let ?n = "min (length dat) ((length buf - 1) div 2)"
  have "hexcode_loop 0 ([] @ buf) (length buf) dat =
      Some (0 + ?n, if ?n = 0 then [] @ buf else [] @ concat (map hex_pair (take ?n dat)) @ 0 # drop (2 * ?n + 1) buf)"
    by (rule hexcode_loop_exact) simp_all
  then show ?thesis by (simp only: hexcode_def Let_def append_Nil add_0)
qed

section \<open>Addresses\<close>

text \<open>The digits of a coded address: low nibble first, nibbles above 9 skipped.\<close>

definition address_digits :: "8 word list \<Rightarrow> 8 word list" where
  "address_digits dat = filter (\<lambda>d. d \<le> 9) (concat (map (\<lambda>ch. [ch AND 0x0F, drop_bit 4 ch]) dat))"

definition put_digits :: "8 word list \<Rightarrow> nat \<Rightarrow> nat \<times> 8 word list \<Rightarrow> nat \<times> 8 word list" where
  "put_digits ds string_size p =
     (case p of (idx, buf) \<Rightarrow>
        let s = take (string_size - 1 - idx) (map (\<lambda>d. d + 48) ds)
        in (idx + length s, take idx buf @ s @ drop (idx + length s) buf))"

lemma put_digits_Nil [simp]: "put_digits [] string_size (idx, buf) = (idx, buf)"
  by (simp add: put_digits_def Let_def)

lemma put_digit_exact:
  assumes "length buf = string_size" "idx < string_size"
  shows "put_digit d string_size (idx, buf) = Some (put_digits (filter (\<lambda>d. d \<le> 9) [d]) string_size (idx, buf))"
proof (cases "d \<le> 9 \<and> idx + 1 < string_size")
  case True
  then have "idx + 1 < string_size" by simp
  then have "string_size - 1 - idx = Suc (string_size - 2 - idx)" by arith
  then show ?thesis using True assms by (simp add: put_digit_def put_digits_def write_at_def Let_def)
next
  case False
  then show ?thesis using assms by (auto simp: put_digit_def put_digits_def Let_def)
qed

lemma put_digits_buffer:
  "length buf = string_size \<Longrightarrow> idx < string_size \<Longrightarrow> put_digits ds string_size (idx, buf) = (idx', buf') \<Longrightarrow>
   length buf' = string_size \<and> idx' < string_size"
  by (auto simp: put_digits_def Let_def)

lemma put_digits_append:
  assumes "length buf = string_size" "idx < string_size"
  shows "put_digits es string_size (put_digits ds string_size (idx, buf)) = put_digits (ds @ es) string_size (idx, buf)"
  using assms by (auto simp: put_digits_def Let_def min_def add.commute add.left_commute diff_diff_eq)

lemma decode_loop_exact:
  "length buf = string_size \<Longrightarrow> idx < string_size \<Longrightarrow>
   decode_loop string_size dat (idx, buf) = Some (put_digits (address_digits dat) string_size (idx, buf))"
proof (induction dat arbitrary: idx buf)
  case (Cons ch dat)
  let ?ds = "filter (\<lambda>d. d \<le> 9) [ch AND 0x0F]" and ?es = "filter (\<lambda>d. d \<le> 9) [drop_bit 4 ch]"
  obtain idx1 buf1 where p1: "put_digits ?ds string_size (idx, buf) = (idx1, buf1)" by fastforce
  obtain idx2 buf2 where p2: "put_digits ?es string_size (idx1, buf1) = (idx2, buf2)" by fastforce
  note b1 = put_digits_buffer [OF Cons.prems p1]
  note b2 = put_digits_buffer [OF conjunct1 [OF b1] conjunct2 [OF b1] p2]
  have "address_digits (ch # dat) = ?ds @ ?es @ address_digits dat" by (simp add: address_digits_def)
  then have "put_digits (address_digits (ch # dat)) string_size (idx, buf) =
      put_digits (?es @ address_digits dat) string_size (idx1, buf1)"
    using put_digits_append [OF Cons.prems, of "?es @ address_digits dat" ?ds] p1 by (simp only:)
  also have "\<dots> = put_digits (address_digits dat) string_size (idx2, buf2)"
    using put_digits_append [OF conjunct1 [OF b1] conjunct2 [OF b1], of "address_digits dat" ?es] p2 by (simp only:)
  finally show ?case
    using Cons.IH [OF conjunct1 [OF b2] conjunct2 [OF b2]] put_digit_exact [OF Cons.prems, of "ch AND 0x0F"]
      put_digit_exact [OF conjunct1 [OF b1] conjunct2 [OF b1], of "drop_bit 4 ch"] p1 p2
    by (simp only: decode_loop.simps option.case)
qed (simp add: address_digits_def)

lemma decodeAddress_exact:
  assumes "buf \<noteq> []"
  shows "decodeAddress (Some buf) (length buf) (Some (0x91 # dat)) =
    (let s = take (length buf - 1) (map (\<lambda>d. d + 48) (address_digits dat))
     in Some (length s, Some (s @ 0 # drop (length s + 1) buf)))"
proof -
  let ?s = "take (length buf - 1) (map (\<lambda>d. d + 48) (address_digits dat))"
  have n: "length ?s < length buf" using assms by (cases buf) auto
  have "decode_loop (length buf) dat (0, buf) = Some (length ?s, ?s @ drop (length ?s) buf)"
    using assms by (simp add: decode_loop_exact put_digits_def Let_def)
  moreover have "write_at (length ?s) [0] (?s @ drop (length ?s) buf) = Some (?s @ [0] @ drop 1 (drop (length ?s) buf))"
    using n by (subst write_at_append) (simp_all del: length_take)
  ultimately show ?thesis by (simp add: decodeAddress_def Let_def del: length_take)
qed

text \<open>The coding: two digits a byte, the last byte of an odd number filled up with 15.\<close>

fun encodeAddress :: "8 word list \<Rightarrow> 8 word list" where
  "encodeAddress [] = []"
| "encodeAddress [d] = [d OR 0xF0]"
| "encodeAddress (d # e # ds) = (d OR push_bit 4 e) # encodeAddress ds"

lemma nibble_join:
  fixes d e :: "8 word"
  assumes "d < 16" "e < 16"
  shows "(d OR push_bit 4 e) AND 0x0F = d" "drop_bit 4 (d OR push_bit 4 e) = e"
proof -
  have small: "take_bit 4 x = x" if "x < 16" for x :: "8 word"
    using that by (simp add: word_unat_eq_iff unsigned_take_bit_eq take_bit_nat_eq_self word_less_nat_alt)
  have m: "(15 :: 8 word) = mask 4" by (simp add: mask_eq_exp_minus_1)
  have "(d OR push_bit 4 e) AND mask 4 = take_bit 4 d"
    by (rule bit_word_eqI) (auto simp: bit_simps)
  then show "(d OR push_bit 4 e) AND 0x0F = d" using small [OF assms(1)] m by simp
  have "drop_bit 4 (take_bit 4 d OR push_bit 4 (take_bit 4 e)) = take_bit 4 e"
    by (rule bit_word_eqI) (auto simp: bit_simps)
  then show "drop_bit 4 (d OR push_bit 4 e) = e" using small [OF assms(1)] small [OF assms(2)] by simp
qed

lemma digit_small: "(d :: 8 word) \<le> 9 \<Longrightarrow> d < 16"
  by (simp add: word_less_nat_alt word_le_nat_alt)

lemma address_digits_encode: "list_all (\<lambda>d. d \<le> 9) ds \<Longrightarrow> address_digits (encodeAddress ds) = ds"
proof (induction ds rule: encodeAddress.induct)
  case (2 d)
  then have "(d OR push_bit 4 15) AND 0x0F = d" "drop_bit 4 (d OR push_bit 4 15) = 15"
    using nibble_join [of d 15] digit_small by simp_all
  then show ?case using 2 by (simp add: address_digits_def)
next
  case (3 d e ds)
  then show ?case using nibble_join [of d e] digit_small by (simp add: address_digits_def)
qed (simp add: address_digits_def)

section \<open>Upward calls\<close>

lemma first_handling_array:
  "first_handling handles (map Some as @ replicate n None) =
     takeWhile (\<lambda>a. \<not> handles a) as @ take 1 (dropWhile (\<lambda>a. \<not> handles a) as)"
  by (induction as) (cases n, simp_all)

definition passed_on :: "upcall \<Rightarrow> upcall" where
  "passed_on c = (case c of ReportSv types \<Rightarrow> ReportSv (known_types types) | _ \<Rightarrow> c)"

lemma deliver_array:
  "mLocAdapters s = adapters_array as \<Longrightarrow>
   api_deliver handles c s =
     map (\<lambda>a. (a, passed_on c))
       (if to_all c then as
        else takeWhile (\<lambda>a. \<not> handles c a) as @ take 1 (dropWhile (\<lambda>a. \<not> handles c a) as))"
  by (simp add: api_deliver_def passed_on_def Let_def adapters_array_def first_handling_array)
    (simp add: adapters_array_def [symmetric])

lemma in_session_array: "in_session_loop f b (map Some as @ replicate n None) \<longleftrightarrow> b \<or> (\<exists>a \<in> set as. f a)"
  by (induction as arbitrary: b) (cases n, auto)

lemma isMessageSupported_bit: "n < 32 \<Longrightarrow> isMessageSupported n s = Some (bit (mSupportedMsg s) n)"
proof -
  assume n: "n < 32"
  have "(push_bit n (1 :: 64 word) AND m = push_bit n 1) = bit m n" for m
  proof
    assume "push_bit n 1 AND m = push_bit n 1"
    then have "bit (push_bit n 1 AND m) n = bit (push_bit n (1 :: 64 word)) n" by (rule arg_cong)
    then show "bit m n" using n by (simp add: bit_simps)
  next
    assume "bit m n"
    then show "push_bit n 1 AND m = push_bit n 1" by (intro bit_word_eqI) (auto simp: bit_simps)
  qed
  then show ?thesis using n by (simp add: isMessageSupported_def Let_def)
qed

text \<open>The list of features is an array of bits.\<close>

lemma isFeatureSupported_bit:
  "isFeatureSupported v s \<longleftrightarrow>
     unat v div 8 < MAX_FEATURE_LENGTH \<and> bit (mFeaturesSupported s ! (unat v div 8)) (unat v mod 8)"
proof -
  have i: "unat (drop_bit 3 v) = unat v div 8" by (simp add: unsigned_drop_bit_eq drop_bit_eq_div unat_div)
  have "v AND 7 = take_bit 3 v" by (simp add: take_bit_eq_mask mask_eq_exp_minus_1)
  then have b: "unat (v AND 7) = unat v mod 8" by (simp add: unsigned_take_bit_eq take_bit_eq_mod unat_mod)
  have "(drop_bit k (w :: 8 word) AND 1 \<noteq> 0) = bit w k" for w k
    by (simp add: and_one_eq bit_iff_odd_drop_bit odd_iff_mod_2_eq_one)
  then show ?thesis by (auto simp: isFeatureSupported_def Let_def i b not_le)
qed

section \<open>Properties\<close>



text \<open>A report of the modem is passed on to every adapter once, in the order of the array, and a request to the adapters in that order up to the first one that handles it, the types of the satellites cleaned; a session is on as soon as one adapter is in one.\<close>
lemma modem_calls_reach_adapters:
  assumes "modem_api_reach excl s"
  shows "\<exists>as. {a. Some a \<in> set (mLocAdapters s)} = set as \<and> distinct as \<and>
    api_deliver handles c s =
      map (\<lambda>a. (a, passed_on c))
        (if to_all c then as
         else takeWhile (\<lambda>a. \<not> handles c a) as @ take 1 (dropWhile (\<lambda>a. \<not> handles c a) as)) \<and>
    LocApiBase_isInSession session s = (\<exists>a. Some a \<in> set (mLocAdapters s) \<and> session a)"
proof -
  obtain as where as: "mLocAdapters s = adapters_array as" "adapters_ok as"
    using api_inv_reach [OF assms] by (auto simp: modem_api_inv_def)
  have "Some a \<in> set (mLocAdapters s) \<longleftrightarrow> a \<in> set as" for a by (auto simp: as(1) adapters_array_def)
  moreover have "LocApiBase_isInSession session s = (\<exists>a \<in> set as. session a)"
    by (simp add: LocApiBase_isInSession_def as(1) adapters_array_def in_session_array)
  ultimately show ?thesis
    using as(2) deliver_array [OF as(1), of handles c]
    by (intro exI [of _ as]) (auto simp: adapters_ok_def)
qed

text \<open>DecodeAddress reads back every number that was coded with two digits a byte and fits, and hexcode writes as many whole bytes as fit, which can be read back, and terminates what it wrote.\<close>
lemma address_and_hex_roundtrip:
  assumes "list_all (\<lambda>d. d \<le> 9) ds" "length ds < length buf"
  shows "decodeAddress (Some buf) (length buf) (Some (0x91 # encodeAddress ds)) =
      Some (length ds, Some (map (\<lambda>d. d + 48) ds @ 0 # drop (length ds + 1) buf)) \<and>
    (let n = min (length dat) ((length buf - 1) div 2); s = concat (map hex_pair (take n dat))
     in hexcode buf (length buf) dat = Some (n, if n = 0 then buf else s @ 0 # drop (2 * n + 1) buf) \<and>
        unhex s = take n dat)"
proof -
  have "buf \<noteq> []" using assms(2) by auto
  moreover have "take (length buf - 1) (map (\<lambda>d. d + 48) ds) = map (\<lambda>d. d + 48) ds" using assms(2) by simp
  ultimately show ?thesis
    using decodeAddress_exact [of buf "encodeAddress ds"] assms(1)
    by (simp add: address_digits_encode Let_def hexcode_exact unhex_pairs)
qed

section \<open>Examples\<close>

text \<open>Two adapters, 1 and 2, whose registration has been handled; event 2 is excluded.\<close>

definition example_api :: loc_api where
  "example_api =
     (let s = new_adapter_base 2 6 (new_adapter_base 1 3 (new_loc_api 4));
          s = api_proc LocOpenMsg (s\<lparr>api_msgs := [LocOpenMsg]\<rparr>)
      in api_proc LocOpenMsg (s\<lparr>api_msgs := []\<rparr>))"


lemma reach_example: "modem_api_reach 4 example_api"
proof -
  let ?a = "new_adapter_base 1 3 (new_loc_api 4)"
  let ?b = "new_adapter_base 2 6 ?a"
  let ?c = "api_proc LocOpenMsg (?b\<lparr>api_msgs := [LocOpenMsg]\<rparr>)"
  have a: "modem_api_reach 4 ?a"
    by (rule modem_api_reach.step [OF modem_api_reach.start], rule modem_api_step.create) (simp add: new_loc_api_def)
  have b: "modem_api_reach 4 ?b"
    by (rule modem_api_reach.step [OF a], rule modem_api_step.create)
      (simp add: new_adapter_base_def addAdapter_def new_loc_api_def api_send_def numeral_eq_Suc)
  have c: "modem_api_reach 4 ?c"
    by (rule modem_api_reach.step [OF b], rule modem_api_step.handle)
      (simp add: new_adapter_base_def addAdapter_def new_loc_api_def api_send_def numeral_eq_Suc)
  have "modem_api_step ?c (api_proc LocOpenMsg (?c\<lparr>api_msgs := []\<rparr>))" by (rule modem_api_step.handle) simp
  then show ?thesis using c unfolding example_api_def Let_def
    by (auto intro: modem_api_reach.step simp: new_adapter_base_def addAdapter_def new_loc_api_def api_send_def api_do_def numeral_eq_Suc)
qed



lemma modem_calls_reach_adapters_witness:
  "\<exists>as. {a. Some a \<in> set (mLocAdapters example_api)} = set as \<and> distinct as \<and>
    api_deliver (\<lambda>_ a. a = 1) RequestATL example_api =
      map (\<lambda>a. (a, passed_on RequestATL))
        (if to_all RequestATL then as
         else takeWhile (\<lambda>a. \<not> (\<lambda>_ a. a = 1) RequestATL a) as @ take 1 (dropWhile (\<lambda>a. \<not> (\<lambda>_ a. a = 1) RequestATL a) as)) \<and>
    LocApiBase_isInSession (\<lambda>a. a = 2) example_api = (\<exists>a. Some a \<in> set (mLocAdapters example_api) \<and> a = 2)"
  by (rule modem_calls_reach_adapters [OF reach_example])

lemma address_and_hex_roundtrip_witness:
  "decodeAddress (Some [9, 9, 9, 9, 9]) 5 (Some (0x91 # encodeAddress [1, 2, 3])) = Some (3, Some [49, 50, 51, 0, 9]) \<and>
   hexcode [9, 9, 9, 9, 9] 5 [10, 255, 7] = Some (2, [48, 65, 70, 70, 0])"
  using address_and_hex_roundtrip [of "[1, 2, 3]" "[9, 9, 9, 9, 9]" "[10, 255, 7]"]
  by (simp add: Let_def hex_pair_def hex_upper_def) (simp add: numeral_eq_Suc)

end
