(* ===== verification/Loc_Context.thy ===== *)
theory Loc_Context
  imports Loc_Process_Conf Gnss_Config Loc_Api_Base
begin

text \<open>
  The contexts of the adapters: gps/core/ContextBase.cpp (the configuration files gps.conf and sap.conf with
  their defaults, the choice of the modem interface) and gps/core/LocDualContext.cpp (the foreground and the
  background context, created on first use on one message task). Libraries that may be present on the
  device are arguments.
\<close>

unbundle bit_operations_syntax

section \<open>The configuration\<close>

text \<open>Destinations: the members of mGps_conf from 100 on, those of mSap_conf from 200 on.\<close>

abbreviation (input) at_GPS_LOCK :: nat where "at_GPS_LOCK \<equiv> 100"
abbreviation (input) at_SUPL_VER :: nat where "at_SUPL_VER \<equiv> 101"
abbreviation (input) at_LPP_PROFILE :: nat where "at_LPP_PROFILE \<equiv> 102"
abbreviation (input) at_A_GLONASS_POS_PROTOCOL_SELECT :: nat where "at_A_GLONASS_POS_PROTOCOL_SELECT \<equiv> 103"
abbreviation (input) at_LPPE_CP_TECHNOLOGY :: nat where "at_LPPE_CP_TECHNOLOGY \<equiv> 104"
abbreviation (input) at_LPPE_UP_TECHNOLOGY :: nat where "at_LPPE_UP_TECHNOLOGY \<equiv> 105"
abbreviation (input) at_AGPS_CERT_WRITABLE_MASK :: nat where "at_AGPS_CERT_WRITABLE_MASK \<equiv> 106"
abbreviation (input) at_SUPL_MODE :: nat where "at_SUPL_MODE \<equiv> 107"
abbreviation (input) at_SUPL_ES :: nat where "at_SUPL_ES \<equiv> 108"
abbreviation (input) at_INTERMEDIATE_POS :: nat where "at_INTERMEDIATE_POS \<equiv> 109"
abbreviation (input) at_ACCURACY_THRES :: nat where "at_ACCURACY_THRES \<equiv> 110"
abbreviation (input) at_NMEA_PROVIDER :: nat where "at_NMEA_PROVIDER \<equiv> 111"
abbreviation (input) at_CAPABILITIES :: nat where "at_CAPABILITIES \<equiv> 112"
abbreviation (input) at_XTRA_VERSION_CHECK :: nat where "at_XTRA_VERSION_CHECK \<equiv> 113"
abbreviation (input) at_XTRA_SERVER_1 :: nat where "at_XTRA_SERVER_1 \<equiv> 114"
abbreviation (input) at_XTRA_SERVER_2 :: nat where "at_XTRA_SERVER_2 \<equiv> 115"
abbreviation (input) at_XTRA_SERVER_3 :: nat where "at_XTRA_SERVER_3 \<equiv> 116"
abbreviation (input) at_USE_EMERGENCY_PDN_FOR_EMERGENCY_SUPL :: nat where "at_USE_EMERGENCY_PDN_FOR_EMERGENCY_SUPL \<equiv> 117"
abbreviation (input) at_AGPS_CONFIG_INJECT :: nat where "at_AGPS_CONFIG_INJECT \<equiv> 118"
abbreviation (input) at_EXTERNAL_DR_ENABLED :: nat where "at_EXTERNAL_DR_ENABLED \<equiv> 119"
abbreviation (input) at_SUPL_HOST :: nat where "at_SUPL_HOST \<equiv> 120"
abbreviation (input) at_SUPL_PORT :: nat where "at_SUPL_PORT \<equiv> 121"

abbreviation (input) at_GYRO_BIAS_RANDOM_WALK :: nat where "at_GYRO_BIAS_RANDOM_WALK \<equiv> 200"
abbreviation (input) at_ACCEL_RANDOM_WALK_SPECTRAL_DENSITY :: nat where "at_ACCEL_RANDOM_WALK_SPECTRAL_DENSITY \<equiv> 201"
abbreviation (input) at_ANGLE_RANDOM_WALK_SPECTRAL_DENSITY :: nat where "at_ANGLE_RANDOM_WALK_SPECTRAL_DENSITY \<equiv> 202"
abbreviation (input) at_RATE_RANDOM_WALK_SPECTRAL_DENSITY :: nat where "at_RATE_RANDOM_WALK_SPECTRAL_DENSITY \<equiv> 203"
abbreviation (input) at_VELOCITY_RANDOM_WALK_SPECTRAL_DENSITY :: nat where "at_VELOCITY_RANDOM_WALK_SPECTRAL_DENSITY \<equiv> 204"
abbreviation (input) at_SENSOR_ACCEL_BATCHES_PER_SEC :: nat where "at_SENSOR_ACCEL_BATCHES_PER_SEC \<equiv> 205"
abbreviation (input) at_SENSOR_ACCEL_SAMPLES_PER_BATCH :: nat where "at_SENSOR_ACCEL_SAMPLES_PER_BATCH \<equiv> 206"
abbreviation (input) at_SENSOR_GYRO_BATCHES_PER_SEC :: nat where "at_SENSOR_GYRO_BATCHES_PER_SEC \<equiv> 207"
abbreviation (input) at_SENSOR_GYRO_SAMPLES_PER_BATCH :: nat where "at_SENSOR_GYRO_SAMPLES_PER_BATCH \<equiv> 208"
abbreviation (input) at_SENSOR_ACCEL_BATCHES_PER_SEC_HIGH :: nat where "at_SENSOR_ACCEL_BATCHES_PER_SEC_HIGH \<equiv> 209"
abbreviation (input) at_SENSOR_ACCEL_SAMPLES_PER_BATCH_HIGH :: nat where "at_SENSOR_ACCEL_SAMPLES_PER_BATCH_HIGH \<equiv> 210"
abbreviation (input) at_SENSOR_GYRO_BATCHES_PER_SEC_HIGH :: nat where "at_SENSOR_GYRO_BATCHES_PER_SEC_HIGH \<equiv> 211"
abbreviation (input) at_SENSOR_GYRO_SAMPLES_PER_BATCH_HIGH :: nat where "at_SENSOR_GYRO_SAMPLES_PER_BATCH_HIGH \<equiv> 212"
abbreviation (input) at_SENSOR_CONTROL_MODE :: nat where "at_SENSOR_CONTROL_MODE \<equiv> 213"
abbreviation (input) at_SENSOR_USAGE :: nat where "at_SENSOR_USAGE \<equiv> 214"
abbreviation (input) at_SENSOR_ALGORITHM_CONFIG_MASK :: nat where "at_SENSOR_ALGORITHM_CONFIG_MASK \<equiv> 215"
abbreviation (input) at_SENSOR_PROVIDER :: nat where "at_SENSOR_PROVIDER \<equiv> 216"

text \<open>A sensor noise parameter has a validity byte beside its value.\<close>

definition noise_param :: "string \<Rightarrow> nat \<Rightarrow> loc_param" where
  "noise_param name p = \<lparr>p_name = name, p_ptr = Some p, p_set = Some p, p_type = CHR ''f''\<rparr>"

definition mGps_conf_table :: "loc_param list" where
  "mGps_conf_table =
     [param ''GPS_LOCK'' at_GPS_LOCK CHR ''n'',
      param ''SUPL_VER'' at_SUPL_VER CHR ''n'',
      param ''LPP_PROFILE'' at_LPP_PROFILE CHR ''n'',
      param ''A_GLONASS_POS_PROTOCOL_SELECT'' at_A_GLONASS_POS_PROTOCOL_SELECT CHR ''n'',
      param ''LPPE_CP_TECHNOLOGY'' at_LPPE_CP_TECHNOLOGY CHR ''n'',
      param ''LPPE_UP_TECHNOLOGY'' at_LPPE_UP_TECHNOLOGY CHR ''n'',
      param ''AGPS_CERT_WRITABLE_MASK'' at_AGPS_CERT_WRITABLE_MASK CHR ''n'',
      param ''SUPL_MODE'' at_SUPL_MODE CHR ''n'',
      param ''SUPL_ES'' at_SUPL_ES CHR ''n'',
      param ''INTERMEDIATE_POS'' at_INTERMEDIATE_POS CHR ''n'',
      param ''ACCURACY_THRES'' at_ACCURACY_THRES CHR ''n'',
      param ''NMEA_PROVIDER'' at_NMEA_PROVIDER CHR ''n'',
      param ''CAPABILITIES'' at_CAPABILITIES CHR ''n'',
      param ''XTRA_VERSION_CHECK'' at_XTRA_VERSION_CHECK CHR ''n'',
      param ''XTRA_SERVER_1'' at_XTRA_SERVER_1 CHR ''s'',
      param ''XTRA_SERVER_2'' at_XTRA_SERVER_2 CHR ''s'',
      param ''XTRA_SERVER_3'' at_XTRA_SERVER_3 CHR ''s'',
      param ''USE_EMERGENCY_PDN_FOR_EMERGENCY_SUPL'' at_USE_EMERGENCY_PDN_FOR_EMERGENCY_SUPL CHR ''n'',
      param ''AGPS_CONFIG_INJECT'' at_AGPS_CONFIG_INJECT CHR ''n'',
      param ''EXTERNAL_DR_ENABLED'' at_EXTERNAL_DR_ENABLED CHR ''n'',
      param ''SUPL_HOST'' at_SUPL_HOST CHR ''s'',
      param ''SUPL_PORT'' at_SUPL_PORT CHR ''n'']"

definition mSap_conf_table :: "loc_param list" where
  "mSap_conf_table =
     [noise_param ''GYRO_BIAS_RANDOM_WALK'' at_GYRO_BIAS_RANDOM_WALK,
      noise_param ''ACCEL_RANDOM_WALK_SPECTRAL_DENSITY'' at_ACCEL_RANDOM_WALK_SPECTRAL_DENSITY,
      noise_param ''ANGLE_RANDOM_WALK_SPECTRAL_DENSITY'' at_ANGLE_RANDOM_WALK_SPECTRAL_DENSITY,
      noise_param ''RATE_RANDOM_WALK_SPECTRAL_DENSITY'' at_RATE_RANDOM_WALK_SPECTRAL_DENSITY,
      noise_param ''VELOCITY_RANDOM_WALK_SPECTRAL_DENSITY'' at_VELOCITY_RANDOM_WALK_SPECTRAL_DENSITY,
      param ''SENSOR_ACCEL_BATCHES_PER_SEC'' at_SENSOR_ACCEL_BATCHES_PER_SEC CHR ''n'',
      param ''SENSOR_ACCEL_SAMPLES_PER_BATCH'' at_SENSOR_ACCEL_SAMPLES_PER_BATCH CHR ''n'',
      param ''SENSOR_GYRO_BATCHES_PER_SEC'' at_SENSOR_GYRO_BATCHES_PER_SEC CHR ''n'',
      param ''SENSOR_GYRO_SAMPLES_PER_BATCH'' at_SENSOR_GYRO_SAMPLES_PER_BATCH CHR ''n'',
      param ''SENSOR_ACCEL_BATCHES_PER_SEC_HIGH'' at_SENSOR_ACCEL_BATCHES_PER_SEC_HIGH CHR ''n'',
      param ''SENSOR_ACCEL_SAMPLES_PER_BATCH_HIGH'' at_SENSOR_ACCEL_SAMPLES_PER_BATCH_HIGH CHR ''n'',
      param ''SENSOR_GYRO_BATCHES_PER_SEC_HIGH'' at_SENSOR_GYRO_BATCHES_PER_SEC_HIGH CHR ''n'',
      param ''SENSOR_GYRO_SAMPLES_PER_BATCH_HIGH'' at_SENSOR_GYRO_SAMPLES_PER_BATCH_HIGH CHR ''n'',
      param ''SENSOR_CONTROL_MODE'' at_SENSOR_CONTROL_MODE CHR ''n'',
      param ''SENSOR_USAGE'' at_SENSOR_USAGE CHR ''n'',
      param ''SENSOR_ALGORITHM_CONFIG_MASK'' at_SENSOR_ALGORITHM_CONFIG_MASK CHR ''n'',
      param ''SENSOR_PROVIDER'' at_SENSOR_PROVIDER CHR ''n'']"

text \<open>The assignments at the start of readConfig.\<close>

definition gps_defaults :: "(nat \<times> 'd pval) list" where
  "gps_defaults =
     [(at_INTERMEDIATE_POS, PNum 0),
      (at_ACCURACY_THRES, PNum 0),
      (at_NMEA_PROVIDER, PNum 0),
      (at_GPS_LOCK, PNum 0),
      (at_SUPL_VER, PNum 0x10000),
      (at_SUPL_MODE, PNum 1),
      (at_SUPL_ES, PNum 0),
      (at_SUPL_HOST, PStr []),
      (at_SUPL_PORT, PNum 0),
      (at_CAPABILITIES, PNum 7),
      (at_LPP_PROFILE, PNum 0),
      (at_A_GLONASS_POS_PROTOCOL_SELECT, PNum 0),
      (at_XTRA_VERSION_CHECK, PNum 0),
      (at_USE_EMERGENCY_PDN_FOR_EMERGENCY_SUPL, PNum 1),
      (at_LPPE_CP_TECHNOLOGY, PNum 0),
      (at_LPPE_UP_TECHNOLOGY, PNum 0),
      (at_AGPS_CERT_WRITABLE_MASK, PNum 0),
      (at_AGPS_CONFIG_INJECT, PNum 1)]"

definition sap_defaults :: "'d fp \<Rightarrow> (nat \<times> 'd pval) list" where
  "sap_defaults F =
     [(at_GYRO_BIAS_RANDOM_WALK, PDouble (fzero F)),
      (at_SENSOR_ACCEL_BATCHES_PER_SEC, PNum 2),
      (at_SENSOR_ACCEL_SAMPLES_PER_BATCH, PNum 5),
      (at_SENSOR_GYRO_BATCHES_PER_SEC, PNum 2),
      (at_SENSOR_GYRO_SAMPLES_PER_BATCH, PNum 5),
      (at_SENSOR_ACCEL_BATCHES_PER_SEC_HIGH, PNum 4),
      (at_SENSOR_ACCEL_SAMPLES_PER_BATCH_HIGH, PNum 25),
      (at_SENSOR_GYRO_BATCHES_PER_SEC_HIGH, PNum 4),
      (at_SENSOR_GYRO_SAMPLES_PER_BATCH_HIGH, PNum 25),
      (at_SENSOR_CONTROL_MODE, PNum 0),
      (at_SENSOR_USAGE, PNum 0),
      (at_SENSOR_ALGORITHM_CONFIG_MASK, PNum 0),
      (at_ACCEL_RANDOM_WALK_SPECTRAL_DENSITY, PDouble (fzero F)),
      (at_ANGLE_RANDOM_WALK_SPECTRAL_DENSITY, PDouble (fzero F)),
      (at_RATE_RANDOM_WALK_SPECTRAL_DENSITY, PDouble (fzero F)),
      (at_VELOCITY_RANDOM_WALK_SPECTRAL_DENSITY, PDouble (fzero F)),
      (at_SENSOR_PROVIDER, PNum 1)]"

definition put_vals :: "(nat \<times> 'd pval) list \<Rightarrow> 'd conf_store \<Rightarrow> 'd conf_store" where
  "put_vals ps st = st\<lparr>vals := vals st ++ map_of ps\<rparr>"

definition set_defaults :: "'d fp \<Rightarrow> 'd conf_store \<Rightarrow> 'd conf_store" where
  "set_defaults F st = clear_sets mSap_conf_table (put_vals (sap_defaults F) (put_vals gps_defaults st))"

definition util_read_conf :: "'d fp \<Rightarrow> string option \<Rightarrow> loc_param list \<Rightarrow> 'd conf_store \<Rightarrow> 'd conf_store" where
  "util_read_conf F file table st =
     loc_read_conf F file (Some table) (of_nat (length table)) loc_param_table st"

text \<open>The files are their contents, None when they cannot be opened.\<close>

definition readConfig :: "'d fp \<Rightarrow> string option \<Rightarrow> string option \<Rightarrow> 'd conf_store \<Rightarrow> 'd conf_store" where
  "readConfig F gps_file sap_file st =
     (let st = set_defaults F st;
          st = util_read_conf F gps_file mGps_conf_table st
      in util_read_conf F sap_file mSap_conf_table st)"

text \<open>The members of mGps_conf that the adapter uses.\<close>

definition gps_cfg_of :: "'d conf_store \<Rightarrow> gps_cfg" where
  "gps_cfg_of st =
     \<lparr>SUPL_VER = num_at st at_SUPL_VER, SUPL_MODE = num_at st at_SUPL_MODE, SUPL_ES = num_at st at_SUPL_ES,
      CAPABILITIES = num_at st at_CAPABILITIES, LPP_PROFILE = num_at st at_LPP_PROFILE,
      USE_EMERGENCY_PDN_FOR_EMERGENCY_SUPL = num_at st at_USE_EMERGENCY_PDN_FOR_EMERGENCY_SUPL,
      GPS_LOCK = num_at st at_GPS_LOCK,
      A_GLONASS_POS_PROTOCOL_SELECT = num_at st at_A_GLONASS_POS_PROTOCOL_SELECT,
      AGPS_CONFIG_INJECT = num_at st at_AGPS_CONFIG_INJECT,
      LPPE_CP_TECHNOLOGY = num_at st at_LPPE_CP_TECHNOLOGY, LPPE_UP_TECHNOLOGY = num_at st at_LPPE_UP_TECHNOLOGY,
      EXTERNAL_DR_ENABLED = num_at st at_EXTERNAL_DR_ENABLED\<rparr>"

text \<open>The message of readConfigCommand: the configuration and the capabilities that the ULP is asked for.\<close>

definition readConfig_proc ::
  "'d fp \<Rightarrow> string option \<Rightarrow> string option \<Rightarrow> 'd conf_store \<Rightarrow> 'd conf_store \<times> u32" where
  "readConfig_proc F gps_file sap_file st =
     (let st = readConfig F gps_file sap_file st in (st, getCarrierCapabilities (gps_cfg_of st)))"

section \<open>The modem interface\<close>

text \<open>A library: None when it is not present, Some None when it lacks the symbol, otherwise what the symbol returns.\<close>

type_synonym lib = "ptr option option"

definition lib_result :: "lib \<Rightarrow> ptr" where
  "lib_result l = (case l of Some (Some r) \<Rightarrow> r | _ \<Rightarrow> None)"

record ctx_env =
  lbs_lib :: lib
  lbs_base :: addr
  no_gnss :: bool
  lbs_api :: "addr \<Rightarrow> event_mask \<Rightarrow> ptr"
  v02_lib :: "event_mask \<Rightarrow> lib"
  rpc_lib :: "event_mask \<Rightarrow> lib"
  api_base :: addr

definition getLBSProxy :: "ctx_env \<Rightarrow> addr" where
  "getLBSProxy env = (case lib_result (lbs_lib env) of None \<Rightarrow> lbs_base env | Some p \<Rightarrow> p)"

definition createLocApi :: "ctx_env \<Rightarrow> addr \<Rightarrow> event_mask \<Rightarrow> addr" where
  "createLocApi env proxy exMask =
     (let locApi =
            (if \<not> no_gnss env
             then case lbs_api env proxy exMask of
                    Some a \<Rightarrow> Some a
                  | None \<Rightarrow> (if v02_lib env exMask \<noteq> None then lib_result (v02_lib env exMask)
                            else lib_result (rpc_lib env exMask))
             else None)
      in case locApi of None \<Rightarrow> api_base env | Some a \<Rightarrow> a)"

record context_base =
  ctx_mLBSProxy :: addr
  ctx_mMsgTask :: addr
  ctx_mLocApi :: addr

definition new_context :: "ctx_env \<Rightarrow> addr \<Rightarrow> event_mask \<Rightarrow> context_base" where
  "new_context env msgTask exMask =
     (let proxy = getLBSProxy env
      in \<lparr>ctx_mLBSProxy = proxy, ctx_mMsgTask = msgTask, ctx_mLocApi = createLocApi env proxy exMask\<rparr>)"

section \<open>The two contexts\<close>

datatype ctx_kind = Fg | Bg

text \<open>Nothing is excluded in the foreground; satellites, NMEA, ioctl, status, geofence alerts and measurements in the background.\<close>

definition exclMask :: "ctx_kind \<Rightarrow> event_mask" where
  "exclMask k = (case k of Fg \<Rightarrow> 0 | Bg \<Rightarrow> 0x2 OR 0x4 OR 0x8 OR 0x80 OR 0x100 OR 0x4000 OR 0x4000000)"

datatype 'm ctx_out = New_task addr | New_context ctx_kind context_base | Inject ctx_kind | Ctx_send ctx_kind 'm

record dual_context =
  dual_msgTask :: ptr
  dual_ctx :: "ctx_kind \<Rightarrow> context_base option"
  dual_inject :: "ctx_kind option"

definition no_contexts :: dual_context where
  "no_contexts = \<lparr>dual_msgTask = None, dual_ctx = \<lambda>_. None, dual_inject = None\<rparr>"

text \<open>\<open>new_task\<close>: the address of a new message task.\<close>

definition getMsgTask :: "addr \<Rightarrow> dual_context \<Rightarrow> addr \<times> 'm ctx_out list \<times> dual_context" where
  "getMsgTask new_task st =
     (case dual_msgTask st of
        Some t \<Rightarrow> (t, [], st)
      | None \<Rightarrow> (new_task, [New_task new_task], st\<lparr>dual_msgTask := Some new_task\<rparr>))"

definition injectFeatureConfig :: "ctx_kind \<Rightarrow> dual_context \<Rightarrow> 'm ctx_out list" where
  "injectFeatureConfig k st = (if dual_inject st = Some k then [Inject k] else [])"

text \<open>getLocFgContext and getLocBgContext.\<close>

definition getLocContext ::
  "ctx_env \<Rightarrow> addr \<Rightarrow> ctx_kind \<Rightarrow> 'm option \<Rightarrow> dual_context \<Rightarrow> context_base \<times> 'm ctx_out list \<times> dual_context" where
  "getLocContext env new_task k firstMsg st =
     (let (c, o1, st) =
            (case dual_ctx st k of
               Some c \<Rightarrow> (c, [], st)
             | None \<Rightarrow>
                 (let (t, o1, st) = getMsgTask new_task st; c = new_context env t (exclMask k)
                  in (c, o1 @ [New_context k c], st\<lparr>dual_ctx := (dual_ctx st)(k := Some c)\<rparr>)));
          (o2, st) =
            (if dual_inject st = None
             then (let st = st\<lparr>dual_inject := Some k\<rparr> in (injectFeatureConfig k st, st))
             else ([], st));
          o3 = (case firstMsg of None \<Rightarrow> [] | Some m \<Rightarrow> [Ctx_send k m])
      in (c, o1 @ o2 @ o3, st))"

end
