(* ===== verification/Loc_Context_Props.thy ===== *)
theory Loc_Context_Props
  imports Loc_Process_Props Loc_Context
begin

text \<open>
  The correctness of the contexts: what readConfig makes of the two configuration files, and that every
  context is created once on one message task.
\<close>

section \<open>Reading a table\<close>

lemma clear_sets_vals [simp]: "vals (clear_sets es st) = vals st"
  by (induction es arbitrary: st) (simp_all split: option.split)









section \<open>The two tables\<close>









lemma table_lengths [simp]: "length mGps_conf_table = 22" "length mSap_conf_table = 17"
  by (simp_all add: mGps_conf_table_def mSap_conf_table_def)






section \<open>Properties of the configuration\<close>


section \<open>The modem interface\<close>

text \<open>Without a GNSS target, or when no library gives one, the interface is the dummy of the base class.\<close>

lemma createLocApi_dummy:
  "no_gnss env \<Longrightarrow> createLocApi env proxy m = api_base env"
  "lbs_api env proxy m = None \<Longrightarrow> v02_lib env m = None \<Longrightarrow> rpc_lib env m = None \<Longrightarrow> createLocApi env proxy m = api_base env"
  by (simp_all add: createLocApi_def lib_result_def)

text \<open>A V02 library that gives no interface hides the RPC one.\<close>

lemma createLocApi_v02_hides_rpc:
  "lbs_api env proxy m = None \<Longrightarrow> v02_lib env m = Some None \<Longrightarrow> createLocApi env proxy m = api_base env"
  by (simp add: createLocApi_def lib_result_def)

section \<open>The two contexts\<close>

fun dual_run :: "ctx_env \<Rightarrow> addr \<Rightarrow> (ctx_kind \<times> 'm option) list \<Rightarrow> dual_context \<Rightarrow> 'm ctx_out list \<times> dual_context" where
  "dual_run env t [] st = ([], st)"
| "dual_run env t ((k, m) # calls) st =
     (let (c, out, st) = getLocContext env t k m st; (outs, st) = dual_run env t calls st in (out @ outs, st))"

text \<open>What has been created when the kinds \<open>seen\<close> have been asked for, the first one first.\<close>

definition dual_ok :: "ctx_env \<Rightarrow> addr \<Rightarrow> ctx_kind list \<Rightarrow> dual_context \<Rightarrow> bool" where
  "dual_ok env t seen st \<longleftrightarrow>
     dual_msgTask st = (if seen = [] then None else Some t) \<and>
     dual_ctx st = (\<lambda>k. if k \<in> set seen then Some (new_context env t (exclMask k)) else None) \<and>
     dual_inject st = (if seen = [] then None else Some (hd seen))"

lemma dual_ok_start: "dual_ok env t [] no_contexts"
  by (simp add: dual_ok_def no_contexts_def)

definition first_calls :: "ctx_env \<Rightarrow> addr \<Rightarrow> ctx_kind list \<Rightarrow> ctx_kind \<Rightarrow> 'm option \<Rightarrow> 'm ctx_out list" where
  "first_calls env t seen k m =
     (if seen = [] then [New_task t] else []) @
     (if k \<in> set seen then [] else [New_context k (new_context env t (exclMask k))]) @
     (if seen = [] then [Inject k] else []) @ (case m of None \<Rightarrow> [] | Some m \<Rightarrow> [Ctx_send k m])"

lemma getLocContext_ok:
  assumes "dual_ok env t seen st"
  shows "\<exists>st'. getLocContext env t k m st = (new_context env t (exclMask k), first_calls env t seen k m, st') \<and>
    dual_ok env t (seen @ [k]) st'"
  using assms
  by (cases "k \<in> set seen"; cases "seen = []")
    (auto simp: dual_ok_def getLocContext_def getMsgTask_def injectFeatureConfig_def first_calls_def fun_eq_iff Let_def)

lemma context_created_once:
  "filter (\<lambda>x. \<exists>c. x = New_context k c) (fst (dual_run env t calls no_contexts)) =
     (if k \<in> fst ` set calls then [New_context k (new_context env t (exclMask k))] else [])"
proof -
  have one: "filter (\<lambda>x. \<exists>c. x = New_context k c) (first_calls env t seen k' m) =
      (if k' = k \<and> k \<notin> set seen then [New_context k (new_context env t (exclMask k))] else [])" for seen k' m
    by (auto simp: first_calls_def split: option.split)
  have "dual_ok env t seen st \<Longrightarrow> filter (\<lambda>x. \<exists>c. x = New_context k c) (fst (dual_run env t calls st)) =
     (if k \<in> fst ` set calls \<and> k \<notin> set seen then [New_context k (new_context env t (exclMask k))] else [])" for seen st
  proof (induction calls arbitrary: seen st)
    case (Cons p calls)
    obtain k' m where p: "p = (k', m)" by fastforce
    obtain st1 where st1: "getLocContext env t k' m st = (new_context env t (exclMask k'), first_calls env t seen k' m, st1)"
      "dual_ok env t (seen @ [k']) st1" using getLocContext_ok [OF Cons.prems] by blast
    from Cons.IH [OF st1(2)] st1(1) show ?case by (auto simp: p one split_beta)
  qed simp
  from this [OF dual_ok_start] show ?thesis by simp
qed

lemma features_injected_once:
  "filter (\<lambda>x. \<exists>k. x = Inject k) (fst (dual_run env t calls no_contexts)) = (case calls of [] \<Rightarrow> [] | p # _ \<Rightarrow> [Inject (fst p)])"
proof -
  have later: "dual_ok env t seen st \<Longrightarrow> seen \<noteq> [] \<Longrightarrow> filter (\<lambda>x. \<exists>k. x = Inject k) (fst (dual_run env t calls st)) = []"
    for seen st and calls :: "(ctx_kind \<times> 'a option) list"
  proof (induction calls arbitrary: seen st)
    case (Cons p calls)
    obtain k' m where p: "p = (k', m)" by fastforce
    obtain st1 where st1: "getLocContext env t k' m st = (new_context env t (exclMask k'), first_calls env t seen k' m, st1)"
      "dual_ok env t (seen @ [k']) st1" using getLocContext_ok [OF Cons.prems(1)] by blast
    from Cons.IH [OF st1(2)] st1(1) Cons.prems(2) show ?case
      by (auto simp: p split_beta first_calls_def split: option.split)
  qed simp
  show ?thesis
  proof (cases calls)
    case (Cons p cs)
    obtain k m where p: "p = (k, m)" by fastforce
    obtain st1 where st1: "getLocContext env t k m no_contexts = (new_context env t (exclMask k), first_calls env t [] k m, st1)"
      "dual_ok env t ([] @ [k]) st1" using getLocContext_ok [OF dual_ok_start] by blast
    from later [OF st1(2)] st1(1) show ?thesis
      by (simp add: Cons p split_beta first_calls_def split: option.split)
  qed simp
qed

section \<open>Example\<close>







end
