(* ===== verification/Gnss_Reports.thy ===== *)
theory Gnss_Reports
  imports Gnss_Adapter Nmea_Gen System_Status Loc_Context
begin

text \<open>
  The reports of the GNSS adapter, gps/gnss/GnssAdapter.cpp: positions, satellites, NMEA sentences and
  measurements on their way from the modem to the clients, the cache of SystemStatus they pass, the debug
  report made from it, and the injection commands. An event queues a message for the adapter's thread;
  \<open>rep_proc\<close> is what the thread does with it. Floating point numbers are a type \<open>'d\<close> with the
  operations used (a float converted to double is the same number); the time of a notification is left out.
\<close>

unbundle bit_operations_syntax

section \<open>Positions\<close>

text \<open>What the sentences of loc_nmea.cpp do not use.\<close>

record 'd FullLocation = "'d UlpLocation" +
  accuracy :: 'd
  rawData :: ptr

record 'd FullExtended = "'d GpsLocationExtended" +
  vert_unc :: 'd
  speed_unc :: 'd
  bearing_unc :: 'd
  horizontal_reliability :: nat
  vertical_reliability :: nat
  horUncEllipseSemiMajor :: 'd
  horUncEllipseSemiMinor :: 'd
  horUncEllipseOrientAzimuth :: 'd

text \<open>\<open>exceeds\<close>: a float against an unsigned number; \<open>shift1\<close>: the int 1 shifted (also by 32 or more).\<close>

record 'd rep_fp =
  rp_zero :: 'd
  is_zero :: "'d \<Rightarrow> bool"
  exceeds :: "'d \<Rightarrow> u32 \<Rightarrow> bool"
  to_degrees :: "'d \<Rightarrow> 'd"
  rp_of_int :: "int \<Rightarrow> 'd"
  time_unc_ns :: "int \<Rightarrow> int \<Rightarrow> 'd"
  shift1 :: "int \<Rightarrow> u32"

record 'd Location =
  l_flags :: "16 word"
  l_timestamp :: int
  l_latitude :: 'd
  l_longitude :: 'd
  l_altitude :: 'd
  l_speed :: 'd
  l_bearing :: 'd
  l_accuracy :: 'd
  l_verticalAccuracy :: 'd
  l_speedAccuracy :: 'd
  l_bearingAccuracy :: 'd
  l_techMask :: "16 word"

definition no_location :: "'d rep_fp \<Rightarrow> 'd Location" where
  "no_location F =
     \<lparr>l_flags = 0, l_timestamp = 0, l_latitude = rp_zero F, l_longitude = rp_zero F, l_altitude = rp_zero F,
      l_speed = rp_zero F, l_bearing = rp_zero F, l_accuracy = rp_zero F, l_verticalAccuracy = rp_zero F,
      l_speedAccuracy = rp_zero F, l_bearingAccuracy = rp_zero F, l_techMask = 0\<rparr>"

text \<open>One \<open>if\<close> of the conversions: when the bit is set, the flag is set and the member copied.\<close>

definition copy_if :: "bool \<Rightarrow> ('r \<Rightarrow> 'r) \<Rightarrow> 'r \<Rightarrow> 'r" where
  "copy_if c f out = (if c then f out else out)"

definition convertLocation :: "'d rep_fp \<Rightarrow> 'd FullLocation \<Rightarrow> 'd FullExtended \<Rightarrow> u32 \<Rightarrow> 'd Location" where
  "convertLocation F loc ext techMask =
     (let has = (\<lambda>b. b AND ul_flags loc \<noteq> 0); has_ext = (\<lambda>b. b AND ext_flags ext \<noteq> 0);
          tech = (\<lambda>b. b AND techMask \<noteq> 0);
          out = no_location F;
          out = copy_if (has 0x01) (\<lambda>out. out\<lparr>l_flags := l_flags out OR 0x01, l_latitude := ul_latitude loc, l_longitude := ul_longitude loc\<rparr>) out;
          out = copy_if (has 0x02) (\<lambda>out. out\<lparr>l_flags := l_flags out OR 0x02, l_altitude := ul_altitude loc\<rparr>) out;
          out = copy_if (has 0x04) (\<lambda>out. out\<lparr>l_flags := l_flags out OR 0x04, l_speed := speed loc\<rparr>) out;
          out = copy_if (has 0x08) (\<lambda>out. out\<lparr>l_flags := l_flags out OR 0x08, l_bearing := bearing loc\<rparr>) out;
          out = copy_if (has 0x10) (\<lambda>out. out\<lparr>l_flags := l_flags out OR 0x10, l_accuracy := accuracy loc\<rparr>) out;
          out = copy_if (has_ext 0x10) (\<lambda>out. out\<lparr>l_flags := l_flags out OR 0x20, l_verticalAccuracy := vert_unc ext\<rparr>) out;
          out = copy_if (has_ext 0x20) (\<lambda>out. out\<lparr>l_flags := l_flags out OR 0x40, l_speedAccuracy := speed_unc ext\<rparr>) out;
          out = copy_if (has_ext 0x40) (\<lambda>out. out\<lparr>l_flags := l_flags out OR 0x80, l_bearingAccuracy := bearing_unc ext\<rparr>) out;
          out = out\<lparr>l_timestamp := timestamp loc\<rparr>;
          out = copy_if (tech 0x1) (\<lambda>out. out\<lparr>l_techMask := l_techMask out OR 0x1\<rparr>) out;
          out = copy_if (tech 0x2) (\<lambda>out. out\<lparr>l_techMask := l_techMask out OR 0x2\<rparr>) out;
          out = copy_if (tech 0x4) (\<lambda>out. out\<lparr>l_techMask := l_techMask out OR 0x4\<rparr>) out;
          out = copy_if (tech 0x8) (\<lambda>out. out\<lparr>l_techMask := l_techMask out OR 0x8\<rparr>) out
      in out)"

record 'd LocationInfo =
  i_flags :: u32
  i_altitudeMeanSeaLevel :: 'd
  i_pdop :: 'd
  i_hdop :: 'd
  i_vdop :: 'd
  i_magneticDeviation :: 'd
  i_horReliability :: nat
  i_verReliability :: nat
  i_horUncEllipseSemiMajor :: 'd
  i_horUncEllipseSemiMinor :: 'd
  i_horUncEllipseOrientAzimuth :: 'd

definition no_info :: "'d rep_fp \<Rightarrow> 'd LocationInfo" where
  "no_info F =
     \<lparr>i_flags = 0, i_altitudeMeanSeaLevel = rp_zero F, i_pdop = rp_zero F, i_hdop = rp_zero F, i_vdop = rp_zero F,
      i_magneticDeviation = rp_zero F, i_horReliability = 0, i_verReliability = 0,
      i_horUncEllipseSemiMajor = rp_zero F, i_horUncEllipseSemiMinor = rp_zero F, i_horUncEllipseOrientAzimuth = rp_zero F\<rparr>"

text \<open>Both enumerations run from NOT_SET, 0, to HIGH, 4; anything else is not set.\<close>

definition convertReliability :: "nat \<Rightarrow> nat" where
  "convertReliability r = (if r \<in> {1, 2, 3, 4} then r else 0)"

definition convertLocationInfo :: "'d FullExtended \<Rightarrow> 'd LocationInfo \<Rightarrow> 'd LocationInfo" where
  "convertLocationInfo ext out =
     (let has = (\<lambda>b. b AND ext_flags ext \<noteq> 0);
          out = copy_if (has 0x2) (\<lambda>out. out\<lparr>i_flags := i_flags out OR 0x1, i_altitudeMeanSeaLevel := altitudeMeanSeaLevel ext\<rparr>) out;
          out = copy_if (has 0x1) (\<lambda>out. out\<lparr>i_flags := i_flags out OR 0x2, i_pdop := pdop ext, i_hdop := hdop ext, i_vdop := vdop ext\<rparr>) out;
          out = copy_if (has 0x4) (\<lambda>out. out\<lparr>i_flags := i_flags out OR 0x4, i_magneticDeviation := magneticDeviation ext\<rparr>) out;
          out = copy_if (has 0x80) (\<lambda>out. out\<lparr>i_flags := i_flags out OR 0x8, i_horReliability := convertReliability (horizontal_reliability ext)\<rparr>) out;
          out = copy_if (has 0x100) (\<lambda>out. out\<lparr>i_flags := i_flags out OR 0x10, i_verReliability := convertReliability (vertical_reliability ext)\<rparr>) out;
          out = copy_if (has 0x200) (\<lambda>out. out\<lparr>i_flags := i_flags out OR 0x20, i_horUncEllipseSemiMajor := horUncEllipseSemiMajor ext\<rparr>) out;
          out = copy_if (has 0x400) (\<lambda>out. out\<lparr>i_flags := i_flags out OR 0x40, i_horUncEllipseSemiMinor := horUncEllipseSemiMinor ext\<rparr>) out;
          out = copy_if (has 0x800) (\<lambda>out. out\<lparr>i_flags := i_flags out OR 0x80, i_horUncEllipseOrientAzimuth := horUncEllipseOrientAzimuth ext\<rparr>) out
      in out)"

section \<open>Satellites\<close>

record sv_used_masks =
  used_gps :: "64 word"
  used_glo :: "64 word"
  used_gal :: "64 word"
  used_bds :: "64 word"
  used_qzss :: "64 word"

definition used_masks_of :: "'d FullExtended \<Rightarrow> sv_used_masks" where
  "used_masks_of ext =
     \<lparr>used_gps = gps_sv_used_ids_mask ext, used_glo = glo_sv_used_ids_mask ext, used_gal = gal_sv_used_ids_mask ext,
      used_bds = bds_sv_used_ids_mask ext, used_qzss = qzss_sv_used_ids_mask ext\<rparr>"

definition used_mask_of :: "sv_used_masks \<Rightarrow> GnssSvType \<Rightarrow> 64 word" where
  "used_mask_of u t =
     (case t of
        GNSS_SV_TYPE_GPS \<Rightarrow> used_gps u | GNSS_SV_TYPE_GLONASS \<Rightarrow> used_glo u | GNSS_SV_TYPE_BEIDOU \<Rightarrow> used_bds u
      | GNSS_SV_TYPE_GALILEO \<Rightarrow> used_gal u | GNSS_SV_TYPE_QZSS \<Rightarrow> used_qzss u | _ \<Rightarrow> 0)"

text \<open>
  The loop body of reportSv: the mask is compared with an int shifted by the id, which is extended with
  its sign; the ids of QZSS are raised by 192.
\<close>

definition mark_used :: "'d rep_fp \<Rightarrow> bool \<Rightarrow> sv_used_masks \<Rightarrow> 'd GnssSv \<Rightarrow> 'd GnssSv" where
  "mark_used F avail u sv =
     (let svUsedIdMask = (if avail then used_mask_of u (sv_type sv) else 0); gnssSvId = svId sv;
          sv = (if sv_type sv = GNSS_SV_TYPE_QZSS then sv\<lparr>svId := svId sv + 192\<rparr> else sv)
      in if svUsedIdMask AND scast (shift1 F (sint gnssSvId - 1)) \<noteq> 0
         then sv\<lparr>gnssSvOptionsMask := gnssSvOptionsMask sv OR 4\<rparr> else sv)"

section \<open>Measurements\<close>

record 'd Measurement =
  me_svType :: GnssSvType
  me_flags :: u32
  me_agcLevelDb :: 'd

definition agc_of :: "'d SystemStatusRfAndParams \<Rightarrow> GnssSvType \<Rightarrow> 'd option" where
  "agc_of rf t =
     (case t of
        GNSS_SV_TYPE_GPS \<Rightarrow> Some (rf_AgcGps rf) | GNSS_SV_TYPE_QZSS \<Rightarrow> Some (rf_AgcGps rf)
      | GNSS_SV_TYPE_GALILEO \<Rightarrow> Some (rf_AgcGal rf) | GNSS_SV_TYPE_GLONASS \<Rightarrow> Some (rf_AgcGlo rf)
      | GNSS_SV_TYPE_BEIDOU \<Rightarrow> Some (rf_AgcBds rf) | _ \<Rightarrow> None)"

definition set_agc :: "'d SystemStatusRfAndParams \<Rightarrow> 'd Measurement \<Rightarrow> 'd Measurement" where
  "set_agc rf m =
     (case agc_of rf (me_svType m) of None \<Rightarrow> m | Some a \<Rightarrow> m\<lparr>me_agcLevelDb := a, me_flags := me_flags m OR 0x20000\<rparr>)"

definition getAgcInformation ::
  "('d, 'l, 's) SystemStatusReports option \<Rightarrow> u32 \<Rightarrow> 'd Measurement list \<Rightarrow> 'd Measurement list" where
  "getAgcInformation systemstatus msInWeek ms =
     (case systemstatus of
        None \<Rightarrow> ms
      | Some c \<Rightarrow>
          (let reports = snd (getReport True c)
           in if r_RfAndParams reports \<noteq> [] \<and> r_TimeAndClock reports \<noteq> [] \<and>
                 \<bar>sint msInWeek - sint (tc_GpsTowMs (body (last (r_TimeAndClock reports))))\<bar> < 2000
              then map (set_agc (body (last (r_RfAndParams reports)))) ms else ms))"

section \<open>The adapter\<close>

datatype loc_sess_status = LOC_SESS_SUCCESS | LOC_SESS_INTERMEDIATE | LOC_SESS_FAILURE

text \<open>What SystemStatus keeps of a position.\<close>

type_synonym 'd position = "'d FullLocation \<times> 'd FullExtended"

datatype 'd rep_msg =
    MsgReportPosition "'d FullLocation" "'d FullExtended" loc_sess_status u32
  | MsgReportSv "'d GnssSv list"
  | MsgReportNmea string nat
  | MsgReportGnssMeasurementData "'d Measurement list"
  | MsgInjectLocation 'd 'd 'd
  | MsgInjectTime int int int
  | MsgDeleteAidingData u32 bool
  | MsgGetZpp
  | UpdateXtraThrottleMsg bool

datatype 'd rep_out =
    TrackingCb addr "'d Location"
  | LocationInfoCb addr "'d LocationInfo"
  | GnssSvCb addr "'d GnssSv list"
  | GnssNmeaCb addr string
  | GnssMeasurementsCb addr "'d Measurement list"
  | FreeRawData addr
  | UlpReportPosition "'d FullLocation" "'d FullExtended" loc_sess_status u32
  | UlpReportSvMeasurement
  | UlpReportSvPolynomial
  | ApiInjectPosition 'd 'd 'd
  | ApiSetTime int int int
  | ApiDeleteAidingData bool
  | XtraThrottle bool
  | AdapterOut ga_out

text \<open>The members of mGps_conf that reporting uses.\<close>

record rep_cfg =
  INTERMEDIATE_POS :: u32
  ACCURACY_THRES :: u32
  NMEA_PROVIDER :: u32

definition rep_cfg_of :: "'d conf_store \<Rightarrow> rep_cfg" where
  "rep_cfg_of st =
     \<lparr>INTERMEDIATE_POS = num_at st at_INTERMEDIATE_POS, ACCURACY_THRES = num_at st at_ACCURACY_THRES,
      NMEA_PROVIDER = num_at st at_NMEA_PROVIDER\<rparr>"

text \<open>
  What comes from outside: whether a ULP takes a report over, the modem's result of deleting aiding data and
  its best available fix, the C library and the floating point operations.
\<close>

record 'd rep_env =
  fp :: "'d rep_fp"
  nfp :: "'d nmea_fp"
  sfp :: "'d fp_ops"
  libc_gmtime :: "int \<Rightarrow> tm option"
  uninit :: "('d, 'd position) garbage"
  clock_now :: nat
  ulp_position :: bool
  ulp_sv :: bool
  ulp_nmea :: bool
  has_cpi :: bool
  aiding_err :: LocationError
  zpp_fix :: "'d FullLocation \<times> 'd FullExtended \<times> u32"

record ('d, 's) reporter =
  rep_ga :: gnss_adapter
  rep_conf :: rep_cfg
  mGnssSvIdUsedInPosAvail :: bool
  mGnssSvIdUsedInPosition :: sv_used_masks
  mSystemStatus :: "('d, 'd position, 's) SystemStatusReports option"
  rep_msgs :: "'d rep_msg list"

definition rep_sendMsg :: "'d rep_msg \<Rightarrow> ('d, 's) reporter \<Rightarrow> ('d, 's) reporter" where
  "rep_sendMsg m st = st\<lparr>rep_msgs := rep_msgs st @ [m]\<rparr>"

definition clients :: "(callbacks \<Rightarrow> bool) \<Rightarrow> ('d, 's) reporter \<Rightarrow> addr list" where
  "clients has st = map fst (filter (\<lambda>(c, cb). has cb) (mClientData (rep_ga st)))"

definition reportNmea :: "string \<Rightarrow> ('d, 's) reporter \<Rightarrow> 'd rep_out list" where
  "reportNmea nmea st = map (\<lambda>c. GnssNmeaCb c nmea) (clients gnssNmeaCb st)"

text \<open>The sentences are generated on the application processor and some session runs.\<close>

definition generates_nmea :: "('d, 's) reporter \<Rightarrow> bool" where
  "generates_nmea st \<longleftrightarrow> NMEA_PROVIDER (rep_conf st) = 0 \<and> mTrackingSessions (rep_ga st) \<noteq> []"

section \<open>Reporting\<close>

definition needReport :: "'d rep_fp \<Rightarrow> rep_cfg \<Rightarrow> 'd FullLocation \<Rightarrow> loc_sess_status \<Rightarrow> u32 \<Rightarrow> bool" where
  "needReport F cfg loc status techMask =
     (if status = LOC_SESS_SUCCESS then (0x1 OR 0x8 OR 0x80) AND techMask \<noteq> 0
      else if status = LOC_SESS_INTERMEDIATE \<and> INTERMEDIATE_POS cfg = 1
      then \<not> (ul_flags loc AND 0x10 \<noteq> 0 \<and> ACCURACY_THRES cfg \<noteq> 0 \<and> exceeds F (accuracy loc) (ACCURACY_THRES cfg))
      else False)"

definition position_callbacks ::
  "'d rep_fp \<Rightarrow> 'd FullLocation \<Rightarrow> 'd FullExtended \<Rightarrow> u32 \<Rightarrow> addr \<times> callbacks \<Rightarrow> 'd rep_out list" where
  "position_callbacks F loc ext techMask p =
     (case p of (c, cb) \<Rightarrow>
        (if trackingCb cb then [TrackingCb c (convertLocation F loc ext techMask)] else []) @
        (if gnssLocationInfoCb cb then [LocationInfoCb c (convertLocationInfo ext (no_info F))] else []))"

text \<open>The sentences of the position; None when one overruns its buffer.\<close>

definition position_nmea ::
  "'d rep_env \<Rightarrow> bool \<Rightarrow> 'd FullLocation \<Rightarrow> 'd FullExtended \<Rightarrow> loc_sess_status \<Rightarrow> string list option" where
  "position_nmea env reported loc ext status =
     (let blank_fix = (is_zero (fp env) (ul_latitude loc) \<and> is_zero (fp env) (ul_longitude loc) \<and> horizontal_reliability ext = 0);
          generate_nmea = (reported \<and> status \<noteq> LOC_SESS_FAILURE \<and> \<not> blank_fix)
      in loc_nmea_generate_pos (nfp env) (libc_gmtime env) (UlpLocation.truncate loc) (GpsLocationExtended.truncate ext) generate_nmea)"

definition report_sentences :: "string list \<Rightarrow> ('d, 's) reporter \<Rightarrow> 'd rep_out list" where
  "report_sentences sentences st = concat (map (\<lambda>s. reportNmea s st) sentences)"

definition reportPosition ::
  "'d rep_env \<Rightarrow> 'd FullLocation \<Rightarrow> 'd FullExtended \<Rightarrow> loc_sess_status \<Rightarrow> u32 \<Rightarrow> ('d, 's) reporter \<Rightarrow>
   ('d rep_out list \<times> ('d, 's) reporter) option" where
  "reportPosition env loc ext status techMask st =
     (let reported = needReport (fp env) (rep_conf st) loc status techMask;
          st = st\<lparr>mGnssSvIdUsedInPosAvail := False\<rparr>;
          st = (if reported \<and> ext_flags ext AND 0x1000 \<noteq> 0
                then st\<lparr>mGnssSvIdUsedInPosAvail := True, mGnssSvIdUsedInPosition := used_masks_of ext\<rparr> else st);
          o1 = (if reported then concat (map (position_callbacks (fp env) loc ext techMask) (mClientData (rep_ga st))) else []);
          o3 = (case rawData loc of None \<Rightarrow> [] | Some a \<Rightarrow> [FreeRawData a])
      in map_option (\<lambda>sentences. (o1 @ report_sentences sentences st @ o3, st))
           (if generates_nmea st then position_nmea env reported loc ext status else Some []))"

definition reportSv ::
  "'d rep_env \<Rightarrow> 'd GnssSv list \<Rightarrow> ('d, 's) reporter \<Rightarrow> ('d rep_out list \<times> ('d, 's) reporter) option" where
  "reportSv env svs st =
     (let svs = map (mark_used (fp env) (mGnssSvIdUsedInPosAvail st) (mGnssSvIdUsedInPosition st)) svs;
          o1 = map (\<lambda>c. GnssSvCb c svs) (clients gnssSvCb st)
      in map_option (\<lambda>sentences. (o1 @ report_sentences sentences st, st\<lparr>mGnssSvIdUsedInPosAvail := False\<rparr>))
           (if generates_nmea st then loc_nmea_generate_sv (nfp env) svs else Some []))"

definition reportGnssMeasurementData :: "'d Measurement list \<Rightarrow> ('d, 's) reporter \<Rightarrow> 'd rep_out list" where
  "reportGnssMeasurementData ms st = map (\<lambda>c. GnssMeasurementsCb c ms) (clients gnssMeasurementsCb st)"

section \<open>Events\<close>

definition reportPositionEvent ::
  "'d rep_env \<Rightarrow> 'd FullLocation \<Rightarrow> 'd FullExtended \<Rightarrow> loc_sess_status \<Rightarrow> u32 \<Rightarrow> bool \<Rightarrow> ('d, 's) reporter \<Rightarrow>
   'd rep_out list \<times> ('d, 's) reporter" where
  "reportPositionEvent env loc ext status techMask fromUlp st =
     (let out = (if fromUlp then [] else [UlpReportPosition loc ext status techMask])
      in if \<not> fromUlp \<and> ulp_position env then (out, st)
         else (out, rep_sendMsg (MsgReportPosition loc ext status techMask) st))"

definition reportSvEvent :: "'d rep_env \<Rightarrow> 'd GnssSv list \<Rightarrow> bool \<Rightarrow> ('d, 's) reporter \<Rightarrow> ('d, 's) reporter" where
  "reportSvEvent env svs fromUlp st = (if \<not> fromUlp \<and> ulp_sv env then st else rep_sendMsg (MsgReportSv svs) st)"

definition reportNmeaEvent :: "'d rep_env \<Rightarrow> string \<Rightarrow> nat \<Rightarrow> bool \<Rightarrow> ('d, 's) reporter \<Rightarrow> ('d, 's) reporter" where
  "reportNmeaEvent env nmea len fromUlp st =
     (if \<not> fromUlp \<and> \<not> loc_nmea_is_debug nmea len \<and> ulp_nmea env then st
      else rep_sendMsg (MsgReportNmea (take len nmea) len) st)"

definition reportGnssMeasurementDataEvent :: "'d Measurement list \<Rightarrow> u32 \<Rightarrow> ('d, 's) reporter \<Rightarrow> ('d, 's) reporter" where
  "reportGnssMeasurementDataEvent ms msInWeek st =
     rep_sendMsg (MsgReportGnssMeasurementData
       (if msInWeek \<noteq> -1 then getAgcInformation (mSystemStatus st) msInWeek ms else ms)) st"

definition injectLocationCommand :: "'d \<Rightarrow> 'd \<Rightarrow> 'd \<Rightarrow> ('d, 's) reporter \<Rightarrow> ('d, 's) reporter" where
  "injectLocationCommand lat lon acc st = rep_sendMsg (MsgInjectLocation lat lon acc) st"

definition injectTimeCommand :: "int \<Rightarrow> int \<Rightarrow> int \<Rightarrow> ('d, 's) reporter \<Rightarrow> ('d, 's) reporter" where
  "injectTimeCommand t ref unc st = rep_sendMsg (MsgInjectTime t ref unc) st"

definition gnssDeleteAidingDataCommand :: "bool \<Rightarrow> ('d, 's) reporter \<Rightarrow> u32 \<times> ('d, 's) reporter" where
  "gnssDeleteAidingDataCommand deleteAll st =
     (let (sessionId, ga) = generateSessionId (rep_ga st)
      in (sessionId, rep_sendMsg (MsgDeleteAidingData sessionId deleteAll) (st\<lparr>rep_ga := ga\<rparr>)))"

definition gnssUpdateXtraThrottleCommand :: "bool \<Rightarrow> ('d, 's) reporter \<Rightarrow> ('d, 's) reporter" where
  "gnssUpdateXtraThrottleCommand enabled st = rep_sendMsg (UpdateXtraThrottleMsg enabled) st"

definition getZppCommand :: "('d, 's) reporter \<Rightarrow> ('d, 's) reporter" where
  "getZppCommand st = rep_sendMsg MsgGetZpp st"

section \<open>Messages\<close>

text \<open>The position as the cache keeps it.\<close>

definition position_item :: "'d FullLocation \<Rightarrow> 'd FullExtended \<Rightarrow> ('d, 'd position) SystemStatusLocation" where
  "position_item loc ext =
     \<lparr>mValid = True, latitude = ul_latitude loc, longitude = ul_longitude loc, altitude = ul_altitude loc,
      loc_rest = (loc, ext)\<rparr>"

definition upd_status ::
  "(('d, 'd position, 's) SystemStatusReports \<Rightarrow> ('d, 'd position, 's) SystemStatusReports) \<Rightarrow> ('d, 's) reporter \<Rightarrow> ('d, 's) reporter" where
  "upd_status f st = st\<lparr>mSystemStatus := map_option f (mSystemStatus st)\<rparr>"

definition zpp_location :: "'d FullLocation \<Rightarrow> 'd FullLocation" where
  "zpp_location loc = loc\<lparr>ul_flags := ul_flags loc OR 0x20\<rparr>"

fun rep_proc :: "'d rep_env \<Rightarrow> 'd rep_msg \<Rightarrow> ('d, 's) reporter \<Rightarrow> ('d rep_out list \<times> ('d, 's) reporter) option" where
  "rep_proc env (MsgReportPosition loc ext status techMask) st =
     (let st = (if status = LOC_SESS_SUCCESS \<or> status = LOC_SESS_INTERMEDIATE
                then upd_status (\<lambda>c. snd (eventPosition (sfp env) (clock_now env) (position_item loc ext) c)) st else st)
      in reportPosition env loc ext status techMask st)"
| "rep_proc env (MsgReportSv svs) st = reportSv env svs st"
| "rep_proc env (MsgReportNmea nmea len) st =
     (case mSystemStatus st of
        None \<Rightarrow> Some (reportNmea nmea st, st)
      | Some c \<Rightarrow>
          let (ret, c) = setNmeaString (sfp env) (uninit env) (clock_now env) nmea len c; st = st\<lparr>mSystemStatus := Some c\<rparr>
          in Some (if ret then [] else reportNmea nmea st, st))"
| "rep_proc env (MsgReportGnssMeasurementData ms) st = Some (reportGnssMeasurementData ms st, st)"
| "rep_proc env (MsgInjectLocation lat lon acc) st = Some (if has_cpi env then [] else [ApiInjectPosition lat lon acc], st)"
| "rep_proc env (MsgInjectTime t ref unc) st = Some ([ApiSetTime t ref unc], st)"
| "rep_proc env (MsgDeleteAidingData sessionId deleteAll) st =
     Some (ApiDeleteAidingData deleteAll # map AdapterOut (control_reportResponse (aiding_err env) sessionId (rep_ga st)),
           if deleteAll then upd_status (\<lambda>c. snd (setDefaultGnssEngineStates (sfp env) (uninit env) (clock_now env) c)) st else st)"
| "rep_proc env MsgGetZpp st =
     (case zpp_fix env of (loc, ext, techMask) \<Rightarrow>
        Some ([UlpReportPosition (zpp_location loc) ext LOC_SESS_SUCCESS techMask], st))"
| "rep_proc env (UpdateXtraThrottleMsg enabled) st = Some ([XtraThrottle enabled], st)"

section \<open>The debug report\<close>

record 'd SatelliteInfo =
  s_svid :: nat
  s_constellation :: GnssSvType
  s_ephemerisType :: u32
  s_ephemerisSource :: u32
  s_ephemerisHealth :: nat
  s_ephemerisAge :: 'd
  s_predictionAvailable :: bool
  s_predictionAge :: 'd

text \<open>The first id, the number of ids and the place of the first one in the navigation data.\<close>

definition sv_range :: "GnssSvType \<Rightarrow> (nat \<times> nat \<times> nat) option" where
  "sv_range t =
     (case t of
        GNSS_SV_TYPE_GPS \<Rightarrow> Some (1, 32, 0)
      | GNSS_SV_TYPE_GLONASS \<Rightarrow> Some (1, 24, 32)
      | GNSS_SV_TYPE_QZSS \<Rightarrow> Some (193, 5, 32 + 24 + 37 + 36)
      | GNSS_SV_TYPE_BEIDOU \<Rightarrow> Some (1, 37, 32 + 24)
      | GNSS_SV_TYPE_GALILEO \<Rightarrow> Some (1, 36, 32 + 24 + 37)
      | _ \<Rightarrow> None)"

definition health_masks :: "GnssSvType \<Rightarrow> PQWP5 \<Rightarrow> 64 word \<times> 64 word" where
  "health_masks t h =
     (case t of
        GNSS_SV_TYPE_GPS \<Rightarrow> (ucast (mGpsGoodMask h), ucast (mGpsBadMask h))
      | GNSS_SV_TYPE_GLONASS \<Rightarrow> (ucast (mGloGoodMask h), ucast (mGloBadMask h))
      | GNSS_SV_TYPE_QZSS \<Rightarrow> (ucast (mQzssGoodMask h), ucast (mQzssBadMask h))
      | GNSS_SV_TYPE_BEIDOU \<Rightarrow> (mBdsGoodMask h, mBdsBadMask h)
      | GNSS_SV_TYPE_GALILEO \<Rightarrow> (mGalGoodMask h, mGalBadMask h)
      | _ \<Rightarrow> (0, 0))"

definition xtra_of :: "GnssSvType \<Rightarrow> PQWP3 \<Rightarrow> 64 word \<times> u32" where
  "xtra_of t x =
     (case t of
        GNSS_SV_TYPE_GPS \<Rightarrow> (ucast (mGpsXtraValid x), mGpsXtraAge x)
      | GNSS_SV_TYPE_GLONASS \<Rightarrow> (ucast (mGloXtraValid x), mGloXtraAge x)
      | GNSS_SV_TYPE_QZSS \<Rightarrow> (ucast (mQzssXtraValid x), mQzssXtraAge x)
      | GNSS_SV_TYPE_BEIDOU \<Rightarrow> (mBdsXtraValid x, mBdsXtraAge x)
      | GNSS_SV_TYPE_GALILEO \<Rightarrow> (mGalXtraValid x, mGalXtraAge x)
      | _ \<Rightarrow> (0, 0))"

text \<open>The loop body for the satellite \<open>i\<close>.\<close>

definition satellite_info ::
  "'d rep_fp \<Rightarrow> GnssSvType \<Rightarrow> nat \<Rightarrow> nat \<Rightarrow> 64 word \<times> 64 word \<Rightarrow> 64 word \<times> 'd \<Rightarrow> SystemStatusNav list option \<Rightarrow> nat \<Rightarrow>
   'd SatelliteInfo" where
  "satellite_info F t svid_min svid_idx health xtra nav i =
     (let sv_mask = push_bit i (1 :: 64 word)
      in \<lparr>s_svid = i + svid_min, s_constellation = t,
          s_ephemerisType = (case nav of None \<Rightarrow> 0 | Some n \<Rightarrow> mType (n ! (svid_idx + i))),
          s_ephemerisSource = (case nav of None \<Rightarrow> 0 | Some n \<Rightarrow> mSource (n ! (svid_idx + i))),
          s_ephemerisHealth = (if fst health AND sv_mask \<noteq> 0 then 1 else if snd health AND sv_mask \<noteq> 0 then 2 else 0),
          s_ephemerisAge = (case nav of None \<Rightarrow> rp_zero F | Some n \<Rightarrow> rp_of_int F (sint (mAgeSec (n ! (svid_idx + i))))),
          s_predictionAvailable = (fst xtra AND sv_mask \<noteq> 0), s_predictionAge = snd xtra\<rparr>)"

definition convertSatelliteInfo ::
  "'d rep_fp \<Rightarrow> 'd SatelliteInfo list \<Rightarrow> GnssSvType \<Rightarrow> ('d, 'l, 's) SystemStatusReports \<Rightarrow> 'd SatelliteInfo list" where
  "convertSatelliteInfo F out t reports =
     (case sv_range t of
        None \<Rightarrow> out
      | Some (svid_min, svid_num, svid_idx) \<Rightarrow>
          let health = (if r_SvHealth reports = [] then (0, 0) else health_masks t (body (last (r_SvHealth reports))));
              xtra = (if r_Xtra reports = [] then (0, rp_zero F)
                      else (let (m, a) = xtra_of t (body (last (r_Xtra reports))) in (m, rp_of_int F (uint a))));
              nav = (if r_NavData reports = [] then None else Some (body (last (r_NavData reports))))
          in out @ map (satellite_info F t svid_min svid_idx health xtra nav)
               (filter (\<lambda>i. svid_idx + i < SV_ALL_NUM) [0..<svid_num]))"

record 'd DebugReport =
  d_locationValid :: bool
  d_location :: "'d Location"
  d_verticalAccuracy :: 'd
  d_speedAccuracy :: 'd
  d_bearingAccuracy :: 'd
  d_utcReported :: nat
  d_timeValid :: bool
  d_timeEstimate :: "64 word"
  d_timeUncertaintyNs :: 'd
  d_frequencyUncertainty :: 'd
  d_satellites :: "'d SatelliteInfo list"

definition debug_location ::
  "'d rep_fp \<Rightarrow> ('d, 'd position, 's) SystemStatusReports \<Rightarrow> 'd DebugReport \<Rightarrow> 'd DebugReport" where
  "debug_location F reports r =
     (if r_Location reports \<noteq> [] \<and> mValid (body (last (r_Location reports)))
      then let it = last (r_Location reports); (loc, ext) = loc_rest (body it)
           in r\<lparr>d_locationValid := True,
                d_location := (d_location r)\<lparr>l_latitude := latitude (body it), l_longitude := longitude (body it),
                  l_altitude := altitude (body it), l_speed := speed loc, l_bearing := bearing loc, l_accuracy := accuracy loc\<rparr>,
                d_verticalAccuracy := vert_unc ext, d_speedAccuracy := speed_unc ext, d_bearingAccuracy := bearing_unc ext,
                d_utcReported := mUtcReported it\<rparr>
      else if r_BestPosition reports \<noteq> [] \<and> fst (body (last (r_BestPosition reports)))
      then let it = last (r_BestPosition reports); p = snd (body it)
           in r\<lparr>d_locationValid := True,
                d_location := (d_location r)\<lparr>l_latitude := to_degrees F (mBestLat p), l_longitude := to_degrees F (mBestLon p),
                  l_altitude := mBestAlt p, l_accuracy := mBestHepe p\<rparr>,
                d_utcReported := mUtcReported it\<rparr>
      else r\<lparr>d_locationValid := False\<rparr>)"

text \<open>Milliseconds since 1970; 3657 days lie between 1970 and the start of GPS time.\<close>

definition time_estimate :: "SystemStatusTimeAndClock \<Rightarrow> 64 word" where
  "time_estimate t =
     ((ucast (tc_GpsWeek t) * 7 + 3657) * 24 * 60 * 60 - scast (tc_LeapSeconds t)) * 1000 + ucast (tc_GpsTowMs t)"

definition debug_time :: "'d rep_fp \<Rightarrow> ('d, 'l, 's) SystemStatusReports \<Rightarrow> 'd DebugReport \<Rightarrow> 'd DebugReport" where
  "debug_time F reports r =
     (if r_TimeAndClock reports \<noteq> [] \<and> tc_TimeValid (body (last (r_TimeAndClock reports))) \<noteq> 0
      then let t = body (last (r_TimeAndClock reports))
           in r\<lparr>d_timeValid := True, d_timeEstimate := time_estimate t,
                d_timeUncertaintyNs := time_unc_ns F (sint (tc_TimeUnc t)) (sint (tc_LeapSecUnc t)),
                d_frequencyUncertainty := rp_of_int F (sint (tc_ClockFreqBiasUnc t))\<rparr>
      else r\<lparr>d_timeValid := False\<rparr>)"

definition debug_constellations :: "GnssSvType list" where
  "debug_constellations =
     [GNSS_SV_TYPE_GPS, GNSS_SV_TYPE_GLONASS, GNSS_SV_TYPE_QZSS, GNSS_SV_TYPE_BEIDOU, GNSS_SV_TYPE_GALILEO]"

definition getDebugReport :: "'d rep_fp \<Rightarrow> 'd DebugReport \<Rightarrow> ('d, 's) reporter \<Rightarrow> bool \<times> 'd DebugReport" where
  "getDebugReport F r st =
     (case mSystemStatus st of
        None \<Rightarrow> (False, r)
      | Some c \<Rightarrow>
          (let reports = snd (getReport True c); r = debug_location F reports r; r = debug_time F reports r
           in (True, r\<lparr>d_satellites := fold (\<lambda>t out. convertSatelliteInfo F out t reports) debug_constellations (d_satellites r)\<rparr>)))"

end
