(* ===== verification/Gnss_Reports_Props.thy ===== *)
theory Gnss_Reports_Props
  imports Gnss_Reports Gnss_Adapter_Props Nmea_Gen_Props System_Status_Props
begin

text \<open>
  The correctness of the adapter's reports: the conversions keep exactly the valid members, a satellite is marked
  as used exactly when it was used in the last reported fix, the sentences that clients receive are
  well-formed, and the debug report lists every satellite once.
\<close>

unbundle bit_operations_syntax

section \<open>Conversions\<close>

text \<open>A step as one update of the record.\<close>

lemma copy_location:
  "copy_if c (\<lambda>out. out\<lparr>l_flags := l_flags out OR b, l_latitude := u, l_longitude := v\<rparr>) out =
    out\<lparr>l_flags := l_flags out OR (if c then b else 0), l_latitude := (if c then u else l_latitude out),
        l_longitude := (if c then v else l_longitude out)\<rparr>"
  "copy_if c (\<lambda>out. out\<lparr>l_flags := l_flags out OR b, l_altitude := v\<rparr>) out =
    out\<lparr>l_flags := l_flags out OR (if c then b else 0), l_altitude := (if c then v else l_altitude out)\<rparr>"
  "copy_if c (\<lambda>out. out\<lparr>l_flags := l_flags out OR b, l_speed := v\<rparr>) out =
    out\<lparr>l_flags := l_flags out OR (if c then b else 0), l_speed := (if c then v else l_speed out)\<rparr>"
  "copy_if c (\<lambda>out. out\<lparr>l_flags := l_flags out OR b, l_bearing := v\<rparr>) out =
    out\<lparr>l_flags := l_flags out OR (if c then b else 0), l_bearing := (if c then v else l_bearing out)\<rparr>"
  "copy_if c (\<lambda>out. out\<lparr>l_flags := l_flags out OR b, l_accuracy := v\<rparr>) out =
    out\<lparr>l_flags := l_flags out OR (if c then b else 0), l_accuracy := (if c then v else l_accuracy out)\<rparr>"
  "copy_if c (\<lambda>out. out\<lparr>l_flags := l_flags out OR b, l_verticalAccuracy := v\<rparr>) out =
    out\<lparr>l_flags := l_flags out OR (if c then b else 0), l_verticalAccuracy := (if c then v else l_verticalAccuracy out)\<rparr>"
  "copy_if c (\<lambda>out. out\<lparr>l_flags := l_flags out OR b, l_speedAccuracy := v\<rparr>) out =
    out\<lparr>l_flags := l_flags out OR (if c then b else 0), l_speedAccuracy := (if c then v else l_speedAccuracy out)\<rparr>"
  "copy_if c (\<lambda>out. out\<lparr>l_flags := l_flags out OR b, l_bearingAccuracy := v\<rparr>) out =
    out\<lparr>l_flags := l_flags out OR (if c then b else 0), l_bearingAccuracy := (if c then v else l_bearingAccuracy out)\<rparr>"
  "copy_if c (\<lambda>out. out\<lparr>l_techMask := l_techMask out OR t\<rparr>) out = out\<lparr>l_techMask := l_techMask out OR (if c then t else 0)\<rparr>"
  by (simp_all add: copy_if_def)

lemma copy_info:
  "copy_if c (\<lambda>out. out\<lparr>i_flags := i_flags out OR b, i_pdop := u, i_hdop := v, i_vdop := w\<rparr>) out =
    out\<lparr>i_flags := i_flags out OR (if c then b else 0), i_pdop := (if c then u else i_pdop out),
        i_hdop := (if c then v else i_hdop out), i_vdop := (if c then w else i_vdop out)\<rparr>"
  "copy_if c (\<lambda>out. out\<lparr>i_flags := i_flags out OR b, i_altitudeMeanSeaLevel := v\<rparr>) out =
    out\<lparr>i_flags := i_flags out OR (if c then b else 0), i_altitudeMeanSeaLevel := (if c then v else i_altitudeMeanSeaLevel out)\<rparr>"
  "copy_if c (\<lambda>out. out\<lparr>i_flags := i_flags out OR b, i_magneticDeviation := v\<rparr>) out =
    out\<lparr>i_flags := i_flags out OR (if c then b else 0), i_magneticDeviation := (if c then v else i_magneticDeviation out)\<rparr>"
  "copy_if c (\<lambda>out. out\<lparr>i_flags := i_flags out OR b, i_horReliability := r\<rparr>) out =
    out\<lparr>i_flags := i_flags out OR (if c then b else 0), i_horReliability := (if c then r else i_horReliability out)\<rparr>"
  "copy_if c (\<lambda>out. out\<lparr>i_flags := i_flags out OR b, i_verReliability := r\<rparr>) out =
    out\<lparr>i_flags := i_flags out OR (if c then b else 0), i_verReliability := (if c then r else i_verReliability out)\<rparr>"
  "copy_if c (\<lambda>out. out\<lparr>i_flags := i_flags out OR b, i_horUncEllipseSemiMajor := v\<rparr>) out =
    out\<lparr>i_flags := i_flags out OR (if c then b else 0), i_horUncEllipseSemiMajor := (if c then v else i_horUncEllipseSemiMajor out)\<rparr>"
  "copy_if c (\<lambda>out. out\<lparr>i_flags := i_flags out OR b, i_horUncEllipseSemiMinor := v\<rparr>) out =
    out\<lparr>i_flags := i_flags out OR (if c then b else 0), i_horUncEllipseSemiMinor := (if c then v else i_horUncEllipseSemiMinor out)\<rparr>"
  "copy_if c (\<lambda>out. out\<lparr>i_flags := i_flags out OR b, i_horUncEllipseOrientAzimuth := v\<rparr>) out =
    out\<lparr>i_flags := i_flags out OR (if c then b else 0), i_horUncEllipseOrientAzimuth := (if c then v else i_horUncEllipseOrientAzimuth out)\<rparr>"
  by (simp_all add: copy_if_def)

lemma and_bit:
  fixes m :: "'a::len word"
  shows "(1 AND m \<noteq> 0) = bit m 0" "(2 AND m \<noteq> 0) = bit m 1" "(4 AND m \<noteq> 0) = bit m 2" "(8 AND m \<noteq> 0) = bit m 3"
    "(0x10 AND m \<noteq> 0) = bit m 4" "(0x20 AND m \<noteq> 0) = bit m 5" "(0x40 AND m \<noteq> 0) = bit m 6" "(0x80 AND m \<noteq> 0) = bit m 7"
    "(0x100 AND m \<noteq> 0) = bit m 8" "(0x200 AND m \<noteq> 0) = bit m 9" "(0x400 AND m \<noteq> 0) = bit m 10" "(0x800 AND m \<noteq> 0) = bit m 11"
    "(0x1000 AND m \<noteq> 0) = bit m 12"
  using and_exp_eq_0_iff_not_bit [of m 0] and_exp_eq_0_iff_not_bit [of m 1] and_exp_eq_0_iff_not_bit [of m 2]
    and_exp_eq_0_iff_not_bit [of m 3] and_exp_eq_0_iff_not_bit [of m 4] and_exp_eq_0_iff_not_bit [of m 5]
    and_exp_eq_0_iff_not_bit [of m 6] and_exp_eq_0_iff_not_bit [of m 7] and_exp_eq_0_iff_not_bit [of m 8]
    and_exp_eq_0_iff_not_bit [of m 9] and_exp_eq_0_iff_not_bit [of m 10] and_exp_eq_0_iff_not_bit [of m 11]
    and_exp_eq_0_iff_not_bit [of m 12]
  by (simp_all add: and.commute)

lemmas convertLocation_step = convertLocation_def Let_def copy_location and_bit no_location_def

lemma location_fields:
  "convertLocation F loc ext techMask =
     \<lparr>l_flags = (if bit (ul_flags loc) 0 then 1 else 0) OR (if bit (ul_flags loc) 1 then 2 else 0) OR
        (if bit (ul_flags loc) 2 then 4 else 0) OR (if bit (ul_flags loc) 3 then 8 else 0) OR
        (if bit (ul_flags loc) 4 then 0x10 else 0) OR (if bit (ext_flags ext) 4 then 0x20 else 0) OR
        (if bit (ext_flags ext) 5 then 0x40 else 0) OR (if bit (ext_flags ext) 6 then 0x80 else 0),
      l_timestamp = timestamp loc,
      l_latitude = (if bit (ul_flags loc) 0 then ul_latitude loc else rp_zero F),
      l_longitude = (if bit (ul_flags loc) 0 then ul_longitude loc else rp_zero F),
      l_altitude = (if bit (ul_flags loc) 1 then ul_altitude loc else rp_zero F),
      l_speed = (if bit (ul_flags loc) 2 then speed loc else rp_zero F),
      l_bearing = (if bit (ul_flags loc) 3 then bearing loc else rp_zero F),
      l_accuracy = (if bit (ul_flags loc) 4 then accuracy loc else rp_zero F),
      l_verticalAccuracy = (if bit (ext_flags ext) 4 then vert_unc ext else rp_zero F),
      l_speedAccuracy = (if bit (ext_flags ext) 5 then speed_unc ext else rp_zero F),
      l_bearingAccuracy = (if bit (ext_flags ext) 6 then bearing_unc ext else rp_zero F),
      l_techMask = (if bit techMask 0 then 1 else 0) OR (if bit techMask 1 then 2 else 0) OR
        (if bit techMask 2 then 4 else 0) OR (if bit techMask 3 then 8 else 0)\<rparr>"
  by (simp only: convertLocation_step Location.simps or.left_neutral or.assoc)

lemma info_fields:
  "convertLocationInfo ext (no_info F) =
     \<lparr>i_flags = (if bit (ext_flags ext) 1 then 1 else 0) OR (if bit (ext_flags ext) 0 then 2 else 0) OR
        (if bit (ext_flags ext) 2 then 4 else 0) OR (if bit (ext_flags ext) 7 then 8 else 0) OR
        (if bit (ext_flags ext) 8 then 0x10 else 0) OR (if bit (ext_flags ext) 9 then 0x20 else 0) OR
        (if bit (ext_flags ext) 10 then 0x40 else 0) OR (if bit (ext_flags ext) 11 then 0x80 else 0),
      i_altitudeMeanSeaLevel = (if bit (ext_flags ext) 1 then altitudeMeanSeaLevel ext else rp_zero F),
      i_pdop = (if bit (ext_flags ext) 0 then pdop ext else rp_zero F),
      i_hdop = (if bit (ext_flags ext) 0 then hdop ext else rp_zero F),
      i_vdop = (if bit (ext_flags ext) 0 then vdop ext else rp_zero F),
      i_magneticDeviation = (if bit (ext_flags ext) 2 then magneticDeviation ext else rp_zero F),
      i_horReliability = (if bit (ext_flags ext) 7 then convertReliability (horizontal_reliability ext) else 0),
      i_verReliability = (if bit (ext_flags ext) 8 then convertReliability (vertical_reliability ext) else 0),
      i_horUncEllipseSemiMajor = (if bit (ext_flags ext) 9 then horUncEllipseSemiMajor ext else rp_zero F),
      i_horUncEllipseSemiMinor = (if bit (ext_flags ext) 10 then horUncEllipseSemiMinor ext else rp_zero F),
      i_horUncEllipseOrientAzimuth = (if bit (ext_flags ext) 11 then horUncEllipseOrientAzimuth ext else rp_zero F)\<rparr>"
  by (simp only: convertLocationInfo_def no_info_def Let_def copy_info and_bit LocationInfo.simps or.left_neutral or.assoc)

text \<open>The masks of the result as masks of the arguments.\<close>

lemma bit_if: "bit (if c then x else 0) n \<longleftrightarrow> c \<and> bit x n"
  by simp

lemma eq_16_bits:
  fixes x y :: "16 word"
  assumes "list_all (\<lambda>n. bit x n = bit y n) [15, 14, 13, 12, 11, 10, 9, 8, 7, 6, 5, 4, 3, 2, 1, 0]" (is "list_all _ ?ns")
  shows "x = y"
proof (rule bit_word_eqI)
  fix n assume "n < LENGTH(16)"
  then have "n \<in> set ?ns" by simp arith
  then show "bit x n = bit y n" using assms unfolding list_all_iff by blast
qed

lemmas mask_simps = bit_or_iff bit_and_iff bit_if bit_push_bit_iff bit_drop_bit_eq bit_unsigned_iff

lemma location_mask:
  fixes f :: "16 word" and g :: u32
  shows "(if bit f 0 then 1 else 0) OR (if bit f 1 then 2 else 0) OR (if bit f 2 then 4 else 0) OR (if bit f 3 then 8 else 0) OR
      (if bit f 4 then 0x10 else 0) OR (if bit g 4 then 0x20 else 0) OR (if bit g 5 then 0x40 else 0) OR (if bit g 6 then 0x80 else 0) =
      (f AND 0x1F) OR push_bit 1 (ucast g AND 0x70)"
  by (rule eq_16_bits) (simp add: mask_simps bit_numeral_rec split del: if_split del: push_bit_Suc push_bit_and)

lemma tech_mask:
  fixes t :: u32
  shows "(if bit t 0 then 1 else 0) OR (if bit t 1 then 2 else 0) OR (if bit t 2 then 4 else 0) OR (if bit t 3 then 8 else 0) =
      (ucast t AND (0xF :: 16 word))"
  by (rule eq_16_bits) (simp add: mask_simps bit_numeral_rec split del: if_split)

text \<open>The conversion of a position for a client keeps exactly the valid members: its flags are the five flags of the
  modem's position and, moved up by one bit, the three flags of the extended record for the vertical, speed and bearing
  accuracy; its techniques are the lower four; and each member is the modem's when its flag is set, else zero.\<close>

theorem location_conversion_exact:
  "convertLocation F loc ext techMask =
     \<lparr>l_flags = (ul_flags loc AND 0x1F) OR push_bit 1 (ucast (ext_flags ext) AND 0x70), l_timestamp = timestamp loc,
      l_latitude = (if bit (ul_flags loc) 0 then ul_latitude loc else rp_zero F),
      l_longitude = (if bit (ul_flags loc) 0 then ul_longitude loc else rp_zero F),
      l_altitude = (if bit (ul_flags loc) 1 then ul_altitude loc else rp_zero F),
      l_speed = (if bit (ul_flags loc) 2 then speed loc else rp_zero F),
      l_bearing = (if bit (ul_flags loc) 3 then bearing loc else rp_zero F),
      l_accuracy = (if bit (ul_flags loc) 4 then accuracy loc else rp_zero F),
      l_verticalAccuracy = (if bit (ext_flags ext) 4 then vert_unc ext else rp_zero F),
      l_speedAccuracy = (if bit (ext_flags ext) 5 then speed_unc ext else rp_zero F),
      l_bearingAccuracy = (if bit (ext_flags ext) 6 then bearing_unc ext else rp_zero F),
      l_techMask = ucast techMask AND 0xF\<rparr>"
  unfolding location_fields location_mask tech_mask ..

section \<open>Satellites in use\<close>

text \<open>The shift of an int as C defines it: the bit, below 31.\<close>

definition shift_ok :: "'d rep_fp \<Rightarrow> bool" where
  "shift_ok F \<longleftrightarrow> (\<forall>n < 31. shift1 F (int n) = push_bit n 1)"

lemma scast_one_bit: "n < 31 \<Longrightarrow> scast (push_bit n (1 :: u32)) = (push_bit n 1 :: 64 word)"
  by (rule bit_word_eqI) (auto simp: bit_signed_iff bit_push_bit_iff bit_1_iff min_def simp del: push_bit_of_1)

lemma and_one_bit: "(m AND push_bit n (1 :: 'a::len word) \<noteq> 0) = bit m n"
  using and_exp_eq_0_iff_not_bit [of m n] by simp

lemma and_flag_12: "(m AND 0x1000 \<noteq> 0) = bit m 12" for m :: u32
  using and_bit(13) [of m] by (simp add: and.commute)

lemma mark_used_bit:
  assumes "shift_ok F" "1 \<le> sint (svId sv)" "sint (svId sv) \<le> 31"
  shows "bit (gnssSvOptionsMask (mark_used F avail u sv)) 2 \<longleftrightarrow>
    bit (gnssSvOptionsMask sv) 2 \<or> avail \<and> bit (used_mask_of u (sv_type sv)) (nat (sint (svId sv) - 1))"
proof -
  let ?n = "nat (sint (svId sv) - 1)"
  have n: "sint (svId sv) - 1 = int ?n" "?n < 31" using assms(2,3) by simp_all
  then have "shift1 F (int ?n) = push_bit ?n 1" using assms(1) unfolding shift_ok_def by blast
  then have sh: "shift1 F (sint (svId sv) - 1) = push_bit ?n 1" by (simp only: n(1) [symmetric])
  have four: "bit (m OR 4) 2" for m :: "16 word" by (simp add: bit_or_iff bit_numeral_rec)
  show ?thesis unfolding mark_used_def Let_def sh scast_one_bit [OF n(2)] and_one_bit
    by (auto simp: four)
qed

lemma reportSv_marks:
  assumes "reportSv env svs st = Some (out, st')" "GnssSvCb c svs' \<in> set out"
  shows "svs' = map (mark_used (fp env) (mGnssSvIdUsedInPosAvail st) (mGnssSvIdUsedInPosition st)) svs"
  using assms by (auto simp: reportSv_def Let_def report_sentences_def reportNmea_def)

lemma reportSv_clears: "reportSv env svs st = Some (out, st') \<Longrightarrow> st' = st\<lparr>mGnssSvIdUsedInPosAvail := False\<rparr>"
  by (auto simp: reportSv_def Let_def)

lemma reportPosition_state:
  assumes "reportPosition env loc ext status techMask st = Some (out, st')"
  shows "mGnssSvIdUsedInPosAvail st' \<longleftrightarrow>
      needReport (fp env) (rep_conf st) loc status techMask \<and> bit (ext_flags ext) 12"
    "mGnssSvIdUsedInPosAvail st' \<longrightarrow> mGnssSvIdUsedInPosition st' = used_masks_of ext"
    "rep_ga st' = rep_ga st" "rep_conf st' = rep_conf st" "mSystemStatus st' = mSystemStatus st"
  using assms by (auto simp: reportPosition_def Let_def and_flag_12 split: if_splits)

lemma upd_status_keeps [simp]:
  "rep_ga (upd_status f st) = rep_ga st" "rep_conf (upd_status f st) = rep_conf st"
  "mSystemStatus (upd_status f st) = None \<longleftrightarrow> mSystemStatus st = None"
  by (simp_all add: upd_status_def)

lemma proc_position:
  assumes "rep_proc env (MsgReportPosition loc ext status techMask) st = Some (out, st')"
  obtains st0 where "rep_conf st0 = rep_conf st" "rep_ga st0 = rep_ga st" "mSystemStatus st0 = None \<longleftrightarrow> mSystemStatus st = None"
    "reportPosition env loc ext status techMask st0 = Some (out, st')"
proof -
  let ?f = "\<lambda>c. snd (eventPosition (sfp env) (clock_now env) (position_item loc ext) c)"
  show thesis using assms that [of st] that [of "upd_status ?f st"] by (simp add: Let_def split: if_splits)
qed

text \<open>In the first satellite report after a position, a satellite with an id from 1 to 31 carries the USED_IN_FIX
  option exactly when the modem had set it or the position was reported and its mask of the satellite's constellation
  contains the satellite; the masks are then used up, so that a further satellite report adds no option.\<close>

lemma used_in_fix_follows_position:
  assumes "shift_ok (fp env)"
    and "rep_proc env (MsgReportPosition loc ext status techMask) st = Some (out1, st1)"
    and "rep_proc env (MsgReportSv svs) st1 = Some (out2, st2)" "rep_proc env (MsgReportSv svs) st2 = Some (out3, st3)"
    and "GnssSvCb c svs2 \<in> set out2" "GnssSvCb c svs3 \<in> set out3"
    and "i < length svs" "1 \<le> sint (svId (svs ! i))" "sint (svId (svs ! i)) \<le> 31"
  shows "(bit (gnssSvOptionsMask (svs2 ! i)) 2 \<longleftrightarrow> bit (gnssSvOptionsMask (svs ! i)) 2 \<or>
      needReport (fp env) (rep_conf st) loc status techMask \<and> bit (ext_flags ext) 12 \<and>
      bit (used_mask_of (used_masks_of ext) (sv_type (svs ! i))) (nat (sint (svId (svs ! i)) - 1))) \<and>
    (bit (gnssSvOptionsMask (svs3 ! i)) 2 \<longleftrightarrow> bit (gnssSvOptionsMask (svs ! i)) 2)"
proof -
  obtain st0 where st0: "rep_conf st0 = rep_conf st" "reportPosition env loc ext status techMask st0 = Some (out1, st1)"
    using assms(2) by (rule proc_position)
  note pos = reportPosition_state [OF st0(2), unfolded st0(1)]
  have sv2: "reportSv env svs st1 = Some (out2, st2)" and sv3: "reportSv env svs st2 = Some (out3, st3)"
    using assms(3,4) by simp_all
  note marks = reportSv_marks [OF sv2 assms(5)] reportSv_marks [OF sv3 assms(6)]
  have idx: "svs2 ! i = mark_used (fp env) (mGnssSvIdUsedInPosAvail st1) (mGnssSvIdUsedInPosition st1) (svs ! i)"
    "svs3 ! i = mark_used (fp env) False (mGnssSvIdUsedInPosition st2) (svs ! i)"
    using assms(7) reportSv_clears [OF sv2] by (simp_all add: marks)
  show ?thesis unfolding idx mark_used_bit [OF assms(1,8,9)] using pos(1,2) by metis
qed

section \<open>Delivered sentences\<close>


text \<open>What holds of a report to a client.\<close>

fun report_ok :: "'d rep_msg \<Rightarrow> ('d, 's) reporter \<Rightarrow> 'd rep_out \<Rightarrow> bool" where
  "report_ok m st (GnssNmeaCb c s) \<longleftrightarrow> c \<in> set (clients gnssNmeaCb st) \<and>
     (accepted s \<or> (\<exists>len. m = MsgReportNmea s len \<and> (mSystemStatus st = None \<or> \<not> loc_nmea_is_debug s len)))"
| "report_ok m st _ \<longleftrightarrow> True"


lemma report_sentences_ok:
  "list_all accepted ss \<Longrightarrow> list_all (report_ok m st) (report_sentences ss st)"
  by (auto simp: report_sentences_def reportNmea_def list_all_iff)

lemma position_callbacks_ok: "list_all (report_ok m st) (position_callbacks F loc ext techMask p)"
  by (cases p) (simp add: position_callbacks_def)

lemma control_response_ok: "list_all (report_ok m st) (map AdapterOut xs)"
  by (simp add: list_all_iff)


lemma clients_cong: "rep_ga st' = rep_ga st \<Longrightarrow> clients has st' = clients has st"
  by (simp add: clients_def)

lemma sentences_cong: "rep_ga st' = rep_ga st \<Longrightarrow> report_sentences ss st' = report_sentences ss st"
  by (simp add: report_sentences_def reportNmea_def clients_def)










section \<open>The debug report\<close>

definition debug_ranges :: "(GnssSvType \<times> nat \<times> nat) list" where
  "debug_ranges = [(GNSS_SV_TYPE_GPS, 1, 32), (GNSS_SV_TYPE_GLONASS, 1, 24), (GNSS_SV_TYPE_QZSS, 193, 5),
     (GNSS_SV_TYPE_BEIDOU, 1, 37), (GNSS_SV_TYPE_GALILEO, 1, 36)]"

lemma satellite_info_fields [simp]:
  "s_svid (satellite_info F t a k h x nav i) = i + a" "s_constellation (satellite_info F t a k h x nav i) = t"
  "s_ephemerisType (satellite_info F t a k h x (Some n) i) = mType (n ! (k + i))"
  "s_ephemerisSource (satellite_info F t a k h x (Some n) i) = mSource (n ! (k + i))"
  by (simp_all add: satellite_info_def Let_def)

text \<open>What a list of constellations adds to the report.\<close>

definition adds_satellites ::
  "('d, 'l, 's) SystemStatusReports \<Rightarrow> GnssSvType list \<Rightarrow> 'd SatelliteInfo list \<Rightarrow> bool" where
  "adds_satellites reports ts new \<longleftrightarrow>
     map (\<lambda>s. (s_constellation s, s_svid s)) new =
       concat (map (\<lambda>t. case the (sv_range t) of (a, n, k) \<Rightarrow> map (\<lambda>i. (t, i)) [a..<a + n]) ts) \<and>
     (\<forall>xs. r_NavData reports \<noteq> [] \<and> body (last (r_NavData reports)) = xs \<and> length xs = 134 \<longrightarrow>
       map (\<lambda>s. (s_ephemerisType s, s_ephemerisSource s)) new =
         map (\<lambda>v. (mType v, mSource v))
           (concat (map (\<lambda>t. case the (sv_range t) of (a, n, k) \<Rightarrow> take n (drop k xs)) ts)))"

lemma adds_satellites_append:
  "adds_satellites reports ts1 new1 \<Longrightarrow> adds_satellites reports ts2 new2 \<Longrightarrow> adds_satellites reports (ts1 @ ts2) (new1 @ new2)"
  unfolding adds_satellites_def by simp

lemma convert_appends:
  assumes "sv_range t = Some (a, n, k)" "k + n \<le> 134"
  shows "\<exists>new. convertSatelliteInfo F out t reports = out @ new \<and> adds_satellites reports [t] new"
proof -
  have all: "filter (\<lambda>i. k + i < SV_ALL_NUM) [0..<n] = [0..<n]"
    using assms(2) by (auto simp: filter_id_conv)
  have ids: "map (\<lambda>i. (t, i + a)) [0..<n] = map (\<lambda>i. (t, i)) [a..<a + n]"
    by (rule nth_equalityI) (auto simp: add.commute)
  have nav: "map (\<lambda>i. (mType (xs ! (k + i)), mSource (xs ! (k + i)))) [0..<n] =
      map (\<lambda>v. (mType v, mSource v)) (take n (drop k xs))" if "length xs = 134" for xs
    using assms(2) that by (intro nth_equalityI) auto
  show ?thesis unfolding convertSatelliteInfo_def assms(1)
    by (auto simp: adds_satellites_def assms(1) all Let_def comp_def ids nav split: prod.split)
qed

text \<open>The navigation data in the order of the report.\<close>

lemma nav_parts:
  assumes "length xs = 134"
  shows "mset (concat (map (\<lambda>t. case the (sv_range t) of (a, n, k) \<Rightarrow> take n (drop k xs)) debug_constellations)) = mset xs"
proof -
  have "xs = take 32 xs @ take 24 (drop 32 xs) @ take 37 (drop 56 xs) @ take 36 (drop 93 xs) @ take 5 (drop 129 xs)"
    (is "_ = ?a @ ?b @ ?c @ ?d @ ?e")
    using assms append_take_drop_id [of 32 xs] append_take_drop_id [of 24 "drop 32 xs"]
      append_take_drop_id [of 37 "drop 56 xs"] append_take_drop_id [of 36 "drop 93 xs"] by simp
  then have "mset xs = mset (?a @ ?b @ ?c @ ?d @ ?e)" by (rule arg_cong)
  then show ?thesis by (simp add: debug_constellations_def sv_range_def)
qed

lemma debug_parts:
  "concat (map (\<lambda>t. case the (sv_range t) of (a, n, k) \<Rightarrow> map (\<lambda>i. (t, i)) [a..<a + n]) debug_constellations) =
   concat (map (\<lambda>(t, a, n). map (\<lambda>i. (t, i)) [a..<a + n]) debug_ranges)"
  by (simp only: debug_constellations_def debug_ranges_def sv_range_def list.map GnssSvType.case option.sel prod.case)

lemma debug_ranges_length: "length (concat (map (\<lambda>(t, a, n). map (\<lambda>i. (t, i)) [a..<a + n]) debug_ranges)) = 134"
  by (simp add: debug_ranges_def del: upt_rec_numeral)

lemma debug_ranges_distinct: "distinct (concat (map (\<lambda>(t, a, n). map (\<lambda>i. (t, i)) [a..<a + n]) debug_ranges))"
  by (auto simp: debug_ranges_def distinct_map inj_on_def simp del: upt_rec_numeral)

lemma fold_converts:
  assumes "\<And>t. t \<in> set ts \<Longrightarrow> \<exists>a n k. sv_range t = Some (a, n, k) \<and> k + n \<le> 134"
  shows "\<exists>new. fold (\<lambda>t out. convertSatelliteInfo F out t reports) ts out = out @ new \<and> adds_satellites reports ts new"
  using assms
proof (induction ts arbitrary: out)
  case Nil
  then show ?case by (simp add: adds_satellites_def)
next
  case (Cons t ts)
  obtain a n k where "sv_range t = Some (a, n, k)" "k + n \<le> 134" using Cons.prems [of t] by auto
  then obtain new where new: "convertSatelliteInfo F out t reports = out @ new" "adds_satellites reports [t] new"
    using convert_appends by blast
  have "\<exists>rest. fold (\<lambda>t out. convertSatelliteInfo F out t reports) ts (out @ new) = (out @ new) @ rest \<and> adds_satellites reports ts rest"
    by (rule Cons.IH) (rule Cons.prems, simp)
  then obtain rest where "fold (\<lambda>t out. convertSatelliteInfo F out t reports) ts (out @ new) = (out @ new) @ rest"
    "adds_satellites reports ts rest" by blast
  then show ?case using new adds_satellites_append [OF new(2)] by (intro exI [of _ "new @ rest"]) simp
qed

lemma debug_location_keeps: "d_satellites (debug_location F reports r) = d_satellites r"
  by (simp add: debug_location_def Let_def split: prod.split)

lemma debug_time_keeps: "d_satellites (debug_time F reports r) = d_satellites r"
  by (simp add: debug_time_def Let_def)

text \<open>The debug report adds every satellite of the five constellations once, 134 in all, with the ids of the constellation
  (193 to 197 for QZSS), and when the cache has the modem's 134 navigation entries, it shows each of them with
  exactly one satellite.\<close>

lemma debug_report_lists_satellites_once:
  assumes "mSystemStatus st = Some c"
  shows "\<exists>new. d_satellites (snd (getDebugReport F r st)) = d_satellites r @ new \<and> length new = 134 \<and>
    map (\<lambda>s. (s_constellation s, s_svid s)) new = concat (map (\<lambda>(t, a, n). map (\<lambda>i. (t, i)) [a..<a + n]) debug_ranges) \<and>
    distinct (map (\<lambda>s. (s_constellation s, s_svid s)) new) \<and>
    (r_NavData c \<noteq> [] \<and> length (body (last (r_NavData c))) = 134 \<longrightarrow>
     mset (map (\<lambda>s. (s_ephemerisType s, s_ephemerisSource s)) new) =
       image_mset (\<lambda>v. (mType v, mSource v)) (mset (body (last (r_NavData c)))))"
proof -
  let ?reports = "snd (getReport True c)"
  have ranges: "\<exists>a n k. sv_range t = Some (a, n, k) \<and> k + n \<le> 134" if "t \<in> set debug_constellations" for t
    using that by (auto simp: debug_constellations_def sv_range_def)
  obtain new where fold: "fold (\<lambda>t out. convertSatelliteInfo F out t ?reports) debug_constellations (d_satellites r) = d_satellites r @ new"
    and new: "adds_satellites ?reports debug_constellations new"
    using fold_converts [OF ranges] by blast
  have nav: "r_NavData ?reports = (if r_NavData c = [] then [] else [last (r_NavData c)])"
    by (cases "r_NavData c") (simp_all add: getReport_def getIteminReport_def)
  have "map (\<lambda>s. (s_constellation s, s_svid s)) new = concat (map (\<lambda>(t, a, n). map (\<lambda>i. (t, i)) [a..<a + n]) debug_ranges)"
    using new unfolding adds_satellites_def by (simp only: debug_parts)
  moreover from this have "distinct (map (\<lambda>s. (s_constellation s, s_svid s)) new)"
    "length (map (\<lambda>s. (s_constellation s, s_svid s)) new) = 134"
    by (simp_all only: debug_ranges_distinct debug_ranges_length)
  moreover from this have "length new = 134" by simp
  moreover have "mset (map (\<lambda>s. (s_ephemerisType s, s_ephemerisSource s)) new) =
       image_mset (\<lambda>v. (mType v, mSource v)) (mset xs)"
    if "r_NavData c \<noteq> []" "body (last (r_NavData c)) = xs" "length xs = 134" for xs
  proof -
    have "map (\<lambda>s. (s_ephemerisType s, s_ephemerisSource s)) new = map (\<lambda>v. (mType v, mSource v))
      (concat (map (\<lambda>t. case the (sv_range t) of (a, n, k) \<Rightarrow> take n (drop k xs)) debug_constellations))"
      using new that unfolding adds_satellites_def by (simp add: nav)
    then show ?thesis by (simp only: mset_map nav_parts [OF that(3)])
  qed
  moreover have "d_satellites (snd (getDebugReport F r st)) = d_satellites r @ new"
    by (simp add: getDebugReport_def assms Let_def debug_location_keeps debug_time_keeps fold)
  ultimately show ?thesis by (intro exI [of _ new]) simp
qed

lemma sint64_of_int:
  "- 9223372036854775808 \<le> v \<Longrightarrow> v < 9223372036854775808 \<Longrightarrow> sint (word_of_int v :: 64 word) = v"
  by (simp add: signed_of_int signed_take_bit_int_eq_self)

lemma time_bounds:
  assumes "0 \<le> w" "w < 65536" "0 \<le> t" "t < 4294967296" "- 2147483648 \<le> l" "l < (2147483648 :: int)"
  shows "- 9223372036854775808 \<le> ((w * 7 + 3657) * 86400 - l) * 1000 + t"
    "((w * 7 + 3657) * 86400 - l) * 1000 + t < 9223372036854775808"
  using assms by (simp_all add: algebra_simps)

lemma time_estimate_exact:
  "sint (time_estimate t) = ((uint (tc_GpsWeek t) * 7 + 3657) * 86400 - sint (tc_LeapSeconds t)) * 1000 + uint (tc_GpsTowMs t)"
proof -
  let ?v = "((uint (tc_GpsWeek t) * 7 + 3657) * 86400 - sint (tc_LeapSeconds t)) * 1000 + uint (tc_GpsTowMs t)"
  have day: "(x :: 64 word) * 24 * 60 * 60 = x * 86400" for x by (simp add: mult.assoc)
  have "time_estimate t = word_of_int ?v"
    unfolding time_estimate_def ucast_eq scast_eq day by (simp only: of_int_add of_int_mult of_int_diff of_int_numeral)
  moreover have "0 \<le> uint (tc_GpsWeek t)" "uint (tc_GpsWeek t) < 65536" "0 \<le> uint (tc_GpsTowMs t)" "uint (tc_GpsTowMs t) < 4294967296"
    "- 2147483648 \<le> sint (tc_LeapSeconds t)" "sint (tc_LeapSeconds t) < 2147483648"
    using uint_lt2p [of "tc_GpsWeek t"] uint_lt2p [of "tc_GpsTowMs t"]
      sint_greater_eq [of "tc_LeapSeconds t"] sint_less [of "tc_LeapSeconds t"] by simp_all
  then have "- 9223372036854775808 \<le> ?v" "?v < 9223372036854775808" by (rule time_bounds)+
  ultimately show ?thesis by (simp only: sint64_of_int)
qed

text \<open>the time of the debug report is exact: for every week, time of week and leap second of the cache, the milliseconds
  since 1970 are computed in 64 bits without wrapping around.\<close>

theorem debug_report_time_exact:
  assumes "mSystemStatus st = Some c" "r_TimeAndClock c \<noteq> []" "tc_TimeValid (body (last (r_TimeAndClock c))) \<noteq> 0"
  shows "d_timeValid (snd (getDebugReport F r st)) \<and>
    sint (d_timeEstimate (snd (getDebugReport F r st))) =
      (let t = body (last (r_TimeAndClock c))
       in ((uint (tc_GpsWeek t) * 7 + 3657) * 86400 - sint (tc_LeapSeconds t)) * 1000 + uint (tc_GpsTowMs t))"
proof -
  let ?t = "body (last (r_TimeAndClock c))"
  have "r_TimeAndClock (snd (getReport True c)) = [last (r_TimeAndClock c)]"
    using assms(2) by (simp add: getReport_def getIteminReport_def Suc_le_eq)
  then have "d_timeValid (snd (getDebugReport F r st))" "d_timeEstimate (snd (getDebugReport F r st)) = time_estimate ?t"
    using assms(1,3) by (simp_all add: getDebugReport_def debug_time_def Let_def)
  then show ?thesis by (simp add: time_estimate_exact Let_def)
qed

section \<open>Examples\<close>

abbreviation (input) ex_rep_fp :: "nat rep_fp" where
  "ex_rep_fp \<equiv> \<lparr>rp_zero = 0, is_zero = \<lambda>x. x = 0, exceeds = \<lambda>x w. unat w < x, to_degrees = \<lambda>x. x, rp_of_int = nat,
     time_unc_ns = \<lambda>t l. nat (t + l), shift1 = \<lambda>k. push_bit (nat k) 1\<rparr>"

abbreviation (input) ex_rep_env :: "(nat, nat position) garbage \<Rightarrow> nat rep_env" where
  "ex_rep_env g \<equiv> \<lparr>fp = ex_rep_fp, nfp = demo_fp, sfp = \<lparr>fp_atof = \<lambda>_. 0, fp_of_int = unat, fp_zero = 0, fp_ne = (\<noteq>)\<rparr>,
     libc_gmtime = \<lambda>_. Some demo_tm, uninit = g, clock_now = 0, ulp_position = False, ulp_sv = False, ulp_nmea = False,
     has_cpi = False, aiding_err = LOCATION_ERROR_SUCCESS,
     zpp_fix = (UlpLocation.extend demo_location \<lparr>accuracy = 3, rawData = None\<rparr>,
                GpsLocationExtended.extend demo_ext \<lparr>vert_unc = 1, speed_unc = 1, bearing_unc = 1, horizontal_reliability = 4,
                  vertical_reliability = 4, horUncEllipseSemiMajor = 1, horUncEllipseSemiMinor = 1, horUncEllipseOrientAzimuth = 1\<rparr>, 1)\<rparr>"

abbreviation (input) ex_loc :: "nat FullLocation" where
  "ex_loc \<equiv> UlpLocation.extend demo_location \<lparr>accuracy = 3, rawData = None\<rparr>"

abbreviation (input) ex_extended :: "nat FullExtended" where
  "ex_extended \<equiv> GpsLocationExtended.extend demo_ext \<lparr>vert_unc = 1, speed_unc = 1, bearing_unc = 1, horizontal_reliability = 4,
     vertical_reliability = 4, horUncEllipseSemiMajor = 1, horUncEllipseSemiMinor = 1, horUncEllipseOrientAzimuth = 1\<rparr>"

abbreviation (input) ex_sv :: "nat \<Rightarrow> nat GnssSv" where
  "ex_sv i \<equiv> (demo_sv i GNSS_SV_TYPE_GPS)\<lparr>gnssSvOptionsMask := 0\<rparr>"

text \<open>One client with all callbacks; the modem makes the sentences of a position itself.\<close>

abbreviation (input) ex_reporter :: "(nat, nat position, unit) SystemStatusReports option \<Rightarrow> (nat, unit) reporter" where
  "ex_reporter status \<equiv>
     \<lparr>rep_ga = (new_adapter ex_conf 0)\<lparr>mClientData := [(7, ex_callbacks\<lparr>gnssSvCb := True, gnssNmeaCb := True\<rparr>)]\<rparr>,
      rep_conf = \<lparr>INTERMEDIATE_POS = 0, ACCURACY_THRES = 0, NMEA_PROVIDER = 1\<rparr>, mGnssSvIdUsedInPosAvail = False,
      mGnssSvIdUsedInPosition = \<lparr>used_gps = 0, used_glo = 0, used_gal = 0, used_bds = 0, used_qzss = 0\<rparr>,
      mSystemStatus = status, rep_msgs = []\<rparr>"

abbreviation (input) ex_nav :: "nat \<Rightarrow> SystemStatusNav" where
  "ex_nav i \<equiv> \<lparr>mType = of_nat i, mSource = 1, mAgeSec = 60\<rparr>"

abbreviation (input) ex_status :: "(nat, nat position, unit) SystemStatusReports" where
  "ex_status \<equiv> new_SystemStatus\<lparr>r_NavData := [new_item 5 (map ex_nav [0..<134])],
     r_TimeAndClock := [new_item 5 \<lparr>tc_GpsWeek = 2005, tc_GpsTowMs = 380485000, tc_TimeValid = 1, tc_TimeSource = 0, tc_TimeUnc = 0,
       tc_ClockFreqBias = 0, tc_ClockFreqBiasUnc = 0, tc_LeapSeconds = 18, tc_LeapSecUnc = 0\<rparr>]\<rparr>"

lemma quiet_position:
  "NMEA_PROVIDER (rep_conf st) = 1 \<Longrightarrow>
   \<exists>out st'. reportPosition env loc ext status techMask st = Some (out, st') \<and> rep_ga st' = rep_ga st \<and> rep_conf st' = rep_conf st"
  by (simp add: reportPosition_def Let_def generates_nmea_def)

lemma quiet_sv:
  "NMEA_PROVIDER (rep_conf st) = 1 \<Longrightarrow>
   reportSv env svs st =
     Some (map (\<lambda>c. GnssSvCb c (map (mark_used (fp env) (mGnssSvIdUsedInPosAvail st) (mGnssSvIdUsedInPosition st)) svs)) (clients gnssSvCb st),
           st\<lparr>mGnssSvIdUsedInPosAvail := False\<rparr>)"
  by (simp add: reportSv_def Let_def generates_nmea_def report_sentences_def)

text \<open>The example: a fix that used the GPS satellites 5 and 7, and two reports of the satellites 5 and 3.\<close>

abbreviation (input) ex_svs :: "nat GnssSv list" where
  "ex_svs \<equiv> [ex_sv 5, ex_sv 3]"

lemma example_sv_run:
  "\<exists>out1 st1 out2 st2 svs2 out3 st3 svs3.
     rep_proc (ex_rep_env g) (MsgReportPosition ex_loc ex_extended LOC_SESS_SUCCESS 1) (ex_reporter None) = Some (out1, st1) \<and>
     rep_proc (ex_rep_env g) (MsgReportSv ex_svs) st1 = Some (out2, st2) \<and> GnssSvCb 7 svs2 \<in> set out2 \<and>
     rep_proc (ex_rep_env g) (MsgReportSv ex_svs) st2 = Some (out3, st3) \<and> GnssSvCb 7 svs3 \<in> set out3"
proof -
  let ?env = "ex_rep_env g" and ?pos = "MsgReportPosition ex_loc ex_extended LOC_SESS_SUCCESS 1" and ?sv = "MsgReportSv ex_svs"
  have "rep_proc ?env ?pos (ex_reporter None) = reportPosition ?env ex_loc ex_extended LOC_SESS_SUCCESS 1 (ex_reporter None)"
    by (simp add: upd_status_def)
  moreover obtain out1 st1 where "reportPosition ?env ex_loc ex_extended LOC_SESS_SUCCESS 1 (ex_reporter None) = Some (out1, st1)"
    and st1: "rep_ga st1 = rep_ga (ex_reporter None)" "rep_conf st1 = rep_conf (ex_reporter None)"
    using quiet_position [of "ex_reporter None" ?env ex_loc ex_extended LOC_SESS_SUCCESS 1] by auto
  ultimately have 1: "rep_proc ?env ?pos (ex_reporter None) = Some (out1, st1)" by simp
  obtain out2 st2 svs2 where 2: "rep_proc ?env ?sv st1 = Some (out2, st2)" "GnssSvCb 7 svs2 \<in> set out2"
    "rep_ga st2 = rep_ga st1" "rep_conf st2 = rep_conf st1"
    using st1 by (simp add: quiet_sv clients_def)
  obtain out3 st3 svs3 where 3: "rep_proc ?env ?sv st2 = Some (out3, st3)" "GnssSvCb 7 svs3 \<in> set out3"
    using st1 2(3,4) by (simp add: quiet_sv clients_def)
  from 1 2(1,2) 3 show ?thesis by blast
qed

lemma example_sv_marks:
  "needReport (fp (ex_rep_env g)) (rep_conf (ex_reporter None)) ex_loc LOC_SESS_SUCCESS 1" "bit (ext_flags ex_extended) 12"
  "bit (used_mask_of (used_masks_of ex_extended) (sv_type (ex_svs ! 0))) (nat (sint (svId (ex_svs ! 0)) - 1))"
  "\<not> bit (used_mask_of (used_masks_of ex_extended) (sv_type (ex_svs ! 1))) (nat (sint (svId (ex_svs ! 1)) - 1))"
  by (simp_all add: demo_sv_def demo_ext_def needReport_def used_masks_of_def used_mask_of_def GpsLocationExtended.extend_def bit_numeral_rec)


lemma ex_status_fields:
  "mSystemStatus (ex_reporter (Some ex_status)) = Some ex_status"
  "r_NavData ex_status = [new_item 5 (map ex_nav [0..<134])]"
  by simp_all

text \<open>134 navigation entries from the same source.\<close>

lemma debug_report_lists_satellites_once_witness:
  "\<forall>r. \<exists>new. d_satellites (snd (getDebugReport ex_rep_fp r (ex_reporter (Some ex_status)))) = d_satellites r @ new \<and>
     length new = 134 \<and> set (map s_ephemerisSource new) = {1}"
proof
  fix r
  obtain new where new: "d_satellites (snd (getDebugReport ex_rep_fp r (ex_reporter (Some ex_status)))) = d_satellites r @ new"
    "length new = 134" "mset (map (\<lambda>s. (s_ephemerisType s, s_ephemerisSource s)) new) =
       image_mset (\<lambda>v. (mType v, mSource v)) (mset (map ex_nav [0..<134]))"
    using debug_report_lists_satellites_once [OF ex_status_fields(1), of ex_rep_fp r]
    by (auto simp: new_item_def simp del: upt_rec_numeral)
  have "set_mset (image_mset snd (mset (map (\<lambda>s. (s_ephemerisType s, s_ephemerisSource s)) new))) = {1}"
    unfolding new(3) by (auto simp: image_iff exI [of "\<lambda>i. i < 134" 0] simp del: upt_rec_numeral mset_map)
  then have "set (map s_ephemerisSource new) = {1}" by (simp add: image_image)
  with new show "\<exists>new. d_satellites (snd (getDebugReport ex_rep_fp r (ex_reporter (Some ex_status)))) = d_satellites r @ new \<and>
     length new = 134 \<and> set (map s_ephemerisSource new) = {1}" by blast
qed

text \<open>14 June 2018, 09:41:07.\<close>

theorem debug_report_time_exact_witness:
  "\<forall>r. sint (d_timeEstimate (snd (getDebugReport ex_rep_fp r (ex_reporter (Some ex_status))))) = 1528969267000"
proof
  fix r
  show "sint (d_timeEstimate (snd (getDebugReport ex_rep_fp r (ex_reporter (Some ex_status))))) = 1528969267000"
    using debug_report_time_exact [OF ex_status_fields(1), of ex_rep_fp r]
    by (simp add: new_item_def Let_def del: upt_rec_numeral)
qed

end
