(* ===== verification/Gnss_Agps.thy ===== *)
theory Gnss_Agps
  imports Agps
begin

text \<open>
  The way of assisted GNSS through the program: the modem's requests and the framework's answers become
  messages of GnssAdapter (gps/gnss/GnssAdapter.cpp, initDefaultAgps to dataConnFailedCommand and the callbacks of
  the network library), which its thread passes to the AGPS manager; the manager asks the framework through
  the registered callback, which for the HAL is AGnss (gps/android/AGnss.cpp).
\<close>

unbundle bit_operations_syntax

section \<open>The adapter\<close>

record AgpsCbInfo =
  statusV4Cb :: ptr
  cbPriority :: nat

datatype ag_msg =
    MsgInitDefaultAgps
  | AgpsMsgInit AgpsCbInfo
  | AgpsMsgRequestATL int int
  | AgpsMsgReleaseATL int
  | AgpsMsgSuplEsOpened
  | AgpsMsgSuplEsClosed
  | AgpsMsgAtlOpenSuccess int string nat int
  | AgpsMsgAtlClosed int
  | AgpsMsgAtlOpenFailed int

record agps_adapter =
  mAgpsManager :: AgpsManager
  mFrameworkStatusV4Cb :: ptr
  mAgpsCbInfo :: AgpsCbInfo
  ag_evtMask :: "64 word"
  ag_msgs :: "ag_msg list"

text \<open>
  What comes from outside: the results of the modem's data service functions and of the timer, the members of
  mGps_conf used, and what the network library gives, if it can be loaded.
\<close>

record ag_env =
  ds_init :: int
  ds_open :: int
  ag_timer :: bool
  ag_CAPABILITIES :: u32
  ag_emergency_pdn :: bool
  net_iface :: "AgpsCbInfo option"

text \<open>The constructor registers the ATL callbacks and all functions of the data service client.\<close>

definition new_agps_adapter :: agps_adapter where
  "new_agps_adapter =
     \<lparr>mAgpsManager = new_manager, mFrameworkStatusV4Cb = None, mAgpsCbInfo = \<lparr>statusV4Cb = None, cbPriority = 0\<rparr>,
      ag_evtMask = 0, ag_msgs = []\<rparr>"

definition registered :: "ag_env \<Rightarrow> agps_adapter \<Rightarrow> agps_env" where
  "registered env st =
     \<lparr>atlCbs = True, frameworkCb = (mFrameworkStatusV4Cb st \<noteq> None), dsInitFn = Some (ds_init env),
      dsOpenFn = Some (ds_open env), dsStopFn = True, dsCloseFn = True, dsReleaseFn = True, timer_starts = ag_timer env,
      CAPABILITIES = ag_CAPABILITIES env, USE_EMERGENCY_PDN = ag_emergency_pdn env\<rparr>"

definition ag_sendMsg :: "ag_msg \<Rightarrow> agps_adapter \<Rightarrow> agps_adapter" where
  "ag_sendMsg m st = st\<lparr>ag_msgs := ag_msgs st @ [m]\<rparr>"

definition initAgps :: "ag_env \<Rightarrow> AgpsCbInfo \<Rightarrow> agps_adapter \<Rightarrow> agps_adapter" where
  "initAgps env cbInfo st =
     (if \<not> (ag_CAPABILITIES env AND 2 \<noteq> 0 \<or> ag_CAPABILITIES env AND 4 \<noteq> 0) then st
      else if cbPriority (mAgpsCbInfo st) > cbPriority cbInfo then st
      else let st = st\<lparr>mAgpsCbInfo := cbInfo, mFrameworkStatusV4Cb := statusV4Cb cbInfo\<rparr>
           in st\<lparr>mAgpsManager := createAgpsStateMachines (registered env st) (mAgpsManager st),
                ag_evtMask := ag_evtMask st OR 0x40\<rparr>)"

definition initDefaultAgps :: "ag_env \<Rightarrow> agps_adapter \<Rightarrow> agps_adapter" where
  "initDefaultAgps env st =
     (case net_iface env of
        None \<Rightarrow> st
      | Some cbInfo \<Rightarrow> if statusV4Cb cbInfo = None then st else initAgps env cbInfo st)"

section \<open>Commands\<close>

definition initDefaultAgpsCommand :: "agps_adapter \<Rightarrow> agps_adapter" where
  "initDefaultAgpsCommand = ag_sendMsg MsgInitDefaultAgps"

definition initAgpsCommand :: "AgpsCbInfo \<Rightarrow> agps_adapter \<Rightarrow> agps_adapter" where
  "initAgpsCommand cbInfo = ag_sendMsg (AgpsMsgInit cbInfo)"

definition ag_requestATL :: "int \<Rightarrow> int \<Rightarrow> agps_adapter \<Rightarrow> agps_adapter" where
  "ag_requestATL connHandle agpsType = ag_sendMsg (AgpsMsgRequestATL connHandle agpsType)"

definition requestSuplES :: "int \<Rightarrow> agps_adapter \<Rightarrow> agps_adapter" where
  "requestSuplES connHandle = ag_sendMsg (AgpsMsgRequestATL connHandle LOC_AGPS_TYPE_SUPL_ES)"

definition ag_releaseATL :: "int \<Rightarrow> agps_adapter \<Rightarrow> agps_adapter" where
  "ag_releaseATL connHandle = ag_sendMsg (AgpsMsgReleaseATL connHandle)"

definition ag_reportDataCallOpened :: "agps_adapter \<Rightarrow> agps_adapter" where
  "ag_reportDataCallOpened = ag_sendMsg AgpsMsgSuplEsOpened"

definition ag_reportDataCallClosed :: "agps_adapter \<Rightarrow> agps_adapter" where
  "ag_reportDataCallClosed = ag_sendMsg AgpsMsgSuplEsClosed"

text \<open>The name is copied up to the given length.\<close>

definition dataConnOpenCommand :: "int \<Rightarrow> string \<Rightarrow> nat \<Rightarrow> int \<Rightarrow> agps_adapter \<Rightarrow> agps_adapter" where
  "dataConnOpenCommand agpsType apnName apnLen bearerType =
     ag_sendMsg (AgpsMsgAtlOpenSuccess agpsType (take apnLen apnName) apnLen bearerType)"

definition dataConnClosedCommand :: "int \<Rightarrow> agps_adapter \<Rightarrow> agps_adapter" where
  "dataConnClosedCommand agpsType = ag_sendMsg (AgpsMsgAtlClosed agpsType)"

definition dataConnFailedCommand :: "int \<Rightarrow> agps_adapter \<Rightarrow> agps_adapter" where
  "dataConnFailedCommand agpsType = ag_sendMsg (AgpsMsgAtlOpenFailed agpsType)"

definition agpsOpenResultCb ::
  "bool \<Rightarrow> int \<Rightarrow> string option \<Rightarrow> int \<Rightarrow> ptr \<Rightarrow> agps_adapter \<Rightarrow> agps_adapter" where
  "agpsOpenResultCb isSuccess agpsType apn bearerType userDataPtr st =
     (if userDataPtr = None then st
      else case apn of
        None \<Rightarrow> st
      | Some apn \<Rightarrow> if isSuccess then dataConnOpenCommand agpsType apn (length apn) bearerType st
                    else dataConnFailedCommand agpsType st)"

definition agpsCloseResultCb :: "bool \<Rightarrow> int \<Rightarrow> ptr \<Rightarrow> agps_adapter \<Rightarrow> agps_adapter" where
  "agpsCloseResultCb isSuccess agpsType userDataPtr st =
     (if userDataPtr = None then st
      else if isSuccess then dataConnClosedCommand agpsType st else dataConnFailedCommand agpsType st)"

section \<open>Messages\<close>

definition to_manager :: "(AgpsManager \<Rightarrow> AgpsManager option) \<Rightarrow> agps_adapter \<Rightarrow> agps_adapter option" where
  "to_manager f st = map_option (\<lambda>m. st\<lparr>mAgpsManager := m\<rparr>) (f (mAgpsManager st))"

fun ag_deliver :: "ag_env \<Rightarrow> ag_msg \<Rightarrow> agps_adapter \<Rightarrow> agps_adapter option" where
  "ag_deliver env MsgInitDefaultAgps st = Some (initDefaultAgps env st)"
| "ag_deliver env (AgpsMsgInit cbInfo) st = Some (initAgps env cbInfo st)"
| "ag_deliver env (AgpsMsgRequestATL h t) st = to_manager (requestATL (registered env st) h t) st"
| "ag_deliver env (AgpsMsgReleaseATL h) st = to_manager (releaseATL (registered env st) h) st"
| "ag_deliver env AgpsMsgSuplEsOpened st = to_manager (reportDataCallOpened (registered env st)) st"
| "ag_deliver env AgpsMsgSuplEsClosed st = to_manager (reportDataCallClosed (registered env st)) st"
| "ag_deliver env (AgpsMsgAtlOpenSuccess t apn len bearer) st =
     to_manager (reportAtlOpenSuccess (registered env st) t (Some apn) len bearer) st"
| "ag_deliver env (AgpsMsgAtlClosed t) st = to_manager (reportAtlClosed (registered env st) t) st"
| "ag_deliver env (AgpsMsgAtlOpenFailed t) st = to_manager (reportAtlOpenFailed (registered env st) t) st"

text \<open>The manager's own messages, new ATL requests, go through the adapter's queue.\<close>

fun posted :: "agps_out \<Rightarrow> ag_msg list" where
  "posted (Send_RequestATL h t) = [AgpsMsgRequestATL h t]"
| "posted x = []"

definition post_new :: "agps_adapter \<Rightarrow> agps_adapter \<Rightarrow> agps_adapter" where
  "post_new st st' =
     st'\<lparr>ag_msgs := ag_msgs st' @
       concat (map posted (drop (length (agps_log (mAgpsManager st))) (agps_log (mAgpsManager st'))))\<rparr>"

definition ag_proc :: "ag_env \<Rightarrow> ag_msg \<Rightarrow> agps_adapter \<Rightarrow> agps_adapter option" where
  "ag_proc env m st = map_option (post_new st) (ag_deliver env m st)"

definition ag_retry :: "ag_env \<Rightarrow> agps_adapter \<Rightarrow> agps_adapter option" where
  "ag_retry env st = map_option (post_new st) (to_manager (retryCallback (registered env st)) st)"

section \<open>The HAL\<close>

datatype AGnssType = TYPE_SUPL | TYPE_C2K

datatype AGnssStatusValue =
  REQUEST_AGNSS_DATA_CONN | RELEASE_AGNSS_DATA_CONN | AGNSS_DATA_CONNECTED | AGNSS_DATA_CONN_DONE | AGNSS_DATA_CONN_FAILED

definition AGnssType_of :: "int \<Rightarrow> AGnssType option" where
  "AGnssType_of t = (if t = 1 then Some TYPE_SUPL else if t = 2 then Some TYPE_C2K else None)"

definition AGnssStatusValue_of :: "int \<Rightarrow> AGnssStatusValue option" where
  "AGnssStatusValue_of s =
     (if s = 1 then Some REQUEST_AGNSS_DATA_CONN else if s = 2 then Some RELEASE_AGNSS_DATA_CONN
      else if s = 3 then Some AGNSS_DATA_CONNECTED else if s = 4 then Some AGNSS_DATA_CONN_DONE
      else if s = 5 then Some AGNSS_DATA_CONN_FAILED else None)"

text \<open>What the framework is told; the address is passed on.\<close>

definition statusIpV4Cb :: "bool \<Rightarrow> int \<Rightarrow> int \<Rightarrow> (AGnssType \<times> AGnssStatusValue) option" where
  "statusIpV4Cb has_iface type status =
     (case AGnssType_of type of
        None \<Rightarrow> None
      | Some t \<Rightarrow> (case AGnssStatusValue_of status of None \<Rightarrow> None | Some s \<Rightarrow> if has_iface then Some (t, s) else None))"

definition agnssStatusIpV4Cb :: "bool \<Rightarrow> bool \<Rightarrow> int \<Rightarrow> int \<Rightarrow> (AGnssType \<times> AGnssStatusValue) option" where
  "agnssStatusIpV4Cb has_spAGnss has_iface type status = (if has_spAGnss then statusIpV4Cb has_iface type status else None)"

datatype ApnIpType = IPV4 | IPV6 | IPV4V6 | APN_INVALID

definition bearer_of :: "ApnIpType \<Rightarrow> int" where
  "bearer_of t = (case t of IPV4 \<Rightarrow> 1 | IPV6 \<Rightarrow> 2 | IPV4V6 \<Rightarrow> 3 | _ \<Rightarrow> 1)"

text \<open>The HAL's object without its interface does nothing.\<close>

definition setCallback :: "bool \<Rightarrow> addr \<Rightarrow> agps_adapter \<Rightarrow> agps_adapter" where
  "setCallback has_gnss cb st = (if has_gnss then initAgpsCommand \<lparr>statusV4Cb = Some cb, cbPriority = 1\<rparr> st else st)"

definition dataConnClosed :: "bool \<Rightarrow> agps_adapter \<Rightarrow> bool \<times> agps_adapter" where
  "dataConnClosed has_gnss st = (if has_gnss then (True, dataConnClosedCommand LOC_AGPS_TYPE_SUPL st) else (False, st))"

definition dataConnFailed :: "bool \<Rightarrow> agps_adapter \<Rightarrow> bool \<times> agps_adapter" where
  "dataConnFailed has_gnss st = (if has_gnss then (True, dataConnFailedCommand LOC_AGPS_TYPE_SUPL st) else (False, st))"

definition dataConnOpen :: "bool \<Rightarrow> string \<Rightarrow> ApnIpType \<Rightarrow> agps_adapter \<Rightarrow> bool \<times> agps_adapter" where
  "dataConnOpen has_gnss apn apnIpType st =
     (if \<not> has_gnss then (False, st)
      else if apn = [] then (False, st)
      else (True, dataConnOpenCommand LOC_AGPS_TYPE_SUPL apn (length apn) (bearer_of apnIpType) st))"

section \<open>The system\<close>

text \<open>What the modem, the network library, the HAL and the timer may do to the adapter's queue and the manager.\<close>

inductive agps_call :: "agps_adapter \<Rightarrow> agps_adapter \<Rightarrow> bool" where
  "agps_call st (initDefaultAgpsCommand st)"
| "agps_call st (ag_requestATL h t st)"
| "agps_call st (requestSuplES h st)"
| "agps_call st (ag_releaseATL h st)"
| "agps_call st (ag_reportDataCallOpened st)"
| "agps_call st (ag_reportDataCallClosed st)"
| "agps_call st (agpsOpenResultCb ok t apn bearer u st)"
| "agps_call st (agpsCloseResultCb ok t u st)"
| "agps_call st (setCallback g cb st)"
| "agps_call st (snd (dataConnOpen g name ip st))"
| "agps_call st (snd (dataConnClosed g st))"
| "agps_call st (snd (dataConnFailed g st))"

text \<open>The configuration is fixed; the results of the modem vary.\<close>

definition same_config :: "ag_env \<Rightarrow> ag_env \<Rightarrow> bool" where
  "same_config env env' \<longleftrightarrow> ag_CAPABILITIES env' = ag_CAPABILITIES env \<and> ag_emergency_pdn env' = ag_emergency_pdn env \<and>
     ds_init env' = ds_init env"

inductive agps_sys :: "ag_env \<Rightarrow> agps_adapter \<Rightarrow> agps_adapter \<Rightarrow> bool" for env :: ag_env where
  call: "agps_call st st' \<Longrightarrow> agps_sys env st st'"
| proc: "same_config env e \<Longrightarrow> ag_msgs st = m # ms \<Longrightarrow> ag_proc e m (st\<lparr>ag_msgs := ms\<rparr>) = Some st' \<Longrightarrow> agps_sys env st st'"
| retry: "same_config env e \<Longrightarrow> mDsNif (mAgpsManager st) \<noteq> None \<Longrightarrow> ag_retry e st = Some st' \<Longrightarrow> agps_sys env st st'"

end
