(* ===== verification/Lights.thy ===== *)
theory Lights
  imports Prelude
begin

text \<open>
  The lights module, liblight/lights.c: the backlight and the buttons, and the RGB light that the battery, the
  notifications and the attention signal share, driven through files of the kernel. A file holds the text
  written last; every operation runs under the mutex of the module.
\<close>

unbundle bit_operations_syntax

section \<open>Files\<close>

datatype led_file =
    RED_LED_FILE | GREEN_LED_FILE | BLUE_LED_FILE | LCD_FILE | BUTTONS_FILE
  | RED_DUTY_PCTS_FILE | GREEN_DUTY_PCTS_FILE | BLUE_DUTY_PCTS_FILE
  | RED_START_IDX_FILE | GREEN_START_IDX_FILE | BLUE_START_IDX_FILE
  | RED_PAUSE_LO_FILE | GREEN_PAUSE_LO_FILE | BLUE_PAUSE_LO_FILE
  | RED_PAUSE_HI_FILE | GREEN_PAUSE_HI_FILE | BLUE_PAUSE_HI_FILE
  | RED_RAMP_STEP_MS_FILE | GREEN_RAMP_STEP_MS_FILE | BLUE_RAMP_STEP_MS_FILE
  | RED_BLINK_FILE | GREEN_BLINK_FILE | BLUE_BLINK_FILE | RGB_BLINK_FILE

text \<open>What a file holds, and the error of opening or writing it, if any.\<close>

record led_fs =
  contents :: "led_file \<Rightarrow> string"
  io_errno :: "led_file \<Rightarrow> nat option"

definition write_text :: "led_file \<Rightarrow> string \<Rightarrow> led_fs \<Rightarrow> int \<times> led_fs" where
  "write_text path s fs =
     (case io_errno fs path of
        Some e \<Rightarrow> (- int e, fs)
      | None \<Rightarrow> (0, fs\<lparr>contents := (contents fs)(path := s)\<rparr>))"

definition write_int :: "led_file \<Rightarrow> int \<Rightarrow> led_fs \<Rightarrow> int \<times> led_fs" where
  "write_int path v = write_text path (fmt_d 0 v @ [CHR 0x0A])"

text \<open>The text fits the buffer of 1024 characters: it is the duty string of at most 40.\<close>

definition write_str :: "led_file \<Rightarrow> string \<Rightarrow> led_fs \<Rightarrow> int \<times> led_fs" where
  "write_str path v = write_text path (take 1023 (v @ [CHR 0x0A]))"

section \<open>State\<close>

datatype flash_mode = LIGHT_FLASH_NONE | LIGHT_FLASH_TIMED | LIGHT_FLASH_HARDWARE

record light_state_t =
  color :: u32
  flashMode :: flash_mode
  flashOnMS :: u32
  flashOffMS :: u32

definition zero_light :: light_state_t where
  "zero_light = \<lparr>color = 0, flashMode = LIGHT_FLASH_NONE, flashOnMS = 0, flashOffMS = 0\<rparr>"

record lights =
  g_attention :: light_state_t
  g_notification :: light_state_t
  g_battery :: light_state_t
  leds :: led_fs

definition is_lit :: "light_state_t \<Rightarrow> bool" where
  "is_lit state \<longleftrightarrow> color state AND 0x00FFFFFF \<noteq> 0"

definition rgb_to_brightness :: "light_state_t \<Rightarrow> int" where
  "rgb_to_brightness state =
     (let color = sint (color state AND 0x00FFFFFF)
      in drop_bit 8 ((77 * (drop_bit 16 color AND 0x00FF)) + (150 * (drop_bit 8 color AND 0x00FF)) + (29 * (color AND 0x00FF))))"

section \<open>Backlight and buttons\<close>

definition set_light_backlight :: "bool \<Rightarrow> light_state_t \<Rightarrow> lights \<Rightarrow> int \<times> lights" where
  "set_light_backlight has_dev state st =
     (let brightness = rgb_to_brightness state
      in if \<not> has_dev then (-1, st)
         else let (err, fs) = write_int LCD_FILE brightness (leds st) in (err, st\<lparr>leds := fs\<rparr>))"

definition set_light_buttons :: "bool \<Rightarrow> light_state_t \<Rightarrow> lights \<Rightarrow> int \<times> lights" where
  "set_light_buttons has_dev state st =
     (let brightness = rgb_to_brightness state
      in if \<not> has_dev then (-1, st)
         else let (err, fs) = write_int BUTTONS_FILE brightness (leds st) in (err, st\<lparr>leds := fs\<rparr>))"

section \<open>The RGB light\<close>

abbreviation (input) RAMP_SIZE :: int where "RAMP_SIZE \<equiv> 8"

abbreviation (input) RAMP_STEP_DURATION :: int where "RAMP_STEP_DURATION \<equiv> 50"

definition BRIGHTNESS_RAMP :: "int list" where
  "BRIGHTNESS_RAMP = [0, 12, 25, 37, 50, 72, 85, 100]"

text \<open>The loop of get_scaled_duty_pcts; an entry is cut to 4 characters, the buffer holds 39.\<close>

fun duty_loop :: "int \<Rightarrow> string \<Rightarrow> int list \<Rightarrow> string \<Rightarrow> string" where
  "duty_loop brightness pad [] buf = buf"
| "duty_loop brightness pad (r # rs) buf =
     duty_loop brightness '','' rs (buf @ take 4 (pad @ fmt_d 0 (r * brightness div 255)))"

definition get_scaled_duty_pcts :: "int \<Rightarrow> string" where
  "get_scaled_duty_pcts brightness = duty_loop brightness [] BRIGHTNESS_RAMP []"

text \<open>The writes for one of the three colours.\<close>

record ramp =
  start_file :: led_file
  duty_file :: led_file
  lo_file :: led_file
  hi_file :: led_file
  step_file :: led_file

definition red_ramp :: ramp where
  "red_ramp = \<lparr>start_file = RED_START_IDX_FILE, duty_file = RED_DUTY_PCTS_FILE, lo_file = RED_PAUSE_LO_FILE,
     hi_file = RED_PAUSE_HI_FILE, step_file = RED_RAMP_STEP_MS_FILE\<rparr>"

definition green_ramp :: ramp where
  "green_ramp = \<lparr>start_file = GREEN_START_IDX_FILE, duty_file = GREEN_DUTY_PCTS_FILE, lo_file = GREEN_PAUSE_LO_FILE,
     hi_file = GREEN_PAUSE_HI_FILE, step_file = GREEN_RAMP_STEP_MS_FILE\<rparr>"

definition blue_ramp :: ramp where
  "blue_ramp = \<lparr>start_file = BLUE_START_IDX_FILE, duty_file = BLUE_DUTY_PCTS_FILE, lo_file = BLUE_PAUSE_LO_FILE,
     hi_file = BLUE_PAUSE_HI_FILE, step_file = BLUE_RAMP_STEP_MS_FILE\<rparr>"

definition write_ramp :: "ramp \<Rightarrow> int \<Rightarrow> int \<Rightarrow> int \<Rightarrow> int \<Rightarrow> int \<Rightarrow> led_fs \<Rightarrow> led_fs" where
  "write_ramp r idx value offMS pauseHi stepDuration fs =
     (let fs = snd (write_int (start_file r) idx fs);
          fs = snd (write_str (duty_file r) (get_scaled_duty_pcts value) fs);
          fs = snd (write_int (lo_file r) offMS fs);
          fs = snd (write_int (hi_file r) pauseHi fs)
      in snd (write_int (step_file r) stepDuration fs))"

definition set_speaker_light_locked :: "bool \<Rightarrow> light_state_t \<Rightarrow> led_fs \<Rightarrow> int \<times> led_fs" where
  "set_speaker_light_locked has_dev state fs =
     (if \<not> has_dev then (-1, fs)
      else
        let (onMS, offMS) = (case flashMode state of
              LIGHT_FLASH_TIMED \<Rightarrow> (sint (flashOnMS state), sint (flashOffMS state)) | _ \<Rightarrow> (0, 0));
            colorRGB = color state;
            red = uint (drop_bit 16 colorRGB AND 0xFF); green = uint (drop_bit 8 colorRGB AND 0xFF); blue = uint (colorRGB AND 0xFF);
            blink = (onMS > 0 \<and> offMS > 0);
            fs = snd (write_int RGB_BLINK_FILE 0 fs)
        in if blink
           then let stepDuration = RAMP_STEP_DURATION;
                    pauseHi = onMS - (stepDuration * RAMP_SIZE * 2);
                    (stepDuration, pauseHi) = (if stepDuration * RAMP_SIZE * 2 > onMS then (onMS div (RAMP_SIZE * 2), 0)
                                               else (stepDuration, pauseHi));
                    fs = write_ramp red_ramp 0 red offMS pauseHi stepDuration fs;
                    fs = write_ramp green_ramp RAMP_SIZE green offMS pauseHi stepDuration fs;
                    fs = write_ramp blue_ramp (RAMP_SIZE * 2) blue offMS pauseHi stepDuration fs
                in (0, snd (write_int RGB_BLINK_FILE 1 fs))
           else let fs = (if red = 0 \<and> green = 0 \<and> blue = 0
                          then snd (write_int BLUE_BLINK_FILE 0 (snd (write_int GREEN_BLINK_FILE 0 (snd (write_int RED_BLINK_FILE 0 fs)))))
                          else fs);
                    fs = snd (write_int RED_LED_FILE red fs);
                    fs = snd (write_int GREEN_LED_FILE green fs)
                in (0, snd (write_int BLUE_LED_FILE blue fs)))"

definition handle_speaker_light_locked :: "bool \<Rightarrow> lights \<Rightarrow> lights" where
  "handle_speaker_light_locked has_dev st =
     (let state = (if is_lit (g_attention st) then g_attention st
                   else if is_lit (g_notification st) then g_notification st else g_battery st)
      in st\<lparr>leds := snd (set_speaker_light_locked has_dev state (leds st))\<rparr>)"

definition set_light_battery :: "bool \<Rightarrow> light_state_t \<Rightarrow> lights \<Rightarrow> int \<times> lights" where
  "set_light_battery has_dev state st = (0, handle_speaker_light_locked has_dev (st\<lparr>g_battery := state\<rparr>))"

definition scale_rgb :: "u32 \<Rightarrow> u32 \<Rightarrow> u32" where
  "scale_rgb brightness v = (if v > 0 then (v * brightness) div 0xFF else v)"

definition apply_brightness :: "light_state_t \<Rightarrow> light_state_t" where
  "apply_brightness n =
     (let brightness = drop_bit 24 (color n AND 0xFF000000)
      in if brightness > 0 \<and> brightness < 0xFF
         then let c = color n AND 0x00FFFFFF;
                  r = scale_rgb brightness (drop_bit 16 c AND 0xFF);
                  g = scale_rgb brightness (drop_bit 8 c AND 0xFF);
                  b = scale_rgb brightness (c AND 0xFF)
              in n\<lparr>color := push_bit 16 r + push_bit 8 g + b\<rparr>
         else n)"

definition set_light_notifications :: "bool \<Rightarrow> light_state_t \<Rightarrow> lights \<Rightarrow> int \<times> lights" where
  "set_light_notifications has_dev state st =
     (0, handle_speaker_light_locked has_dev (st\<lparr>g_notification := apply_brightness state\<rparr>))"

definition set_light_attention :: "bool \<Rightarrow> light_state_t \<Rightarrow> lights \<Rightarrow> int \<times> lights" where
  "set_light_attention has_dev state st = (0, handle_speaker_light_locked has_dev (st\<lparr>g_attention := state\<rparr>))"

section \<open>The module\<close>

datatype light_dev = Backlight | Buttons | Battery | Notifications | Attention

definition light_of_name :: "string \<Rightarrow> light_dev option" where
  "light_of_name name =
     (if name = ''backlight'' then Some Backlight else if name = ''buttons'' then Some Buttons
      else if name = ''battery'' then Some Battery else if name = ''notifications'' then Some Notifications
      else if name = ''attention'' then Some Attention else None)"

text \<open>EINVAL is 22, ENOMEM 12.\<close>

definition open_lights :: "string \<Rightarrow> ptr \<Rightarrow> int \<times> (addr \<times> light_dev) option" where
  "open_lights name dev =
     (case light_of_name name of
        None \<Rightarrow> (-22, None)
      | Some d \<Rightarrow> (case dev of None \<Rightarrow> (-12, None) | Some a \<Rightarrow> (0, Some (a, d))))"

fun set_light :: "light_dev \<Rightarrow> bool \<Rightarrow> light_state_t \<Rightarrow> lights \<Rightarrow> int \<times> lights" where
  "set_light Backlight = set_light_backlight"
| "set_light Buttons = set_light_buttons"
| "set_light Battery = set_light_battery"
| "set_light Notifications = set_light_notifications"
| "set_light Attention = set_light_attention"

text \<open>Closing frees the device, if there is one.\<close>

definition close_lights :: "ptr \<Rightarrow> int \<times> addr list" where
  "close_lights dev = (0, case dev of None \<Rightarrow> [] | Some a \<Rightarrow> [a])"

end
