(* ===== verification/Lights_Props.thy ===== *)
theory Lights_Props
  imports Lights
begin

text \<open>
  The correctness of the lights module: the shared RGB light always shows the state of the highest priority that
  is lit, blinking keeps its timing, the ramps are printed in full, and a brightness is a weighted mean.
\<close>

unbundle bit_operations_syntax

section \<open>Colours\<close>

definition red_of :: "u32 \<Rightarrow> int" where "red_of c = uint c div 0x10000 mod 0x100"
definition green_of :: "u32 \<Rightarrow> int" where "green_of c = uint c div 0x100 mod 0x100"
definition blue_of :: "u32 \<Rightarrow> int" where "blue_of c = uint c mod 0x100"

lemma uint_and_FF: "uint (w AND 0xFF :: u32) = uint w mod 0x100"
proof -
  have "w AND 0xFF = take_bit 8 w" by (simp add: take_bit_eq_mask mask_eq_exp_minus_1)
  then have "uint (w AND 0xFF) = take_bit 8 (uint w)" by (simp only: unsigned_take_bit_eq)
  then show ?thesis by (simp add: take_bit_eq_mod)
qed

lemma uint_and_FFFFFF: "uint (w AND 0xFFFFFF :: u32) = uint w mod 0x1000000"
proof -
  have "w AND 0xFFFFFF = take_bit 24 w" by (simp add: take_bit_eq_mask mask_eq_exp_minus_1)
  then have "uint (w AND 0xFFFFFF) = take_bit 24 (uint w)" by (simp only: unsigned_take_bit_eq)
  then show ?thesis by (simp add: take_bit_eq_mod)
qed

lemma int_and_FF: "(x :: int) AND 0xFF = x mod 0x100"
proof -
  have "x AND 0xFF = take_bit 8 x" by (simp add: take_bit_eq_mask mask_eq_exp_minus_1)
  then show ?thesis by (simp add: take_bit_eq_mod)
qed

lemma uint_drop: "uint (drop_bit n w :: u32) = uint w div 2 ^ n"
proof -
  have "take_bit 32 (uint w) = uint w" using uint_lt2p [of w] by (simp add: take_bit_int_eq_self)
  then show ?thesis unfolding unsigned_drop_bit_eq by (simp add: drop_bit_eq_div)
qed

lemma colour_parts:
  "uint (drop_bit 16 c AND 0xFF :: u32) = red_of c" "uint (drop_bit 8 c AND 0xFF :: u32) = green_of c" "uint (c AND 0xFF :: u32) = blue_of c"
  by (simp_all add: uint_and_FF uint_drop red_of_def green_of_def blue_of_def)

lemma colour_bounds:
  "0 \<le> red_of c" "red_of c \<le> 255" "0 \<le> green_of c" "green_of c \<le> 255" "0 \<le> blue_of c" "blue_of c \<le> 255"
  by (simp_all add: red_of_def green_of_def blue_of_def)

lemma low_colour: "uint c mod 0x1000000 = red_of c * 0x10000 + green_of c * 0x100 + blue_of c"
  using zmod_zmult2_eq [where a = "uint c" and b = 256 and c = 65536] zmod_zmult2_eq [where a = "uint c div 0x100" and b = 256 and c = 256]
    zdiv_zmult2_eq [where a = "uint c" and b = 256 and c = 256]
  by (simp add: red_of_def green_of_def blue_of_def)

lemma packed_parts:
  assumes "0 \<le> r" "r \<le> 255" "0 \<le> g" "g \<le> 255" "0 \<le> b" "b \<le> (255 :: int)"
  shows "(r * 0x10000 + g * 0x100 + b) div 0x10000 mod 0x100 = r" "(r * 0x10000 + g * 0x100 + b) div 0x100 mod 0x100 = g"
    "(r * 0x10000 + g * 0x100 + b) mod 0x100 = b"
proof -
  have "(r * 0x10000 + g * 0x100 + b) div 0x10000 = r"
    by (rule int_div_pos_eq [of _ _ _ "g * 0x100 + b"]) (use assms in simp_all)
  then show "(r * 0x10000 + g * 0x100 + b) div 0x10000 mod 0x100 = r" using assms by simp
  have "(r * 0x10000 + g * 0x100 + b) div 0x100 = r * 0x100 + g"
    by (rule int_div_pos_eq [of _ _ _ b]) (use assms in simp_all)
  then show "(r * 0x10000 + g * 0x100 + b) div 0x100 mod 0x100 = g" using assms by simp
  show "(r * 0x10000 + g * 0x100 + b) mod 0x100 = b"
    by (rule int_mod_pos_eq [of _ _ "r * 0x100 + g"]) (use assms in simp_all)
qed

lemma is_lit_iff: "is_lit s \<longleftrightarrow> red_of (color s) \<noteq> 0 \<or> green_of (color s) \<noteq> 0 \<or> blue_of (color s) \<noteq> 0"
proof -
  have "is_lit s \<longleftrightarrow> uint (color s AND 0xFFFFFF) \<noteq> 0" by (simp add: is_lit_def uint_0_iff)
  also have "\<dots> \<longleftrightarrow> red_of (color s) * 0x10000 + green_of (color s) * 0x100 + blue_of (color s) \<noteq> 0"
    unfolding uint_and_FFFFFF low_colour ..
  also have "\<dots> \<longleftrightarrow> red_of (color s) \<noteq> 0 \<or> green_of (color s) \<noteq> 0 \<or> blue_of (color s) \<noteq> 0"
    using colour_bounds [of "color s"] by linarith
  finally show ?thesis .
qed

lemma brightness_value:
  "rgb_to_brightness s = (77 * red_of (color s) + 150 * green_of (color s) + 29 * blue_of (color s)) div 256"
proof -
  let ?c = "color s AND 0xFFFFFF"
  have u: "uint ?c < 0x1000000" unfolding uint_and_FFFFFF by simp
  have "sint ?c = uint ?c"
    unfolding sint_uint using u order_trans [OF _ uint_ge_0, of "- (2 ^ 31)" ?c]
    by (intro signed_take_bit_int_eq_self) simp_all
  moreover have "uint ?c div 0x10000 mod 0x100 = red_of (color s)" "uint ?c div 0x100 mod 0x100 = green_of (color s)"
    "uint ?c mod 0x100 = blue_of (color s)"
    unfolding uint_and_FFFFFF low_colour by (rule packed_parts; rule colour_bounds)+
  ultimately show ?thesis by (simp add: rgb_to_brightness_def Let_def drop_bit_eq_div int_and_FF)
qed

section \<open>The brightness of a notification\<close>

lemma scaled_value:
  assumes "b < 0x100" "v < 0x100"
  shows "uint (scale_rgb b v) = uint v * uint b div 255" "uint (scale_rgb b v) \<le> uint v \<or> 255 < uint b"
proof -
  have bounds: "0 \<le> uint b" "uint b < 256" "0 \<le> uint v" "uint v < 256"
    using assms by (simp_all add: word_less_def)
  have "uint v * uint b \<le> 255 * 255" using bounds by (intro mult_mono) simp_all
  then have "uint (v * b) = uint v * uint b" by (simp add: uint_word_ariths)
  then show eq: "uint (scale_rgb b v) = uint v * uint b div 255"
    by (auto simp: scale_rgb_def uint_div word_gt_0)
  show "uint (scale_rgb b v) \<le> uint v \<or> 255 < uint b"
  proof (rule disjCI)
    assume "\<not> 255 < uint b"
    then have "uint v * uint b \<le> uint v * 255" using bounds by (intro mult_left_mono) simp_all
    then have "uint v * uint b div 255 \<le> uint v * 255 div 255" by (rule zdiv_mono1) simp
    then show "uint (scale_rgb b v) \<le> uint v" by (simp add: eq)
  qed
qed

lemma colour_masked:
  "red_of (c AND 0xFFFFFF) = red_of c" "green_of (c AND 0xFFFFFF) = green_of c" "blue_of (c AND 0xFFFFFF) = blue_of c"
  using packed_parts [OF colour_bounds(1,2) [of c] colour_bounds(3,4) [of c] colour_bounds(5,6) [of c]]
  unfolding red_of_def [of "c AND 0xFFFFFF"] green_of_def [of "c AND 0xFFFFFF"] blue_of_def [of "c AND 0xFFFFFF"]
    uint_and_FFFFFF low_colour by simp_all

text \<open>The user's brightness, in the upper byte of the colour.\<close>

definition level_of :: "u32 \<Rightarrow> int" where
  "level_of c = uint c div 0x1000000"

lemma level_value: "uint (drop_bit 24 (c AND 0xFF000000) :: u32) = level_of c"
proof -
  have "drop_bit 24 (c AND 0xFF000000) = drop_bit 24 c AND (0xFF :: u32)" by (simp add: drop_bit_and)
  then have "uint (drop_bit 24 (c AND 0xFF000000)) = uint c div 0x1000000 mod 0x100" by (simp add: uint_and_FF uint_drop)
  moreover have "0 \<le> uint c div 0x1000000" "uint c div 0x1000000 < 0x100"
    using uint_lt2p [of c] by (simp_all add: pos_imp_zdiv_nonneg_iff)
  ultimately show ?thesis by (simp add: level_of_def mod_pos_pos_trivial del: drop_bit_and)
qed

lemma packed_word:
  assumes "r < 0x100" "g < 0x100" "b < (0x100 :: u32)"
  shows "uint (push_bit 16 r + push_bit 8 g + b) = uint r * 0x10000 + uint g * 0x100 + uint b"
proof -
  have "uint r < 256" "uint g < 256" "uint b < 256" using assms by (simp_all add: word_less_def)
  then show ?thesis by (simp add: push_bit_eq_mult uint_word_ariths)
qed

text \<open>The colour a notification is shown with.\<close>

definition dimmed :: "int \<Rightarrow> int \<Rightarrow> int" where
  "dimmed level v = (if 0 < level \<and> level < 255 then v * level div 255 else v)"

lemma applied_colour:
  "red_of (color (apply_brightness n)) = dimmed (level_of (color n)) (red_of (color n)) \<and>
   green_of (color (apply_brightness n)) = dimmed (level_of (color n)) (green_of (color n)) \<and>
   blue_of (color (apply_brightness n)) = dimmed (level_of (color n)) (blue_of (color n))"
proof -
  let ?c = "color n" and ?b = "drop_bit 24 (color n AND 0xFF000000)"
  let ?cm = "color n AND 0xFFFFFF"
  let ?r = "drop_bit 16 ?cm AND 0xFF" and ?g = "drop_bit 8 ?cm AND 0xFF" and ?v = "?cm AND 0xFF"
  have cond: "(?b > 0 \<and> ?b < 0xFF) = (0 < level_of ?c \<and> level_of ?c < 255)"
    unfolding word_less_def level_value by simp
  show ?thesis
  proof (cases "0 < level_of ?c \<and> level_of ?c < 255")
    case True
    have parts: "uint ?r = red_of ?c" "uint ?g = green_of ?c" "uint ?v = blue_of ?c"
      by (rule colour_parts [where c = ?cm, unfolded colour_masked])+
    have small: "?r < 0x100" "?g < 0x100" "?v < 0x100"
      unfolding word_less_def parts using colour_bounds [of ?c] by simp_all
    have lev: "?b < 0x100" unfolding word_less_def level_value using True by simp
    have le: "uint (scale_rgb ?b x) = uint x * level_of ?c div 255" "scale_rgb ?b x < 0x100" if "x < 0x100" for x
    proof -
      show "uint (scale_rgb ?b x) = uint x * level_of ?c div 255" using scaled_value(1) [OF lev that] unfolding level_value .
      have "uint (scale_rgb ?b x) \<le> uint x" using scaled_value(2) [OF lev that] True unfolding level_value by simp
      then show "scale_rgb ?b x < 0x100" using that by (simp add: word_less_def)
    qed
    have "apply_brightness n = n\<lparr>color := push_bit 16 (scale_rgb ?b ?r) + push_bit 8 (scale_rgb ?b ?g) + scale_rgb ?b ?v\<rparr>"
      unfolding apply_brightness_def Let_def using True by (simp only: cond simp_thms if_True)
    then have "color (apply_brightness n) = push_bit 16 (scale_rgb ?b ?r) + push_bit 8 (scale_rgb ?b ?g) + scale_rgb ?b ?v"
      by simp
    then have u: "uint (color (apply_brightness n)) =
      uint (scale_rgb ?b ?r) * 0x10000 + uint (scale_rgb ?b ?g) * 0x100 + uint (scale_rgb ?b ?v)"
      by (simp only: packed_word [OF le(2) [OF small(1)] le(2) [OF small(2)] le(2) [OF small(3)]])
    have b: "0 \<le> uint (scale_rgb ?b x)" "uint (scale_rgb ?b x) \<le> 255" if "x < 0x100" for x
      using le(2) [OF that] by (simp_all add: word_less_def)
    note p = packed_parts [OF b [OF small(1)] b [OF small(2)] b [OF small(3)], folded u]
    show ?thesis unfolding red_of_def [of "color (apply_brightness n)"] green_of_def [of "color (apply_brightness n)"]
        blue_of_def [of "color (apply_brightness n)"] p le(1) [OF small(1)] le(1) [OF small(2)] le(1) [OF small(3)] parts
      using True by (simp add: dimmed_def)
  next
    case False
    then have "apply_brightness n = n" unfolding apply_brightness_def Let_def cond by (simp only: if_False)
    with False show ?thesis by (auto simp: dimmed_def)
  qed
qed

section \<open>What the light shows\<close>

text \<open>
  The view of the files that the hardware has: a steady colour, or three ramps that repeat, each with its place
  in the table, its duty cycles, its pauses and the duration of a step.
\<close>

datatype shown = Steady "string list" | Blinking "string list list"

definition ramp_texts :: "led_fs \<Rightarrow> ramp \<Rightarrow> string list" where
  "ramp_texts fs r = map (contents fs) [start_file r, duty_file r, lo_file r, hi_file r, step_file r]"

definition shown :: "led_fs \<Rightarrow> shown" where
  "shown fs =
     (if contents fs RGB_BLINK_FILE = ''1'' @ [CHR 0x0A] then Blinking (map (ramp_texts fs) [red_ramp, green_ramp, blue_ramp])
      else Steady (map (contents fs) [RED_LED_FILE, GREEN_LED_FILE, BLUE_LED_FILE]))"

definition line :: "int \<Rightarrow> string" where
  "line v = fmt_d 0 v @ [CHR 0x0A]"

definition ramp_of :: "int \<Rightarrow> int \<Rightarrow> int \<Rightarrow> int \<Rightarrow> string list" where
  "ramp_of place v on off =
     [line place, get_scaled_duty_pcts v @ [CHR 0x0A], line off, line (max 0 (on - 800)), line (min 50 (on div 16))]"

definition meaning :: "light_state_t \<Rightarrow> shown" where
  "meaning s =
     (let on = sint (flashOnMS s); off = sint (flashOffMS s); c = color s
      in if flashMode s = LIGHT_FLASH_TIMED \<and> 0 < on \<and> 0 < off
         then Blinking [ramp_of 0 (red_of c) on off, ramp_of 8 (green_of c) on off, ramp_of 16 (blue_of c) on off]
         else Steady [line (red_of c), line (green_of c), line (blue_of c)])"

definition writable :: "led_fs \<Rightarrow> bool" where
  "writable fs \<longleftrightarrow> (\<forall>f. io_errno fs f = None)"

lemma write_ok:
  assumes "writable fs"
  shows "write_text path t fs = (0, fs\<lparr>contents := (contents fs)(path := t)\<rparr>)"
    "writable (fs\<lparr>contents := c\<rparr>)"
  using assms by (simp_all add: writable_def write_text_def)

lemma duty_length: "length (duty_loop b pad rs buf) \<le> length buf + 4 * length rs"
proof (induction rs arbitrary: pad buf)
  case (Cons r rs)
  have "length (buf @ take 4 (pad @ fmt_d 0 (r * b div 255))) \<le> length buf + 4" by simp
  with Cons [of "'',''" "buf @ take 4 (pad @ fmt_d 0 (r * b div 255))"] show ?case by simp
qed simp

lemma duty_fits: "length (get_scaled_duty_pcts b) \<le> 32"
  using duty_length [of b "[]" BRIGHTNESS_RAMP "[]"] by (simp add: get_scaled_duty_pcts_def BRIGHTNESS_RAMP_def)

lemma write_str_whole: "write_str path (get_scaled_duty_pcts b) = write_text path (get_scaled_duty_pcts b @ [CHR 0x0A])"
  using duty_fits [of b] by (simp add: write_str_def)

lemmas led_writes = write_int_def write_str_whole write_ok line_def [symmetric]

definition ramp_files :: "ramp \<Rightarrow> led_file list" where
  "ramp_files r = [start_file r, duty_file r, lo_file r, hi_file r, step_file r]"

lemma write_ramp_ok:
  assumes "writable fs" "distinct (ramp_files r)"
  shows "ramp_texts (write_ramp r idx v off hi step fs) r =
      [line idx, get_scaled_duty_pcts v @ [CHR 0x0A], line off, line hi, line step]"
    "writable (write_ramp r idx v off hi step fs)"
    "f \<notin> set (ramp_files r) \<Longrightarrow> contents (write_ramp r idx v off hi step fs) f = contents fs f"
  using assms by (simp_all add: write_ramp_def Let_def led_writes ramp_texts_def ramp_files_def)

lemma ramp_files_distinct: "distinct (ramp_files red_ramp @ ramp_files green_ramp @ ramp_files blue_ramp)"
  "RGB_BLINK_FILE \<notin> set (ramp_files red_ramp @ ramp_files green_ramp @ ramp_files blue_ramp)"
  by (simp_all add: ramp_files_def red_ramp_def green_ramp_def blue_ramp_def)

lemma ramp_files_apart:
  "f \<in> set (ramp_files red_ramp) \<Longrightarrow> f \<notin> set (ramp_files green_ramp) \<and> f \<notin> set (ramp_files blue_ramp) \<and> f \<noteq> RGB_BLINK_FILE"
  "f \<in> set (ramp_files green_ramp) \<Longrightarrow> f \<notin> set (ramp_files blue_ramp) \<and> f \<noteq> RGB_BLINK_FILE"
  "f \<in> set (ramp_files blue_ramp) \<Longrightarrow> f \<noteq> RGB_BLINK_FILE"
  using ramp_files_distinct by auto

lemma ramp_texts_keep: "(\<And>f. f \<in> set (ramp_files r) \<Longrightarrow> contents fs' f = contents fs f) \<Longrightarrow> ramp_texts fs' r = ramp_texts fs r"
  by (simp add: ramp_texts_def ramp_files_def)

lemma timing_cases:
  "on < 800 \<Longrightarrow> max 0 (on - 800) = 0 \<and> min 50 (on div 16) = on div 16"
  "\<not> on < (800 :: int) \<Longrightarrow> max 0 (on - 800) = on - 800 \<and> min 50 (on div 16) = 50"
  by (auto simp: min_def max_def)

lemma line_one: "line 1 = ''1'' @ [CHR 0x0A]"
  by code_simp

lemma blue_of_drop: "blue_of (drop_bit 16 c) = red_of c" "blue_of (drop_bit 8 c) = green_of c"
  by (simp_all add: blue_of_def red_of_def green_of_def uint_drop)

lemma speaker_light_shows:
  assumes "writable fs"
  shows "shown (snd (set_speaker_light_locked True s fs)) = meaning s \<and> writable (snd (set_speaker_light_locked True s fs))"
proof (cases "flashMode s = LIGHT_FLASH_TIMED \<and> 0 < sint (flashOnMS s) \<and> 0 < sint (flashOffMS s)")
  case True
  let ?on = "sint (flashOnMS s)" and ?off = "sint (flashOffMS s)"
  let ?hi = "max 0 (?on - 800)" and ?step = "min 50 (?on div 16)" and ?c = "color s"
  define fs0 where "fs0 = fs\<lparr>contents := (contents fs)(RGB_BLINK_FILE := line 0)\<rparr>"
  define fs1 where "fs1 = write_ramp red_ramp 0 (red_of ?c) ?off ?hi ?step fs0"
  define fs2 where "fs2 = write_ramp green_ramp 8 (green_of ?c) ?off ?hi ?step fs1"
  define fs3 where "fs3 = write_ramp blue_ramp 16 (blue_of ?c) ?off ?hi ?step fs2"
  define fs4 where "fs4 = fs3\<lparr>contents := (contents fs3)(RGB_BLINK_FILE := line 1)\<rparr>"
  have d: "distinct (ramp_files red_ramp)" "distinct (ramp_files green_ramp)" "distinct (ramp_files blue_ramp)"
    using ramp_files_distinct(1) by simp_all
  have w0: "writable fs0" using assms by (simp add: fs0_def write_ok)
  have r1: "ramp_texts fs1 red_ramp = ramp_of 0 (red_of ?c) ?on ?off" "writable fs1"
    unfolding fs1_def ramp_of_def by (rule write_ramp_ok [OF w0 d(1)])+
  have r2: "ramp_texts fs2 green_ramp = ramp_of 8 (green_of ?c) ?on ?off" "writable fs2"
    "\<And>f. f \<notin> set (ramp_files green_ramp) \<Longrightarrow> contents fs2 f = contents fs1 f"
    unfolding fs2_def ramp_of_def by (rule write_ramp_ok [OF r1(2) d(2)]; assumption?)+
  have r3: "ramp_texts fs3 blue_ramp = ramp_of 16 (blue_of ?c) ?on ?off" "writable fs3"
    "\<And>f. f \<notin> set (ramp_files blue_ramp) \<Longrightarrow> contents fs3 f = contents fs2 f"
    unfolding fs3_def ramp_of_def by (rule write_ramp_ok [OF r2(2) d(3)]; assumption?)+
  have run: "snd (set_speaker_light_locked True s fs) = fs4"
    using True assms r3(2) timing_cases [of ?on]
    by (cases "?on < 800") (simp_all add: set_speaker_light_locked_def Let_def colour_parts blue_of_drop led_writes
      fs0_def fs1_def fs2_def fs3_def fs4_def)
  have "ramp_texts fs4 red_ramp = ramp_texts fs1 red_ramp" "ramp_texts fs4 green_ramp = ramp_texts fs2 green_ramp"
    "ramp_texts fs4 blue_ramp = ramp_texts fs3 blue_ramp"
    by (rule ramp_texts_keep, drule ramp_files_apart, simp add: fs4_def r3(3) r2(3))+
  then have "shown fs4 = meaning s" using True r1(1) r2(1) r3(1)
    by (simp add: shown_def meaning_def Let_def fs4_def line_one)
  moreover have "writable fs4" using r3(2) by (simp add: fs4_def write_ok)
  ultimately show ?thesis by (simp add: run)
next
  case False
  then have steady: "\<not> (0 < fst (case flashMode s of LIGHT_FLASH_TIMED \<Rightarrow> (sint (flashOnMS s), sint (flashOffMS s)) | _ \<Rightarrow> (0, 0)) \<and>
      0 < snd (case flashMode s of LIGHT_FLASH_TIMED \<Rightarrow> (sint (flashOnMS s), sint (flashOffMS s)) | _ \<Rightarrow> (0, 0)))"
    by (auto split: flash_mode.split)
  have zero: "line 0 \<noteq> ''1'' @ [CHR 0x0A]" by code_simp
  show ?thesis using assms False steady zero
    by (auto simp: set_speaker_light_locked_def Let_def colour_parts blue_of_drop led_writes shown_def meaning_def split: flash_mode.splits)
qed

section \<open>Sequences of calls\<close>

definition new_lights :: "led_fs \<Rightarrow> lights" where
  "new_lights fs = \<lparr>g_attention = zero_light, g_notification = zero_light, g_battery = zero_light, leds = fs\<rparr>"

text \<open>The calls of the framework on opened devices, in the order of the mutex.\<close>

definition set_lights :: "(light_dev \<times> light_state_t) list \<Rightarrow> lights \<Rightarrow> lights" where
  "set_lights calls st = fold (\<lambda>(d, s) st. snd (set_light d True s st)) calls st"

definition latest :: "light_dev \<Rightarrow> (light_dev \<times> light_state_t) list \<Rightarrow> light_state_t" where
  "latest d calls = last (zero_light # map snd (filter (\<lambda>c. fst c = d) calls))"

definition shares_rgb :: "light_dev \<Rightarrow> bool" where
  "shares_rgb d \<longleftrightarrow> d = Battery \<or> d = Notifications \<or> d = Attention"

text \<open>The state with the highest priority among the lit ones; the battery's when none is lit.\<close>

definition foremost_light :: "(light_dev \<times> light_state_t) list \<Rightarrow> light_state_t" where
  "foremost_light calls =
     (if is_lit (latest Attention calls) then latest Attention calls
      else if is_lit (apply_brightness (latest Notifications calls)) then apply_brightness (latest Notifications calls)
      else latest Battery calls)"

lemma latest_snoc: "latest d (calls @ [(d', s)]) = (if d' = d then s else latest d calls)"
  by (simp add: latest_def)

lemma handle_simps:
  "g_attention (handle_speaker_light_locked b st) = g_attention st" "g_battery (handle_speaker_light_locked b st) = g_battery st"
  "g_notification (handle_speaker_light_locked b st) = g_notification st"
  by (simp_all add: handle_speaker_light_locked_def Let_def)

lemma handle_shows:
  assumes "writable (leds st)"
  shows "shown (leds (handle_speaker_light_locked True st)) =
      meaning (if is_lit (g_attention st) then g_attention st else if is_lit (g_notification st) then g_notification st else g_battery st)"
    "writable (leds (handle_speaker_light_locked True st))"
  using speaker_light_shows [OF assms] by (simp_all add: handle_speaker_light_locked_def Let_def)

definition lights_inv :: "(light_dev \<times> light_state_t) list \<Rightarrow> lights \<Rightarrow> bool" where
  "lights_inv calls st \<longleftrightarrow> g_attention st = latest Attention calls \<and> g_battery st = latest Battery calls \<and>
     g_notification st = apply_brightness (latest Notifications calls) \<and> writable (leds st) \<and>
     ((\<exists>d s. (d, s) \<in> set calls \<and> shares_rgb d) \<longrightarrow> shown (leds st) = meaning (foremost_light calls))"

lemma other_file:
  assumes "f = LCD_FILE \<or> f = BUTTONS_FILE"
  shows "shown (fs\<lparr>contents := (contents fs)(f := t)\<rparr>) = shown fs"
  using assms by (auto simp: shown_def ramp_texts_def red_ramp_def green_ramp_def blue_ramp_def)

lemma lights_inv_step: "lights_inv calls st \<Longrightarrow> lights_inv (calls @ [(d, s)]) (snd (set_light d True s st))"
  using handle_shows [of "st\<lparr>g_battery := s\<rparr>"] handle_shows [of "st\<lparr>g_attention := s\<rparr>"]
    handle_shows [of "st\<lparr>g_notification := apply_brightness s\<rparr>"]
  by (cases d) (auto simp: lights_inv_def latest_snoc foremost_light_def shares_rgb_def handle_simps other_file
      set_light_backlight_def set_light_buttons_def set_light_battery_def set_light_notifications_def set_light_attention_def
      write_int_def write_ok)

lemma lights_inv_run: "writable fs \<Longrightarrow> lights_inv calls (set_lights calls (new_lights fs))"
proof (induction calls rule: rev_induct)
  case Nil
  then show ?case
    by (simp add: lights_inv_def set_lights_def new_lights_def latest_def apply_brightness_def zero_light_def)
next
  case (snoc c calls)
  then show ?case using lights_inv_step [of calls _ "fst c" "snd c"] by (simp add: set_lights_def case_prod_unfold)
qed

text \<open>C32: after any sequence of calls with at least one for the battery, the notifications or the attention signal, with
  writable files, the RGB light shows the last attention state if it is lit, else the last notification, dimmed to
  the user's level, if that is lit, else the last battery state: as a steady colour, or as three ramps whose timing and duty
  cycles are those of the state. The files of an earlier blinking state never show through.\<close>

theorem rgb_light_shows_foremost:
  assumes "writable fs" "(d, s) \<in> set calls" "shares_rgb d"
  shows "shown (leds (set_lights calls (new_lights fs))) = meaning (foremost_light calls)"
  using lights_inv_run [OF assms(1), of calls] assms(2,3) unfolding lights_inv_def by blast

abbreviation (input) ex_leds :: led_fs where
  "ex_leds \<equiv> \<lparr>contents = \<lambda>_. [], io_errno = \<lambda>_. None\<rparr>"

text \<open>A green battery light and a blinking red notification at half level: the notification shows.\<close>

theorem rgb_light_shows_foremost_witness:
  "shown (leds (set_lights
     [(Notifications, \<lparr>color = 0x80FF0000, flashMode = LIGHT_FLASH_TIMED, flashOnMS = 1000, flashOffMS = 2000\<rparr>),
      (Battery, \<lparr>color = 0xFF00FF00, flashMode = LIGHT_FLASH_NONE, flashOnMS = 0, flashOffMS = 0\<rparr>)] (new_lights ex_leds))) =
   Blinking [ramp_of 0 128 1000 2000, ramp_of 8 0 1000 2000, ramp_of 16 0 1000 2000]"
proof -
  let ?n = "\<lparr>color = 0x80FF0000, flashMode = LIGHT_FLASH_TIMED, flashOnMS = 1000, flashOffMS = 2000\<rparr> :: light_state_t"
  let ?b = "\<lparr>color = 0xFF00FF00, flashMode = LIGHT_FLASH_NONE, flashOnMS = 0, flashOffMS = 0\<rparr> :: light_state_t"
  have f: "foremost_light [(Notifications, ?n), (Battery, ?b)] = ?n\<lparr>color := 0x800000\<rparr>" by code_simp
  have m: "meaning (?n\<lparr>color := 0x800000\<rparr>) = Blinking [ramp_of 0 128 1000 2000, ramp_of 8 0 1000 2000, ramp_of 16 0 1000 2000]"
    by code_simp
  show ?thesis
    using rgb_light_shows_foremost [of ex_leds Battery ?b "[(Notifications, ?n), (Battery, ?b)]"] unfolding f m
    by (simp add: writable_def shares_rgb_def)
qed

text \<open>A notification with a level from 1 to 254 is shown with every colour component v replaced by the whole part of v * level / 255,
  so that no component grows, 32-bit arithmetic does not overflow and components do not run into each other; without a level,
  or with the full one, the colour is unchanged.\<close>

lemma notification_dimming_exact:
  "red_of (color (apply_brightness n)) = dimmed (level_of (color n)) (red_of (color n)) \<and>
   green_of (color (apply_brightness n)) = dimmed (level_of (color n)) (green_of (color n)) \<and>
   blue_of (color (apply_brightness n)) = dimmed (level_of (color n)) (blue_of (color n)) \<and>
   dimmed (level_of (color n)) (red_of (color n)) \<le> red_of (color n) \<and>
   dimmed (level_of (color n)) (green_of (color n)) \<le> green_of (color n) \<and>
   dimmed (level_of (color n)) (blue_of (color n)) \<le> blue_of (color n)"
proof -
  have "dimmed l v \<le> v" if "0 \<le> v" for l v
  proof (cases "0 < l \<and> l < 255")
    case True
    then have "v * l div 255 \<le> v * 255 div 255" using that by (intro zdiv_mono1 mult_left_mono) simp_all
    with True show ?thesis by (simp add: dimmed_def)
  next
    case False
    then show ?thesis by (auto simp: dimmed_def)
  qed
  with applied_colour [of n] show ?thesis by (simp add: colour_bounds)
qed

text \<open>A notification that is lit but dim is shown as unlit, so that the battery's light shows.\<close>

lemma dim_notification_lost:
  "is_lit \<lparr>color = 0x10080808, flashMode = LIGHT_FLASH_NONE, flashOnMS = 0, flashOffMS = 0\<rparr> \<and>
   \<not> is_lit (apply_brightness \<lparr>color = 0x10080808, flashMode = LIGHT_FLASH_NONE, flashOnMS = 0, flashOffMS = 0\<rparr>)"
  by code_simp

text \<open>The backlight of a grey is its grey level.\<close>

lemma grey_brightness: "red_of (color s) = v \<Longrightarrow> green_of (color s) = v \<Longrightarrow> blue_of (color s) = v \<Longrightarrow> rgb_to_brightness s = v"
  by (simp add: brightness_value)

end
