(* ===== verification/Hal_Types.thy ===== *)
theory Hal_Types
  imports Gnss_Reports
begin

text \<open>
  The types of the framework's GNSS interface, as far as the HAL uses them, and the conversions of
  android/location_api/LocationUtil.cpp between them and those of LocationAPI.h. The enumerators of a bit field are
  a datatype and a field is the set of them; an enumeration has its enumerators and, where the code handles it, any
  other value.
\<close>

unbundle bit_operations_syntax

section \<open>Locations\<close>

datatype location_flag =
    HAS_LAT_LONG | HAS_ALTITUDE | HAS_SPEED | HAS_BEARING | HAS_HORIZONTAL_ACCURACY | HAS_VERTICAL_ACCURACY
  | HAS_SPEED_ACCURACY | HAS_BEARING_ACCURACY

record 'd GnssLocation =
  gnssLocationFlags :: "location_flag set"
  latitudeDegrees :: 'd
  longitudeDegrees :: 'd
  altitudeMeters :: 'd
  speedMetersPerSec :: 'd
  bearingDegrees :: 'd
  horizontalAccuracyMeters :: 'd
  verticalAccuracyMeters :: 'd
  speedAccuracyMetersPerSecond :: 'd
  bearingAccuracyDegrees :: 'd
  utcTime :: int

text \<open>\<open>flags |= x\<close> under a condition, for sets and for masks.\<close>

definition add_if :: "bool \<Rightarrow> 'a \<Rightarrow> 'a set \<Rightarrow> 'a set" where
  "add_if c x s = (if c then insert x s else s)"

definition or_if :: "bool \<Rightarrow> 'a::len word \<Rightarrow> 'a word \<Rightarrow> 'a word" where
  "or_if c b m = (if c then m OR b else m)"

text \<open>The time is cast from uint64_t to int64_t.\<close>

definition convertGnssLocation :: "'d Location \<Rightarrow> 'd GnssLocation" where
  "convertGnssLocation inp =
     (let has = (\<lambda>b. l_flags inp AND b \<noteq> 0);
          fl = add_if (has 0x01) HAS_LAT_LONG {};
          fl = add_if (has 0x02) HAS_ALTITUDE fl;
          fl = add_if (has 0x04) HAS_SPEED fl;
          fl = add_if (has 0x08) HAS_BEARING fl;
          fl = add_if (has 0x10) HAS_HORIZONTAL_ACCURACY fl;
          fl = add_if (has 0x20) HAS_VERTICAL_ACCURACY fl;
          fl = add_if (has 0x40) HAS_SPEED_ACCURACY fl;
          fl = add_if (has 0x80) HAS_BEARING_ACCURACY fl
      in \<lparr>gnssLocationFlags = fl, latitudeDegrees = l_latitude inp, longitudeDegrees = l_longitude inp,
          altitudeMeters = l_altitude inp, speedMetersPerSec = l_speed inp, bearingDegrees = l_bearing inp,
          horizontalAccuracyMeters = l_accuracy inp, verticalAccuracyMeters = l_verticalAccuracy inp,
          speedAccuracyMetersPerSecond = l_speedAccuracy inp, bearingAccuracyDegrees = l_bearingAccuracy inp,
          utcTime = signed_take_bit 63 (l_timestamp inp)\<rparr>)"

definition convertGnssLocation_of :: "'d GnssLocation \<Rightarrow> 'd Location" where
  "convertGnssLocation_of inp =
     (let has = (\<lambda>x. x \<in> gnssLocationFlags inp);
          fl = or_if (has HAS_LAT_LONG) 0x01 0;
          fl = or_if (has HAS_ALTITUDE) 0x02 fl;
          fl = or_if (has HAS_SPEED) 0x04 fl;
          fl = or_if (has HAS_BEARING) 0x08 fl;
          fl = or_if (has HAS_HORIZONTAL_ACCURACY) 0x10 fl;
          fl = or_if (has HAS_VERTICAL_ACCURACY) 0x20 fl;
          fl = or_if (has HAS_SPEED_ACCURACY) 0x40 fl;
          fl = or_if (has HAS_BEARING_ACCURACY) 0x80 fl
      in \<lparr>l_flags = fl, l_timestamp = take_bit 64 (utcTime inp), l_latitude = latitudeDegrees inp, l_longitude = longitudeDegrees inp,
          l_altitude = altitudeMeters inp, l_speed = speedMetersPerSec inp, l_bearing = bearingDegrees inp,
          l_accuracy = horizontalAccuracyMeters inp, l_verticalAccuracy = verticalAccuracyMeters inp,
          l_speedAccuracy = speedAccuracyMetersPerSecond inp, l_bearingAccuracy = bearingAccuracyDegrees inp, l_techMask = 0\<rparr>)"

section \<open>Enumerations\<close>

datatype GnssConstellationType =
    CONSTELLATION_UNKNOWN | CONSTELLATION_GPS | CONSTELLATION_SBAS | CONSTELLATION_GLONASS | CONSTELLATION_QZSS
  | CONSTELLATION_BEIDOU | CONSTELLATION_GALILEO

fun convertGnssConstellationType :: "GnssSvType \<Rightarrow> GnssConstellationType" where
  "convertGnssConstellationType GNSS_SV_TYPE_GPS = CONSTELLATION_GPS"
| "convertGnssConstellationType GNSS_SV_TYPE_SBAS = CONSTELLATION_SBAS"
| "convertGnssConstellationType GNSS_SV_TYPE_GLONASS = CONSTELLATION_GLONASS"
| "convertGnssConstellationType GNSS_SV_TYPE_QZSS = CONSTELLATION_QZSS"
| "convertGnssConstellationType GNSS_SV_TYPE_BEIDOU = CONSTELLATION_BEIDOU"
| "convertGnssConstellationType GNSS_SV_TYPE_GALILEO = CONSTELLATION_GALILEO"
| "convertGnssConstellationType GNSS_SV_TYPE_UNKNOWN = CONSTELLATION_UNKNOWN"

text \<open>The enumerations of the ephemeris are numbers in LocationAPI.h and in the model of the adapter.\<close>

datatype SatelliteEphemerisType = EPHEMERIS | ALMANAC_ONLY | NOT_AVAILABLE

definition convertGnssEphemerisType :: "u32 \<Rightarrow> SatelliteEphemerisType" where
  "convertGnssEphemerisType t = (if t = 1 then EPHEMERIS else if t = 2 then ALMANAC_ONLY else NOT_AVAILABLE)"

datatype SatelliteEphemerisSource = DEMODULATED | SUPL_PROVIDED | OTHER_SERVER_PROVIDED | OTHER_SOURCE

definition convertGnssEphemerisSource :: "u32 \<Rightarrow> SatelliteEphemerisSource" where
  "convertGnssEphemerisSource s =
     (if s = 1 then DEMODULATED else if s = 2 then SUPL_PROVIDED else if s = 3 then OTHER_SERVER_PROVIDED else OTHER_SOURCE)"

datatype SatelliteEphemerisHealth = HEALTH_GOOD | HEALTH_BAD | HEALTH_UNKNOWN

definition convertGnssEphemerisHealth :: "nat \<Rightarrow> SatelliteEphemerisHealth" where
  "convertGnssEphemerisHealth h = (if h = 1 then HEALTH_GOOD else if h = 2 then HEALTH_BAD else HEALTH_UNKNOWN)"

section \<open>Satellites\<close>

text \<open>A satellite as the adapter reports it, with the frequency its own reports do not look at.\<close>

record 'd HalSv = "'d GnssSv" +
  carrierFrequencyHz :: 'd

datatype sv_flag = HAS_EPHEMERIS_DATA | HAS_ALMANAC_DATA | USED_IN_FIX | HAS_CARRIER_FREQUENCY

record 'd GnssSvInfo =
  si_svid :: "16 word"
  constellation :: GnssConstellationType
  si_cN0Dbhz :: 'd
  elevationDegrees :: 'd
  azimuthDegrees :: 'd
  si_carrierFrequencyHz :: 'd
  svFlag :: "sv_flag set"

text \<open>One round of the loop of convertGnssSvStatus in GnssAPIClient.cpp.\<close>

definition convert_sv :: "'d HalSv \<Rightarrow> 'd GnssSvInfo" where
  "convert_sv sv =
     (let has = (\<lambda>b. gnssSvOptionsMask sv AND b \<noteq> 0);
          fl = add_if (has 1) HAS_EPHEMERIS_DATA {};
          fl = add_if (has 2) HAS_ALMANAC_DATA fl;
          fl = add_if (has 4) USED_IN_FIX fl;
          fl = add_if (has 8) HAS_CARRIER_FREQUENCY fl
      in \<lparr>si_svid = svId sv, constellation = convertGnssConstellationType (sv_type sv), si_cN0Dbhz = cN0Dbhz sv,
          elevationDegrees = elevation sv, azimuthDegrees = azimuth sv, si_carrierFrequencyHz = carrierFrequencyHz sv, svFlag = fl\<rparr>)"

text \<open>The first \<open>numSvs\<close> entries of the status; \<open>svs_count\<close> is the interface's maximum, the rest of the array is zero.\<close>

definition convertGnssSvStatus :: "nat \<Rightarrow> 'd HalSv list \<Rightarrow> 'd GnssSvInfo list" where
  "convertGnssSvStatus svs_count svs =
     (let numSvs = length svs; numSvs = (if svs_count < numSvs then svs_count else numSvs)
      in map convert_sv (take numSvs svs))"

end
