(* ===== verification/Gnss_Hal.thy ===== *)
theory Gnss_Hal
  imports Hal_Types Location_Client Location_API
begin

text \<open>
  The HAL's GNSS object: the client of the location API behind it (android/location_api/GnssAPIClient.cpp), the
  object itself with the configuration that waits for its client (android/Gnss.cpp), the framework's configuration
  calls (android/GnssConfiguration.cpp, AGnss::setServer of android/AGnss.cpp) and its answers to network initiated
  requests (android/GnssNi.cpp). Calls of the framework's callbacks and of the location API are outputs; a
  callback is an address, null is None. The results of calls are in the environment.
\<close>

unbundle bit_operations_syntax

section \<open>Data\<close>

text \<open>A configuration as the HAL passes it: with the address of the host name and whether its size is set.\<close>

record hal_config = GnssConfig +
  host_addr :: ptr
  cfg_valid :: bool

text \<open>
  The zero of memset. It is no enumerator of the version, which is not read unless its flag is set, and is converted
  like 1.0.0.
\<close>

definition zero_config :: hal_config where
  "zero_config =
     \<lparr>flags = 0, gpsLock = GNSS_CONFIG_GPS_LOCK_NONE, suplVersion = GNSS_CONFIG_SUPL_VERSION_1_0_0,
      assistanceType = GNSS_ASSISTANCE_TYPE_SUPL, hostName = None, hostPort = 0,
      lppProfile = GNSS_CONFIG_LPP_PROFILE_RRLP_ON_LTE, lppeControlPlaneMask = 0, lppeUserPlaneMask = 0,
      aGlonassPositionProtocolMask = 0, emergencyPdnForEmergencySupl = False, suplEmergencyServices = False,
      suplModeMask = 0, host_addr = None, cfg_valid = False\<rparr>"

record GnssAidingData =
  deleteAll :: bool
  svMask :: u32
  svTypeMask :: u32
  commonMask :: u32

datatype GnssPositionMode = STANDALONE | MS_BASED | MS_ASSISTED | OTHER_MODE

datatype aiding_flag =
    DELETE_EPHEMERIS | DELETE_ALMANAC | DELETE_POSITION | DELETE_TIME | DELETE_IONO | DELETE_UTC | DELETE_HEALTH
  | DELETE_SVDIR | DELETE_SVSTEER | DELETE_SADATA | DELETE_RTI | DELETE_CELLDB_INFO

datatype aiding_request = DELETE_ALL | DELETE "aiding_flag set"

datatype GnssUserResponseType = RESPONSE_ACCEPT | RESPONSE_DENY | RESPONSE_NORESP | OTHER_RESPONSE

datatype capability = SCHEDULING | GEOFENCING | MEASUREMENTS | MSB | MSA

datatype GnssStatusValue = ENGINE_ON | SESSION_BEGIN | SESSION_END | ENGINE_OFF

datatype GnssNiType =
  GNSS_NI_TYPE_VOICE | GNSS_NI_TYPE_SUPL | GNSS_NI_TYPE_CONTROL_PLANE | GNSS_NI_TYPE_EMERGENCY_SUPL

datatype GnssNiEncodingType =
  GNSS_NI_ENCODING_TYPE_NONE | GNSS_NI_ENCODING_TYPE_GSM_DEFAULT | GNSS_NI_ENCODING_TYPE_UTF8 | GNSS_NI_ENCODING_TYPE_UCS2

record GnssNiNotification =
  ni_type :: GnssNiType
  ni_options :: "16 word"
  ni_timeout :: u32
  ni_timeoutResponse :: GnssNiResponse
  ni_requestor :: string
  ni_requestorEncoding :: GnssNiEncodingType
  ni_message :: string
  ni_messageEncoding :: GnssNiEncodingType

datatype hal_ni_type = VOICE | UMTS_SUPL | UMTS_CTRL_PLANE | EMERGENCY_SUPL

datatype ni_notify_flag = NEED_NOTIFY | NEED_VERIFY | PRIVACY_OVERRIDE

datatype hal_encoding = ENC_NONE | ENC_SUPL_GSM_DEFAULT | ENC_SUPL_UTF8 | ENC_SUPL_UCS2

record HalNiNotification =
  notificationId :: u32
  niType :: hal_ni_type
  notifyFlags :: "ni_notify_flag set"
  timeoutSec :: u32
  defaultResponse :: GnssUserResponseType
  requestorId :: string
  notificationMessage :: string
  requestorIdEncoding :: hal_encoding
  notificationIdEncoding :: hal_encoding

text \<open>What the HAL does to its surroundings.\<close>

datatype 'd hal_out =
    RegisterCallbacks callbacks
  | Client_out "(unit, unit) client_out"
  | Ctrl_out "(hal_config, GnssAidingData) ctrl_out"
  | GnssSetCapabilitiesCb addr "capability set"
  | GnssSetSystemInfoCb addr nat
  | GnssLocationCb addr "'d GnssLocation"
  | NiNotifyCb addr HalNiNotification
  | GnssSvStatusCb addr "'d GnssSvInfo list"
  | FwNmeaCb addr int string
  | GnssStatusCb addr GnssStatusValue
  | LinkToDeath addr
  | UnlinkToDeath addr
  | FreeHost addr
  | InjectLocation 'd 'd 'd
  | InjectTime int int int

text \<open>
  The results of calls: the context's extended AGPS, the objects createInstance gives, the session of a call that
  opens one, whether the ids of a configuration came back, the allocation of a client, the address of strdup's
  copy, the GNSS interface and its maximum of satellites.
\<close>

record hal_env =
  agps_extended :: bool
  api_created :: bool
  control_created :: bool
  new_session :: u32
  update_ids :: bool
  client_allocated :: bool
  strdup_addr :: ptr
  getter_found :: bool
  svs_count :: nat

record hal_client =
  clientBase :: Client
  mControlClient :: "hal_config CtrlClient"
  mGnssCbIface :: ptr
  mGnssNiCbIface :: ptr
  mLocationCapabilitiesMask :: u32
  mLocationCapabilitiesCached :: bool
  mLocationOptions :: LocationOptions

section \<open>The client\<close>

definition no_callbacks :: callbacks where
  "no_callbacks =
     \<lparr>capabilitiesCb = False, responseCb = False, collectiveResponseCb = False, trackingCb = False, batchingCb = False,
      geofenceBreachCb = False, geofenceStatusCb = False, gnssLocationInfoCb = False, gnssNiCb = False, gnssSvCb = False,
      gnssNmeaCb = False, gnssMeasurementsCb = False, batchingStatusCb = False\<rparr>"

text \<open>locAPISetCallbacks adds the three callbacks of the base class before it passes the record on.\<close>

definition base_callbacks :: "callbacks \<Rightarrow> callbacks" where
  "base_callbacks cb = cb\<lparr>capabilitiesCb := True, responseCb := True, collectiveResponseCb := True\<rparr>"

definition gnssUpdateCallbacks :: "hal_env \<Rightarrow> ptr \<Rightarrow> ptr \<Rightarrow> hal_client \<Rightarrow> 'd hal_out list \<times> hal_client" where
  "gnssUpdateCallbacks env gpsCb niCb h =
     (let h = h\<lparr>mGnssCbIface := gpsCb, mGnssNiCbIface := niCb\<rparr>;
          cb = no_callbacks\<lparr>trackingCb := (mGnssCbIface h \<noteq> None),
            gnssNiCb := (mGnssNiCbIface h \<noteq> None \<and> \<not> agps_extended env),
            gnssSvCb := (mGnssCbIface h \<noteq> None), gnssNmeaCb := (mGnssCbIface h \<noteq> None)\<rparr>;
          (outs, b) = locAPISetCallbacks None None (api_created env) (clientBase h)
      in (RegisterCallbacks (base_callbacks cb) # map Client_out outs, h\<lparr>clientBase := b\<rparr>))"

definition new_client :: "hal_env \<Rightarrow> hal_client" where
  "new_client env =
     \<lparr>clientBase = client_new, mControlClient = ctrl_new zero_config (control_created env), mGnssCbIface = None,
      mGnssNiCbIface = None, mLocationCapabilitiesMask = 0, mLocationCapabilitiesCached = False,
      mLocationOptions = \<lparr>minInterval = 1000, minDistance = 0, suplMode = GNSS_SUPL_MODE_STANDALONE\<rparr>\<rparr>"

definition new_GnssAPIClient :: "hal_env \<Rightarrow> ptr \<Rightarrow> ptr \<Rightarrow> 'd hal_out list \<times> hal_client" where
  "new_GnssAPIClient env gpsCb niCb = gnssUpdateCallbacks env gpsCb niCb (new_client env)"

definition gnssStart :: "hal_env \<Rightarrow> hal_client \<Rightarrow> bool \<times> 'd hal_out list \<times> hal_client" where
  "gnssStart env h =
     (let (err, outs, b) = locAPIStartTracking (mLocationOptions h) (new_session env) (clientBase h)
      in (True, map Client_out outs, h\<lparr>clientBase := b\<rparr>))"

definition gnssStop :: "hal_client \<Rightarrow> bool \<times> 'd hal_out list \<times> hal_client" where
  "gnssStop h = (let (outs, b) = locAPIStopTracking (clientBase h) in (True, map Client_out outs, h\<lparr>clientBase := b\<rparr>))"

text \<open>\<open>single\<close>: the recurrence is RECURRENCE_SINGLE. The preferred time is not used.\<close>

definition position_options :: "GnssPositionMode \<Rightarrow> bool \<Rightarrow> u32 \<Rightarrow> u32 \<Rightarrow> LocationOptions" where
  "position_options mode single minIntervalMs preferredAccuracyMeters =
     \<lparr>minInterval = (if single then 0xFFFFFFFF else minIntervalMs), minDistance = preferredAccuracyMeters,
      suplMode = (case mode of MS_BASED \<Rightarrow> GNSS_SUPL_MODE_MSB | MS_ASSISTED \<Rightarrow> GNSS_SUPL_MODE_MSA | _ \<Rightarrow> GNSS_SUPL_MODE_STANDALONE)\<rparr>"

definition gnssSetPositionMode ::
  "GnssPositionMode \<Rightarrow> bool \<Rightarrow> u32 \<Rightarrow> u32 \<Rightarrow> hal_client \<Rightarrow> bool \<times> 'd hal_out list \<times> hal_client" where
  "gnssSetPositionMode mode single minIntervalMs preferredAccuracyMeters h =
     (let retVal = (mode \<noteq> OTHER_MODE);
          h = h\<lparr>mLocationOptions := position_options mode single minIntervalMs preferredAccuracyMeters\<rparr>;
          (outs, b) = locAPIUpdateTrackingOptions (mLocationOptions h) (clientBase h)
      in (retVal, map Client_out outs, h\<lparr>clientBase := b\<rparr>))"

definition gnssNiRespond :: "u32 \<Rightarrow> GnssUserResponseType \<Rightarrow> hal_client \<Rightarrow> 'd hal_out list \<times> hal_client" where
  "gnssNiRespond notifId userResponse h =
     (let reply = (\<lambda>d. let (outs, b) = locAPIGnssNiResponse notifId d (clientBase h)
                        in (map Client_out outs, h\<lparr>clientBase := b\<rparr>))
      in case userResponse of
           RESPONSE_ACCEPT \<Rightarrow> reply GNSS_NI_RESPONSE_ACCEPT
         | RESPONSE_DENY \<Rightarrow> reply GNSS_NI_RESPONSE_DENY
         | RESPONSE_NORESP \<Rightarrow> reply GNSS_NI_RESPONSE_NO_RESPONSE
         | OTHER_RESPONSE \<Rightarrow> ([], h))"

text \<open>The types of satellites are GPS, GLONASS, QZSS, BEIDOU and GALILEO, the bits 0 to 4.\<close>

definition aiding_data :: "aiding_request \<Rightarrow> GnssAidingData" where
  "aiding_data request =
     (let d = \<lparr>deleteAll = False, svMask = 0, svTypeMask = 1 OR 2 OR 4 OR 8 OR 16, commonMask = 0\<rparr>
      in case request of
           DELETE_ALL \<Rightarrow> d\<lparr>deleteAll := True\<rparr>
         | DELETE fl \<Rightarrow>
             let has = (\<lambda>x. x \<in> fl);
                 sv = or_if (has DELETE_EPHEMERIS) 0x1 0;
                 sv = or_if (has DELETE_ALMANAC) 0x2 sv;
                 co = or_if (has DELETE_POSITION) 0x1 0;
                 co = or_if (has DELETE_TIME) 0x2 co;
                 sv = or_if (has DELETE_IONO) 0x200 sv;
                 co = or_if (has DELETE_UTC) 0x4 co;
                 sv = or_if (has DELETE_HEALTH) 0x4 sv;
                 sv = or_if (has DELETE_SVDIR) 0x8 sv;
                 sv = or_if (has DELETE_SVSTEER) 0x10 sv;
                 sv = or_if (has DELETE_SADATA) 0x80 sv;
                 co = or_if (has DELETE_RTI) 0x8 co;
                 co = or_if (has DELETE_CELLDB_INFO) 0x20 co
             in d\<lparr>svMask := sv, commonMask := co\<rparr>)"

definition gnssDeleteAidingData :: "hal_env \<Rightarrow> aiding_request \<Rightarrow> hal_client \<Rightarrow> 'd hal_out list \<times> hal_client" where
  "gnssDeleteAidingData env request h =
     (let (err, outs, c) = locAPIGnssDeleteAidingData (aiding_data request) (new_session env) (mControlClient h)
      in (map Ctrl_out outs, h\<lparr>mControlClient := c\<rparr>))"

text \<open>LOCATION_TECHNOLOGY_TYPE_GNSS is 0.\<close>

definition gnssEnable :: "hal_env \<Rightarrow> hal_client \<Rightarrow> 'd hal_out list \<times> hal_client" where
  "gnssEnable env h =
     (let (err, outs, c) = locAPIEnable 0 (new_session env) (mControlClient h) in (map Ctrl_out outs, h\<lparr>mControlClient := c\<rparr>))"

definition gnssDisable :: "hal_client \<Rightarrow> 'd hal_out list \<times> hal_client" where
  "gnssDisable h = (let (outs, c) = locAPIDisable (mControlClient h) in (map Ctrl_out outs, h\<lparr>mControlClient := c\<rparr>))"

definition gnssConfigurationUpdate :: "hal_env \<Rightarrow> hal_config \<Rightarrow> hal_client \<Rightarrow> 'd hal_out list \<times> hal_client" where
  "gnssConfigurationUpdate env config h =
     (let (err, outs, c) = locAPIGnssUpdateConfig config (update_ids env) (mControlClient h)
      in (map Ctrl_out outs, h\<lparr>mControlClient := c\<rparr>))"

section \<open>Callbacks of the client\<close>

definition to_framework :: "(addr \<Rightarrow> 'd hal_out list) \<Rightarrow> hal_client \<Rightarrow> 'd hal_out list" where
  "to_framework f h = (case mGnssCbIface h of None \<Rightarrow> [] | Some cb \<Rightarrow> f cb)"

definition hal_capabilities :: "u32 \<Rightarrow> capability set" where
  "hal_capabilities m =
     (let has = (\<lambda>b. m AND b \<noteq> 0);
          data = add_if (has 0x1 \<or> has 0x2 \<or> has 0x4 \<or> has 0x8) SCHEDULING {};
          data = add_if (has 0x10) GEOFENCING data;
          data = add_if (has 0x20) MEASUREMENTS data;
          data = add_if (has 0x40) MSB data;
          data = add_if (has 0x80) MSA data
      in data)"

definition year_of_hw :: "u32 \<Rightarrow> nat" where
  "year_of_hw m = (if m AND 0x100 \<noteq> 0 then 2017 else if m AND 0x20 \<noteq> 0 then 2016 else 2015)"

definition onCapabilitiesCb :: "u32 \<Rightarrow> hal_client \<Rightarrow> 'd hal_out list \<times> hal_client" where
  "onCapabilitiesCb capabilitiesMask h =
     (let h = h\<lparr>mLocationCapabilitiesMask := capabilitiesMask, mLocationCapabilitiesCached := True\<rparr>
      in (to_framework (\<lambda>cb. [GnssSetCapabilitiesCb cb (hal_capabilities capabilitiesMask),
                               GnssSetSystemInfoCb cb (year_of_hw capabilitiesMask)]) h, h))"

definition requestCapabilities :: "hal_client \<Rightarrow> 'd hal_out list \<times> hal_client" where
  "requestCapabilities h =
     (if mLocationCapabilitiesCached h then onCapabilitiesCb (mLocationCapabilitiesMask h) h else ([], h))"

definition onTrackingCb :: "'d Location \<Rightarrow> hal_client \<Rightarrow> 'd hal_out list" where
  "onTrackingCb location h = to_framework (\<lambda>cb. [GnssLocationCb cb (convertGnssLocation location)]) h"

fun hal_ni_type_of :: "GnssNiType \<Rightarrow> hal_ni_type" where
  "hal_ni_type_of GNSS_NI_TYPE_VOICE = VOICE"
| "hal_ni_type_of GNSS_NI_TYPE_SUPL = UMTS_SUPL"
| "hal_ni_type_of GNSS_NI_TYPE_CONTROL_PLANE = UMTS_CTRL_PLANE"
| "hal_ni_type_of GNSS_NI_TYPE_EMERGENCY_SUPL = EMERGENCY_SUPL"

fun hal_response_of :: "GnssNiResponse \<Rightarrow> GnssUserResponseType" where
  "hal_response_of GNSS_NI_RESPONSE_ACCEPT = RESPONSE_ACCEPT"
| "hal_response_of GNSS_NI_RESPONSE_DENY = RESPONSE_DENY"
| "hal_response_of GNSS_NI_RESPONSE_NO_RESPONSE = RESPONSE_NORESP"
| "hal_response_of GNSS_NI_RESPONSE_IGNORE = RESPONSE_NORESP"

fun hal_encoding_of :: "GnssNiEncodingType \<Rightarrow> hal_encoding" where
  "hal_encoding_of GNSS_NI_ENCODING_TYPE_NONE = ENC_NONE"
| "hal_encoding_of GNSS_NI_ENCODING_TYPE_GSM_DEFAULT = ENC_SUPL_GSM_DEFAULT"
| "hal_encoding_of GNSS_NI_ENCODING_TYPE_UTF8 = ENC_SUPL_UTF8"
| "hal_encoding_of GNSS_NI_ENCODING_TYPE_UCS2 = ENC_SUPL_UCS2"

definition hal_ni_notification :: "u32 \<Rightarrow> GnssNiNotification \<Rightarrow> HalNiNotification" where
  "hal_ni_notification i n =
     (let has = (\<lambda>b. ni_options n AND b \<noteq> 0);
          fl = add_if (has 1) NEED_NOTIFY {};
          fl = add_if (has 2) NEED_VERIFY fl;
          fl = add_if (has 4) PRIVACY_OVERRIDE fl
      in \<lparr>notificationId = i, niType = hal_ni_type_of (ni_type n), notifyFlags = fl, timeoutSec = ni_timeout n,
          defaultResponse = hal_response_of (ni_timeoutResponse n), requestorId = ni_requestor n, notificationMessage = ni_message n,
          requestorIdEncoding = hal_encoding_of (ni_requestorEncoding n),
          notificationIdEncoding = hal_encoding_of (ni_messageEncoding n)\<rparr>)"

definition onGnssNiCb :: "u32 \<Rightarrow> GnssNiNotification \<Rightarrow> hal_client \<Rightarrow> 'd hal_out list" where
  "onGnssNiCb i n h =
     (case mGnssNiCbIface h of None \<Rightarrow> [] | Some cb \<Rightarrow> [NiNotifyCb cb (hal_ni_notification i n)])"

definition onGnssSvCb :: "hal_env \<Rightarrow> 'd HalSv list \<Rightarrow> hal_client \<Rightarrow> 'd hal_out list" where
  "onGnssSvCb env svs h = to_framework (\<lambda>cb. [GnssSvStatusCb cb (convertGnssSvStatus (svs_count env) svs)]) h"

text \<open>The first \<open>len\<close> characters of the sentence.\<close>

definition onGnssNmeaCb :: "int \<Rightarrow> string \<Rightarrow> nat \<Rightarrow> hal_client \<Rightarrow> 'd hal_out list" where
  "onGnssNmeaCb time nmea len h = to_framework (\<lambda>cb. [FwNmeaCb cb (signed_take_bit 63 time) (take len nmea)]) h"

definition onStartTrackingCb :: "LocationError \<Rightarrow> hal_client \<Rightarrow> 'd hal_out list" where
  "onStartTrackingCb err h =
     (if err = LOCATION_ERROR_SUCCESS
      then to_framework (\<lambda>cb. [GnssStatusCb cb ENGINE_ON, GnssStatusCb cb SESSION_BEGIN]) h else [])"

definition onStopTrackingCb :: "LocationError \<Rightarrow> hal_client \<Rightarrow> 'd hal_out list" where
  "onStopTrackingCb err h =
     (if err = LOCATION_ERROR_SUCCESS
      then to_framework (\<lambda>cb. [GnssStatusCb cb SESSION_END, GnssStatusCb cb ENGINE_OFF]) h else [])"

text \<open>What the base class calls: its virtual callbacks, of which the client overrides two, and the location API.\<close>

fun hal_virtual :: "hal_client \<Rightarrow> (unit, unit) client_out \<Rightarrow> 'd hal_out list" where
  "hal_virtual h (Cb_onStartTracking err) = onStartTrackingCb err h"
| "hal_virtual h (Cb_onStopTracking err) = onStopTrackingCb err h"
| "hal_virtual h out = [Client_out out]"

definition hal_responseCb :: "LocationError \<Rightarrow> u32 \<Rightarrow> hal_client \<Rightarrow> 'd hal_out list \<times> hal_client" where
  "hal_responseCb err i h =
     (let (outs, b) = onResponseCb err i (clientBase h) in (concat (map (hal_virtual h) outs), h\<lparr>clientBase := b\<rparr>))"

section \<open>The HAL object\<close>

record gnss_hal =
  mApi :: "hal_client option"
  fw_cb :: ptr
  fw_ni :: ptr
  mPendingConfig :: hal_config
  mGnssInterface :: bool
  getGnssInterfaceFailed :: bool

definition new_Gnss :: gnss_hal where
  "new_Gnss =
     \<lparr>mApi = None, fw_cb = None, fw_ni = None, mPendingConfig = zero_config, mGnssInterface = False, getGnssInterfaceFailed = False\<rparr>"

definition free_host :: "ptr \<Rightarrow> 'd hal_out list" where
  "free_host p = (case p of None \<Rightarrow> [] | Some a \<Rightarrow> [FreeHost a])"

text \<open>The freed host name stays in the pending configuration, which is invalid then.\<close>

definition getApi :: "hal_env \<Rightarrow> gnss_hal \<Rightarrow> 'd hal_out list \<times> gnss_hal" where
  "getApi env g =
     (if mApi g = None \<and> (fw_cb g \<noteq> None \<or> fw_ni g \<noteq> None)
      then if \<not> client_allocated env then ([], g)
           else let (o1, h) = new_GnssAPIClient env (fw_cb g) (fw_ni g)
                in if cfg_valid (mPendingConfig g)
                   then let (o2, h) = gnssConfigurationUpdate env (mPendingConfig g) h;
                            p = (mPendingConfig g)\<lparr>cfg_valid := False\<rparr>
                        in (o1 @ o2 @ free_host (host_addr p), g\<lparr>mApi := Some h, mPendingConfig := p\<rparr>)
                   else (o1, g\<lparr>mApi := Some h\<rparr>)
      else ([], g))"

text \<open>A call of the client, when there is one; else \<open>r0\<close> is returned.\<close>

definition with_api ::
  "hal_env \<Rightarrow> 'r \<Rightarrow> (hal_client \<Rightarrow> 'r \<times> 'd hal_out list \<times> hal_client) \<Rightarrow> gnss_hal \<Rightarrow> 'r \<times> 'd hal_out list \<times> gnss_hal" where
  "with_api env r0 f g =
     (let (o1, g) = getApi env g
      in case mApi g of
           None \<Rightarrow> (r0, o1, g)
         | Some h \<Rightarrow> let (r, o2, h) = f h in (r, o1 @ o2, g\<lparr>mApi := Some h\<rparr>))"

definition hal_setCallback :: "hal_env \<Rightarrow> ptr \<Rightarrow> gnss_hal \<Rightarrow> bool \<times> 'd hal_out list \<times> gnss_hal" where
  "hal_setCallback env callback g =
     (let o1 = (case fw_cb g of None \<Rightarrow> [] | Some a \<Rightarrow> [UnlinkToDeath a]);
          g = g\<lparr>fw_cb := callback\<rparr>;
          o2 = (case fw_cb g of None \<Rightarrow> [] | Some a \<Rightarrow> [LinkToDeath a]);
          (r, o3, g) = with_api env True (\<lambda>h.
            let (p1, h) = gnssUpdateCallbacks env (fw_cb g) (fw_ni g) h;
                (p2, h) = gnssEnable env h;
                (p3, h) = requestCapabilities h
            in (True, p1 @ p2 @ p3, h)) g
      in (r, o1 @ o2 @ o3, g))"

definition hal_setGnssNiCb :: "hal_env \<Rightarrow> ptr \<Rightarrow> gnss_hal \<Rightarrow> bool \<times> 'd hal_out list \<times> gnss_hal" where
  "hal_setGnssNiCb env callback g =
     (let g = g\<lparr>fw_ni := callback\<rparr>
      in with_api env True (\<lambda>h. (True, gnssUpdateCallbacks env (fw_cb g) (fw_ni g) h)) g)"

text \<open>The host name is replaced only where there was one.\<close>

definition pending_server :: "ptr \<Rightarrow> hal_config \<Rightarrow> hal_config \<Rightarrow> 'd hal_out list \<times> hal_config" where
  "pending_server copy c p =
     (let p = p\<lparr>flags := flags p OR 0x4, assistanceType := assistanceType c\<rparr>;
          (o1, p) = (if host_addr p \<noteq> None
                     then (free_host (host_addr p), p\<lparr>host_addr := copy, hostName := (if copy = None then None else hostName c)\<rparr>)
                     else ([], p))
      in (o1, p\<lparr>hostPort := hostPort c\<rparr>))"

definition pending_config :: "ptr \<Rightarrow> hal_config \<Rightarrow> hal_config \<Rightarrow> 'd hal_out list \<times> hal_config" where
  "pending_config copy c p =
     (let has = (\<lambda>b. flags c AND b \<noteq> 0);
          p = p\<lparr>cfg_valid := True\<rparr>;
          p = copy_if (has 0x1) (\<lambda>p. p\<lparr>flags := flags p OR 0x1, gpsLock := gpsLock c\<rparr>) p;
          p = copy_if (has 0x2) (\<lambda>p. p\<lparr>flags := flags p OR 0x2, suplVersion := suplVersion c\<rparr>) p;
          (o1, p) = (if has 0x4 then pending_server copy c p else ([], p));
          p = copy_if (has 0x8) (\<lambda>p. p\<lparr>flags := flags p OR 0x8, lppProfile := lppProfile c\<rparr>) p;
          p = copy_if (has 0x10) (\<lambda>p. p\<lparr>flags := flags p OR 0x10, lppeControlPlaneMask := lppeControlPlaneMask c\<rparr>) p;
          p = copy_if (has 0x20) (\<lambda>p. p\<lparr>flags := flags p OR 0x20, lppeUserPlaneMask := lppeUserPlaneMask c\<rparr>) p;
          p = copy_if (has 0x40) (\<lambda>p. p\<lparr>flags := flags p OR 0x40, aGlonassPositionProtocolMask := aGlonassPositionProtocolMask c\<rparr>) p;
          p = copy_if (has 0x80) (\<lambda>p. p\<lparr>flags := flags p OR 0x80, emergencyPdnForEmergencySupl := emergencyPdnForEmergencySupl c\<rparr>) p;
          p = copy_if (has 0x100) (\<lambda>p. p\<lparr>flags := flags p OR 0x100, suplEmergencyServices := suplEmergencyServices c\<rparr>) p;
          p = copy_if (has 0x200) (\<lambda>p. p\<lparr>flags := flags p OR 0x200, suplModeMask := suplModeMask c\<rparr>) p
      in (o1, p))"

definition updateConfiguration :: "hal_env \<Rightarrow> hal_config \<Rightarrow> gnss_hal \<Rightarrow> bool \<times> 'd hal_out list \<times> gnss_hal" where
  "updateConfiguration env c g =
     (let (o1, g) = getApi env g
      in case mApi g of
           Some h \<Rightarrow> let (o2, h) = gnssConfigurationUpdate env c h in (True, o1 @ o2, g\<lparr>mApi := Some h\<rparr>)
         | None \<Rightarrow>
             if flags c \<noteq> 0
             then let (o2, p) = pending_config (strdup_addr env) c (mPendingConfig g) in (True, o1 @ o2, g\<lparr>mPendingConfig := p\<rparr>)
             else (True, o1, g))"

definition gnss_start :: "hal_env \<Rightarrow> gnss_hal \<Rightarrow> bool \<times> 'd hal_out list \<times> gnss_hal" where
  "gnss_start env = with_api env False (gnssStart env)"

definition gnss_stop :: "hal_env \<Rightarrow> gnss_hal \<Rightarrow> bool \<times> 'd hal_out list \<times> gnss_hal" where
  "gnss_stop env = with_api env False gnssStop"

definition gnss_cleanup :: "gnss_hal \<Rightarrow> 'd hal_out list \<times> gnss_hal" where
  "gnss_cleanup g =
     (case mApi g of None \<Rightarrow> ([], g) | Some h \<Rightarrow> let (o1, h) = gnssDisable h in (o1, g\<lparr>mApi := Some h\<rparr>))"

text \<open>The framework's process died.\<close>

definition serviceDied :: "hal_env \<Rightarrow> gnss_hal \<Rightarrow> 'd hal_out list \<times> gnss_hal" where
  "serviceDied env g = (let (r, o1, g) = gnss_stop env g; (o2, g) = gnss_cleanup g in (o1 @ o2, g))"

definition getGnssInterface :: "hal_env \<Rightarrow> gnss_hal \<Rightarrow> bool \<times> gnss_hal" where
  "getGnssInterface env g =
     (let g = (if \<not> mGnssInterface g \<and> \<not> getGnssInterfaceFailed g
               then if \<not> getter_found env then g\<lparr>getGnssInterfaceFailed := True\<rparr> else g\<lparr>mGnssInterface := True\<rparr>
               else g)
      in (mGnssInterface g, g))"

definition gnss_injectLocation :: "hal_env \<Rightarrow> 'd \<Rightarrow> 'd \<Rightarrow> 'd \<Rightarrow> gnss_hal \<Rightarrow> bool \<times> 'd hal_out list \<times> gnss_hal" where
  "gnss_injectLocation env lat lon acc g =
     (let (found, g) = getGnssInterface env g in if found then (True, [InjectLocation lat lon acc], g) else (False, [], g))"

definition gnss_injectTime :: "hal_env \<Rightarrow> int \<Rightarrow> int \<Rightarrow> int \<Rightarrow> gnss_hal \<Rightarrow> bool \<times> 'd hal_out list \<times> gnss_hal" where
  "gnss_injectTime env timeMs timeReferenceMs uncertaintyMs g =
     (let (found, g) = getGnssInterface env g
      in if found then (True, [InjectTime timeMs timeReferenceMs uncertaintyMs], g) else (False, [], g))"

definition gnss_deleteAidingData :: "hal_env \<Rightarrow> aiding_request \<Rightarrow> gnss_hal \<Rightarrow> unit \<times> 'd hal_out list \<times> gnss_hal" where
  "gnss_deleteAidingData env request = with_api env () (\<lambda>h. ((), gnssDeleteAidingData env request h))"

definition gnss_setPositionMode ::
  "hal_env \<Rightarrow> GnssPositionMode \<Rightarrow> bool \<Rightarrow> u32 \<Rightarrow> u32 \<Rightarrow> gnss_hal \<Rightarrow> bool \<times> 'd hal_out list \<times> gnss_hal" where
  "gnss_setPositionMode env mode single minIntervalMs preferredAccuracyMeters =
     with_api env False (gnssSetPositionMode mode single minIntervalMs preferredAccuracyMeters)"

section \<open>Configuration\<close>

text \<open>The calls of IGnssConfiguration; the numbers are those of the interface.\<close>

datatype setting =
    SetSuplEs bool
  | SetSuplVersion u32
  | SetSuplMode "8 word"
  | SetLppProfile "8 word"
  | SetGlonassPositioningProtocol "8 word"
  | SetFwGpsLock "8 word"
  | SetEmergencySuplPdn bool

definition setSuplEs :: "bool \<Rightarrow> hal_config option" where
  "setSuplEs enabled = Some (zero_config\<lparr>cfg_valid := True, flags := 0x100, suplEmergencyServices := enabled\<rparr>)"

definition setSuplVersion :: "u32 \<Rightarrow> hal_config option" where
  "setSuplVersion version =
     (let config = zero_config\<lparr>cfg_valid := True, flags := 0x2\<rparr>
      in if version = 0x00020002 then Some (config\<lparr>suplVersion := GNSS_CONFIG_SUPL_VERSION_2_0_2\<rparr>)
         else if version = 0x00020000 then Some (config\<lparr>suplVersion := GNSS_CONFIG_SUPL_VERSION_2_0_0\<rparr>)
         else if version = 0x00010000 then Some (config\<lparr>suplVersion := GNSS_CONFIG_SUPL_VERSION_1_0_0\<rparr>)
         else None)"

definition setSuplMode :: "8 word \<Rightarrow> hal_config option" where
  "setSuplMode mode =
     (let config = zero_config\<lparr>cfg_valid := True, flags := 0x200\<rparr>
      in if mode = 0 then Some (config\<lparr>suplModeMask := 0\<rparr>)
         else if mode = 1 then Some (config\<lparr>suplModeMask := 1\<rparr>)
         else if mode = 2 then Some (config\<lparr>suplModeMask := 2\<rparr>)
         else if mode = 3 then Some (config\<lparr>suplModeMask := 1 OR 2\<rparr>)
         else None)"

definition setLppProfile :: "8 word \<Rightarrow> hal_config option" where
  "setLppProfile profile =
     (let config = zero_config\<lparr>cfg_valid := True, flags := 0x8\<rparr>
      in if profile = 0 then Some (config\<lparr>lppProfile := GNSS_CONFIG_LPP_PROFILE_RRLP_ON_LTE\<rparr>)
         else if profile = 1 then Some (config\<lparr>lppProfile := GNSS_CONFIG_LPP_PROFILE_USER_PLANE\<rparr>)
         else if profile = 2 then Some (config\<lparr>lppProfile := GNSS_CONFIG_LPP_PROFILE_CONTROL_PLANE\<rparr>)
         else if profile = 3 then Some (config\<lparr>lppProfile := GNSS_CONFIG_LPP_PROFILE_USER_PLANE_AND_CONTROL_PLANE\<rparr>)
         else None)"

definition setGlonassPositioningProtocol :: "8 word \<Rightarrow> hal_config option" where
  "setGlonassPositioningProtocol protocol =
     (let has = (\<lambda>b. protocol AND b \<noteq> 0);
          m = or_if (has 1) 1 0; m = or_if (has 2) 2 m; m = or_if (has 4) 4 m; m = or_if (has 8) 8 m
      in Some (zero_config\<lparr>cfg_valid := True, flags := 0x40, aGlonassPositionProtocolMask := m\<rparr>))"

definition setGpsLock :: "8 word \<Rightarrow> hal_config option" where
  "setGpsLock lock =
     (let config = zero_config\<lparr>cfg_valid := True, flags := 0x1\<rparr>
      in if lock = 0 then Some (config\<lparr>gpsLock := GNSS_CONFIG_GPS_LOCK_NONE\<rparr>)
         else if lock = 1 then Some (config\<lparr>gpsLock := GNSS_CONFIG_GPS_LOCK_MO\<rparr>)
         else if lock = 2 then Some (config\<lparr>gpsLock := GNSS_CONFIG_GPS_LOCK_NI\<rparr>)
         else if lock = 3 then Some (config\<lparr>gpsLock := GNSS_CONFIG_GPS_LOCK_MO_AND_NI\<rparr>)
         else None)"

definition setEmergencySuplPdn :: "bool \<Rightarrow> hal_config option" where
  "setEmergencySuplPdn enabled = Some (zero_config\<lparr>cfg_valid := True, flags := 0x80, emergencyPdnForEmergencySupl := enabled\<rparr>)"

fun config_of :: "setting \<Rightarrow> hal_config option" where
  "config_of (SetSuplEs enabled) = setSuplEs enabled"
| "config_of (SetSuplVersion version) = setSuplVersion version"
| "config_of (SetSuplMode mode) = setSuplMode mode"
| "config_of (SetLppProfile profile) = setLppProfile profile"
| "config_of (SetGlonassPositioningProtocol protocol) = setGlonassPositioningProtocol protocol"
| "config_of (SetFwGpsLock lock) = setGpsLock lock"
| "config_of (SetEmergencySuplPdn enabled) = setEmergencySuplPdn enabled"

text \<open>\<open>g\<close> is None where the object has lost its HAL object; an invalid value is refused.\<close>

definition apply_config :: "hal_env \<Rightarrow> hal_config option \<Rightarrow> gnss_hal option \<Rightarrow> bool \<times> 'd hal_out list \<times> gnss_hal option" where
  "apply_config env config g =
     (case g of
        None \<Rightarrow> (False, [], None)
      | Some gnss \<Rightarrow>
          (case config of
             None \<Rightarrow> (False, [], Some gnss)
           | Some c \<Rightarrow> let (r, outs, gnss) = updateConfiguration env c gnss in (r, outs, Some gnss)))"

definition GnssConfiguration_set :: "hal_env \<Rightarrow> setting \<Rightarrow> gnss_hal option \<Rightarrow> bool \<times> 'd hal_out list \<times> gnss_hal option" where
  "GnssConfiguration_set env s = apply_config env (config_of s)"

text \<open>AGnss::setServer: the type is None for any other value.\<close>

definition setServer ::
  "hal_env \<Rightarrow> GnssAssistanceType option \<Rightarrow> string \<Rightarrow> u32 \<Rightarrow> gnss_hal option \<Rightarrow> bool \<times> 'd hal_out list \<times> gnss_hal option" where
  "setServer env type host port =
     apply_config env
       (case type of
          None \<Rightarrow> None
        | Some t \<Rightarrow> Some (zero_config\<lparr>cfg_valid := True, flags := 0x4, assistanceType := t, host_addr := strdup_addr env,
            hostName := (if strdup_addr env = None then None else Some host), hostPort := port\<rparr>))"

section \<open>Network initiated requests\<close>

record gnss_ni =
  ni_gnss :: "gnss_hal option"
  ni_cb :: ptr

definition ni_setCallback :: "hal_env \<Rightarrow> ptr \<Rightarrow> gnss_ni \<Rightarrow> 'd hal_out list \<times> gnss_ni" where
  "ni_setCallback env callback n =
     (case ni_gnss n of
        None \<Rightarrow> ([], n)
      | Some g \<Rightarrow>
          let (r, o1, g) = hal_setGnssNiCb env callback g;
              o2 = (case ni_cb n of None \<Rightarrow> [] | Some a \<Rightarrow> [UnlinkToDeath a]);
              o3 = (case callback of None \<Rightarrow> [] | Some a \<Rightarrow> [LinkToDeath a])
          in (o1 @ o2 @ o3, n\<lparr>ni_gnss := Some g, ni_cb := callback\<rparr>))"

definition ni_respond :: "hal_env \<Rightarrow> u32 \<Rightarrow> GnssUserResponseType \<Rightarrow> gnss_ni \<Rightarrow> 'd hal_out list \<times> gnss_ni" where
  "ni_respond env notifId userResponse n =
     (case ni_gnss n of
        None \<Rightarrow> ([], n)
      | Some g \<Rightarrow>
          let (r, o1, g) = with_api env () (\<lambda>h. ((), gnssNiRespond notifId userResponse h)) g
          in (o1, n\<lparr>ni_gnss := Some g\<rparr>))"

section \<open>Destruction\<close>

text \<open>The client's destructor deletes its control client, then the base class destroys the instance of the API.\<close>

definition delete_GnssAPIClient :: "hal_client \<Rightarrow> 'd hal_out list" where
  "delete_GnssAPIClient h = map Ctrl_out (fst (ctrl_destroy (mControlClient h))) @ map Client_out (fst (client_destroy (clientBase h)))"

definition delete_Gnss :: "gnss_hal \<Rightarrow> 'd hal_out list \<times> gnss_hal" where
  "delete_Gnss g = (case mApi g of None \<Rightarrow> ([], g) | Some h \<Rightarrow> (delete_GnssAPIClient h, g\<lparr>mApi := None\<rparr>))"

end
