(* ===== verification/Hal_Clients.thy ===== *)
theory Hal_Clients
  imports Gnss_Hal
begin

text \<open>
  The other clients of the location API in the HAL: geofences (android/location_api/GeofenceAPIClient.cpp under
  android/GnssGeofencing.cpp), batching (BatchingAPIClient.cpp under GnssBatching.cpp) and measurements
  (MeasurementAPIClient.cpp under GnssMeasurement.cpp). As in Gnss_Hal, calls of the framework and of the API are
  outputs, and what the API returns are arguments.
\<close>

unbundle bit_operations_syntax

section \<open>Geofences\<close>

datatype geofence_transition = ENTERED | EXITED

datatype geofence_status = OPERATION_SUCCESS | ERROR_ID_EXISTS | ERROR_ID_UNKNOWN | ERROR_GENERIC

record 'd GeofenceInfo =
  gi_latitude :: 'd
  gi_longitude :: 'd
  gi_radius :: 'd

text \<open>A breach carries its location and its time.\<close>

type_synonym 'd geo_call = "('d GeofenceInfo, 'd Location \<times> int) client_out"

datatype 'd geo_out =
    GeoRegister callbacks
  | GeoCall "'d geo_call"
  | GnssGeofenceTransitionCb addr u32 "'d GnssLocation" geofence_transition int
  | GnssGeofenceStatusCb addr bool
  | GnssGeofenceAddCb addr u32 geofence_status
  | GnssGeofenceRemoveCb addr u32 geofence_status
  | GnssGeofencePauseCb addr u32 geofence_status
  | GnssGeofenceResumeCb addr u32 geofence_status
  | GeoLink addr
  | GeoUnlink addr

record geo_client =
  geoBase :: Client
  mGnssGeofencingCbIface :: ptr

definition new_GeofenceAPIClient :: "bool \<Rightarrow> ptr \<Rightarrow> 'd geo_out list \<times> geo_client" where
  "new_GeofenceAPIClient created callback =
     (let cb = no_callbacks\<lparr>geofenceBreachCb := (callback \<noteq> None), geofenceStatusCb := (callback \<noteq> None)\<rparr>;
          (outs, b) = locAPISetCallbacks (if callback = None then None else Some 0) None created client_new
      in (GeoRegister (base_callbacks cb) # map GeoCall outs, \<lparr>geoBase = b, mGnssGeofencingCbIface = callback\<rparr>))"

definition to_geofencing :: "(addr \<Rightarrow> 'd geo_out list) \<Rightarrow> geo_client \<Rightarrow> 'd geo_out list" where
  "to_geofencing f h = (case mGnssGeofencingCbIface h of None \<Rightarrow> [] | Some cb \<Rightarrow> f cb)"

definition add_status :: "LocationError \<Rightarrow> geofence_status" where
  "add_status err =
     (if err = LOCATION_ERROR_SUCCESS then OPERATION_SUCCESS
      else if err = LOCATION_ERROR_ID_EXISTS then ERROR_ID_EXISTS else ERROR_GENERIC)"

definition other_status :: "LocationError \<Rightarrow> geofence_status" where
  "other_status err =
     (if err = LOCATION_ERROR_SUCCESS then OPERATION_SUCCESS
      else if err = LOCATION_ERROR_ID_UNKNOWN then ERROR_ID_UNKNOWN else ERROR_GENERIC)"

definition onAddGeofencesCb :: "LocationError list \<Rightarrow> u32 list \<Rightarrow> geo_client \<Rightarrow> 'd geo_out list" where
  "onAddGeofencesCb errors ids = to_geofencing (\<lambda>cb. map2 (\<lambda>e i. GnssGeofenceAddCb cb i (add_status e)) errors ids)"

definition onRemoveGeofencesCb :: "LocationError list \<Rightarrow> u32 list \<Rightarrow> geo_client \<Rightarrow> 'd geo_out list" where
  "onRemoveGeofencesCb errors ids = to_geofencing (\<lambda>cb. map2 (\<lambda>e i. GnssGeofenceRemoveCb cb i (other_status e)) errors ids)"

definition onPauseGeofencesCb :: "LocationError list \<Rightarrow> u32 list \<Rightarrow> geo_client \<Rightarrow> 'd geo_out list" where
  "onPauseGeofencesCb errors ids = to_geofencing (\<lambda>cb. map2 (\<lambda>e i. GnssGeofencePauseCb cb i (other_status e)) errors ids)"

definition onResumeGeofencesCb :: "LocationError list \<Rightarrow> u32 list \<Rightarrow> geo_client \<Rightarrow> 'd geo_out list" where
  "onResumeGeofencesCb errors ids = to_geofencing (\<lambda>cb. map2 (\<lambda>e i. GnssGeofenceResumeCb cb i (other_status e)) errors ids)"

definition transition_of :: "GeofenceBreachType \<Rightarrow> geofence_transition option" where
  "transition_of type =
     (if type = GEOFENCE_BREACH_ENTER then Some ENTERED else if type = GEOFENCE_BREACH_EXIT then Some EXITED else None)"

definition onGeofenceBreachCb :: "u32 list \<Rightarrow> GeofenceBreachType \<Rightarrow> 'd Location \<Rightarrow> int \<Rightarrow> geo_client \<Rightarrow> 'd geo_out list" where
  "onGeofenceBreachCb ids type location time =
     to_geofencing (\<lambda>cb. concat (map (\<lambda>i. case transition_of type of None \<Rightarrow> []
       | Some t \<Rightarrow> [GnssGeofenceTransitionCb cb i (convertGnssLocation location) t (signed_take_bit 63 time)]) ids))"

text \<open>The location that comes with the availability is zero.\<close>

definition onGeofenceStatusCb :: "bool \<Rightarrow> geo_client \<Rightarrow> 'd geo_out list" where
  "onGeofenceStatusCb available = to_geofencing (\<lambda>cb. [GnssGeofenceStatusCb cb available])"

text \<open>What the base class calls: its callbacks, of which the client overrides four, the breach callback, the API.\<close>

fun geo_virtual :: "geo_client \<Rightarrow> 'd geo_call \<Rightarrow> 'd geo_out list" where
  "geo_virtual h (Cb_onAddGeofences errors ids) = onAddGeofencesCb errors ids h"
| "geo_virtual h (Cb_onRemoveGeofences errors ids) = onRemoveGeofencesCb errors ids h"
| "geo_virtual h (Cb_onPauseGeofences errors ids) = onPauseGeofencesCb errors ids h"
| "geo_virtual h (Cb_onResumeGeofences errors ids) = onResumeGeofencesCb errors ids h"
| "geo_virtual h (Cb_geofenceBreach cb ids type at) = onGeofenceBreachCb ids type (fst at) (snd at) h"
| "geo_virtual h out = [GeoCall out]"

definition geo_outs :: "geo_client \<Rightarrow> 'd geo_call list \<Rightarrow> 'd geo_out list" where
  "geo_outs h outs = concat (map (geo_virtual h) outs)"

definition breach_mask :: "geofence_transition set \<Rightarrow> GeofenceBreachTypeMask" where
  "breach_mask monitor =
     (let m = or_if (ENTERED \<in> monitor) GEOFENCE_BREACH_ENTER_BIT 0 in or_if (EXITED \<in> monitor) GEOFENCE_BREACH_EXIT_BIT m)"

text \<open>\<open>ret\<close>: the sessions that addGeofences returned. The last transition and the timer are not used.\<close>

definition geofenceAdd ::
  "u32 \<Rightarrow> 'd GeofenceInfo \<Rightarrow> geofence_transition set \<Rightarrow> u32 \<Rightarrow> u32 list option \<Rightarrow> geo_client \<Rightarrow> 'd geo_out list \<times> geo_client" where
  "geofenceAdd i info monitor responsiveness_ms ret h =
     (let options = \<lparr>breachTypeMask = breach_mask monitor, responsiveness = responsiveness_ms, dwellTime = 0\<rparr>;
          (err, outs, b) = locAPIAddGeofences [i] [options] [info] ret (geoBase h);
          h = h\<lparr>geoBase := b\<rparr>
      in (geo_outs h outs @ (if err \<noteq> LOCATION_ERROR_SUCCESS then onAddGeofencesCb [err] [i] h else []), h))"

definition geofencePause :: "u32 \<Rightarrow> bool \<Rightarrow> geo_client \<Rightarrow> 'd geo_out list \<times> geo_client" where
  "geofencePause i alloc h = (let (outs, b) = locAPIPauseGeofences [i] alloc (geoBase h) in (geo_outs h outs, h\<lparr>geoBase := b\<rparr>))"

definition geofenceResume :: "u32 \<Rightarrow> geofence_transition set \<Rightarrow> bool \<Rightarrow> geo_client \<Rightarrow> 'd geo_out list \<times> geo_client" where
  "geofenceResume i monitor alloc h =
     (let (outs, b) = locAPIResumeGeofences [i] (Some [breach_mask monitor]) alloc (geoBase h) in (geo_outs h outs, h\<lparr>geoBase := b\<rparr>))"

definition geofenceRemove :: "u32 \<Rightarrow> bool \<Rightarrow> geo_client \<Rightarrow> 'd geo_out list \<times> geo_client" where
  "geofenceRemove i alloc h = (let (outs, b) = locAPIRemoveGeofences [i] alloc (geoBase h) in (geo_outs h outs, h\<lparr>geoBase := b\<rparr>))"

text \<open>Left to be done in the code.\<close>

definition geofenceRemoveAll :: "geo_client \<Rightarrow> 'd geo_out list \<times> geo_client" where
  "geofenceRemoveAll h = ([], h)"

text \<open>The calls of the location API.\<close>

definition geo_collectiveResponseCb :: "LocationError list \<Rightarrow> u32 list \<Rightarrow> geo_client \<Rightarrow> 'd geo_out list \<times> geo_client" where
  "geo_collectiveResponseCb errors ids h =
     (let (outs, b) = onCollectiveResponseCb errors ids (geoBase h) in (geo_outs h outs, h\<lparr>geoBase := b\<rparr>))"

definition geo_breachCb ::
  "u32 list \<Rightarrow> GeofenceBreachType \<Rightarrow> 'd Location \<Rightarrow> int \<Rightarrow> bool \<Rightarrow> geo_client \<Rightarrow> 'd geo_out list" where
  "geo_breachCb sessions type location time alloc h =
     geo_outs h (beforeGeofenceBreachCb sessions type (location, time) alloc (geoBase h))"

text \<open>GnssGeofencing: the client is made for the first callback and stays.\<close>

record geofencing =
  gf_api :: "geo_client option"
  gf_cb :: ptr

definition gf_setCallback :: "bool \<Rightarrow> bool \<Rightarrow> ptr \<Rightarrow> geofencing \<Rightarrow> 'd geo_out list \<times> geofencing" where
  "gf_setCallback created allocated callback g =
     (if gf_api g \<noteq> None then ([], g)
      else let (o1, api) = (if allocated then (let (outs, h) = new_GeofenceAPIClient created callback in (outs, Some h)) else ([], None));
               o2 = (case gf_cb g of None \<Rightarrow> [] | Some a \<Rightarrow> [GeoUnlink a]);
               o3 = (case callback of None \<Rightarrow> [] | Some a \<Rightarrow> [GeoLink a])
           in (o1 @ o2 @ o3, g\<lparr>gf_api := api, gf_cb := callback\<rparr>))"

definition gf_call :: "(geo_client \<Rightarrow> 'd geo_out list \<times> geo_client) \<Rightarrow> geofencing \<Rightarrow> 'd geo_out list \<times> geofencing" where
  "gf_call f g = (case gf_api g of None \<Rightarrow> ([], g) | Some h \<Rightarrow> let (outs, h) = f h in (outs, g\<lparr>gf_api := Some h\<rparr>))"

definition addGeofence ::
  "u32 \<Rightarrow> 'd GeofenceInfo \<Rightarrow> geofence_transition set \<Rightarrow> u32 \<Rightarrow> u32 list option \<Rightarrow> geofencing \<Rightarrow> 'd geo_out list \<times> geofencing" where
  "addGeofence i info monitor responsiveness_ms ret = gf_call (geofenceAdd i info monitor responsiveness_ms ret)"

definition pauseGeofence :: "u32 \<Rightarrow> bool \<Rightarrow> geofencing \<Rightarrow> 'd geo_out list \<times> geofencing" where
  "pauseGeofence i alloc = gf_call (geofencePause i alloc)"

definition resumeGeofence :: "u32 \<Rightarrow> geofence_transition set \<Rightarrow> bool \<Rightarrow> geofencing \<Rightarrow> 'd geo_out list \<times> geofencing" where
  "resumeGeofence i monitor alloc = gf_call (geofenceResume i monitor alloc)"

definition removeGeofence :: "u32 \<Rightarrow> bool \<Rightarrow> geofencing \<Rightarrow> 'd geo_out list \<times> geofencing" where
  "removeGeofence i alloc = gf_call (geofenceRemove i alloc)"

text \<open>Also when the framework's process died.\<close>

definition removeAllGeofences :: "geofencing \<Rightarrow> 'd geo_out list \<times> geofencing" where
  "removeAllGeofences = gf_call geofenceRemoveAll"

definition delete_geofencing :: "geofencing \<Rightarrow> 'd geo_out list \<times> geofencing" where
  "delete_geofencing g =
     (case gf_api g of None \<Rightarrow> ([], g) | Some h \<Rightarrow> (geo_outs h (fst (client_destroy (geoBase h))), g\<lparr>gf_api := None\<rparr>))"

section \<open>Batching\<close>

datatype 'd batch_out =
    BatchRegister callbacks
  | BatchCall "(unit, unit) client_out"
  | GnssLocationBatchCb addr "'d GnssLocation list"
  | BatchLink addr
  | BatchUnlink addr

text \<open>\<open>on_full\<close>: the flags are WAKEUP_ON_FIFO_FULL and nothing else.\<close>

record batch_options =
  periodNanos :: int
  on_full :: bool

record batch_client =
  batchBase :: Client
  mGnssBatchingCbIface :: ptr
  mDefaultId :: u32
  batchCapabilities :: u32

definition new_BatchingAPIClient :: "bool \<Rightarrow> ptr \<Rightarrow> 'd batch_out list \<times> batch_client" where
  "new_BatchingAPIClient created callback =
     (let (outs, b) = locAPISetCallbacks None None created client_new
      in (BatchRegister (base_callbacks (no_callbacks\<lparr>batchingCb := (callback \<noteq> None)\<rparr>)) # map BatchCall outs,
          \<lparr>batchBase = b, mGnssBatchingCbIface = callback, mDefaultId = 0xFFFFFFFF, batchCapabilities = 0\<rparr>))"

text \<open>The division truncates towards zero.\<close>

definition convertBatchOption :: "batch_options \<Rightarrow> u32 \<Rightarrow> LocationOptions" where
  "convertBatchOption opts m =
     (let n = periodNanos opts;
          mode = GNSS_SUPL_MODE_STANDALONE;
          mode = (if m AND 0x80 \<noteq> 0 then GNSS_SUPL_MODE_MSA else mode);
          mode = (if m AND 0x40 \<noteq> 0 then GNSS_SUPL_MODE_MSB else mode)
      in \<lparr>minInterval = word_of_int (if n < 0 then - (- n div 1000000) else n div 1000000), minDistance = 0, suplMode = mode\<rparr>)"

definition batch_mode :: "batch_options \<Rightarrow> u32" where
  "batch_mode opts = (if on_full opts then SESSION_MODE_ON_FULL else 0)"

definition batch_startSession :: "batch_options \<Rightarrow> u32 \<Rightarrow> batch_client \<Rightarrow> int \<times> 'd batch_out list \<times> batch_client" where
  "batch_startSession opts ret h =
     (let (err, outs, b) = locAPIStartSession (mDefaultId h) (batch_mode opts) (convertBatchOption opts (batchCapabilities h)) ret (batchBase h)
      in (if err = LOCATION_ERROR_SUCCESS then 1 else -1, map BatchCall outs, h\<lparr>batchBase := b\<rparr>))"

definition batch_updateSessionOptions :: "batch_options \<Rightarrow> u32 \<Rightarrow> batch_client \<Rightarrow> int \<times> 'd batch_out list \<times> batch_client" where
  "batch_updateSessionOptions opts ret h =
     (let (err, outs, b) =
        locAPIUpdateSessionOptions (mDefaultId h) (batch_mode opts) (convertBatchOption opts (batchCapabilities h)) ret (batchBase h)
      in (if err = LOCATION_ERROR_SUCCESS then 1 else -1, map BatchCall outs, h\<lparr>batchBase := b\<rparr>))"

definition batch_stopSession :: "batch_client \<Rightarrow> int \<times> 'd batch_out list \<times> batch_client" where
  "batch_stopSession h =
     (let (err, outs, b) = locAPIStopSession (mDefaultId h) (batchBase h)
      in (if err = LOCATION_ERROR_SUCCESS then 1 else -1, map BatchCall outs, h\<lparr>batchBase := b\<rparr>))"

definition getBatchedLocation :: "int \<Rightarrow> batch_client \<Rightarrow> 'd batch_out list \<times> batch_client" where
  "getBatchedLocation last_n_locations h =
     (let (err, outs, b) = locAPIGetBatchedLocations (mDefaultId h) (nat (take_bit 64 last_n_locations)) (batchBase h)
      in (map BatchCall outs, h\<lparr>batchBase := b\<rparr>))"

text \<open>SIZE_MAX of 64 bits.\<close>

definition flushBatchedLocations :: "batch_client \<Rightarrow> 'd batch_out list \<times> batch_client" where
  "flushBatchedLocations h =
     (let (err, outs, b) = locAPIGetBatchedLocations (mDefaultId h) (2 ^ 64 - 1) (batchBase h)
      in (map BatchCall outs, h\<lparr>batchBase := b\<rparr>))"

definition batch_onCapabilitiesCb :: "u32 \<Rightarrow> batch_client \<Rightarrow> batch_client" where
  "batch_onCapabilitiesCb m h = h\<lparr>batchCapabilities := m\<rparr>"

definition onBatchingCb :: "'d Location list \<Rightarrow> batch_client \<Rightarrow> 'd batch_out list" where
  "onBatchingCb locations h =
     (case mGnssBatchingCbIface h of
        None \<Rightarrow> []
      | Some cb \<Rightarrow> if 0 < length locations then [GnssLocationBatchCb cb (map convertGnssLocation locations)] else [])"

text \<open>GnssBatching.\<close>

record batching =
  ba_api :: "batch_client option"
  ba_cb :: ptr

definition ba_init :: "bool \<Rightarrow> bool \<Rightarrow> ptr \<Rightarrow> batching \<Rightarrow> bool \<times> 'd batch_out list \<times> batching" where
  "ba_init created allocated callback g =
     (let o1 = (case ba_api g of None \<Rightarrow> [] | Some h \<Rightarrow> map BatchCall (fst (client_destroy (batchBase h))))
      in if \<not> allocated then (False, o1, g\<lparr>ba_api := None\<rparr>)
         else let (o2, h) = new_BatchingAPIClient created callback;
                  o3 = (case ba_cb g of None \<Rightarrow> [] | Some a \<Rightarrow> [BatchUnlink a]);
                  o4 = (case callback of None \<Rightarrow> [] | Some a \<Rightarrow> [BatchLink a])
              in (True, o1 @ o2 @ o3 @ o4, g\<lparr>ba_api := Some h, ba_cb := callback\<rparr>))"

text \<open>The batch size of the client is an int, the result 16 bits wide; \<open>conf\<close> is what the configuration file says.\<close>

definition ba_getBatchSize :: "int option \<Rightarrow> batching \<Rightarrow> 16 word \<times> batching" where
  "ba_getBatchSize conf g =
     (case ba_api g of
        None \<Rightarrow> (0, g)
      | Some h \<Rightarrow> let (n, b) = locAPIGetBatchSize conf (batchBase h) in (word_of_int n, g\<lparr>ba_api := Some (h\<lparr>batchBase := b\<rparr>)\<rparr>))"

text \<open>The int that the client returns is converted to bool.\<close>

definition ba_start :: "batch_options \<Rightarrow> u32 \<Rightarrow> batching \<Rightarrow> bool \<times> 'd batch_out list \<times> batching" where
  "ba_start opts ret g =
     (case ba_api g of
        None \<Rightarrow> (False, [], g)
      | Some h \<Rightarrow> let (r, outs, h) = batch_startSession opts ret h in (r \<noteq> 0, outs, g\<lparr>ba_api := Some h\<rparr>))"

definition ba_flush :: "batching \<Rightarrow> 'd batch_out list \<times> batching" where
  "ba_flush g =
     (case ba_api g of None \<Rightarrow> ([], g) | Some h \<Rightarrow> let (outs, h) = flushBatchedLocations h in (outs, g\<lparr>ba_api := Some h\<rparr>))"

definition ba_stop :: "batching \<Rightarrow> bool \<times> 'd batch_out list \<times> batching" where
  "ba_stop g =
     (case ba_api g of
        None \<Rightarrow> (False, [], g)
      | Some h \<Rightarrow> let (r, outs, h) = batch_stopSession h in (r \<noteq> 0, outs, g\<lparr>ba_api := Some h\<rparr>))"

definition ba_cleanup :: "batching \<Rightarrow> 'd batch_out list" where
  "ba_cleanup g = (case ba_cb g of None \<Rightarrow> [] | Some a \<Rightarrow> [BatchUnlink a])"

text \<open>The framework's process died.\<close>

definition ba_serviceDied :: "batching \<Rightarrow> 'd batch_out list \<times> batching" where
  "ba_serviceDied g = (let (r, outs, g) = ba_stop g in (outs @ ba_cleanup g, g))"

definition delete_batching :: "batching \<Rightarrow> 'd batch_out list \<times> batching" where
  "delete_batching g =
     (case ba_api g of None \<Rightarrow> ([], g) | Some h \<Rightarrow> (map BatchCall (fst (client_destroy (batchBase h))), g\<lparr>ba_api := None\<rparr>))"

end
