(* ===== verification/Hal_Measurements.thy ===== *)
theory Hal_Measurements
  imports Gnss_Hal
begin

text \<open>
  Measurements and the debug data on their way to the framework: the measurement client
  (android/location_api/MeasurementAPIClient.cpp) under android/GnssMeasurement.cpp, and android/GnssDebug.cpp.
\<close>

unbundle bit_operations_syntax

section \<open>Measurements\<close>

text \<open>The members of GnssMeasurementsData that the adapter does not look at, and the clock.\<close>

record 'd FullMeasurement = "'d Measurement" +
  me_svId :: "16 word"
  me_timeOffsetNs :: 'd
  me_stateMask :: u32
  me_receivedSvTimeNs :: int
  me_receivedSvTimeUncertaintyNs :: int
  me_carrierToNoiseDbHz :: 'd
  me_pseudorangeRateMps :: 'd
  me_pseudorangeRateUncertaintyMps :: 'd
  me_adrStateMask :: "16 word"
  me_adrMeters :: 'd
  me_adrUncertaintyMeters :: 'd
  me_carrierFrequencyHz :: 'd
  me_carrierCycles :: int
  me_carrierPhase :: 'd
  me_carrierPhaseUncertainty :: 'd
  me_multipathIndicator :: u32
  me_signalToNoiseRatioDb :: 'd

record 'd ClockData =
  ck_flags :: u32
  ck_leapSecond :: "16 word"
  ck_timeNs :: int
  ck_timeUncertaintyNs :: 'd
  ck_fullBiasNs :: int
  ck_biasNs :: 'd
  ck_biasUncertaintyNs :: 'd
  ck_driftNsps :: 'd
  ck_driftUncertaintyNsps :: 'd
  ck_hwClockDiscontinuityCount :: u32

text \<open>The framework's types.\<close>

datatype measurement_flag =
    HAS_SNR | MEAS_CARRIER_FREQUENCY | HAS_CARRIER_CYCLES | HAS_CARRIER_PHASE | HAS_CARRIER_PHASE_UNCERTAINTY
  | HAS_AUTOMATIC_GAIN_CONTROL

datatype measurement_state =
    STATE_CODE_LOCK | STATE_BIT_SYNC | STATE_SUBFRAME_SYNC | STATE_TOW_DECODED | STATE_MSEC_AMBIGUOUS | STATE_SYMBOL_SYNC
  | STATE_GLO_STRING_SYNC | STATE_GLO_TOD_DECODED | STATE_BDS_D2_BIT_SYNC | STATE_BDS_D2_SUBFRAME_SYNC
  | STATE_GAL_E1BC_CODE_LOCK | STATE_GAL_E1C_2ND_CODE_LOCK | STATE_GAL_E1B_PAGE_SYNC | STATE_SBAS_SYNC

datatype adr_state = ADR_STATE_VALID | ADR_STATE_RESET | ADR_STATE_CYCLE_SLIP

datatype multipath = INDICATOR_PRESENT | INDICATIOR_NOT_PRESENT

datatype clock_flag =
    HAS_LEAP_SECOND | HAS_TIME_UNCERTAINTY | HAS_FULL_BIAS | HAS_BIAS | HAS_BIAS_UNCERTAINTY | HAS_DRIFT | HAS_DRIFT_UNCERTAINTY

text \<open>The indicator is the set of the enumerators that were or-ed, empty for INDICATOR_UNKNOWN.\<close>

record 'd GnssMeasurement =
  gm_flags :: "measurement_flag set"
  gm_svid :: "16 word"
  gm_constellation :: GnssConstellationType
  gm_timeOffsetNs :: 'd
  gm_state :: "measurement_state set"
  gm_receivedSvTimeInNs :: int
  gm_receivedSvTimeUncertaintyInNs :: int
  gm_cN0DbHz :: 'd
  gm_pseudorangeRateMps :: 'd
  gm_pseudorangeRateUncertaintyMps :: 'd
  gm_accumulatedDeltaRangeState :: "adr_state set"
  gm_accumulatedDeltaRangeM :: 'd
  gm_accumulatedDeltaRangeUncertaintyM :: 'd
  gm_carrierFrequencyHz :: 'd
  gm_carrierCycles :: int
  gm_carrierPhase :: 'd
  gm_carrierPhaseUncertainty :: 'd
  gm_multipathIndicator :: "multipath set"
  gm_snrDb :: 'd
  gm_agcLevelDb :: 'd

record 'd GnssClock =
  gc_flags :: "clock_flag set"
  gc_leapSecond :: "16 word"
  gc_timeNs :: int
  gc_timeUncertaintyNs :: 'd
  gc_fullBiasNs :: int
  gc_biasNs :: 'd
  gc_biasUncertaintyNs :: 'd
  gc_driftNsps :: 'd
  gc_driftUncertaintyNsps :: 'd
  gc_hwClockDiscontinuityCount :: u32

definition measurement_flags :: "u32 \<Rightarrow> measurement_flag set" where
  "measurement_flags m =
     (let has = (\<lambda>b. m AND b \<noteq> 0);
          s = add_if (has 0x10000) HAS_SNR {};
          s = add_if (has 0x800) MEAS_CARRIER_FREQUENCY s;
          s = add_if (has 0x1000) HAS_CARRIER_CYCLES s;
          s = add_if (has 0x2000) HAS_CARRIER_PHASE s;
          s = add_if (has 0x4000) HAS_CARRIER_PHASE_UNCERTAINTY s;
          s = add_if (has 0x20000) HAS_AUTOMATIC_GAIN_CONTROL s
      in s)"

definition measurement_states :: "u32 \<Rightarrow> measurement_state set" where
  "measurement_states m =
     (let has = (\<lambda>b. m AND b \<noteq> 0);
          s = add_if (has 0x1) STATE_CODE_LOCK {};
          s = add_if (has 0x2) STATE_BIT_SYNC s;
          s = add_if (has 0x4) STATE_SUBFRAME_SYNC s;
          s = add_if (has 0x8) STATE_TOW_DECODED s;
          s = add_if (has 0x10) STATE_MSEC_AMBIGUOUS s;
          s = add_if (has 0x20) STATE_SYMBOL_SYNC s;
          s = add_if (has 0x40) STATE_GLO_STRING_SYNC s;
          s = add_if (has 0x80) STATE_GLO_TOD_DECODED s;
          s = add_if (has 0x100) STATE_BDS_D2_BIT_SYNC s;
          s = add_if (has 0x200) STATE_BDS_D2_SUBFRAME_SYNC s;
          s = add_if (has 0x400) STATE_GAL_E1BC_CODE_LOCK s;
          s = add_if (has 0x800) STATE_GAL_E1C_2ND_CODE_LOCK s;
          s = add_if (has 0x1000) STATE_GAL_E1B_PAGE_SYNC s;
          s = add_if (has 0x2000) STATE_SBAS_SYNC s
      in s)"

definition adr_states :: "16 word \<Rightarrow> adr_state set" where
  "adr_states m =
     (let has = (\<lambda>b. m AND b \<noteq> 0);
          s = add_if (has 1) ADR_STATE_VALID {};
          s = add_if (has 2) ADR_STATE_RESET s
      in add_if (has 4) ADR_STATE_CYCLE_SLIP s)"

text \<open>The enumerators PRESENT, 1, and NOT_PRESENT, 2, used as bits.\<close>

definition multipath_of :: "u32 \<Rightarrow> multipath set" where
  "multipath_of m =
     (let s = add_if (m AND 1 \<noteq> 0) INDICATOR_PRESENT {} in add_if (m AND 2 \<noteq> 0) INDICATIOR_NOT_PRESENT s)"

definition convertGnssMeasurement :: "'d FullMeasurement \<Rightarrow> 'd GnssMeasurement" where
  "convertGnssMeasurement m =
     \<lparr>gm_flags = measurement_flags (me_flags m), gm_svid = me_svId m, gm_constellation = convertGnssConstellationType (me_svType m),
      gm_timeOffsetNs = me_timeOffsetNs m, gm_state = measurement_states (me_stateMask m),
      gm_receivedSvTimeInNs = me_receivedSvTimeNs m, gm_receivedSvTimeUncertaintyInNs = me_receivedSvTimeUncertaintyNs m,
      gm_cN0DbHz = me_carrierToNoiseDbHz m, gm_pseudorangeRateMps = me_pseudorangeRateMps m,
      gm_pseudorangeRateUncertaintyMps = me_pseudorangeRateUncertaintyMps m,
      gm_accumulatedDeltaRangeState = adr_states (me_adrStateMask m), gm_accumulatedDeltaRangeM = me_adrMeters m,
      gm_accumulatedDeltaRangeUncertaintyM = me_adrUncertaintyMeters m, gm_carrierFrequencyHz = me_carrierFrequencyHz m,
      gm_carrierCycles = me_carrierCycles m, gm_carrierPhase = me_carrierPhase m,
      gm_carrierPhaseUncertainty = me_carrierPhaseUncertainty m, gm_multipathIndicator = multipath_of (me_multipathIndicator m),
      gm_snrDb = me_signalToNoiseRatioDb m, gm_agcLevelDb = me_agcLevelDb m\<rparr>"

definition convertGnssClock :: "'d ClockData \<Rightarrow> 'd GnssClock" where
  "convertGnssClock c =
     (let has = (\<lambda>b. ck_flags c AND b \<noteq> 0);
          s = add_if (has 0x1) HAS_LEAP_SECOND {};
          s = add_if (has 0x4) HAS_TIME_UNCERTAINTY s;
          s = add_if (has 0x8) HAS_FULL_BIAS s;
          s = add_if (has 0x10) HAS_BIAS s;
          s = add_if (has 0x20) HAS_BIAS_UNCERTAINTY s;
          s = add_if (has 0x40) HAS_DRIFT s;
          s = add_if (has 0x80) HAS_DRIFT_UNCERTAINTY s
      in \<lparr>gc_flags = s, gc_leapSecond = ck_leapSecond c, gc_timeNs = ck_timeNs c, gc_timeUncertaintyNs = ck_timeUncertaintyNs c,
          gc_fullBiasNs = ck_fullBiasNs c, gc_biasNs = ck_biasNs c, gc_biasUncertaintyNs = ck_biasUncertaintyNs c,
          gc_driftNsps = ck_driftNsps c, gc_driftUncertaintyNsps = ck_driftUncertaintyNsps c,
          gc_hwClockDiscontinuityCount = ck_hwClockDiscontinuityCount c\<rparr>)"

text \<open>The first entries of the array, up to the maximum of the interface.\<close>

definition convertGnssData :: "nat \<Rightarrow> 'd FullMeasurement list \<Rightarrow> 'd ClockData \<Rightarrow> 'd GnssMeasurement list \<times> 'd GnssClock" where
  "convertGnssData maximum ms clock =
     (let n = length ms; n = (if maximum < n then maximum else n)
      in (map convertGnssMeasurement (take n ms), convertGnssClock clock))"

section \<open>The measurement client\<close>

datatype 'd meas_out =
    MeasRegister callbacks
  | MeasCall "(unit, unit) client_out"
  | GnssMeasurementCb addr "'d GnssMeasurement list" "'d GnssClock"
  | MeasLink addr
  | MeasUnlink addr

record meas_client =
  measBase :: Client
  mGnssMeasurementCbIface :: ptr
  meas_tracking :: bool

definition new_MeasurementAPIClient :: meas_client where
  "new_MeasurementAPIClient = \<lparr>measBase = client_new, mGnssMeasurementCbIface = None, meas_tracking = False\<rparr>"

definition meas_startTracking :: "bool \<Rightarrow> u32 \<Rightarrow> meas_client \<Rightarrow> 'd meas_out list \<times> meas_client" where
  "meas_startTracking created session h =
     (let cb = no_callbacks\<lparr>gnssMeasurementsCb := (mGnssMeasurementCbIface h \<noteq> None)\<rparr>;
          (o1, b) = locAPISetCallbacks None None created (measBase h);
          h = h\<lparr>meas_tracking := True\<rparr>;
          (err, o2, b) = locAPIStartTracking \<lparr>minInterval = 1000, minDistance = 0, suplMode = GNSS_SUPL_MODE_STANDALONE\<rparr> session b
      in (MeasRegister (base_callbacks cb) # map MeasCall (o1 @ o2), h\<lparr>measBase := b\<rparr>))"

text \<open>The result is always SUCCESS.\<close>

definition measurementSetCallback :: "bool \<Rightarrow> u32 \<Rightarrow> ptr \<Rightarrow> meas_client \<Rightarrow> 'd meas_out list \<times> meas_client" where
  "measurementSetCallback created session callback h = meas_startTracking created session (h\<lparr>mGnssMeasurementCbIface := callback\<rparr>)"

definition measurementClose :: "meas_client \<Rightarrow> 'd meas_out list \<times> meas_client" where
  "measurementClose h =
     (let h = h\<lparr>meas_tracking := False\<rparr>; (outs, b) = locAPIStopTracking (measBase h) in (map MeasCall outs, h\<lparr>measBase := b\<rparr>))"

definition onGnssMeasurementsCb :: "nat \<Rightarrow> 'd FullMeasurement list \<Rightarrow> 'd ClockData \<Rightarrow> meas_client \<Rightarrow> 'd meas_out list" where
  "onGnssMeasurementsCb maximum ms clock h =
     (if meas_tracking h
      then case mGnssMeasurementCbIface h of
             None \<Rightarrow> []
           | Some cb \<Rightarrow> (let (out, c) = convertGnssData maximum ms clock in [GnssMeasurementCb cb out c])
      else [])"

text \<open>GnssMeasurement: one callback at a time; its client always exists.\<close>

datatype GnssMeasurementStatus = MEASUREMENT_SUCCESS | MEASUREMENT_ERROR_GENERIC | ERROR_ALREADY_INIT

record gnss_measurement =
  gmeas_api :: meas_client
  gmeas_cb :: ptr

definition new_GnssMeasurement :: gnss_measurement where
  "new_GnssMeasurement = \<lparr>gmeas_api = new_MeasurementAPIClient, gmeas_cb = None\<rparr>"

definition meas_setCallback ::
  "bool \<Rightarrow> u32 \<Rightarrow> ptr \<Rightarrow> gnss_measurement \<Rightarrow> GnssMeasurementStatus \<times> 'd meas_out list \<times> gnss_measurement" where
  "meas_setCallback created session callback g =
     (if gmeas_cb g \<noteq> None then (ERROR_ALREADY_INIT, [], g)
      else case callback of
             None \<Rightarrow> (MEASUREMENT_ERROR_GENERIC, [], g)
           | Some cb \<Rightarrow>
               let (outs, h) = measurementSetCallback created session callback (gmeas_api g)
               in (MEASUREMENT_SUCCESS, MeasLink cb # outs, g\<lparr>gmeas_cb := callback, gmeas_api := h\<rparr>))"

definition meas_close :: "gnss_measurement \<Rightarrow> 'd meas_out list \<times> gnss_measurement" where
  "meas_close g =
     (let o1 = (case gmeas_cb g of None \<Rightarrow> [] | Some cb \<Rightarrow> [MeasUnlink cb]);
          (o2, h) = measurementClose (gmeas_api g)
      in (o1 @ o2, g\<lparr>gmeas_cb := None, gmeas_api := h\<rparr>))"

text \<open>The destructor of GnssMeasurement deletes the client.\<close>

definition delete_measurement :: "gnss_measurement \<Rightarrow> 'd meas_out list" where
  "delete_measurement g = map MeasCall (fst (client_destroy (measBase (gmeas_api g))))"

section \<open>Debug data\<close>

text \<open>
  The comparisons of floating point numbers with 0 and with a constant, and the constants as numbers: the
  accuracies, the time and the frequency are replaced when they are not positive or too large.
\<close>

record 'd debug_fp =
  not_positive :: "'d \<Rightarrow> bool"
  greater :: "'d \<Rightarrow> int \<Rightarrow> bool"
  as_fp :: "int \<Rightarrow> 'd"
  age_since :: "nat \<Rightarrow> 'd"
  dbg_zero :: 'd

definition bounded :: "'d debug_fp \<Rightarrow> int \<Rightarrow> 'd \<Rightarrow> 'd" where
  "bounded F limit v = (if not_positive F v \<or> greater F v limit then as_fp F limit else v)"

record 'd PositionDebug =
  p_valid :: bool
  p_latitudeDegrees :: 'd
  p_longitudeDegrees :: 'd
  p_altitudeMeters :: 'd
  p_speedMetersPerSec :: 'd
  p_bearingDegrees :: 'd
  p_horizontalAccuracyMeters :: 'd
  p_verticalAccuracyMeters :: 'd
  p_speedAccuracyMetersPerSecond :: 'd
  p_bearingAccuracyDegrees :: 'd
  p_ageSeconds :: 'd

record 'd TimeDebug =
  t_timeEstimate :: int
  t_timeUncertaintyNs :: 'd
  t_frequencyUncertaintyNsPerSec :: 'd

record 'd SatelliteData =
  sd_svid :: nat
  sd_constellation :: GnssConstellationType
  sd_ephemerisType :: SatelliteEphemerisType
  sd_ephemerisSource :: SatelliteEphemerisSource
  sd_ephemerisHealth :: SatelliteEphemerisHealth
  sd_ephemerisAgeSeconds :: 'd
  sd_serverPredictionIsAvailable :: bool
  sd_serverPredictionAgeSeconds :: 'd

record 'd DebugData =
  dd_position :: "'d PositionDebug"
  dd_time :: "'d TimeDebug"
  dd_satellites :: "'d SatelliteData list"

definition zero_position :: "'d debug_fp \<Rightarrow> 'd PositionDebug" where
  "zero_position F =
     \<lparr>p_valid = False, p_latitudeDegrees = dbg_zero F, p_longitudeDegrees = dbg_zero F, p_altitudeMeters = dbg_zero F,
      p_speedMetersPerSec = dbg_zero F, p_bearingDegrees = dbg_zero F, p_horizontalAccuracyMeters = dbg_zero F,
      p_verticalAccuracyMeters = dbg_zero F, p_speedAccuracyMetersPerSecond = dbg_zero F, p_bearingAccuracyDegrees = dbg_zero F,
      p_ageSeconds = dbg_zero F\<rparr>"

definition no_debug_data :: "'d debug_fp \<Rightarrow> 'd DebugData" where
  "no_debug_data F =
     \<lparr>dd_position = zero_position F,
      dd_time = \<lparr>t_timeEstimate = 0, t_timeUncertaintyNs = dbg_zero F, t_frequencyUncertaintyNsPerSec = dbg_zero F\<rparr>, dd_satellites = []\<rparr>"

text \<open>The location block; the four limits are applied twice in the code, the second time without an effect.\<close>

definition bound_position :: "'d debug_fp \<Rightarrow> 'd PositionDebug \<Rightarrow> 'd PositionDebug" where
  "bound_position F p =
     p\<lparr>p_horizontalAccuracyMeters := bounded F 20000000 (p_horizontalAccuracyMeters p),
       p_verticalAccuracyMeters := bounded F 20000 (p_verticalAccuracyMeters p),
       p_speedAccuracyMetersPerSecond := bounded F 500 (p_speedAccuracyMetersPerSecond p),
       p_bearingAccuracyDegrees := bounded F 180 (p_bearingAccuracyDegrees p)\<rparr>"

definition debug_position :: "'d debug_fp \<Rightarrow> 'd DebugReport \<Rightarrow> 'd PositionDebug" where
  "debug_position F r =
     (let p = (if d_locationValid r
               then \<lparr>p_valid = True, p_latitudeDegrees = l_latitude (d_location r), p_longitudeDegrees = l_longitude (d_location r),
                     p_altitudeMeters = l_altitude (d_location r), p_speedMetersPerSec = l_speed (d_location r),
                     p_bearingDegrees = l_bearing (d_location r), p_horizontalAccuracyMeters = l_accuracy (d_location r),
                     p_verticalAccuracyMeters = d_verticalAccuracy r, p_speedAccuracyMetersPerSecond = d_speedAccuracy r,
                     p_bearingAccuracyDegrees = d_bearingAccuracy r, p_ageSeconds = age_since F (d_utcReported r)\<rparr>
               else (zero_position F)\<lparr>p_valid := False\<rparr>)
      in bound_position F (bound_position F p))"

text \<open>1 January 2017; five years in nanoseconds; 200000 nanoseconds per second.\<close>

definition debug_time_block :: "'d debug_fp \<Rightarrow> 'd DebugReport \<Rightarrow> 'd TimeDebug" where
  "debug_time_block F r =
     (let t = (if d_timeValid r
               then \<lparr>t_timeEstimate = sint (d_timeEstimate r), t_timeUncertaintyNs = d_timeUncertaintyNs r,
                     t_frequencyUncertaintyNsPerSec = d_frequencyUncertainty r\<rparr>
               else dd_time (no_debug_data F));
          t = (if t_timeEstimate t < 1483228800000 then t\<lparr>t_timeEstimate := 1483228800000\<rparr> else t)
      in t\<lparr>t_timeUncertaintyNs := bounded F 157783680000000000 (t_timeUncertaintyNs t),
           t_frequencyUncertaintyNsPerSec := bounded F 200000 (t_frequencyUncertaintyNsPerSec t)\<rparr>)"

definition satellite_data :: "'d SatelliteInfo \<Rightarrow> 'd SatelliteData" where
  "satellite_data s =
     \<lparr>sd_svid = s_svid s, sd_constellation = convertGnssConstellationType (s_constellation s),
      sd_ephemerisType = convertGnssEphemerisType (s_ephemerisType s), sd_ephemerisSource = convertGnssEphemerisSource (s_ephemerisSource s),
      sd_ephemerisHealth = convertGnssEphemerisHealth (s_ephemerisHealth s), sd_ephemerisAgeSeconds = s_ephemerisAge s,
      sd_serverPredictionIsAvailable = s_predictionAvailable s, sd_serverPredictionAgeSeconds = s_predictionAge s\<rparr>"

text \<open>\<open>report\<close> is the zeroed report; the GNSS interface passes on what the adapter makes of it.\<close>

definition getDebugData ::
  "hal_env \<Rightarrow> 'd debug_fp \<Rightarrow> 'd rep_fp \<Rightarrow> 'd DebugReport \<Rightarrow> ('d, 's) reporter \<Rightarrow> gnss_hal option \<Rightarrow> 'd DebugData \<times> gnss_hal option" where
  "getDebugData env F R report st g =
     (case g of
        None \<Rightarrow> (no_debug_data F, None)
      | Some gnss \<Rightarrow>
          let (found, gnss) = getGnssInterface env gnss
          in if \<not> found then (no_debug_data F, Some gnss)
             else let r = snd (getDebugReport R report st)
                  in (\<lparr>dd_position = debug_position F r, dd_time = debug_time_block F r, dd_satellites = map satellite_data (d_satellites r)\<rparr>,
                      Some gnss))"

end
