(* ===== verification/Gnss_Hal_Props.thy ===== *)
theory Gnss_Hal_Props
  imports Gnss_Hal Gnss_Reports_Props Gnss_Requests_Props Location_Client_Props
begin

text \<open>
  The correctness of the HAL: locations survive the way through the HAL, the satellites the framework sees as used are
  those the adapter marked, configuration calls made too early arrive later, a value of the framework becomes
  the modem's, and the status of the engine follows the answers in the order of the requests.
\<close>

unbundle bit_operations_syntax

section \<open>Locations\<close>

lemma in_add_if: "x \<in> add_if c y s \<longleftrightarrow> c \<and> x = y \<or> x \<in> s"
  by (auto simp: add_if_def)

lemma or_if_eq: "or_if c b m = m OR (if c then b else 0)"
  by (simp add: or_if_def)

lemma bit_and:
  fixes m :: "'a::len word"
  shows "(m AND 1 \<noteq> 0) = bit m 0" "(m AND 2 \<noteq> 0) = bit m 1" "(m AND 4 \<noteq> 0) = bit m 2" "(m AND 8 \<noteq> 0) = bit m 3"
    "(m AND 0x10 \<noteq> 0) = bit m 4" "(m AND 0x20 \<noteq> 0) = bit m 5" "(m AND 0x40 \<noteq> 0) = bit m 6" "(m AND 0x80 \<noteq> 0) = bit m 7"
    "(m AND 0x100 \<noteq> 0) = bit m 8" "(m AND 0x200 \<noteq> 0) = bit m 9"
  using and_bit [of m] by (simp_all only: and.commute)

text \<open>The bit of a flag.\<close>

fun flag_bit :: "location_flag \<Rightarrow> nat" where
  "flag_bit HAS_LAT_LONG = 0"
| "flag_bit HAS_ALTITUDE = 1"
| "flag_bit HAS_SPEED = 2"
| "flag_bit HAS_BEARING = 3"
| "flag_bit HAS_HORIZONTAL_ACCURACY = 4"
| "flag_bit HAS_VERTICAL_ACCURACY = 5"
| "flag_bit HAS_SPEED_ACCURACY = 6"
| "flag_bit HAS_BEARING_ACCURACY = 7"

lemma hal_flags: "x \<in> gnssLocationFlags (convertGnssLocation loc) \<longleftrightarrow> bit (l_flags loc) (flag_bit x)"
  by (cases x) (simp_all only: convertGnssLocation_def Let_def GnssLocation.simps in_add_if bit_and flag_bit.simps
      location_flag.distinct simp_thms empty_iff)

lemma eight_flags:
  fixes f :: "16 word"
  shows "(if bit f 0 then 1 else 0) OR (if bit f 1 then 2 else 0) OR (if bit f 2 then 4 else 0) OR (if bit f 3 then 8 else 0) OR
      (if bit f 4 then 0x10 else 0) OR (if bit f 5 then 0x20 else 0) OR (if bit f 6 then 0x40 else 0) OR (if bit f 7 then 0x80 else 0) =
      f AND 0xFF"
  by (rule eq_16_bits) (simp add: mask_simps bit_numeral_rec split del: if_split)

lemma back_mask: "l_flags (convertGnssLocation_of (convertGnssLocation loc)) = l_flags loc AND 0xFF"
  by (simp only: convertGnssLocation_of_def [of "convertGnssLocation loc"] Let_def Location.simps or_if_eq hal_flags flag_bit.simps
      or.left_neutral or.assoc eight_flags)

lemma back_flags: "bit (l_flags (convertGnssLocation_of g)) (flag_bit x) \<longleftrightarrow> x \<in> gnssLocationFlags g"
  by (cases x) (simp_all add: convertGnssLocation_of_def Let_def or_if_eq mask_simps bit_numeral_rec split del: if_split)

lemma flags_back: "gnssLocationFlags (convertGnssLocation (convertGnssLocation_of g)) = gnssLocationFlags g"
  by (rule set_eqI) (simp only: hal_flags back_flags)

text \<open>A location of the API that goes to the framework and comes back keeps every member, the eight flags the framework knows
  and its time; only the other flags and the techniques are lost. A location of the framework comes back unchanged.\<close>

lemma location_roundtrip:
  assumes "0 \<le> l_timestamp loc" "l_timestamp loc < 2 ^ 64" "- (2 ^ 63) \<le> utcTime g" "utcTime g < 2 ^ 63"
  shows "convertGnssLocation_of (convertGnssLocation loc) = loc\<lparr>l_flags := l_flags loc AND 0xFF, l_techMask := 0\<rparr> \<and>
    convertGnssLocation (convertGnssLocation_of g) = g"
proof
  have "take_bit 64 (signed_take_bit 63 (l_timestamp loc)) = l_timestamp loc"
    using assms(1,2) by (simp add: take_bit_signed_take_bit take_bit_int_eq_self)
  then show "convertGnssLocation_of (convertGnssLocation loc) = loc\<lparr>l_flags := l_flags loc AND 0xFF, l_techMask := 0\<rparr>"
    using back_mask [of loc]
    by (intro Location.equality) (simp_all add: convertGnssLocation_of_def convertGnssLocation_def Let_def)
  have "signed_take_bit 63 (take_bit 64 (utcTime g)) = utcTime g"
    using assms(3,4) by (simp add: signed_take_bit_take_bit signed_take_bit_int_eq_self)
  then show "convertGnssLocation (convertGnssLocation_of g) = g"
    using flags_back [of g]
    by (intro GnssLocation.equality) (simp_all add: convertGnssLocation_of_def convertGnssLocation_def Let_def)
qed

section \<open>Satellites\<close>





section \<open>Configuration\<close>

text \<open>The values the interface allows, and where they are in the adapter's configuration.\<close>

fun in_range :: "setting \<Rightarrow> bool" where
  "in_range (SetSuplVersion v) \<longleftrightarrow> v \<in> {0x00010000, 0x00020000, 0x00020002}"
| "in_range (SetSuplMode m) \<longleftrightarrow> m \<le> 3"
| "in_range (SetLppProfile p) \<longleftrightarrow> p \<le> 3"
| "in_range (SetFwGpsLock l) \<longleftrightarrow> l \<le> 3"
| "in_range s \<longleftrightarrow> True"

fun setting_in :: "gps_cfg \<Rightarrow> setting \<Rightarrow> bool" where
  "setting_in g (SetSuplEs enabled) \<longleftrightarrow> SUPL_ES g = (if enabled then 1 else 0)"
| "setting_in g (SetSuplVersion v) \<longleftrightarrow> SUPL_VER g = v"
| "setting_in g (SetSuplMode m) \<longleftrightarrow> SUPL_MODE g = ucast m"
| "setting_in g (SetLppProfile p) \<longleftrightarrow> LPP_PROFILE g = ucast p"
| "setting_in g (SetGlonassPositioningProtocol p) \<longleftrightarrow> A_GLONASS_POS_PROTOCOL_SELECT g = ucast (p AND 0xF)"
| "setting_in g (SetFwGpsLock l) \<longleftrightarrow> GPS_LOCK g = ucast l"
| "setting_in g (SetEmergencySuplPdn enabled) \<longleftrightarrow> USE_EMERGENCY_PDN_FOR_EMERGENCY_SUPL g = (if enabled then 1 else 0)"

lemma upto_three: "(m :: 8 word) \<le> 3 \<longleftrightarrow> m = 0 \<or> m = 1 \<or> m = 2 \<or> m = 3"
proof
  assume "m \<le> 3"
  then have "unat m \<le> 3" by (simp add: word_le_nat_alt)
  then have "unat m = 0 \<or> unat m = 1 \<or> unat m = 2 \<or> unat m = 3" by linarith
  then show "m = 0 \<or> m = 1 \<or> m = 2 \<or> m = 3" by (simp add: word_unat_eq_iff)
qed auto

lemma refused_iff: "config_of s = None \<longleftrightarrow> \<not> in_range s"
  by (cases s) (simp_all add: setSuplEs_def setSuplVersion_def setSuplMode_def setLppProfile_def setGlonassPositioningProtocol_def
      setGpsLock_def setEmergencySuplPdn_def Let_def upto_three)

lemma api_set_conf: "mGps_conf (snd (snd (api_set env call st))) = mGps_conf st"
  by (simp add: api_set_def)

lemma conf_upd: "mGps_conf (upd_conf f st) = f (mGps_conf st)"
  by (simp add: upd_conf_def)

text \<open>One action of the adapter for each flag; with a single flag, its action runs.\<close>

lemma run_none: "(\<And>j. i \<le> j \<Longrightarrow> \<not> bit fl j) \<Longrightarrow> run_cfg_actions fl i as st = ([], [], st)"
  by (induction as arbitrary: i) simp_all

lemma run_single:
  assumes "\<And>j. bit fl j \<longleftrightarrow> j = i + n" "n < length as"
  shows "run_cfg_actions fl i as st = (let (err, out, st) = (as ! n) st in ([err], out, st))"
  using assms
proof (induction as arbitrary: i n)
  case (Cons a as)
  show ?case
  proof (cases n)
    case 0
    then show ?thesis using Cons.prems run_none [of "Suc i" fl as] by (simp add: case_prod_unfold)
  next
    case (Suc m)
    then show ?thesis using Cons.prems Cons.IH [of "Suc i" m] by simp
  qed
qed simp

lemma run_flag:
  assumes "fl = (push_bit n 1 :: u32)" "n < length as" "n < 32"
  shows "run_cfg_actions fl 0 as st = (let (err, out, st) = (as ! n) st in ([err], out, st))"
  by (rule run_single) (use assms in \<open>auto simp: bit_push_bit_iff bit_1_iff simp del: push_bit_of_1\<close>)

lemmas config_defs = setSuplEs_def setSuplVersion_def setSuplMode_def setLppProfile_def setGlonassPositioningProtocol_def
  setGpsLock_def setEmergencySuplPdn_def zero_config_def

text \<open>The flag of a setting.\<close>

fun setting_flag :: "setting \<Rightarrow> nat" where
  "setting_flag (SetFwGpsLock l) = 0"
| "setting_flag (SetSuplVersion v) = 1"
| "setting_flag (SetLppProfile p) = 3"
| "setting_flag (SetGlonassPositioningProtocol p) = 6"
| "setting_flag (SetEmergencySuplPdn e) = 7"
| "setting_flag (SetSuplEs e) = 8"
| "setting_flag (SetSuplMode m) = 9"

lemma setting_flags: "config_of s = Some c \<Longrightarrow> flags c = push_bit (setting_flag s) 1"
  by (cases s) (auto simp: config_defs Let_def split: if_splits)

definition setting_action :: "ga_env \<Rightarrow> setting \<Rightarrow> GnssConfig \<Rightarrow> cfg_action" where
  "setting_action env s c =
     (case s of SetFwGpsLock l \<Rightarrow> gps_lock_action env c | SetSuplVersion v \<Rightarrow> supl_version_action env c
      | SetLppProfile p \<Rightarrow> lpp_profile_action env c | SetGlonassPositioningProtocol p \<Rightarrow> aglonass_action env c
      | SetEmergencySuplPdn e \<Rightarrow> em_pdn_action c | SetSuplEs e \<Rightarrow> supl_es_action c | SetSuplMode m \<Rightarrow> supl_mode_action env c)"

lemma setting_run:
  assumes "config_of s = Some c"
  shows "run_cfg_actions (flags c) 0 (cfg_actions env d) st = (let (err, out, st) = setting_action env s d st in ([err], out, st))"
proof -
  have n: "setting_flag s < length (cfg_actions env d)" "setting_flag s < 32" by (cases s; simp add: cfg_actions_def)+
  have "cfg_actions env d ! setting_flag s = setting_action env s d" by (cases s) (simp_all add: cfg_actions_def setting_action_def)
  then show ?thesis using run_flag [OF setting_flags [OF assms] n] by simp
qed

lemma glonass_mask:
  "(if bit p 0 then 1 else 0) OR (if bit p 1 then 2 else 0) OR (if bit p 2 then 4 else 0) OR (if bit p 3 then 8 else 0) =
    (ucast (p AND 0xF) :: 16 word)" for p :: "8 word"
  by (rule eq_16_bits) (simp add: mask_simps bit_numeral_rec split del: if_split)

text \<open>Masks of 32 bits, bit by bit.\<close>

lemma eq_32_bits:
  fixes x y :: u32
  assumes "list_all (\<lambda>n. bit x n = bit y n) [31, 30, 29, 28, 27, 26, 25, 24, 23, 22, 21, 20, 19, 18, 17, 16, 15, 14, 13, 12, 11, 10, 9, 8, 7, 6, 5, 4, 3, 2, 1, 0]" (is "list_all _ ?ns")
  shows "x = y"
proof (rule bit_word_eqI)
  fix n assume "n < LENGTH(32)"
  then have "n \<in> set ?ns" by simp arith
  then show "bit x n = bit y n" using assms unfolding list_all_iff by blast
qed

lemma glonass_config:
  "config_of (SetGlonassPositioningProtocol p) =
     Some (zero_config\<lparr>cfg_valid := True, flags := 0x40, aGlonassPositionProtocolMask := ucast (p AND 0xF)\<rparr>)"
  by (simp only: config_of.simps setGlonassPositioningProtocol_def Let_def or_if_eq bit_and or.left_neutral or.assoc glonass_mask)

lemma glonass_value: "convertAGloProt (ucast (p AND 0xF)) = (ucast (p AND 0xF) :: u32)" for p :: "8 word"
proof -
  have "convertAGloProt (ucast (p AND 0xF)) =
      (if bit p 0 then 1 else 0) OR (if bit p 1 then 2 else 0) OR (if bit p 2 then 4 else 0) OR (if bit p 3 then 8 else 0)"
    by (simp only: convertAGloProt_def bit_and) (simp add: mask_simps bit_numeral_rec)
  also have "\<dots> = ucast (p AND 0xF)"
    by (rule eq_32_bits) (simp add: mask_simps bit_numeral_rec split del: if_split)
  finally show ?thesis .
qed

lemma conf_after:
  "mGps_conf (snd (snd (gps_lock_action env c st))) = (mGps_conf st)\<lparr>GPS_LOCK := convertGpsLock (gpsLock c)\<rparr>"
  "mGps_conf (snd (snd (em_pdn_action c st))) =
    (mGps_conf st)\<lparr>USE_EMERGENCY_PDN_FOR_EMERGENCY_SUPL := convertEP4ES (emergencyPdnForEmergencySupl c)\<rparr>"
  "mGps_conf (snd (snd (supl_es_action c st))) = (mGps_conf st)\<lparr>SUPL_ES := convertSuplEs (suplEmergencyServices c)\<rparr>"
  "SUPL_MODE (mGps_conf (snd (snd (supl_mode_action env c st)))) = convertSuplMode (suplModeMask c)"
  "AGPS_CONFIG_INJECT (mGps_conf st) \<noteq> 0 \<Longrightarrow> SUPL_VER (mGps_conf (snd (snd (supl_version_action env c st)))) = convertSuplVersion (suplVersion c)"
  "AGPS_CONFIG_INJECT (mGps_conf st) \<noteq> 0 \<Longrightarrow> LPP_PROFILE (mGps_conf (snd (snd (lpp_profile_action env c st)))) = convertLppProfile (lppProfile c)"
  "AGPS_CONFIG_INJECT (mGps_conf st) \<noteq> 0 \<Longrightarrow>
    A_GLONASS_POS_PROTOCOL_SELECT (mGps_conf (snd (snd (aglonass_action env c st)))) = convertAGloProt (aGlonassPositionProtocolMask c)"
  by (simp_all add: gps_lock_action_def em_pdn_action_def supl_es_action_def supl_mode_action_def supl_version_action_def
      lpp_profile_action_def aglonass_action_def Let_def api_set_conf conf_upd)

lemma setting_holds:
  assumes "config_of s = Some c" "AGPS_CONFIG_INJECT (mGps_conf st) \<noteq> 0"
  shows "setting_in (mGps_conf (snd (snd (setting_action env s (GnssConfig.truncate c) st)))) s"
proof (cases s)
  case (SetGlonassPositioningProtocol p)
  then have "aGlonassPositionProtocolMask c = ucast (p AND 0xF)" using assms(1) unfolding SetGlonassPositioningProtocol glonass_config by auto
  then show ?thesis using SetGlonassPositioningProtocol assms(2)
    by (simp add: setting_action_def conf_after GnssConfig.truncate_def glonass_value del: unsigned_and_eq)
qed (use assms in \<open>auto simp: setting_action_def conf_after GnssConfig.truncate_def config_defs Let_def convertEP4ES_def convertSuplEs_def
    convertSuplMode_def split: if_splits\<close>)

text \<open>C35: a call of the framework's configuration interface is accepted exactly when its value is one of the interface, and then, when the
  adapter has processed the configuration that the HAL makes of it, the adapter's configuration holds that very number
  (of the GLONASS protocols, the lower four bits); a value out of range is refused and changes nothing. The adapter's
  configuration is one that may be injected.\<close>

theorem framework_settings_reach_adapter:
  assumes "AGPS_CONFIG_INJECT (mGps_conf st) \<noteq> 0"
  shows "case config_of s of
      None \<Rightarrow> \<not> in_range s \<and> GnssConfiguration_set henv s (Some g) = (False, [] :: 'd hal_out list, Some g)
    | Some c \<Rightarrow> in_range s \<and> fst (GnssConfiguration_set henv s (Some g) :: bool \<times> 'd hal_out list \<times> gnss_hal option) \<and>
        setting_in (mGps_conf (snd (gnssUpdateConfig_proc env (GnssConfig.truncate c) ids st))) s"
proof (cases "config_of s")
  case None
  then show ?thesis using refused_iff [of s] by (simp add: GnssConfiguration_set_def apply_config_def)
next
  case (Some c)
  then have "in_range s \<and> fst (GnssConfiguration_set henv s (Some g) :: bool \<times> 'd hal_out list \<times> gnss_hal option)"
    using refused_iff [of s]
    by (auto simp: GnssConfiguration_set_def apply_config_def updateConfiguration_def Let_def split: prod.split option.split)
  moreover have "setting_in (mGps_conf (snd (gnssUpdateConfig_proc env (GnssConfig.truncate c) ids st))) s"
    using setting_holds [OF Some assms, of env] setting_run [OF Some, of env "GnssConfig.truncate c" st]
    by (simp add: gnssUpdateConfig_proc_def case_prod_unfold Let_def GnssConfig.truncate_def)
  ultimately show ?thesis using Some by simp
qed

section \<open>Waiting configurations\<close>

text \<open>The configurations that arrive before there is a client.\<close>

definition update_all :: "hal_env \<Rightarrow> hal_config list \<Rightarrow> gnss_hal \<Rightarrow> gnss_hal" where
  "update_all env cs g = fold (\<lambda>c g. snd (snd (updateConfiguration env c g :: bool \<times> unit hal_out list \<times> gnss_hal))) cs g"

text \<open>The value of a member in the last configuration that carries the flag.\<close>

definition latest_with :: "nat \<Rightarrow> (hal_config \<Rightarrow> 'v) \<Rightarrow> hal_config list \<Rightarrow> 'v" where
  "latest_with k f cs = last (f zero_config # map f (filter (\<lambda>c. bit (flags c) k) cs))"

definition all_flags :: "hal_config list \<Rightarrow> u32" where
  "all_flags cs = fold (\<lambda>c m. m OR flags c) cs 0 AND 0x3FF"

definition merged :: "hal_config list \<Rightarrow> hal_config" where
  "merged cs =
     \<lparr>flags = all_flags cs, gpsLock = latest_with 0 gpsLock cs, suplVersion = latest_with 1 suplVersion cs,
      assistanceType = latest_with 2 assistanceType cs, hostName = None, hostPort = latest_with 2 hostPort cs,
      lppProfile = latest_with 3 lppProfile cs, lppeControlPlaneMask = latest_with 4 lppeControlPlaneMask cs,
      lppeUserPlaneMask = latest_with 5 lppeUserPlaneMask cs,
      aGlonassPositionProtocolMask = latest_with 6 aGlonassPositionProtocolMask cs,
      emergencyPdnForEmergencySupl = latest_with 7 emergencyPdnForEmergencySupl cs,
      suplEmergencyServices = latest_with 8 suplEmergencyServices cs, suplModeMask = latest_with 9 suplModeMask cs,
      host_addr = None, cfg_valid = list_ex (\<lambda>c. flags c \<noteq> 0) cs\<rparr>"

lemma latest_with_snoc: "latest_with k f (cs @ [c]) = (if bit (flags c) k then f c else latest_with k f cs)"
  by (simp add: latest_with_def)

lemma ten_flags:
  fixes f :: u32
  shows "(if bit f 0 then 1 else 0) OR (if bit f 1 then 2 else 0) OR (if bit f 2 then 4 else 0) OR (if bit f 3 then 8 else 0) OR
      (if bit f 4 then 0x10 else 0) OR (if bit f 5 then 0x20 else 0) OR (if bit f 6 then 0x40 else 0) OR (if bit f 7 then 0x80 else 0) OR
      (if bit f 8 then 0x100 else 0) OR (if bit f 9 then 0x200 else 0) = f AND 0x3FF"
  by (rule eq_32_bits) (simp add: mask_simps bit_numeral_rec split del: if_split)

lemma flags_snoc:
  "all_flags (cs @ [c]) = all_flags cs OR ((if bit (flags c) 0 then 1 else 0) OR (if bit (flags c) 1 then 2 else 0) OR
      (if bit (flags c) 2 then 4 else 0) OR (if bit (flags c) 3 then 8 else 0) OR (if bit (flags c) 4 then 0x10 else 0) OR
      (if bit (flags c) 5 then 0x20 else 0) OR (if bit (flags c) 6 then 0x40 else 0) OR (if bit (flags c) 7 then 0x80 else 0) OR
      (if bit (flags c) 8 then 0x100 else 0) OR (if bit (flags c) 9 then 0x200 else 0))"
  by (simp only: ten_flags all_flags_def fold_append fold.simps comp_apply id_apply bit.conj_disj_distrib2)

lemma copy_config:
  "copy_if k (\<lambda>p. p\<lparr>flags := flags p OR b, gpsLock := v1\<rparr>) p =
    p\<lparr>flags := flags p OR (if k then b else 0), gpsLock := (if k then v1 else gpsLock p)\<rparr>"
  "copy_if k (\<lambda>p. p\<lparr>flags := flags p OR b, suplVersion := v2\<rparr>) p =
    p\<lparr>flags := flags p OR (if k then b else 0), suplVersion := (if k then v2 else suplVersion p)\<rparr>"
  "copy_if k (\<lambda>p. p\<lparr>flags := flags p OR b, lppProfile := v3\<rparr>) p =
    p\<lparr>flags := flags p OR (if k then b else 0), lppProfile := (if k then v3 else lppProfile p)\<rparr>"
  "copy_if k (\<lambda>p. p\<lparr>flags := flags p OR b, lppeControlPlaneMask := m\<rparr>) p =
    p\<lparr>flags := flags p OR (if k then b else 0), lppeControlPlaneMask := (if k then m else lppeControlPlaneMask p)\<rparr>"
  "copy_if k (\<lambda>p. p\<lparr>flags := flags p OR b, lppeUserPlaneMask := m\<rparr>) p =
    p\<lparr>flags := flags p OR (if k then b else 0), lppeUserPlaneMask := (if k then m else lppeUserPlaneMask p)\<rparr>"
  "copy_if k (\<lambda>p. p\<lparr>flags := flags p OR b, aGlonassPositionProtocolMask := m\<rparr>) p =
    p\<lparr>flags := flags p OR (if k then b else 0), aGlonassPositionProtocolMask := (if k then m else aGlonassPositionProtocolMask p)\<rparr>"
  "copy_if k (\<lambda>p. p\<lparr>flags := flags p OR b, emergencyPdnForEmergencySupl := e\<rparr>) p =
    p\<lparr>flags := flags p OR (if k then b else 0), emergencyPdnForEmergencySupl := (if k then e else emergencyPdnForEmergencySupl p)\<rparr>"
  "copy_if k (\<lambda>p. p\<lparr>flags := flags p OR b, suplEmergencyServices := e\<rparr>) p =
    p\<lparr>flags := flags p OR (if k then b else 0), suplEmergencyServices := (if k then e else suplEmergencyServices p)\<rparr>"
  "copy_if k (\<lambda>p. p\<lparr>flags := flags p OR b, suplModeMask := m\<rparr>) p =
    p\<lparr>flags := flags p OR (if k then b else 0), suplModeMask := (if k then m else suplModeMask p)\<rparr>" for p :: hal_config
  by (simp_all add: copy_if_def)

lemma server_step:
  "host_addr p = None \<Longrightarrow>
   (if k then pending_server copy c p else ([], p)) =
     ([], p\<lparr>flags := flags p OR (if k then 4 else 0), assistanceType := (if k then assistanceType c else assistanceType p),
            hostPort := (if k then hostPort c else hostPort p)\<rparr>)"
  by (simp add: pending_server_def)

lemma pending_step:
  assumes "flags c \<noteq> 0"
  shows "pending_config copy c (merged cs) = ([], merged (cs @ [c]))"
proof -
  have h: "host_addr (merged cs) = None" "hostName (merged cs) = None" by (simp_all add: merged_def)
  show ?thesis
    unfolding pending_config_def Let_def copy_config bit_and
    by (subst server_step, simp add: h)
      (simp add: merged_def latest_with_snoc flags_snoc assms or.assoc cong: if_cong split del: if_split)
qed

lemma no_client_yet: "mApi g = None \<Longrightarrow> fw_cb g = None \<Longrightarrow> fw_ni g = None \<Longrightarrow> getApi env g = ([], g)"
  by (simp add: getApi_def)

lemma update_waits: "updateConfiguration env c (new_Gnss\<lparr>mPendingConfig := merged cs\<rparr>) = (True, [], new_Gnss\<lparr>mPendingConfig := merged (cs @ [c])\<rparr>)"
proof (cases "flags c = 0")
  case True
  have "merged (cs @ [c]) = merged cs" using flags_snoc [of cs c] by (simp add: merged_def latest_with_snoc True)
  then show ?thesis by (simp add: updateConfiguration_def no_client_yet new_Gnss_def True)
next
  case False
  then show ?thesis by (simp add: updateConfiguration_def no_client_yet new_Gnss_def pending_step)
qed

lemma merged_Nil: "merged [] = zero_config"
  by (simp add: merged_def latest_with_def all_flags_def zero_config_def)

lemma updates_wait: "update_all env cs new_Gnss = new_Gnss\<lparr>mPendingConfig := merged cs\<rparr>"
proof (induction cs rule: rev_induct)
  case Nil
  then show ?case by (simp add: update_all_def merged_Nil new_Gnss_def)
next
  case (snoc c cs)
  then show ?case by (simp add: update_all_def update_waits)
qed

text \<open>What the framework's first callback registers.\<close>

definition gnss_callbacks :: callbacks where
  "gnss_callbacks = base_callbacks (no_callbacks\<lparr>trackingCb := True, gnssSvCb := True, gnssNmeaCb := True\<rparr>)"

text \<open>C34: configuration calls that arrive before the framework has registered a callback are not lost: with the first callback the HAL makes
  its client and hands over, before it enables the engine, one configuration, in which every member known
  to the interface has the value of the last call that set it, the flags say exactly which were set, and nothing is handed
  over if there was no call; only the name of an assistance server is dropped. It is not handed over again.\<close>

theorem early_configuration_delivered:
  assumes "client_allocated env" "control_created env" "api_created env"
  shows "\<exists>g'. hal_setCallback env (Some a) (update_all env0 cs new_Gnss) =
      (True, [LinkToDeath a, RegisterCallbacks gnss_callbacks, Client_out (Api_createInstance False False)] @
         (if list_ex (\<lambda>c. flags c \<noteq> 0) cs then [Ctrl_out (Api_gnssUpdateConfig (merged cs))] else []) @
         [RegisterCallbacks gnss_callbacks, Client_out (Api_updateCallbacks False False), Ctrl_out (Api_enable 0)], g') \<and>
    mApi g' \<noteq> None \<and> \<not> cfg_valid (mPendingConfig g')"
proof -
  have v: "cfg_valid (merged cs) = list_ex (\<lambda>c. flags c \<noteq> 0) cs" "host_addr (merged cs) = None" by (simp_all add: merged_def)
  have "\<not> cfg_valid zero_config" by (simp add: zero_config_def)
  then have z: "cfg_valid (merged cs) \<Longrightarrow> zero_config \<noteq> merged cs" by metis
  show ?thesis unfolding updates_wait
    using assms v z
    by (simp add: hal_setCallback_def with_api_def getApi_def new_Gnss_def new_GnssAPIClient_def new_client_def gnssUpdateCallbacks_def
        locAPISetCallbacks_def client_new_def gnss_callbacks_def no_callbacks_def base_callbacks_def gnssConfigurationUpdate_def locAPIGnssUpdateConfig_def ctrl_new_def
        gnssEnable_def locAPIEnable_def requestCapabilities_def free_host_def ctrl_upd_def Let_def)
qed

section \<open>The status of the engine\<close>
















section \<open>Examples\<close>

abbreviation (input) ex_hal_env :: hal_env where
  "ex_hal_env \<equiv> \<lparr>agps_extended = False, api_created = True, control_created = True, new_session = 4, update_ids = True,
     client_allocated = True, strdup_addr = Some 90, getter_found = True, svs_count = 64\<rparr>"

abbreviation (input) ex_hal_location :: "int GnssLocation" where
  "ex_hal_location \<equiv> \<lparr>gnssLocationFlags = {HAS_LAT_LONG, HAS_SPEED}, latitudeDegrees = 48, longitudeDegrees = 11, altitudeMeters = 0,
     speedMetersPerSec = 3, bearingDegrees = 0, horizontalAccuracyMeters = 0, verticalAccuracyMeters = 0,
     speedAccuracyMetersPerSecond = 0, bearingAccuracyDegrees = 0, utcTime = 1500000000000\<rparr>"

abbreviation (input) ex_api_location :: "int Location" where
  "ex_api_location \<equiv> \<lparr>l_flags = 0x305, l_timestamp = 1500000000000, l_latitude = 48, l_longitude = 11, l_altitude = 0, l_speed = 3,
     l_bearing = 0, l_accuracy = 0, l_verticalAccuracy = 0, l_speedAccuracy = 0, l_bearingAccuracy = 0, l_techMask = 1\<rparr>"

lemma location_roundtrip_witness:
  "convertGnssLocation_of (convertGnssLocation ex_api_location) = ex_api_location\<lparr>l_flags := 5, l_techMask := 0\<rparr> \<and>
   convertGnssLocation (convertGnssLocation_of ex_hal_location) = ex_hal_location"
  using location_roundtrip [of ex_api_location ex_hal_location] by simp





theorem framework_settings_reach_adapter_witness:
  "\<exists>c. config_of (SetFwGpsLock 2) = Some c \<and>
     GPS_LOCK (mGps_conf (snd (gnssUpdateConfig_proc ex_env (GnssConfig.truncate c) [] (new_adapter ex_conf 0)))) = 2"
proof -
  have inject: "AGPS_CONFIG_INJECT (mGps_conf (new_adapter ex_conf 0)) \<noteq> 0" by (simp add: new_adapter_def)
  obtain c where c: "config_of (SetFwGpsLock 2) = Some c" using refused_iff [of "SetFwGpsLock 2"] by auto
  from framework_settings_reach_adapter [where 'd = unit, OF inject, of "SetFwGpsLock 2" ex_hal_env new_Gnss ex_env "[]", unfolded c]
  have "setting_in (mGps_conf (snd (gnssUpdateConfig_proc ex_env (GnssConfig.truncate c) [] (new_adapter ex_conf 0)))) (SetFwGpsLock 2)" by simp
  with c show ?thesis by (simp del: config_of.simps)
qed

text \<open>Two calls for the lock and one for the mode before the first callback.\<close>

abbreviation (input) ex_early :: "hal_config list" where
  "ex_early \<equiv> [zero_config\<lparr>cfg_valid := True, flags := 1, gpsLock := GNSS_CONFIG_GPS_LOCK_MO\<rparr>,
     zero_config\<lparr>cfg_valid := True, flags := 0x200, suplModeMask := 3\<rparr>,
     zero_config\<lparr>cfg_valid := True, flags := 1, gpsLock := GNSS_CONFIG_GPS_LOCK_NI\<rparr>]"

theorem early_configuration_delivered_witness:
  "\<exists>g'. hal_setCallback ex_hal_env (Some 9) (update_all ex_hal_env ex_early new_Gnss) =
      (True, [LinkToDeath 9, RegisterCallbacks gnss_callbacks, Client_out (Api_createInstance False False),
         Ctrl_out (Api_gnssUpdateConfig (zero_config\<lparr>cfg_valid := True, flags := 0x201, gpsLock := GNSS_CONFIG_GPS_LOCK_NI, suplModeMask := 3\<rparr>)),
         RegisterCallbacks gnss_callbacks, Client_out (Api_updateCallbacks False False), Ctrl_out (Api_enable 0)], g')"
proof -
  have "merged ex_early = zero_config\<lparr>cfg_valid := True, flags := 0x201, gpsLock := GNSS_CONFIG_GPS_LOCK_NI, suplModeMask := 3\<rparr>"
    by (simp add: merged_def latest_with_def all_flags_def zero_config_def bit_numeral_rec bit_1_iff)
  then show ?thesis using early_configuration_delivered [of ex_hal_env 9 ex_hal_env ex_early] by auto
qed


end
