(* ===== verification/Hal_Clients_Props.thy ===== *)
theory Hal_Clients_Props
  imports Hal_Clients Hal_Measurements Gnss_Hal_Props
begin

text \<open>
  The correctness of the HAL's other clients: a geofence is answered and reported under the framework's id, measurements
  are delivered exactly while the framework has its callback set, and the debug data are complete and in range.
\<close>

unbundle bit_operations_syntax

section \<open>Geofences\<close>

lemma breach_mask_bits: "breach_mask monitor AND 1 \<noteq> 0 \<longleftrightarrow> ENTERED \<in> monitor" "breach_mask monitor AND 2 \<noteq> 0 \<longleftrightarrow> EXITED \<in> monitor"
  by (simp_all add: breach_mask_def or_if_def Let_def)

lemma selected_transition:
  "breach_selected type (breach_mask monitor) \<longleftrightarrow> (case transition_of type of None \<Rightarrow> False | Some t \<Rightarrow> t \<in> monitor)"
  by (cases type) (simp_all add: breach_selected_def transition_of_def breach_mask_bits)

text \<open>C37: when the location API accepts a geofence that the framework adds and no other geofence request waits, the API's answer for the
  session reaches the framework once, under the framework's id and with the status that belongs to the error; and a breach
  of the session is reported to the framework, once, under this id and with the converted location, exactly when it is
  an entry or exit that the framework asked to monitor.\<close>

theorem geofence_reported_under_framework_id:
  fixes info :: "'d GeofenceInfo"
  assumes "gf_api g = Some h" "mGnssGeofencingCbIface h = Some cb" "mLocationAPI (geoBase h)"
    and "mGeofenceBreachCallback (geoBase h) = Some k" "mQueue (mRequestQueues (geoBase h) REQUEST_GEOFENCE) = []"
    and "addGeofence i info monitor ms (Some [s]) g = (out, g')" "gf_api g' = Some h'"
  shows "fst (geo_collectiveResponseCb [err] [s] h') = [GnssGeofenceAddCb cb i (add_status err) :: 'd geo_out] \<and>
    geo_breachCb [s] type loc time True h' =
      (case transition_of type of
         None \<Rightarrow> []
       | Some t \<Rightarrow> if t \<in> monitor then [GnssGeofenceTransitionCb cb i (convertGnssLocation loc) t (signed_take_bit 63 time)] else [])"
proof -
  let ?op = "\<lparr>breachTypeMask = breach_mask monitor, responsiveness = ms, dwellTime = 0\<rparr>"
  obtain e o1 b where add: "locAPIAddGeofences [i] [?op] [info] (Some [s]) (geoBase h) = (e, (o1 :: 'd geo_call list), b)"
    by (metis prod_cases3)
  have h': "h' = h\<lparr>geoBase := b\<rparr>"
    using assms(1,6,7) by (auto simp: addGeofence_def gf_call_def geofenceAdd_def add Let_def)
  have b: "bd_getId s (mGeofenceBiDict b) = i" "bd_getExtBySession 0 s (mGeofenceBiDict b) = breach_mask monitor"
    "mGeofenceBreachCallback b = Some k"
    using add assms(3,4)
    by (auto simp: locAPIAddGeofences_def Let_def bd_getId_def bd_getExtBySession_def queue_upd_def)
  have "fst (onCollectiveResponseCb [err] [s] b) = [Cb_onAddGeofences [err] [i] :: 'd geo_call]"
    using added_geofences_reported_by_client_id [OF _ _ _ assms(3,5) add, of "[err]"] by simp
  then have "fst (geo_collectiveResponseCb [err] [s] h') = [GnssGeofenceAddCb cb i (add_status err) :: 'd geo_out]"
    using assms(2) by (simp add: geo_collectiveResponseCb_def h' case_prod_unfold Let_def geo_outs_def onAddGeofencesCb_def to_geofencing_def)
  moreover have "geo_breachCb [s] type loc time True h' =
      geo_virtual h' (Cb_geofenceBreach k (if breach_selected type (breach_mask monitor) then [i] else []) type (loc, time))"
    by (simp add: geo_breachCb_def beforeGeofenceBreachCb_def h' b geo_outs_def)
  then have "geo_breachCb [s] type loc time True h' =
      (case transition_of type of
         None \<Rightarrow> []
       | Some t \<Rightarrow> if t \<in> monitor then [GnssGeofenceTransitionCb cb i (convertGnssLocation loc) t (signed_take_bit 63 time)] else [])"
    using assms(2) by (simp add: selected_transition onGeofenceBreachCb_def to_geofencing_def h' split: option.split)
  ultimately show ?thesis by blast
qed

text \<open>The framework's removal of all geofences, and the end of its process, leave every geofence where it is.\<close>

lemma remove_all_does_nothing: "removeAllGeofences g = ([], g)"
  by (cases g) (simp add: removeAllGeofences_def gf_call_def geofenceRemoveAll_def split: option.split)

text \<open>A second callback is never used.\<close>

lemma second_callback_ignored: "gf_api g \<noteq> None \<Longrightarrow> gf_setCallback created allocated callback g = ([], g)"
  by (simp add: gf_setCallback_def)

section \<open>Batching\<close>

text \<open>Once there is a client, starting and stopping report success even when the location API refused.\<close>

lemma batching_always_succeeds: "fst (ba_start opts ret g) \<longleftrightarrow> ba_api g \<noteq> None" "fst (ba_stop g) \<longleftrightarrow> ba_api g \<noteq> None"
  by (auto simp: ba_start_def ba_stop_def batch_startSession_def batch_stopSession_def case_prod_unfold Let_def split: option.split)

section \<open>Measurements\<close>

text \<open>The bits of the masks.\<close>

fun flag_of :: "measurement_flag \<Rightarrow> nat" where
  "flag_of MEAS_CARRIER_FREQUENCY = 11"
| "flag_of HAS_CARRIER_CYCLES = 12"
| "flag_of HAS_CARRIER_PHASE = 13"
| "flag_of HAS_CARRIER_PHASE_UNCERTAINTY = 14"
| "flag_of HAS_SNR = 16"
| "flag_of HAS_AUTOMATIC_GAIN_CONTROL = 17"

lemma bit_and_high:
  fixes m :: "'a::len word"
  shows "(m AND 0x400 \<noteq> 0) = bit m 10" "(m AND 0x800 \<noteq> 0) = bit m 11" "(m AND 0x1000 \<noteq> 0) = bit m 12" "(m AND 0x2000 \<noteq> 0) = bit m 13"
    "(m AND 0x4000 \<noteq> 0) = bit m 14" "(m AND 0x10000 \<noteq> 0) = bit m 16" "(m AND 0x20000 \<noteq> 0) = bit m 17"
  using and_exp_eq_0_iff_not_bit [of m 10] and_exp_eq_0_iff_not_bit [of m 11] and_exp_eq_0_iff_not_bit [of m 12]
    and_exp_eq_0_iff_not_bit [of m 13] and_exp_eq_0_iff_not_bit [of m 14] and_exp_eq_0_iff_not_bit [of m 16]
    and_exp_eq_0_iff_not_bit [of m 17]
  by simp_all

lemma flags_exact: "x \<in> measurement_flags m \<longleftrightarrow> bit m (flag_of x)"
  by (cases x) (simp_all only: measurement_flags_def Let_def in_add_if bit_and_high flag_of.simps measurement_flag.distinct simp_thms empty_iff)

fun state_of :: "measurement_state \<Rightarrow> nat" where
  "state_of STATE_CODE_LOCK = 0"
| "state_of STATE_BIT_SYNC = 1"
| "state_of STATE_SUBFRAME_SYNC = 2"
| "state_of STATE_TOW_DECODED = 3"
| "state_of STATE_MSEC_AMBIGUOUS = 4"
| "state_of STATE_SYMBOL_SYNC = 5"
| "state_of STATE_GLO_STRING_SYNC = 6"
| "state_of STATE_GLO_TOD_DECODED = 7"
| "state_of STATE_BDS_D2_BIT_SYNC = 8"
| "state_of STATE_BDS_D2_SUBFRAME_SYNC = 9"
| "state_of STATE_GAL_E1BC_CODE_LOCK = 10"
| "state_of STATE_GAL_E1C_2ND_CODE_LOCK = 11"
| "state_of STATE_GAL_E1B_PAGE_SYNC = 12"
| "state_of STATE_SBAS_SYNC = 13"

lemma states_exact: "x \<in> measurement_states m \<longleftrightarrow> bit m (state_of x)"
  by (cases x) (simp_all only: measurement_states_def Let_def in_add_if bit_and bit_and_high state_of.simps measurement_state.distinct
      simp_thms empty_iff)

text \<open>The framework's calls, in order.\<close>

datatype meas_call = MeasSet bool u32 ptr | MeasClose

fun meas_exec :: "meas_call \<Rightarrow> gnss_measurement \<Rightarrow> gnss_measurement" where
  "meas_exec (MeasSet created session callback) g = snd (snd (meas_setCallback created session callback g :: _ \<times> unit meas_out list \<times> _))"
| "meas_exec MeasClose g = snd (meas_close g :: unit meas_out list \<times> _)"

definition meas_inv :: "gnss_measurement \<Rightarrow> bool" where
  "meas_inv g \<longleftrightarrow> (case gmeas_cb g of
      None \<Rightarrow> \<not> meas_tracking (gmeas_api g)
    | Some cb \<Rightarrow> meas_tracking (gmeas_api g) \<and> mGnssMeasurementCbIface (gmeas_api g) = Some cb)"

lemma meas_inv_step: "meas_inv g \<Longrightarrow> meas_inv (meas_exec c g)"
  by (cases c) (auto simp: meas_inv_def meas_setCallback_def measurementSetCallback_def meas_startTracking_def meas_close_def
      measurementClose_def case_prod_unfold Let_def split: option.splits)

lemma meas_inv_run: "meas_inv (fold meas_exec cs new_GnssMeasurement)"
  using fold_invariant [of cs "\<lambda>_. True" meas_inv new_GnssMeasurement meas_exec] meas_inv_step
  by (simp add: meas_inv_def new_GnssMeasurement_def new_MeasurementAPIClient_def)

lemma data_entries:
  "length (fst (convertGnssData n ms clock)) = min n (length ms)"
  "i < n \<Longrightarrow> i < length ms \<Longrightarrow> fst (convertGnssData n ms clock) ! i = convertGnssMeasurement (ms ! i)"
  by (auto simp: convertGnssData_def Let_def)

text \<open>After any calls of the framework, a measurement notification is delivered, once, exactly while a callback is set, and to that callback,
  whatever the location API answered; it has every measurement up to the interface's maximum, in order, each
  with exactly those validity flags and tracking states whose bits the modem or the adapter had set.\<close>

lemma measurements_delivered_while_open:
  fixes ms :: "'d FullMeasurement list"
  shows "let g = fold meas_exec cs new_GnssMeasurement in (case gmeas_cb g of
      None \<Rightarrow> onGnssMeasurementsCb maximum ms clock (gmeas_api g) = []
    | Some cb \<Rightarrow> \<exists>out. onGnssMeasurementsCb maximum ms clock (gmeas_api g) = [GnssMeasurementCb cb out (convertGnssClock clock)] \<and>
        length out = min maximum (length ms) \<and>
        list_all2 (\<lambda>d m. gm_flags d = {x. bit (me_flags m) (flag_of x)} \<and> gm_state d = {x. bit (me_stateMask m) (state_of x)})
          out (take maximum ms))"
proof -
  let ?g = "fold meas_exec cs new_GnssMeasurement"
  have inv: "meas_inv ?g" by (rule meas_inv_run)
  show ?thesis
  proof (cases "gmeas_cb ?g")
    case None
    then show ?thesis using inv by (simp add: meas_inv_def onGnssMeasurementsCb_def)
  next
    case (Some cb)
    let ?out = "fst (convertGnssData maximum ms clock)"
    have "onGnssMeasurementsCb maximum ms clock (gmeas_api ?g) = [GnssMeasurementCb cb ?out (convertGnssClock clock)]"
      using inv Some by (simp add: meas_inv_def onGnssMeasurementsCb_def case_prod_unfold convertGnssData_def Let_def)
    moreover have "list_all2 (\<lambda>d m. gm_flags d = {x. bit (me_flags m) (flag_of x)} \<and> gm_state d = {x. bit (me_stateMask m) (state_of x)})
        ?out (take maximum ms)"
      by (rule list_all2_all_nthI) (auto simp: data_entries convertGnssMeasurement_def flags_exact states_exact)
    ultimately show ?thesis using Some data_entries(1) [of maximum ms clock] by auto
  qed
qed

section \<open>Debug data\<close>

text \<open>What the comparisons satisfy: a positive constant is positive and not greater than itself.\<close>

definition fp_sane :: "'d debug_fp \<Rightarrow> bool" where
  "fp_sane F \<longleftrightarrow> (\<forall>k > 0. \<not> not_positive F (as_fp F k) \<and> \<not> greater F (as_fp F k) k)"

definition within :: "'d debug_fp \<Rightarrow> int \<Rightarrow> 'd \<Rightarrow> bool" where
  "within F limit v \<longleftrightarrow> \<not> not_positive F v \<and> \<not> greater F v limit"

lemma bounded_within: "fp_sane F \<Longrightarrow> 0 < limit \<Longrightarrow> within F limit (bounded F limit v)"
  by (simp add: fp_sane_def within_def bounded_def)

lemma constellation_inj: "convertGnssConstellationType t = convertGnssConstellationType u \<longleftrightarrow> t = u"
  by (cases t; cases u) simp_all

lemma satellite_keys:
  "map (\<lambda>s. (sd_constellation s, sd_svid s)) (map satellite_data ss) =
   map (\<lambda>(t, i). (convertGnssConstellationType t, i)) (map (\<lambda>s. (s_constellation s, s_svid s)) ss)"
  by (simp add: satellite_data_def)

lemma keys_distinct: "distinct ks \<Longrightarrow> distinct (map (\<lambda>(t, i). (convertGnssConstellationType t, i)) ks)"
  by (auto simp: distinct_map inj_on_def constellation_inj)

lemma position_within:
  assumes "fp_sane F"
  shows "within F 20000000 (p_horizontalAccuracyMeters (debug_position F r))" "within F 20000 (p_verticalAccuracyMeters (debug_position F r))"
    "within F 500 (p_speedAccuracyMetersPerSecond (debug_position F r))" "within F 180 (p_bearingAccuracyDegrees (debug_position F r))"
  using bounded_within [OF assms] by (simp_all add: debug_position_def bound_position_def Let_def)

lemma time_within:
  assumes "fp_sane F"
  shows "1483228800000 \<le> t_timeEstimate (debug_time_block F r)"
    "within F 157783680000000000 (t_timeUncertaintyNs (debug_time_block F r))"
    "within F 200000 (t_frequencyUncertaintyNsPerSec (debug_time_block F r))"
  using bounded_within [OF assms] by (simp_all add: debug_time_block_def Let_def)

text \<open>The debug data that the framework gets when the GNSS interface can be loaded and the adapter has its cache: every accuracy, the
  time's and the frequency's uncertainty are positive and within the interface's limits whether or not the report has a valid position or
  time, the time is not before 2017, and each of the 134 satellites of the five constellations is there exactly once.\<close>

lemma debug_data_complete:
  assumes "fp_sane F" "mSystemStatus st = Some c" "d_satellites report = []" "fst (getGnssInterface env gnss)"
  shows "\<exists>data g'. getDebugData env F R report st (Some gnss) = (data, g') \<and>
    within F 20000000 (p_horizontalAccuracyMeters (dd_position data)) \<and> within F 20000 (p_verticalAccuracyMeters (dd_position data)) \<and>
    within F 500 (p_speedAccuracyMetersPerSecond (dd_position data)) \<and> within F 180 (p_bearingAccuracyDegrees (dd_position data)) \<and>
    1483228800000 \<le> t_timeEstimate (dd_time data) \<and> within F 157783680000000000 (t_timeUncertaintyNs (dd_time data)) \<and>
    within F 200000 (t_frequencyUncertaintyNsPerSec (dd_time data)) \<and>
    length (dd_satellites data) = 134 \<and> distinct (map (\<lambda>s. (sd_constellation s, sd_svid s)) (dd_satellites data))"
proof -
  let ?r = "snd (getDebugReport R report st)"
  obtain new where new: "d_satellites ?r = d_satellites report @ new" "length new = 134" "distinct (map (\<lambda>s. (s_constellation s, s_svid s)) new)"
    using debug_report_lists_satellites_once [OF assms(2), of R report] by blast
  have "distinct (map (\<lambda>s. (sd_constellation s, sd_svid s)) (map satellite_data (d_satellites ?r)))"
    unfolding satellite_keys new(1) assms(3) append_Nil by (rule keys_distinct [OF new(3)])
  moreover have "length (map satellite_data (d_satellites ?r)) = 134" by (simp add: new assms(3))
  moreover obtain g' where "getDebugData env F R report st (Some gnss) =
      (\<lparr>dd_position = debug_position F ?r, dd_time = debug_time_block F ?r, dd_satellites = map satellite_data (d_satellites ?r)\<rparr>, g')"
    using assms(4) by (simp add: getDebugData_def case_prod_unfold Let_def)
  ultimately show ?thesis using position_within [OF assms(1), of ?r] time_within [OF assms(1), of ?r] by simp
qed

section \<open>Examples\<close>

abbreviation (input) ex_geo_client :: geo_client where
  "ex_geo_client \<equiv> \<lparr>geoBase = client_new\<lparr>mLocationAPI := True, mGeofenceBreachCallback := Some 0\<rparr>, mGnssGeofencingCbIface = Some 9\<rparr>"

text \<open>The geofence 7 is monitored for entries only.\<close>

theorem geofence_reported_under_framework_id_witness:
  "\<exists>h'. gf_api (snd (addGeofence 7 \<lparr>gi_latitude = 48, gi_longitude = 11, gi_radius = 100\<rparr> {ENTERED} 1000 (Some [21])
        \<lparr>gf_api = Some ex_geo_client, gf_cb = Some 9\<rparr> :: int geo_out list \<times> geofencing)) = Some h' \<and>
     fst (geo_collectiveResponseCb [LOCATION_ERROR_SUCCESS] [21] h') = [GnssGeofenceAddCb 9 7 OPERATION_SUCCESS :: int geo_out] \<and>
     geo_breachCb [21] GEOFENCE_BREACH_ENTER ex_api_location 5 True h' =
       [GnssGeofenceTransitionCb 9 7 (convertGnssLocation ex_api_location) ENTERED 5] \<and>
     geo_breachCb [21] GEOFENCE_BREACH_EXIT ex_api_location 5 True h' = []"
proof -
  let ?g = "\<lparr>gf_api = Some ex_geo_client, gf_cb = Some 9\<rparr>" and ?info = "\<lparr>gi_latitude = 48, gi_longitude = 11, gi_radius = 100\<rparr> :: int GeofenceInfo"
  obtain out g' where a: "addGeofence 7 ?info {ENTERED} 1000 (Some [21]) ?g = (out :: int geo_out list, g')" by fastforce
  then obtain h' where h: "gf_api g' = Some h'"
    by (auto simp: addGeofence_def gf_call_def geofenceAdd_def locAPIAddGeofences_def Let_def)
  have q: "mQueue (mRequestQueues (geoBase ex_geo_client) REQUEST_GEOFENCE) = []" by (simp add: client_new_def)
  note r = geofence_reported_under_framework_id [OF _ _ _ _ q a h, of 9 0]
  show ?thesis using r [of LOCATION_ERROR_SUCCESS GEOFENCE_BREACH_ENTER ex_api_location 5]
      r [of LOCATION_ERROR_SUCCESS GEOFENCE_BREACH_EXIT ex_api_location 5] h a
    by (simp add: add_status_def transition_of_def)
qed

abbreviation (input) ex_debug_fp :: "nat debug_fp" where
  "ex_debug_fp \<equiv> \<lparr>not_positive = \<lambda>v. v = 0, greater = \<lambda>v k. k < int v, as_fp = nat, age_since = id, dbg_zero = 0\<rparr>"

abbreviation (input) ex_debug_report :: "nat DebugReport" where
  "ex_debug_report \<equiv> \<lparr>d_locationValid = False, d_location = no_location ex_rep_fp, d_verticalAccuracy = 0, d_speedAccuracy = 0,
     d_bearingAccuracy = 0, d_utcReported = 0, d_timeValid = False, d_timeEstimate = 0, d_timeUncertaintyNs = 0,
     d_frequencyUncertainty = 0, d_satellites = []\<rparr>"

lemma debug_data_complete_witness:
  "length (dd_satellites (fst (getDebugData ex_hal_env ex_debug_fp ex_rep_fp ex_debug_report (ex_reporter (Some ex_status)) (Some new_Gnss)))) = 134"
proof -
  have "fp_sane ex_debug_fp" by (simp add: fp_sane_def)
  moreover have "fst (getGnssInterface ex_hal_env new_Gnss)" by (simp add: getGnssInterface_def new_Gnss_def)
  moreover have "d_satellites ex_debug_report = []" by simp
  ultimately obtain data g' where "getDebugData ex_hal_env ex_debug_fp ex_rep_fp ex_debug_report (ex_reporter (Some ex_status)) (Some new_Gnss) = (data, g')"
    "length (dd_satellites data) = 134"
    using debug_data_complete [OF _ ex_status_fields(1), of ex_debug_fp ex_debug_report ex_hal_env new_Gnss ex_rep_fp] by blast
  then show ?thesis by simp
qed

end
