(* ===== verification/Recovery_Updater.thy ===== *)
theory Recovery_Updater
  imports Prelude
begin

text \<open>
  The updater function op3.verify_modem of the recovery (recovery/recovery_updater.cpp): a Boyer-Moore search for the
  time stamp in the modem's partition, and the comparison of two time stamps. A char array is a list of characters, an int
  that counts down below 0 an integer. The partition, the script's argument and the parsing of dates are arguments.
\<close>

section \<open>The tables\<close>

text \<open>strncmp (s, t, n) == 0.\<close>

fun strncmp_equal :: "string \<Rightarrow> string \<Rightarrow> nat \<Rightarrow> bool" where
  "strncmp_equal (c # s) (d # t) (Suc n) = (c = d \<and> (c = CHR 0x00 \<or> strncmp_equal s t n))"
| "strncmp_equal s t n = True"

text \<open>The loop of max_suffix_len from \<open>i\<close> on.\<close>

function suffix_len_loop :: "string \<Rightarrow> nat \<Rightarrow> nat \<Rightarrow> nat" where
  "suffix_len_loop str p i =
     (if str ! (p - i) = str ! (length str - 1 - i) \<and> i < p then suffix_len_loop str p (Suc i) else i)"
  by auto
termination by (relation "measure (\<lambda>(str, p, i). p - i)") auto

declare suffix_len_loop.simps [simp del]

definition max_suffix_len :: "string \<Rightarrow> nat \<Rightarrow> nat" where
  "max_suffix_len str p = suffix_len_loop str p 0"

definition delta1_entry :: "string \<Rightarrow> nat \<Rightarrow> nat list \<Rightarrow> nat list" where
  "delta1_entry pat i delta1 = delta1[of_char (pat ! i) := length pat - 1 - i]"

definition bm_make_delta1 :: "string \<Rightarrow> nat list" where
  "bm_make_delta1 pat = fold (delta1_entry pat) [0..<length pat - 1] (replicate 256 (length pat))"

text \<open>The first loop of bm_make_delta2, downwards; the number given is \<open>p + 1\<close>.\<close>

fun delta2_prefixes :: "string \<Rightarrow> nat \<Rightarrow> nat \<Rightarrow> nat list \<Rightarrow> nat list" where
  "delta2_prefixes pat 0 last_prefix delta2 = delta2"
| "delta2_prefixes pat (Suc p) last_prefix delta2 =
     (let last_prefix = (if strncmp_equal (drop p pat) pat (length pat - p) then p + 1 else last_prefix)
      in delta2_prefixes pat p last_prefix (delta2[p := last_prefix + (length pat - 1 - p)]))"

text \<open>One round of the second loop.\<close>

definition delta2_suffix :: "string \<Rightarrow> nat \<Rightarrow> nat list \<Rightarrow> nat list" where
  "delta2_suffix pat p delta2 =
     (let suf_len = max_suffix_len pat p
      in if pat ! (p - suf_len) \<noteq> pat ! (length pat - 1 - suf_len)
         then delta2[length pat - 1 - suf_len := length pat - 1 - p + suf_len] else delta2)"

text \<open>Every entry of the table is written by the first loop.\<close>

definition bm_make_delta2 :: "string \<Rightarrow> nat list" where
  "bm_make_delta2 pat =
     fold (delta2_suffix pat) [0..<length pat - 1]
       (delta2_prefixes pat (length pat) (length pat - 1) (replicate (length pat) 0))"

section \<open>The search\<close>

text \<open>The inner loop, with \<open>k = j + 1\<close>.\<close>

fun bm_compare :: "string \<Rightarrow> string \<Rightarrow> int \<Rightarrow> nat \<Rightarrow> int \<times> nat" where
  "bm_compare str pat i 0 = (i, 0)"
| "bm_compare str pat i (Suc j) =
     (if str ! nat i = pat ! j then bm_compare str pat (i - 1) j else (i, Suc j))"

text \<open>The outer loop may not end; \<open>n\<close> is the length of the text as an int. The result is an index into the text.\<close>

partial_function (option) bm_loop :: "string \<Rightarrow> string \<Rightarrow> nat list \<Rightarrow> nat list \<Rightarrow> int \<Rightarrow> int \<Rightarrow> nat option option" where
  "bm_loop str pat delta1 delta2 n i =
     (if i < n
      then case bm_compare str pat i (length pat) of
             (i, 0) \<Rightarrow> Some (Some (nat (i + 1)))
           | (i, Suc j) \<Rightarrow> bm_loop str pat delta1 delta2 n (i + max (int (delta1 ! of_char (str ! nat i))) (int (delta2 ! j)))
      else Some None)"

text \<open>The conversion of a size to an int of 32 bits.\<close>

definition int_of_size :: "nat \<Rightarrow> int" where
  "int_of_size n = signed_take_bit 31 (int n)"

text \<open>
  Nothing is modelled for an empty pattern: bm_make_delta1 runs out of its table, as \<open>pat_len - 1\<close> wraps around, before
  the test of \<open>pat_len\<close> is reached.
\<close>

definition bm_search :: "string \<Rightarrow> string \<Rightarrow> nat option option" where
  "bm_search str pat =
     bm_loop str pat (bm_make_delta1 pat) (bm_make_delta2 pat) (int_of_size (length str)) (int (length pat) - 1)"

section \<open>The updater function\<close>

definition MODEM_VER_STR :: string where
  "MODEM_VER_STR = ''Time_Stamp'' @ [CHR 0x22] @ '': '' @ [CHR 0x22]"

abbreviation MODEM_VER_STR_LEN :: nat where "MODEM_VER_STR_LEN \<equiv> 14"
abbreviation MODEM_VER_BUF_LEN :: nat where "MODEM_VER_BUF_LEN \<equiv> 20"

text \<open>
  What the system calls answer: the error of open, the result of lseek64 with errno, the mapped partition or the error of mmap,
  and the memory that follows the mapping.
\<close>

record modem_io =
  open_error :: "int option"
  seek_end :: int
  seek_errno :: int
  mapped :: "int + string"
  behind :: string

text \<open>The result and the version written. The text is printed up to its first NUL, ENOENT is 2.\<close>

definition get_modem_version :: "modem_io \<Rightarrow> nat \<Rightarrow> (int \<times> string) option" where
  "get_modem_version io len =
     (case open_error io of
        Some e \<Rightarrow> Some (e, [])
      | None \<Rightarrow>
          if signed_take_bit 31 (seek_end io) = -1 then Some (seek_errno io, [])
          else (case mapped io of
                  Inl e \<Rightarrow> Some (e, [])
                | Inr modem_data \<Rightarrow>
                    Option.bind (bm_search modem_data MODEM_VER_STR) (\<lambda>offset. case offset of
                        Some q \<Rightarrow> Some (0, take (len - 1) (takeWhile (\<lambda>c. c \<noteq> CHR 0x00) (drop (q + MODEM_VER_STR_LEN) (modem_data @ behind io))))
                      | None \<Rightarrow> Some (-2, []))))"

datatype updater_value = Abort_vendor int | Abort_args | StringValue string

text \<open>\<open>time_of\<close>: mktime of what strptime reads; \<open>arg\<close>: the first argument of the script, if it can be evaluated.\<close>

definition VerifyModemFn :: "modem_io \<Rightarrow> (string \<Rightarrow> int) \<Rightarrow> string option \<Rightarrow> updater_value option" where
  "VerifyModemFn io time_of arg =
     Option.bind (get_modem_version io MODEM_VER_BUF_LEN) (\<lambda>(ret, current_modem_version).
       if ret \<noteq> 0 then Some (Abort_vendor ret)
       else (case arg of
               None \<Rightarrow> Some Abort_args
             | Some modem_version \<Rightarrow>
                 let ret = (if time_of current_modem_version \<ge> time_of modem_version then 1 else 0)
                 in Some (StringValue (dec ret))))"

end
