(* ===== verification/Recovery_Updater_Props.thy ===== *)
theory Recovery_Updater_Props
  imports Recovery_Updater
begin

text \<open>
  The correctness of the search: on a pattern of which no proper beginning is also an end, such as the one of the updater, it
  always returns and agrees with the naive search; on other patterns it may miss an occurrence.
\<close>

section \<open>The reference\<close>

definition occurs_at :: "string \<Rightarrow> string \<Rightarrow> nat \<Rightarrow> bool" where
  "occurs_at str pat w \<longleftrightarrow> take (length pat) (drop w str) = pat"

text \<open>The first place where the pattern occurs.\<close>

definition first_occurrence :: "string \<Rightarrow> string \<Rightarrow> nat option" where
  "first_occurrence str pat = find (occurs_at str pat) [0..<length str]"

text \<open>No proper beginning of the pattern is also an end of it.\<close>

definition unbordered :: "string \<Rightarrow> bool" where
  "unbordered pat \<longleftrightarrow> (\<forall>s \<in> {0<..<length pat}. drop s pat \<noteq> take (length pat - s) pat)"

lemma occurs_at_iff:
  "pat \<noteq> [] \<Longrightarrow> occurs_at str pat w \<longleftrightarrow> w + length pat \<le> length str \<and> (\<forall>k < length pat. str ! (w + k) = pat ! k)"
proof (cases "w + length pat \<le> length str")
  case True
  then show ?thesis by (simp add: occurs_at_def list_eq_iff_nth_eq [of _ pat])
next
  case False
  moreover assume "pat \<noteq> []"
  ultimately have "length (take (length pat) (drop w str)) < length pat" by (cases pat) auto
  then show ?thesis using False unfolding occurs_at_def by force
qed

lemma find_none: "(\<And>w. w < n \<Longrightarrow> \<not> P w) \<Longrightarrow> find P [0..<n] = None"
  by (simp add: find_None_iff)

lemma find_first: "(\<And>v. v < w \<Longrightarrow> \<not> P v) \<Longrightarrow> P w \<Longrightarrow> w < n \<Longrightarrow> find P [0..<n] = Some w"
  unfolding find_Some_iff by (intro exI [of _ w]) simp

section \<open>The tables\<close>

lemma fold_upto_induct:
  assumes "I 0 s" "\<And>k s. k < n \<Longrightarrow> I k s \<Longrightarrow> I (Suc k) (f k s)"
  shows "I n (fold f [0..<n] s)"
  using assms(2) by (induction n) (simp_all add: assms(1))

text \<open>An entry of the first table is at most the distance of any earlier occurrence of its character from the end.\<close>

lemma delta1_bounds:
  assumes "pat \<noteq> []" "x < 256"
  shows "bm_make_delta1 pat ! x \<le> length pat \<and>
    (\<forall>k < length pat - 1. of_char (pat ! k) = x \<longrightarrow> bm_make_delta1 pat ! x \<le> length pat - 1 - k)"
proof -
  define I where "I b d \<longleftrightarrow> length d = 256 \<and> (\<forall>y < 256. d ! y \<le> length pat) \<and>
    (\<forall>k < b. \<forall>y < 256. of_char (pat ! k) = y \<longrightarrow> d ! y \<le> length pat - 1 - k)" for b and d :: "nat list"
  have "I (length pat - 1) (bm_make_delta1 pat)"
    unfolding bm_make_delta1_def
  proof (rule fold_upto_induct)
    show "I 0 (replicate 256 (length pat))" by (simp add: I_def)
  next
    fix k d assume "k < length pat - 1" "I k d"
    then show "I (Suc k) (delta1_entry pat k d)"
      by (auto simp: I_def delta1_entry_def nth_list_update less_Suc_eq)
  qed
  then show ?thesis using assms(2) by (auto simp: I_def)
qed

lemma strncmp_equal_refl: "strncmp_equal s s n"
proof (induction s arbitrary: n)
  case (Cons c s)
  then show ?case by (cases n) simp_all
qed simp

text \<open>The prefix loop leaves shifts between 1 and the length of the pattern.\<close>

definition shift_range :: "string \<Rightarrow> nat \<Rightarrow> nat \<Rightarrow> bool" where
  "shift_range pat j v \<longleftrightarrow> length pat - j \<le> v \<and> v \<le> 2 * length pat - 1 - j"

lemma prefixes_range:
  assumes "p \<le> length pat" "length d = length pat" "lp \<le> length pat" "1 < length pat \<longrightarrow> 1 \<le> lp"
    and "\<And>j. p \<le> j \<Longrightarrow> j < length pat \<Longrightarrow> shift_range pat j (d ! j)"
  shows "length (delta2_prefixes pat p lp d) = length pat \<and>
    (\<forall>j < length pat. shift_range pat j (delta2_prefixes pat p lp d ! j))"
  using assms
proof (induction p arbitrary: lp d)
  case (Suc p)
  let ?lp = "if strncmp_equal (drop p pat) pat (length pat - p) then p + 1 else lp"
  have "1 \<le> ?lp"
  proof (cases "length pat = 1")
    case True
    then have "p = 0" using Suc.prems(1) by simp
    then show ?thesis by (simp add: strncmp_equal_refl)
  next
    case False
    then have "1 < length pat" using Suc.prems(1) by simp
    then show ?thesis using Suc.prems(4) by simp
  qed
  moreover have "?lp \<le> length pat" using Suc.prems(1,3) by simp
  moreover have "shift_range pat j (d[p := ?lp + (length pat - 1 - p)] ! j)" if "p \<le> j" "j < length pat" for j
  proof (cases "j = p")
    case True
    then show ?thesis using that Suc.prems(1,2) calculation by (auto simp: shift_range_def simp del: if_split)
  next
    case False
    then show ?thesis using that Suc.prems(5) [of j] by simp
  qed
  ultimately show ?case
    using Suc.IH [of "d[p := ?lp + (length pat - 1 - p)]" ?lp] Suc.prems(1,2) by (simp add: Let_def)
qed simp

lemma suffix_len_exact:
  assumes "\<And>k. i \<le> k \<Longrightarrow> k < u \<Longrightarrow> str ! (p - k) = str ! (length str - 1 - k)" "i \<le> u" "u \<le> p"
    and "str ! (p - u) \<noteq> str ! (length str - 1 - u)"
  shows "suffix_len_loop str p i = u"
  using assms
proof (induction "u - i" arbitrary: i)
  case 0
  then have "i = u" by simp
  then show ?case using 0 by (simp add: suffix_len_loop.simps [of str p u])
next
  case (Suc n)
  then have "i < u" by simp
  then show ?case using Suc.hyps(1) [of "Suc i"] Suc.prems Suc.hyps(2) by (simp add: suffix_len_loop.simps [of str p i])
qed

lemma suffix_len_le: "i \<le> p \<Longrightarrow> suffix_len_loop str p i \<le> p"
  by (induction str p i rule: suffix_len_loop.induct) (simp add: suffix_len_loop.simps)

text \<open>The second table: shifts in range, and none beyond the nearest earlier copy of the end that continues differently.\<close>

lemma delta2_bounds:
  assumes "j < length pat"
  shows "shift_range pat j (bm_make_delta2 pat ! j) \<and>
    (\<forall>p < length pat - 1. max_suffix_len pat p = length pat - 1 - j \<and> pat ! (p - (length pat - 1 - j)) \<noteq> pat ! j \<longrightarrow>
      bm_make_delta2 pat ! j \<le> (length pat - 1 - p) + (length pat - 1 - j))"
proof -
  let ?m = "length pat"
  define I where "I b d \<longleftrightarrow> length d = ?m \<and> (\<forall>j < ?m. shift_range pat j (d ! j)) \<and>
    (\<forall>p < b. \<forall>j < ?m. max_suffix_len pat p = ?m - 1 - j \<and> pat ! (p - (?m - 1 - j)) \<noteq> pat ! j \<longrightarrow>
      d ! j \<le> (?m - 1 - p) + (?m - 1 - j))" for b and d :: "nat list"
  have "I (?m - 1) (bm_make_delta2 pat)"
    unfolding bm_make_delta2_def
  proof (rule fold_upto_induct)
    show "I 0 (delta2_prefixes pat ?m (?m - 1) (replicate ?m 0))"
      using prefixes_range [of ?m pat "replicate ?m 0" "?m - 1", OF order_refl length_replicate diff_le_self]
      by (simp add: I_def le_diff_conv2)
  next
    fix p d assume p: "p < ?m - 1" and d: "I p d"
    let ?s = "max_suffix_len pat p"
    have s: "?s \<le> p" by (simp add: max_suffix_len_def suffix_len_le)
    have j: "j = ?m - 1 - ?s" if "j < ?m" "?s = ?m - 1 - j" for j using that by simp
    show "I (Suc p) (delta2_suffix pat p d)"
    proof (cases "pat ! (p - ?s) = pat ! (?m - 1 - ?s)")
      case True
      then have "delta2_suffix pat p d = d" by (simp add: delta2_suffix_def Let_def)
      moreover have "\<not> (?s = ?m - 1 - j \<and> pat ! (p - (?m - 1 - j)) \<noteq> pat ! j)" if "j < ?m" for j
        using True j [OF that] by auto
      ultimately show ?thesis using d by (auto simp: I_def less_Suc_eq)
    next
      case False
      then have e: "delta2_suffix pat p d = d[?m - 1 - ?s := ?m - 1 - p + ?s]" by (simp add: delta2_suffix_def Let_def)
      have "shift_range pat j (d[?m - 1 - ?s := ?m - 1 - p + ?s] ! j)" if "j < ?m" for j
        using that d p s by (cases "j = ?m - 1 - ?s") (auto simp: I_def shift_range_def)
      moreover have "d[?m - 1 - ?s := ?m - 1 - p + ?s] ! j \<le> (?m - 1 - q) + (?m - 1 - j)"
        if "q < Suc p" "j < ?m" "max_suffix_len pat q = ?m - 1 - j" "pat ! (q - (?m - 1 - j)) \<noteq> pat ! j" for q j
      proof (cases "j = ?m - 1 - ?s")
        case True
        then show ?thesis using that(1,2) d p s by (simp add: I_def)
      next
        case False
        then have "q \<noteq> p" using j [OF that(2)] that(3) by blast
        then show ?thesis using False that d by (simp add: I_def)
      qed
      ultimately show ?thesis using d unfolding e I_def by simp
    qed
  qed
  then show ?thesis using assms by (simp add: I_def)
qed

section \<open>The search\<close>

text \<open>What the comparison from the right finds out.\<close>

lemma compare_result:
  "bm_compare str pat (int (w + k) - 1) k = (i, j) \<Longrightarrow>
   i = int (w + j) - 1 \<and> j \<le> k \<and> (\<forall>q. j \<le> q \<and> q < k \<longrightarrow> str ! (w + q) = pat ! q) \<and>
   (j \<noteq> 0 \<longrightarrow> str ! (w + j - 1) \<noteq> pat ! (j - 1))"
proof (induction k)
  case (Suc k)
  have n: "nat (int (w + Suc k) - 1) = w + k" "int (w + Suc k) - 1 - 1 = int (w + k) - 1" by simp_all
  show ?case
  proof (cases "str ! (w + k) = pat ! k")
    case True
    then show ?thesis using Suc.IH Suc.prems n by (auto simp: less_Suc_eq)
  next
    case False
    then show ?thesis using Suc.prems n by auto
  qed
qed simp

text \<open>After a mismatch at \<open>j\<close> of the window at \<open>w\<close>, the pattern does not occur at the windows that are skipped.\<close>

lemma no_occurrence_skipped:
  assumes "unbordered pat" "j < length pat" "w + length pat \<le> length str"
    and "\<And>q. j < q \<Longrightarrow> q < length pat \<Longrightarrow> str ! (w + q) = pat ! q" "str ! (w + j) \<noteq> pat ! j"
    and "0 < s" "length pat - 1 - j + s < max (bm_make_delta1 pat ! of_char (str ! (w + j))) (bm_make_delta2 pat ! j)"
  shows "\<not> occurs_at str pat (w + s)"
proof
  let ?m = "length pat" and ?c = "str ! (w + j)"
  assume "occurs_at str pat (w + s)"
  have ne: "pat \<noteq> []" using assms(2) by auto
  with \<open>occurs_at str pat (w + s)\<close> have occ: "str ! (w + s + k) = pat ! k" if "k < ?m" for k
    using that by (simp add: occurs_at_iff)
  have c256: "of_char ?c < (256 :: nat)" by (rule nat_of_char_less_256)
  show False
  proof (cases "?m - 1 - j + s < bm_make_delta1 pat ! of_char ?c")
    case True
    then have "s \<le> j" using delta1_bounds [OF ne c256] assms(2) by linarith
    then have k: "pat ! (j - s) = ?c" "j - s < ?m - 1" using occ [of "j - s"] assms(2,6) by auto
    then have "bm_make_delta1 pat ! of_char ?c \<le> ?m - 1 - (j - s)" using delta1_bounds [OF ne c256] by metis
    then show False using True \<open>s \<le> j\<close> assms(2) by linarith
  next
    case False
    then have d: "?m - 1 - j + s < bm_make_delta2 pat ! j" using assms(7) by linarith
    have "s < ?m" using d delta2_bounds [OF assms(2)] assms(2) unfolding shift_range_def by linarith
    show False
    proof (cases "s \<le> j")
      case True
      let ?p = "?m - 1 - s" and ?u = "?m - 1 - j"
      have u: "?u \<le> ?p" "?p - ?u = j - s" "?p < ?m - 1" "?m - 1 - ?p = s" "?m - 1 - ?u = j"
        using True assms(2,6) \<open>s < ?m\<close> by auto
      have "pat ! (j - s) \<noteq> pat ! j" using occ [of "j - s"] True assms(2,5) by simp
      then have diff: "pat ! (?p - ?u) \<noteq> pat ! j" unfolding u .
      have "max_suffix_len pat ?p = ?u"
        unfolding max_suffix_len_def
      proof (rule suffix_len_exact)
        fix k assume "k < ?u"
        then have "?p - k < ?m" "w + s + (?p - k) = w + (?m - 1 - k)" "j < ?m - 1 - k" "?m - 1 - k < ?m" using True \<open>s < ?m\<close> by auto
        then show "pat ! (?p - k) = pat ! (?m - 1 - k)" using occ [of "?p - k"] assms(4) [of "?m - 1 - k"] by metis
      qed (use u diff in auto)
      then have "bm_make_delta2 pat ! j \<le> (?m - 1 - ?p) + ?u" using delta2_bounds [OF assms(2)] u(3) diff by blast
      then show False using d u(4) by linarith
    next
      case False
      have "drop s pat = take (?m - s) pat"
      proof (rule nth_equalityI)
        fix k assume "k < length (drop s pat)"
        then show "drop s pat ! k = take (?m - s) pat ! k"
          using occ [of k] assms(4) [of "s + k"] False by (simp add: add.assoc)
      qed simp
      then show False using assms(1,6) \<open>s < ?m\<close> by (simp add: unbordered_def)
    qed
  qed
qed

text \<open>The loop, from the window at \<open>w\<close> on.\<close>

lemma bm_loop_exact:
  assumes "pat \<noteq> []" "unbordered pat" "\<And>v. v < w \<Longrightarrow> \<not> occurs_at str pat v"
  shows "bm_loop str pat (bm_make_delta1 pat) (bm_make_delta2 pat) (int (length str)) (int (w + length pat) - 1) =
    Some (first_occurrence str pat)"
  using assms(3)
proof (induction "length str - w" arbitrary: w rule: less_induct)
  case less
  let ?m = "length pat" and ?n = "length str"
  let ?loop = "bm_loop str pat (bm_make_delta1 pat) (bm_make_delta2 pat) (int ?n)"
  show ?case
  proof (cases "w + ?m \<le> ?n")
    case False
    then have "\<not> occurs_at str pat v" for v using less.prems by (cases "v < w") (auto simp: occurs_at_iff [OF assms(1)])
    then have "first_occurrence str pat = None" by (simp add: first_occurrence_def find_none)
    then show ?thesis using False by (simp add: bm_loop.simps)
  next
    case True
    then have lt: "int (w + ?m) - 1 < int ?n" by simp
    obtain i k where ik: "bm_compare str pat (int (w + ?m) - 1) ?m = (i, k)" by fastforce
    note r = compare_result [OF ik]
    show ?thesis
    proof (cases k)
      case 0
      then have "occurs_at str pat w" using r True by (simp add: occurs_at_iff [OF assms(1)])
      moreover have "w < ?n" using True assms(1) by (cases pat) auto
      ultimately have "first_occurrence str pat = Some w"
        unfolding first_occurrence_def using less.prems by (intro find_first) auto
      then show ?thesis using lt ik r 0 by (simp add: bm_loop.simps)
    next
      case (Suc j)
      let ?d = "max (bm_make_delta1 pat ! of_char (str ! (w + j))) (bm_make_delta2 pat ! j)"
      have j: "j < ?m" "i = int (w + j)" using r Suc by auto
      have shift: "?m - j \<le> ?d" using delta2_bounds [OF j(1)] by (simp add: shift_range_def le_max_iff_disj)
      let ?w = "w + (?d - (?m - 1 - j))"
      have "\<not> occurs_at str pat v" if "v < ?w" for v
      proof (cases "v < w")
        case True
        then show ?thesis by (rule less.prems)
      next
        case False
        then consider "v = w" | "w < v" by linarith
        then show ?thesis
        proof cases
          case 1
          then show ?thesis using r Suc j(1) by (auto simp: occurs_at_iff [OF assms(1)])
        next
          case 2
          have "\<not> occurs_at str pat (w + (v - w))"
          proof (rule no_occurrence_skipped [OF assms(2) j(1) True])
            show "?m - 1 - j + (v - w) < ?d" using that 2 by linarith
          qed (use r Suc 2 in auto)
          then show ?thesis using 2 by simp
        qed
      qed
      moreover have "?n - ?w < ?n - w" using shift True j(1) by linarith
      ultimately have ih: "?loop (int (?w + ?m) - 1) = Some (first_occurrence str pat)" using less.hyps by blast
      have e: "nat i = w + j" using j(2) by (simp only: nat_int)
      have target: "i + max (int (bm_make_delta1 pat ! of_char (str ! nat i))) (int (bm_make_delta2 pat ! j)) = int (?w + ?m) - 1"
        unfolding e using j shift by (simp add: of_nat_max [symmetric] of_nat_diff del: of_nat_max)
      have "?loop (int (w + ?m) - 1) =
          ?loop (i + max (int (bm_make_delta1 pat ! of_char (str ! nat i))) (int (bm_make_delta2 pat ! j)))"
        by (subst bm_loop.simps) (simp only: lt ik Suc if_True prod.case nat.case)
      then show ?thesis unfolding target ih .
    qed
  qed
qed

lemma bm_exact:
  assumes "pat \<noteq> []" "unbordered pat" "length str + 2 * length pat \<le> 2 ^ 31"
  shows "bm_search str pat = Some (first_occurrence str pat)"
proof -
  have "length str < 2147483648" using assms(1,3) by (cases pat) simp_all
  then have "int (length str) < 2 ^ 31" by simp
  then have "int_of_size (length str) = int (length str)" by (simp add: int_of_size_def signed_take_bit_int_eq_self)
  then show ?thesis using bm_loop_exact [OF assms(1,2), of 0 str] by (simp add: bm_search_def)
qed


lemma modem_pattern: "unbordered MODEM_VER_STR" "MODEM_VER_STR \<noteq> []" "length MODEM_VER_STR = 14"
  by code_simp+


text \<open>
  Where a proper beginning is also an end the prefix loop, which tests \<open>pat + p\<close> but stores \<open>p + 1\<close>, shifts one place too far.
\<close>

lemma bordered_pattern_missed: "bm_search ''xxaba'' ''aba'' = Some None \<and> occurs_at ''xxaba'' ''aba'' 2"
proof -
  have d: "bm_make_delta1 ''aba'' ! 120 = 3" "bm_make_delta2 ''aba'' ! 1 = 4" "int_of_size (length ''xxaba'') = 5" "int (length ''aba'') - 1 = 2"
    by code_simp+
  have "bm_compare ''xxaba'' ''aba'' 2 3 = (1, Suc 1)" "(of_char (''xxaba'' ! 1) :: nat) = 120" by code_simp+
  then have "bm_loop ''xxaba'' ''aba'' (bm_make_delta1 ''aba'') (bm_make_delta2 ''aba'') 5 2 = Some None"
    using d by (simp add: bm_loop.simps [of _ _ _ _ _ 2] bm_loop.simps [of _ _ _ _ _ 5])
  then have "bm_search ''xxaba'' ''aba'' = Some None" unfolding bm_search_def d(3,4) .
  then show ?thesis by (simp add: occurs_at_def)
qed

section \<open>The updater function\<close>

text \<open>The version that is compared: up to 19 characters behind the first time stamp.\<close>

definition stamp_at :: "modem_io \<Rightarrow> string \<Rightarrow> nat \<Rightarrow> string" where
  "stamp_at io data q = take 19 (takeWhile (\<lambda>c. c \<noteq> CHR 0x00) (drop (q + 14) (data @ behind io)))"

lemma dec_bit: "dec 0 = ''0''" "dec 1 = ''1''"
  by code_simp+

text \<open>When the partition can be read, the function always returns; the script goes on with 1 exactly if the first time stamp of the
  partition is not older than the one given, and is aborted if there is none.\<close>

lemma verify_modem_uses_first_stamp:
  assumes "open_error io = None" "signed_take_bit 31 (seek_end io) \<noteq> -1" "mapped io = Inr data" "length data + 28 \<le> 2 ^ 31"
  shows "VerifyModemFn io time_of (Some v) = Some (case first_occurrence data MODEM_VER_STR of
      None \<Rightarrow> Abort_vendor (-2)
    | Some q \<Rightarrow> StringValue (if time_of v \<le> time_of (stamp_at io data q) then ''1'' else ''0''))"
proof -
  have "bm_search data MODEM_VER_STR = Some (first_occurrence data MODEM_VER_STR)"
    by (rule bm_exact [OF modem_pattern(2,1)]) (use assms(4) in \<open>simp add: modem_pattern\<close>)
  then show ?thesis
    using assms(1-3) by (simp add: VerifyModemFn_def get_modem_version_def stamp_at_def dec_bit Let_def del: drop_append One_nat_def split: option.split)
qed

end
