(* ===== verification/Loc_Ipc.thy ===== *)
theory Loc_Ipc
  imports Prelude
begin

text \<open>
  Messages between processes over a local datagram socket (gps/utils/LocIpc.cpp). A datagram is a string of bytes; what
  the socket calls answer are arguments. A long message is announced by a datagram with its length and follows in parts. The
  buffer of the receiver is modelled with its contents, because resize keeps what an earlier message left there.
\<close>

section \<open>Sending\<close>

definition LOC_MSG_BUF_LEN :: nat where
  "LOC_MSG_BUF_LEN = 8192"

definition LOC_MSG_HEAD :: string where
  "LOC_MSG_HEAD = ''$MSGLEN$''"

definition LOC_MSG_ABORT :: string where
  "LOC_MSG_ABORT = ''LocIpcMsg::ABORT''"

text \<open>
  The loop over the parts: \<open>fails k\<close> says that the k-th call of sendto fails; otherwise it sends the whole datagram. The result
  says whether all was sent, with the datagrams sent.
\<close>

function send_parts :: "(nat \<Rightarrow> bool) \<Rightarrow> nat \<Rightarrow> string \<Rightarrow> nat \<Rightarrow> bool \<times> string list" where
  "send_parts fails k data sentBytes =
     (if sentBytes < length data
      then let partLen = length data - sentBytes;
               partLen = (if partLen > LOC_MSG_BUF_LEN then LOC_MSG_BUF_LEN else partLen)
           in if fails k then (False, [])
              else let (result, sent) = send_parts fails (Suc k) data (sentBytes + partLen)
                   in (result, take partLen (drop sentBytes data) # sent)
      else (True, []))"
  by auto
termination by (relation "measure (\<lambda>(fails, k, data, sentBytes). length data - sentBytes)") (auto simp: LOC_MSG_BUF_LEN_def)

declare send_parts.simps [simp del]

definition sendData :: "(nat \<Rightarrow> bool) \<Rightarrow> string \<Rightarrow> bool \<times> string list" where
  "sendData fails data =
     (if length data \<le> LOC_MSG_BUF_LEN then (if fails 0 then (False, []) else (True, [data]))
      else if fails 0 then (False, [])
      else let (result, sent) = send_parts fails 1 data 0 in (result, (LOC_MSG_HEAD @ dec (length data)) # sent))"

text \<open>The socket of the sender may not be created; the length is passed on as 32 bits.\<close>

definition ipc_send :: "bool \<Rightarrow> (nat \<Rightarrow> bool) \<Rightarrow> string \<Rightarrow> bool \<times> string list" where
  "ipc_send created fails data = (if created then sendData fails (take (take_bit 32 (length data)) data) else (False, []))"

section \<open>Receiving\<close>

text \<open>What recvfrom answers.\<close>

datatype received = Datagram string | Recv_error

definition resize :: "nat \<Rightarrow> string \<Rightarrow> string" where
  "resize n msg = take n msg @ replicate (n - length msg) (CHR 0x00)"

text \<open>A datagram of which at most \<open>cap\<close> bytes are written to the buffer at \<open>q\<close>; the result is the number of bytes.\<close>

definition recv_into :: "nat \<Rightarrow> nat \<Rightarrow> string \<Rightarrow> string \<Rightarrow> nat \<times> string" where
  "recv_into q cap d msg = (let n = min cap (length d) in (n, take q msg @ take n d @ drop (q + n) msg))"

text \<open>The number that sscanf reads with \<open>%zu\<close>: 0, the initial value, if there is none; a number too large is the largest.\<close>

definition scan_digit :: "char \<Rightarrow> bool" where
  "scan_digit c \<longleftrightarrow> 48 \<le> (of_char c :: nat) \<and> (of_char c :: nat) \<le> 57"

definition digits_value :: "string \<Rightarrow> nat" where
  "digits_value s = foldl (\<lambda>n c. 10 * n + (of_char c - 48)) 0 s"

definition scan_size :: "string \<Rightarrow> nat" where
  "scan_size s =
     (let s = dropWhile (\<lambda>c. of_char c \<in> {9, 10, 11, 12, 13, 32 :: nat}) s;
          negative = (s \<noteq> [] \<and> hd s = CHR ''-'');
          s = (if s \<noteq> [] \<and> hd s \<in> {CHR ''-'', CHR ''+''} then tl s else s);
          v = digits_value (takeWhile scan_digit s)
      in if v \<ge> 2 ^ 64 then 2 ^ 64 - 1 else if negative then nat ((- int v) mod 2 ^ 64) else v)"

text \<open>
  The loop over the parts of a long message: \<open>n\<close> is what the last call returned, -1 for an error, which is also added to the
  size_t that counts the bytes. The result is the last \<open>n\<close>, the buffer and what is still to be received; None: it waits.
\<close>

fun recv_parts :: "received list \<Rightarrow> string \<Rightarrow> nat \<Rightarrow> int \<Rightarrow> (int \<times> string \<times> received list) option" where
  "recv_parts rs msg msgLenReceived n =
     (if msgLenReceived < length msg \<and> n > 0
      then case rs of
             [] \<Rightarrow> None
           | Recv_error # rs \<Rightarrow> Some (-1, msg, rs)
           | Datagram d # rs \<Rightarrow>
               let (n, msg) = recv_into msgLenReceived (length msg - msgLenReceived) d msg
               in recv_parts rs msg (msgLenReceived + n) (int n)
      else Some (n, msg, rs))"

declare recv_parts.simps [simp del]

lemma recv_parts_rest: "recv_parts rs msg q n = Some (n', msg', rs') \<Longrightarrow> length rs' \<le> length rs"
proof (induction rs arbitrary: msg q n)
  case Nil
  then show ?case by (simp add: recv_parts.simps [of "[]"] split: if_splits)
next
  case (Cons r rs)
  then show ?case
    using recv_parts.simps [of "r # rs" msg q n]
    by (auto simp: case_prod_unfold Let_def le_SucI split: if_splits received.splits)
qed

text \<open>
  How listening goes on: the messages given to onReceive, then the result of the function, None while it waits; the memory
  for a message may be refused, which ends the process.
\<close>

datatype ending = Waiting | Stopped bool | Out_of_memory

text \<open>Each datagram is written over the contents of the buffer of the last message; strncmp and sscanf see all of it.\<close>

function listen_loop :: "(nat \<Rightarrow> bool) \<Rightarrow> received list \<Rightarrow> string \<Rightarrow> string list \<times> ending" where
  "listen_loop alloc [] msg = ([], Waiting)"
| "listen_loop alloc (Recv_error # rs) msg = ([], Stopped False)"
| "listen_loop alloc (Datagram d # rs) msg =
     (let (n, msg) = recv_into 0 LOC_MSG_BUF_LEN d (resize LOC_MSG_BUF_LEN msg)
      in if n = 0 then listen_loop alloc rs msg
         else if take (length LOC_MSG_ABORT) msg = LOC_MSG_ABORT then ([], Stopped True)
         else if take (length LOC_MSG_HEAD) msg \<noteq> LOC_MSG_HEAD
         then let msg = resize n msg; (out, e) = listen_loop alloc rs msg in (msg # out, e)
         else let msgLen = scan_size (takeWhile (\<lambda>c. c \<noteq> CHR 0x00) (drop (length LOC_MSG_HEAD) msg))
              in if \<not> alloc msgLen then ([], Out_of_memory)
                 else case recv_parts rs (resize msgLen msg) 0 (int n) of
                        None \<Rightarrow> ([], Waiting)
                      | Some (n, msg, rs') \<Rightarrow>
                          if n > 0 then (let (out, e) = listen_loop alloc rs' msg in (msg # out, e))
                          else ([], Stopped False))"
  by pat_completeness auto
termination by (relation "measure (\<lambda>(alloc, rs, msg). length rs)") (auto dest!: sym [of "Some _"] recv_parts_rest)

declare listen_loop.simps(3) [simp del]

text \<open>The socket may not be created or bound.\<close>

definition startListeningBlocking :: "(nat \<Rightarrow> bool) \<Rightarrow> bool \<Rightarrow> bool \<Rightarrow> received list \<Rightarrow> string list \<times> ending" where
  "startListeningBlocking alloc created bound rs =
     (if \<not> created \<or> \<not> bound then ([], Stopped False) else listen_loop alloc rs [])"

end
