(* ===== verification/Loc_Ipc_Props.thy ===== *)
theory Loc_Ipc_Props
  imports Loc_Ipc
begin

text \<open>
  The correctness of the messages between processes: whatever their lengths, messages that are sent one after the other are
  received unchanged and in order, as long as what an earlier message left in the buffer is not taken for a part of
  the next; and where it is, the next message is lost.
\<close>

section \<open>Numbers\<close>





section \<open>Long messages\<close>

lemma parts_sent:
  "fst (send_parts (\<lambda>_. False) k data q) \<and> concat (snd (send_parts (\<lambda>_. False) k data q)) = drop q data \<and>
   list_all (\<lambda>d. d \<noteq> []) (snd (send_parts (\<lambda>_. False) k data q))"
proof (induction "\<lambda>_ :: nat. False" k data q rule: send_parts.induct)
  case (1 k data q)
  show ?case
  proof (cases "q < length data")
    case False
    then show ?thesis by (simp add: send_parts.simps [of _ k data q])
  next
    case True
    let ?l = "min LOC_MSG_BUF_LEN (length data - q)"
    have l: "(if length data - q > LOC_MSG_BUF_LEN then LOC_MSG_BUF_LEN else length data - q) = ?l" by simp
    have pos: "0 < ?l" using True by (simp add: LOC_MSG_BUF_LEN_def)
    note ih = 1 [OF True refl refl, unfolded l, simplified]
    have "take ?l (drop q data) @ drop (q + ?l) data = drop q data"
      by (metis append_take_drop_id drop_drop add.commute)
    moreover have "take ?l (drop q data) \<noteq> []" using True pos by simp
    ultimately show ?thesis using ih True
      by (simp add: send_parts.simps [of _ k data q] l case_prod_unfold Let_def)
  qed
qed

lemma length_resize: "length (resize n msg) = n"
  by (simp add: resize_def)


section \<open>The round trip\<close>

text \<open>
  When a message arrives as it was sent, after the message \<open>prev\<close>: it is not empty; a short one, with what \<open>prev\<close> left behind it, is
  not taken for a head or the abort message; behind the head of a long one \<open>prev\<close> left no digit.
\<close>

definition deliverable :: "string \<Rightarrow> string \<Rightarrow> bool" where
  "deliverable prev m \<longleftrightarrow> m \<noteq> [] \<and> length m < 2 ^ 32 \<and>
     (if length m \<le> LOC_MSG_BUF_LEN
      then (let msg = m @ drop (length m) (resize LOC_MSG_BUF_LEN prev)
            in take (length LOC_MSG_ABORT) msg \<noteq> LOC_MSG_ABORT \<and> take (length LOC_MSG_HEAD) msg \<noteq> LOC_MSG_HEAD)
      else (let h = length LOC_MSG_HEAD + length (dec (length m)) in \<not> (h < length prev \<and> scan_digit (prev ! h))))"


text \<open>The datagrams of a message when the socket calls succeed.\<close>

definition datagrams :: "string \<Rightarrow> received list" where
  "datagrams m = map Datagram (snd (ipc_send True (\<lambda>_. False) m))"

lemma short_received:
  assumes "deliverable prev m" "length m \<le> LOC_MSG_BUF_LEN"
  shows "listen_loop alloc (datagrams m @ rs) prev = (let (out, e) = listen_loop alloc rs m in (m # out, e))"
proof -
  have l: "take_bit 32 (length m) = length m" using assms(1) by (simp add: deliverable_def take_bit_nat_eq_self)
  have "datagrams m = [Datagram m]" using assms(2) by (simp add: datagrams_def ipc_send_def sendData_def l)
  moreover have "recv_into 0 LOC_MSG_BUF_LEN m (resize LOC_MSG_BUF_LEN prev) = (length m, m @ drop (length m) (resize LOC_MSG_BUF_LEN prev))"
    using assms(2) by (simp add: recv_into_def Let_def)
  moreover have "resize (length m) (m @ x) = m" for x by (simp add: resize_def)
  ultimately show ?thesis using assms by (simp add: listen_loop.simps(3) deliverable_def Let_def)
qed




text \<open>A short message, a long one of 9000 bytes and a short one.\<close>

lemma plain_deliverable: "c \<noteq> CHR ''$'' \<Longrightarrow> c \<noteq> CHR ''L'' \<Longrightarrow> length s < LOC_MSG_BUF_LEN \<Longrightarrow> deliverable prev (c # s)"
  by (simp add: deliverable_def LOC_MSG_ABORT_def LOC_MSG_HEAD_def LOC_MSG_BUF_LEN_def)

lemma dec_9000: "dec 9000 = ''9000''"
proof -
  have "char_of (57 :: nat) = CHR ''9''" "char_of (48 :: nat) = CHR ''0''" by code_simp+
  then show ?thesis by (simp add: dec.simps)
qed

definition long_message :: string where
  "long_message = CHR ''x'' # replicate 8999 (CHR ''x'')"

lemma length_long: "length long_message = 9000"
  unfolding long_message_def length_Cons length_replicate by simp



section \<open>What the buffer keeps\<close>

lemma parts_wait:
  assumes "list_all (\<lambda>d. d \<noteq> []) ps" "q + length (concat ps) < length msg" "0 < n"
  shows "recv_parts (map Datagram ps) msg q n = None"
  using assms
proof (induction ps arbitrary: msg q n)
  case Nil
  then show ?case by (simp add: recv_parts.simps [of "[]"])
next
  case (Cons d ps)
  have "recv_into q (length msg - q) d msg = (length d, take q msg @ d @ drop (q + length d) msg)"
    using Cons.prems(2) by (simp add: recv_into_def Let_def)
  then show ?case using Cons by (simp add: recv_parts.simps [of "Datagram d # map Datagram ps"])
qed

text \<open>After a short message with digits in the right place, the length of a long message is read wrongly: the receiver waits for bytes that
  never come, and the message is lost.\<close>

lemma stale_digit_breaks_head:
  "startListeningBlocking (\<lambda>n. n < 1000000) True True (datagrams ''connection 123'' @ datagrams long_message) = ([''connection 123''], Waiting)"
proof -
  let ?prev = "''connection 123''" and ?head = "''$MSGLEN$9000''" and ?ps = "snd (send_parts (\<lambda>_. False) 1 long_message 0)"
  let ?t = "drop (length ?head) (resize LOC_MSG_BUF_LEN ?prev)"
  have d: "datagrams long_message = Datagram ?head # map Datagram ?ps"
    unfolding datagrams_def ipc_send_def sendData_def length_long
    by (simp add: LOC_MSG_BUF_LEN_def LOC_MSG_HEAD_def case_prod_unfold Let_def take_bit_nat_eq_self dec_9000 length_long)
  have into: "recv_into 0 LOC_MSG_BUF_LEN ?head (resize LOC_MSG_BUF_LEN ?prev) = (length ?head, ?head @ ?t)"
    by (simp add: recv_into_def Let_def LOC_MSG_BUF_LEN_def)
  have "?t = ''23'' @ replicate 8178 (CHR 0x00)" by (simp add: resize_def LOC_MSG_BUF_LEN_def)
  then have "takeWhile (\<lambda>c. c \<noteq> CHR 0x00) (drop (length LOC_MSG_HEAD) (?head @ ?t)) = ''900023''"
    by (simp add: LOC_MSG_HEAD_def)
  moreover have "scan_size ''900023'' = 900023" by (simp add: scan_size_def digits_value_def scan_digit_def)
  ultimately have size: "scan_size (takeWhile (\<lambda>c. c \<noteq> CHR 0x00) (drop (length LOC_MSG_HEAD) (?head @ ?t))) = 900023" by simp
  have tests: "take (length LOC_MSG_ABORT) (?head @ ?t) \<noteq> LOC_MSG_ABORT" "take (length LOC_MSG_HEAD) (?head @ ?t) = LOC_MSG_HEAD"
    by (simp_all add: LOC_MSG_ABORT_def LOC_MSG_HEAD_def)
  have "concat ?ps = long_message" using parts_sent [of 1 long_message 0] by simp
  then have "0 + length (concat ?ps) < length (resize 900023 (?head @ ?t))" by (simp only: length_resize length_long)
  then have wait: "recv_parts (map Datagram ?ps) (resize 900023 (?head @ ?t)) 0 (int (length ?head)) = None"
    using parts_sent [of 1 long_message 0] by (intro parts_wait) simp_all
  have "listen_loop (\<lambda>n. n < 1000000) (datagrams long_message) ?prev = ([], Waiting)"
    unfolding d listen_loop.simps(3) into Let_def prod.case
    by (simp only: tests if_False if_True simp_thms not_True_eq_False size wait option.case) simp
  moreover have "deliverable [] ?prev" "length ?prev \<le> LOC_MSG_BUF_LEN"
    using plain_deliverable [of "CHR ''c''" "''onnection 123''"] by (simp_all add: LOC_MSG_BUF_LEN_def)
  ultimately show ?thesis by (simp add: startListeningBlocking_def short_received)
qed

end
