(* ===== verification/Xtra_Observer.thy ===== *)
theory Xtra_Observer
  imports System_Status Loc_Cfg Gnss_Hal
begin

text \<open>
  What tells the XTRA daemon the state of the network: the observer of gps/gnss/XtraSystemStatusObserver.cpp, which remembers the last
  values and sends them as text over the local socket once the daemon has asked, and the HAL's entry for the state of
  the network (android/AGnssRil.cpp), which reaches the system status through gps/gnss/location_gnss.cpp. What LocIpc::send
  returns, and whether a data item can be created, are arguments.
\<close>

section \<open>The observer\<close>

datatype observed_id = NETWORKINFO_ID | MCCMNC_ID | TAC_ID

datatype xtra_out =
    To_xtra string
  | Subscribe_items "observed_id list"
  | Request_items "observed_id list"
  | Unsubscribe_items "observed_id list"
  | Start_listening
  | Stop_listening
  | Start_delay nat
  | Connect_backhaul
  | Disconnect_backhaul

record xtra =
  xo_mGpsLock :: int
  xo_mConnections :: "64 word"
  xo_mTac :: string
  xo_mMccmnc :: string
  xo_mXtraThrottle :: bool
  xo_mReqStatusReceived :: bool
  xo_mIsConnectivityStatusKnown :: bool

definition xo_subscribe :: "bool \<Rightarrow> xtra_out list" where
  "xo_subscribe yes =
     (let subItemIdList = [NETWORKINFO_ID, MCCMNC_ID]
      in if yes then [Subscribe_items subItemIdList, Request_items [TAC_ID]] else [Unsubscribe_items subItemIdList])"

definition new_xtra :: "xtra_out list \<times> xtra" where
  "new_xtra =
     (xo_subscribe True @ [Start_listening, Start_delay 100],
      \<lparr>xo_mGpsLock = -1, xo_mConnections = 0, xo_mTac = [], xo_mMccmnc = [], xo_mXtraThrottle = True,
       xo_mReqStatusReceived = False, xo_mIsConnectivityStatusKnown = False\<rparr>)"

definition delete_xtra :: "xtra_out list" where
  "delete_xtra = xo_subscribe False @ [Stop_listening]"

text \<open>The delay timer of the constructor expires.\<close>

definition xo_timeOutCallback :: "xtra_out list" where
  "xo_timeOutCallback = [To_xtra ''halinit'']"

definition send_if_requested :: "bool \<Rightarrow> string \<Rightarrow> xtra \<Rightarrow> bool \<times> xtra_out list \<times> xtra" where
  "send_if_requested sent ss x = (if \<not> xo_mReqStatusReceived x then (True, [], x) else (sent, [To_xtra ss], x))"

definition updateLockStatus :: "bool \<Rightarrow> u32 \<Rightarrow> xtra \<Rightarrow> bool \<times> xtra_out list \<times> xtra" where
  "updateLockStatus sent lock x = send_if_requested sent (''gpslock '' @ dec (unat lock)) (x\<lparr>xo_mGpsLock := sint lock\<rparr>)"

definition updateConnections :: "bool \<Rightarrow> 64 word \<Rightarrow> xtra \<Rightarrow> bool \<times> xtra_out list \<times> xtra" where
  "updateConnections sent allConnections x =
     send_if_requested sent (''connection '' @ dec (unat allConnections))
       (x\<lparr>xo_mIsConnectivityStatusKnown := True, xo_mConnections := allConnections\<rparr>)"

text \<open>The text of a string up to its first NUL.\<close>

definition c_str :: "string \<Rightarrow> string" where
  "c_str s = takeWhile (\<lambda>c. c \<noteq> CHR 0x00) s"

definition updateTac :: "bool \<Rightarrow> string \<Rightarrow> xtra \<Rightarrow> bool \<times> xtra_out list \<times> xtra" where
  "updateTac sent tac x = send_if_requested sent (''tac '' @ c_str tac) (x\<lparr>xo_mTac := tac\<rparr>)"

definition updateMccMnc :: "bool \<Rightarrow> string \<Rightarrow> xtra \<Rightarrow> bool \<times> xtra_out list \<times> xtra" where
  "updateMccMnc sent mccmnc x = send_if_requested sent (''mncmcc '' @ c_str mccmnc) (x\<lparr>xo_mMccmnc := mccmnc\<rparr>)"

definition updateXtraThrottle :: "bool \<Rightarrow> bool \<Rightarrow> xtra \<Rightarrow> bool \<times> xtra_out list \<times> xtra" where
  "updateXtraThrottle sent enabled x =
     send_if_requested sent (''xtrathrottle '' @ (if enabled then ''1'' else ''0'')) (x\<lparr>xo_mXtraThrottle := enabled\<rparr>)"

text \<open>The lines of the answer to a status request.\<close>

definition status_text :: "xtra \<Rightarrow> string" where
  "status_text x =
     (let endl = [CHR 0x0A]
      in ''respondStatus'' @ endl @ (if xo_mGpsLock x = -1 then [] else fmt_d 0 (xo_mGpsLock x)) @ endl @
         dec (unat (xo_mConnections x)) @ endl @ xo_mTac x @ endl @ xo_mMccmnc x @ endl @
         (if xo_mIsConnectivityStatusKnown x then ''1'' else ''0''))"

definition onStatusRequested :: "bool \<Rightarrow> int \<Rightarrow> xtra \<Rightarrow> bool \<times> xtra_out list \<times> xtra" where
  "onStatusRequested sent xtraStatusUpdated x =
     (let x = x\<lparr>xo_mReqStatusReceived := True\<rparr>
      in if xtraStatusUpdated \<noteq> 0 then (True, [], x) else (sent, [To_xtra (status_text x)], x))"

text \<open>The messages for the message task.\<close>

datatype 's xtra_msg = HandleStatusRequestMsg int | HandleOsObserverUpdateMsg "'s data_item list"

definition starts_with :: "string \<Rightarrow> string \<Rightarrow> bool" where
  "starts_with p s \<longleftrightarrow> take (length p) s = p"

text \<open>The number after the first word, as sscanf reads it; 0 if there is none.\<close>

definition second_number :: "string \<Rightarrow> int" where
  "second_number s = sint (atoi (dropWhile (\<lambda>c. \<not> isspace c) (dropWhile isspace s)))"

text \<open>\<open>use_glib\<close>: the build with USE_GLIB.\<close>

definition onReceive :: "bool \<Rightarrow> string \<Rightarrow> xtra_out list \<times> 's xtra_msg list" where
  "onReceive use_glib data =
     (let data = c_str data
      in if starts_with ''ping'' data then ([], [])
         else if use_glib \<and> starts_with ''connectBackhaul'' data then ([Connect_backhaul], [])
         else if use_glib \<and> starts_with ''disconnectBackhaul'' data then ([Disconnect_backhaul], [])
         else if starts_with ''requestStatus'' data then ([], [HandleStatusRequestMsg (second_number data)])
         else ([], []))"

text \<open>The copies of the data items, up to the first that cannot be created.\<close>

definition xo_notify :: "('s data_item \<Rightarrow> bool) \<Rightarrow> 's data_item list \<Rightarrow> 's xtra_msg" where
  "xo_notify creatable dlist = HandleOsObserverUpdateMsg (takeWhile creatable dlist)"

definition item_update :: "bool \<Rightarrow> 's data_item \<Rightarrow> xtra \<Rightarrow> xtra_out list \<times> xtra" where
  "item_update sent each x =
     (case each of
        NetworkInfo n \<Rightarrow> snd (updateConnections sent (mAllTypes n) x)
      | Tac t \<Rightarrow> snd (updateTac sent t x)
      | MccMnc t \<Rightarrow> snd (updateMccMnc sent t x)
      | _ \<Rightarrow> ([], x))"

fun items_update :: "bool \<Rightarrow> 's data_item list \<Rightarrow> xtra \<Rightarrow> xtra_out list \<times> xtra" where
  "items_update sent [] x = ([], x)"
| "items_update sent (each # items) x =
     (let (out, x) = item_update sent each x; (outs, x) = items_update sent items x in (out @ outs, x))"

fun xtra_proc :: "bool \<Rightarrow> 's xtra_msg \<Rightarrow> xtra \<Rightarrow> xtra_out list \<times> xtra" where
  "xtra_proc sent (HandleStatusRequestMsg xtraStatusUpdated) x = snd (onStatusRequested sent xtraStatusUpdated x)"
| "xtra_proc sent (HandleOsObserverUpdateMsg mDataItemList) x = items_update sent mDataItemList x"

section \<open>The state of the network\<close>

datatype NetworkType = RIL_MOBILE | RIL_WIFI | RIL_MMS | RIL_SUPL | RIL_DUN | RIL_HIPRI | RIL_WIMAX | RIL_OTHER

fun typeout_of :: "NetworkType \<Rightarrow> 8 word" where
  "typeout_of RIL_MOBILE = 0"
| "typeout_of RIL_WIFI = 1"
| "typeout_of RIL_MMS = 4"
| "typeout_of RIL_SUPL = 5"
| "typeout_of RIL_DUN = 6"
| "typeout_of RIL_HIPRI = 7"
| "typeout_of RIL_WIMAX = 8"
| "typeout_of RIL_OTHER = 9"

text \<open>location_gnss.cpp: the data items given to the observer of the system status, if there is an adapter.\<close>

definition updateConnectionStatus :: "bool \<Rightarrow> bool \<Rightarrow> 8 word \<Rightarrow> 's data_item list" where
  "updateConnectionStatus adapter connected type = (if adapter then snd (eventConnectionStatus connected type) else [])"

text \<open>AGnssRil; roaming is not looked at.\<close>

definition updateNetworkState ::
  "hal_env \<Rightarrow> bool \<Rightarrow> bool \<Rightarrow> NetworkType \<Rightarrow> gnss_hal option \<Rightarrow> bool \<times> 's data_item list \<times> gnss_hal option" where
  "updateNetworkState env adapter connected type g =
     (case g of
        None \<Rightarrow> (True, [], None)
      | Some gnss \<Rightarrow>
          let (found, gnss) = getGnssInterface env gnss
          in (True, if found then updateConnectionStatus adapter connected (typeout_of type) else [], Some gnss))"

end
