(* ===== verification/Device_Setup.thy ===== *)
theory Device_Setup
  imports Loc_Cfg
begin

text \<open>
  Two decisions taken from the properties and files of the device: which kind of GNSS hardware it has (gps/utils/loc_target.cpp)
  and which product it calls itself at start-up (init/init_oneplus3.cpp). Properties and files are maps.
\<close>

section \<open>The target\<close>

text \<open>The values of loc_target.h: \<open>(gnss << 1) | ssc\<close>.\<close>

definition TARGET_SET :: "u32 \<Rightarrow> u32 \<Rightarrow> u32" where
  "TARGET_SET gnss ssc = or (push_bit 1 gnss) ssc"

definition TARGET_NO_GNSS :: u32 where "TARGET_NO_GNSS = TARGET_SET 0 0"
definition TARGET_DEFAULT :: u32 where "TARGET_DEFAULT = TARGET_SET 1 1"
definition TARGET_MSM_NO_SSC :: u32 where "TARGET_MSM_NO_SSC = TARGET_SET 1 0"
definition TARGET_APQ_SA :: u32 where "TARGET_APQ_SA = TARGET_SET 2 0"
definition TARGET_MDM :: u32 where "TARGET_MDM = TARGET_SET 3 1"
definition TARGET_AUTO :: u32 where "TARGET_AUTO = TARGET_SET 4 0"
definition TARGET_UNKNOWN :: u32 where "TARGET_UNKNOWN = TARGET_SET 5 0"

text \<open>\<open>exists_file\<close>: access succeeds; \<open>contents\<close>: what fopen and fgets read; \<open>prop_of\<close>: property_get with the default ''''.\<close>

record setup_device =
  exists_file :: "string \<Rightarrow> bool"
  contents :: "string \<Rightarrow> string option"
  prop_of :: "string \<Rightarrow> string"

text \<open>The line as a C string, and whether the file could be opened; the line keeps its line feed.\<close>

definition read_a_line :: "setup_device \<Rightarrow> string \<Rightarrow> nat \<Rightarrow> bool \<times> string" where
  "read_a_line dev file_path line_size =
     (case contents dev file_path of
        None \<Rightarrow> (False, [])
      | Some text \<Rightarrow>
          (case fgets line_size text of
             None \<Rightarrow> (True, [])
           | Some (line, rest) \<Rightarrow> (True, takeWhile (\<lambda>c. c \<noteq> CHR 0x00) line)))"

text \<open>memcmp of the beginning of a C string with a literal; it ends at the terminator of a shorter string.\<close>

definition begins :: "string \<Rightarrow> string \<Rightarrow> bool" where
  "begins s lit \<longleftrightarrow> take (length lit) s = lit"

definition ends_after :: "string \<Rightarrow> string \<Rightarrow> bool" where
  "ends_after s lit \<longleftrightarrow>
     begins s lit \<and> (length s = length lit \<or> s ! length lit = CHR 0x0A \<or> s ! length lit = CHR 0x0D)"

definition LINE_LEN :: nat where "LINE_LEN = 100"

definition detect_target :: "setup_device \<Rightarrow> u32" where
  "detect_target dev =
     (let baseband = prop_of dev ''ro.baseband'';
          hw = ''/sys/devices/soc0/hw_platform'';
          rd_hw_platform = snd (read_a_line dev (if exists_file dev hw then hw else ''/sys/devices/system/soc/soc0/hw_platform'') LINE_LEN);
          sid = ''/sys/devices/soc0/soc_id'';
          rd_id = snd (read_a_line dev (if exists_file dev sid then sid else ''/sys/devices/system/soc/soc0/id'') LINE_LEN);
          rd_auto_platform = prop_of dev ''ro.hardware.type''
      in if begins rd_auto_platform ''auto'' then TARGET_AUTO
         else if begins baseband ''baseband_apq_nowgr'' then TARGET_NO_GNSS
         else if begins baseband ''apq'' \<or> begins baseband ''sdc''
         then if ends_after rd_id ''130'' then TARGET_NO_GNSS else TARGET_APQ_SA
         else if (ends_after rd_hw_platform ''Liquid'' \<or> ends_after rd_hw_platform ''Surf'' \<or> ends_after rd_hw_platform ''MTP'') \<and>
                 fst (read_a_line dev ''/target'' LINE_LEN)
         then TARGET_MDM
         else if ends_after rd_id ''142'' \<or> ends_after rd_id ''116'' then TARGET_MSM_NO_SSC
         else if begins baseband ''msm'' \<or> begins baseband ''sdm'' then TARGET_DEFAULT
         else TARGET_UNKNOWN)"

text \<open>The static gTarget is -1 until the target is detected.\<close>

definition loc_get_target :: "setup_device \<Rightarrow> u32 \<Rightarrow> u32 \<times> u32" where
  "loc_get_target dev gTarget = (if gTarget \<noteq> -1 then (gTarget, gTarget) else let t = detect_target dev in (t, t))"

text \<open>The string properties for callers with a buffer that is large enough; PROPERTY_VALUE_MAX is 92.\<close>

definition get_property :: "setup_device \<Rightarrow> string \<Rightarrow> int \<Rightarrow> string option \<Rightarrow> string option" where
  "get_property dev name array_length buf =
     (case buf of None \<Rightarrow> None | Some old \<Rightarrow> Some (if array_length \<ge> 92 then prop_of dev name else old))"

definition loc_get_target_baseband :: "setup_device \<Rightarrow> int \<Rightarrow> string option \<Rightarrow> string option" where
  "loc_get_target_baseband dev = get_property dev ''ro.baseband''"

definition loc_get_platform_name :: "setup_device \<Rightarrow> int \<Rightarrow> string option \<Rightarrow> string option" where
  "loc_get_platform_name dev = get_property dev ''ro.board.platform''"

definition loc_get_auto_platform_name :: "setup_device \<Rightarrow> int \<Rightarrow> string option \<Rightarrow> string option" where
  "loc_get_auto_platform_name dev = get_property dev ''ro.hardware.type''"

text \<open>Once detected, the target does not change with the files; it is detected as one of the seven.\<close>

lemma target_detected_once:
  "fst (loc_get_target dev g) \<noteq> -1 \<and> loc_get_target dev' (snd (loc_get_target dev g)) = (fst (loc_get_target dev g), snd (loc_get_target dev g))"
proof -
  have "detect_target dev \<in> {0, 3, 2, 4, 7, 8, 10}"
    by (simp add: detect_target_def Let_def TARGET_AUTO_def TARGET_NO_GNSS_def TARGET_APQ_SA_def TARGET_MDM_def TARGET_MSM_NO_SSC_def
        TARGET_DEFAULT_def TARGET_UNKNOWN_def TARGET_SET_def)
  then have "detect_target dev \<noteq> -1" by auto
  then show ?thesis by (simp add: loc_get_target_def Let_def)
qed

section \<open>The product\<close>

text \<open>The properties that exist, with their values.\<close>

type_synonym properties = "string \<Rightarrow> string option"

definition property_override :: "string \<Rightarrow> string \<Rightarrow> properties \<Rightarrow> properties" where
  "property_override prop value ps = (case ps prop of None \<Rightarrow> ps | Some old \<Rightarrow> ps(prop := Some value))"

text \<open>The null pointer is None.\<close>

definition RO_PROP_SOURCES :: "string option list" where
  "RO_PROP_SOURCES =
     [None, Some ''product.'', Some ''product_services.'', Some ''odm.'', Some ''vendor.'', Some ''system.'', Some ''bootimage.'']"

definition prop_name :: "string option \<Rightarrow> string \<Rightarrow> bool \<Rightarrow> string" where
  "prop_name source prop product =
     ''ro.'' @ (if product then ''product.'' else []) @ (case source of None \<Rightarrow> [] | Some s \<Rightarrow> s) @ (if \<not> product then ''build.'' else []) @ prop"

definition BUILD_DESCRIPTION :: string where
  "BUILD_DESCRIPTION = ''OnePlus3-user 8.0.0 OPR1.170623.032 31 release-keys''"

definition build_fingerprint :: "bool \<Rightarrow> string" where
  "build_fingerprint is_3t =
     (if is_3t then ''OnePlus/OnePlus3/OnePlus3T:8.0.0/OPR1.170623.032/02281230:user/release-keys''
      else ''OnePlus/OnePlus3/OnePlus3:8.0.0/OPR1.170623.032/02281230:user/release-keys'')"

definition device_name :: "bool \<Rightarrow> string" where
  "device_name is_3t = (if is_3t then ''OnePlus3T'' else ''OnePlus3'')"

definition override_source :: "string \<Rightarrow> bool \<Rightarrow> string option \<Rightarrow> properties \<Rightarrow> properties" where
  "override_source model is_3t source ps =
     (let ps = property_override (prop_name source ''device'' True) (device_name is_3t) ps;
          ps = property_override (prop_name source ''model'' True) model ps
      in property_override (prop_name source ''fingerprint'' False) (build_fingerprint is_3t) ps)"

text \<open>property_set sets a property whether it exists or not; the two descriptions are equal.\<close>

definition load_props :: "string \<Rightarrow> bool \<Rightarrow> properties \<Rightarrow> properties" where
  "load_props model is_3t ps =
     (let ps = fold (override_source model is_3t) RO_PROP_SOURCES ps;
          ps = property_override (prop_name None ''description'' False) BUILD_DESCRIPTION ps;
          ps = property_override (prop_name None ''product'' False) ''OnePlus3'' ps;
          ps = ps(''ro.build.fingerprint'' := Some (build_fingerprint is_3t))
      in if is_3t then ps(''ro.power_profile.override'' := Some ''power_profile_3t'') else ps)"

text \<open>\<open>rf_version\<close>: stoi of ro.boot.rf_version; None where stoi throws, which ends init.\<close>

definition vendor_load_properties :: "int option \<Rightarrow> properties \<Rightarrow> properties option" where
  "vendor_load_properties rf_version ps =
     (case rf_version of
        None \<Rightarrow> None
      | Some v \<Rightarrow> Some (
          if v = 11 \<or> v = 31 then load_props ''ONEPLUS A3000'' False ps
          else if v = 21 then load_props ''ONEPLUS A3003'' False ps
          else if v = 12 then load_props ''ONEPLUS A3010'' True ps
          else if v = 22 then load_props ''ONEPLUS A3003'' True ps
          else if v = 32 then load_props ''ONEPLUS A3000'' True ps
          else ps))"

lemma override_dom: "dom (property_override p v ps) = dom ps"
  by (auto simp: property_override_def dom_def split: option.split)

lemma source_dom: "dom (override_source model is_3t s ps) = dom ps"
  by (simp add: override_source_def Let_def override_dom)

lemma sources_dom: "dom (fold (override_source model is_3t) ss ps) = dom ps"
  by (induction ss arbitrary: ps) (simp_all add: source_dom)

lemma load_dom:
  "dom (load_props model is_3t ps) = insert ''ro.build.fingerprint'' (dom ps) \<union> (if is_3t then {''ro.power_profile.override''} else {})"
  by (cases is_3t) (simp_all add: load_props_def Let_def override_dom sources_dom insert_commute)

text \<open>Only the fingerprint and, for the 3T, the power profile can be new properties; none disappears.\<close>

lemma properties_added:
  assumes "vendor_load_properties v ps = Some ps'"
  shows "dom ps \<subseteq> dom ps' \<and> dom ps' \<subseteq> dom ps \<union> {''ro.build.fingerprint'', ''ro.power_profile.override''}"
proof -
  from assms consider "ps' = ps" | model is_3t where "ps' = load_props model is_3t ps"
    unfolding vendor_load_properties_def by (auto split: option.splits if_splits)
  then show ?thesis
  proof cases
    case 1
    then show ?thesis by blast
  next
    case 2
    then have "dom ps' = insert ''ro.build.fingerprint'' (dom ps) \<union> (if is_3t then {''ro.power_profile.override''} else {})"
      by (simp only: load_dom)
    then show ?thesis by (simp only: split: if_splits) blast+
  qed
qed

end
