(* ===== verification/Location_Gnss.thy ===== *)
theory Location_Gnss
  imports Gnss_Reports Gnss_Agps Location_API
begin

text \<open>
  The table of the GNSS interface (gps/gnss/location_gnss.cpp): one adapter for the process, made by initialize,
  and a function per entry that forwards to the adapter if there is one. The adapter's state is modelled in three parts,
  gnss_adapter, reporter and agps_adapter; an entry acts on the part its command belongs to. What the
  caller gets back when there is no adapter is written out.
\<close>

section \<open>The adapter's object\<close>

definition gi_initialize :: "'a \<Rightarrow> 'a option \<Rightarrow> 'a option" where
  "gi_initialize fresh gnssAdapter = (if gnssAdapter = None then Some fresh else gnssAdapter)"

definition gi_deinitialize :: "'a option \<Rightarrow> 'a option" where
  "gi_deinitialize gnssAdapter = None"

text \<open>The commands of GnssAdapter that only queue their message.\<close>

definition addClientCommand :: "addr \<Rightarrow> callbacks \<Rightarrow> gnss_adapter \<Rightarrow> gnss_adapter" where
  "addClientCommand client cb = ga_sendMsg (MsgAddClient client cb)"

definition removeClientCommand :: "addr \<Rightarrow> gnss_adapter \<Rightarrow> gnss_adapter" where
  "removeClientCommand client = ga_sendMsg (MsgRemoveClient client)"

definition requestCapabilitiesCommand :: "addr \<Rightarrow> gnss_adapter \<Rightarrow> gnss_adapter" where
  "requestCapabilitiesCommand client = ga_sendMsg (MsgRequestCapabilities client)"

definition setControlCallbacksCommand :: "bool \<Rightarrow> bool \<Rightarrow> gnss_adapter \<Rightarrow> gnss_adapter" where
  "setControlCallbacksCommand response collective = ga_sendMsg (MsgSetControlCallbacks response collective)"

definition initOdcpiCommand :: "bool \<Rightarrow> gnss_adapter \<Rightarrow> gnss_adapter" where
  "initOdcpiCommand has_cb = ga_sendMsg (MsgInitOdcpi has_cb)"

section \<open>Clients and tracking\<close>

definition gi_addClient :: "addr \<Rightarrow> callbacks \<Rightarrow> gnss_adapter option \<Rightarrow> gnss_adapter option" where
  "gi_addClient client cb = map_option (addClientCommand client cb)"

definition gi_removeClient :: "addr \<Rightarrow> gnss_adapter option \<Rightarrow> gnss_adapter option" where
  "gi_removeClient client = map_option (removeClientCommand client)"

definition gi_requestCapabilities :: "addr \<Rightarrow> gnss_adapter option \<Rightarrow> gnss_adapter option" where
  "gi_requestCapabilities client = map_option (requestCapabilitiesCommand client)"

definition gi_startTracking :: "addr \<Rightarrow> TrackOptions \<Rightarrow> gnss_adapter option \<Rightarrow> u32 \<times> gnss_adapter option" where
  "gi_startTracking client options gnssAdapter =
     (case gnssAdapter of
        Some st \<Rightarrow> (let (sid, st) = startTrackingCommand client options st in (sid, Some st))
      | None \<Rightarrow> (0, None))"

definition gi_updateTrackingOptions :: "addr \<Rightarrow> u32 \<Rightarrow> TrackOptions \<Rightarrow> gnss_adapter option \<Rightarrow> gnss_adapter option" where
  "gi_updateTrackingOptions client sid options = map_option (updateTrackingOptionsCommand client sid options)"

definition gi_stopTracking :: "addr \<Rightarrow> u32 \<Rightarrow> gnss_adapter option \<Rightarrow> gnss_adapter option" where
  "gi_stopTracking client sid = map_option (stopTrackingCommand client sid)"

section \<open>Control\<close>

definition gi_setControlCallbacks :: "bool \<Rightarrow> bool \<Rightarrow> gnss_adapter option \<Rightarrow> gnss_adapter option" where
  "gi_setControlCallbacks response collective = map_option (setControlCallbacksCommand response collective)"

definition gi_enable :: "bool \<Rightarrow> gnss_adapter option \<Rightarrow> u32 \<times> ga_out list \<times> gnss_adapter option" where
  "gi_enable is_gnss gnssAdapter =
     (case gnssAdapter of
        Some st \<Rightarrow> (let (sid, out, st) = enableCommand is_gnss st in (sid, out, Some st))
      | None \<Rightarrow> (0, [], None))"

definition gi_disable :: "u32 \<Rightarrow> gnss_adapter option \<Rightarrow> ga_out list \<times> gnss_adapter option" where
  "gi_disable sid gnssAdapter =
     (case gnssAdapter of Some st \<Rightarrow> (let (out, st) = disableCommand sid st in (out, Some st)) | None \<Rightarrow> ([], None))"

definition gi_gnssUpdateConfig :: "GnssConfig \<Rightarrow> gnss_adapter option \<Rightarrow> u32 list option \<times> gnss_adapter option" where
  "gi_gnssUpdateConfig config gnssAdapter =
     (case gnssAdapter of
        Some st \<Rightarrow> (let (ids, st) = gnssUpdateConfigCommand config st in (ids, Some st))
      | None \<Rightarrow> (None, None))"

definition gi_odcpiInit :: "bool \<Rightarrow> gnss_adapter option \<Rightarrow> gnss_adapter option" where
  "gi_odcpiInit has_cb = map_option (initOdcpiCommand has_cb)"

section \<open>Reports and injection\<close>

definition gi_gnssDeleteAidingData :: "bool \<Rightarrow> ('d, 's) reporter option \<Rightarrow> u32 \<times> ('d, 's) reporter option" where
  "gi_gnssDeleteAidingData deleteAll gnssAdapter =
     (case gnssAdapter of
        Some st \<Rightarrow> (let (sid, st) = gnssDeleteAidingDataCommand deleteAll st in (sid, Some st))
      | None \<Rightarrow> (0, None))"

definition gi_gnssUpdateXtraThrottle :: "bool \<Rightarrow> ('d, 's) reporter option \<Rightarrow> ('d, 's) reporter option" where
  "gi_gnssUpdateXtraThrottle enabled = map_option (gnssUpdateXtraThrottleCommand enabled)"

definition gi_injectLocation :: "'d \<Rightarrow> 'd \<Rightarrow> 'd \<Rightarrow> ('d, 's) reporter option \<Rightarrow> ('d, 's) reporter option" where
  "gi_injectLocation lat lon acc = map_option (injectLocationCommand lat lon acc)"

definition gi_injectTime :: "int \<Rightarrow> int \<Rightarrow> int \<Rightarrow> ('d, 's) reporter option \<Rightarrow> ('d, 's) reporter option" where
  "gi_injectTime t ref unc = map_option (injectTimeCommand t ref unc)"

text \<open>Whether a report was made is not passed on; without an adapter the caller's report stays as it was.\<close>

definition gi_getDebugReport :: "'d rep_fp \<Rightarrow> 'd DebugReport \<Rightarrow> ('d, 's) reporter option \<Rightarrow> 'd DebugReport" where
  "gi_getDebugReport F r gnssAdapter = (case gnssAdapter of Some st \<Rightarrow> snd (getDebugReport F r st) | None \<Rightarrow> r)"

section \<open>Assisted GNSS\<close>

definition gi_agpsInit :: "AgpsCbInfo \<Rightarrow> agps_adapter option \<Rightarrow> agps_adapter option" where
  "gi_agpsInit cbInfo = map_option (initAgpsCommand cbInfo)"

definition gi_agpsDataConnOpen :: "int \<Rightarrow> string \<Rightarrow> nat \<Rightarrow> int \<Rightarrow> agps_adapter option \<Rightarrow> agps_adapter option" where
  "gi_agpsDataConnOpen agpsType apnName apnLen ipType = map_option (dataConnOpenCommand agpsType apnName apnLen ipType)"

definition gi_agpsDataConnClosed :: "int \<Rightarrow> agps_adapter option \<Rightarrow> agps_adapter option" where
  "gi_agpsDataConnClosed agpsType = map_option (dataConnClosedCommand agpsType)"

definition gi_agpsDataConnFailed :: "int \<Rightarrow> agps_adapter option \<Rightarrow> agps_adapter option" where
  "gi_agpsDataConnFailed agpsType = map_option (dataConnFailedCommand agpsType)"

section \<open>The calls of the location API\<close>

text \<open>
  What the calls of Location_API leave out: the size member of the options, the configuration, and whether the control API has a
  collective callback. A response to a network initiated request goes to the part of the adapter modelled in Gnss_Ni; calls
  for batches and geofences are none of this interface. Deleting aiding data takes an id from the adapter's counter.
\<close>

abbreviation (input) LOCATION_TECHNOLOGY_TYPE_GNSS :: u32 where "LOCATION_TECHNOLOGY_TYPE_GNSS \<equiv> 0"

record call_args =
  arg_size :: u32
  arg_collective :: bool
  arg_config :: GnssConfig

definition with_size :: "call_args \<Rightarrow> LocationOptions \<Rightarrow> TrackOptions" where
  "with_size ca options = LocationOptions.extend options (TrackOptions.fields (arg_size ca))"

fun gnss_interface :: "gnss_adapter \<Rightarrow> call_args \<Rightarrow> iface_call \<Rightarrow> gnss_adapter option \<Rightarrow> gnss_adapter option" where
  "gnss_interface fresh ca Initialize a = gi_initialize fresh a"
| "gnss_interface fresh ca (AddClient client cb) a = gi_addClient client cb a"
| "gnss_interface fresh ca (RequestCapabilities client) a = gi_requestCapabilities client a"
| "gnss_interface fresh ca (RemoveClient client) a = gi_removeClient client a"
| "gnss_interface fresh ca (StartTracking client options) a = snd (gi_startTracking client (with_size ca options) a)"
| "gnss_interface fresh ca (StopTracking client sid) a = gi_stopTracking client sid a"
| "gnss_interface fresh ca (UpdateTrackingOptions client sid options) a =
     gi_updateTrackingOptions client sid (with_size ca options) a"
| "gnss_interface fresh ca SetControlCallbacks a = gi_setControlCallbacks True (arg_collective ca) a"
| "gnss_interface fresh ca (Enable techType) a = snd (snd (gi_enable (techType = LOCATION_TECHNOLOGY_TYPE_GNSS) a))"
| "gnss_interface fresh ca (Disable sid) a = snd (gi_disable sid a)"
| "gnss_interface fresh ca UpdateConfig a = snd (gi_gnssUpdateConfig (arg_config ca) a)"
| "gnss_interface fresh ca DeleteAidingData a = map_option (snd \<circ> generateSessionId) a"
| "gnss_interface fresh ca _ a = a"

definition gnss_calls :: "gnss_adapter \<Rightarrow> call_args \<Rightarrow> api_out \<Rightarrow> gnss_adapter option \<Rightarrow> gnss_adapter option" where
  "gnss_calls fresh ca out = fold (gnss_interface fresh ca) (map snd (filter (\<lambda>c. fst c = GNSS) out))"

end
