(* ===== verification/Location_Gnss_Props.thy ===== *)
theory Location_Gnss_Props
  imports Location_Gnss Gnss_Adapter_Props Location_API_Props
begin

text \<open>
  The location API on top of the GNSS adapter: the calls of the API reach the adapter through the table of Location_Gnss, become
  messages, and are handled later by the adapter's thread, in any interleaving. Shown: the adapter's clients are, when
  its queue has been handled, those of the API, and no session is left without its client.
\<close>

section \<open>Clients of the queued messages\<close>

fun clients_after :: "ga_msg list \<Rightarrow> (addr \<rightharpoonup> callbacks) \<Rightarrow> addr \<rightharpoonup> callbacks" where
  "clients_after [] m = m"
| "clients_after (MsgAddClient client cb # ms) m = clients_after ms (m(client \<mapsto> cb))"
| "clients_after (MsgRemoveClient client # ms) m = clients_after ms (m(client := None))"
| "clients_after (_ # ms) m = clients_after ms m"

lemma clients_after_append [simp]: "clients_after (ms @ ms') m = clients_after ms' (clients_after ms m)"
  by (induction ms m rule: clients_after.induct) (simp_all add: fun_upd_def)

lemma clients_after_Cons: "clients_after (msg # ms) m = clients_after ms (clients_after [msg] m)"
  using clients_after_append [of "[msg]" ms m] by simp

definition client_msg :: "ga_msg \<Rightarrow> bool" where
  "client_msg msg \<longleftrightarrow>
     (case msg of MsgAddClient _ _ \<Rightarrow> True | MsgRemoveClient _ \<Rightarrow> True | MsgRequestCapabilities _ \<Rightarrow> True
      | MsgStartTracking _ _ _ \<Rightarrow> True | MsgUpdateTracking _ _ _ \<Rightarrow> True | MsgStopTracking _ _ \<Rightarrow> True | _ \<Rightarrow> False)"

lemma clients_after_other: "\<not> client_msg msg \<Longrightarrow> clients_after [msg] m = m"
  by (cases msg) (simp_all add: client_msg_def)

section \<open>The adapter's messages\<close>

definition keeps_clients :: "gnss_adapter \<Rightarrow> gnss_adapter \<Rightarrow> bool" where
  "keeps_clients st st' \<longleftrightarrow>
     mClientData st' = mClientData st \<and> mTrackingSessions st' = mTrackingSessions st \<and> mMsgs st' = mMsgs st"

definition action_keeps_clients :: "cfg_action \<Rightarrow> bool" where
  "action_keeps_clients a \<longleftrightarrow> (\<forall>st err out st'. a st = (err, out, st') \<longrightarrow> keeps_clients st st')"

lemma cfg_actions_keep_clients: "list_all action_keeps_clients (cfg_actions env c)"
  unfolding cfg_actions_def list.pred_inject
  by (intro conjI TrueI;
      auto simp: action_keeps_clients_def gps_lock_action_def supl_version_action_def assistance_action_def setSuplHostServer_def
        lpp_profile_action_def lppe_cp_action_def lppe_up_action_def aglonass_action_def em_pdn_action_def
        supl_es_action_def supl_mode_action_def keeps_clients_def upd_conf_def api_set_def Let_def
        split: if_splits option.splits GnssAssistanceType.splits)

lemma run_cfg_actions_keep_clients:
  "list_all action_keeps_clients as \<Longrightarrow> run_cfg_actions fl i as st = (errs, out, st') \<Longrightarrow> keeps_clients st st'"
proof (induction fl i as st arbitrary: errs out st' rule: run_cfg_actions.induct)
  case (2 fl i a as st)
  show ?case
  proof (cases "bit fl i")
    case True
    obtain err out1 st1 where a: "a st = (err, out1, st1)" by (metis prod_cases3)
    obtain errs2 out2 st2 where r: "run_cfg_actions fl (i + 1) as st1 = (errs2, out2, st2)" by (metis prod_cases3)
    have "keeps_clients st st1" using "2.prems"(1) a by (auto simp: action_keeps_clients_def)
    moreover have "keeps_clients st1 st2"
      by (rule "2.IH"(1) [OF True a [symmetric] _ _ _ r]) (use "2.prems"(1) in auto)
    ultimately show ?thesis using "2.prems"(2) True a r by (auto simp: keeps_clients_def)
  next
    case False
    with "2.IH"(2) [OF False] "2.prems" show ?thesis by simp
  qed
qed (simp add: keeps_clients_def)

lemma update_config_keeps_clients: "gnssUpdateConfig_proc env c ids st = (out, st') \<Longrightarrow> keeps_clients st st'"
  using run_cfg_actions_keep_clients [OF cfg_actions_keep_clients, of "flags c" 0 env c st]
  by (auto simp: gnssUpdateConfig_proc_def keeps_clients_def split: prod.splits if_splits)

text \<open>Messages that are not of clients keep clients and sessions.\<close>

lemma other_keeps_clients:
  assumes "\<not> client_msg msg" "ga_proc env msg st = (out, st')"
  shows "keeps_clients st st'"
proof (cases msg)
  case (MsgGnssUpdateConfig c ids)
  then show ?thesis using assms(2) update_config_keeps_clients by simp
qed (use assms in \<open>auto simp: client_msg_def keeps_clients_def restartSessions_def api_startFix_def api_stopFix_def
    setUlpPositionMode_def enable_proc_def disable_proc_def reportOdcpiRequest_def initOdcpi_def odcpiTimerExpire_def
    odcpiTimer_start_def odcpiTimer_stop_def odcpiTimer_restart_def Let_def split: if_splits\<close>)

lemma mask_clients:
  "saveClient env client cb st = (out, st') \<Longrightarrow>
     mClientData st' = map_put client cb (mClientData st) \<and> mTrackingSessions st' = mTrackingSessions st \<and> mMsgs st' = mMsgs st"
  "eraseClient env client st = (out, st') \<Longrightarrow>
     map_of (mClientData st') = (map_of (mClientData st))(client := None) \<and> mTrackingSessions st' = mTrackingSessions st \<and>
     mMsgs st' = mMsgs st"
  by (auto simp: saveClient_def eraseClient_def updateClientsEventMask_def map_has_def Let_def fun_eq_iff split: if_splits)

lemma tracking_keeps:
  "start_tracking_proc env client sid options st = (out, st') \<Longrightarrow> mClientData st' = mClientData st \<and> mMsgs st' = mMsgs st"
  "update_tracking_proc env client sid options st = (out, st') \<Longrightarrow> mClientData st' = mClientData st \<and> mMsgs st' = mMsgs st"
  "stop_tracking_proc env client sid st = (out, st') \<Longrightarrow> mClientData st' = mClientData st \<and> mMsgs st' = mMsgs st"
  by (blast dest: tracking_proc_frame same_but_tracking_fields(1,7))+

text \<open>What a message does to the map of clients is what the queue promised.\<close>

lemma ga_proc_clients:
  assumes "ga_proc env msg st = (out, st')"
  shows "map_of (mClientData st') = clients_after [msg] (map_of (mClientData st)) \<and> mMsgs st' = mMsgs st"
proof (cases "client_msg msg")
  case False
  then show ?thesis using other_keeps_clients [OF False assms] by (simp add: keeps_clients_def clients_after_other)
next
  case True
  then show ?thesis
  proof (cases msg)
    case (MsgRemoveClient client)
    then obtain o1 st1 o2 where "stopClientSessions env client st = (o1, st1)" "eraseClient env client st1 = (o2, st')"
      using assms by (auto split: prod.splits)
    then show ?thesis
      using MsgRemoveClient mask_clients(2) [of env client st1 o2 st']
        same_but_tracking_fields(1,7) [OF stop_sessions_loop_frame [THEN conjunct1], of env client _ st o1 st1]
      by (simp add: stopClientSessions_def)
  qed (use True assms in \<open>auto simp: client_msg_def dest!: mask_clients tracking_keeps\<close>)
qed

section \<open>Sessions and their clients\<close>

definition owned :: "gnss_adapter \<Rightarrow> bool" where
  "owned st \<longleftrightarrow> sk_client ` session_dom st \<subseteq> dom (map_of (mClientData st))"

lemma owned_frame:
  assumes "owned st" "mClientData st' = mClientData st" "session_dom st' \<subseteq> K \<union> session_dom st"
    "sk_client ` K \<subseteq> dom (map_of (mClientData st))"
  shows "owned st'"
proof -
  have "sk_client ` session_dom st' \<subseteq> sk_client ` K \<union> sk_client ` session_dom st"
    using image_mono [OF assms(3)] by (simp add: image_Un)
  with assms(1,4) show ?thesis by (simp add: owned_def assms(2) le_supI subset_trans [OF _ Un_least])
qed

lemma stop_succeeds:
  assumes "\<And>n. fix_ok env n" "stopTrackingMultiplex env client sid st = (err, out, st')"
  shows "err = LOCATION_ERROR_SUCCESS"
  using assms
  by (auto simp: stopTrackingMultiplex_def ga_startTracking_def ga_stopTracking_def api_startFix_def api_stopFix_def Let_def
      split: if_splits option.splits)

lemma stop_sessions_gone:
  assumes ok: "\<And>n. fix_ok env n"
  shows "stop_sessions_loop env client ks st = (out, st') \<Longrightarrow>
    session_dom st' = session_dom st - {k \<in> set ks. sk_client k = client}"
proof (induction ks arbitrary: st out)
  case (Cons k ks)
  show ?case
  proof (cases "client = sk_client k")
    case True
    obtain err out1 st1 where s: "stopTrackingMultiplex env (sk_client k) (sk_id k) st = (err, out1, st1)"
      by (metis prod_cases3)
    define st2 where "st2 = st1\<lparr>mTrackingSessions := map_erase k (mTrackingSessions st1)\<rparr>"
    obtain out2 where r: "stop_sessions_loop env client ks st2 = (out2, st')"
      using Cons.prems True s stop_succeeds [OF ok s] by (auto simp: st2_def split: prod.splits)
    have "session_dom st2 = session_dom st - {k}" using multiplex_sessions(3) [OF s] by (auto simp: st2_def)
    then show ?thesis using Cons.IH [OF r] True by auto
  next
    case False
    with Cons show ?thesis by auto
  qed
qed simp

lemma remove_owned:
  assumes ok: "\<And>n. fix_ok env n" and "owned st" and "ga_proc env (MsgRemoveClient client) st = (out, st')"
  shows "owned st'"
proof -
  obtain o1 st1 o2 where s: "stopClientSessions env client st = (o1, st1)" and e: "eraseClient env client st1 = (o2, st')"
    using assms(3) by (auto split: prod.splits)
  have "session_dom st1 = session_dom st - {k \<in> set (map fst (mTrackingSessions st)). sk_client k = client}"
    by (rule stop_sessions_gone [OF ok s [unfolded stopClientSessions_def]])
  then have d: "session_dom st1 = {k \<in> session_dom st. sk_client k \<noteq> client}" by (auto simp: dom_map_of_conv_image_fst)
  have c: "mClientData st1 = mClientData st"
    using stop_sessions_loop_frame [OF s [unfolded stopClientSessions_def]] same_but_tracking_fields(7) by blast
  show ?thesis
    using assms(2) mask_clients(2) [OF e] unfolding owned_def d [symmetric]
    by (auto simp: c d subset_iff)
qed

lemma start_owned:
  assumes "owned st" "start_tracking_proc env client sid options st = (out, st')"
  shows "owned st'"
proof -
  have c: "mClientData st' = mClientData st"
    using tracking_keeps(1) [OF assms(2)] by simp
  show ?thesis
  proof (cases "client \<in> dom (map_of (mClientData st))")
    case True
    then show ?thesis using tracking_proc_dom(1) [OF assms(2)]
      by (intro owned_frame [OF assms(1) c, of "{SessionKey client sid}"]) auto
  next
    case False
    then have "st' = st" using assms(2)
      by (auto simp: start_tracking_proc_def hasTrackingCallback_def hasMeasurementsCallback_def domIff)
    then show ?thesis using assms(1) by simp
  qed
qed

lemma ga_proc_owned:
  assumes ok: "\<And>n. fix_ok env n" and st: "owned st" "ga_proc env msg st = (out, st')"
  shows "owned st'"
proof (cases "client_msg msg")
  case False
  then show ?thesis using other_keeps_clients [OF False st(2)] st(1) by (simp add: owned_def keeps_clients_def)
next
  case True
  then show ?thesis
  proof (cases msg)
    case (MsgAddClient client cb)
    then show ?thesis using st mask_clients(1) [of env client cb st out st'] by (auto simp: owned_def)
  next
    case (MsgRemoveClient client)
    then show ?thesis using remove_owned [OF ok st(1)] st(2) by simp
  next
    case (MsgStartTracking client sid options)
    then show ?thesis using start_owned [OF st(1)] st(2) by simp
  next
    case (MsgUpdateTracking client sid options)
    then have u: "update_tracking_proc env client sid options st = (out, st')" using st(2) by simp
    have "mClientData st' = mClientData st" using tracking_keeps(2) [OF u] by simp
    then show ?thesis using tracking_proc_dom(2) [OF u] by (intro owned_frame [OF st(1), of _ "{}"]) simp_all
  next
    case (MsgStopTracking client sid)
    then have u: "stop_tracking_proc env client sid st = (out, st')" using st(2) by simp
    have "mClientData st' = mClientData st" using tracking_keeps(3) [OF u] by simp
    then show ?thesis using tracking_proc_dom(3) [OF u] by (intro owned_frame [OF st(1), of _ "{}"]) simp_all
  qed (use True st in \<open>auto simp: client_msg_def\<close>)
qed

section \<open>The API on top of the adapter\<close>

text \<open>
  The API's calls happen with its table g and are queued at the adapter, if there is one; the adapter's thread handles a message at a time.
  The adapter's other messages come from the modem, timers and the rest of the HAL. \<open>ca\<close> is arbitrary.
\<close>

type_synonym stack = "location_data \<times> gnss_adapter option"

inductive stack_step :: "ga_env \<Rightarrow> gnss_adapter \<Rightarrow> stack \<Rightarrow> stack \<Rightarrow> bool" for env :: ga_env and fresh :: gnss_adapter where
  table: "api_step keeps_kinds g out g' \<Longrightarrow> stack_step env fresh (g, a) (g', gnss_calls fresh ca out a)"
| start: "startTracking client options ret g = (sid, out) \<Longrightarrow>
    ret GNSS = fst (gi_startTracking client (with_size ca options) a) \<Longrightarrow>
    stack_step env fresh (g, a) (g, gnss_calls fresh ca out a)"
| stop: "stopTracking client sid g = out \<Longrightarrow> stack_step env fresh (g, a) (g, gnss_calls fresh ca out a)"
| update: "updateTrackingOptions client sid options g = out \<Longrightarrow> stack_step env fresh (g, a) (g, gnss_calls fresh ca out a)"
| enable: "control_enable techType ret g = (cid, out) \<Longrightarrow> stack_step env fresh (g, a) (g, gnss_calls fresh ca out a)"
| disable: "control_disable cid g = out \<Longrightarrow> stack_step env fresh (g, a) (g, gnss_calls fresh ca out a)"
| config: "control_gnssUpdateConfig rets g = (ids, out) \<Longrightarrow> stack_step env fresh (g, a) (g, gnss_calls fresh ca out a)"
| aiding: "control_gnssDeleteAidingData ret g = (cid, out) \<Longrightarrow> stack_step env fresh (g, a) (g, gnss_calls fresh ca out a)"
| other: "\<not> client_msg msg \<Longrightarrow> stack_step env fresh (g, Some st) (g, Some (ga_sendMsg msg st))"
| timeout: "stack_step env fresh (g, Some st) (g, Some (odcpi_timeout st))"
| deliver: "ga_next env st = (out, st') \<Longrightarrow> stack_step env fresh (g, Some st) (g, Some st')"

definition gnss_clients :: "location_data \<Rightarrow> addr \<rightharpoonup> callbacks" where
  "gnss_clients g a = (case clientData g a of Some cb \<Rightarrow> if isGnssClient cb then Some cb else None | None \<Rightarrow> None)"

definition queued_clients :: "gnss_adapter \<Rightarrow> addr \<rightharpoonup> callbacks" where
  "queued_clients st = clients_after (mMsgs st) (map_of (mClientData st))"

definition stack_inv :: "stack \<Rightarrow> bool" where
  "stack_inv s \<longleftrightarrow>
     (case s of (g, a) \<Rightarrow>
        (a \<noteq> None \<longleftrightarrow> interfaces g GNSS) \<and>
        (gnss_clients g \<noteq> Map.empty \<longrightarrow> interfaces g GNSS \<or> loadFailed g GNSS) \<and>
        (case a of None \<Rightarrow> True | Some st \<Rightarrow> queued_clients st = gnss_clients g \<and> owned st))"

section \<open>Calls\<close>

lemma gnss_calls_simps:
  "gnss_calls fresh ca [] a = a"
  "gnss_calls fresh ca ((GNSS, c) # out) a = gnss_calls fresh ca out (gnss_interface fresh ca c a)"
  "i \<noteq> GNSS \<Longrightarrow> gnss_calls fresh ca ((i, c) # out) a = gnss_calls fresh ca out a"
  "gnss_calls fresh ca (out @ out') a = gnss_calls fresh ca out' (gnss_calls fresh ca out a)"
  by (simp_all add: gnss_calls_def)

text \<open>A call that is none of a client's registration leaves clients alone.\<close>

definition registers :: "iface_call \<Rightarrow> bool" where
  "registers c \<longleftrightarrow> (case c of Initialize \<Rightarrow> True | AddClient _ _ \<Rightarrow> True | RemoveClient _ \<Rightarrow> True | _ \<Rightarrow> False)"

definition same_registration :: "gnss_adapter \<Rightarrow> gnss_adapter \<Rightarrow> bool" where
  "same_registration st st' \<longleftrightarrow> queued_clients st' = queued_clients st \<and> mClientData st' = mClientData st \<and>
     mTrackingSessions st' = mTrackingSessions st"

lemma send_same: "clients_after [msg] = (\<lambda>m. m) \<Longrightarrow> same_registration st (ga_sendMsg msg st)"
  by (simp add: same_registration_def queued_clients_def ga_sendMsg_def)

lemma same_trans: "same_registration st st1 \<Longrightarrow> same_registration st1 st2 \<Longrightarrow> same_registration st st2"
  by (simp add: same_registration_def)

lemma generate_ids_same: "generate_ids n st = (ids, st') \<Longrightarrow> same_registration st st'"
proof (induction n st arbitrary: ids st' rule: generate_ids.induct)
  case (2 n st)
  then show ?case
    by (force simp: generateSessionId_def same_registration_def queued_clients_def Let_def split: prod.splits)
qed (simp add: same_registration_def)

lemma other_call_same:
  assumes "\<not> registers c"
  shows "\<exists>st'. gnss_interface fresh ca c (Some st) = Some st' \<and> same_registration st st'"
    "gnss_interface fresh ca c None = None"
proof -
  have config: "\<exists>st'. snd (gi_gnssUpdateConfig config (Some st)) = Some st' \<and> same_registration st st'" for config
  proof -
    obtain ids st1 where ids: "generate_ids (count_flags (flags config)) st = (ids, st1)" by fastforce
    have "same_registration st (ga_sendMsg (MsgGnssUpdateConfig config ids) st1)"
      by (rule same_trans [OF generate_ids_same [OF ids] send_same]) (simp add: fun_eq_iff)
    then show ?thesis
      by (simp add: gi_gnssUpdateConfig_def gnssUpdateConfigCommand_def ids Let_def same_registration_def)
  qed
  show "\<exists>st'. gnss_interface fresh ca c (Some st) = Some st' \<and> same_registration st st'"
    using assms config
    by (cases c) (auto simp: registers_def gi_requestCapabilities_def requestCapabilitiesCommand_def gi_startTracking_def
        startTrackingCommand_def gi_stopTracking_def stopTrackingCommand_def gi_updateTrackingOptions_def
        updateTrackingOptionsCommand_def gi_setControlCallbacks_def setControlCallbacksCommand_def gi_enable_def enableCommand_def
        gi_disable_def disableCommand_def generateSessionId_def same_registration_def queued_clients_def ga_sendMsg_def Let_def)
  show "gnss_interface fresh ca c None = None"
    using assms by (cases c) (auto simp: registers_def gi_requestCapabilities_def gi_startTracking_def gi_stopTracking_def
        gi_updateTrackingOptions_def gi_setControlCallbacks_def gi_enable_def gi_disable_def gi_gnssUpdateConfig_def)
qed

lemma stack_inv_same:
  assumes "stack_inv (g, Some st)" "same_registration st st'"
  shows "stack_inv (g, Some st')"
  using assms by (simp add: stack_inv_def same_registration_def owned_def)

abbreviation (input) registers_nothing :: "api_out \<Rightarrow> bool" where
  "registers_nothing \<equiv> list_all (\<lambda>c. \<not> registers (snd c))"

lemma stack_inv_other_calls:
  assumes "stack_inv (g, a)" "registers_nothing out"
  shows "stack_inv (g, gnss_calls fresh ca out a)"
  using assms
proof (induction out arbitrary: a)
  case (Cons x out)
  obtain i c where x: "x = (i, c)" by fastforce
  have "stack_inv (g, gnss_interface fresh ca c a)"
    using Cons.prems other_call_same [of c fresh ca] stack_inv_same [of g] x by (cases a) (auto, metis)
  then show ?case
    using Cons x by (cases "i = GNSS") (simp_all add: gnss_calls_simps)
qed (simp add: gnss_calls_simps)

section \<open>Registration\<close>

lemma add_client_other:
  assumes "i \<noteq> GNSS" "add_client client cb found i (out, w, g) = (out', w', g')"
  shows "gnss_calls fresh ca out' a = gnss_calls fresh ca out a" "interfaces g' GNSS = interfaces g GNSS"
    "loadFailed g' GNSS = loadFailed g GNSS"
  using assms by (auto simp: add_client_def load_interface_def gnss_calls_simps split: if_splits)

text \<open>What the block for the GNSS interface does to the adapter, which the first client makes.\<close>

definition newly_registered :: "gnss_adapter \<Rightarrow> addr \<Rightarrow> callbacks \<Rightarrow> gnss_adapter option \<Rightarrow> gnss_adapter option \<Rightarrow> bool" where
  "newly_registered fresh client cb a a' \<longleftrightarrow>
     (\<exists>st'. a' = Some st' \<and>
        (let st = (case a of Some st \<Rightarrow> st | None \<Rightarrow> fresh)
         in queued_clients st' = (queued_clients st)(client \<mapsto> cb) \<and> mClientData st' = mClientData st \<and>
            mTrackingSessions st' = mTrackingSessions st))"

lemma add_client_registered:
  assumes "add_client client cb found GNSS ([], w, g) = (out, w', g')" "a \<noteq> None \<longleftrightarrow> interfaces g GNSS"
  shows "if isGnssClient cb \<and> interfaces g' GNSS then newly_registered fresh client cb a (gnss_calls fresh ca out a)
    else gnss_calls fresh ca out a = a \<and> interfaces g' GNSS = interfaces g GNSS"
  using assms
  by (cases a) (auto simp: add_client_def load_interface_def gnss_calls_simps gi_initialize_def gi_addClient_def
      gi_requestCapabilities_def addClientCommand_def requestCapabilitiesCommand_def ga_sendMsg_def newly_registered_def queued_clients_def
      Let_def split: if_splits)

lemma add_all_registered:
  assumes "add_all client cb found w g = (out, w', g')" "a \<noteq> None \<longleftrightarrow> interfaces g GNSS"
  shows "if isGnssClient cb \<and> interfaces g' GNSS then newly_registered fresh client cb a (gnss_calls fresh ca out a)
    else gnss_calls fresh ca out a = a \<and> interfaces g' GNSS = interfaces g GNSS"
proof -
  obtain o1 w1 g1 where 1: "add_client client cb found GNSS ([], w, g) = (o1, w1, g1)" by (metis prod_cases3)
  obtain o2 w2 g2 where 2: "add_client client cb found FLP (o1, w1, g1) = (o2, w2, g2)" by (metis prod_cases3)
  have 3: "add_client client cb found GEOFENCE (o2, w2, g2) = (out, w', g')" using assms(1) 1 2 by (simp add: add_all_def)
  show ?thesis
    using add_client_registered [OF 1 assms(2), of fresh ca] add_client_other(1) [OF _ 2, of fresh ca a]
      add_client_other(1) [OF _ 3, of fresh ca a] add_client_other(2) [OF _ 2] add_client_other(2) [OF _ 3] by simp
qed

definition is_fresh :: "gnss_adapter \<Rightarrow> bool" where
  "is_fresh fresh \<longleftrightarrow> mClientData fresh = [] \<and> mTrackingSessions fresh = [] \<and> mMsgs fresh = []"

lemma add_all_stack_inv:
  assumes inv: "stack_inv (g, a)" and fresh: "is_fresh fresh" and add: "add_all client cb found w g = (out, w', g')"
    and old: "\<And>old. clientData g client = Some old \<Longrightarrow> isGnssClient old \<Longrightarrow> isGnssClient cb"
  shows "stack_inv (g'\<lparr>clientData := (clientData g')(client \<mapsto> cb)\<rparr>, gnss_calls fresh ca out a)"
proof -
  note s = add_all_simps [OF add]
  have a: "a \<noteq> None \<longleftrightarrow> interfaces g GNSS" using inv by (simp add: stack_inv_def)
  note r = add_all_registered [OF add a, of fresh ca]
  let ?g = "g'\<lparr>clientData := (clientData g')(client \<mapsto> cb)\<rparr>"
  have gc: "gnss_clients ?g = (gnss_clients g)(client := if isGnssClient cb then Some cb else None)"
    by (auto simp: gnss_clients_def s(2) fun_eq_iff)
  have loaded: "interfaces g' GNSS \<or> loadFailed g' GNSS" if "gnss_clients ?g \<noteq> Map.empty"
  proof (cases "isGnssClient cb")
    case True
    then show ?thesis using s(5) [of GNSS] by simp
  next
    case False
    then have "gnss_clients g \<noteq> Map.empty" using that by (auto simp: gc)
    then show ?thesis using inv s(4) s(6) by (auto simp: stack_inv_def)
  qed
  show ?thesis
  proof (cases "isGnssClient cb \<and> interfaces g' GNSS")
    case True
    then obtain st' where st': "gnss_calls fresh ca out a = Some st'"
      "queued_clients st' = (queued_clients (case a of Some st \<Rightarrow> st | None \<Rightarrow> fresh))(client \<mapsto> cb)"
      "mClientData st' = mClientData (case a of Some st \<Rightarrow> st | None \<Rightarrow> fresh)"
      "mTrackingSessions st' = mTrackingSessions (case a of Some st \<Rightarrow> st | None \<Rightarrow> fresh)"
      using r by (auto simp: newly_registered_def Let_def)
    have "queued_clients (case a of Some st \<Rightarrow> st | None \<Rightarrow> fresh) = gnss_clients g \<and> owned (case a of Some st \<Rightarrow> st | None \<Rightarrow> fresh)"
    proof (cases a)
      case None
      then have "\<not> interfaces g GNSS" using a by simp
      moreover have "\<not> loadFailed g GNSS" using s(7) [of GNSS] True \<open>\<not> interfaces g GNSS\<close> by blast
      ultimately have "gnss_clients g = Map.empty" using inv by (auto simp: stack_inv_def)
      then show ?thesis using fresh None by (simp add: is_fresh_def queued_clients_def owned_def)
    next
      case (Some st)
      then show ?thesis using inv by (simp add: stack_inv_def)
    qed
    then show ?thesis using st' True by (simp add: stack_inv_def gc owned_def)
  next
    case False
    then have same: "gnss_calls fresh ca out a = a" "interfaces g' GNSS = interfaces g GNSS" using r by auto
    show ?thesis
    proof (cases a)
      case None
      then show ?thesis using inv same loaded a by (auto simp: stack_inv_def)
    next
      case (Some st)
      then have "interfaces g' GNSS" "\<not> isGnssClient cb" using a same(2) False by auto
      moreover have "gnss_clients g client = None"
        using old \<open>\<not> isGnssClient cb\<close> by (auto simp: gnss_clients_def split: option.split)
      ultimately have "gnss_clients ?g = gnss_clients g" by (simp add: gc fun_eq_iff)
      then show ?thesis using inv same Some \<open>interfaces g' GNSS\<close> by (simp add: stack_inv_def)
    qed
  qed
qed

lemma destroy_stack_inv:
  assumes inv: "stack_inv (g, a)" and d: "api_destroy client g = (out, g')"
  shows "stack_inv (g', gnss_calls fresh ca out a)"
proof (cases "clientData g client")
  case None
  then show ?thesis using assms by (simp add: api_destroy_def gnss_calls_simps)
next
  case (Some cb)
  then have g': "g' = g\<lparr>clientData := (clientData g)(client := None)\<rparr>"
    and out: "out = remove_call client cb g GNSS @ remove_call client cb g FLP @ remove_call client cb g GEOFENCE"
    using d by (auto simp: api_destroy_def)
  have gc: "gnss_clients g' = (gnss_clients g)(client := None)" by (auto simp: g' gnss_clients_def fun_eq_iff)
  have calls: "gnss_calls fresh ca out x = (if isGnssClient cb \<and> interfaces g GNSS then gi_removeClient client x else x)" for x
    by (simp add: out remove_call_def gnss_calls_simps)
  have i: "interfaces g' = interfaces g" "loadFailed g' = loadFailed g" by (simp_all add: g')
  have ne: "gnss_clients g' \<noteq> Map.empty \<Longrightarrow> gnss_clients g \<noteq> Map.empty" by (auto simp: gc)
  show ?thesis
  proof (cases a)
    case None
    then show ?thesis using inv ne by (auto simp: stack_inv_def calls i gi_removeClient_def)
  next
    case (Some st)
    then have st: "interfaces g GNSS" "queued_clients st = gnss_clients g" "owned st" using inv by (simp_all add: stack_inv_def)
    show ?thesis
    proof (cases "isGnssClient cb")
      case True
      then show ?thesis using st
        by (simp add: stack_inv_def calls i Some gi_removeClient_def removeClientCommand_def gc ga_sendMsg_def queued_clients_def owned_def)
    next
      case False
      then have "gnss_clients g client = None" using \<open>clientData g client = Some cb\<close> by (simp add: gnss_clients_def)
      then have "gnss_clients g' = gnss_clients g" by (simp add: gc fun_eq_iff)
      then show ?thesis using False st by (simp add: stack_inv_def calls i Some)
    qed
  qed
qed

lemma table_stack_inv:
  assumes inv: "stack_inv (g, a)" and fresh: "is_fresh fresh" and step: "api_step keeps_kinds g out g'"
  shows "stack_inv (g', gnss_calls fresh ca out a)"
  using step
proof (cases rule: api_step.cases)
  case (create client cb found r)
  show ?thesis
  proof (cases "mandatory cb")
    case True
    obtain o1 w g1 where add: "add_all client cb found True g = (o1, w, g1)" by (metis prod_cases3)
    then have "out = o1" "g' = g1\<lparr>clientData := (clientData g1)(client \<mapsto> cb)\<rparr>"
      using create(2) True add_all_simps(2) [OF add] by (auto simp: createInstance_add_all)
    then show ?thesis using add_all_stack_inv [OF inv fresh add, of ca] create(1) by auto
  next
    case False
    then show ?thesis using create(2) inv by (simp add: createInstance_add_all gnss_calls_simps)
  qed
next
  case (destroy client)
  then show ?thesis using destroy_stack_inv [OF inv] by simp
next
  case (update client old cb found)
  show ?thesis
  proof (cases "mandatory cb")
    case True
    obtain o1 w g1 where add: "add_all client cb found False g = (o1, w, g1)" by (metis prod_cases3)
    then have "out = o1" "g' = g1\<lparr>clientData := (clientData g1)(client \<mapsto> cb)\<rparr>"
      using update(3) True by (auto simp: updateCallbacks_add_all)
    moreover have "isGnssClient old' \<Longrightarrow> clientData g client = Some old' \<Longrightarrow> isGnssClient cb" for old'
      using keeps_kindsD [OF update(2), of GNSS] update(1) by simp
    ultimately show ?thesis using add_all_stack_inv [OF inv fresh add, of ca] by auto
  next
    case False
    then show ?thesis using update(3) inv by (simp add: updateCallbacks_add_all gnss_calls_simps)
  qed
next
  case (control has found new r)
  show ?thesis
  proof (cases "has \<and> controlAPI g = None")
    case True
    obtain o1 g1 where l: "load_interface GNSS found g = (o1, g1)" by fastforce
    have same: "gnss_clients g' = gnss_clients g" and i: "interfaces g' = interfaces g1" "loadFailed g' = loadFailed g1"
      using control True l load_interface_simps(2) [OF l] by (auto simp: control_createInstance_def gnss_clients_def fun_eq_iff split: if_splits)
    have out: "gnss_calls fresh ca out a =
        (if interfaces g1 GNSS then gi_setControlCallbacks True (arg_collective ca) (gnss_calls fresh ca o1 a) else gnss_calls fresh ca o1 a)"
      using control True l by (auto simp: control_createInstance_def gnss_calls_simps split: if_splits)
    have send: "same_registration st (ga_sendMsg (MsgSetControlCallbacks True x) st)" for st x
      by (rule send_same) (simp add: fun_eq_iff)
    have "stack_inv (g', gnss_calls fresh ca o1 a)"
      using l inv fresh
      by (cases a) (auto simp: load_interface_def stack_inv_def same i gnss_calls_simps gi_initialize_def is_fresh_def
          queued_clients_def owned_def split: if_splits)
    then show ?thesis
      unfolding out using stack_inv_same [OF _ send, of g']
      by (cases "gnss_calls fresh ca o1 a") (auto simp: gi_setControlCallbacks_def setControlCallbacksCommand_def)
  next
    case False
    then show ?thesis using control inv by (auto simp: control_createInstance_def gnss_calls_simps)
  qed
next
  case control_end
  have "gnss_clients (g\<lparr>controlAPI := None\<rparr>) = gnss_clients g" by (simp add: gnss_clients_def fun_eq_iff)
  with control_end show ?thesis using inv by (cases a) (auto simp: gnss_calls_simps control_destroy_def stack_inv_def)
qed

section \<open>Every step keeps the invariant\<close>

lemma deliver_stack_inv:
  assumes ok: "\<And>n. fix_ok env n" and inv: "stack_inv (g, Some st)" and d: "ga_next env st = (out, st')"
  shows "stack_inv (g, Some st')"
proof (cases "mMsgs st")
  case Nil
  then show ?thesis using inv d by (simp add: ga_next_def)
next
  case (Cons msg ms)
  then have p: "ga_proc env msg (st\<lparr>mMsgs := ms\<rparr>) = (out, st')" using d by (simp add: ga_next_def)
  have "queued_clients st' = queued_clients st"
    using ga_proc_clients [OF p] clients_after_Cons [of msg ms] by (simp add: queued_clients_def Cons)
  moreover have "owned st'" using ga_proc_owned [OF ok _ p] inv by (simp add: stack_inv_def owned_def)
  ultimately show ?thesis using inv by (simp add: stack_inv_def)
qed

lemma requests_register_nothing:
  "startTracking client options ret g = (sid, out) \<Longrightarrow> registers_nothing out"
  "registers_nothing (stopTracking client sid g)"
  "registers_nothing (updateTrackingOptions client sid options g)"
  "control_enable techType ret g = (sid, out) \<Longrightarrow> registers_nothing out"
  "registers_nothing (control_disable sid g)"
  "control_gnssUpdateConfig rets g = (ids, out) \<Longrightarrow> registers_nothing out"
  "control_gnssDeleteAidingData ret g = (sid, out) \<Longrightarrow> registers_nothing out"
  by (auto simp: startTracking_def stopTracking_def updateTrackingOptions_def to_both_def control_enable_def control_disable_def
      to_interface_def control_gnssUpdateConfig_def control_gnssDeleteAidingData_def registers_def split: option.splits if_splits)

lemma stack_step_inv:
  assumes ok: "\<And>n. fix_ok env n" and fresh: "is_fresh fresh" and step: "stack_step env fresh s s'" and inv: "stack_inv s"
  shows "stack_inv s'"
  using step inv
proof (induction rule: stack_step.induct)
  case (table g out g' a ca)
  then show ?case using table_stack_inv [OF _ fresh] by simp
next
  case (other msg g st)
  have "same_registration st (ga_sendMsg msg st)" by (rule send_same) (simp add: fun_eq_iff clients_after_other other(1))
  then show ?case using other stack_inv_same by simp
next
  case (timeout g st)
  have "same_registration st (odcpi_timeout st)"
    by (simp add: odcpi_timeout_def ga_sendMsg_def same_registration_def queued_clients_def)
  then show ?case using timeout stack_inv_same by simp
next
  case (deliver st out st' g)
  then show ?case using deliver_stack_inv [OF ok] by simp
qed (blast intro: stack_inv_other_calls requests_register_nothing)+

lemma stack_inv_reachable:
  assumes "\<And>n. fix_ok env n" "is_fresh fresh" "(stack_step env fresh)\<^sup>*\<^sup>* (gData_init, None) s"
  shows "stack_inv s"
  using assms(3)
proof (induction rule: rtranclp_induct)
  case base
  show ?case by (simp add: stack_inv_def gData_init_def gnss_clients_def fun_eq_iff)
next
  case (step s s')
  then show ?case using stack_step_inv [OF assms(1,2)] by blast
qed

text \<open>C18: when no call of the modem to start or stop a fix fails, then in every reachable state of the location API and the adapter below it, after
  clients were created, updated, destroyed and have started, updated and stopped sessions, with the adapter's thread any number of
  messages behind: the adapter's clients, once it has handled what is queued, are exactly the living clients of the API that are clients of the GNSS
  interface, with their current callbacks; every tracking session belongs to a client of the adapter; and so, when the queue is
  empty, to a client object that exists. Updates of callbacks do not give up an interface.\<close>

theorem sessions_of_living_clients:
  assumes "\<And>n. fix_ok env n" "(stack_step env (new_adapter conf counter))\<^sup>*\<^sup>* (gData_init, None) (g, Some st)"
  shows "clients_after (mMsgs st) (map_of (mClientData st)) = gnss_clients g \<and>
    sk_client ` fst ` set (mTrackingSessions st) \<subseteq> dom (map_of (mClientData st)) \<and>
    (mMsgs st = [] \<longrightarrow> sk_client ` fst ` set (mTrackingSessions st) \<subseteq> dom (clientData g))"
proof -
  have "is_fresh (new_adapter conf counter)" by (simp add: is_fresh_def new_adapter_def)
  from stack_inv_reachable [OF assms(1) this assms(2)]
  have q: "clients_after (mMsgs st) (map_of (mClientData st)) = gnss_clients g"
    and o: "sk_client ` fst ` set (mTrackingSessions st) \<subseteq> dom (map_of (mClientData st))"
    by (simp_all add: stack_inv_def queued_clients_def owned_def dom_map_of_conv_image_fst [of "mTrackingSessions st"])
  have "dom (gnss_clients g) \<subseteq> dom (clientData g)" by (auto simp: gnss_clients_def split: option.splits if_splits)
  with q o show ?thesis by (metis clients_after.simps(1) subset_trans)
qed

section \<open>Examples\<close>

text \<open>A client is created, the adapter handles its registration, the client starts a session, which is handled.\<close>

abbreviation (input) ex_ca :: call_args where
  "ex_ca \<equiv> \<lparr>arg_size = 16, arg_collective = True, arg_config = ex_update\<rparr>"

lemma stack_steps_deliver:
  "(stack_step env fresh)\<^sup>*\<^sup>* s (g, Some st) \<Longrightarrow> (stack_step env fresh)\<^sup>*\<^sup>* s (g, Some (snd (ga_next env st)))"
  by (erule rtranclp.rtrancl_into_rtrancl) (rule stack_step.deliver [OF surjective_pairing])

theorem sessions_of_living_clients_witness:
  "\<exists>g st. (stack_step ex_env (new_adapter ex_conf 0))\<^sup>*\<^sup>* (gData_init, None) (g, Some st) \<and> mMsgs st = [] \<and>
     sk_client ` fst ` set (mTrackingSessions st) = {7} \<and> {7} \<subseteq> dom (clientData g) \<and>
     clients_after (mMsgs st) (map_of (mClientData st)) = gnss_clients g"
proof -
  let ?fresh = "new_adapter ex_conf 0" and ?opts = "\<lparr>minInterval = 1000, minDistance = 0, suplMode = GNSS_SUPL_MODE_STANDALONE\<rparr>"
  define g where "g = snd (snd (createInstance tracking_callbacks (\<lambda>i. i = GNSS) 7 gData_init))"
  define s1 where "s1 = ga_sendMsg (MsgRequestCapabilities 7) (ga_sendMsg (MsgAddClient 7 tracking_callbacks) ?fresh)"
  define s2 where "s2 = snd (ga_next ex_env s1)"
  define s3 where "s3 = snd (ga_next ex_env s2)"
  define s4 where "s4 = snd (startTrackingCommand 7 (with_size ex_ca ?opts) s3)"
  define s5 where "s5 = snd (ga_next ex_env s4)"
  have c: "createInstance tracking_callbacks (\<lambda>i. i = GNSS) 7 gData_init =
      (Some 7, [(GNSS, Initialize), (GNSS, AddClient 7 tracking_callbacks), (GNSS, RequestCapabilities 7)], g)"
    "clientData g = [7 \<mapsto> tracking_callbacks]" "interfaces g GNSS" "\<not> interfaces g FLP"
    by (simp_all add: g_def createInstance_def add_client_def load_interface_def gData_init_def callbacks_simps)
  have s1: "gnss_calls ?fresh ex_ca [(GNSS, Initialize), (GNSS, AddClient 7 tracking_callbacks), (GNSS, RequestCapabilities 7)] None = Some s1"
    by (simp add: gnss_calls_simps gi_initialize_def gi_addClient_def gi_requestCapabilities_def addClientCommand_def
        requestCapabilitiesCommand_def s1_def)
  have "api_step keeps_kinds gData_init [(GNSS, Initialize), (GNSS, AddClient 7 tracking_callbacks), (GNSS, RequestCapabilities 7)] g"
    by (rule api_step.create [OF _ c(1)]) (simp add: gData_init_def)
  from stack_step.table [OF this, of ex_env ?fresh None ex_ca]
  have r1: "(stack_step ex_env ?fresh)\<^sup>*\<^sup>* (gData_init, None) (g, Some s1)" unfolding s1 by (rule r_into_rtranclp)
  have r3: "(stack_step ex_env ?fresh)\<^sup>*\<^sup>* (gData_init, None) (g, Some s3)"
    unfolding s3_def s2_def by (intro stack_steps_deliver r1)
  have "startTracking 7 ?opts (\<lambda>_. fst (gi_startTracking 7 (with_size ex_ca ?opts) (Some s3))) g =
      (fst (gi_startTracking 7 (with_size ex_ca ?opts) (Some s3)), [(GNSS, StartTracking 7 ?opts)])"
    by (simp add: startTracking_def c(2,3,4))
  from stack_step.start [OF this, of ex_ca "Some s3" ex_env ?fresh]
  have "stack_step ex_env ?fresh (g, Some s3) (g, Some s4)"
    by (simp add: gnss_calls_simps gi_startTracking_def s4_def split: prod.splits)
  with r3 have r5: "(stack_step ex_env ?fresh)\<^sup>*\<^sup>* (gData_init, None) (g, Some s5)"
    unfolding s5_def by (intro stack_steps_deliver) (rule rtranclp.rtrancl_into_rtrancl)
  note d = s1_def s2_def s3_def s4_def s5_def ga_sendMsg_def new_adapter_def ga_next_def saveClient_def updateClientsEventMask_def
    startTrackingCommand_def generateSessionId_def start_tracking_proc_def hasTrackingCallback_def startTrackingMultiplex_def
    ga_startTracking_def api_startFix_def saveTrackingSession_def with_size_def LocationOptions.extend_def TrackOptions.fields_def
    tracking_callbacks_def Let_def
  have m: "mMsgs s5 = []" "mTrackingSessions s5 = [(SessionKey 7 1, with_size ex_ca ?opts)]" by (simp_all add: d)
  have "fix_ok ex_env n" for n by simp
  from sessions_of_living_clients [OF this r5] m c(2) r5 show ?thesis
    by (intro exI [of _ g] exI [of _ s5]) simp
qed

text \<open>
  Where the modem refuses to stop, the client is erased all the same and its session remains: no message of a client can end it any more.
\<close>

lemma failed_stop_orphans_session:
  assumes "\<not> ulp_takes_stop env" "\<not> fix_ok env (apiCalls st)" "mTrackingSessions st = [(SessionKey client sid, options)]"
    and "ga_proc env (MsgRemoveClient client) st = (out, st')"
  shows "mTrackingSessions st' = [(SessionKey client sid, options)]" "map_of (mClientData st') client = None"
proof -
  obtain o2 where "eraseClient env client (st\<lparr>apiCalls := Suc (apiCalls st)\<rparr>) = (o2, st')"
    using assms by (auto simp: stopClientSessions_def stopTrackingMultiplex_def ga_stopTracking_def api_stopFix_def Let_def
        split: prod.splits)
  from mask_clients(2) [OF this] assms(3)
  show "mTrackingSessions st' = [(SessionKey client sid, options)]" "map_of (mClientData st') client = None" by simp_all
qed

end
