(* ===== verification/Spec2Isabelle.thy ===== *)
theory Spec2Isabelle
  imports Loc_Timer Loc_Thread Agps Location_Client_Props Os_Observer_Props Loc_Process_Props Location_API_Props
    Gnss_Requests_Props Gnss_Ni_Props System_Status_Props Nmea_Gen_Props Loc_Api_Props Loc_Context_Props Gnss_Reports_Props
    Gnss_Agps_Props Lights_Props Hal_Clients_Props Recovery_Updater_Props Loc_Ipc_Props Xtra_Observer_Props Device_Setup
    Location_Gnss_Props
begin

text \<open>
  A verification development of the OnePlus 3 device tree: its GPS stack, src/gps, its lights module,
  src/liblight, the updater's check of the modem, src/recovery, and the properties set at boot, src/init. The rest
  of the tree (camera, audio and power HALs, vendored headers) is not modelled.

  The program. The framework calls the HAL, gps/android, whose clients convert its types and pass its requests to
  gps/location: LocationAPIClientBase turns the calls of
  the HAL into calls of LocationAPI, remembers them in queues and dictionaries, and LocationAPI hands
  them to the interfaces it loads at run time. The GNSS interface is GnssAdapter (gps/gnss): every command
  becomes a message for the adapter's thread, which multiplexes the sessions onto the modem. Beside it
  stand the AGPS manager (gps/gnss/Agps) and the observer of data items (gps/core/SystemStatusOsObserver).
  All of them run on gps/utils: a message queue over a linked list, message tasks and threads, timers
  over a heap, and the reader of the configuration files.

  The theories, bottom up, with the code they model.

  \<^item> Prelude: the shared named collections, generic lemmas, decimal printing.
  \<^item> Fifo_Spec: the contract of a first-in first-out store, a locale. Linked_List (linked_list.c)
    provides it on an explicit store of cells, Msg_Queue (msg_q.c) uses it and provides it again with the
    calls of several threads interleaved; the request queues of Client_Base are a third instance.
    Shown: the list and the queue refine a sequence; search removes the newest match; destroy
    frees every element once; no wake-up is lost and a waiting receiver gets its message.
  \<^item> Loc_Thread (LocThread.cpp, MsgTask.cpp): the delegate shared by a client and its thread, as an
    interleaving of their steps. Shown: it is freed exactly once; a message task processes what was sent,
    in order.
  \<^item> Priority_Queue: the contract of a ranked store, a locale; Loc_Heap (LocHeap.cpp) provides it. Shown:
    every operation keeps the invariant that checkNodes tests, pops are in rank order, remove is
    exact.
  \<^item> Loc_Timer (LocTimer.cpp): the two timer containers, their messages and the poll thread, over the heap.
    Shown: delegates are deleted once, the timerfd is armed whenever a timer waits, a stopped
    timer is not called back, due timers expire in order.
  \<^item> Agps (Agps.cpp, Agps.h): the state machines of the data connections and their manager. Callbacks
    are outputs. Shown: the machines stay consistent, a subscriber that is dropped has been answered, the
    protocol of one connection.
  \<^item> Std_Map, Client_Base, Location_Client, Location_Client_Props (LocationAPIClientBase.cpp and .h):
    std::map as sorted association lists, the request queues and two-way dictionaries, every call and
    every callback of the client. Shown: the dictionaries stay inverse to each other, ids are translated
    back exactly, tracking requests are answered in order.
  \<^item> Location_API, Location_API_Props (LocationAPI.cpp): the table of clients, loading of interfaces, dispatch.
    Shown: the clients registered with an interface are exactly those of its kind; a tracking
    request reaches exactly the interface of its client.
  \<^item> Set_Map, Os_Observer, Os_Observer_Props (LocUnorderedSetMap.h, SystemStatusOsObserver.cpp and .h): the map of
    sets and the two subscription maps with the cache. Shown: the set map refines a relation, the
    two maps are converse, the framework's subscription follows, a notification reaches exactly its subscribers.
  \<^item> Loc_Cfg, Loc_Cfg_Props, Loc_Process_Conf, Loc_Process_Props (loc_cfg.cpp, loc_misc_utils.cpp): parsing of lines,
    values and the process list. Shown: numbers written are read back, splitting agrees with a
    reference, counting ends, every block is read, and when a process is launched.
  \<^item> Gnss_Config, Gnss_Adapter, Gnss_Adapter_Props, Gnss_Requests_Props (GnssAdapter.cpp and .h, LocAdapterBase.cpp,
    ContextBase.cpp): conversions, clients, tracking, configuration updates, power vote, ODCPI. Shown: the
    modem's fix session runs at the smallest interval of the sessions, ODCPI requests are throttled
    and retried, updates are answered, the GPS lock follows the vote, the event mask follows the clients.
  \<^item> Gnss_Ni, Gnss_Ni_Props (GnssAdapter.cpp, requestNiNotify to niThreadProc): network initiated requests, the
    adapter's messages interleaved with the two session threads. Shown: a raw request is disposed of
    exactly once, an outstanding request has its thread.
  \<^item> Nmea_Debug, System_Status, System_Status_Props (SystemStatus.cpp and .h): the tokenizer and parsers of the
    modem's debug sentences and the cache of reports. Shown: a printed sentence is cut into its fields, a
    vector holds the last five changes, the network item tracks the connected types.
  \<^item> Nmea_Gen, Nmea_Gen_Props (loc_nmea.cpp): the sentences printed for satellites and positions into a buffer of
    200 characters. Shown: every satellite in view is listed once, nothing is cut, each sentence carries
    a valid checksum, and which sentences a position gives.

  \<^item> Loc_Api_Base, Loc_Api_Props (LocApiBase.cpp and .h, LocAdapterBase.h): the base class of the modem interface, its
    array of adapters and the events that are opened at the modem. Shown: the array has no hole and no
    duplicate, the modem is opened for exactly the wanted events, calls reach the right adapters, coded
    addresses and hexadecimal texts can be read back.

  \<^item> Loc_Context, Loc_Context_Props (ContextBase.cpp and .h, LocDualContext.cpp and .h): the configuration files with
    their defaults, the choice of the modem interface, the foreground and the background context. Shown: every
    member holds what the file says last or its default; each context is created once.

  \<^item> Gnss_Reports, Gnss_Reports_Props (GnssAdapter.cpp): positions, satellites, sentences and measurements on their way
    to the clients through the cache of System_Status and the generator of Nmea_Gen, the injection commands and
    the debug report. Shown: a converted position keeps exactly the valid members, a satellite is marked as used
    exactly when the last reported position used it, delivered sentences are well-formed and never the
    debug sentences, the debug report shows every satellite once with the exact time.

  \<^item> Gnss_Agps, Gnss_Agps_Props (GnssAdapter.cpp, android/AGnss.cpp): the way of assisted GNSS from the modem through
    the adapter's queue to the manager of Agps and from there to the HAL's framework callback and back. Shown:
    once initialised, no message ends abnormally and the manager moves by its own steps, so that what is shown
    in Agps holds for the whole; the framework is asked through the last callback of the highest priority.

  \<^item> Location_Gnss, Location_Gnss_Props (gnss/location_gnss.cpp): the table through which the location API calls the adapter, and the
    API, the table and the adapter's queue as one system of steps. Shown: the adapter follows the API's clients, with their
    callbacks, and no session is left without a living client if no call of the modem fails; a lemma gives the session that a
    failed call leaves behind.

  \<^item> Lights, Lights_Props (liblight/lights.c): the lights module over the files of the kernel's LED drivers. Shown: after any
    calls the shared RGB light shows the state of the highest priority that is lit, with its timing; the
    user's brightness scales every component exactly.

  \<^item> Hal_Types, Gnss_Hal, Gnss_Hal_Props (android/location_api/LocationUtil.cpp and GnssAPIClient.cpp, android/Gnss.cpp,
    GnssConfiguration.cpp, GnssNi.cpp, AGnss::setServer): the HAL's GNSS object, its client on top of Location_Client, and the
    conversions between the framework's types and those of the stack. Shown: locations survive the
    conversions, the framework sees as used exactly the satellites of Gnss_Reports, a setting of the framework is the
    adapter's, configurations that come too early are merged and delivered once, the engine's status
    follows the requests in order. The client is shown to be the one of Location_Client, whose invariant it inherits.

  \<^item> Hal_Clients, Hal_Measurements, Hal_Clients_Props (GeofenceAPIClient.cpp, GnssGeofencing.cpp, BatchingAPIClient.cpp,
    GnssBatching.cpp, MeasurementAPIClient.cpp, GnssMeasurement.cpp, GnssDebug.cpp): the other services of the HAL. Shown: a
    geofence is answered and reported under the framework's id, measurements are delivered exactly while a
    callback is set and with the flags of the modem, the debug data are complete and within the interface's limits.

  \<^item> Loc_Ipc, Loc_Ipc_Props (utils/LocIpc.cpp): messages over a local datagram socket, the long ones in parts. Shown: a
    listener receives exactly the messages that were sent, in order and whole, when none of them begins like a control
    message and no stale digit follows the head in the buffer; a lemma gives the stale digit that breaks a message.

  \<^item> Xtra_Observer, Xtra_Observer_Props (gnss/XtraSystemStatusObserver.cpp, android/AGnssRil.cpp): the client of the XTRA daemon and
    the framework's network state. Shown: once the daemon has asked, it is told every state and change, and
    what it was told last about the connections is what the calls of the framework say; with System_Status between the two.

  \<^item> Device_Setup (utils/loc_target.cpp, init/init_oneplus3.cpp): the kind of GNSS hardware and the properties of the model at
    boot. Shown: the target is detected once and is one of seven; which properties can be new.

  \<^item> Recovery_Updater, Recovery_Updater_Props (recovery/recovery_updater.cpp): the Boyer-Moore search for the modem's version stamp and
    the function of the updater. Shown: for a pattern without a border, such as the stamp's, the search
    terminates inside the arrays and finds the first occurrence; a lemma gives a bordered pattern it misses.

  How the model corresponds to the code. Structs are records, enumerations datatypes, machine integers
  words or numbers with the wrap-around written out, std::map and the hash maps association lists (sorted, or
  in an arbitrary order). A function of the code is a function of the model that threads the state;
  calls of other components and callbacks are outputs, results of code outside the component (modem,
  libraries, allocation, the C library) are arguments. Threads are interleavings of atomic steps in
  inductive relations; a message handler is one step. Loops are structural recursions, recursions with a
  measure, or partial functions: count_loop of Loc_Process_Conf may not end in principle and is shown to end;
  block_loop of the same theory has fuel, the number of blocks counted before, which is what the code loops to.

  Not modelled.

  \<^item> Loc_Timer: LocSharedLock, epoll errors, the C wrapper; an expiry loop is one step.
  \<^item> Loc_Thread: thread names and scheduling policies.
  \<^item> Agps: the length of access point names; memory that was freed is read unchanged, addresses are not reused.
  \<^item> Client: a response is handled in one step, callbacks do not re-enter.
  \<^item> Os_Observer: the unsynchronised access to its reference counts from two threads.
  \<^item> Loc_Cfg: files, atof and the group database are parameters; string destinations hold 81 bytes; logging.
  \<^item> Gnss_Adapter: the ULP proxy is a result of its calls; the loading of the AGPS library.
  \<^item> Gnss_Agps: the library functions are results of its environment.
  \<^item> Gnss_Hal: the getters of the extensions, which create one object each; loading libgnss.so is a result of the
    environment; calls of the framework succeed; a callback that runs while the framework changes its callback.
  \<^item> Hal_Clients, Hal_Measurements: floating point numbers; the age of the debug position is a function of its time.
  \<^item> Location_Gnss: the parts of the adapter are separate states; a response to a network initiated request is in Gnss_Ni.
  \<^item> Gnss_Reports: floating point numbers and the time of a notification; the data of measurements and polynomials.
  \<^item> Lights: a file that is written shows the text written last; what the drivers do with it; allocation of the duty string.
  \<^item> Gnss_Ni: notification texts; the creation of a session's thread succeeds.
  \<^item> Nmea_Gen: floating point numbers, printf of them, gmtime; the unused DOP members.
  \<^item> System_Status: floating point numbers and uninitialised memory are parameters; the dump functions.
  \<^item> Loc_Ipc: the names of sockets, stopListening and the thread of startListeningNonBlocking, which runs the same loop.
  \<^item> Xtra_Observer: subscriptions and the starting of the daemon are outputs; the delivery of an accepted item to the observer is
    shown in Os_Observer.
  \<^item> Recovery_Updater: an empty pattern; the reading of a date is a parameter; the text is shorter than what an int counts.
  \<^item> Device_Setup: the files and properties of the device are arguments.
  \<^item> The parts listed as not modelled in the manifest: logging, service.cpp, the
    PPS driver, the factory of data items, the other HALs: input and output or glue.
\<close>

end
